(* ===== verification/LX_Prelude.thy ===== *)
theory LX_Prelude
  imports Main "HOL-Library.Word"
begin

text \<open>
  Shared ground of the development: machine integers, Rust results, Rust strings and the
  generic lemmas the component theories use.

  \<^item> \<open>u8 .. u64\<close> are words of the width of the Rust type; \<open>usize\<close> is the 64-bit one.
  \<^item> \<open>('a, 'e) result\<close> is \<^verbatim>\<open>Result<T, E>\<close> with the source's two constructors.
  \<^item> \<open>rstring\<close> is a Rust string as the list of its Unicode scalar values, so that
    \<^verbatim>\<open>chars().count()\<close> is \<open>length\<close> and \<^verbatim>\<open>len()\<close> is the length of the UTF-8
    form, \<open>str_len\<close>. \<open>ascii\<close> turns an ASCII literal into such a list; the
    Chinese message texts of the source are written as lists of code points.
\<close>

named_theorems lx_defs \<open>unfolding rules of the small record-level operations\<close>
named_theorems lx_inv \<open>preservation lemmas of the component invariants\<close>

section \<open>Machine integers\<close>

type_synonym u8 = "8 word"
type_synonym u16 = "16 word"
type_synonym u32 = "32 word"
type_synonym u64 = "64 word"
type_synonym usize = "64 word"
type_synonym i16 = "16 word"
type_synonym i32 = "32 word"
type_synonym i64 = "64 word"

text \<open>The unsigned \<^verbatim>\<open>saturating_add\<close>, \<^verbatim>\<open>saturating_mul\<close> and \<^verbatim>\<open>saturating_sub\<close>.\<close>

definition saturating_add :: "'a::len word \<Rightarrow> 'a word \<Rightarrow> 'a word" where
  "saturating_add a b = (if unat a + unat b < 2 ^ LENGTH('a) then a + b else - 1)"

definition saturating_mul :: "'a::len word \<Rightarrow> 'a word \<Rightarrow> 'a word" where
  "saturating_mul a b = (if unat a * unat b < 2 ^ LENGTH('a) then a * b else - 1)"

definition saturating_sub :: "'a::len word \<Rightarrow> 'a word \<Rightarrow> 'a word" where
  "saturating_sub a b = (if a \<le> b then 0 else a - b)"

lemma unat_minus_one_max: "unat (- 1 :: 'a::len word) = 2 ^ LENGTH('a) - 1"
  by (simp add: unat_eq_nat_uint uint_word_ariths(4) zmod_minus1 nat_diff_distrib nat_power_eq)

lemma unat_saturating_add:
  "unat (saturating_add a b) = min (unat a + unat b) (2 ^ LENGTH('a) - 1)"
  for a b :: "'a::len word"
  by (auto simp: saturating_add_def unat_word_ariths unat_minus_one_max)

lemma unat_saturating_mul:
  "unat (saturating_mul a b) = min (unat a * unat b) (2 ^ LENGTH('a) - 1)"
  for a b :: "'a::len word"
  by (auto simp: saturating_mul_def unat_word_ariths unat_minus_one_max)

lemma unat_saturating_sub: "unat (saturating_sub a b) = unat a - unat b"
  for a b :: "'a::len word"
  by (auto simp: saturating_sub_def word_le_nat_alt unat_sub_if' split: if_splits)

section \<open>Results\<close>

datatype ('a, 'e) result = Ok 'a | Err 'e

primrec is_ok :: "('a, 'e) result \<Rightarrow> bool" where
  "is_ok (Ok _) = True"
| "is_ok (Err _) = False"

definition is_err :: "('a, 'e) result \<Rightarrow> bool" where
  "is_err r \<longleftrightarrow> \<not> is_ok r"

primrec map_err :: "('e \<Rightarrow> 'f) \<Rightarrow> ('a, 'e) result \<Rightarrow> ('a, 'f) result" where
  "map_err f (Ok a) = Ok a"
| "map_err f (Err e) = Err (f e)"

primrec and_then :: "('a, 'e) result \<Rightarrow> ('a \<Rightarrow> ('b, 'e) result) \<Rightarrow> ('b, 'e) result" where
  "and_then (Ok a) f = f a"
| "and_then (Err e) f = Err e"

definition ok_or :: "'a option \<Rightarrow> 'e \<Rightarrow> ('a, 'e) result" where
  "ok_or o' e = (case o' of None \<Rightarrow> Err e | Some a \<Rightarrow> Ok a)"

text \<open>The operator \<^verbatim>\<open>?\<close> on an effectful call: an error ends the sequence with the state reached so far.\<close>

definition st_then :: "('a, 'e) result \<times> 's \<Rightarrow> ('a \<Rightarrow> 's \<Rightarrow> ('b, 'e) result \<times> 's) \<Rightarrow> ('b, 'e) result \<times> 's" where
  "st_then x f = (case x of (Ok a, s) \<Rightarrow> f a s | (Err e, s) \<Rightarrow> (Err e, s))"

lemma st_then_simps [simp]: "st_then (Ok a, s) f = f a s" "st_then (Err e, s) f = (Err e, s)"
  by (simp_all add: st_then_def)

text \<open>\<^verbatim>\<open>map_err\<close> on an effectful call.\<close>

definition on_err :: "('e \<Rightarrow> 'f) \<Rightarrow> ('a, 'e) result \<times> 's \<Rightarrow> ('a, 'f) result \<times> 's" where
  "on_err f x = (map_err f (fst x), snd x)"

lemma is_ok_iff: "is_ok r \<longleftrightarrow> (\<exists>a. r = Ok a)"
  by (cases r) auto

lemma is_err_simps [simp]: "is_err (Err e)" "\<not> is_err (Ok a)"
  by (auto simp: is_err_def)

lemma map_err_Ok_iff [simp]: "map_err f r = Ok a \<longleftrightarrow> r = Ok a"
  by (cases r) auto

lemma on_err_Ok_iff: "on_err f x = (Ok a, s) \<longleftrightarrow> x = (Ok a, s)"
  by (cases x) (auto simp: on_err_def)

lemma st_then_Ok_iff: "st_then x f = (Ok b, s') \<longleftrightarrow> (\<exists>a s. x = (Ok a, s) \<and> f a s = (Ok b, s'))"
  by (cases x; cases "fst x") auto

lemma and_then_Ok_iff: "and_then r f = Ok b \<longleftrightarrow> (\<exists>a. r = Ok a \<and> f a = Ok b)"
  by (cases r) auto

lemma map_err_Err_iff: "map_err f r = Err e \<longleftrightarrow> (\<exists>e'. r = Err e' \<and> e = f e')"
  by (cases r) auto

lemma and_then_Err_iff: "and_then r f = Err e \<longleftrightarrow> r = Err e \<or> (\<exists>a. r = Ok a \<and> f a = Err e)"
  by (cases r) auto

lemma ok_or_Ok_iff [simp]: "ok_or o' e = Ok a \<longleftrightarrow> o' = Some a"
  by (auto simp: ok_or_def split: option.splits)

section \<open>Strings\<close>

type_synonym uchar = nat
type_synonym rstring = "uchar list"

definition ascii :: "string \<Rightarrow> rstring" where
  "ascii s = map of_char s"

lemma ascii_eq_iff: "ascii s = ascii t \<longleftrightarrow> s = t"
  unfolding ascii_def by (intro inj_map_eq_map) (simp add: inj_on_def)

lemma length_ascii [simp]: "length (ascii s) = length s"
  by (simp add: ascii_def)

text \<open>The number of UTF-8 bytes of a scalar value and of a string (\<^verbatim>\<open>str::len\<close>).\<close>

definition len_utf8 :: "uchar \<Rightarrow> nat" where
  "len_utf8 c = (if c < 0x80 then 1 else if c < 0x800 then 2 else if c < 0x10000 then 3 else 4)"

definition str_len :: "rstring \<Rightarrow> nat" where
  "str_len s = sum_list (map len_utf8 s)"

text \<open>\<^verbatim>\<open>char::is_whitespace\<close> (Unicode White\_Space) and \<^verbatim>\<open>char::is_control\<close> (category Cc).\<close>

definition is_whitespace :: "uchar \<Rightarrow> bool" where
  "is_whitespace c \<longleftrightarrow>
     (9 \<le> c \<and> c \<le> 13) \<or> c = 0x20 \<or> c = 0x85 \<or> c = 0xA0 \<or> c = 0x1680 \<or>
     (0x2000 \<le> c \<and> c \<le> 0x200A) \<or> c = 0x2028 \<or> c = 0x2029 \<or> c = 0x202F \<or> c = 0x205F \<or> c = 0x3000"

definition is_control :: "uchar \<Rightarrow> bool" where
  "is_control c \<longleftrightarrow> c \<le> 0x1F \<or> (0x7F \<le> c \<and> c \<le> 0x9F)"

definition is_ascii_digit :: "uchar \<Rightarrow> bool" where
  "is_ascii_digit c \<longleftrightarrow> 0x30 \<le> c \<and> c \<le> 0x39"

definition is_ascii_uppercase :: "uchar \<Rightarrow> bool" where
  "is_ascii_uppercase c \<longleftrightarrow> 0x41 \<le> c \<and> c \<le> 0x5A"

definition is_ascii_lowercase :: "uchar \<Rightarrow> bool" where
  "is_ascii_lowercase c \<longleftrightarrow> 0x61 \<le> c \<and> c \<le> 0x7A"

definition is_ascii_alphanumeric :: "uchar \<Rightarrow> bool" where
  "is_ascii_alphanumeric c \<longleftrightarrow> is_ascii_digit c \<or> is_ascii_uppercase c \<or> is_ascii_lowercase c"

definition to_ascii_lowercase_char :: "uchar \<Rightarrow> uchar" where
  "to_ascii_lowercase_char c = (if is_ascii_uppercase c then c + 32 else c)"

definition to_ascii_lowercase :: "rstring \<Rightarrow> rstring" where
  "to_ascii_lowercase s = map to_ascii_lowercase_char s"

definition trim_start :: "rstring \<Rightarrow> rstring" where
  "trim_start s = dropWhile is_whitespace s"

definition trim_end :: "rstring \<Rightarrow> rstring" where
  "trim_end s = rev (dropWhile is_whitespace (rev s))"

definition trim :: "rstring \<Rightarrow> rstring" where
  "trim s = trim_end (trim_start s)"

lemmas ascii_class_defs =
  is_ascii_digit_def is_ascii_uppercase_def is_ascii_lowercase_def is_ascii_alphanumeric_def

lemma to_ascii_lowercase_char_idem [simp]:
  "to_ascii_lowercase_char (to_ascii_lowercase_char c) = to_ascii_lowercase_char c"
  by (auto simp: to_ascii_lowercase_char_def ascii_class_defs)

lemma to_ascii_lowercase_idem [simp]:
  "to_ascii_lowercase (to_ascii_lowercase s) = to_ascii_lowercase s"
  by (simp add: to_ascii_lowercase_def)

lemma length_to_ascii_lowercase [simp]: "length (to_ascii_lowercase s) = length s"
  by (simp add: to_ascii_lowercase_def)

lemma len_utf8_pos [simp]: "0 < len_utf8 c"
  by (simp add: len_utf8_def)

lemma str_len_Nil [simp]: "str_len [] = 0"
  by (simp add: str_len_def)

lemma str_len_Cons [simp]: "str_len (c # s) = len_utf8 c + str_len s"
  by (simp add: str_len_def)

lemma length_le_str_len: "length s \<le> str_len s"
proof (induction s)
  case (Cons c s)
  have "1 \<le> len_utf8 c" using len_utf8_pos [of c] by linarith
  with Cons show ?case by simp
qed simp

lemma str_len_ascii: "\<forall>c \<in> set s. c < 0x80 \<Longrightarrow> str_len s = length s"
  by (induction s) (auto simp: len_utf8_def)

lemma str_len_zero_iff [simp]: "str_len s = 0 \<longleftrightarrow> s = []"
  using length_le_str_len [of s] by (cases s) auto

text \<open>Evaluation of the string operations on literals.\<close>

lemmas string_eval = ascii_def of_char_def trim_def trim_start_def trim_end_def is_whitespace_def is_control_def
  ascii_class_defs str_len_def len_utf8_def to_ascii_lowercase_def to_ascii_lowercase_char_def

text \<open>Trimming removes nothing but leading and trailing white space, and is idempotent.\<close>

lemma dropWhile_rev_id:
  "xs = [] \<or> \<not> P (last xs) \<Longrightarrow> rev (dropWhile P (rev xs)) = xs"
  by (cases xs rule: rev_cases) auto

lemma last_trim: "trim s = [] \<or> \<not> is_whitespace (last (trim s))"
proof (cases "dropWhile is_whitespace (rev (trim_start s)) = []")
  case True
  then show ?thesis by (simp add: trim_def trim_end_def)
next
  case False
  then show ?thesis
    using hd_dropWhile [of is_whitespace "rev (trim_start s)"]
    by (simp add: trim_def trim_end_def last_rev)
qed

lemma trim_prefix: "\<exists>ws. trim_start s = trim s @ ws"
proof -
  have "trim_start s = trim s @ rev (takeWhile is_whitespace (rev (trim_start s)))"
    unfolding trim_def trim_end_def
    by (metis rev_append rev_rev_ident takeWhile_dropWhile_id)
  then show ?thesis ..
qed

lemma hd_trim: "trim s = [] \<or> \<not> is_whitespace (hd (trim s))"
proof (cases "trim s = []")
  case False
  obtain ws where ws: "trim_start s = trim s @ ws" using trim_prefix by blast
  with False have "hd (trim s) = hd (trim_start s)" "trim_start s \<noteq> []" by auto
  then show ?thesis
    using hd_dropWhile [of is_whitespace s] by (simp add: trim_start_def)
qed simp

lemma trim_idem [simp]: "trim (trim s) = trim s"
proof -
  have "trim_start (trim s) = trim s"
    using hd_trim [of s] by (cases "trim s") (auto simp: trim_start_def)
  then show ?thesis
    using last_trim [of s] by (simp add: trim_def [of "trim s"] trim_end_def dropWhile_rev_id)
qed

lemma set_trim: "set (trim s) \<subseteq> set s"
  by (auto simp: trim_def trim_end_def trim_start_def dest!: set_dropWhileD)

lemma trim_no_white: "(\<forall>c \<in> set s. \<not> is_whitespace c) \<Longrightarrow> trim s = s"
proof -
  assume a: "\<forall>c \<in> set s. \<not> is_whitespace c"
  have st: "trim_start s = s" using a by (cases s) (auto simp: trim_start_def)
  have "s = [] \<or> \<not> is_whitespace (last s)" using a by (metis last_in_set)
  then show ?thesis by (simp add: trim_def st trim_end_def dropWhile_rev_id)
qed

section \<open>Identifiers and time\<close>

text \<open>
  A \<^verbatim>\<open>uuid::Uuid\<close> is a 128-bit value; the generator \<^verbatim>\<open>Uuid::now_v7\<close>, the parser and the
  printer belong to the \<^verbatim>\<open>uuid\<close> crate and are parameters where they are used. A
  \<^verbatim>\<open>DateTime<Utc>\<close>, an \<^verbatim>\<open>Instant\<close> and a \<^verbatim>\<open>Duration\<close> are a number of nanoseconds; the
  clock is read by the caller and passed in.
\<close>

type_synonym uuid = "128 word"
type_synonym datetime = int
type_synonym instant = int
type_synonym duration = int

end
