(* ===== verification/LX_Text.thy ===== *)
theory LX_Text
  imports LX_Prelude
begin

text \<open>
  The non-ASCII message texts of the source, each as the list of its Unicode scalar values;
  the ASCII parts of a text are kept readable with \<open>ascii\<close>.
\<close>

definition reason_username_len :: rstring where
  "reason_username_len = [0x957F, 0x5EA6, 0x5FC5, 0x987B, 0x5728] @ ascii '' 3~32 '' @ [0x4E4B,
     0x95F4]"

definition reason_username_chars :: rstring where
  "reason_username_chars = [0x53EA, 0x80FD, 0x5305, 0x542B, 0x5B57, 0x6BCD, 0x3001, 0x6570,
     0x5B57, 0x4E0E, 0x4E0B, 0x5212, 0x7EBF]"

definition reason_nickname_len :: rstring where
  "reason_nickname_len = [0x957F, 0x5EA6, 0x5FC5, 0x987B, 0x5728] @ ascii '' 1~32 '' @ [0x4E2A,
     0x5B57, 0x7B26, 0x4E4B, 0x95F4]"

definition reason_no_control :: rstring where
  "reason_no_control = [0x4E0D, 0x5141, 0x8BB8, 0x5305, 0x542B, 0x63A7, 0x5236, 0x5B57, 0x7B26]"

definition reason_password_len :: rstring where
  "reason_password_len = [0x957F, 0x5EA6, 0x5FC5, 0x987B, 0x5728] @ ascii '' 8~128 '' @ [0x5B57,
     0x8282, 0x4E4B, 0x95F4]"

definition msg_room_full :: rstring where
  "msg_room_full = [0x623F, 0x95F4, 0x5DF2, 0x6EE1]"

definition msg_room_closed :: rstring where
  "msg_room_closed = [0x623F, 0x95F4, 0x5DF2, 0x5173, 0x95ED]"

definition msg_not_in_room :: rstring where
  "msg_not_in_room = [0x4E0D, 0x5728, 0x8BE5, 0x623F, 0x95F4, 0x4E2D]"

definition msg_illegal_transition :: rstring where
  "msg_illegal_transition = [0x975E, 0x6CD5, 0x72B6, 0x6001, 0x8FC1, 0x79FB]"

definition msg_room_missing :: rstring where
  "msg_room_missing = [0x623F, 0x95F4, 0x4E0D, 0x5B58, 0x5728]"

definition reason_channel_closed :: rstring where
  "reason_channel_closed = [0x623F, 0x95F4, 0x901A, 0x9053, 0x5DF2, 0x5173, 0x95ED]"

definition reason_last_left :: rstring where
  "reason_last_left = [0x6700, 0x540E, 0x4E00, 0x540D, 0x6210, 0x5458, 0x5DF2, 0x79BB, 0x5F00]"

definition msg_join_unknown :: rstring where
  "msg_join_unknown = [0x623F, 0x95F4, 0x5DF2, 0x5173, 0x95ED] @ ascii '','' @ [0x52A0, 0x5165,
     0x7ED3, 0x679C, 0x672A, 0x77E5]"

definition msg_chat_empty :: rstring where
  "msg_chat_empty = [0x804A, 0x5929, 0x5185, 0x5BB9, 0x4E0D, 0x80FD, 0x4E3A, 0x7A7A]"

definition msg_chat_long :: rstring where
  "msg_chat_long = [0x804A, 0x5929, 0x5185, 0x5BB9, 0x4E0D, 0x80FD, 0x8D85, 0x8FC7] @ ascii '' 512 '' @ [0x5B57]"

definition msg_leave_unfinished :: rstring where
  "msg_leave_unfinished = [0x79BB, 0x623F, 0x64CD, 0x4F5C, 0x672A, 0x5B8C, 0x6210]"

definition msg_bad_credentials :: rstring where
  "msg_bad_credentials = [0x7528, 0x6237, 0x540D, 0x6216, 0x5BC6, 0x7801, 0x9519, 0x8BEF]"

definition msg_login_forbidden :: rstring where
  "msg_login_forbidden = [0x8D26, 0x53F7, 0x5F53, 0x524D, 0x4E0D, 0x53EF, 0x767B, 0x5F55]"

definition msg_profile_missing :: rstring where
  "msg_profile_missing = [0x8D26, 0x53F7, 0x7F3A, 0x5C11, 0x5BF9, 0x5E94, 0x7684, 0x73A9, 0x5BB6,
     0x6863, 0x6848]"

definition msg_username_taken :: rstring where
  "msg_username_taken = [0x7528, 0x6237, 0x540D, 0x5DF2, 0x88AB, 0x5360, 0x7528]"

definition msg_registration_exists :: rstring where
  "msg_registration_exists = [0x6CE8, 0x518C, 0x6570, 0x636E, 0x5DF2, 0x5B58, 0x5728]"

definition msg_player_missing :: rstring where
  "msg_player_missing = [0x73A9, 0x5BB6, 0x4E0D, 0x5B58, 0x5728]"

definition msg_exp_positive :: rstring where
  "msg_exp_positive = [0x7ECF, 0x9A8C, 0x503C, 0x5FC5, 0x987B, 0x5927, 0x4E8E] @ ascii '' 0''"

definition msg_ttl_too_big :: rstring where
  "msg_ttl_too_big = ascii ''token TTL '' @ [0x8FC7, 0x5927]"

definition txt_busy :: rstring where
  "txt_busy = [0x670D, 0x52A1, 0x7E41, 0x5FD9] @ ascii '','' @ [0x8BF7, 0x7A0D, 0x540E, 0x91CD,
     0x8BD5]"

definition txt_rate_limited :: rstring where
  "txt_rate_limited = [0x8BF7, 0x6C42, 0x8FC7, 0x4E8E, 0x9891, 0x7E41]"

definition txt_post_commit :: rstring where
  "txt_post_commit = [0x6570, 0x636E, 0x5DF2, 0x63D0, 0x4EA4] @ ascii '','' @ [0x4E8B, 0x4EF6,
     0x53D1, 0x5E03, 0x5931, 0x8D25] @ ascii '','' @ [0x8BF7, 0x52FF, 0x91CD, 0x8BD5, 0x6574,
     0x4E2A, 0x64CD, 0x4F5C]"

definition txt_internal :: rstring where
  "txt_internal = [0x670D, 0x52A1, 0x5668, 0x5185, 0x90E8, 0x9519, 0x8BEF]"

definition pre_validation :: rstring where
  "pre_validation = [0x8F93, 0x5165, 0x4E0D, 0x5408, 0x6CD5] @ ascii '': ''"

definition pre_unauthorized :: rstring where
  "pre_unauthorized = [0x672A, 0x9274, 0x6743] @ ascii '': ''"

definition pre_forbidden :: rstring where
  "pre_forbidden = [0x7981, 0x6B62, 0x64CD, 0x4F5C] @ ascii '': ''"

definition pre_not_found :: rstring where
  "pre_not_found = [0x8D44, 0x6E90, 0x4E0D, 0x5B58, 0x5728] @ ascii '': ''"

definition pre_conflict :: rstring where
  "pre_conflict = [0x72B6, 0x6001, 0x51B2, 0x7A81] @ ascii '': ''"

definition pre_storage :: rstring where
  "pre_storage = [0x5B58, 0x50A8, 0x6545, 0x969C] @ ascii '': ''"

definition pre_post_commit :: rstring where
  "pre_post_commit = [0x6570, 0x636E, 0x5DF2, 0x63D0, 0x4EA4] @ ascii '','' @ [0x4E8B, 0x4EF6,
     0x53D1, 0x5E03, 0x5931, 0x8D25] @ ascii '','' @ [0x8BF7, 0x52FF, 0x91CD, 0x8BD5, 0x6574,
     0x4E2A, 0x64CD, 0x4F5C] @ ascii '': ''"

definition pre_internal :: rstring where
  "pre_internal = [0x5185, 0x90E8, 0x9519, 0x8BEF] @ ascii '': ''"

definition txt_session_timeout :: rstring where
  "txt_session_timeout = [0x4F1A, 0x8BDD, 0x8D85, 0x65F6]"

definition txt_bind_first :: rstring where
  "txt_bind_first = [0x5FC5, 0x987B, 0x5148, 0x5B8C, 0x6210, 0x7ED1, 0x5B9A]"

definition txt_session_invalid :: rstring where
  "txt_session_invalid = [0x4F1A, 0x8BDD, 0x65E0, 0x6548, 0x6216, 0x5DF2, 0x8FC7, 0x671F]"

definition txt_already_bound :: rstring where
  "txt_already_bound = [0x8FDE, 0x63A5, 0x5DF2, 0x5B8C, 0x6210, 0x7ED1, 0x5B9A]"

definition txt_please_bind :: rstring where
  "txt_please_bind = [0x8BF7, 0x5148, 0x5B8C, 0x6210, 0x7ED1, 0x5B9A]"

definition txt_token_missing :: rstring where
  "txt_token_missing = [0x7F3A, 0x5C11] @ ascii '' token''"

definition txt_token_invalid :: rstring where
  "txt_token_invalid = ascii ''token '' @ [0x65E0, 0x6548, 0x6216, 0x5DF2, 0x8FC7, 0x671F]"

definition txt_token_player_missing :: rstring where
  "txt_token_player_missing = ascii ''token '' @ [0x5BF9, 0x5E94, 0x7684, 0x73A9, 0x5BB6, 0x4E0D,
     0x5B58, 0x5728]"

definition txt_leave_current_first :: rstring where
  "txt_leave_current_first = [0x8BF7, 0x5148, 0x79BB, 0x5F00, 0x5F53, 0x524D, 0x623F, 0x95F4]"

definition txt_join_first :: rstring where
  "txt_join_first = [0x8BF7, 0x5148, 0x52A0, 0x5165, 0x4E00, 0x4E2A, 0x623F, 0x95F4]"

definition txt_room_id_invalid :: rstring where
  "txt_room_id_invalid = ascii ''room_id '' @ [0x4E0D, 0x662F, 0x5408, 0x6CD5, 0x7684] @ ascii '' UUID''"

definition txt_shutdown_notice :: rstring where
  "txt_shutdown_notice = [0x670D, 0x52A1, 0x5668, 0x5373, 0x5C06, 0x7EF4, 0x62A4] @ ascii '','' @
     [0x8BF7, 0x4FDD, 0x5B58, 0x8FDB, 0x5EA6, 0x5E76, 0x91CD, 0x8FDE]"

definition txt_bind_route :: rstring where
  "txt_bind_route = ascii ''BIND '' @ [0x8DEF, 0x7531, 0x6536, 0x5230, 0x5F02, 0x6784, 0x6D88,
     0x606F]"

definition txt_heartbeat_route :: rstring where
  "txt_heartbeat_route = ascii ''HEARTBEAT '' @ [0x8DEF, 0x7531, 0x6536, 0x5230, 0x5F02, 0x6784,
     0x6D88, 0x606F]"

definition txt_join_route :: rstring where
  "txt_join_route = ascii ''JOIN_ROOM '' @ [0x8DEF, 0x7531, 0x6536, 0x5230, 0x5F02, 0x6784,
     0x6D88, 0x606F]"

definition txt_leave_route :: rstring where
  "txt_leave_route = ascii ''LEAVE_ROOM '' @ [0x8DEF, 0x7531, 0x6536, 0x5230, 0x5F02, 0x6784,
     0x6D88, 0x606F]"

definition txt_chat_route :: rstring where
  "txt_chat_route = ascii ''ROOM_CHAT '' @ [0x8DEF, 0x7531, 0x6536, 0x5230, 0x5F02, 0x6784,
     0x6D88, 0x606F]"

definition txt_profile_route :: rstring where
  "txt_profile_route = ascii ''GET_PROFILE '' @ [0x8DEF, 0x7531, 0x6536, 0x5230, 0x5F02, 0x6784,
     0x6D88, 0x606F]"

definition txt_body_needs_opcode :: rstring where
  "txt_body_needs_opcode = [0x5E27, 0x4F53, 0x5FC5, 0x987B, 0x5305, 0x542B] @ ascii '' opcode''"

definition pre_frame_len :: rstring where
  "pre_frame_len = [0x5E27, 0x957F] @ ascii '' ''"

definition mid_frame_len :: rstring where
  "mid_frame_len = ascii '' '' @ [0x5C0F, 0x4E8E, 0x6700, 0x5C0F, 0x503C] @ ascii '' 2''"

definition txt_queue_full :: rstring where
  "txt_queue_full = [0x53D1, 0x9001, 0x961F, 0x5217, 0x5DF2, 0x6EE1]"

definition txt_conn_closed :: rstring where
  "txt_conn_closed = [0x8FDE, 0x63A5, 0x5DF2, 0x5173, 0x95ED]"

definition pre_io_error :: rstring where
  "pre_io_error = ascii ''IO '' @ [0x9519, 0x8BEF] @ ascii '': ''"

definition pre_tls_error :: rstring where
  "pre_tls_error = ascii ''TLS '' @ [0x9519, 0x8BEF] @ ascii '': ''"

definition pre_tls_config :: rstring where
  "pre_tls_config = ascii ''TLS '' @ [0x914D, 0x7F6E, 0x9519, 0x8BEF] @ ascii '': ''"

definition pre_frame_too_large :: rstring where
  "pre_frame_too_large = [0x5E27, 0x8D85, 0x9650] @ ascii '': '' @ [0x58F0, 0x660E] @ ascii '' ''"

definition mid_frame_too_large :: rstring where
  "mid_frame_too_large = ascii '' '' @ [0x5B57, 0x8282] @ ascii '','' @ [0x4E0A, 0x9650] @ ascii
     '' ''"

definition suf_bytes :: rstring where
  "suf_bytes = ascii '' '' @ [0x5B57, 0x8282]"

definition pre_malformed :: rstring where
  "pre_malformed = [0x975E, 0x6CD5, 0x5E27] @ ascii '': ''"

definition pre_pb_decode :: rstring where
  "pre_pb_decode = ascii ''protobuf '' @ [0x89E3, 0x7801, 0x5931, 0x8D25] @ ascii '': ''"

definition pre_pb_encode :: rstring where
  "pre_pb_encode = ascii ''protobuf '' @ [0x7F16, 0x7801, 0x5931, 0x8D25] @ ascii '': ''"

definition pre_unsupported :: rstring where
  "pre_unsupported = [0x672A, 0x652F, 0x6301, 0x7684] @ ascii '' opcode: ''"

definition pre_handler :: rstring where
  "pre_handler = [0x8DEF, 0x7531, 0x5904, 0x7406, 0x5668, 0x9519, 0x8BEF] @ ascii '': ''"

definition pre_room :: rstring where
  "pre_room = [0x623F, 0x95F4] @ ascii '' ''"

definition pre_unknown_status :: rstring where
  "pre_unknown_status = [0x672A, 0x77E5, 0x7684, 0x8D26, 0x53F7, 0x72B6, 0x6001, 0x7801] @ ascii
     '' ''"

definition pre_account_rules :: rstring where
  "pre_account_rules = [0x8D26, 0x53F7, 0x6570, 0x636E, 0x4E0D, 0x7B26, 0x5408, 0x9886, 0x57DF,
     0x89C4, 0x5219] @ ascii '': ''"

definition pre_player_rules :: rstring where
  "pre_player_rules = [0x73A9, 0x5BB6, 0x6570, 0x636E, 0x4E0D, 0x7B26, 0x5408, 0x9886, 0x57DF,
     0x89C4, 0x5219] @ ascii '': ''"

definition txt_heartbeat_factor :: rstring where
  "txt_heartbeat_factor = [0x5E94, 0x81F3, 0x5C11, 0x4E3A, 0x5FC3, 0x8DF3, 0x95F4, 0x9694,
     0x7684] @ ascii '' 2 '' @ [0x500D]"

definition txt_send_queue_positive :: rstring where
  "txt_send_queue_positive = [0x53D1, 0x9001, 0x961F, 0x5217, 0x5FC5, 0x987B, 0x6709, 0x754C,
     0x4E14, 0x5927, 0x4E8E] @ ascii '' 0(PRD 8.5)''"

definition txt_room_queue_positive :: rstring where
  "txt_room_queue_positive = [0x623F, 0x95F4, 0x547D, 0x4EE4, 0x961F, 0x5217, 0x5BB9, 0x91CF,
     0x5FC5, 0x987B, 0x5927, 0x4E8E] @ ascii '' 0''"

definition txt_tls13_only :: rstring where
  "txt_tls13_only = [0x4EC5, 0x5141, 0x8BB8] @ ascii '' TLSv1.3,'' @ [0x7981, 0x6B62, 0x964D,
     0x7EA7]"

definition pre_parse_as :: rstring where
  "pre_parse_as = [0x65E0, 0x6CD5, 0x6309] @ ascii '' ''"

definition mid_parse_as :: rstring where
  "mid_parse_as = ascii '' '' @ [0x89E3, 0x6790] @ ascii '': ''"

definition pre_data_conflict :: rstring where
  "pre_data_conflict = [0x6570, 0x636E, 0x51B2, 0x7A81] @ ascii '': ''"

definition mid_invalid_value :: rstring where
  "mid_invalid_value = ascii '' '' @ [0x4E0D, 0x5408, 0x6CD5] @ ascii '': ''"

definition suf_room_full :: rstring where
  "suf_room_full = ascii '' '' @ [0x5DF2, 0x6EE1]"

definition suf_room_closed :: rstring where
  "suf_room_closed = ascii '' '' @ [0x5DF2, 0x5173, 0x95ED]"

definition pre_member :: rstring where
  "pre_member = [0x73A9, 0x5BB6] @ ascii '' ''"

definition mid_member :: rstring where
  "mid_member = ascii '' '' @ [0x4E0D, 0x5728, 0x623F, 0x95F4] @ ascii '' ''"

definition suf_member :: rstring where
  "suf_member = ascii '' '' @ [0x4E2D]"

definition pre_transition :: rstring where
  "pre_transition = [0x623F, 0x95F4, 0x72B6, 0x6001, 0x673A, 0x4E0D, 0x5141, 0x8BB8, 0x4ECE] @
     ascii '' ''"

definition mid_transition :: rstring where
  "mid_transition = ascii '' '' @ [0x8FC1, 0x79FB, 0x5230] @ ascii '' ''"

definition msg_no_auth_header :: rstring where
  "msg_no_auth_header = [0x7F3A, 0x5C11] @ ascii '' Authorization '' @ [0x5934]"

definition msg_not_bearer :: rstring where
  "msg_not_bearer = ascii ''Authorization '' @ [0x5FC5, 0x987B, 0x4E3A] @ ascii '' Bearer token''"

definition msg_server_stopping :: rstring where
  "msg_server_stopping = [0x670D, 0x52A1, 0x5668, 0x5373, 0x5C06, 0x505C, 0x673A]"

definition pre_redis_url :: rstring where
  "pre_redis_url = ascii ''Redis URL '' @ [0x975E, 0x6CD5] @ ascii '': ''"

definition msg_redis_timeout :: rstring where
  "msg_redis_timeout = ascii ''Redis '' @ [0x8FDE, 0x63A5, 0x8D85, 0x65F6]"

definition pre_redis_connect :: rstring where
  "pre_redis_connect = ascii ''Redis '' @ [0x8FDE, 0x63A5, 0x5931, 0x8D25] @ ascii '': ''"

definition pre_redis_command :: rstring where
  "pre_redis_command = ascii ''Redis '' @ [0x547D, 0x4EE4, 0x5931, 0x8D25] @ ascii '': ''"

definition pre_token_corrupt :: rstring where
  "pre_token_corrupt = ascii ''token '' @ [0x5B58, 0x50A8, 0x6570, 0x636E, 0x635F, 0x574F] @ ascii '': ''"

definition pre_audit_write :: rstring where
  "pre_audit_write = [0x5BA1, 0x8BA1, 0x5199, 0x5165, 0x5931, 0x8D25] @ ascii '': ''"

definition pre_argon2_params :: rstring where
  "pre_argon2_params = ascii ''argon2 '' @ [0x53C2, 0x6570, 0x975E, 0x6CD5] @ ascii '': ''"

definition pre_hash_failed :: rstring where
  "pre_hash_failed = [0x5BC6, 0x7801, 0x54C8, 0x5E0C, 0x5931, 0x8D25] @ ascii '': ''"

definition pre_phc_parse :: rstring where
  "pre_phc_parse = [0x54C8, 0x5E0C, 0x4E32, 0x89E3, 0x6790, 0x5931, 0x8D25] @ ascii '': ''"

definition pre_verify_failed :: rstring where
  "pre_verify_failed = [0x5BC6, 0x7801, 0x6821, 0x9A8C, 0x5F02, 0x5E38] @ ascii '': ''"

definition pre_fake_nickname :: rstring where
  "pre_fake_nickname = [0x73A9, 0x5BB6] @ ascii ''_''"

definition pre_read_cert :: rstring where
  "pre_read_cert = [0x8BFB, 0x53D6, 0x8BC1, 0x4E66] @ ascii '' ''"

definition mid_read_failed :: rstring where
  "mid_read_failed = ascii '' '' @ [0x5931, 0x8D25] @ ascii '': ''"

definition pre_read_key :: rstring where
  "pre_read_key = [0x8BFB, 0x53D6, 0x79C1, 0x94A5] @ ascii '' ''"

definition msg_home_needed :: rstring where
  "msg_home_needed = [0x5C55, 0x5F00] @ ascii '' ~/ '' @ [0x8DEF, 0x5F84, 0x9700, 0x8981, 0x975E, 0x7A7A] @ ascii
     '' HOME''"

definition pre_parse_cert :: rstring where
  "pre_parse_cert = [0x89E3, 0x6790, 0x8BC1, 0x4E66, 0x5931, 0x8D25] @ ascii '': ''"

definition msg_no_certs :: rstring where
  "msg_no_certs = [0x8BC1, 0x4E66, 0x6587, 0x4EF6, 0x4E2D, 0x6CA1, 0x6709, 0x4EFB, 0x4F55, 0x8BC1, 0x4E66]"

definition pre_parse_key :: rstring where
  "pre_parse_key = [0x89E3, 0x6790, 0x79C1, 0x94A5, 0x5931, 0x8D25] @ ascii '': ''"

definition pre_tls_versions :: rstring where
  "pre_tls_versions = ascii ''TLS '' @ [0x7248, 0x672C, 0x914D, 0x7F6E, 0x5931, 0x8D25] @ ascii '': ''"

definition pre_cert_mismatch :: rstring where
  "pre_cert_mismatch = [0x8BC1, 0x4E66, 0x4E0E, 0x79C1, 0x94A5, 0x4E0D, 0x5339, 0x914D] @ ascii '': ''"

definition msg_https_bind_failed :: rstring where
  "msg_https_bind_failed = ascii ''HTTPS '' @ [0x7AEF, 0x53E3, 0x7ED1, 0x5B9A, 0x5931, 0x8D25]"

definition msg_https_task_gone :: rstring where
  "msg_https_task_gone = ascii ''HTTPS '' @ [0x76D1, 0x542C, 0x4EFB, 0x52A1, 0x610F, 0x5916, 0x9000, 0x51FA]"

definition pre_gateway_net :: rstring where
  "pre_gateway_net = [0x7F51, 0x7EDC, 0x9519, 0x8BEF] @ ascii '': ''"

definition pre_gateway_addr :: rstring where
  "pre_gateway_addr = [0x5730, 0x5740, 0x89E3, 0x6790, 0x5931, 0x8D25] @ ascii '': ''"

definition pre_gateway_config :: rstring where
  "pre_gateway_config = [0x7F51, 0x5173, 0x914D, 0x7F6E, 0x9519, 0x8BEF] @ ascii '': ''"

definition pre_tcp_addr :: rstring where
  "pre_tcp_addr = ascii ''SERVER_TCP_BIND_ADDR '' @ [0x975E, 0x6CD5] @ ascii '': ''"

definition pre_http_addr :: rstring where
  "pre_http_addr = ascii ''SERVER_HTTP_BIND_ADDR '' @ [0x975E, 0x6CD5] @ ascii '': ''"

definition pre_redirect_addr :: rstring where
  "pre_redirect_addr = ascii ''SERVER_HTTP_REDIRECT_ADDR '' @ [0x975E, 0x6CD5] @ ascii '': ''"

definition pre_recorder :: rstring where
  "pre_recorder = [0x6307, 0x6807, 0x8BB0, 0x5F55, 0x5668, 0x521D, 0x59CB, 0x5316, 0x5931, 0x8D25] @ ascii
     '': ''"

definition pre_env_var :: rstring where
  "pre_env_var = [0x73AF, 0x5883, 0x53D8, 0x91CF] @ ascii '' ''"

definition mid_env_parse :: rstring where
  "mid_env_parse = ascii '' '' @ [0x89E3, 0x6790, 0x5931, 0x8D25] @ ascii '': ''"

definition mid_env_invalid :: rstring where
  "mid_env_invalid = ascii '' '' @ [0x53D6, 0x503C, 0x975E, 0x6CD5] @ ascii '': ''"

end
