(* ===== verification/LX_Values.thy ===== *)
theory LX_Values
  imports LX_Text
begin

text \<open>
  \<^verbatim>\<open>crates/domain/src/shared\<close>: the identifiers, \<^verbatim>\<open>DomainError\<close> and \<^verbatim>\<open>RepoError\<close>, and the value
  objects with their validating constructors. The lemmas characterise when each
  constructor succeeds and what the accepted value looks like.
\<close>

section \<open>Identifiers and errors\<close>

datatype account_id = AccountId uuid
datatype player_id = PlayerId uuid
datatype room_id = RoomId uuid
datatype session_id = SessionId uuid

primrec player_uuid :: "player_id \<Rightarrow> uuid" where
  "player_uuid (PlayerId u) = u"

primrec account_uuid :: "account_id \<Rightarrow> uuid" where
  "account_uuid (AccountId u) = u"

primrec room_uuid :: "room_id \<Rightarrow> uuid" where
  "room_uuid (RoomId u) = u"

datatype domain_error =
    InvalidValue rstring rstring            \<comment> \<open>field, reason\<close>
  | RoomFull room_id
  | RoomClosed room_id
  | NotMember uuid room_id
  | IllegalTransition rstring rstring       \<comment> \<open>from, to\<close>

datatype repo_error = RepoStorage rstring | RepoConflict rstring

text \<open>The \<^verbatim>\<open>Display\<close> forms; \<open>show_uuid\<close> is the printer of the uuid crate.\<close>

primrec DomainError_display :: "(uuid \<Rightarrow> rstring) \<Rightarrow> domain_error \<Rightarrow> rstring" where
  "DomainError_display show_uuid (InvalidValue field reason) = field @ mid_invalid_value @ reason"
| "DomainError_display show_uuid (RoomFull r) = pre_room @ show_uuid (room_uuid r) @ suf_room_full"
| "DomainError_display show_uuid (RoomClosed r) = pre_room @ show_uuid (room_uuid r) @ suf_room_closed"
| "DomainError_display show_uuid (NotMember p r) =
     pre_member @ show_uuid p @ mid_member @ show_uuid (room_uuid r) @ suf_member"
| "DomainError_display show_uuid (IllegalTransition src dst) =
     pre_transition @ src @ mid_transition @ dst"

primrec RepoError_display :: "repo_error \<Rightarrow> rstring" where
  "RepoError_display (RepoStorage r) = pre_storage @ r"
| "RepoError_display (RepoConflict r) = pre_data_conflict @ r"

section \<open>Value objects\<close>

datatype username = Username rstring
datatype nickname = Nickname rstring
datatype plain_password = PlainPassword rstring
datatype password_hash = PasswordHash rstring

definition is_username_char :: "uchar \<Rightarrow> bool" where
  "is_username_char c \<longleftrightarrow> is_ascii_alphanumeric c \<or> c = 0x5F"

definition Username_try_new :: "rstring \<Rightarrow> (username, domain_error) result" where
  "Username_try_new raw =
     (let trimmed = trim raw in
      if \<not> (3 \<le> str_len trimmed \<and> str_len trimmed \<le> 32)
      then Err (InvalidValue (ascii ''username'') reason_username_len)
      else if \<not> list_all is_username_char trimmed
      then Err (InvalidValue (ascii ''username'') reason_username_chars)
      else Ok (Username (to_ascii_lowercase trimmed)))"

primrec Username_as_str :: "username \<Rightarrow> rstring" where
  "Username_as_str (Username s) = s"

primrec Username_into_inner :: "username \<Rightarrow> rstring" where
  "Username_into_inner (Username s) = s"

primrec Username_debug :: "username \<Rightarrow> rstring" where
  "Username_debug (Username s) = ascii ''Username('' @ s @ ascii '')''"

definition Nickname_try_new :: "rstring \<Rightarrow> (nickname, domain_error) result" where
  "Nickname_try_new raw =
     (let trimmed = trim raw; count = length trimmed in
      if count = 0 \<or> count > 32
      then Err (InvalidValue (ascii ''nickname'') reason_nickname_len)
      else if list_ex is_control trimmed
      then Err (InvalidValue (ascii ''nickname'') reason_no_control)
      else Ok (Nickname trimmed))"

primrec Nickname_as_str :: "nickname \<Rightarrow> rstring" where
  "Nickname_as_str (Nickname s) = s"

primrec Nickname_debug :: "nickname \<Rightarrow> rstring" where
  "Nickname_debug (Nickname s) = ascii ''Nickname('' @ s @ ascii '')''"

definition PlainPassword_try_new :: "rstring \<Rightarrow> (plain_password, domain_error) result" where
  "PlainPassword_try_new raw =
     (let len = str_len raw in
      if \<not> (8 \<le> len \<and> len \<le> 128)
      then Err (InvalidValue (ascii ''password'') reason_password_len)
      else if list_ex is_control raw
      then Err (InvalidValue (ascii ''password'') reason_no_control)
      else Ok (PlainPassword raw))"

primrec PlainPassword_expose :: "plain_password \<Rightarrow> rstring" where
  "PlainPassword_expose (PlainPassword s) = s"

definition PlainPassword_debug :: "plain_password \<Rightarrow> rstring" where
  "PlainPassword_debug p = ascii ''PlainPassword(***)''"

definition PlainPassword_display :: "plain_password \<Rightarrow> rstring" where
  "PlainPassword_display p = ascii ''***''"

definition PasswordHash_new :: "rstring \<Rightarrow> password_hash" where
  "PasswordHash_new h = PasswordHash h"

primrec PasswordHash_expose :: "password_hash \<Rightarrow> rstring" where
  "PasswordHash_expose (PasswordHash h) = h"

definition PasswordHash_debug :: "password_hash \<Rightarrow> rstring" where
  "PasswordHash_debug h = ascii ''PasswordHash(***)''"

section \<open>Well-formed values\<close>

text \<open>What the constructors promise of the value they accept.\<close>

definition wf_username :: "username \<Rightarrow> bool" where
  "wf_username u \<longleftrightarrow>
     (let s = Username_as_str u in
      3 \<le> length s \<and> length s \<le> 32 \<and>
      list_all (\<lambda>c. is_ascii_lowercase c \<or> is_ascii_digit c \<or> c = 0x5F) s)"

definition wf_nickname :: "nickname \<Rightarrow> bool" where
  "wf_nickname n \<longleftrightarrow>
     (let s = Nickname_as_str n in
      1 \<le> length s \<and> length s \<le> 32 \<and> list_all (\<lambda>c. \<not> is_control c) s \<and> trim s = s)"

lemma is_username_char_ascii: "is_username_char c \<Longrightarrow> c < 0x80"
  by (auto simp: is_username_char_def ascii_class_defs)

lemma lowercase_username_char:
  "is_username_char c \<Longrightarrow>
     is_ascii_lowercase (to_ascii_lowercase_char c) \<or> is_ascii_digit (to_ascii_lowercase_char c) \<or>
     to_ascii_lowercase_char c = 0x5F"
  by (auto simp: is_username_char_def to_ascii_lowercase_char_def ascii_class_defs)

lemma Username_try_new_Ok:
  assumes "Username_try_new raw = Ok u"
  shows "u = Username (to_ascii_lowercase (trim raw))" and "wf_username u"
proof -
  have ok: "3 \<le> str_len (trim raw)" "str_len (trim raw) \<le> 32"
      "list_all is_username_char (trim raw)"
    and u: "u = Username (to_ascii_lowercase (trim raw))"
    using assms by (auto simp: Username_try_new_def Let_def split: if_splits)
  have "str_len (trim raw) = length (trim raw)"
    using ok(3) by (intro str_len_ascii) (auto simp: list_all_iff dest: is_username_char_ascii)
  with ok u show "wf_username u"
    by (auto simp: wf_username_def Let_def to_ascii_lowercase_def list_all_iff
        dest!: lowercase_username_char)
  show "u = Username (to_ascii_lowercase (trim raw))" by (rule u)
qed

lemma username_char_no_white:
  "is_ascii_lowercase c \<or> is_ascii_digit c \<or> c = 0x5F \<Longrightarrow> \<not> is_whitespace c"
  by (auto simp: is_whitespace_def ascii_class_defs)

lemma Username_try_new_canonical: "wf_username u \<Longrightarrow> Username_try_new (Username_as_str u) = Ok u"
proof -
  assume wf: "wf_username u"
  obtain s where u: "u = Username s" by (cases u)
  have chars: "\<forall>c \<in> set s. is_ascii_lowercase c \<or> is_ascii_digit c \<or> c = 0x5F"
    and len: "3 \<le> length s" "length s \<le> 32"
    using wf u by (auto simp: wf_username_def Let_def list_all_iff)
  have t: "trim s = s" using chars username_char_no_white by (intro trim_no_white) blast
  have low: "to_ascii_lowercase s = s"
    unfolding to_ascii_lowercase_def
    using chars by (intro map_idI) (auto simp: to_ascii_lowercase_char_def ascii_class_defs)
  have un: "list_all is_username_char s"
    using chars by (auto simp: list_all_iff is_username_char_def ascii_class_defs)
  have "str_len s = length s"
    using un by (intro str_len_ascii) (auto simp: list_all_iff dest: is_username_char_ascii)
  with t low un len show ?thesis by (simp add: Username_try_new_def u Let_def)
qed

lemma Nickname_try_new_Ok:
  assumes "Nickname_try_new raw = Ok n"
  shows "n = Nickname (trim raw)" and "wf_nickname n"
  using assms
  by (auto simp: Nickname_try_new_def wf_nickname_def Let_def list_ex_iff list_all_iff Suc_le_eq
      split: if_splits)

lemma Nickname_try_new_canonical: "wf_nickname n \<Longrightarrow> Nickname_try_new (Nickname_as_str n) = Ok n"
  by (cases n) (auto simp: Nickname_try_new_def wf_nickname_def Let_def list_ex_iff list_all_iff)

lemma Username_as_str_inject: "Username_as_str u = Username_as_str v \<longleftrightarrow> u = v"
  by (cases u; cases v) simp

lemma Nickname_as_str_inject: "Nickname_as_str u = Nickname_as_str v \<longleftrightarrow> u = v"
  by (cases u; cases v) simp

lemma PlainPassword_try_new_Ok_iff:
  "PlainPassword_try_new raw = Ok p \<longleftrightarrow>
     8 \<le> str_len raw \<and> str_len raw \<le> 128 \<and> list_all (\<lambda>c. \<not> is_control c) raw \<and> p = PlainPassword raw"
  by (auto simp: PlainPassword_try_new_def Let_def list_ex_iff list_all_iff split: if_splits)

end
