(* ===== verification/LX_Player.thy ===== *)
theory LX_Player
  imports LX_Values
begin

text \<open>
  \<^verbatim>\<open>crates/domain/src/player/aggregate.rs\<close>: the player aggregate and the level-up loop, on the
  source's own integer widths. \<open>level_cost\<close> is the specification of the experience curve
  over the natural numbers.
\<close>

definition MAX_LEVEL :: u32 where "MAX_LEVEL = 999"

definition EXP_PER_LEVEL :: u64 where "EXP_PER_LEVEL = 100"

record player =
  pl_id :: player_id
  pl_account_id :: account_id
  pl_nickname :: nickname
  pl_level :: u32
  pl_exp :: u64
  pl_last_login_at :: "datetime option"
  pl_created_at :: datetime

definition Player_create :: "uuid \<Rightarrow> account_id \<Rightarrow> nickname \<Rightarrow> datetime \<Rightarrow> player" where
  "Player_create fresh account nick now =
     \<lparr>pl_id = PlayerId fresh, pl_account_id = account, pl_nickname = nick, pl_level = 1,
      pl_exp = 0, pl_last_login_at = None, pl_created_at = now\<rparr>"

definition Player_reconstitute ::
  "player_id \<Rightarrow> account_id \<Rightarrow> nickname \<Rightarrow> u32 \<Rightarrow> u64 \<Rightarrow> datetime option \<Rightarrow> datetime \<Rightarrow> player" where
  "Player_reconstitute i account nick level exp' last_login created =
     \<lparr>pl_id = i, pl_account_id = account, pl_nickname = nick, pl_level = level,
      pl_exp = exp', pl_last_login_at = last_login, pl_created_at = created\<rparr>"

definition exp_to_next :: "u32 \<Rightarrow> u64" where
  "exp_to_next level = saturating_mul EXP_PER_LEVEL (ucast level)"

lemma unat_exp_to_next: "unat (exp_to_next level) = 100 * unat level"
proof -
  have lt: "unat level < 2 ^ 32" using unsigned_less [of level] by simp
  then have "100 * unat level < 2 ^ 64" by simp
  moreover have "unat (ucast level :: u64) = unat level"
    using lt by (simp add: unsigned_ucast_eq take_bit_nat_eq_self_iff)
  ultimately show ?thesis
    by (simp add: exp_to_next_def EXP_PER_LEVEL_def unat_saturating_mul)
qed

lemma unat_saturating_succ: "level < MAX_LEVEL \<Longrightarrow> unat (saturating_add level 1) = Suc (unat level)"
  by (auto simp: unat_saturating_add MAX_LEVEL_def word_less_nat_alt)

text \<open>The \<^verbatim>\<open>while\<close> loop of \<^verbatim>\<open>gain_exp\<close> over (level, exp, new\_level).\<close>

function gain_exp_loop :: "u32 \<Rightarrow> u64 \<Rightarrow> u32 option \<Rightarrow> u32 \<times> u64 \<times> u32 option" where
  "gain_exp_loop level exp' new_level =
     (if level < MAX_LEVEL \<and> exp' \<ge> exp_to_next level
      then let exp2 = exp' - exp_to_next level; level2 = saturating_add level 1
           in gain_exp_loop level2 exp2 (Some level2)
      else (level, exp', new_level))"
  by pat_completeness auto
termination
  by (relation "measure (\<lambda>(level, _, _). 999 - unat level)")
    (auto simp: unat_saturating_succ, simp add: MAX_LEVEL_def word_less_nat_alt)

declare gain_exp_loop.simps [simp del]

definition Player_gain_exp :: "u64 \<Rightarrow> player \<Rightarrow> player \<times> u32 option" where
  "Player_gain_exp amount p =
     (let (level, exp', new_level) =
        gain_exp_loop (pl_level p) (saturating_add (pl_exp p) amount) None
      in (p\<lparr>pl_level := level, pl_exp := exp'\<rparr>, new_level))"

definition Player_record_login :: "datetime \<Rightarrow> player \<Rightarrow> player" where
  "Player_record_login at p = p\<lparr>pl_last_login_at := Some at\<rparr>"

lemmas player_op_defs [lx_defs] =
  Player_create_def Player_reconstitute_def Player_record_login_def

section \<open>The experience curve\<close>

definition level_cost :: "nat \<Rightarrow> nat \<Rightarrow> nat" where
  "level_cost l l' = (\<Sum>k = l..<l'. 100 * k)"

text \<open>A level and a remainder are settled when no further level-up is due.\<close>

definition settled :: "nat \<Rightarrow> nat \<Rightarrow> bool" where
  "settled l e \<longleftrightarrow> 999 \<le> l \<or> e < 100 * l"

lemma level_cost_Suc: "l \<le> l' \<Longrightarrow> level_cost l (Suc l') = level_cost l l' + 100 * l'"
  by (simp add: level_cost_def)

lemma level_cost_self [simp]: "level_cost l l = 0"
  by (simp add: level_cost_def)

lemma level_cost_step: "l < l' \<Longrightarrow> level_cost l l' = 100 * l + level_cost (Suc l) l'"
  by (simp add: level_cost_def sum.atLeast_Suc_lessThan)

lemma level_cost_trans: "l \<le> m \<Longrightarrow> m \<le> n \<Longrightarrow> level_cost l m + level_cost m n = level_cost l n"
  by (simp add: level_cost_def sum.atLeastLessThan_concat)

lemma level_cost_mono: "m \<le> n \<Longrightarrow> level_cost l m \<le> level_cost l n"
  by (auto simp: level_cost_def intro: sum_mono2)

text \<open>What the loop computes, read as natural numbers.\<close>

lemma gain_exp_loop_spec:
  assumes "gain_exp_loop level e nl = (level', e', nl')"
  shows "unat level \<le> unat level' \<and> (level \<le> MAX_LEVEL \<longrightarrow> level' \<le> MAX_LEVEL) \<and>
     (MAX_LEVEL < level \<longrightarrow> level' = level) \<and>
     unat e = unat e' + level_cost (unat level) (unat level') \<and>
     settled (unat level') (unat e') \<and>
     nl' = (if level' = level then nl else Some level')"
  using assms
proof (induction level e nl rule: gain_exp_loop.induct)
  case (1 level e nl)
  show ?case
  proof (cases "level < MAX_LEVEL \<and> exp_to_next level \<le> e")
    case False
    with "1.prems" have "level' = level" "e' = e" "nl' = nl"
      by (auto simp: gain_exp_loop.simps [of level])
    with False show ?thesis
      by (auto simp: settled_def not_less not_le word_less_nat_alt word_le_nat_alt
          unat_exp_to_next MAX_LEVEL_def)
  next
    case True
    let ?l = "saturating_add level 1" and ?e = "e - exp_to_next level"
    have rec: "gain_exp_loop ?l ?e (Some ?l) = (level', e', nl')"
      using "1.prems" True by (simp add: gain_exp_loop.simps [of level] Let_def)
    have l: "unat ?l = Suc (unat level)" using True by (simp add: unat_saturating_succ)
    have le: "?l \<le> MAX_LEVEL" using True l by (simp add: word_le_nat_alt word_less_nat_alt)
    have e: "unat e = unat ?e + 100 * unat level"
      using True by (simp add: unat_sub unat_exp_to_next word_le_nat_alt)
    note IH = "1.IH" [OF True refl refl rec]
    have lt: "unat level < unat level'" using IH l by linarith
    then have "level' \<noteq> level" by blast
    moreover have "unat e = unat e' + level_cost (unat level) (unat level')"
      using IH l e level_cost_step [OF lt] by simp
    ultimately show ?thesis using IH l le lt True by (auto split: if_splits)
  qed
qed

text \<open>The settled level and remainder of a starting point are unique.\<close>

lemma settled_unique:
  assumes "e + level_cost l m = d + level_cost l n" and "l \<le> m" and "l \<le> n"
    and "m \<le> 999" and "n \<le> 999" and "settled m e" and "settled n d"
  shows "m = n \<and> e = d"
proof -
  have no_less: False
    if eq: "e + level_cost l m = d + level_cost l n" and "l \<le> m" "m < n" "n \<le> 999" "settled m e"
    for e d m n
  proof -
    have "level_cost l (Suc m) \<le> level_cost l n" using \<open>m < n\<close> by (intro level_cost_mono) simp
    then have "level_cost l m + 100 * m \<le> level_cost l n" using level_cost_Suc \<open>l \<le> m\<close> by simp
    moreover have "e < 100 * m" using that by (simp add: settled_def)
    ultimately show False using eq by linarith
  qed
  have "m = n"
    using no_less [of e m d n] no_less [of d n e m] assms by (metis linorder_neqE_nat)
  with assms(1) show ?thesis by simp
qed

lemma Player_gain_exp_spec:
  assumes "Player_gain_exp amount p = (p', nl)"
  shows "unat (pl_level p) \<le> unat (pl_level p')"
    and "unat (pl_level p') \<le> max 999 (unat (pl_level p))"
    and "min (unat (pl_exp p) + unat amount) (2 ^ 64 - 1) =
           unat (pl_exp p') + level_cost (unat (pl_level p)) (unat (pl_level p'))"
    and "settled (unat (pl_level p')) (unat (pl_exp p'))"
    and "nl = (if pl_level p' = pl_level p then None else Some (pl_level p'))"
    and "p' = p\<lparr>pl_level := pl_level p', pl_exp := pl_exp p'\<rparr>"
proof -
  obtain l e n where loop: "gain_exp_loop (pl_level p) (saturating_add (pl_exp p) amount) None = (l, e, n)"
    by (rule prod_cases3)
  then have p': "p' = p\<lparr>pl_level := l, pl_exp := e\<rparr>" and nl: "nl = n"
    using assms by (auto simp: Player_gain_exp_def)
  note spec = gain_exp_loop_spec [OF loop]
  show "unat (pl_level p) \<le> unat (pl_level p')" using spec p' by simp
  show "unat (pl_level p') \<le> max 999 (unat (pl_level p))"
    using spec p' by (cases "pl_level p \<le> MAX_LEVEL")
      (auto simp: word_le_nat_alt word_less_nat_alt MAX_LEVEL_def not_le)
  show "min (unat (pl_exp p) + unat amount) (2 ^ 64 - 1) =
      unat (pl_exp p') + level_cost (unat (pl_level p)) (unat (pl_level p'))"
    using spec p' by (simp add: unat_saturating_add)
  show "settled (unat (pl_level p')) (unat (pl_exp p'))" using spec p' by simp
  show "nl = (if pl_level p' = pl_level p then None else Some (pl_level p'))"
    using spec p' nl by simp
  show "p' = p\<lparr>pl_level := pl_level p', pl_exp := pl_exp p'\<rparr>" using p' by simp
qed

section \<open>Properties\<close>

text \<open>
  (C34) Gaining experience settles correctly for every player and every 64-bit amount: the
  experience after the saturating addition equals the experience left plus the cost of
  exactly the levels gained, the remainder is below the next threshold unless the cap is
  reached, a level is reported precisely when it changed, and no other field changes.
\<close>

theorem gain_exp_settles:
  "unat (pl_level p) \<le> unat (pl_level (fst (Player_gain_exp amount p))) \<and>
   unat (pl_level (fst (Player_gain_exp amount p))) \<le> max 999 (unat (pl_level p)) \<and>
   min (unat (pl_exp p) + unat amount) (2 ^ 64 - 1) =
     unat (pl_exp (fst (Player_gain_exp amount p))) +
     level_cost (unat (pl_level p)) (unat (pl_level (fst (Player_gain_exp amount p)))) \<and>
   settled (unat (pl_level (fst (Player_gain_exp amount p))))
     (unat (pl_exp (fst (Player_gain_exp amount p)))) \<and>
   snd (Player_gain_exp amount p) =
     (if pl_level (fst (Player_gain_exp amount p)) = pl_level p then None
      else Some (pl_level (fst (Player_gain_exp amount p)))) \<and>
   fst (Player_gain_exp amount p) =
     p\<lparr>pl_level := pl_level (fst (Player_gain_exp amount p)),
       pl_exp := pl_exp (fst (Player_gain_exp amount p))\<rparr>"
  by (intro conjI Player_gain_exp_spec [OF prod.collapse [symmetric]])

text \<open>
  (C35) Gains compose: as long as the 64-bit counter does not saturate, two gains leave the
  player exactly where one gain of the sum does, so the order and the batching of gains do
  not matter.
\<close>

theorem gain_exp_additive:
  assumes "pl_level p \<le> MAX_LEVEL" and "unat (pl_exp p) + unat a + unat b < 2 ^ 64"
  shows "fst (Player_gain_exp b (fst (Player_gain_exp a p))) = fst (Player_gain_exp (a + b) p)"
proof -
  let ?q = "fst (Player_gain_exp a p)" and ?s = "fst (Player_gain_exp (a + b) p)"
  let ?r = "fst (Player_gain_exp b ?q)"
  note qs = Player_gain_exp_spec [of a p ?q "snd (Player_gain_exp a p)", simplified]
    and rs = Player_gain_exp_spec [of b ?q ?r "snd (Player_gain_exp b ?q)", simplified]
    and ss = Player_gain_exp_spec [of "a + b" p ?s "snd (Player_gain_exp (a + b) p)", simplified]
  have ab: "unat (a + b) = unat a + unat b" using assms(2) by (simp add: unat_word_ariths)
  have cap: "unat (pl_level p) \<le> 999" using assms(1) by (simp add: MAX_LEVEL_def word_le_nat_alt)
  have bounds: "unat (pl_level ?q) \<le> 999" "unat (pl_level ?r) \<le> 999" "unat (pl_level ?s) \<le> 999"
    using qs(2) rs(2) ss(2) cap by simp_all
  have q: "unat (pl_exp ?q) + level_cost (unat (pl_level p)) (unat (pl_level ?q)) = unat (pl_exp p) + unat a"
    using qs(3) assms(2) by simp
  then have "unat (pl_exp ?q) + unat b < 2 ^ 64" using assms(2) by linarith
  then have r: "unat (pl_exp ?r) + level_cost (unat (pl_level ?q)) (unat (pl_level ?r)) = unat (pl_exp ?q) + unat b"
    using rs(3) by simp
  have s: "unat (pl_exp ?s) + level_cost (unat (pl_level p)) (unat (pl_level ?s)) = unat (pl_exp p) + (unat a + unat b)"
    using ss(3) assms(2) ab by simp
  have "unat (pl_exp ?r) + level_cost (unat (pl_level p)) (unat (pl_level ?r)) =
      unat (pl_exp ?s) + level_cost (unat (pl_level p)) (unat (pl_level ?s))"
    using q r s level_cost_trans [OF qs(1) rs(1)] by linarith
  then have "unat (pl_level ?r) = unat (pl_level ?s) \<and> unat (pl_exp ?r) = unat (pl_exp ?s)"
    using qs(1) rs(1) ss(1) bounds rs(4) ss(4) by (intro settled_unique) auto
  then have "pl_level ?r = pl_level ?s" "pl_exp ?r = pl_exp ?s"
    by (simp_all only: word_unat_eq_iff)
  moreover have "?r = p\<lparr>pl_level := pl_level ?r, pl_exp := pl_exp ?r\<rparr>"
    by (subst rs(6), subst qs(6)) simp
  ultimately show ?thesis using ss(6) by simp
qed

text \<open>Witness: 99 and then 1 experience at level one behave as 100 at once.\<close>

theorem gain_exp_additive_witness:
  "fst (Player_gain_exp 1 (fst (Player_gain_exp 99 (Player_create 1 (AccountId 2) (Nickname [65]) 0)))) =
   fst (Player_gain_exp 100 (Player_create 1 (AccountId 2) (Nickname [65]) 0))"
  using gain_exp_additive [of "Player_create 1 (AccountId 2) (Nickname [65]) 0" 99 1]
  by (simp add: Player_create_def MAX_LEVEL_def)

end
