(* ===== verification/LX_Account.thy ===== *)
theory LX_Account
  imports LX_Values
begin

text \<open>
  \<^verbatim>\<open>crates/domain/src/account/aggregate.rs\<close>: the account aggregate, its status and the login
  decision. The identifier drawn by \<^verbatim>\<open>Uuid::now_v7\<close> and the clock reading are arguments.
\<close>

datatype account_status = Active | Suspended | Banned rstring "datetime option"

primrec allows_login :: "account_status \<Rightarrow> datetime \<Rightarrow> bool" where
  "allows_login Active now = True"
| "allows_login Suspended now = False"
| "allows_login (Banned reason until) now = (case until of None \<Rightarrow> False | Some u \<Rightarrow> now \<ge> u)"

primrec status_code :: "account_status \<Rightarrow> i16" where
  "status_code Active = 0"
| "status_code Suspended = 1"
| "status_code (Banned reason until) = 2"

record account =
  acc_id :: account_id
  acc_username :: username
  acc_password_hash :: password_hash
  acc_status :: account_status
  acc_created_at :: datetime

definition Account_register ::
  "uuid \<Rightarrow> username \<Rightarrow> password_hash \<Rightarrow> datetime \<Rightarrow> account" where
  "Account_register fresh name hash now =
     \<lparr>acc_id = AccountId fresh, acc_username = name, acc_password_hash = hash,
      acc_status = Active, acc_created_at = now\<rparr>"

definition Account_reconstitute ::
  "account_id \<Rightarrow> username \<Rightarrow> password_hash \<Rightarrow> account_status \<Rightarrow> datetime \<Rightarrow> account" where
  "Account_reconstitute i name hash status created =
     \<lparr>acc_id = i, acc_username = name, acc_password_hash = hash,
      acc_status = status, acc_created_at = created\<rparr>"

definition Account_suspend :: "account \<Rightarrow> account" where
  "Account_suspend a = a\<lparr>acc_status := Suspended\<rparr>"

definition Account_ban :: "rstring \<Rightarrow> datetime option \<Rightarrow> account \<Rightarrow> account" where
  "Account_ban reason until a = a\<lparr>acc_status := Banned reason until\<rparr>"

definition Account_activate :: "account \<Rightarrow> account" where
  "Account_activate a = a\<lparr>acc_status := Active\<rparr>"

lemmas account_op_defs [lx_defs] =
  Account_register_def Account_reconstitute_def Account_suspend_def Account_ban_def
  Account_activate_def

text \<open>Once a timed ban has run out it stays run out: the decision is monotone in time.\<close>

lemma allows_login_mono: "allows_login s now \<Longrightarrow> now \<le> later \<Longrightarrow> allows_login s later"
  by (cases s) (auto split: option.splits)

lemma status_code_inject_parts: "status_code s = 0 \<longleftrightarrow> s = Active" "status_code s = 1 \<longleftrightarrow> s = Suspended"
  by (cases s; simp)+

text \<open>The administrative operations touch nothing but the status.\<close>

lemma account_admin_frame:
  "acc_id (Account_ban r u a) = acc_id a" "acc_id (Account_suspend a) = acc_id a"
  "acc_id (Account_activate a) = acc_id a"
  "acc_username (Account_ban r u a) = acc_username a" "acc_username (Account_suspend a) = acc_username a"
  "acc_username (Account_activate a) = acc_username a"
  by (simp_all add: lx_defs)

end
