(* ===== verification/LX_Converters.thy ===== *)
theory LX_Converters
  imports LX_Player LX_Account "HOL-Library.Signed_Division"
begin

text \<open>
  \<^verbatim>\<open>crates/infrastructure/src/persistence/converters.rs\<close> with the row types of
  \<^verbatim>\<open>persistence/entities\<close>: the mapping between aggregates and database rows. A
  \<^verbatim>\<open>DateTime<FixedOffset>\<close> is an instant with an offset. \<open>show_nat\<close> and \<open>show_int\<close> are the
  decimal forms of Rust integers.
\<close>

fun show_nat :: "nat \<Rightarrow> rstring" where
  "show_nat n = (if n < 10 then [0x30 + n] else show_nat (n div 10) @ [0x30 + n mod 10])"

declare show_nat.simps [simp del]

definition show_int :: "int \<Rightarrow> rstring" where
  "show_int i = (if i < 0 then 0x2D # show_nat (nat (- i)) else show_nat (nat i))"

type_synonym fixed_datetime = "datetime \<times> int"

record account_model =
  am_id :: uuid
  am_username :: rstring
  am_password_hash :: rstring
  am_status :: i16
  am_banned_reason :: "rstring option"
  am_banned_until :: "fixed_datetime option"
  am_created_at :: fixed_datetime

record player_model =
  pm_id :: uuid
  pm_account_id :: uuid
  pm_nickname :: rstring
  pm_level :: i32
  pm_exp :: i64
  pm_last_login_at :: "fixed_datetime option"
  pm_created_at :: fixed_datetime

definition status_from_code :: "i16 \<Rightarrow> (account_status, repo_error) result" where
  "status_from_code code =
     (if code = 0 then Ok Active
      else if code = 1 then Ok Suspended
      else if code = 2 then Ok (Banned [] None)
      else Err (RepoStorage (pre_unknown_status @ show_int (sint code))))"

primrec status_to_parts :: "account_status \<Rightarrow> i16 \<times> rstring option \<times> datetime option" where
  "status_to_parts Active = (0, None, None)"
| "status_to_parts Suspended = (1, None, None)"
| "status_to_parts (Banned reason until) = (2, Some reason, until)"

definition to_utc :: "fixed_datetime \<Rightarrow> datetime" where
  "to_utc v = fst v"

definition to_fixed :: "datetime \<Rightarrow> fixed_datetime" where
  "to_fixed v = (v, 0)"

definition account_to_domain :: "(uuid \<Rightarrow> rstring) \<Rightarrow> account_model \<Rightarrow> (account, repo_error) result" where
  "account_to_domain show_uuid m =
     and_then (map_err (\<lambda>e. RepoStorage (pre_account_rules @ DomainError_display show_uuid e))
                 (Username_try_new (am_username m)))
       (\<lambda>name. and_then (status_from_code (am_status m))
         (\<lambda>status.
            let status' = (case status of
                  Banned reason until \<Rightarrow>
                    Banned (case am_banned_reason m of Some r \<Rightarrow> r | None \<Rightarrow> []) (map_option to_utc (am_banned_until m))
                | _ \<Rightarrow> status)
            in Ok (Account_reconstitute (AccountId (am_id m)) name (PasswordHash_new (am_password_hash m))
                     status' (to_utc (am_created_at m)))))"

definition account_to_active :: "account \<Rightarrow> account_model" where
  "account_to_active a =
     (let (status, reason, until) = status_to_parts (acc_status a)
      in \<lparr>am_id = account_uuid (acc_id a), am_username = Username_as_str (acc_username a),
          am_password_hash = PasswordHash_expose (acc_password_hash a), am_status = status,
          am_banned_reason = reason, am_banned_until = map_option to_fixed until,
          am_created_at = to_fixed (acc_created_at a)\<rparr>)"

text \<open>The checked casts: \<^verbatim>\<open>u32::try_from(level.max(0))\<close> and \<^verbatim>\<open>i32::try_from(level).unwrap_or(i32::MAX)\<close>.\<close>

definition level_from_row :: "i32 \<Rightarrow> u32" where
  "level_from_row l = (if sint l < 0 then 0 else l)"

definition exp_from_row :: "i64 \<Rightarrow> u64" where
  "exp_from_row e = (if sint e < 0 then 0 else e)"

definition level_to_row :: "u32 \<Rightarrow> i32" where
  "level_to_row l = (if unat l < 2 ^ 31 then l else 0x7FFFFFFF)"

definition exp_to_row :: "u64 \<Rightarrow> i64" where
  "exp_to_row e = (if unat e < 2 ^ 63 then e else 0x7FFFFFFFFFFFFFFF)"

definition player_to_domain :: "(uuid \<Rightarrow> rstring) \<Rightarrow> player_model \<Rightarrow> (player, repo_error) result" where
  "player_to_domain show_uuid m =
     and_then (map_err (\<lambda>e. RepoStorage (pre_player_rules @ DomainError_display show_uuid e))
                 (Nickname_try_new (pm_nickname m)))
       (\<lambda>nick. Ok (Player_reconstitute (PlayerId (pm_id m)) (AccountId (pm_account_id m)) nick
                     (level_from_row (pm_level m)) (exp_from_row (pm_exp m))
                     (map_option to_utc (pm_last_login_at m)) (to_utc (pm_created_at m))))"

definition player_to_active :: "player \<Rightarrow> player_model" where
  "player_to_active p =
     \<lparr>pm_id = player_uuid (pl_id p), pm_account_id = account_uuid (pl_account_id p),
      pm_nickname = Nickname_as_str (pl_nickname p), pm_level = level_to_row (pl_level p),
      pm_exp = exp_to_row (pl_exp p), pm_last_login_at = map_option to_fixed (pl_last_login_at p),
      pm_created_at = to_fixed (pl_created_at p)\<rparr>"

section \<open>Round trips\<close>

lemma sint_nonneg_iff: "0 \<le> sint (w :: 'a::len word) \<longleftrightarrow> unat w < 2 ^ (LENGTH('a) - 1)"
proof -
  have "0 \<le> sint w \<longleftrightarrow> \<not> bit w (LENGTH('a) - 1)"
    by (simp add: sint_uint signed_take_bit_nonnegative_iff bit_uint_iff)
  also have "\<dots> \<longleftrightarrow> unat w < 2 ^ (LENGTH('a) - 1)"
  proof -
    have "bit (unat w) (LENGTH('a) - 1) \<longleftrightarrow> \<not> unat w < 2 ^ (LENGTH('a) - 1)"
    proof -
      have b: "unat w < 2 ^ LENGTH('a)" by (rule unsigned_less)
      obtain n where n: "LENGTH('a) = Suc n" by (cases "LENGTH('a)") auto
      have "unat w div 2 ^ n < 2" using b unfolding n by (simp add: less_mult_imp_div_less mult.commute)
      then have "odd (unat w div 2 ^ n) \<longleftrightarrow> unat w div 2 ^ n = 1" by (auto simp: less_2_cases_iff)
      also have "\<dots> \<longleftrightarrow> \<not> unat w < 2 ^ n"
        using \<open>unat w div 2 ^ n < 2\<close> by (auto simp: div_eq_0_iff less_2_cases_iff)
      finally show ?thesis by (simp add: n bit_iff_odd)
    qed
    then show ?thesis by (simp add: bit_unsigned_iff)
  qed
  finally show ?thesis .
qed

lemma level_row_roundtrip: "level_from_row (level_to_row l) = (if unat l < 2 ^ 31 then l else 0x7FFFFFFF)"
proof -
  have "0 \<le> sint l" if "unat l < 2 ^ 31" using that sint_nonneg_iff [of l] by simp
  then show ?thesis by (auto simp: level_from_row_def level_to_row_def)
qed

lemma exp_row_roundtrip: "exp_from_row (exp_to_row e) = (if unat e < 2 ^ 63 then e else 0x7FFFFFFFFFFFFFFF)"
proof -
  have "0 \<le> sint e" if "unat e < 2 ^ 63" using that sint_nonneg_iff [of e] by simp
  then show ?thesis by (auto simp: exp_from_row_def exp_to_row_def)
qed

lemma status_roundtrip: "status_from_code (fst (status_to_parts s)) =
   Ok (case s of Banned r u \<Rightarrow> Banned [] None | _ \<Rightarrow> s)"
  by (cases s) (simp_all add: status_from_code_def)

lemma utc_fixed [simp]: "to_utc (to_fixed v) = v" "map_option to_utc (map_option to_fixed o') = o'"
  by (simp_all add: to_utc_def to_fixed_def option.map_comp comp_def option.map_ident)

lemma account_row_roundtrip:
  assumes "wf_username (acc_username a)"
  shows "account_to_domain show_uuid (account_to_active a) = Ok a"
proof -
  have n: "Username_try_new (Username_as_str (acc_username a)) = Ok (acc_username a)"
    using assms by (rule Username_try_new_canonical)
  have ids: "AccountId (account_uuid (acc_id a)) = acc_id a"
    "PasswordHash_new (PasswordHash_expose (acc_password_hash a)) = acc_password_hash a"
    by (cases "acc_id a"; simp) (cases "acc_password_hash a"; simp add: PasswordHash_new_def)
  show ?thesis
    using n ids
    by (cases "acc_status a")
      (simp_all add: account_to_domain_def account_to_active_def status_from_code_def Account_reconstitute_def Let_def)
qed

lemma player_row_roundtrip:
  assumes "wf_nickname (pl_nickname p)"
  shows "player_to_domain show_uuid (player_to_active p) =
    Ok (p\<lparr>pl_level := (if unat (pl_level p) < 2 ^ 31 then pl_level p else 0x7FFFFFFF),
          pl_exp := (if unat (pl_exp p) < 2 ^ 63 then pl_exp p else 0x7FFFFFFFFFFFFFFF)\<rparr>)"
proof -
  have n: "Nickname_try_new (Nickname_as_str (pl_nickname p)) = Ok (pl_nickname p)"
    using assms by (rule Nickname_try_new_canonical)
  have ids: "PlayerId (player_uuid (pl_id p)) = pl_id p" "AccountId (account_uuid (pl_account_id p)) = pl_account_id p"
    by (cases "pl_id p"; simp) (cases "pl_account_id p"; simp)
  show ?thesis
    using n ids
    by (simp add: player_to_domain_def player_to_active_def Player_reconstitute_def level_row_roundtrip exp_row_roundtrip)
qed

text \<open>
  (C36) Storing an aggregate and loading it back gives it back: an account with a well-formed user
  name is restored exactly, ban reason and expiry included; a player with a well-formed
  nickname is restored exactly as long as level and experience fit the signed columns, and
  otherwise with the largest value the column holds.
\<close>

theorem persistence_roundtrip:
  "(wf_username (acc_username a) \<longrightarrow> account_to_domain show_uuid (account_to_active a) = Ok a) \<and>
   (wf_nickname (pl_nickname p) \<longrightarrow>
      player_to_domain show_uuid (player_to_active p) =
        Ok (p\<lparr>pl_level := (if unat (pl_level p) < 2 ^ 31 then pl_level p else 0x7FFFFFFF),
              pl_exp := (if unat (pl_exp p) < 2 ^ 63 then pl_exp p else 0x7FFFFFFFFFFFFFFF)\<rparr>))"
  using account_row_roundtrip player_row_roundtrip by blast

text \<open>Witness: a banned account comes back with its reason and expiry.\<close>

theorem persistence_roundtrip_witness:
  "account_to_domain (\<lambda>u. []) (account_to_active
     (Account_ban (ascii ''spam'') (Some 99) (Account_register 1 (Username (ascii ''bob'')) (PasswordHash_new []) 5)))
   = Ok (Account_ban (ascii ''spam'') (Some 99) (Account_register 1 (Username (ascii ''bob'')) (PasswordHash_new []) 5))"
proof -
  have "wf_username (acc_username
      (Account_ban (ascii ''spam'') (Some 99) (Account_register 1 (Username (ascii ''bob'')) (PasswordHash_new []) 5)))"
    by (simp add: Account_ban_def Account_register_def wf_username_def ascii_def of_char_def ascii_class_defs)
  with persistence_roundtrip show ?thesis by blast
qed

end
