(* ===== verification/LX_Mpsc.thy ===== *)
theory LX_Mpsc
  imports LX_Prelude
begin

text \<open>
  Bounded channels. \<^verbatim>\<open>tokio::sync::mpsc\<close> is not part of the repository, so the operations the
  code calls on a sender are a parameter of the model, the record \<open>mpsc\<close> over an abstract
  channel type \<open>'q\<close>. \<open>mpsc_spec\<close> is the documented behaviour the code relies on: a
  full or closed channel refuses and is unchanged, an open one with room appends at its end.
  \<open>list_mpsc\<close> is a channel kept as a list, used to show that the hypothesis can hold.
\<close>

datatype try_send_error = SendFull | SendClosed

record ('q, 'm) mpsc =
  ch_try_send :: "'m \<Rightarrow> 'q \<Rightarrow> (unit, try_send_error) result \<times> 'q"
  ch_is_closed :: "'q \<Rightarrow> bool"

definition mpsc_spec :: "('q, 'm) mpsc \<Rightarrow> ('q \<Rightarrow> 'm list) \<Rightarrow> ('q \<Rightarrow> nat) \<Rightarrow> bool" where
  "mpsc_spec M contents cap \<longleftrightarrow>
     (\<forall>m q. case ch_try_send M m q of (r, q') \<Rightarrow>
        ch_is_closed M q' = ch_is_closed M q \<and> cap q' = cap q \<and>
        (if ch_is_closed M q then r = Err SendClosed \<and> q' = q
         else if cap q \<le> length (contents q) then r = Err SendFull \<and> q' = q
         else r = Ok () \<and> contents q' = contents q @ [m]))"

record 'm list_chan =
  lc_items :: "'m list"
  lc_cap :: nat
  lc_closed :: bool

definition list_try_send :: "'m \<Rightarrow> 'm list_chan \<Rightarrow> (unit, try_send_error) result \<times> 'm list_chan" where
  "list_try_send m q =
     (if lc_closed q then (Err SendClosed, q)
      else if lc_cap q \<le> length (lc_items q) then (Err SendFull, q)
      else (Ok (), q\<lparr>lc_items := lc_items q @ [m]\<rparr>))"

definition list_mpsc :: "('m list_chan, 'm) mpsc" where
  "list_mpsc = \<lparr>ch_try_send = list_try_send, ch_is_closed = lc_closed\<rparr>"

lemma list_mpsc_spec: "mpsc_spec list_mpsc lc_items lc_cap"
  by (auto simp: mpsc_spec_def list_mpsc_def list_try_send_def)

lemma list_mpsc_simps [simp]:
  "ch_try_send list_mpsc = list_try_send" "ch_is_closed list_mpsc = lc_closed"
  by (simp_all add: list_mpsc_def)

text \<open>The cases of \<open>mpsc_spec\<close>, one per documented outcome.\<close>

lemma mpsc_specD:
  assumes "mpsc_spec M contents cap" and "ch_try_send M m q = (r, q')"
  shows "ch_is_closed M q' = ch_is_closed M q" and "cap q' = cap q"
    and "ch_is_closed M q \<Longrightarrow> r = Err SendClosed \<and> q' = q"
    and "\<not> ch_is_closed M q \<Longrightarrow> cap q \<le> length (contents q) \<Longrightarrow> r = Err SendFull \<and> q' = q"
    and "\<not> ch_is_closed M q \<Longrightarrow> length (contents q) < cap q \<Longrightarrow>
           r = Ok () \<and> contents q' = contents q @ [m]"
proof -
  note law = assms(1) [unfolded mpsc_spec_def, THEN spec [where x = m], THEN spec [where x = q]]
  have *: "ch_is_closed M q' = ch_is_closed M q \<and> cap q' = cap q \<and>
        (if ch_is_closed M q then r = Err SendClosed \<and> q' = q
         else if cap q \<le> length (contents q) then r = Err SendFull \<and> q' = q
         else r = Ok () \<and> contents q' = contents q @ [m])"
    using law unfolding assms(2) prod.case .
  then show "ch_is_closed M q' = ch_is_closed M q" and "cap q' = cap q" by auto
  show "ch_is_closed M q \<Longrightarrow> r = Err SendClosed \<and> q' = q" using * by simp
  show "\<not> ch_is_closed M q \<Longrightarrow> cap q \<le> length (contents q) \<Longrightarrow> r = Err SendFull \<and> q' = q"
    using * by simp
  show "\<not> ch_is_closed M q \<Longrightarrow> length (contents q) < cap q \<Longrightarrow>
      r = Ok () \<and> contents q' = contents q @ [m]"
    using * by simp
qed

section \<open>Sinks that remember a lost message\<close>

text \<open>
  The contract shared by the event sink of a room member and the outbound queue of a
  connection: a message that the queue does not accept raises a failure mark, and the mark is
  never lowered. So a sink without the mark has lost nothing.
\<close>

locale sticky_sink =
  fixes push :: "'m \<Rightarrow> 's \<Rightarrow> 's" and failed :: "'s \<Rightarrow> bool" and accepts :: "'m \<Rightarrow> 's \<Rightarrow> bool"
  assumes sticky: "failed s \<Longrightarrow> failed (push m s)"
    and refused: "\<not> accepts m s \<Longrightarrow> failed (push m s)"
begin

lemma sticky_run: "failed s \<Longrightarrow> failed (fold push ms s)"
  by (induction ms arbitrary: s) (auto intro: sticky)

lemma no_silent_loss:
  assumes "\<not> failed (fold push ms s)" and "ms = xs @ m # ys"
  shows "accepts m (fold push xs s)"
proof (rule ccontr)
  assume "\<not> accepts m (fold push xs s)"
  then have "failed (push m (fold push xs s))" by (rule refused)
  then have "failed (fold push ys (push m (fold push xs s)))" by (rule sticky_run)
  with assms show False by simp
qed

end

end
