(* ===== verification/LX_Frame.thy ===== *)
theory LX_Frame
  imports LX_Converters LX_Mpsc
begin

text \<open>
  \<^verbatim>\<open>crates/net-kit/src/error.rs\<close> and \<^verbatim>\<open>codec.rs\<close>: network errors and the length-prefixed frame format
  \<^verbatim>\<open>[u32 BE length][u16 BE opcode][payload]\<close>. The byte stream behind a reader belongs to the
  I/O library: \<open>read_exact\<close> is a parameter, and \<open>reader_spec\<close> is its documented behaviour
  (the next \<open>n\<close> bytes, or an error when the stream ends before).
\<close>

section \<open>Errors\<close>

datatype io_kind = UnexpectedEof | ConnectionReset | ConnectionAborted | BrokenPipe | OtherKind

record io_error =
  io_err_kind :: io_kind
  io_err_text :: rstring

datatype net_error =
    NetIo io_error
  | NetTls rstring
  | NetTlsConfig rstring
  | FrameTooLarge nat nat       \<comment> \<open>declared, max\<close>
  | Malformed rstring
  | QueueFull
  | NetClosed

primrec NetError_display :: "net_error \<Rightarrow> rstring" where
  "NetError_display (NetIo e) = pre_io_error @ io_err_text e"
| "NetError_display (NetTls m) = pre_tls_error @ m"
| "NetError_display (NetTlsConfig m) = pre_tls_config @ m"
| "NetError_display (FrameTooLarge declared mx) =
     pre_frame_too_large @ show_nat declared @ mid_frame_too_large @ show_nat mx @ suf_bytes"
| "NetError_display (Malformed m) = pre_malformed @ m"
| "NetError_display QueueFull = txt_queue_full"
| "NetError_display NetClosed = txt_conn_closed"

primrec is_disconnect :: "net_error \<Rightarrow> bool" where
  "is_disconnect (NetIo e) =
     (io_err_kind e \<in> {UnexpectedEof, ConnectionReset, ConnectionAborted, BrokenPipe})"
| "is_disconnect (NetTls m) = True"
| "is_disconnect (NetTlsConfig m) = False"
| "is_disconnect (FrameTooLarge declared mx) = False"
| "is_disconnect (Malformed m) = False"
| "is_disconnect QueueFull = False"
| "is_disconnect NetClosed = True"

section \<open>Frames\<close>

definition LENGTH_PREFIX_BYTES :: nat where "LENGTH_PREFIX_BYTES = 4"
definition OPCODE_BYTES :: nat where "OPCODE_BYTES = 2"
definition MIN_FRAME_LEN :: nat where "MIN_FRAME_LEN = OPCODE_BYTES"

record frame =
  fr_opcode :: u16
  fr_payload :: "u8 list"

definition Frame_new :: "u16 \<Rightarrow> u8 list \<Rightarrow> frame" where
  "Frame_new opcode payload = \<lparr>fr_opcode = opcode, fr_payload = payload\<rparr>"

definition wire_len :: "frame \<Rightarrow> nat" where
  "wire_len f = OPCODE_BYTES + length (fr_payload f)"

definition u32_to_be_bytes :: "u32 \<Rightarrow> u8 list" where
  "u32_to_be_bytes w =
     [of_nat (unat w div 2 ^ 24), of_nat (unat w div 2 ^ 16 mod 256), of_nat (unat w div 2 ^ 8 mod 256),
      of_nat (unat w mod 256)]"

definition u16_to_be_bytes :: "u16 \<Rightarrow> u8 list" where
  "u16_to_be_bytes w = [of_nat (unat w div 256), of_nat (unat w mod 256)]"

definition u32_from_be_bytes :: "u8 list \<Rightarrow> u32" where
  "u32_from_be_bytes bs =
     (case bs of [a, b, c, d] \<Rightarrow> of_nat (((unat a * 256 + unat b) * 256 + unat c) * 256 + unat d) | _ \<Rightarrow> 0)"

definition u16_from_be_bytes :: "u8 list \<Rightarrow> u16" where
  "u16_from_be_bytes bs = (case bs of [a, b] \<Rightarrow> of_nat (unat a * 256 + unat b) | _ \<Rightarrow> 0)"

definition encode_frame :: "frame \<Rightarrow> nat \<Rightarrow> (u8 list, net_error) result" where
  "encode_frame f max_frame_size =
     (if wire_len f > max_frame_size then Err (FrameTooLarge (wire_len f) max_frame_size)
      else if wire_len f < MIN_FRAME_LEN then Err (Malformed txt_body_needs_opcode)
      else Ok (u32_to_be_bytes (of_nat (wire_len f)) @ u16_to_be_bytes (fr_opcode f) @ fr_payload f))"

definition decode_wire_len :: "u8 list \<Rightarrow> nat \<Rightarrow> (nat, net_error) result" where
  "decode_wire_len prefix max_frame_size =
     (let declared = unat (u32_from_be_bytes prefix) in
      if declared < MIN_FRAME_LEN then Err (Malformed (pre_frame_len @ show_nat declared @ mid_frame_len))
      else if declared > max_frame_size then Err (FrameTooLarge declared max_frame_size)
      else Ok declared)"

type_synonym 'r read_exact = "nat \<Rightarrow> 'r \<Rightarrow> (u8 list, io_error) result \<times> 'r"

definition read_frame :: "'r read_exact \<Rightarrow> nat \<Rightarrow> 'r \<Rightarrow> (frame option, net_error) result \<times> 'r" where
  "read_frame rd max_frame_size r =
     (case rd LENGTH_PREFIX_BYTES r of
        (Err e, r1) \<Rightarrow> (if io_err_kind e = UnexpectedEof then (Ok None, r1) else (Err (NetIo e), r1))
      | (Ok prefix, r1) \<Rightarrow>
     (case decode_wire_len prefix max_frame_size of
        Err e \<Rightarrow> (Err e, r1)
      | Ok len \<Rightarrow>
     (case rd OPCODE_BYTES r1 of
        (Err e, r2) \<Rightarrow> (Err (NetIo e), r2)
      | (Ok opcode_buf, r2) \<Rightarrow>
     (case rd (len - OPCODE_BYTES) r2 of
        (Err e, r3) \<Rightarrow> (Err (NetIo e), r3)
      | (Ok payload, r3) \<Rightarrow>
          (Ok (Some \<lparr>fr_opcode = u16_from_be_bytes opcode_buf, fr_payload = payload\<rparr>), r3)))))"

type_synonym 'w write_all = "u8 list \<Rightarrow> 'w \<Rightarrow> (unit, io_error) result \<times> 'w"

definition write_frame :: "'w write_all \<Rightarrow> frame \<Rightarrow> nat \<Rightarrow> 'w \<Rightarrow> (unit, net_error) result \<times> 'w" where
  "write_frame wr f max_frame_size w =
     (case encode_frame f max_frame_size of
        Err e \<Rightarrow> (Err e, w)
      | Ok bytes \<Rightarrow>
          (case wr bytes w of (Err e, w') \<Rightarrow> (Err (NetIo e), w') | (Ok _, w') \<Rightarrow> (Ok (), w')))"

section \<open>The reader\<close>

definition reader_spec :: "'r read_exact \<Rightarrow> ('r \<Rightarrow> u8 list) \<Rightarrow> ('r \<Rightarrow> io_error) \<Rightarrow> bool" where
  "reader_spec rd bytes ending \<longleftrightarrow>
     (\<forall>n r. case rd n r of (res, r') \<Rightarrow>
        ending r' = ending r \<and>
        (if n \<le> length (bytes r) then res = Ok (take n (bytes r)) \<and> bytes r' = drop n (bytes r)
         else res = Err (ending r)))"

lemma reader_spec_ok:
  assumes "reader_spec rd bytes ending" and "n \<le> length (bytes r)"
  obtains r' where "rd n r = (Ok (take n (bytes r)), r')" "bytes r' = drop n (bytes r)" "ending r' = ending r"
  using assms(1) [unfolded reader_spec_def, THEN spec [where x = n], THEN spec [where x = r]] assms(2)
  by (cases "rd n r") auto

lemma reader_spec_err:
  assumes "reader_spec rd bytes ending" and "length (bytes r) < n"
  obtains r' where "rd n r = (Err (ending r), r')" "ending r' = ending r"
  using assms(1) [unfolded reader_spec_def, THEN spec [where x = n], THEN spec [where x = r]] assms(2)
  by (cases "rd n r") auto

text \<open>A reader over a list of bytes that then ends with a given error, for witnesses.\<close>

definition list_read :: "(u8 list \<times> io_error) read_exact" where
  "list_read n r =
     (if n \<le> length (fst r) then (Ok (take n (fst r)), (drop n (fst r), snd r)) else (Err (snd r), ([], snd r)))"

lemma list_read_spec: "reader_spec list_read fst snd"
  by (simp add: reader_spec_def list_read_def)

definition eof :: io_error where
  "eof = \<lparr>io_err_kind = UnexpectedEof, io_err_text = ascii ''eof''\<rparr>"

section \<open>Byte order\<close>

lemma unat_of_nat_u8: "n < 256 \<Longrightarrow> unat (of_nat n :: u8) = n"
  by (simp add: unat_of_nat)

lemma length_be_bytes [simp]: "length (u32_to_be_bytes w) = 4" "length (u16_to_be_bytes v) = 2"
  by (simp_all add: u32_to_be_bytes_def u16_to_be_bytes_def)

lemma be_digits: "((n div 2 ^ 24 * 256 + n div 2 ^ 16 mod 256) * 256 + n div 2 ^ 8 mod 256) * 256 + n mod 256 = n"
  for n :: nat
proof -
  have "n div 2 ^ 24 * 256 + n div 2 ^ 16 mod 256 = n div 2 ^ 16"
    using div_mult_mod_eq [of "n div 2 ^ 16" 256] by (simp add: div_mult2_eq [symmetric])
  moreover have "n div 2 ^ 16 * 256 + n div 2 ^ 8 mod 256 = n div 2 ^ 8"
    using div_mult_mod_eq [of "n div 2 ^ 8" 256] by (simp add: div_mult2_eq [symmetric])
  moreover have "n div 2 ^ 8 * 256 + n mod 256 = n" using div_mult_mod_eq [of n 256] by simp
  ultimately show ?thesis by simp
qed

lemma u32_be_roundtrip: "u32_from_be_bytes (u32_to_be_bytes w) = w"
proof -
  have "unat w < 2 ^ 32" using unsigned_less [of w] by simp
  then have "unat w div 2 ^ 24 < 256" by simp
  then have "u32_from_be_bytes (u32_to_be_bytes w) =
      of_nat (((unat w div 2 ^ 24 * 256 + unat w div 2 ^ 16 mod 256) * 256 + unat w div 2 ^ 8 mod 256) * 256 + unat w mod 256)"
    unfolding u32_to_be_bytes_def u32_from_be_bytes_def list.case
    by (subst unat_of_nat_u8, simp)+ (rule refl)
  then show ?thesis unfolding be_digits by simp
qed

lemma u16_be_roundtrip: "u16_from_be_bytes (u16_to_be_bytes w) = w"
proof -
  have "unat w < 2 ^ 16" using unsigned_less [of w] by simp
  then have "unat w div 256 < 256" by simp
  then have "u16_from_be_bytes (u16_to_be_bytes w) = of_nat (unat w div 256 * 256 + unat w mod 256)"
    unfolding u16_to_be_bytes_def u16_from_be_bytes_def list.case
    by (subst unat_of_nat_u8, simp)+ (rule refl)
  then show ?thesis by simp
qed

section \<open>Reading what was written\<close>

lemma encode_frame_Ok:
  "encode_frame f mx = Ok bs \<longleftrightarrow>
     wire_len f \<le> mx \<and> bs = u32_to_be_bytes (of_nat (wire_len f)) @ u16_to_be_bytes (fr_opcode f) @ fr_payload f"
  by (auto simp: encode_frame_def wire_len_def MIN_FRAME_LEN_def)

lemma decode_wire_len_encoded:
  "wire_len f \<le> mx \<Longrightarrow> wire_len f < 2 ^ 32 \<Longrightarrow>
     decode_wire_len (u32_to_be_bytes (of_nat (wire_len f))) mx = Ok (wire_len f)"
proof -
  assume "wire_len f \<le> mx" and "wire_len f < 2 ^ 32"
  moreover have "MIN_FRAME_LEN \<le> wire_len f" by (simp add: wire_len_def MIN_FRAME_LEN_def)
  ultimately show ?thesis by (simp add: decode_wire_len_def u32_be_roundtrip unat_of_nat Let_def)
qed

lemma read_frame_encoded:
  assumes spec: "reader_spec rd bytes ending" and enc: "encode_frame f mx = Ok bs" and len: "wire_len f < 2 ^ 32"
    and r: "bytes r = bs @ rest"
  shows "\<exists>r'. read_frame rd mx r = (Ok (Some f), r') \<and> bytes r' = rest \<and> ending r' = ending r"
proof -
  have le: "wire_len f \<le> mx"
    and bs: "bs = u32_to_be_bytes (of_nat (wire_len f)) @ u16_to_be_bytes (fr_opcode f) @ fr_payload f"
    using enc by (auto simp: encode_frame_Ok)
  obtain r1 where r1: "rd LENGTH_PREFIX_BYTES r = (Ok (u32_to_be_bytes (of_nat (wire_len f))), r1)"
    "bytes r1 = u16_to_be_bytes (fr_opcode f) @ fr_payload f @ rest" "ending r1 = ending r"
    by (rule reader_spec_ok [OF spec, of LENGTH_PREFIX_BYTES r]) (simp_all add: r bs LENGTH_PREFIX_BYTES_def)
  obtain r2 where r2: "rd OPCODE_BYTES r1 = (Ok (u16_to_be_bytes (fr_opcode f)), r2)"
    "bytes r2 = fr_payload f @ rest" "ending r2 = ending r"
    by (rule reader_spec_ok [OF spec, of OPCODE_BYTES r1]) (simp_all add: r1 OPCODE_BYTES_def)
  have wl: "wire_len f - OPCODE_BYTES = length (fr_payload f)" by (simp add: wire_len_def)
  obtain r3 where r3: "rd (wire_len f - OPCODE_BYTES) r2 = (Ok (fr_payload f), r3)" "bytes r3 = rest" "ending r3 = ending r"
    by (rule reader_spec_ok [OF spec, of "wire_len f - OPCODE_BYTES" r2]) (simp_all add: r2 wl)
  show ?thesis
    using r1 r2 r3 decode_wire_len_encoded [OF le len]
    by (simp add: read_frame_def u16_be_roundtrip)
qed

text \<open>Reading until the stream ends; \<open>n\<close> bounds the number of frames.\<close>

fun read_frames :: "'r read_exact \<Rightarrow> nat \<Rightarrow> nat \<Rightarrow> 'r \<Rightarrow> frame list \<times> (unit, net_error) result option" where
  "read_frames rd mx 0 r = ([], None)"
| "read_frames rd mx (Suc n) r =
     (case read_frame rd mx r of
        (Err e, r') \<Rightarrow> ([], Some (Err e))
      | (Ok None, r') \<Rightarrow> ([], Some (Ok ()))
      | (Ok (Some f), r') \<Rightarrow> (let (fs, res) = read_frames rd mx n r' in (f # fs, res)))"

lemma read_frame_eof:
  assumes "reader_spec rd bytes ending" and "length (bytes r) < 4" and "io_err_kind (ending r) = UnexpectedEof"
  shows "\<exists>r'. read_frame rd mx r = (Ok None, r')"
proof -
  obtain r' where "rd LENGTH_PREFIX_BYTES r = (Err (ending r), r')"
    by (rule reader_spec_err [OF assms(1), of r LENGTH_PREFIX_BYTES]) (simp_all add: assms(2) LENGTH_PREFIX_BYTES_def)
  with assms(3) show ?thesis by (simp add: read_frame_def)
qed

lemma read_frames_encoded:
  assumes spec: "reader_spec rd bytes ending" and "list_all2 (\<lambda>f bs. encode_frame f mx = Ok bs \<and> wire_len f < 2 ^ 32) fs bss"
    and "bytes r = concat bss" and "io_err_kind (ending r) = UnexpectedEof"
  shows "read_frames rd mx (Suc (length fs)) r = (fs, Some (Ok ()))"
  using assms(2-)
proof (induction fs bss arbitrary: r rule: list_all2_induct)
  case Nil
  then obtain r' where "read_frame rd mx r = (Ok None, r')" using read_frame_eof [OF spec, of r mx] by auto
  then show ?case by simp
next
  case (Cons f fs bs bss)
  obtain r' where r': "read_frame rd mx r = (Ok (Some f), r')" "bytes r' = concat bss" "ending r' = ending r"
    using read_frame_encoded [OF spec, of f mx bs r "concat bss"] Cons.hyps Cons.prems by auto
  with Cons.IH [OF r'(2)] Cons.prems(2) show ?case by simp
qed

text \<open>
  A stream that breaks off inside a frame: within the length prefix it looks like a clean end, after it the reader fails
  with the error of the stream.
\<close>

lemma read_frame_partial:
  assumes spec: "reader_spec rd bytes ending" and enc: "encode_frame f mx = Ok bs" and len: "wire_len f < 2 ^ 32"
    and r: "bytes r = take k bs" and k: "k < length bs" and eof: "io_err_kind (ending r) = UnexpectedEof"
  shows "\<exists>r'. read_frame rd mx r = (if k < 4 then Ok None else Err (NetIo (ending r)), r')"
proof (cases "k < 4")
  case True
  with read_frame_eof [OF spec _ eof, of mx] r show ?thesis by auto
next
  case False
  have le: "wire_len f \<le> mx"
    and bs: "bs = u32_to_be_bytes (of_nat (wire_len f)) @ u16_to_be_bytes (fr_opcode f) @ fr_payload f"
    using enc by (auto simp: encode_frame_Ok)
  obtain r1 where r1: "rd LENGTH_PREFIX_BYTES r = (Ok (u32_to_be_bytes (of_nat (wire_len f))), r1)"
    "bytes r1 = take (k - 4) (u16_to_be_bytes (fr_opcode f) @ fr_payload f)" "ending r1 = ending r"
    by (rule reader_spec_ok [OF spec, of LENGTH_PREFIX_BYTES r]) (use False k in \<open>simp_all add: r bs LENGTH_PREFIX_BYTES_def\<close>)
  note pre = r1(1) decode_wire_len_encoded [OF le len]
  show ?thesis
  proof (cases "k < 6")
    case True
    obtain r2 where "rd OPCODE_BYTES r1 = (Err (ending r), r2)"
      by (rule reader_spec_err [OF spec, of r1 OPCODE_BYTES]) (use True False r1 in \<open>simp_all add: OPCODE_BYTES_def\<close>)
    with pre False show ?thesis by (simp add: read_frame_def)
  next
    case six: False
    obtain r2 where r2: "rd OPCODE_BYTES r1 = (Ok (u16_to_be_bytes (fr_opcode f)), r2)"
      "bytes r2 = take (k - 6) (fr_payload f)" "ending r2 = ending r"
      by (rule reader_spec_ok [OF spec, of OPCODE_BYTES r1]) (use six k bs in \<open>simp_all add: r1 OPCODE_BYTES_def\<close>)
    have "length (bytes r2) < wire_len f - OPCODE_BYTES" using k six r2(2) bs by (simp add: wire_len_def)
    then obtain r3 where "rd (wire_len f - OPCODE_BYTES) r2 = (Err (ending r), r3)"
      by (rule reader_spec_err [OF spec]) (simp add: r2(3))
    with pre r2(1) False show ?thesis by (simp add: read_frame_def)
  qed
qed

lemma read_frames_then:
  assumes spec: "reader_spec rd bytes ending" and "list_all2 (\<lambda>f bs. encode_frame f mx = Ok bs \<and> wire_len f < 2 ^ 32) fs bss"
    and "bytes r = concat bss @ rest"
    and end_at: "\<And>r'. bytes r' = rest \<Longrightarrow> ending r' = ending r \<Longrightarrow> read_frames rd mx 1 r' = ([], Some res)"
  shows "read_frames rd mx (Suc (length fs)) r = (fs, Some res)"
  using assms(2-)
proof (induction fs bss arbitrary: r rule: list_all2_induct)
  case Nil
  then show ?case by simp
next
  case (Cons f fs bs bss)
  obtain r' where r': "read_frame rd mx r = (Ok (Some f), r')" "bytes r' = concat bss @ rest" "ending r' = ending r"
    using read_frame_encoded [OF spec, of f mx bs r "concat bss @ rest"] Cons.hyps Cons.prems(1) by auto
  have "read_frames rd mx (Suc (length fs)) r' = (fs, Some res)" by (rule Cons.IH [OF r'(2)]) (use Cons.prems(2) r'(3) in simp)
  with r'(1) show ?case by simp
qed

text \<open>
  (C20) The frame format round-trips and stays in step: whatever frames are written one after the
  other under a size limit below 4 GiB, a reader of the byte stream gets back exactly these
  frames in this order, and then a clean end of stream.
\<close>

theorem frame_stream_roundtrip:
  assumes "reader_spec rd bytes ending" and "mx < 2 ^ 32"
    and "list_all2 (\<lambda>f bs. encode_frame f mx = Ok bs) fs bss"
    and "bytes r = concat bss" and "io_err_kind (ending r) = UnexpectedEof"
  shows "read_frames rd mx (Suc (length fs)) r = (fs, Some (Ok ()))"
proof -
  have "list_all2 (\<lambda>f bs. encode_frame f mx = Ok bs \<and> wire_len f < 2 ^ 32) fs bss"
    using assms(3) by (rule list_all2_mono) (use assms(2) in \<open>auto simp: encode_frame_Ok\<close>)
  from read_frames_encoded [OF assms(1) this assms(4,5)] show ?thesis .
qed

text \<open>Witness: two frames over the list reader.\<close>

definition sample_frames :: "frame list" where
  "sample_frames = [Frame_new 0x0102 [0x68, 0x69], Frame_new 1 []]"

definition sample_bytes :: "u8 list list" where
  "sample_bytes = [[0, 0, 0, 4, 1, 2, 0x68, 0x69], [0, 0, 0, 2, 0, 1]]"

lemma sample_encoded: "list_all2 (\<lambda>f bs. encode_frame f 64 = Ok bs) sample_frames sample_bytes"
  by (simp add: sample_frames_def sample_bytes_def encode_frame_def Frame_new_def wire_len_def OPCODE_BYTES_def
      MIN_FRAME_LEN_def u32_to_be_bytes_def u16_to_be_bytes_def)

theorem frame_stream_roundtrip_witness:
  "read_frames list_read 64 3 (concat sample_bytes, eof) = (sample_frames, Some (Ok ()))"
proof -
  have "length sample_frames = 2" by (simp add: sample_frames_def)
  with frame_stream_roundtrip [OF list_read_spec _ sample_encoded, of "(concat sample_bytes, eof)"]
  show ?thesis by (simp add: eof_def numeral_3_eq_3)
qed

text \<open>
  (C38) A hostile length prefix costs nothing: a frame that is delivered never exceeds the limit,
  and a declared length above the limit or below two bytes is refused after the four prefix
  bytes were read, before anything else is consumed or allocated.
\<close>

theorem read_frame_bounded:
  assumes "reader_spec rd bytes ending"
  shows "(\<forall>f r'. read_frame rd mx r = (Ok (Some f), r') \<longrightarrow> wire_len f \<le> mx) \<and>
    (4 \<le> length (bytes r) \<and> mx < unat (u32_from_be_bytes (take 4 (bytes r))) \<and> 2 \<le> mx \<longrightarrow>
      (\<exists>r'. read_frame rd mx r = (Err (FrameTooLarge (unat (u32_from_be_bytes (take 4 (bytes r)))) mx), r') \<and>
        bytes r' = drop 4 (bytes r))) \<and>
    (4 \<le> length (bytes r) \<and> unat (u32_from_be_bytes (take 4 (bytes r))) < 2 \<longrightarrow>
      (\<exists>m r'. read_frame rd mx r = (Err (Malformed m), r') \<and> bytes r' = drop 4 (bytes r)))"
proof (intro conjI allI impI)
  fix f r' assume rf: "read_frame rd mx r = (Ok (Some f), r')"
  obtain prefix r1 len opc r2 r3 where a: "rd LENGTH_PREFIX_BYTES r = (Ok prefix, r1)" "decode_wire_len prefix mx = Ok len"
    "rd OPCODE_BYTES r1 = (Ok opc, r2)" "rd (len - OPCODE_BYTES) r2 = (Ok (fr_payload f), r3)"
    using rf by (auto simp: read_frame_def split: prod.splits result.splits if_splits)
  have "length (fr_payload f) = len - OPCODE_BYTES"
  proof (cases "len - OPCODE_BYTES \<le> length (bytes r2)")
    case True
    with reader_spec_ok [OF assms True] a(4) show ?thesis by (metis length_take min.absorb2 prod.inject result.inject(1))
  next
    case False
    then show ?thesis using reader_spec_err [OF assms, of r2 "len - OPCODE_BYTES"] a(4)
      by (metis not_le prod.inject result.distinct(1))
  qed
  then show "wire_len f \<le> mx"
    using a(2) by (auto simp: decode_wire_len_def wire_len_def OPCODE_BYTES_def MIN_FRAME_LEN_def Let_def split: if_splits)
next
  assume h: "4 \<le> length (bytes r) \<and> mx < unat (u32_from_be_bytes (take 4 (bytes r))) \<and> 2 \<le> mx"
  obtain r' where "rd LENGTH_PREFIX_BYTES r = (Ok (take 4 (bytes r)), r')" "bytes r' = drop 4 (bytes r)"
    by (rule reader_spec_ok [OF assms, of LENGTH_PREFIX_BYTES r]) (use h in \<open>simp_all add: LENGTH_PREFIX_BYTES_def\<close>)
  with h show "\<exists>r'. read_frame rd mx r = (Err (FrameTooLarge (unat (u32_from_be_bytes (take 4 (bytes r)))) mx), r') \<and>
        bytes r' = drop 4 (bytes r)"
    by (simp add: read_frame_def decode_wire_len_def MIN_FRAME_LEN_def OPCODE_BYTES_def Let_def)
next
  assume h: "4 \<le> length (bytes r) \<and> unat (u32_from_be_bytes (take 4 (bytes r))) < 2"
  obtain r' where "rd LENGTH_PREFIX_BYTES r = (Ok (take 4 (bytes r)), r')" "bytes r' = drop 4 (bytes r)"
    by (rule reader_spec_ok [OF assms, of LENGTH_PREFIX_BYTES r]) (use h in \<open>simp_all add: LENGTH_PREFIX_BYTES_def\<close>)
  with h show "\<exists>m r'. read_frame rd mx r = (Err (Malformed m), r') \<and> bytes r' = drop 4 (bytes r)"
    by (simp add: read_frame_def decode_wire_len_def MIN_FRAME_LEN_def OPCODE_BYTES_def Let_def)
qed

text \<open>Witness: a prefix that declares 255 bytes under a limit of 64.\<close>

theorem read_frame_bounded_witness:
  "fst (read_frame list_read 64 ([0, 0, 0, 0xFF, 1], eof)) = Err (FrameTooLarge 255 64)"
proof -
  have "unat (u32_from_be_bytes (take 4 (fst ([0, 0, 0, 0xFF, 1] :: u8 list, eof)))) = 255"
    by (simp add: u32_from_be_bytes_def)
  with read_frame_bounded [OF list_read_spec, of 64 "([0, 0, 0, 0xFF, 1], eof)"] show ?thesis by auto
qed

text \<open>
  The length prefix has 32 bits: with a size limit of 4 GiB or more, a frame longer than the
  prefix can express is accepted by the encoder and its length is written modulo \<open>2 ^ 32\<close>,
  so the reader takes a different number of payload bytes than were sent.
\<close>

theorem encode_frame_prefix_wraps:
  assumes "wire_len f \<le> mx" and "2 ^ 32 \<le> wire_len f"
  shows "\<exists>bs. encode_frame f mx = Ok bs \<and>
    unat (u32_from_be_bytes (take 4 bs)) = wire_len f mod 2 ^ 32 \<and>
    unat (u32_from_be_bytes (take 4 bs)) < wire_len f"
proof -
  have "unat (of_nat (wire_len f) :: u32) = wire_len f mod 2 ^ 32" by (simp add: unat_of_nat)
  moreover have "wire_len f mod 2 ^ 32 < 2 ^ 32" by simp
  ultimately show ?thesis using assms by (simp add: encode_frame_Ok u32_be_roundtrip)
qed

text \<open>Witness: a payload of 4 GiB under a limit of 8 GiB.\<close>

theorem encode_frame_prefix_wraps_witness:
  "\<exists>bs. encode_frame (Frame_new 1 (replicate (2 ^ 32) 0)) (2 ^ 33) = Ok bs \<and> unat (u32_from_be_bytes (take 4 bs)) = 2"
proof -
  have w: "wire_len (Frame_new 1 (replicate (2 ^ 32) 0)) = 2 ^ 32 + 2"
    by (simp add: wire_len_def Frame_new_def OPCODE_BYTES_def)
  from encode_frame_prefix_wraps [of "Frame_new 1 (replicate (2 ^ 32) 0)" "2 ^ 33"] show ?thesis
    unfolding w by auto
qed

text \<open>
  A stream that ends inside the length prefix, after one, two or three bytes, is reported as a
  clean close and not as an error.
\<close>

theorem read_frame_partial_prefix:
  assumes "reader_spec rd bytes ending" and "length (bytes r) < 4" and "io_err_kind (ending r) = UnexpectedEof"
  shows "fst (read_frame rd mx r) = Ok None"
  using read_frame_eof [OF assms, of mx] by auto

text \<open>Witness: three bytes and then the end.\<close>

theorem read_frame_partial_prefix_witness:
  "fst (read_frame list_read 64 ([0, 0, 1], eof)) = Ok None"
  by (rule read_frame_partial_prefix [OF list_read_spec]) (simp_all add: eof_def)

end
