(* ===== verification/LX_Outbound.thy ===== *)
theory LX_Outbound
  imports LX_Frame
begin

text \<open>
  \<^verbatim>\<open>crates/net-kit/src/backpressure.rs\<close> and \<^verbatim>\<open>connection.rs\<close>: the bounded outbound queue of a connection
  with its slow-client policy, and the write task that drains it to the socket. The channel is the
  parameter \<open>mpsc\<close> of \<open>LX_Mpsc\<close>, the socket the parameter \<open>write_all\<close> of \<open>LX_Frame\<close>.
\<close>

section \<open>The outbound queue\<close>

record 'q outbound =
  ob_tx :: 'q
  ob_disconnected :: bool

type_synonym 'q frame_chan = "('q, frame) mpsc"

definition OutboundSender_new :: "'q \<Rightarrow> 'q outbound" where
  "OutboundSender_new tx = \<lparr>ob_tx = tx, ob_disconnected = False\<rparr>"

text \<open>\<open>max_capacity\<close> is the bound the channel was created with.\<close>

definition OutboundSender_capacity :: "('q \<Rightarrow> nat) \<Rightarrow> 'q outbound \<Rightarrow> nat" where
  "OutboundSender_capacity max_capacity s = max_capacity (ob_tx s)"

definition OutboundSender_is_closed :: "'q frame_chan \<Rightarrow> 'q outbound \<Rightarrow> bool" where
  "OutboundSender_is_closed M s \<longleftrightarrow> ch_is_closed M (ob_tx s) \<or> ob_disconnected s"

definition OutboundSender_disconnect :: "'q outbound \<Rightarrow> 'q outbound" where
  "OutboundSender_disconnect s = s\<lparr>ob_disconnected := True\<rparr>"

definition try_send_frame :: "'q frame_chan \<Rightarrow> frame \<Rightarrow> 'q outbound \<Rightarrow> (unit, net_error) result \<times> 'q outbound" where
  "try_send_frame M f s =
     (if OutboundSender_is_closed M s then (Err NetClosed, s)
      else case ch_try_send M f (ob_tx s) of (res, tx') \<Rightarrow>
        (let result = (case res of Ok _ \<Rightarrow> Ok ()
                       | Err SendFull \<Rightarrow> Err QueueFull
                       | Err SendClosed \<Rightarrow> Err NetClosed);
             s' = s\<lparr>ob_tx := tx'\<rparr>
         in (result, if is_err result then OutboundSender_disconnect s' else s')))"

text \<open>
  The waiting form. \<open>closed_first\<close> says that the connection was marked disconnected or its
  receiver dropped before the queue had room; otherwise the frame is enqueued.
\<close>

definition send_frame :: "'q frame_chan \<Rightarrow> bool \<Rightarrow> frame \<Rightarrow> 'q outbound \<Rightarrow> (unit, net_error) result \<times> 'q outbound" where
  "send_frame M closed_first f s =
     (if OutboundSender_is_closed M s \<or> closed_first then (Err NetClosed, s)
      else case ch_try_send M f (ob_tx s) of
             (Ok _, tx') \<Rightarrow> (Ok (), s\<lparr>ob_tx := tx'\<rparr>)
           | (Err _, tx') \<Rightarrow> (Err NetClosed, s))"

interpretation outbound_sink: sticky_sink "\<lambda>f s. snd (try_send_frame M f s)" "OutboundSender_is_closed M"
  "\<lambda>f s. fst (try_send_frame M f s) = Ok ()"
  by unfold_locales
    (auto simp: try_send_frame_def OutboundSender_is_closed_def OutboundSender_disconnect_def Let_def
      split: prod.splits result.splits try_send_error.splits)

lemma try_send_capacity:
  assumes "mpsc_spec M contents cap"
  shows "OutboundSender_capacity cap (snd (try_send_frame M f s)) = OutboundSender_capacity cap s"
  using mpsc_specD(2) [OF assms, of f "ob_tx s"]
  by (auto simp: try_send_frame_def OutboundSender_capacity_def OutboundSender_disconnect_def Let_def split: prod.split)

section \<open>The write task\<close>

record connection_config =
  cc_write_drain_timeout :: duration
  cc_max_frame_size :: nat
  cc_send_queue_capacity :: nat

fun write_task :: "'w write_all \<Rightarrow> nat \<Rightarrow> frame list \<Rightarrow> 'w \<Rightarrow> 'w" where
  "write_task wr mx [] w = w"
| "write_task wr mx (f # fs) w =
     (case encode_frame f mx of
        Err e \<Rightarrow> write_task wr mx fs w
      | Ok bytes \<Rightarrow>
          (case wr bytes w of
             (Err e, w') \<Rightarrow> w'
           | (Ok _, w') \<Rightarrow> write_task wr mx fs w'))"

text \<open>
  The task is dropped while it waits, for the next frame or in the write of one: \<open>n\<close> frames are dealt with by then, and of the
  next one the first \<open>k\<close> bytes are with the socket.
\<close>

fun write_task_cut :: "'w write_all \<Rightarrow> nat \<Rightarrow> nat \<Rightarrow> nat \<Rightarrow> frame list \<Rightarrow> 'w \<Rightarrow> 'w" where
  "write_task_cut wr mx n k [] w = w"
| "write_task_cut wr mx 0 k (f # fs) w =
     (case encode_frame f mx of
        Err e \<Rightarrow> w
      | Ok bytes \<Rightarrow> if k = 0 then w else snd (wr (take k bytes) w))"
| "write_task_cut wr mx (Suc n) k (f # fs) w =
     (case encode_frame f mx of
        Err e \<Rightarrow> write_task_cut wr mx n k fs w
      | Ok bytes \<Rightarrow>
          (case wr bytes w of
             (Err e, w') \<Rightarrow> w'
           | (Ok _, w') \<Rightarrow> write_task_cut wr mx n k fs w'))"

text \<open>
  How the writer of \<^verbatim>\<open>split_connection\<close> ends: the disconnect mark cuts it off, all senders are gone and it drains what is
  queued until the deadline cuts it off, or the task ends by itself.
\<close>

datatype writer_end = CutOff nat nat | DrainDeadline nat nat | RunsOut

definition connection_writer :: "'w write_all \<Rightarrow> connection_config \<Rightarrow> writer_end \<Rightarrow> frame list \<Rightarrow> 'w \<Rightarrow> 'w" where
  "connection_writer wr cfg ending queued w =
     (case ending of
        CutOff n k \<Rightarrow> write_task_cut wr (cc_max_frame_size cfg) n k queued w
      | DrainDeadline n k \<Rightarrow> write_task_cut wr (cc_max_frame_size cfg) n k queued w
      | RunsOut \<Rightarrow> write_task wr (cc_max_frame_size cfg) queued w)"

text \<open>A socket that accepts everything and keeps the bytes.\<close>

definition list_write :: "u8 list write_all" where
  "list_write bytes w = (Ok (), w @ bytes)"

definition sendable :: "nat \<Rightarrow> frame list \<Rightarrow> frame list" where
  "sendable mx fs = filter (\<lambda>f. wire_len f \<le> mx) fs"

definition encoded :: "frame \<Rightarrow> u8 list" where
  "encoded f = u32_to_be_bytes (of_nat (wire_len f)) @ u16_to_be_bytes (fr_opcode f) @ fr_payload f"

lemma encode_frame_cases:
  "encode_frame f mx = (if wire_len f \<le> mx then Ok (encoded f) else Err (FrameTooLarge (wire_len f) mx))"
  by (auto simp: encode_frame_def encoded_def wire_len_def MIN_FRAME_LEN_def)

text \<open>What a working socket carries: the documented behaviour of a successful \<^verbatim>\<open>write_all\<close>.\<close>

definition writer_spec :: "'w write_all \<Rightarrow> ('w \<Rightarrow> u8 list) \<Rightarrow> bool" where
  "writer_spec wr sent \<longleftrightarrow> (\<forall>bytes w. fst (wr bytes w) = Ok () \<and> sent (snd (wr bytes w)) = sent w @ bytes)"

lemma list_write_spec: "writer_spec list_write (\<lambda>w. w)"
  by (simp add: writer_spec_def list_write_def)

lemma write_task_sent:
  assumes "writer_spec wr sent"
  shows "sent (write_task wr mx fs w) = sent w @ concat (map encoded (sendable mx fs))"
proof (induction fs arbitrary: w)
  case (Cons f fs)
  obtain w' where "wr (encoded f) w = (Ok (), w')" "sent w' = sent w @ encoded f"
    using assms [unfolded writer_spec_def, THEN spec [where x = "encoded f"], THEN spec [where x = w]]
    by (cases "wr (encoded f) w") auto
  with Cons show ?case by (simp add: encode_frame_cases sendable_def)
qed (simp add: sendable_def)

text \<open>The bytes of the frame in which the writer is cut off.\<close>

definition torn :: "nat \<Rightarrow> nat \<Rightarrow> nat \<Rightarrow> frame list \<Rightarrow> u8 list" where
  "torn mx n k fs = (case drop n fs of [] \<Rightarrow> [] | f # _ \<Rightarrow> if wire_len f \<le> mx then take k (encoded f) else [])"

lemma write_task_cut_sent:
  assumes spec: "writer_spec wr sent"
  shows "sent (write_task_cut wr mx n k fs w) = sent w @ concat (map encoded (sendable mx (take n fs))) @ torn mx n k fs"
proof (induction fs arbitrary: n w)
  case (Cons f fs)
  have wr: "sent (snd (wr bytes w)) = sent w @ bytes" "\<exists>w'. wr bytes w = (Ok (), w')" for bytes
    using spec by (auto simp: writer_spec_def) (metis prod.collapse)
  show ?case
  proof (cases n)
    case 0
    then show ?thesis using wr(1) by (simp add: encode_frame_cases torn_def sendable_def)
  next
    case (Suc m)
    obtain w' where "wr (encoded f) w = (Ok (), w')" using wr(2) by blast
    with Suc Cons.IH [of m] wr(1) [of "encoded f"] show ?thesis by (simp add: encode_frame_cases torn_def sendable_def)
  qed
qed (simp add: torn_def sendable_def)

section \<open>Properties\<close>

text \<open>
  (C25) A slow client is cut off and nothing is lost silently: once the outbound queue of a
  connection refuses a frame the connection stays closed for ever, later sends answer
  \<^verbatim>\<open>Closed\<close> and do not touch the queue; conversely, if after a series of sends the connection
  is still open, every single one of them was accepted.
\<close>

theorem outbound_no_silent_loss:
  "(fst (try_send_frame M f s) \<noteq> Ok () \<longrightarrow>
      OutboundSender_is_closed M (fold (\<lambda>g s. snd (try_send_frame M g s)) gs (snd (try_send_frame M f s))) \<and>
      try_send_frame M g (snd (try_send_frame M f s)) = (Err NetClosed, snd (try_send_frame M f s))) \<and>
   (\<not> OutboundSender_is_closed M (fold (\<lambda>g s. snd (try_send_frame M g s)) fs s) \<longrightarrow>
      (\<forall>xs g ys. fs = xs @ g # ys \<longrightarrow>
         fst (try_send_frame M g (fold (\<lambda>g s. snd (try_send_frame M g s)) xs s)) = Ok ()))"
proof (intro conjI impI allI)
  assume ref: "fst (try_send_frame M f s) \<noteq> Ok ()"
  then have closed: "OutboundSender_is_closed M (snd (try_send_frame M f s))" by (rule outbound_sink.refused)
  then show "OutboundSender_is_closed M (fold (\<lambda>g s. snd (try_send_frame M g s)) gs (snd (try_send_frame M f s)))"
    by (rule outbound_sink.sticky_run)
  show "try_send_frame M g (snd (try_send_frame M f s)) = (Err NetClosed, snd (try_send_frame M f s))"
    using closed by (simp add: try_send_frame_def)
next
  fix xs h ys
  assume "\<not> OutboundSender_is_closed M (fold (\<lambda>g s. snd (try_send_frame M g s)) fs s)" and "fs = xs @ h # ys"
  then show "fst (try_send_frame M h (fold (\<lambda>g s. snd (try_send_frame M g s)) xs s)) = Ok ()"
    by (rule outbound_sink.no_silent_loss)
qed

text \<open>Witness: a queue of capacity zero refuses the first frame.\<close>

theorem outbound_no_silent_loss_witness:
  "OutboundSender_is_closed list_mpsc
     (snd (try_send_frame list_mpsc (Frame_new 1 []) (OutboundSender_new \<lparr>lc_items = [], lc_cap = 0, lc_closed = False\<rparr>)))"
proof -
  have "fst (try_send_frame list_mpsc (Frame_new 1 []) (OutboundSender_new \<lparr>lc_items = [], lc_cap = 0, lc_closed = False\<rparr>)) \<noteq> Ok ()"
    by (simp add: try_send_frame_def OutboundSender_is_closed_def OutboundSender_new_def list_try_send_def)
  with outbound_no_silent_loss [where gs = "[]"] show ?thesis by fastforce
qed

lemma sendable_encoded:
  "mx < 2 ^ 32 \<Longrightarrow> list_all2 (\<lambda>f bs. encode_frame f mx = Ok bs \<and> wire_len f < 2 ^ 32) (sendable mx fs) (map encoded (sendable mx fs))"
  by (auto simp: list_all2_conv_all_nth encode_frame_cases sendable_def dest!: nth_mem)

text \<open>A writer that is cut off: either the frame it was in is complete on the wire, or the reader gets the frames before it and then its end.\<close>

lemma cut_stream:
  assumes spec: "reader_spec rd bytes ending" and mx: "mx < 2 ^ 32" and eof: "io_err_kind (ending r) = UnexpectedEof"
    and b: "bytes r = concat (map encoded (sendable mx (take n queued))) @ torn mx n k queued"
  obtains (whole) m where "m = n \<or> m = Suc n" "k = 0 \<longrightarrow> m = n"
      "read_frames rd mx (Suc (length (sendable mx (take m queued)))) r = (sendable mx (take m queued), Some (Ok ()))"
    | (broken) "4 \<le> k"
      "read_frames rd mx (Suc (length (sendable mx (take n queued)))) r = (sendable mx (take n queued), Some (Err (NetIo (ending r))))"
proof (cases "n < length queued \<and> wire_len (queued ! n) \<le> mx")
  case False
  then have "torn mx n k queued = []" by (cases "n < length queued") (simp_all add: torn_def Cons_nth_drop_Suc [symmetric])
  with b have "read_frames rd mx (Suc (length (sendable mx (take n queued)))) r = (sendable mx (take n queued), Some (Ok ()))"
    by (intro read_frames_encoded [OF spec sendable_encoded [OF mx] _ eof]) simp
  then show ?thesis by (intro whole [of n]) simp_all
next
  case True
  let ?f = "queued ! n"
  have t: "torn mx n k queued = take k (encoded ?f)" using True by (simp add: torn_def Cons_nth_drop_Suc [symmetric])
  have enc: "encode_frame ?f mx = Ok (encoded ?f)" and len: "wire_len ?f < 2 ^ 32" using True mx by (simp_all add: encode_frame_cases)
  show ?thesis
  proof (cases "k < length (encoded ?f)")
    case cut: True
    have tail: "read_frames rd mx 1 r' = ([], Some (if k < 4 then Ok () else Err (NetIo (ending r))))"
      if "bytes r' = take k (encoded ?f)" "ending r' = ending r" for r'
      using read_frame_partial [OF spec enc len that(1) cut] that(2) eof by (auto split: if_splits)
    note got = read_frames_then [OF spec sendable_encoded [OF mx] b [unfolded t] tail]
    show ?thesis
    proof (cases "k < 4")
      case True
      with got show ?thesis by (intro whole [of n]) simp_all
    next
      case False
      with got show ?thesis by (intro broken) simp_all
    qed
  next
    case False
    then have k: "k \<noteq> 0" by (auto simp: encoded_def)
    have "bytes r = concat (map encoded (sendable mx (take (Suc n) queued)))"
      using False True b t by (simp add: take_Suc_conv_app_nth sendable_def)
    from read_frames_encoded [OF spec sendable_encoded [OF mx] this eof] k show ?thesis by (intro whole [of "Suc n"]) simp_all
  qed
qed

text \<open>
  (C21) What the peer reads is what was queued: over a working socket the write task that runs to its end delivers
  exactly the queued frames that respect the size limit, in order, skipping the others, and a
  reader with the same limit gets these frames back and then a clean end. When the connection is cut off or drained only in part,
  wherever that falls, the peer gets exactly those of the first frames of the queue that respect the limit and were written
  whole, the one in which the writer was cut off counting when all its bytes were out; never a part of a frame as a frame, and nothing
  out of order. It then sees a clean end, if the cut falls on the boundary of a frame or in the length prefix, or the error of the
  stream, and the latter only when the prefix of another frame was already out.
\<close>

theorem connection_delivers:
  assumes "writer_spec wr sent" and "sent w = []" and "reader_spec rd bytes ending"
    and "cc_max_frame_size cfg < 2 ^ 32"
    and "bytes r = sent (connection_writer wr cfg how queued w)" and "io_err_kind (ending r) = UnexpectedEof"
  shows "case (case how of RunsOut \<Rightarrow> None | CutOff n k \<Rightarrow> Some (n, k) | DrainDeadline n k \<Rightarrow> Some (n, k)) of
      None \<Rightarrow> read_frames rd (cc_max_frame_size cfg) (Suc (length (sendable (cc_max_frame_size cfg) queued))) r =
          (sendable (cc_max_frame_size cfg) queued, Some (Ok ()))
    | Some (n, k) \<Rightarrow> (\<exists>m res. (m = n \<or> m = Suc n \<and> k \<noteq> 0) \<and>
          (res = Ok () \<or> res = Err (NetIo (ending r)) \<and> m = n \<and> 4 \<le> k) \<and>
          read_frames rd (cc_max_frame_size cfg) (Suc (length (sendable (cc_max_frame_size cfg) (take m queued)))) r =
            (sendable (cc_max_frame_size cfg) (take m queued), Some res))"
proof -
  let ?mx = "cc_max_frame_size cfg"
  have part: "\<exists>m res. (m = n \<or> m = Suc n \<and> k \<noteq> 0) \<and> (res = Ok () \<or> res = Err (NetIo (ending r)) \<and> m = n \<and> 4 \<le> k) \<and>
      read_frames rd ?mx (Suc (length (sendable ?mx (take m queued)))) r = (sendable ?mx (take m queued), Some res)"
    if "connection_writer wr cfg how queued w = write_task_cut wr ?mx n k queued w" for n k
  proof -
    have b: "bytes r = concat (map encoded (sendable ?mx (take n queued))) @ torn ?mx n k queued"
      using assms(2,5) write_task_cut_sent [OF assms(1), of ?mx n k queued w] that by simp
    show ?thesis by (rule cut_stream [OF assms(3,4,6) b]) blast+
  qed
  have all: "read_frames rd ?mx (Suc (length (sendable ?mx queued))) r = (sendable ?mx queued, Some (Ok ()))"
    if "connection_writer wr cfg how queued w = write_task wr ?mx queued w"
    using assms(2,5) write_task_sent [OF assms(1), of ?mx queued w] that
    by (intro read_frames_encoded [OF assms(3) sendable_encoded [OF assms(4)] _ assms(6)]) simp
  show ?thesis using part all by (cases how) (simp_all add: connection_writer_def)
qed

text \<open>Witness: the two sample frames over the list socket, and a writer that is cut off after five bytes of the second.\<close>

theorem connection_delivers_witness:
  "read_frames list_read 64 (Suc (length (sendable 64 sample_frames)))
       (connection_writer list_write \<lparr>cc_write_drain_timeout = 0, cc_max_frame_size = 64, cc_send_queue_capacity = 4\<rparr>
          RunsOut sample_frames [], eof) = (sendable 64 sample_frames, Some (Ok ())) \<and>
   (\<exists>m res. (m = 1 \<or> m = 2) \<and> (res = Ok () \<or> res = Err (NetIo eof)) \<and>
     read_frames list_read 64 (Suc (length (sendable 64 (take m sample_frames))))
       (connection_writer list_write \<lparr>cc_write_drain_timeout = 0, cc_max_frame_size = 64, cc_send_queue_capacity = 4\<rparr>
          (DrainDeadline 1 5) sample_frames [], eof) = (sendable 64 (take m sample_frames), Some res))"
proof
  let ?cfg = "\<lparr>cc_write_drain_timeout = 0, cc_max_frame_size = 64, cc_send_queue_capacity = 4\<rparr>"
  note use = connection_delivers [OF list_write_spec refl list_read_spec, of ?cfg]
  show "read_frames list_read 64 (Suc (length (sendable 64 sample_frames)))
       (connection_writer list_write ?cfg RunsOut sample_frames [], eof) = (sendable 64 sample_frames, Some (Ok ()))"
    using use [of "(connection_writer list_write ?cfg RunsOut sample_frames [], eof)" RunsOut sample_frames] by (simp add: eof_def)
  from use [of "(connection_writer list_write ?cfg (DrainDeadline 1 5) sample_frames [], eof)" "DrainDeadline 1 5" sample_frames]
  obtain m res where "m = 1 \<or> m = Suc 1" "res = Ok () \<or> res = Err (NetIo eof)"
    "read_frames list_read 64 (Suc (length (sendable 64 (take m sample_frames))))
       (connection_writer list_write ?cfg (DrainDeadline 1 5) sample_frames [], eof) = (sendable 64 (take m sample_frames), Some res)"
    by (auto simp: eof_def)
  then show "\<exists>m res. (m = 1 \<or> m = 2) \<and> (res = Ok () \<or> res = Err (NetIo eof)) \<and>
     read_frames list_read 64 (Suc (length (sendable 64 (take m sample_frames))))
       (connection_writer list_write ?cfg (DrainDeadline 1 5) sample_frames [], eof) = (sendable 64 (take m sample_frames), Some res)"
    by (metis Suc_1)
qed

end
