(* ===== verification/LX_HashMap.thy ===== *)
theory LX_HashMap
  imports LX_Prelude "HOL-Library.AList"
begin

text \<open>
  \<^verbatim>\<open>std::collections::HashMap\<close> as an association list with distinct keys. The list order is
  the (arbitrary) iteration order of the map: a theorem about every well-formed list holds
  for every iteration order the hash function may produce.
\<close>

type_synonym ('k, 'v) hmap = "('k \<times> 'v) list"

definition hm_wf :: "('k, 'v) hmap \<Rightarrow> bool" where
  "hm_wf m \<longleftrightarrow> distinct (map fst m)"

definition hm_get :: "('k, 'v) hmap \<Rightarrow> 'k \<Rightarrow> 'v option" where
  "hm_get m k = map_of m k"

definition hm_insert :: "'k \<Rightarrow> 'v \<Rightarrow> ('k, 'v) hmap \<Rightarrow> ('k, 'v) hmap" where
  "hm_insert k v m = AList.update k v m"

definition hm_remove :: "'k \<Rightarrow> ('k, 'v) hmap \<Rightarrow> ('k, 'v) hmap" where
  "hm_remove k m = AList.delete k m"

definition hm_contains :: "('k, 'v) hmap \<Rightarrow> 'k \<Rightarrow> bool" where
  "hm_contains m k \<longleftrightarrow> hm_get m k \<noteq> None"

definition hm_keys :: "('k, 'v) hmap \<Rightarrow> 'k list" where
  "hm_keys m = map fst m"

definition hm_values :: "('k, 'v) hmap \<Rightarrow> 'v list" where
  "hm_values m = map snd m"

definition hm_retain :: "('k \<Rightarrow> 'v \<Rightarrow> bool) \<Rightarrow> ('k, 'v) hmap \<Rightarrow> ('k, 'v) hmap" where
  "hm_retain P m = filter (\<lambda>(k, v). P k v) m"

definition hm_find :: "('v \<Rightarrow> bool) \<Rightarrow> ('k, 'v) hmap \<Rightarrow> 'v option" where
  "hm_find P m = List.find P (hm_values m)"

lemmas hm_defs = hm_get_def hm_insert_def hm_remove_def hm_contains_def hm_keys_def
  hm_values_def hm_retain_def hm_find_def hm_wf_def

lemma hm_get_empty [simp]: "hm_get [] k = None"
  by (simp add: hm_defs)

lemma hm_get_insert [simp]: "hm_get (hm_insert k v m) k' = (if k' = k then Some v else hm_get m k')"
  by (simp add: hm_defs update_conv)

lemma hm_get_remove [simp]: "hm_get (hm_remove k m) k' = (if k' = k then None else hm_get m k')"
  by (simp add: hm_defs delete_conv)

lemma hm_wf_empty [simp]: "hm_wf []"
  by (simp add: hm_defs)

lemma hm_wf_insert [simp, intro]: "hm_wf m \<Longrightarrow> hm_wf (hm_insert k v m)"
  by (simp add: hm_defs distinct_update)

lemma hm_wf_remove [simp, intro]: "hm_wf m \<Longrightarrow> hm_wf (hm_remove k m)"
  by (simp add: hm_defs distinct_delete)

lemma hm_wf_retain [simp, intro]: "hm_wf m \<Longrightarrow> hm_wf (hm_retain P m)"
  by (auto simp: hm_defs distinct_map_filter)

lemma hm_get_Some_iff: "hm_wf m \<Longrightarrow> hm_get m k = Some v \<longleftrightarrow> (k, v) \<in> set m"
  by (simp add: hm_defs)

lemma hm_get_None_iff: "hm_get m k = None \<longleftrightarrow> k \<notin> fst ` set m"
  by (simp add: hm_defs map_of_eq_None_iff)

lemma hm_get_retain:
  "hm_wf m \<Longrightarrow>
     hm_get (hm_retain P m) k =
       (case hm_get m k of None \<Rightarrow> None | Some v \<Rightarrow> if P k v then Some v else None)"
proof (induction m)
  case (Cons p m)
  then show ?case
    by (cases p) (auto simp: hm_defs map_of_eq_None_iff image_iff split: option.splits)
qed (simp add: hm_defs)

lemma set_hm_values: "hm_wf m \<Longrightarrow> set (hm_values m) = {v. \<exists>k. hm_get m k = Some v}"
  by (force simp: hm_defs)

lemma set_hm_keys: "set (hm_keys m) = {k. hm_get m k \<noteq> None}"
  by (auto simp: hm_defs dom_map_of_conv_image_fst [symmetric] dom_def)

lemma hm_values_empty_iff [simp]: "hm_values m = [] \<longleftrightarrow> m = []"
  by (simp add: hm_defs)

lemma hm_find_Some:
  "hm_wf m \<Longrightarrow> hm_find P m = Some v \<Longrightarrow> \<exists>k. hm_get m k = Some v \<and> P v"
proof -
  assume wf: "hm_wf m" and f: "hm_find P m = Some v"
  then have "v \<in> set (hm_values m)" "P v"
    by (auto simp: hm_find_def find_Some_iff in_set_conv_nth)
  then show ?thesis using wf by (auto simp: set_hm_values)
qed

lemma hm_find_None: "hm_wf m \<Longrightarrow> hm_find P m = None \<longleftrightarrow> (\<forall>k v. hm_get m k = Some v \<longrightarrow> \<not> P v)"
  by (auto simp: hm_find_def find_None_iff set_hm_values)

text \<open>A well-formed map with at most one match finds it, whatever the iteration order.\<close>

lemma hm_find_unique:
  assumes "hm_wf m" and "hm_get m k = Some v" and "P v"
    and "\<And>k' v'. hm_get m k' = Some v' \<Longrightarrow> P v' \<Longrightarrow> v' = v"
  shows "hm_find P m = Some v"
proof (cases "hm_find P m")
  case None
  then have "\<not> P v"
    using hm_find_None [OF assms(1), of P] assms(2) by simp
  with assms(3) show ?thesis by simp
next
  case (Some w)
  then obtain k' where "hm_get m k' = Some w" "P w"
    using hm_find_Some [OF assms(1) Some] by (elim exE conjE)
  then have "w = v" by (rule assms(4))
  with Some show ?thesis by simp
qed

lemma length_hm_insert:
  "length (hm_insert k v m) = (if hm_contains m k then length m else Suc (length m))"
  by (induction m) (auto simp: hm_defs)

end
