(* ===== verification/LX_Protocol.thy ===== *)
theory LX_Protocol
  imports LX_Outbound LX_HashMap "HOL-Library.Countable"
begin

text \<open>
  \<^verbatim>\<open>crates/protocol/src\<close>: opcodes, typed messages, the two codecs and the router. The message types are
  those of \<^verbatim>\<open>proto/game.proto\<close>; their binary form is produced by code generated by prost at build
  time, so the encoders and decoders are the parameter \<open>prost\<close>, with the law \<open>prost_spec\<close> that
  decoding inverts encoding.
\<close>

section \<open>Opcodes\<close>

definition OP_C2S_BIND :: u16 where "OP_C2S_BIND = 0x0001"
definition OP_C2S_HEARTBEAT :: u16 where "OP_C2S_HEARTBEAT = 0x0002"
definition OP_C2S_JOIN_ROOM :: u16 where "OP_C2S_JOIN_ROOM = 0x0010"
definition OP_C2S_LEAVE_ROOM :: u16 where "OP_C2S_LEAVE_ROOM = 0x0011"
definition OP_C2S_ROOM_CHAT :: u16 where "OP_C2S_ROOM_CHAT = 0x0012"
definition OP_C2S_GET_PROFILE :: u16 where "OP_C2S_GET_PROFILE = 0x0013"
definition OP_S2C_BIND_RESULT :: u16 where "OP_S2C_BIND_RESULT = 0x8001"
definition OP_S2C_HEARTBEAT_ACK :: u16 where "OP_S2C_HEARTBEAT_ACK = 0x8002"
definition OP_S2C_PROFILE :: u16 where "OP_S2C_PROFILE = 0x8003"
definition OP_S2C_ROOM_EVENT :: u16 where "OP_S2C_ROOM_EVENT = 0x8010"
definition OP_S2C_ERROR :: u16 where "OP_S2C_ERROR = 0x8011"
definition OP_S2C_SERVER_SHUTDOWN :: u16 where "OP_S2C_SERVER_SHUTDOWN = 0x8012"

definition ERR_PROTOCOL :: u32 where "ERR_PROTOCOL = 1000"
definition ERR_FRAME_TOO_LARGE :: u32 where "ERR_FRAME_TOO_LARGE = 1001"
definition ERR_RATE_LIMITED :: u32 where "ERR_RATE_LIMITED = 1002"
definition ERR_TIMEOUT :: u32 where "ERR_TIMEOUT = 1003"
definition ERR_NOT_AUTHENTICATED :: u32 where "ERR_NOT_AUTHENTICATED = 1004"
definition ERR_AUTH_REQUIRED_FIRST :: u32 where "ERR_AUTH_REQUIRED_FIRST = 1005"
definition ERR_ALREADY_BOUND :: u32 where "ERR_ALREADY_BOUND = 1006"
definition ERR_SERVER_BUSY :: u32 where "ERR_SERVER_BUSY = 2001"
definition ERR_SERVER_SHUTDOWN :: u32 where "ERR_SERVER_SHUTDOWN = 2002"
definition ERR_INVALID_INPUT :: u32 where "ERR_INVALID_INPUT = 2003"
definition ERR_CONFLICT :: u32 where "ERR_CONFLICT = 2004"
definition ERR_NOT_FOUND :: u32 where "ERR_NOT_FOUND = 2005"
definition ERR_FORBIDDEN :: u32 where "ERR_FORBIDDEN = 2006"

lemmas c2s_opcode_defs = OP_C2S_BIND_def OP_C2S_HEARTBEAT_def OP_C2S_JOIN_ROOM_def OP_C2S_LEAVE_ROOM_def
  OP_C2S_ROOM_CHAT_def OP_C2S_GET_PROFILE_def

lemmas s2c_opcode_defs = OP_S2C_BIND_RESULT_def OP_S2C_HEARTBEAT_ACK_def OP_S2C_PROFILE_def
  OP_S2C_ROOM_EVENT_def OP_S2C_ERROR_def OP_S2C_SERVER_SHUTDOWN_def

section \<open>The messages of \<^verbatim>\<open>game.proto\<close>\<close>

datatype bind_request = BindRequest (br_token: rstring)
datatype heartbeat_ping = HeartbeatPing (hp_client_ts_ms: i64)
datatype join_room_request = JoinRoomRequest (jr_room_id: "rstring option")
datatype leave_room_request = LeaveRoomRequest (lv_room_id: "rstring option")
datatype room_chat_request = RoomChatRequest (rq_text: rstring)
datatype get_profile_request = GetProfileRequest

datatype bind_result =
  BindResultMsg (bo_ok: bool) (bo_player_id: "rstring option") (bo_nickname: "rstring option") (bo_error: "rstring option")
datatype heartbeat_ack = HeartbeatAckMsg (ha_server_ts_ms: i64)
datatype profile_response =
  ProfileResponse (pf_ok: bool) (pf_player_id: "rstring option") (pf_nickname: "rstring option")
    (pf_level: "u32 option") (pf_exp: "u64 option") (pf_last_login_at_ms: "i64 option") (pf_error: "rstring option")
datatype error_notification_msg = ErrorNotification (en_code: u32) (en_message: rstring)
datatype server_shutdown_notice = ServerShutdownNotice (sn_message: rstring)

datatype pb_room_event =
    PbMemberJoined rstring rstring rstring
  | PbMemberLeft rstring rstring
  | PbRoomChat rstring rstring rstring rstring
  | PbRoomClosed rstring rstring

datatype room_event_notification = RoomEventNotification (re_event: "pb_room_event option")

section \<open>Errors and typed messages\<close>

datatype protocol_error = DecodeError rstring | EncodeError rstring | UnsupportedOpcode u16 | HandlerError rstring

definition hex4 :: "u16 \<Rightarrow> rstring" where
  "hex4 w = (let d = (\<lambda>n. if n < 10 then 0x30 + n else 0x57 + n)
     in [d (unat w div 4096), d (unat w div 256 mod 16), d (unat w div 16 mod 16), d (unat w mod 16)])"

primrec ProtocolError_display :: "protocol_error \<Rightarrow> rstring" where
  "ProtocolError_display (DecodeError m) = pre_pb_decode @ m"
| "ProtocolError_display (EncodeError m) = pre_pb_encode @ m"
| "ProtocolError_display (UnsupportedOpcode opc) = pre_unsupported @ ascii ''0x'' @ hex4 opc"
| "ProtocolError_display (HandlerError m) = pre_handler @ m"

datatype inbound_message =
    InBind bind_request
  | InHeartbeat heartbeat_ping
  | InJoinRoom join_room_request
  | InLeaveRoom leave_room_request
  | InRoomChat room_chat_request
  | InGetProfile get_profile_request
  | InUnknown u16

datatype outbound_message =
    OutBindResult bind_result
  | OutHeartbeatAck heartbeat_ack
  | OutProfile profile_response
  | OutRoomEvent room_event_notification
  | OutError error_notification_msg
  | OutShutdown server_shutdown_notice

primrec InboundMessage_opcode :: "inbound_message \<Rightarrow> u16" where
  "InboundMessage_opcode (InBind m) = OP_C2S_BIND"
| "InboundMessage_opcode (InHeartbeat m) = OP_C2S_HEARTBEAT"
| "InboundMessage_opcode (InJoinRoom m) = OP_C2S_JOIN_ROOM"
| "InboundMessage_opcode (InLeaveRoom m) = OP_C2S_LEAVE_ROOM"
| "InboundMessage_opcode (InRoomChat m) = OP_C2S_ROOM_CHAT"
| "InboundMessage_opcode (InGetProfile m) = OP_C2S_GET_PROFILE"
| "InboundMessage_opcode (InUnknown opc) = opc"

text \<open>The generated codecs: one pair of functions per message type; a decoder may fail with a text.\<close>

type_synonym 'm pb_codec = "('m \<Rightarrow> u8 list) \<times> (u8 list \<Rightarrow> ('m, rstring) result)"

record prost =
  pc_bind_request :: "bind_request pb_codec"
  pc_heartbeat_ping :: "heartbeat_ping pb_codec"
  pc_join_room :: "join_room_request pb_codec"
  pc_leave_room :: "leave_room_request pb_codec"
  pc_room_chat :: "room_chat_request pb_codec"
  pc_get_profile :: "get_profile_request pb_codec"
  pc_bind_result :: "bind_result pb_codec"
  pc_heartbeat_ack :: "heartbeat_ack pb_codec"
  pc_profile :: "profile_response pb_codec"
  pc_room_event :: "room_event_notification pb_codec"
  pc_error :: "error_notification_msg pb_codec"
  pc_shutdown :: "server_shutdown_notice pb_codec"

definition pb_encode :: "'m pb_codec \<Rightarrow> 'm \<Rightarrow> u8 list" where
  "pb_encode c m = fst c m"

definition pb_decode :: "'m pb_codec \<Rightarrow> u8 list \<Rightarrow> ('m, protocol_error) result" where
  "pb_decode c bs = map_err DecodeError (snd c bs)"

definition map_ok :: "('a \<Rightarrow> 'b) \<Rightarrow> ('a, 'e) result \<Rightarrow> ('b, 'e) result" where
  "map_ok f r = (case r of Ok a \<Rightarrow> Ok (f a) | Err e \<Rightarrow> Err e)"

definition decode_inbound :: "prost \<Rightarrow> u16 \<Rightarrow> u8 list \<Rightarrow> (inbound_message, protocol_error) result" where
  "decode_inbound P opcode payload =
     (if opcode = OP_C2S_BIND then map_ok InBind (pb_decode (pc_bind_request P) payload)
      else if opcode = OP_C2S_HEARTBEAT then map_ok InHeartbeat (pb_decode (pc_heartbeat_ping P) payload)
      else if opcode = OP_C2S_JOIN_ROOM then map_ok InJoinRoom (pb_decode (pc_join_room P) payload)
      else if opcode = OP_C2S_LEAVE_ROOM then map_ok InLeaveRoom (pb_decode (pc_leave_room P) payload)
      else if opcode = OP_C2S_ROOM_CHAT then map_ok InRoomChat (pb_decode (pc_room_chat P) payload)
      else if opcode = OP_C2S_GET_PROFILE then map_ok InGetProfile (pb_decode (pc_get_profile P) payload)
      else Ok (InUnknown opcode))"

primrec encode_outbound :: "prost \<Rightarrow> outbound_message \<Rightarrow> (u16 \<times> u8 list, protocol_error) result" where
  "encode_outbound P (OutBindResult m) = Ok (OP_S2C_BIND_RESULT, pb_encode (pc_bind_result P) m)"
| "encode_outbound P (OutHeartbeatAck m) = Ok (OP_S2C_HEARTBEAT_ACK, pb_encode (pc_heartbeat_ack P) m)"
| "encode_outbound P (OutProfile m) = Ok (OP_S2C_PROFILE, pb_encode (pc_profile P) m)"
| "encode_outbound P (OutRoomEvent m) = Ok (OP_S2C_ROOM_EVENT, pb_encode (pc_room_event P) m)"
| "encode_outbound P (OutError m) = Ok (OP_S2C_ERROR, pb_encode (pc_error P) m)"
| "encode_outbound P (OutShutdown m) = Ok (OP_S2C_SERVER_SHUTDOWN, pb_encode (pc_shutdown P) m)"

definition decode_outbound :: "prost \<Rightarrow> u16 \<Rightarrow> u8 list \<Rightarrow> (outbound_message, protocol_error) result" where
  "decode_outbound P opcode payload =
     (if opcode = OP_S2C_BIND_RESULT then map_ok OutBindResult (pb_decode (pc_bind_result P) payload)
      else if opcode = OP_S2C_HEARTBEAT_ACK then map_ok OutHeartbeatAck (pb_decode (pc_heartbeat_ack P) payload)
      else if opcode = OP_S2C_PROFILE then map_ok OutProfile (pb_decode (pc_profile P) payload)
      else if opcode = OP_S2C_ROOM_EVENT then map_ok OutRoomEvent (pb_decode (pc_room_event P) payload)
      else if opcode = OP_S2C_ERROR then map_ok OutError (pb_decode (pc_error P) payload)
      else if opcode = OP_S2C_SERVER_SHUTDOWN then map_ok OutShutdown (pb_decode (pc_shutdown P) payload)
      else Err (UnsupportedOpcode opcode))"

definition bind_ok :: "rstring \<Rightarrow> rstring \<Rightarrow> outbound_message" where
  "bind_ok player nick = OutBindResult (BindResultMsg True (Some player) (Some nick) None)"

definition bind_rejected :: "rstring \<Rightarrow> outbound_message" where
  "bind_rejected error = OutBindResult (BindResultMsg False None None (Some error))"

definition error_notification :: "u32 \<Rightarrow> rstring \<Rightarrow> outbound_message" where
  "error_notification code message = OutError (ErrorNotification code message)"

section \<open>Codecs\<close>

definition GameCodec_decode :: "prost \<Rightarrow> frame \<Rightarrow> (inbound_message, protocol_error) result" where
  "GameCodec_decode P f = decode_inbound P (fr_opcode f) (fr_payload f)"

definition GameCodec_encode :: "prost \<Rightarrow> outbound_message \<Rightarrow> (frame, protocol_error) result" where
  "GameCodec_encode P m = map_ok (\<lambda>(opcode, payload). Frame_new opcode payload) (encode_outbound P m)"

definition ClientCodec_decode :: "prost \<Rightarrow> frame \<Rightarrow> (outbound_message, protocol_error) result" where
  "ClientCodec_decode P f = decode_outbound P (fr_opcode f) (fr_payload f)"

primrec ClientCodec_encode :: "prost \<Rightarrow> inbound_message \<Rightarrow> (frame, protocol_error) result" where
  "ClientCodec_encode P (InBind m) = Ok (Frame_new OP_C2S_BIND (pb_encode (pc_bind_request P) m))"
| "ClientCodec_encode P (InHeartbeat m) = Ok (Frame_new OP_C2S_HEARTBEAT (pb_encode (pc_heartbeat_ping P) m))"
| "ClientCodec_encode P (InJoinRoom m) = Ok (Frame_new OP_C2S_JOIN_ROOM (pb_encode (pc_join_room P) m))"
| "ClientCodec_encode P (InLeaveRoom m) = Ok (Frame_new OP_C2S_LEAVE_ROOM (pb_encode (pc_leave_room P) m))"
| "ClientCodec_encode P (InRoomChat m) = Ok (Frame_new OP_C2S_ROOM_CHAT (pb_encode (pc_room_chat P) m))"
| "ClientCodec_encode P (InGetProfile m) = Ok (Frame_new OP_C2S_GET_PROFILE (pb_encode (pc_get_profile P) m))"
| "ClientCodec_encode P (InUnknown opc) = Err (UnsupportedOpcode opc)"

section \<open>Router\<close>

type_synonym ('c, 's) handler =
  "'c \<Rightarrow> inbound_message \<Rightarrow> 's \<Rightarrow> (outbound_message option, protocol_error) result \<times> 's"

type_synonym ('c, 's) router = "(u16, ('c, 's) handler) hmap"

definition Router_new :: "('c, 's) router" where
  "Router_new = []"

definition Router_route :: "u16 \<Rightarrow> ('c, 's) handler \<Rightarrow> ('c, 's) router \<Rightarrow> ('c, 's) router" where
  "Router_route opcode h routes = hm_insert opcode h routes"

definition Router_has_route :: "u16 \<Rightarrow> ('c, 's) router \<Rightarrow> bool" where
  "Router_has_route opcode routes = hm_contains routes opcode"

definition Router_route_count :: "('c, 's) router \<Rightarrow> nat" where
  "Router_route_count routes = length routes"

definition Router_dispatch :: "('c, 's) router \<Rightarrow> ('c, 's) handler" where
  "Router_dispatch routes ctx message s =
     (case hm_get routes (InboundMessage_opcode message) of
        None \<Rightarrow> (Err (UnsupportedOpcode (InboundMessage_opcode message)), s)
      | Some h \<Rightarrow> h ctx message s)"

section \<open>Round trips\<close>

definition pb_sound :: "'m pb_codec \<Rightarrow> bool" where
  "pb_sound c \<longleftrightarrow> (\<forall>m. snd c (fst c m) = Ok m)"

definition prost_spec :: "prost \<Rightarrow> bool" where
  "prost_spec P \<longleftrightarrow>
     pb_sound (pc_bind_request P) \<and> pb_sound (pc_heartbeat_ping P) \<and> pb_sound (pc_join_room P) \<and>
     pb_sound (pc_leave_room P) \<and> pb_sound (pc_room_chat P) \<and> pb_sound (pc_get_profile P) \<and>
     pb_sound (pc_bind_result P) \<and> pb_sound (pc_heartbeat_ack P) \<and> pb_sound (pc_profile P) \<and>
     pb_sound (pc_room_event P) \<and> pb_sound (pc_error P) \<and> pb_sound (pc_shutdown P)"

lemma pb_roundtrip: "pb_sound c \<Longrightarrow> pb_decode c (pb_encode c m) = Ok m"
  by (simp add: pb_sound_def pb_decode_def pb_encode_def)

lemma client_server_roundtrip:
  assumes "prost_spec P" and "ClientCodec_encode P m = Ok f"
  shows "GameCodec_decode P f = Ok m \<and> fr_opcode f = InboundMessage_opcode m"
  using assms
  by (cases m) (auto simp: prost_spec_def GameCodec_decode_def Frame_new_def decode_inbound_def c2s_opcode_defs
      pb_roundtrip map_ok_def)

lemma server_client_roundtrip:
  assumes "prost_spec P"
  shows "\<exists>f. GameCodec_encode P m = Ok f \<and> ClientCodec_decode P f = Ok m"
  using assms
  by (cases m) (auto simp: prost_spec_def GameCodec_encode_def ClientCodec_decode_def Frame_new_def decode_outbound_def
      s2c_opcode_defs pb_roundtrip map_ok_def)

lemma decode_inbound_opcode: "decode_inbound P opcode payload = Ok m \<Longrightarrow> InboundMessage_opcode m = opcode"
  by (auto simp: decode_inbound_def map_ok_def split: if_splits result.splits)

text \<open>
  A codec that satisfies the law, for witnesses: a message is written as a run of zero bytes
  whose length numbers it, the message without fields as no bytes.
\<close>

instance bind_request :: countable by countable_datatype
instance heartbeat_ping :: countable by countable_datatype
instance join_room_request :: countable by countable_datatype
instance leave_room_request :: countable by countable_datatype
instance room_chat_request :: countable by countable_datatype
instance bind_result :: countable by countable_datatype
instance heartbeat_ack :: countable by countable_datatype
instance profile_response :: countable by countable_datatype
instance error_notification_msg :: countable by countable_datatype
instance server_shutdown_notice :: countable by countable_datatype
instance pb_room_event :: countable by countable_datatype
instance room_event_notification :: countable by countable_datatype

definition count_codec :: "'m::countable pb_codec" where
  "count_codec = (\<lambda>m. replicate (to_nat m) 0, \<lambda>bs. Ok (from_nat (length bs)))"

definition count_prost :: prost where
  "count_prost =
     \<lparr>pc_bind_request = count_codec, pc_heartbeat_ping = count_codec, pc_join_room = count_codec,
      pc_leave_room = count_codec, pc_room_chat = count_codec, pc_get_profile = (\<lambda>m. [], \<lambda>bs. Ok GetProfileRequest),
      pc_bind_result = count_codec, pc_heartbeat_ack = count_codec, pc_profile = count_codec,
      pc_room_event = count_codec, pc_error = count_codec, pc_shutdown = count_codec\<rparr>"

lemma count_codec_sound: "pb_sound count_codec"
  by (simp add: pb_sound_def count_codec_def)

lemma count_prost_spec: "prost_spec count_prost"
proof -
  have "pb_sound (\<lambda>m. [], \<lambda>bs. Ok GetProfileRequest)"
    unfolding pb_sound_def by (metis fst_conv get_profile_request.exhaust snd_conv)
  then show ?thesis by (simp add: prost_spec_def count_prost_def count_codec_sound)
qed

text \<open>
  (C26) Messages survive the wire in both directions: what a client encodes and frames within the
  size limit, the server reads from the stream and decodes as the same message, whose routing opcode is the
  one of the frame, and it is left with the rest of the stream; and every message the server encodes is framed when it is within the
  limit, and refused as too large otherwise, and the client that reads the frame from the stream decodes the same message and is left with
  the rest.
\<close>

theorem protocol_end_to_end:
  assumes "prost_spec P" and "reader_spec rd bytes ending" and "mx < 2 ^ 32"
    and "ClientCodec_encode P m = Ok f" and "encode_frame f mx = Ok bs" and "bytes r = bs @ rest"
  shows "(\<exists>r'. read_frame rd mx r = (Ok (Some f), r') \<and> bytes r' = rest) \<and>
    GameCodec_decode P f = Ok m \<and> fr_opcode f = InboundMessage_opcode m \<and>
    (\<exists>g. GameCodec_encode P reply = Ok g \<and>
       (if wire_len g \<le> mx
        then \<exists>bs'. encode_frame g mx = Ok bs' \<and>
          (\<forall>c rest'. bytes c = bs' @ rest' \<longrightarrow>
             (\<exists>g' c'. read_frame rd mx c = (Ok (Some g'), c') \<and> bytes c' = rest' \<and> ClientCodec_decode P g' = Ok reply))
        else encode_frame g mx = Err (FrameTooLarge (wire_len g) mx)))"
proof -
  have "wire_len f < 2 ^ 32" using assms(3,5) by (auto simp: encode_frame_Ok)
  note up = read_frame_encoded [OF assms(2,5) this assms(6)] client_server_roundtrip [OF assms(1,4)]
  obtain g where g: "GameCodec_encode P reply = Ok g" "ClientCodec_decode P g = Ok reply"
    using server_client_roundtrip [OF assms(1), of reply] by blast
  have down: "\<exists>bs'. encode_frame g mx = Ok bs' \<and> (\<forall>c rest'. bytes c = bs' @ rest' \<longrightarrow>
      (\<exists>g' c'. read_frame rd mx c = (Ok (Some g'), c') \<and> bytes c' = rest' \<and> ClientCodec_decode P g' = Ok reply))"
    if le: "wire_len g \<le> mx"
  proof -
    obtain bs' where enc: "encode_frame g mx = Ok bs'" using le by (auto simp: encode_frame_Ok)
    have "wire_len g < 2 ^ 32" using le assms(3) by simp
    from read_frame_encoded [OF assms(2) enc this] g(2) enc show ?thesis by blast
  qed
  have "encode_frame g mx = Err (FrameTooLarge (wire_len g) mx)" if "\<not> wire_len g \<le> mx" using that by (simp add: encode_frame_def)
  with up down g(1) show ?thesis by (metis (no_types, lifting))
qed

text \<open>
  Witness: an empty profile request and a shutdown notice without text, whose codec writes it as no bytes.
\<close>

definition shutdown_codec :: "server_shutdown_notice pb_codec" where
  "shutdown_codec =
     (\<lambda>m. if m = ServerShutdownNotice [] then [] else replicate (Suc (to_nat m)) 0,
      \<lambda>bs. Ok (if bs = [] then ServerShutdownNotice [] else from_nat (length bs - 1)))"

definition sample_prost :: prost where
  "sample_prost = count_prost\<lparr>pc_shutdown := shutdown_codec\<rparr>"

lemma sample_prost_spec: "prost_spec sample_prost"
  using count_prost_spec by (simp add: prost_spec_def sample_prost_def pb_sound_def shutdown_codec_def)

theorem protocol_end_to_end_witness:
  "(\<exists>f. ClientCodec_encode sample_prost (InGetProfile GetProfileRequest) = Ok f \<and>
     GameCodec_decode sample_prost f = Ok (InGetProfile GetProfileRequest)) \<and>
   (\<exists>g bs. GameCodec_encode sample_prost (OutShutdown (ServerShutdownNotice [])) = Ok g \<and> encode_frame g 64 = Ok bs \<and>
     (\<exists>g' c'. read_frame list_read 64 (bs @ [7], eof) = (Ok (Some g'), c') \<and> fst c' = [7] \<and>
        ClientCodec_decode sample_prost g' = Ok (OutShutdown (ServerShutdownNotice []))))"
proof -
  let ?f = "Frame_new OP_C2S_GET_PROFILE []" and ?m = "OutShutdown (ServerShutdownNotice [])"
  let ?bs = "u32_to_be_bytes 2 @ u16_to_be_bytes OP_C2S_GET_PROFILE"
  have enc: "ClientCodec_encode sample_prost (InGetProfile GetProfileRequest) = Ok ?f"
    by (simp add: sample_prost_def count_prost_def pb_encode_def)
  have fr: "encode_frame ?f 64 = Ok ?bs"
    by (simp add: encode_frame_Ok wire_len_def Frame_new_def OPCODE_BYTES_def)
  have st: "fst (?bs, eof) = ?bs @ []" by simp
  note both = protocol_end_to_end [OF sample_prost_spec list_read_spec _ enc fr st, of ?m, simplified]
  have small: "wire_len g \<le> 64" if "GameCodec_encode sample_prost ?m = Ok g" for g
    using that by (auto simp: GameCodec_encode_def sample_prost_def shutdown_codec_def pb_encode_def map_ok_def Frame_new_def
        wire_len_def OPCODE_BYTES_def)
  from both obtain g where g: "GameCodec_encode sample_prost ?m = Ok g" "if wire_len g \<le> 64
        then \<exists>bs'. encode_frame g 64 = Ok bs' \<and>
          (\<forall>c rest'. fst c = bs' @ rest' \<longrightarrow>
             (\<exists>g' c'. read_frame list_read 64 c = (Ok (Some g'), c') \<and> fst c' = rest' \<and> ClientCodec_decode sample_prost g' = Ok ?m))
        else encode_frame g 64 = Err (FrameTooLarge (wire_len g) 64)" by blast
  from g(2) small [OF g(1)] obtain bs where "encode_frame g 64 = Ok bs"
    "\<exists>g' c'. read_frame list_read 64 (bs @ [7], eof) = (Ok (Some g'), c') \<and> fst c' = [7] \<and> ClientCodec_decode sample_prost g' = Ok ?m"
    by (metis fst_conv)
  with both enc g(1) show ?thesis by blast
qed

end
