(* ===== verification/LX_Gate.thy ===== *)
theory LX_Gate
  imports LX_Protocol Complex_Main
begin

text \<open>
  The admission controls of \<^verbatim>\<open>crates/gateway/src/tcp\<close>: \<^verbatim>\<open>auth_gate.rs\<close> (per-address quota of
  unauthenticated connections), \<^verbatim>\<open>rate_limit.rs\<close> (token bucket) with the settings of
  \<^verbatim>\<open>config.rs\<close>, and \<^verbatim>\<open>connections.rs\<close> (registry of live connections). An IP address is
  opaque, a number. The outbound queues are shared between a connection, its event translator and the
  registry, so they live in a store and the registry holds their addresses.
\<close>

type_synonym ip_addr = nat

section \<open>The quota of unauthenticated connections\<close>

record auth_gate =
  ag_max_per_ip :: nat
  ag_counts :: "(ip_addr, nat) hmap"

definition AuthGate_new :: "nat \<Rightarrow> auth_gate" where
  "AuthGate_new max_per_ip = \<lparr>ag_max_per_ip = max_per_ip, ag_counts = []\<rparr>"

definition AuthGate_acquire :: "ip_addr \<Rightarrow> auth_gate \<Rightarrow> bool \<times> auth_gate" where
  "AuthGate_acquire ip g =
     (let counts = (case hm_get (ag_counts g) ip of None \<Rightarrow> hm_insert ip 0 (ag_counts g) | Some _ \<Rightarrow> ag_counts g);
          count = (case hm_get counts ip of Some n \<Rightarrow> n | None \<Rightarrow> 0)
      in if count \<ge> ag_max_per_ip g then (False, g\<lparr>ag_counts := counts\<rparr>)
         else (True, g\<lparr>ag_counts := hm_insert ip (count + 1) counts\<rparr>))"

definition AuthGate_release :: "ip_addr \<Rightarrow> auth_gate \<Rightarrow> auth_gate" where
  "AuthGate_release ip g =
     (case hm_get (ag_counts g) ip of
        None \<Rightarrow> g
      | Some n \<Rightarrow>
          (let count = n - 1
           in if count = 0 then g\<lparr>ag_counts := hm_remove ip (ag_counts g)\<rparr>
              else g\<lparr>ag_counts := hm_insert ip count (ag_counts g)\<rparr>))"

definition unauth_count :: "ip_addr \<Rightarrow> auth_gate \<Rightarrow> nat" where
  "unauth_count ip g = (case hm_get (ag_counts g) ip of Some n \<Rightarrow> n | None \<Rightarrow> 0)"

text \<open>A permit is the address it was taken for; dropping it releases one place of that address.\<close>

definition AuthGate_permit :: "ip_addr \<Rightarrow> auth_gate \<Rightarrow> ip_addr option \<times> auth_gate" where
  "AuthGate_permit ip g = (case AuthGate_acquire ip g of (ok, g') \<Rightarrow> (if ok then Some ip else None, g'))"

definition AuthPermit_drop :: "ip_addr \<Rightarrow> auth_gate \<Rightarrow> auth_gate" where
  "AuthPermit_drop ip g = AuthGate_release ip g"

lemma acquire_simps:
  "fst (AuthGate_acquire ip g) \<longleftrightarrow> unauth_count ip g < ag_max_per_ip g"
  "unauth_count jp (snd (AuthGate_acquire ip g)) =
     (if jp = ip \<and> unauth_count ip g < ag_max_per_ip g then Suc (unauth_count jp g) else unauth_count jp g)"
  "ag_max_per_ip (snd (AuthGate_acquire ip g)) = ag_max_per_ip g"
  by (auto simp: AuthGate_acquire_def unauth_count_def Let_def split: option.splits)

lemma release_simps:
  "unauth_count jp (AuthGate_release ip g) = (if jp = ip then unauth_count jp g - 1 else unauth_count jp g)"
  "ag_max_per_ip (AuthGate_release ip g) = ag_max_per_ip g"
  by (auto simp: AuthGate_release_def unauth_count_def Let_def split: option.splits)

lemma permit_eq: "AuthGate_permit ip g = (if unauth_count ip g < ag_max_per_ip g then Some ip else None, snd (AuthGate_acquire ip g))"
  using acquire_simps(1) [of ip g] by (auto simp: AuthGate_permit_def split: prod.splits)

text \<open>Connections come and go: \<open>held\<close> are the permits currently alive.\<close>

datatype gate_event = Arrive ip_addr | Depart ip_addr

fun gate_run :: "gate_event list \<Rightarrow> ip_addr list \<times> auth_gate \<Rightarrow> ip_addr list \<times> auth_gate" where
  "gate_run [] st = st"
| "gate_run (Arrive ip # es) (held, g) =
     (case AuthGate_permit ip g of
        (Some p, g') \<Rightarrow> gate_run es (p # held, g')
      | (None, g') \<Rightarrow> gate_run es (held, g'))"
| "gate_run (Depart ip # es) (held, g) =
     (if ip \<in> set held then gate_run es (remove1 ip held, AuthPermit_drop ip g) else gate_run es (held, g))"

definition gate_ok :: "ip_addr list \<times> auth_gate \<Rightarrow> bool" where
  "gate_ok st \<longleftrightarrow>
     (\<forall>ip. unauth_count ip (snd st) = count_list (fst st) ip \<and> count_list (fst st) ip \<le> ag_max_per_ip (snd st))"

lemma gate_ok_arrive:
  assumes "gate_ok (held, g)"
  shows "gate_ok (if unauth_count ip g < ag_max_per_ip g then ip # held else held, snd (AuthGate_acquire ip g))"
  using assms by (fastforce simp: gate_ok_def acquire_simps)

lemma count_list_remove1: "count_list (remove1 ip held) jp = (if jp = ip then count_list held jp - 1 else count_list held jp)"
  by (induction held) auto

lemma gate_ok_depart: "gate_ok (held, g) \<Longrightarrow> gate_ok (remove1 ip held, AuthPermit_drop ip g)"
  by (fastforce simp: gate_ok_def AuthPermit_drop_def release_simps count_list_remove1 intro: le_trans [OF diff_le_self])

lemma gate_run_inv:
  "gate_ok st \<Longrightarrow> gate_ok (gate_run es st) \<and> ag_max_per_ip (snd (gate_run es st)) = ag_max_per_ip (snd st)"
proof (induction es st rule: gate_run.induct)
  case (2 ip es held g)
  note arr = gate_ok_arrive [OF "2.prems", of ip]
  show ?case
  proof (cases "unauth_count ip g < ag_max_per_ip g")
    case True
    with "2.IH"(2) [OF permit_eq [symmetric]] arr show ?thesis by (simp add: permit_eq acquire_simps)
  next
    case False
    with "2.IH"(1) [OF permit_eq [symmetric]] arr show ?thesis by (simp add: permit_eq acquire_simps)
  qed
next
  case (3 ip es held g)
  show ?case
  proof (cases "ip \<in> set held")
    case True
    with "3.IH"(1) [OF True gate_ok_depart [OF "3.prems"]] show ?thesis
      by (simp add: AuthPermit_drop_def release_simps)
  qed (use 3 in simp)
qed auto

text \<open>
  (C29) The quota of unauthenticated connections is exact: however connections from any addresses
  arrive and end, the count of an address is the number of its permits that are alive, never
  more than the quota, and a new connection is admitted exactly when its address is below it.
\<close>

theorem auth_gate_exact:
  "(case gate_run es ([], AuthGate_new n) of (held, g) \<Rightarrow>
      (\<forall>ip. unauth_count ip g = count_list held ip \<and> unauth_count ip g \<le> n \<and>
         (fst (AuthGate_permit ip g) \<noteq> None \<longleftrightarrow> count_list held ip < n)))"
proof -
  obtain held g where r: "gate_run es ([], AuthGate_new n) = (held, g)" by (metis prod.exhaust)
  have "gate_ok ([], AuthGate_new n)" by (simp add: gate_ok_def unauth_count_def AuthGate_new_def)
  from gate_run_inv [OF this, of es] r have g: "gate_ok (held, g)" "ag_max_per_ip g = n"
    by (simp_all add: AuthGate_new_def)
  then have "\<forall>ip. unauth_count ip g = count_list held ip \<and> unauth_count ip g \<le> n \<and>
      (fst (AuthGate_permit ip g) \<noteq> None \<longleftrightarrow> count_list held ip < n)"
    by (simp add: gate_ok_def permit_eq)
  then show ?thesis unfolding r prod.case .
qed

section \<open>The token bucket\<close>

record rate_limit_settings =
  rl_enabled :: bool
  rl_per_second :: u64
  rl_burst :: u64

text \<open>
  The bucket computes with \<^verbatim>\<open>f64\<close>. Every operation rounds its exact result, so the rounding \<open>rnd\<close>
  is an argument; \<open>f64_spec\<close> states what is used of it: rounding is monotone and exact on
  integers of at most 53 bits. \<open>as_secs_f64\<close> is \<^verbatim>\<open>Duration::as_secs_f64\<close>.
\<close>

definition f64_spec :: "(real \<Rightarrow> real) \<Rightarrow> bool" where
  "f64_spec rnd \<longleftrightarrow> mono rnd \<and> (\<forall>k::int. \<bar>k\<bar> \<le> 2 ^ 53 \<longrightarrow> rnd (of_int k) = of_int k)"

definition as_secs_f64 :: "(real \<Rightarrow> real) \<Rightarrow> duration \<Rightarrow> real" where
  "as_secs_f64 rnd d = rnd (rnd (of_int (d div 1000000000)) + rnd (rnd (of_int (d mod 1000000000)) / 1000000000))"

record token_bucket =
  tb_capacity :: real
  tb_refill_per_sec :: real
  tb_tokens :: real
  tb_last_refill :: instant

definition TokenBucket_new :: "(real \<Rightarrow> real) \<Rightarrow> rate_limit_settings \<Rightarrow> instant \<Rightarrow> token_bucket option" where
  "TokenBucket_new rnd settings now =
     (if \<not> rl_enabled settings \<or> rl_per_second settings = 0 \<or> rl_burst settings = 0 then None
      else Some \<lparr>tb_capacity = rnd (of_nat (unat (rl_burst settings))),
                 tb_refill_per_sec = rnd (of_nat (unat (rl_per_second settings))),
                 tb_tokens = rnd (of_nat (unat (rl_burst settings))), tb_last_refill = now\<rparr>)"

definition try_acquire :: "(real \<Rightarrow> real) \<Rightarrow> instant \<Rightarrow> token_bucket \<Rightarrow> bool \<times> token_bucket" where
  "try_acquire rnd now b =
     (let elapsed = as_secs_f64 rnd (max (now - tb_last_refill b) 0);
          tokens = min (rnd (tb_tokens b + rnd (elapsed * tb_refill_per_sec b))) (tb_capacity b);
          b' = b\<lparr>tb_tokens := tokens, tb_last_refill := now\<rparr>
      in if tokens \<ge> 1 then (True, b'\<lparr>tb_tokens := rnd (tokens - 1)\<rparr>) else (False, b'))"

fun acquire_run :: "(real \<Rightarrow> real) \<Rightarrow> instant list \<Rightarrow> token_bucket \<Rightarrow> nat \<times> token_bucket" where
  "acquire_run rnd [] b = (0, b)"
| "acquire_run rnd (t # ts) b =
     (let (ok, b') = try_acquire rnd t b; (n, b'') = acquire_run rnd ts b'
      in (if ok then Suc n else n, b''))"

lemma f64_exact: "f64_spec rnd \<Longrightarrow> \<bar>k\<bar> \<le> 2 ^ 53 \<Longrightarrow> rnd (of_int k) = of_int k"
  by (simp add: f64_spec_def)

lemma f64_mono: "f64_spec rnd \<Longrightarrow> x \<le> y \<Longrightarrow> rnd x \<le> rnd y"
  by (simp add: f64_spec_def monoD)

lemma f64_zero: "f64_spec rnd \<Longrightarrow> rnd 0 = 0"
  using f64_exact [of rnd 0] by simp

lemma f64_le_int: "f64_spec rnd \<Longrightarrow> x \<le> of_int k \<Longrightarrow> \<bar>k\<bar> \<le> 2 ^ 53 \<Longrightarrow> rnd x \<le> of_int k"
  using f64_mono [of rnd x "of_int k"] f64_exact [of rnd k] by simp

lemma as_secs_zero: "f64_spec rnd \<Longrightarrow> as_secs_f64 rnd 0 = 0"
  by (simp add: as_secs_f64_def f64_zero)

text \<open>At one instant, a bucket with at most \<open>k\<close> tokens lets at most \<open>k\<close> attempts through.\<close>

lemma acquire_same_instant:
  assumes spec: "f64_spec rnd" and "tb_last_refill b = now \<or> tb_capacity b \<le> of_int (int k)"
    and "tb_last_refill b = now \<Longrightarrow> tb_tokens b \<le> of_int (int k)" and "int k \<le> 2 ^ 53"
  shows "fst (acquire_run rnd (replicate n now) b) \<le> k"
  using assms(2-)
proof (induction n arbitrary: b k)
  case (Suc n)
  let ?tok = "min (rnd (tb_tokens b + rnd (as_secs_f64 rnd (max (now - tb_last_refill b) 0) * tb_refill_per_sec b))) (tb_capacity b)"
  have tok: "?tok \<le> of_int (int k)"
  proof (cases "tb_last_refill b = now")
    case True
    then have "rnd (tb_tokens b) \<le> of_int (int k)"
      using Suc.prems by (intro f64_le_int [OF spec]) auto
    then show ?thesis using True by (simp add: as_secs_zero [OF spec] f64_zero [OF spec] min.coboundedI1)
  next
    case False
    then show ?thesis using Suc.prems(1) by (simp add: min.coboundedI2)
  qed
  show ?case
  proof (cases "?tok \<ge> 1")
    case True
    let ?b = "b\<lparr>tb_tokens := rnd (?tok - 1), tb_last_refill := now\<rparr>"
    have a: "try_acquire rnd now b = (True, ?b)" using True by (simp add: try_acquire_def Let_def)
    have k: "k \<ge> 1" using True tok by linarith
    have "rnd (?tok - 1) \<le> of_int (int (k - 1))"
      using tok k Suc.prems(3) by (intro f64_le_int [OF spec]) (auto simp: of_nat_diff)
    with Suc.IH [of ?b "k - 1"] Suc.prems(3) k have "fst (acquire_run rnd (replicate n now) ?b) \<le> k - 1" by simp
    with a k show ?thesis by (auto split: prod.splits)
  next
    case False
    let ?b = "b\<lparr>tb_tokens := ?tok, tb_last_refill := now\<rparr>"
    have a: "try_acquire rnd now b = (False, ?b)" using False by (simp add: try_acquire_def Let_def)
    with Suc.IH [of ?b k] tok Suc.prems(3) show ?thesis by (auto split: prod.splits)
  qed
qed simp

lemma acquire_capacity: "tb_capacity (snd (acquire_run rnd ts b)) = tb_capacity b"
proof (induction ts arbitrary: b)
  case (Cons t ts)
  have "tb_capacity (snd (try_acquire rnd t b)) = tb_capacity b" by (simp add: try_acquire_def Let_def)
  with Cons [of "snd (try_acquire rnd t b)"] show ?case by (auto split: prod.splits)
qed simp

text \<open>
  (C30) No burst exceeds the configured one: whatever happened before, of any number of frames that
  arrive at the same instant a connection gets at most \<^verbatim>\<open>burst\<close> accepted (for a burst of at most
  \<open>2 ^ 53\<close>, where \<^verbatim>\<open>f64\<close> is exact); a disabled limit, or a rate or burst of zero, means no
  bucket at all.
\<close>

theorem rate_limit_burst:
  assumes "f64_spec rnd" and "TokenBucket_new rnd settings start = Some b"
    and "unat (rl_burst settings) \<le> 2 ^ 53"
  shows "fst (acquire_run rnd (replicate n now) (snd (acquire_run rnd earlier b))) \<le> unat (rl_burst settings) \<and>
    (TokenBucket_new rnd settings' start = None \<longleftrightarrow>
      \<not> rl_enabled settings' \<or> rl_per_second settings' = 0 \<or> rl_burst settings' = 0)"
proof -
  let ?k = "unat (rl_burst settings)"
  have k: "int ?k \<le> 2 ^ 53" using of_nat_mono [OF assms(3), where 'a = int] by (simp only: of_nat_power of_nat_numeral)
  have cap: "tb_capacity b = of_int (int ?k)" and tok: "tb_tokens b = of_int (int ?k)"
    using assms(2) f64_exact [OF assms(1), of "int ?k"] k by (auto simp: TokenBucket_new_def split: if_splits)
  let ?b = "snd (acquire_run rnd earlier b)"
  have bound: "tb_tokens (snd (acquire_run rnd ts c)) \<le> of_int (int ?k)"
    if "tb_capacity c = of_int (int ?k)" "tb_tokens c \<le> of_int (int ?k)" for ts c
    using that
  proof (induction ts arbitrary: c)
    case (Cons t ts)
    let ?tok = "min (rnd (tb_tokens c + rnd (as_secs_f64 rnd (max (t - tb_last_refill c) 0) * tb_refill_per_sec c))) (tb_capacity c)"
    have "?tok \<le> of_int (int ?k)" using Cons.prems(1) by simp
    moreover from this have "rnd (?tok - 1) \<le> of_int (int ?k)" using k by (intro f64_le_int [OF assms(1)]) auto
    ultimately have "tb_tokens (snd (try_acquire rnd t c)) \<le> of_int (int ?k)" by (simp add: try_acquire_def Let_def)
    moreover have "tb_capacity (snd (try_acquire rnd t c)) = of_int (int ?k)"
      using Cons.prems(1) by (simp add: try_acquire_def Let_def)
    ultimately show ?case using Cons.IH [of "snd (try_acquire rnd t c)"] by (auto split: prod.splits)
  qed simp
  have "fst (acquire_run rnd (replicate n now) ?b) \<le> ?k"
    using bound [OF cap] tok acquire_capacity [of rnd earlier b] cap k
    by (intro acquire_same_instant [OF assms(1)]) auto
  then show ?thesis by (simp add: TokenBucket_new_def)
qed

text \<open>Witness: a burst of five with exact arithmetic.\<close>

definition sample_rate :: rate_limit_settings where
  "sample_rate = \<lparr>rl_enabled = True, rl_per_second = 10, rl_burst = 5\<rparr>"

theorem rate_limit_burst_witness:
  "\<exists>b. TokenBucket_new (\<lambda>x. x) sample_rate 0 = Some b \<and> fst (acquire_run (\<lambda>x. x) (replicate 9 7) b) \<le> 5"
proof -
  have f: "f64_spec (\<lambda>x. x)" by (simp add: f64_spec_def mono_def)
  obtain b where b: "TokenBucket_new (\<lambda>x. x) sample_rate 0 = Some b"
    by (simp add: TokenBucket_new_def sample_rate_def)
  from rate_limit_burst [OF f b, of 9 7 "[]" sample_rate] b show ?thesis by (simp add: sample_rate_def)
qed

section \<open>The connection registry\<close>

type_synonym conn_ref = nat
type_synonym 'f queues = "conn_ref \<Rightarrow> 'f outbound"
type_synonym conn_registry = "(uuid, conn_ref option) hmap"

definition ConnectionRegistry_register :: "uuid \<Rightarrow> conn_ref \<Rightarrow> conn_registry \<Rightarrow> conn_registry" where
  "ConnectionRegistry_register i sender reg = hm_insert i (Some sender) reg"

definition ConnectionRegistry_remove :: "uuid \<Rightarrow> conn_registry \<Rightarrow> conn_ref option \<times> conn_registry" where
  "ConnectionRegistry_remove i reg =
     (case hm_get reg i of Some sender \<Rightarrow> sender | None \<Rightarrow> None, hm_remove i reg)"

definition begin_drain :: "uuid \<Rightarrow> conn_registry \<Rightarrow> conn_registry" where
  "begin_drain i reg = (case hm_get reg i of Some _ \<Rightarrow> hm_insert i None reg | None \<Rightarrow> reg)"

definition active_count :: "conn_registry \<Rightarrow> nat" where
  "active_count reg = length reg"

fun broadcast_to :: "'f frame_chan \<Rightarrow> frame \<Rightarrow> conn_ref option list \<Rightarrow> 'f queues \<Rightarrow> nat \<times> 'f queues" where
  "broadcast_to M f [] q = (0, q)"
| "broadcast_to M f (None # cs) q = broadcast_to M f cs q"
| "broadcast_to M f (Some c # cs) q =
     (let (res, s') = try_send_frame M f (q c); (n, q') = broadcast_to M f cs (q(c := s'))
      in (if is_ok res then Suc n else n, q'))"

definition ConnectionRegistry_broadcast ::
  "'f frame_chan \<Rightarrow> prost \<Rightarrow> outbound_message \<Rightarrow> conn_registry \<Rightarrow> 'f queues \<Rightarrow> nat \<times> 'f queues" where
  "ConnectionRegistry_broadcast M P message reg q =
     (case GameCodec_encode P message of
        Err e \<Rightarrow> (0, q)
      | Ok f \<Rightarrow> broadcast_to M f (hm_values reg) q)"

end
