(* ===== verification/LX_Room.thy ===== *)
theory LX_Room
  imports LX_Values
begin

text \<open>
  \<^verbatim>\<open>crates/domain/src/room/aggregate.rs\<close>: the room aggregate. \<open>room_inv\<close> is what the
  operations keep (distinct members, never more than the capacity, a positive capacity);
  \<open>room_lifecycle\<close> is the step relation of the state machine.
\<close>

datatype room_state = Waiting | InProgress | Settling | Closed

primrec room_state_display :: "room_state \<Rightarrow> rstring" where
  "room_state_display Waiting = ascii ''Waiting''"
| "room_state_display InProgress = ascii ''InProgress''"
| "room_state_display Settling = ascii ''Settling''"
| "room_state_display Closed = ascii ''Closed''"

record room =
  rm_id :: room_id
  rm_members :: "player_id list"
  rm_max_players :: u32
  rm_state :: room_state
  rm_created_at :: datetime

definition Room_open :: "uuid \<Rightarrow> u32 \<Rightarrow> datetime \<Rightarrow> room" where
  "Room_open fresh max_players now =
     \<lparr>rm_id = RoomId fresh, rm_members = [], rm_max_players = max max_players 1,
      rm_state = Waiting, rm_created_at = now\<rparr>"

definition Room_reconstitute ::
  "room_id \<Rightarrow> player_id list \<Rightarrow> u32 \<Rightarrow> room_state \<Rightarrow> datetime \<Rightarrow> room" where
  "Room_reconstitute i members max_players state created =
     \<lparr>rm_id = i, rm_members = members, rm_max_players = max_players, rm_state = state,
      rm_created_at = created\<rparr>"

definition Room_member_count :: "room \<Rightarrow> nat" where
  "Room_member_count r = length (rm_members r)"

definition Room_is_full :: "room \<Rightarrow> bool" where
  "Room_is_full r \<longleftrightarrow> Room_member_count r \<ge> unat (rm_max_players r)"

definition Room_is_closed :: "room \<Rightarrow> bool" where
  "Room_is_closed r \<longleftrightarrow> rm_state r = Closed"

definition Room_try_join :: "player_id \<Rightarrow> room \<Rightarrow> (bool, domain_error) result \<times> room" where
  "Room_try_join p r =
     (if Room_is_closed r then (Err (RoomClosed (rm_id r)), r)
      else if p \<in> set (rm_members r) then (Ok False, r)
      else if Room_is_full r then (Err (RoomFull (rm_id r)), r)
      else (Ok True, r\<lparr>rm_members := rm_members r @ [p]\<rparr>))"

definition Room_try_leave :: "player_id \<Rightarrow> room \<Rightarrow> (bool, domain_error) result \<times> room" where
  "Room_try_leave p r =
     (if Room_is_closed r then (Err (RoomClosed (rm_id r)), r)
      else let before = length (rm_members r);
               members' = filter (\<lambda>m. m \<noteq> p) (rm_members r)
           in (Ok (length members' \<noteq> before), r\<lparr>rm_members := members'\<rparr>))"

definition transition_allowed :: "room_state \<Rightarrow> room_state \<Rightarrow> bool" where
  "transition_allowed src dst \<longleftrightarrow>
     (src, dst) \<in> {(Waiting, InProgress), (InProgress, Settling), (Settling, Closed)}"

definition Room_transition_to :: "room_state \<Rightarrow> room \<Rightarrow> (unit, domain_error) result \<times> room" where
  "Room_transition_to target r =
     (if \<not> transition_allowed (rm_state r) target
      then (Err (IllegalTransition (room_state_display (rm_state r)) (room_state_display target)), r)
      else (Ok (), r\<lparr>rm_state := target\<rparr>))"

definition Room_close :: "room \<Rightarrow> bool \<times> room" where
  "Room_close r = (if Room_is_closed r then (False, r) else (True, r\<lparr>rm_state := Closed\<rparr>))"

lemmas room_query_defs [lx_defs] =
  Room_open_def Room_reconstitute_def Room_member_count_def Room_is_full_def Room_is_closed_def

lemmas room_op_defs = Room_try_join_def Room_try_leave_def Room_transition_to_def Room_close_def

section \<open>The invariant\<close>

definition room_inv :: "room \<Rightarrow> bool" where
  "room_inv r \<longleftrightarrow>
     distinct (rm_members r) \<and> length (rm_members r) \<le> unat (rm_max_players r) \<and>
     1 \<le> unat (rm_max_players r)"

lemma room_inv_open [lx_inv]: "room_inv (Room_open fresh mp now)"
  by (auto simp: room_inv_def Room_open_def max_def word_le_nat_alt)

lemma room_inv_try_join [lx_inv]: "room_inv r \<Longrightarrow> room_inv (snd (Room_try_join p r))"
  by (auto simp: room_inv_def Room_try_join_def lx_defs)

lemma room_inv_try_leave [lx_inv]: "room_inv r \<Longrightarrow> room_inv (snd (Room_try_leave p r))"
  by (auto simp: room_inv_def Room_try_leave_def Let_def
      intro: le_trans [OF length_filter_le])

lemma room_inv_transition [lx_inv]: "room_inv r \<Longrightarrow> room_inv (snd (Room_transition_to s r))"
  by (auto simp: room_inv_def Room_transition_to_def)

lemma room_inv_close [lx_inv]: "room_inv r \<Longrightarrow> room_inv (snd (Room_close r))"
  by (auto simp: room_inv_def Room_close_def)

section \<open>Operations of a room as steps\<close>

datatype room_op = OpJoin player_id | OpLeave player_id | OpTransition room_state | OpClose

primrec room_exec :: "room_op \<Rightarrow> room \<Rightarrow> room" where
  "room_exec (OpJoin p) r = snd (Room_try_join p r)"
| "room_exec (OpLeave p) r = snd (Room_try_leave p r)"
| "room_exec (OpTransition s) r = snd (Room_transition_to s r)"
| "room_exec OpClose r = snd (Room_close r)"

lemma room_exec_inv: "room_inv r \<Longrightarrow> room_inv (room_exec oper r)"
  by (cases oper) (simp_all add: lx_inv)

lemma room_run_inv: "room_inv r \<Longrightarrow> room_inv (fold room_exec opers r)"
  by (induction opers arbitrary: r) (simp_all add: room_exec_inv)

lemma room_exec_frame:
  "rm_id (room_exec oper r) = rm_id r" "rm_max_players (room_exec oper r) = rm_max_players r"
  "rm_created_at (room_exec oper r) = rm_created_at r"
  by (cases oper; auto simp: room_op_defs Let_def)+

lemma room_run_frame:
  "rm_id (fold room_exec opers r) = rm_id r"
  "rm_max_players (fold room_exec opers r) = rm_max_players r"
  by (induction opers arbitrary: r) (simp_all add: room_exec_frame)

text \<open>The life cycle as a relation: one forward edge at a time, or a close from anywhere.\<close>

inductive room_lifecycle :: "room_state \<Rightarrow> room_state \<Rightarrow> bool" where
  start: "room_lifecycle Waiting InProgress"
| settle: "room_lifecycle InProgress Settling"
| finish: "room_lifecycle Settling Closed"
| abort: "s \<noteq> Closed \<Longrightarrow> room_lifecycle s Closed"

inductive_cases room_lifecycle_ClosedE [elim!]: "room_lifecycle Closed s"

lemma transition_allowed_lifecycle: "transition_allowed s t \<Longrightarrow> room_lifecycle s t"
  by (auto simp: transition_allowed_def intro: room_lifecycle.intros)

lemma room_exec_lifecycle:
  "rm_state (room_exec oper r) = rm_state r \<or> room_lifecycle (rm_state r) (rm_state (room_exec oper r))"
  by (cases oper)
    (auto simp: room_op_defs Let_def Room_is_closed_def dest: transition_allowed_lifecycle
      intro: room_lifecycle.intros)

primrec room_rank :: "room_state \<Rightarrow> nat" where
  "room_rank Waiting = 0"
| "room_rank InProgress = 1"
| "room_rank Settling = 2"
| "room_rank Closed = 3"

lemma room_lifecycle_forward: "room_lifecycle s t \<Longrightarrow> room_rank s < room_rank t"
proof (induction rule: room_lifecycle.induct)
  case (abort s)
  then show ?case by (cases s) auto
qed auto

lemma room_exec_rank: "room_rank (rm_state r) \<le> room_rank (rm_state (room_exec oper r))"
  using room_exec_lifecycle [of oper r] room_lifecycle_forward by fastforce

lemma room_run_rank: "room_rank (rm_state r) \<le> room_rank (rm_state (fold room_exec opers r))"
proof (induction opers arbitrary: r)
  case (Cons oper opers)
  have "room_rank (rm_state r) \<le> room_rank (rm_state (room_exec oper r))" by (rule room_exec_rank)
  also have "\<dots> \<le> room_rank (rm_state (fold room_exec opers (room_exec oper r)))" by (rule Cons.IH)
  finally show ?case by simp
qed simp

lemma room_closed_frozen:
  assumes "Room_is_closed r"
  shows "room_exec oper r = r"
  using assms
  by (cases oper) (auto simp: room_op_defs Room_is_closed_def transition_allowed_def)

lemma room_closed_run: "Room_is_closed r \<Longrightarrow> fold room_exec opers r = r"
  by (induction opers) (simp_all add: room_closed_frozen)

section \<open>Membership\<close>

lemma Room_try_join_members:
  assumes "Room_try_join p r = (Ok b, r')"
  shows "set (rm_members r') = insert p (set (rm_members r))" and "b \<longleftrightarrow> p \<notin> set (rm_members r)"
    and "\<not> Room_is_closed r'"
  using assms by (auto simp: Room_try_join_def Room_is_closed_def split: if_splits)

lemma Room_try_join_Err:
  assumes "Room_try_join p r = (Err e, r')"
  shows "r' = r"
  using assms by (auto simp: Room_try_join_def split: if_splits)

lemma length_filter_neq_iff: "length (filter (\<lambda>m. m \<noteq> p) xs) \<noteq> length xs \<longleftrightarrow> p \<in> set xs"
proof (induction xs)
  case (Cons x xs)
  have "length (filter (\<lambda>m. m \<noteq> p) xs) < Suc (length xs)"
    by (simp add: le_imp_less_Suc)
  with Cons show ?case by (auto simp del: length_filter_less)
qed simp

lemma Room_try_leave_members:
  assumes "Room_try_leave p r = (Ok b, r')"
  shows "set (rm_members r') = set (rm_members r) - {p}" and "b \<longleftrightarrow> p \<in> set (rm_members r)"
    and "rm_state r' = rm_state r" and "\<not> Room_is_closed r'"
  using assms
  by (auto simp: Room_try_leave_def Room_is_closed_def Let_def length_filter_neq_iff
      split: if_splits)

text \<open>
  (C33) A room never holds more members than its capacity, never holds a player twice, keeps
  its identity and its capacity, and its life cycle only moves forward, whatever sequence of
  joins, leaves, transitions and closes is applied to a freshly opened room.
\<close>

theorem room_run_safe:
  "distinct (rm_members (fold room_exec opers (Room_open fresh mp now))) \<and>
   length (rm_members (fold room_exec opers (Room_open fresh mp now))) \<le> max 1 (unat mp) \<and>
   rm_id (fold room_exec opers (Room_open fresh mp now)) = RoomId fresh \<and>
   rm_max_players (fold room_exec opers (Room_open fresh mp now)) = max mp 1 \<and>
   room_rank (rm_state (fold room_exec opers (Room_open fresh mp now)))
     \<le> room_rank (rm_state (fold room_exec (opers @ later) (Room_open fresh mp now)))"
proof -
  let ?r = "fold room_exec opers (Room_open fresh mp now)"
  have inv: "room_inv ?r" by (intro room_run_inv room_inv_open)
  have cap: "rm_max_players ?r = max mp 1" by (simp add: room_run_frame Room_open_def)
  then have "unat (rm_max_players ?r) = max 1 (unat mp)"
    by (auto simp: max_def word_le_nat_alt)
  with inv have "length (rm_members ?r) \<le> max 1 (unat mp)" by (simp add: room_inv_def)
  with inv cap room_run_rank [of ?r later] show ?thesis
    by (simp add: room_inv_def room_run_frame Room_open_def)
qed

end
