(* ===== verification/LX_AppError.thy ===== *)
theory LX_AppError
  imports LX_Player LX_Account
begin

text \<open>
  The vocabulary of the application layer: \<^verbatim>\<open>crates/domain/src/events.rs\<close> (domain events),
  \<^verbatim>\<open>crates/application/src/error.rs\<close> (\<^verbatim>\<open>AppError\<close> and its conversions) and
  \<^verbatim>\<open>crates/application/src/dto.rs\<close> (command and result types of the use cases).
\<close>

section \<open>Domain events\<close>

datatype domain_event =
    PlayerLeveledUp player_id u32 datetime
  | PlayerJoinedRoom room_id player_id datetime
  | PlayerLeftRoom room_id player_id rstring datetime
  | RoomClosedEvent room_id rstring datetime

primrec occurred_at :: "domain_event \<Rightarrow> datetime" where
  "occurred_at (PlayerLeveledUp p l at) = at"
| "occurred_at (PlayerJoinedRoom r p at) = at"
| "occurred_at (PlayerLeftRoom r p reason at) = at"
| "occurred_at (RoomClosedEvent r reason at) = at"

section \<open>Application errors\<close>

datatype app_error =
    Validation rstring
  | Unauthorized rstring
  | Forbidden rstring
  | NotFound rstring
  | Conflict rstring
  | Busy
  | RateLimited
  | Storage rstring
  | PostCommit rstring
  | Internal rstring

primrec AppError_display :: "app_error \<Rightarrow> rstring" where
  "AppError_display (Validation m) = pre_validation @ m"
| "AppError_display (Unauthorized m) = pre_unauthorized @ m"
| "AppError_display (Forbidden m) = pre_forbidden @ m"
| "AppError_display (NotFound m) = pre_not_found @ m"
| "AppError_display (Conflict m) = pre_conflict @ m"
| "AppError_display Busy = txt_busy"
| "AppError_display RateLimited = txt_rate_limited"
| "AppError_display (Storage m) = pre_storage @ m"
| "AppError_display (PostCommit m) = pre_post_commit @ m"
| "AppError_display (Internal m) = pre_internal @ m"

primrec AppError_from_domain :: "domain_error \<Rightarrow> app_error" where
  "AppError_from_domain (InvalidValue field reason) = Validation (field @ ascii '': '' @ reason)"
| "AppError_from_domain (RoomFull r) = Conflict msg_room_full"
| "AppError_from_domain (RoomClosed r) = Conflict msg_room_closed"
| "AppError_from_domain (NotMember p r) = Validation msg_not_in_room"
| "AppError_from_domain (IllegalTransition src dst) = Internal msg_illegal_transition"

primrec AppError_from_repo :: "repo_error \<Rightarrow> app_error" where
  "AppError_from_repo (RepoConflict reason) = Conflict reason"
| "AppError_from_repo (RepoStorage reason) = Storage reason"

section \<open>Use-case inputs and outputs\<close>

record register_command =
  rc_username :: rstring
  rc_password :: rstring
  rc_nickname :: rstring

record register_result =
  rr_account_id :: account_id
  rr_player_id :: player_id
  rr_nickname :: rstring

record login_command =
  lc_username :: rstring
  lc_password :: rstring

record login_result =
  lr_token :: rstring
  lr_player_id :: player_id
  lr_nickname :: rstring
  lr_expires_in_secs :: u64

record player_profile =
  pp_player_id :: player_id
  pp_nickname :: rstring
  pp_level :: u32
  pp_exp :: u64
  pp_last_login_at :: "datetime option"

definition PlayerProfile_from :: "player \<Rightarrow> player_profile" where
  "PlayerProfile_from p =
     \<lparr>pp_player_id = pl_id p, pp_nickname = Nickname_as_str (pl_nickname p), pp_level = pl_level p,
      pp_exp = pl_exp p, pp_last_login_at = pl_last_login_at p\<rparr>"

lemma PlayerProfile_from_simps [simp]:
  "pp_player_id (PlayerProfile_from p) = pl_id p" "pp_level (PlayerProfile_from p) = pl_level p"
  "pp_exp (PlayerProfile_from p) = pl_exp p"
  "pp_nickname (PlayerProfile_from p) = Nickname_as_str (pl_nickname p)"
  "pp_last_login_at (PlayerProfile_from p) = pl_last_login_at p"
  by (simp_all add: PlayerProfile_from_def)

end
