(* ===== verification/LX_RoomActor.thy ===== *)
theory LX_RoomActor
  imports LX_Room LX_AppError LX_HashMap LX_Mpsc
begin

text \<open>
  \<^verbatim>\<open>crates/application/src/room/sink.rs\<close> and \<^verbatim>\<open>room/actor.rs\<close>: the event sinks of the member
  connections and the actor that owns a room. A sink is shared between the actor and the
  connection that reads it, so members hold the address of a sink and the sinks live in a
  store. One call of \<open>RoomActor_handle\<close> is one iteration of the actor's loop;
  \<open>RoomActor_run\<close> is the loop over the commands its channel delivers.
\<close>

definition ROOM_EVENT_CAPACITY :: nat where "ROOM_EVENT_CAPACITY = 64"

definition MAX_CHAT_CHARS :: nat where "MAX_CHAT_CHARS = 512"

section \<open>Events, sinks and commands\<close>

datatype room_event =
    MemberJoined room_id player_id rstring
  | MemberLeft room_id player_id
  | ChatEvent room_id player_id rstring rstring
  | ClosedEvent room_id rstring

primrec RoomEvent_room_id :: "room_event \<Rightarrow> room_id" where
  "RoomEvent_room_id (MemberJoined r p n) = r"
| "RoomEvent_room_id (MemberLeft r p) = r"
| "RoomEvent_room_id (ChatEvent r p n t) = r"
| "RoomEvent_room_id (ClosedEvent r reason) = r"

record 'q event_sink =
  es_tx :: 'q
  es_failed :: bool

type_synonym sink_ref = nat
type_synonym 'q sinks = "sink_ref \<Rightarrow> 'q event_sink"
type_synonym 'q event_chan = "('q, room_event) mpsc"

definition RoomEventSink_from :: "'q \<Rightarrow> 'q event_sink" where
  "RoomEventSink_from tx = \<lparr>es_tx = tx, es_failed = False\<rparr>"

definition RoomEventSink_try_send :: "'q event_chan \<Rightarrow> room_event \<Rightarrow> 'q event_sink \<Rightarrow> 'q event_sink" where
  "RoomEventSink_try_send M ev s =
     (let (r, tx') = ch_try_send M ev (es_tx s)
      in if is_err r then s\<lparr>es_tx := tx', es_failed := True\<rparr> else s\<lparr>es_tx := tx'\<rparr>)"

datatype room_command =
    Join player_id rstring sink_ref
  | Chat player_id rstring
  | Leave player_id rstring
  | Close rstring

text \<open>What the actor sends on the one-shot reply channel of a command, if it has one.\<close>

datatype actor_reply = JoinReply "(unit, app_error) result" | LeaveReply "(bool, app_error) result"

record member =
  mb_nickname :: rstring
  mb_sink :: sink_ref

record actor =
  ac_room :: room
  ac_members :: "(player_id, member) hmap"
  ac_closed :: bool                 \<comment> \<open>the value of the \<^verbatim>\<open>closed_tx\<close> watch\<close>
  ac_had_members :: bool

section \<open>The actor\<close>

definition RoomActor_spawn :: "room \<Rightarrow> actor" where
  "RoomActor_spawn r = \<lparr>ac_room = r, ac_members = [], ac_closed = False, ac_had_members = False\<rparr>"

definition send_to :: "'q event_chan \<Rightarrow> room_event \<Rightarrow> sink_ref \<Rightarrow> 'q sinks \<Rightarrow> 'q sinks" where
  "send_to M ev s \<sigma> = \<sigma>(s := RoomEventSink_try_send M ev (\<sigma> s))"

definition RoomActor_broadcast :: "'q event_chan \<Rightarrow> room_event \<Rightarrow> actor \<Rightarrow> 'q sinks \<Rightarrow> 'q sinks" where
  "RoomActor_broadcast M ev a \<sigma> = fold (\<lambda>m. send_to M ev (mb_sink m)) (hm_values (ac_members a)) \<sigma>"

definition RoomActor_finish :: "'q event_chan \<Rightarrow> rstring \<Rightarrow> actor \<Rightarrow> 'q sinks \<Rightarrow> actor \<times> 'q sinks" where
  "RoomActor_finish M reason a \<sigma> =
     (let (newly, r') = Room_close (ac_room a);
          a' = a\<lparr>ac_room := r'\<rparr>;
          \<sigma>' = (if newly then RoomActor_broadcast M (ClosedEvent (rm_id r') reason) a' \<sigma> else \<sigma>)
      in (a'\<lparr>ac_closed := True\<rparr>, \<sigma>'))"

definition RoomActor_handle_join ::
  "'q event_chan \<Rightarrow> player_id \<Rightarrow> rstring \<Rightarrow> sink_ref \<Rightarrow> actor \<Rightarrow> 'q sinks
     \<Rightarrow> (unit, app_error) result \<times> actor \<times> 'q sinks" where
  "RoomActor_handle_join M p nick sink a \<sigma> =
     (case Room_try_join p (ac_room a) of
        (Ok True, r') \<Rightarrow>
          (let a' = a\<lparr>ac_room := r',
                      ac_members := hm_insert p \<lparr>mb_nickname = nick, mb_sink = sink\<rparr> (ac_members a),
                      ac_had_members := True\<rparr>
           in (Ok (), a', RoomActor_broadcast M (MemberJoined (rm_id r') p nick) a' \<sigma>))
      | (Ok False, r') \<Rightarrow> (Ok (), a\<lparr>ac_room := r'\<rparr>, \<sigma>)
      | (Err e, r') \<Rightarrow> (Err (AppError_from_domain e), a\<lparr>ac_room := r'\<rparr>, \<sigma>))"

definition RoomActor_handle_chat ::
  "'q event_chan \<Rightarrow> player_id \<Rightarrow> rstring \<Rightarrow> actor \<Rightarrow> 'q sinks \<Rightarrow> 'q sinks" where
  "RoomActor_handle_chat M p txt a \<sigma> =
     (case hm_get (ac_members a) p of
        None \<Rightarrow> \<sigma>
      | Some m \<Rightarrow>
          (let trimmed = trim txt in
           if trimmed = [] \<or> length trimmed > MAX_CHAT_CHARS then \<sigma>
           else RoomActor_broadcast M (ChatEvent (rm_id (ac_room a)) p (mb_nickname m) trimmed) a \<sigma>))"

definition RoomActor_handle_leave ::
  "'q event_chan \<Rightarrow> player_id \<Rightarrow> rstring \<Rightarrow> actor \<Rightarrow> 'q sinks
     \<Rightarrow> (bool, app_error) result \<times> actor \<times> 'q sinks" where
  "RoomActor_handle_leave M p reason a \<sigma> =
     (case Room_try_leave p (ac_room a) of
        (Ok True, r') \<Rightarrow>
          (let a1 = a\<lparr>ac_room := r'\<rparr>;
               \<sigma>1 = RoomActor_broadcast M (MemberLeft (rm_id r') p) a1 \<sigma>;
               (a2, \<sigma>2) = (if ac_had_members a1 \<and> Room_member_count r' = 0
                           then RoomActor_finish M reason_last_left a1 \<sigma>1 else (a1, \<sigma>1))
           in (Ok True, a2\<lparr>ac_members := hm_remove p (ac_members a2)\<rparr>, \<sigma>2))
      | (Ok False, r') \<Rightarrow> (Ok False, a\<lparr>ac_room := r'\<rparr>, \<sigma>)
      | (Err e, r') \<Rightarrow> (Err (AppError_from_domain e), a\<lparr>ac_room := r'\<rparr>, \<sigma>))"

definition actor_should_stop :: "actor \<Rightarrow> bool" where
  "actor_should_stop a \<longleftrightarrow> ac_had_members a \<and> Room_member_count (ac_room a) = 0"

primrec RoomActor_handle ::
  "'q event_chan \<Rightarrow> room_command \<Rightarrow> actor \<Rightarrow> 'q sinks \<Rightarrow> bool \<times> actor \<times> 'q sinks \<times> actor_reply option" where
  "RoomActor_handle M (Join p nick sink) a \<sigma> =
     (let (outcome, a', \<sigma>') = RoomActor_handle_join M p nick sink a \<sigma>
      in (actor_should_stop a', a', \<sigma>', Some (JoinReply outcome)))"
| "RoomActor_handle M (Chat p txt) a \<sigma> =
     (actor_should_stop a, a, RoomActor_handle_chat M p txt a \<sigma>, None)"
| "RoomActor_handle M (Leave p reason) a \<sigma> =
     (let (outcome, a', \<sigma>') = RoomActor_handle_leave M p reason a \<sigma>
      in (actor_should_stop a', a', \<sigma>', Some (LeaveReply outcome)))"
| "RoomActor_handle M (Close reason) a \<sigma> =
     (let (a', \<sigma>') = RoomActor_finish M reason a \<sigma> in (True, a', \<sigma>', None))"

text \<open>The loop over the delivered commands; what is still queued after a stop is dropped.\<close>

fun RoomActor_run ::
  "'q event_chan \<Rightarrow> room_command list \<Rightarrow> actor \<Rightarrow> 'q sinks \<Rightarrow> actor \<times> 'q sinks \<times> actor_reply option list" where
  "RoomActor_run M [] a \<sigma> =
     (let (a', \<sigma>') = RoomActor_finish M reason_channel_closed a \<sigma> in (a', \<sigma>', []))"
| "RoomActor_run M (c # cs) a \<sigma> =
     (case RoomActor_handle M c a \<sigma> of (stop, a1, \<sigma>1, reply) \<Rightarrow>
        if stop
        then (let (a2, \<sigma>2) = RoomActor_finish M reason_channel_closed a1 \<sigma>1 in (a2, \<sigma>2, [reply]))
        else (let (a2, \<sigma>2, replies) = RoomActor_run M cs a1 \<sigma>1 in (a2, \<sigma>2, reply # replies)))"

text \<open>
  \<^verbatim>\<open>RoomHandle::wait_closed\<close> on what it observes of the closed watch: the current value, then each change (\<open>Some\<close>) or that
  the actor has dropped its end (\<open>None\<close>). The result is whether it has returned.
\<close>

fun RoomHandle_wait_closed :: "bool \<Rightarrow> bool option list \<Rightarrow> bool" where
  "RoomHandle_wait_closed closed changes =
     (if closed then True
      else case changes of
             [] \<Rightarrow> False
           | None # _ \<Rightarrow> True
           | Some closed' # changes' \<Rightarrow> RoomHandle_wait_closed closed' changes')"

section \<open>Sinks and broadcasts\<close>

lemma RoomEventSink_try_send_sticky: "es_failed s \<Longrightarrow> es_failed (RoomEventSink_try_send M ev s)"
  by (auto simp: RoomEventSink_try_send_def split: prod.splits)

lemma RoomEventSink_try_send_accepts:
  assumes "mpsc_spec M contents cap" and "\<not> ch_is_closed M (es_tx s)"
    and "length (contents (es_tx s)) < cap (es_tx s)"
  shows "contents (es_tx (RoomEventSink_try_send M ev s)) = contents (es_tx s) @ [ev]"
    and "es_failed (RoomEventSink_try_send M ev s) = es_failed s"
    and "cap (es_tx (RoomEventSink_try_send M ev s)) = cap (es_tx s)"
    and "\<not> ch_is_closed M (es_tx (RoomEventSink_try_send M ev s))"
proof -
  obtain r q where ts: "ch_try_send M ev (es_tx s) = (r, q)" by (rule prod.exhaust)
  note spec = mpsc_specD [OF assms(1) ts]
  have eq: "RoomEventSink_try_send M ev s = s\<lparr>es_tx := q\<rparr>"
    using spec(5) [OF assms(2,3)] ts by (simp add: RoomEventSink_try_send_def)
  show "contents (es_tx (RoomEventSink_try_send M ev s)) = contents (es_tx s) @ [ev]"
    and "es_failed (RoomEventSink_try_send M ev s) = es_failed s"
    and "cap (es_tx (RoomEventSink_try_send M ev s)) = cap (es_tx s)"
    and "\<not> ch_is_closed M (es_tx (RoomEventSink_try_send M ev s))"
    using spec(1,2) spec(5) [OF assms(2,3)] assms(2) by (simp_all add: eq)
qed

lemma RoomEventSink_try_send_refuses:
  assumes "mpsc_spec M contents cap"
    and "ch_is_closed M (es_tx s) \<or> cap (es_tx s) \<le> length (contents (es_tx s))"
  shows "RoomEventSink_try_send M ev s = s\<lparr>es_failed := True\<rparr>"
proof -
  obtain r q where ts: "ch_try_send M ev (es_tx s) = (r, q)" by (rule prod.exhaust)
  have "is_err r \<and> q = es_tx s"
    using mpsc_specD(3,4) [OF assms(1) ts] assms(2) by (cases "ch_is_closed M (es_tx s)") auto
  then show ?thesis using ts by (simp add: RoomEventSink_try_send_def)
qed

interpretation room_sink: sticky_sink "RoomEventSink_try_send M" es_failed
  "\<lambda>ev s. is_ok (fst (ch_try_send M ev (es_tx s)))"
  by unfold_locales (auto simp: RoomEventSink_try_send_def is_err_def split: prod.splits)

text \<open>A broadcast reaches a sink once for every member that holds it, and no other sink.\<close>

lemma broadcast_at:
  "RoomActor_broadcast M ev a \<sigma> s =
     (RoomEventSink_try_send M ev ^^ length (filter (\<lambda>m. mb_sink m = s) (hm_values (ac_members a)))) (\<sigma> s)"
proof -
  have "fold (\<lambda>m. send_to M ev (mb_sink m)) ms \<sigma> s =
      (RoomEventSink_try_send M ev ^^ length (filter (\<lambda>m. mb_sink m = s) ms)) (\<sigma> s)" for ms
    by (induction ms arbitrary: \<sigma>) (simp_all add: send_to_def funpow_swap1)
  then show ?thesis by (simp add: RoomActor_broadcast_def)
qed

lemma broadcast_other:
  "\<forall>m \<in> set (hm_values (ac_members a)). mb_sink m \<noteq> s \<Longrightarrow> RoomActor_broadcast M ev a \<sigma> s = \<sigma> s"
  by (simp add: broadcast_at filter_empty_conv)

lemma broadcast_once:
  assumes "distinct (map mb_sink (hm_values (ac_members a)))" and "m \<in> set (hm_values (ac_members a))"
  shows "RoomActor_broadcast M ev a \<sigma> (mb_sink m) = RoomEventSink_try_send M ev (\<sigma> (mb_sink m))"
proof -
  have "filter (\<lambda>m'. mb_sink m' = mb_sink m) (hm_values (ac_members a)) = [m]"
    if "distinct (map mb_sink ms)" "m \<in> set ms" "ms = hm_values (ac_members a)" for ms
    unfolding that(3) [symmetric] using that(1,2)
  proof (induction ms)
    case (Cons x xs)
    then show ?case by (auto simp: filter_empty_conv image_iff)
  qed simp
  then show ?thesis using assms by (simp add: broadcast_at)
qed

lemma broadcast_sticky: "es_failed (\<sigma> s) \<Longrightarrow> es_failed (RoomActor_broadcast M ev a \<sigma> s)"
proof -
  have "es_failed x \<Longrightarrow> es_failed ((RoomEventSink_try_send M ev ^^ n) x)" for n x
    by (induction n) (auto intro: RoomEventSink_try_send_sticky)
  then show "es_failed (\<sigma> s) \<Longrightarrow> es_failed (RoomActor_broadcast M ev a \<sigma> s)"
    by (simp add: broadcast_at)
qed

lemma broadcast_cong: "ac_members a = ac_members b \<Longrightarrow> RoomActor_broadcast M ev a = RoomActor_broadcast M ev b"
  by (simp add: RoomActor_broadcast_def fun_eq_iff)

section \<open>The invariant of a running actor\<close>

definition actor_running :: "actor \<Rightarrow> bool" where
  "actor_running a \<longleftrightarrow>
     room_inv (ac_room a) \<and> hm_wf (ac_members a) \<and>
     set (hm_keys (ac_members a)) = set (rm_members (ac_room a)) \<and>
     \<not> Room_is_closed (ac_room a) \<and> \<not> ac_closed a \<and>
     (ac_had_members a \<longleftrightarrow> rm_members (ac_room a) \<noteq> [])"

definition actor_stopped :: "actor \<Rightarrow> bool" where
  "actor_stopped a \<longleftrightarrow> Room_is_closed (ac_room a) \<and> ac_closed a"

lemma hm_keys_insert: "set (hm_keys (hm_insert k v m)) = insert k (set (hm_keys m))"
  by (auto simp: set_hm_keys)

lemma hm_keys_remove: "set (hm_keys (hm_remove k m)) = set (hm_keys m) - {k}"
  by (auto simp: set_hm_keys)

lemma actor_running_spawn: "room_inv r \<Longrightarrow> \<not> Room_is_closed r \<Longrightarrow> rm_members r = [] \<Longrightarrow>
  actor_running (RoomActor_spawn r)"
  by (simp add: actor_running_def RoomActor_spawn_def hm_keys_def)

lemma actor_running_open: "actor_running (RoomActor_spawn (Room_open fresh mp now))"
  by (intro actor_running_spawn room_inv_open) (simp_all add: lx_defs)

lemma actor_running_member:
  "actor_running a \<Longrightarrow> p \<in> set (rm_members (ac_room a)) \<longleftrightarrow> (\<exists>m. hm_get (ac_members a) p = Some m)"
  by (auto simp: actor_running_def set_hm_keys set_eq_iff)

lemma finish_eq:
  "\<not> Room_is_closed (ac_room a) \<Longrightarrow>
     RoomActor_finish M reason a \<sigma> =
       (a\<lparr>ac_room := ac_room a\<lparr>rm_state := Closed\<rparr>, ac_closed := True\<rparr>,
        RoomActor_broadcast M (ClosedEvent (rm_id (ac_room a)) reason) a \<sigma>)"
  by (simp add: RoomActor_finish_def Room_close_def RoomActor_broadcast_def)

lemma finish_stopped: "actor_stopped (fst (RoomActor_finish M reason a \<sigma>))"
  by (auto simp: RoomActor_finish_def Room_close_def actor_stopped_def Room_is_closed_def Let_def)

lemma finish_again: "actor_stopped a \<Longrightarrow> RoomActor_finish M reason a \<sigma> = (a, \<sigma>)"
  by (simp add: RoomActor_finish_def Room_close_def actor_stopped_def)

text \<open>The three outcomes of a join and the two of a leave, on a running actor.\<close>

lemma handle_join_member:
  assumes "actor_running a" and "p \<in> set (rm_members (ac_room a))"
  shows "RoomActor_handle_join M p nick sink a \<sigma> = (Ok (), a, \<sigma>)"
  using assms by (simp add: RoomActor_handle_join_def Room_try_join_def actor_running_def)

lemma handle_join_full:
  assumes "actor_running a" and "p \<notin> set (rm_members (ac_room a))" and "Room_is_full (ac_room a)"
  shows "RoomActor_handle_join M p nick sink a \<sigma> = (Err (Conflict msg_room_full), a, \<sigma>)"
  using assms by (simp add: RoomActor_handle_join_def Room_try_join_def actor_running_def)

definition joined :: "player_id \<Rightarrow> rstring \<Rightarrow> sink_ref \<Rightarrow> actor \<Rightarrow> actor" where
  "joined p nick sink a =
     a\<lparr>ac_room := ac_room a\<lparr>rm_members := rm_members (ac_room a) @ [p]\<rparr>,
       ac_members := hm_insert p \<lparr>mb_nickname = nick, mb_sink = sink\<rparr> (ac_members a),
       ac_had_members := True\<rparr>"

lemma handle_join_new:
  assumes "actor_running a" and "p \<notin> set (rm_members (ac_room a))" and "\<not> Room_is_full (ac_room a)"
  shows "RoomActor_handle_join M p nick sink a \<sigma> =
    (Ok (), joined p nick sink a,
     RoomActor_broadcast M (MemberJoined (rm_id (ac_room a)) p nick) (joined p nick sink a) \<sigma>)"
  using assms
  by (simp add: RoomActor_handle_join_def Room_try_join_def actor_running_def joined_def Let_def)

lemma joined_running:
  assumes "actor_running a" and "p \<notin> set (rm_members (ac_room a))" and "\<not> Room_is_full (ac_room a)"
  shows "actor_running (joined p nick sink a)"
  using assms
  by (auto simp: actor_running_def joined_def room_inv_def hm_keys_insert lx_defs not_le)

lemma handle_leave_absent:
  assumes "actor_running a" and "p \<notin> set (rm_members (ac_room a))"
  shows "RoomActor_handle_leave M p reason a \<sigma> = (Ok False, a, \<sigma>)"
proof -
  have "filter (\<lambda>m. m \<noteq> p) (rm_members (ac_room a)) = rm_members (ac_room a)"
    using assms(2) by (auto simp: filter_id_conv)
  then show ?thesis
    using assms(1) by (simp add: RoomActor_handle_leave_def Room_try_leave_def actor_running_def Let_def)
qed

definition left_room :: "player_id \<Rightarrow> actor \<Rightarrow> actor" where
  "left_room p a =
     a\<lparr>ac_room := ac_room a\<lparr>rm_members := filter (\<lambda>m. m \<noteq> p) (rm_members (ac_room a))\<rparr>,
       ac_members := hm_remove p (ac_members a)\<rparr>"

lemma try_leave_present:
  assumes "\<not> Room_is_closed r" and "p \<in> set (rm_members r)"
  shows "Room_try_leave p r = (Ok True, r\<lparr>rm_members := filter (\<lambda>m. m \<noteq> p) (rm_members r)\<rparr>)"
  using assms by (simp add: Room_try_leave_def Let_def length_filter_neq_iff)

lemma handle_leave_some_left:
  assumes "actor_running a" and "p \<in> set (rm_members (ac_room a))"
    and "filter (\<lambda>m. m \<noteq> p) (rm_members (ac_room a)) \<noteq> []"
  shows "RoomActor_handle_leave M p reason a \<sigma> =
    (Ok True, left_room p a, RoomActor_broadcast M (MemberLeft (rm_id (ac_room a)) p) a \<sigma>)"
proof -
  have "Room_try_leave p (ac_room a) =
      (Ok True, (ac_room a)\<lparr>rm_members := filter (\<lambda>m. m \<noteq> p) (rm_members (ac_room a))\<rparr>)"
    using assms by (intro try_leave_present) (auto simp: actor_running_def)
  then show ?thesis
    using assms(3)
    by (simp add: RoomActor_handle_leave_def Let_def left_room_def Room_member_count_def
        RoomActor_broadcast_def)
qed

lemma handle_leave_last:
  assumes "actor_running a" and "p \<in> set (rm_members (ac_room a))"
    and "filter (\<lambda>m. m \<noteq> p) (rm_members (ac_room a)) = []"
  shows "RoomActor_handle_leave M p reason a \<sigma> =
    (Ok True,
     left_room p a\<lparr>ac_room := (ac_room (left_room p a))\<lparr>rm_state := Closed\<rparr>, ac_closed := True\<rparr>,
     RoomActor_broadcast M (ClosedEvent (rm_id (ac_room a)) reason_last_left) a
       (RoomActor_broadcast M (MemberLeft (rm_id (ac_room a)) p) a \<sigma>))"
proof -
  have run: "\<not> Room_is_closed (ac_room a)" "ac_had_members a"
    using assms(1,2) by (auto simp: actor_running_def)
  have leave: "Room_try_leave p (ac_room a) = (Ok True, (ac_room a)\<lparr>rm_members := []\<rparr>)"
    using try_leave_present [OF run(1) assms(2)] assms(3) by simp
  have "\<not> Room_is_closed ((ac_room a)\<lparr>rm_members := []\<rparr>)"
    using run(1) by (simp add: Room_is_closed_def)
  then show ?thesis
    using run(2) assms(3)
    by (simp add: RoomActor_handle_leave_def leave Let_def left_room_def Room_member_count_def
        finish_eq RoomActor_broadcast_def)
qed

lemma left_room_running:
  assumes "actor_running a" and "filter (\<lambda>m. m \<noteq> p) (rm_members (ac_room a)) \<noteq> []"
  shows "actor_running (left_room p a)"
proof -
  have "length (filter (\<lambda>m. m \<noteq> p) (rm_members (ac_room a))) \<le> unat (rm_max_players (ac_room a))"
    using assms(1) by (auto simp: actor_running_def room_inv_def intro: le_trans [OF length_filter_le])
  moreover have "ac_had_members a" using assms by (auto simp: actor_running_def)
  ultimately show ?thesis
    using assms
    by (auto simp: actor_running_def left_room_def room_inv_def hm_keys_remove Room_is_closed_def)
qed

lemma running_not_stop: "actor_running a \<Longrightarrow> \<not> actor_should_stop a"
  by (auto simp: actor_running_def actor_should_stop_def Room_member_count_def)

lemma handle_join_cases:
  assumes "actor_running a"
  obtains (member) "p \<in> set (rm_members (ac_room a))"
      "RoomActor_handle_join M p nick sink a \<sigma> = (Ok (), a, \<sigma>)"
  | (full) "p \<notin> set (rm_members (ac_room a))" "Room_is_full (ac_room a)"
      "RoomActor_handle_join M p nick sink a \<sigma> = (Err (Conflict msg_room_full), a, \<sigma>)"
  | (new) "p \<notin> set (rm_members (ac_room a))" "\<not> Room_is_full (ac_room a)"
      "RoomActor_handle_join M p nick sink a \<sigma> =
        (Ok (), joined p nick sink a,
         RoomActor_broadcast M (MemberJoined (rm_id (ac_room a)) p nick) (joined p nick sink a) \<sigma>)"
  using assms handle_join_member handle_join_full handle_join_new by blast

lemma left_closed_stopped:
  "actor_stopped (left_room p a\<lparr>ac_room := (ac_room (left_room p a))\<lparr>rm_state := Closed\<rparr>, ac_closed := True\<rparr>)"
  by (simp add: actor_stopped_def Room_is_closed_def)

lemma handle_leave_cases:
  assumes "actor_running a"
  obtains (absent) "p \<notin> set (rm_members (ac_room a))"
      "RoomActor_handle_leave M p reason a \<sigma> = (Ok False, a, \<sigma>)"
  | (some_left) "p \<in> set (rm_members (ac_room a))"
      "filter (\<lambda>m. m \<noteq> p) (rm_members (ac_room a)) \<noteq> []"
      "RoomActor_handle_leave M p reason a \<sigma> =
        (Ok True, left_room p a, RoomActor_broadcast M (MemberLeft (rm_id (ac_room a)) p) a \<sigma>)"
  | (last) "p \<in> set (rm_members (ac_room a))"
      "filter (\<lambda>m. m \<noteq> p) (rm_members (ac_room a)) = []"
      "RoomActor_handle_leave M p reason a \<sigma> =
        (Ok True,
         left_room p a\<lparr>ac_room := (ac_room (left_room p a))\<lparr>rm_state := Closed\<rparr>, ac_closed := True\<rparr>,
         RoomActor_broadcast M (ClosedEvent (rm_id (ac_room a)) reason_last_left) a
           (RoomActor_broadcast M (MemberLeft (rm_id (ac_room a)) p) a \<sigma>))"
  using assms handle_leave_absent handle_leave_some_left handle_leave_last by blast

lemma handle_step:
  assumes run: "actor_running a" and eq: "RoomActor_handle M c a \<sigma> = (stop, a', \<sigma>', reply)"
  shows "(if stop then actor_stopped a' else actor_running a') \<and>
    (case reply of None \<Rightarrow> True
      | Some (JoinReply r) \<Rightarrow> r = Ok () \<or> r = Err (Conflict msg_room_full)
      | Some (LeaveReply r) \<Rightarrow> is_ok r)"
proof (cases c)
  case (Join p nick sink)
  from run show ?thesis
    by (cases rule: handle_join_cases [of a p M nick sink \<sigma>])
      (use eq run Join joined_running running_not_stop in auto)
next
  case (Chat p content)
  with eq run running_not_stop show ?thesis by auto
next
  case (Leave p reason)
  from run show ?thesis
  proof (cases rule: handle_leave_cases [of a p M reason \<sigma>])
    case last
    have "actor_should_stop
        (left_room p a\<lparr>ac_room := (ac_room (left_room p a))\<lparr>rm_state := Closed\<rparr>, ac_closed := True\<rparr>)"
      using last(1,2) run
      by (auto simp: actor_should_stop_def left_room_def Room_member_count_def actor_running_def)
    with last(3) eq Leave left_closed_stopped show ?thesis by auto
  qed (use eq run Leave left_room_running running_not_stop in auto)
next
  case (Close reason)
  with eq finish_stopped [of M reason a \<sigma>] show ?thesis by (auto split: prod.splits)
qed

section \<open>Abstract specification: a bounded set of players\<close>

primrec room_spec :: "nat \<Rightarrow> room_command \<Rightarrow> player_id set \<Rightarrow> player_id set" where
  "room_spec cap (Join p nick sink) S = (if card S < cap then insert p S else S)"
| "room_spec cap (Chat p txt) S = S"
| "room_spec cap (Leave p reason) S = S - {p}"
| "room_spec cap (Close reason) S = S"

definition actor_abs :: "actor \<Rightarrow> player_id set" where
  "actor_abs a = set (rm_members (ac_room a))"

lemma actor_abs_card: "actor_running a \<Longrightarrow> card (actor_abs a) = Room_member_count (ac_room a)"
  by (simp add: actor_abs_def actor_running_def room_inv_def distinct_card Room_member_count_def)

lemma handle_refines:
  assumes run: "actor_running a" and eq: "RoomActor_handle M c a \<sigma> = (stop, a', \<sigma>', reply)"
  shows "actor_abs a' = room_spec (unat (rm_max_players (ac_room a))) c (actor_abs a)"
proof (cases c)
  case (Join p nick sink)
  from run show ?thesis
    by (cases rule: handle_join_cases [of a p M nick sink \<sigma>])
      (use eq Join actor_abs_card [OF run] in \<open>auto simp: actor_abs_def joined_def Room_is_full_def\<close>)
next
  case (Leave p reason)
  from run show ?thesis
  proof (cases rule: handle_leave_cases [of a p M reason \<sigma>])
    case absent
    with eq Leave show ?thesis by (simp add: actor_abs_def)
  next
    case some_left
    with eq Leave show ?thesis by (auto simp: actor_abs_def left_room_def)
  next
    case last
    have "actor_abs a' = set (filter (\<lambda>m. m \<noteq> p) (rm_members (ac_room a)))"
      using eq Leave last(3) by (simp add: actor_abs_def left_room_def) auto
    with Leave show ?thesis by (auto simp: actor_abs_def)
  qed
next
  case (Close reason)
  have "\<not> Room_is_closed (ac_room a)" using run by (simp add: actor_running_def)
  with eq Close show ?thesis by (auto simp: finish_eq actor_abs_def)
qed (use eq in \<open>auto\<close>)

text \<open>What the specification answers and when it ends the room.\<close>

primrec room_spec_reply :: "nat \<Rightarrow> room_command \<Rightarrow> player_id set \<Rightarrow> actor_reply option" where
  "room_spec_reply cap (Join p nick sink) S =
     Some (JoinReply (if p \<in> S \<or> card S < cap then Ok () else Err (Conflict msg_room_full)))"
| "room_spec_reply cap (Chat p content) S = None"
| "room_spec_reply cap (Leave p reason) S = Some (LeaveReply (Ok (p \<in> S)))"
| "room_spec_reply cap (Close reason) S = None"

primrec room_spec_stops :: "room_command \<Rightarrow> player_id set \<Rightarrow> bool" where
  "room_spec_stops (Join p nick sink) S = False"
| "room_spec_stops (Chat p content) S = False"
| "room_spec_stops (Leave p reason) S = (S = {p})"
| "room_spec_stops (Close reason) S = True"

lemma handle_reply:
  assumes run: "actor_running a" and eq: "RoomActor_handle M c a \<sigma> = (stop, a', \<sigma>', reply)"
  shows "reply = room_spec_reply (unat (rm_max_players (ac_room a))) c (actor_abs a)"
proof (cases c)
  case (Join p nick sink)
  from run show ?thesis
    by (cases rule: handle_join_cases [of a p M nick sink \<sigma>])
      (use eq Join actor_abs_card [OF run] in \<open>auto simp: actor_abs_def Room_is_full_def\<close>)
next
  case (Leave p reason)
  from run show ?thesis
    by (cases rule: handle_leave_cases [of a p M reason \<sigma>]) (use eq Leave in \<open>auto simp: actor_abs_def\<close>)
qed (use eq in \<open>auto split: prod.splits\<close>)

lemma filter_neq_singleton: "p \<in> set xs \<Longrightarrow> filter (\<lambda>m. m \<noteq> p) xs = [] \<Longrightarrow> set xs = {p}"
  unfolding filter_empty_conv by blast

lemma handle_stops:
  assumes run: "actor_running a" and eq: "RoomActor_handle M c a \<sigma> = (stop, a', \<sigma>', reply)"
  shows "stop \<longleftrightarrow> room_spec_stops c (actor_abs a)"
proof (cases c)
  case (Join p nick sink)
  from run show ?thesis
    by (cases rule: handle_join_cases [of a p M nick sink \<sigma>])
      (use eq run Join joined_running running_not_stop in auto)
next
  case (Chat p content)
  with eq run running_not_stop show ?thesis by auto
next
  case (Leave p reason)
  from run show ?thesis
  proof (cases rule: handle_leave_cases [of a p M reason \<sigma>])
    case absent
    with eq run Leave running_not_stop show ?thesis by (auto simp: actor_abs_def)
  next
    case some_left
    then have "\<not> set (rm_members (ac_room a)) \<subseteq> {p}" by (auto simp: filter_empty_conv)
    with some_left eq Leave running_not_stop [OF left_room_running [OF run some_left(2)]]
    show ?thesis by (auto simp: actor_abs_def)
  next
    case last
    have "ac_had_members a" using run last(1) by (auto simp: actor_running_def)
    then have "stop" using eq Leave last(2,3) by (auto simp: actor_should_stop_def left_room_def Room_member_count_def)
    moreover have "set (rm_members (ac_room a)) = {p}"
      by (rule filter_neq_singleton [OF last(1,2)])
    ultimately show ?thesis using Leave by (simp add: actor_abs_def)
  qed
qed (use eq in \<open>auto split: prod.splits\<close>)

lemma finish_room_inv: "room_inv (ac_room a) \<Longrightarrow> room_inv (ac_room (fst (RoomActor_finish M reason a \<sigma>)))"
  by (auto simp: RoomActor_finish_def Let_def room_inv_def Room_close_def split: prod.splits)

lemma finish_max: "rm_max_players (ac_room (fst (RoomActor_finish M reason a \<sigma>))) = rm_max_players (ac_room a)"
  by (auto simp: RoomActor_finish_def Let_def Room_close_def split: prod.splits)

lemma handle_room_inv:
  assumes run: "actor_running a" and eq: "RoomActor_handle M c a \<sigma> = (stop, a', \<sigma>', reply)"
  shows "room_inv (ac_room a') \<and> rm_max_players (ac_room a') = rm_max_players (ac_room a)"
proof (cases c)
  case (Join p nick sink)
  from run show ?thesis
  proof (cases rule: handle_join_cases [of a p M nick sink \<sigma>])
    case new
    have "room_inv (ac_room (joined p nick sink a))"
      using joined_running [OF run new(1,2)] by (simp add: actor_running_def)
    moreover have "a' = joined p nick sink a" using eq Join new(3) by simp
    ultimately show ?thesis by (simp add: joined_def)
  qed (use eq run Join in \<open>auto simp: actor_running_def\<close>)
next
  case (Leave p reason)
  have inv: "room_inv (ac_room (left_room p a))"
    using run by (auto simp: actor_running_def left_room_def room_inv_def intro: le_trans [OF length_filter_le])
  have cap: "rm_max_players (ac_room (left_room p a)) = rm_max_players (ac_room a)"
    by (simp add: left_room_def)
  from run show ?thesis
  proof (cases rule: handle_leave_cases [of a p M reason \<sigma>])
    case absent
    with eq run Leave show ?thesis by (auto simp: actor_running_def)
  next
    case some_left
    with eq Leave inv cap show ?thesis by auto
  next
    case last
    have "a' = left_room p a\<lparr>ac_room := (ac_room (left_room p a))\<lparr>rm_state := Closed\<rparr>, ac_closed := True\<rparr>"
      using eq Leave last(3) by simp
    with inv cap show ?thesis by (simp add: room_inv_def)
  qed
next
  case (Close reason)
  have "room_inv (ac_room a)" using run by (simp add: actor_running_def)
  with eq Close finish_room_inv [of a M reason \<sigma>] finish_max [of M reason a \<sigma>] show ?thesis
    by (auto split: prod.splits)
qed (use eq run in \<open>auto simp: actor_running_def\<close>)

lemma run_closes:
  assumes "actor_running a" and "RoomActor_run M cs a \<sigma> = (a', \<sigma>', replies)"
  shows "actor_stopped a' \<and> room_inv (ac_room a') \<and>
    rm_max_players (ac_room a') = rm_max_players (ac_room a) \<and>
    length replies \<le> length cs \<and> Some (JoinReply (Err (Conflict msg_room_closed))) \<notin> set replies"
  using assms
proof (induction cs arbitrary: a \<sigma> a' \<sigma>' replies)
  case Nil
  then have "room_inv (ac_room a)" by (simp add: actor_running_def)
  with Nil finish_stopped [of M reason_channel_closed a \<sigma>] finish_room_inv [of a M reason_channel_closed \<sigma>]
    finish_max [of M reason_channel_closed a \<sigma>]
  show ?case by (auto split: prod.splits)
next
  case (Cons c cs)
  obtain stop a1 \<sigma>1 reply where h: "RoomActor_handle M c a \<sigma> = (stop, a1, \<sigma>1, reply)"
    by (metis prod_cases4)
  note step = handle_step [OF Cons.prems(1) h] and inv = handle_room_inv [OF Cons.prems(1) h]
  have msg: "msg_room_full \<noteq> msg_room_closed" by (simp add: msg_room_full_def msg_room_closed_def)
  have ok: "Some (JoinReply (Err (Conflict msg_room_closed))) \<noteq> reply"
    using step msg by auto
  show ?case
  proof (cases stop)
    case True
    with step have "actor_stopped a1" by simp
    with True h Cons.prems(2) inv ok show ?thesis by (auto simp: finish_again)
  next
    case False
    obtain a2 \<sigma>2 rs where r: "RoomActor_run M cs a1 \<sigma>1 = (a2, \<sigma>2, rs)" by (metis prod_cases3)
    have "actor_running a1" using step False by simp
    from Cons.IH [OF this r] False h Cons.prems(2) r inv ok show ?thesis by auto
  qed
qed

section \<open>Properties of the actor\<close>

text \<open>Waiting for the end of a room returns as soon as the flag is raised or the actor is gone, and not before.\<close>

lemma wait_closed_returns:
  "RoomHandle_wait_closed closed changes \<longleftrightarrow> closed \<or> Some True \<in> set changes \<or> None \<in> set changes"
proof (induction closed changes rule: RoomHandle_wait_closed.induct)
  case (1 closed changes)
  then show ?case by (cases changes) (auto split: option.splits)
qed

lemma single_member_values:
  assumes "hm_wf m" and "set (hm_keys m) = {p}" and "hm_get m p = Some v"
  shows "m = [(p, v)]"
proof -
  have d: "distinct (map fst m)" and keys: "fst ` set m = {p}"
    using assms(1,2) by (auto simp: hm_wf_def hm_keys_def)
  have "length (map fst m) = card (set (map fst m))" by (rule distinct_card [OF d, symmetric])
  then have "length m = 1" using keys by simp
  then obtain x where "m = [x]" by (metis One_nat_def Suc_length_conv length_0_conv)
  with assms(3) show ?thesis by (cases x) (auto simp: hm_get_def split: if_splits)
qed

text \<open>
  (C3) The actor implements a bounded set of players. On a running actor every command changes
  the member set exactly as \<open>room_spec\<close> prescribes, sends exactly the answer
  \<open>room_spec_reply\<close> prescribes, stops exactly when the specification ends the room (a close,
  or the last member leaving), and is then closed; otherwise the actor invariant still holds.
\<close>

theorem actor_refines_spec:
  assumes "actor_running a" and "RoomActor_handle M c a \<sigma> = (stop, a', \<sigma>', reply)"
  shows "actor_abs a' = room_spec (unat (rm_max_players (ac_room a))) c (actor_abs a) \<and>
    reply = room_spec_reply (unat (rm_max_players (ac_room a))) c (actor_abs a) \<and>
    stop = room_spec_stops c (actor_abs a) \<and>
    (if stop then actor_stopped a' else actor_running a')"
  using handle_refines [OF assms] handle_reply [OF assms] handle_stops [OF assms] handle_step [OF assms]
  by blast

text \<open>Witness: the first join of a fresh room, and the answer it gets.\<close>

definition sample_chan :: "room_event list_chan" where
  "sample_chan = \<lparr>lc_items = [], lc_cap = 4, lc_closed = False\<rparr>"

definition sample_sinks :: "room_event list_chan sinks" where
  "sample_sinks = (\<lambda>s. RoomEventSink_from sample_chan)"

definition sample_actor :: actor where
  "sample_actor = joined (PlayerId 7) (ascii ''n'') 0 (RoomActor_spawn (Room_open 1 2 0))"

lemma sample_actor_running: "actor_running sample_actor"
  unfolding sample_actor_def
  by (intro joined_running actor_running_open) (auto simp: RoomActor_spawn_def lx_defs)

theorem actor_refines_spec_witness:
  "actor_running sample_actor \<and>
   room_spec_stops (Leave (PlayerId 7) []) (actor_abs sample_actor) \<and>
   actor_stopped (fst (snd (RoomActor_handle list_mpsc (Leave (PlayerId 7) []) sample_actor sample_sinks)))"
proof -
  obtain stop a' \<sigma>' reply where
    h: "RoomActor_handle list_mpsc (Leave (PlayerId 7) []) sample_actor sample_sinks = (stop, a', \<sigma>', reply)"
    by (metis prod_cases4)
  have abs: "actor_abs sample_actor = {PlayerId 7}"
    by (simp add: actor_abs_def sample_actor_def joined_def RoomActor_spawn_def Room_open_def)
  from actor_refines_spec [OF sample_actor_running h] abs h sample_actor_running show ?thesis by simp
qed

text \<open>
  (C10) Every actor task terminates with a closed room: from a freshly opened room, whatever
  commands its channel delivers before it ends, the run finishes with the room in state
  \<^verbatim>\<open>Closed\<close> and the closed flag raised, at most one answer was sent per command, no join was
  answered \<^verbatim>\<open>RoomClosed\<close>, and the members never exceeded the capacity.
\<close>

theorem actor_run_closes:
  "(case RoomActor_run M cs (RoomActor_spawn (Room_open fresh mp now)) \<sigma> of (a, \<sigma>', replies) \<Rightarrow>
      actor_stopped a \<and> length replies \<le> length cs \<and>
      Some (JoinReply (Err (Conflict msg_room_closed))) \<notin> set replies \<and>
      distinct (rm_members (ac_room a)) \<and> length (rm_members (ac_room a)) \<le> max 1 (unat mp))"
proof -
  let ?a = "RoomActor_spawn (Room_open fresh mp now)"
  obtain a' \<sigma>' replies where r: "RoomActor_run M cs ?a \<sigma> = (a', \<sigma>', replies)" by (metis prod_cases3)
  note run = run_closes [OF actor_running_open r]
  have "unat (rm_max_players (ac_room ?a)) = max 1 (unat mp)"
    by (auto simp: RoomActor_spawn_def Room_open_def max_def word_le_nat_alt)
  then have "length (rm_members (ac_room a')) \<le> max 1 (unat mp)"
    using run by (auto simp: room_inv_def)
  with run r show ?thesis by (simp add: room_inv_def)
qed

text \<open>
  A broadcast isolates slow members: with one sink per member, a member whose queue is open
  and has room gets the event appended exactly once; a member whose queue is full or closed
  has its queue untouched and its failure flag raised; a sink that belongs to no member is
  not touched at all.
\<close>

theorem broadcast_isolates:
  assumes "mpsc_spec M contents cap" and "distinct (map mb_sink (hm_values (ac_members a)))"
  shows "(\<forall>m \<in> set (hm_values (ac_members a)).
      (if ch_is_closed M (es_tx (\<sigma> (mb_sink m))) \<or>
          cap (es_tx (\<sigma> (mb_sink m))) \<le> length (contents (es_tx (\<sigma> (mb_sink m))))
       then RoomActor_broadcast M ev a \<sigma> (mb_sink m) = (\<sigma> (mb_sink m))\<lparr>es_failed := True\<rparr>
       else contents (es_tx (RoomActor_broadcast M ev a \<sigma> (mb_sink m)))
              = contents (es_tx (\<sigma> (mb_sink m))) @ [ev] \<and>
            es_failed (RoomActor_broadcast M ev a \<sigma> (mb_sink m)) = es_failed (\<sigma> (mb_sink m)))) \<and>
    (\<forall>s. s \<notin> mb_sink ` set (hm_values (ac_members a)) \<longrightarrow> RoomActor_broadcast M ev a \<sigma> s = \<sigma> s)"
proof (intro conjI ballI allI impI)
  fix m assume m: "m \<in> set (hm_values (ac_members a))"
  show "if ch_is_closed M (es_tx (\<sigma> (mb_sink m))) \<or>
          cap (es_tx (\<sigma> (mb_sink m))) \<le> length (contents (es_tx (\<sigma> (mb_sink m))))
       then RoomActor_broadcast M ev a \<sigma> (mb_sink m) = (\<sigma> (mb_sink m))\<lparr>es_failed := True\<rparr>
       else contents (es_tx (RoomActor_broadcast M ev a \<sigma> (mb_sink m)))
              = contents (es_tx (\<sigma> (mb_sink m))) @ [ev] \<and>
            es_failed (RoomActor_broadcast M ev a \<sigma> (mb_sink m)) = es_failed (\<sigma> (mb_sink m))"
    using RoomEventSink_try_send_refuses [OF assms(1), of "\<sigma> (mb_sink m)" ev]
      RoomEventSink_try_send_accepts(1,2) [OF assms(1), of "\<sigma> (mb_sink m)" ev]
    by (simp add: broadcast_once [OF assms(2) m] not_le)
next
  fix s assume "s \<notin> mb_sink ` set (hm_values (ac_members a))"
  then show "RoomActor_broadcast M ev a \<sigma> s = \<sigma> s" by (intro broadcast_other) auto
qed

text \<open>Witness: the one member of the sample room receives the event, sink 5 does not.\<close>

theorem broadcast_isolates_witness:
  "lc_items (es_tx (RoomActor_broadcast list_mpsc (MemberLeft (RoomId 1) (PlayerId 7)) sample_actor sample_sinks 0))
     = [MemberLeft (RoomId 1) (PlayerId 7)] \<and>
   RoomActor_broadcast list_mpsc (MemberLeft (RoomId 1) (PlayerId 7)) sample_actor sample_sinks 5 = sample_sinks 5"
proof -
  have v: "hm_values (ac_members sample_actor) = [\<lparr>mb_nickname = ascii ''n'', mb_sink = 0\<rparr>]"
    by (simp add: sample_actor_def joined_def RoomActor_spawn_def hm_values_def hm_insert_def)
  show ?thesis
    using broadcast_isolates [OF list_mpsc_spec, of sample_actor sample_sinks "MemberLeft (RoomId 1) (PlayerId 7)"]
    by (simp add: v sample_sinks_def sample_chan_def RoomEventSink_from_def)
qed

text \<open>
  The last member to leave is told so before the room disappears: its queue receives its own
  \<^verbatim>\<open>MemberLeft\<close> followed by \<^verbatim>\<open>Closed\<close>, the actor stops with the room closed and no member left,
  the leave is answered \<^verbatim>\<open>Ok(true)\<close>, and no other sink is touched.
\<close>

theorem last_leaver_notified:
  assumes spec: "mpsc_spec M contents cap" and run: "actor_running a" and one: "actor_abs a = {p}"
    and m: "hm_get (ac_members a) p = Some m" and opn: "\<not> ch_is_closed M (es_tx (\<sigma> (mb_sink m)))"
    and fits: "length (contents (es_tx (\<sigma> (mb_sink m)))) + 2 \<le> cap (es_tx (\<sigma> (mb_sink m)))"
  shows "(case RoomActor_handle M (Leave p reason) a \<sigma> of (stop, a', \<sigma>', reply) \<Rightarrow>
      stop \<and> actor_stopped a' \<and> ac_members a' = [] \<and> rm_members (ac_room a') = [] \<and>
      reply = Some (LeaveReply (Ok True)) \<and>
      contents (es_tx (\<sigma>' (mb_sink m))) = contents (es_tx (\<sigma> (mb_sink m))) @
        [MemberLeft (rm_id (ac_room a)) p, ClosedEvent (rm_id (ac_room a)) reason_last_left] \<and>
      (\<forall>s. s \<noteq> mb_sink m \<longrightarrow> \<sigma>' s = \<sigma> s))"
proof -
  have mem: "p \<in> set (rm_members (ac_room a))" and none: "filter (\<lambda>m. m \<noteq> p) (rm_members (ac_room a)) = []"
    using one by (auto simp: actor_abs_def filter_empty_conv)
  note l = handle_leave_last [OF run mem none, of M reason \<sigma>]
  have ms: "ac_members a = [(p, m)]"
    using run one m by (intro single_member_values) (auto simp: actor_running_def actor_abs_def)
  have bc: "RoomActor_broadcast M ev a \<tau> = \<tau>(mb_sink m := RoomEventSink_try_send M ev (\<tau> (mb_sink m)))" for ev \<tau>
    by (simp add: RoomActor_broadcast_def ms hm_values_def send_to_def)
  let ?e = "MemberLeft (rm_id (ac_room a)) p" and ?f = "ClosedEvent (rm_id (ac_room a)) reason_last_left"
  let ?s1 = "RoomEventSink_try_send M ?e (\<sigma> (mb_sink m))"
  note acc = RoomEventSink_try_send_accepts [OF spec opn, of ?e]
  have "contents (es_tx (RoomEventSink_try_send M ?f ?s1)) = contents (es_tx ?s1) @ [?f]"
    using acc fits by (intro RoomEventSink_try_send_accepts(1) [OF spec]) auto
  then have q: "contents (es_tx (RoomEventSink_try_send M ?f ?s1)) = contents (es_tx (\<sigma> (mb_sink m))) @ [?e, ?f]"
    using acc fits by simp
  have "ac_had_members a" using run mem by (auto simp: actor_running_def)
  then show ?thesis
    using none q left_closed_stopped [of p a]
    by (simp add: l bc actor_should_stop_def left_room_def Room_member_count_def ms hm_remove_def)
qed

text \<open>Witness: the sample room, whose only member leaves.\<close>

theorem last_leaver_notified_witness:
  "lc_items (es_tx ((fst (snd (snd (RoomActor_handle list_mpsc (Leave (PlayerId 7) []) sample_actor sample_sinks)))) 0))
     = [MemberLeft (RoomId 1) (PlayerId 7), ClosedEvent (RoomId 1) reason_last_left]"
proof -
  let ?m = "\<lparr>mb_nickname = ascii ''n'', mb_sink = 0\<rparr>"
  have g: "hm_get (ac_members sample_actor) (PlayerId 7) = Some ?m"
    by (simp add: sample_actor_def joined_def RoomActor_spawn_def)
  have abs: "actor_abs sample_actor = {PlayerId 7}" and i: "rm_id (ac_room sample_actor) = RoomId 1"
    by (simp_all add: actor_abs_def sample_actor_def joined_def RoomActor_spawn_def Room_open_def)
  show ?thesis
    using last_leaver_notified [OF list_mpsc_spec sample_actor_running abs g, of sample_sinks "[]"]
    by (simp add: i sample_sinks_def sample_chan_def RoomEventSink_from_def split: prod.splits)
qed

text \<open>
  (C32) Chat is relayed only from a member and only in trimmed form of 1 to 512 characters, under
  the nickname the member joined with; then every member's sink is offered the message
  exactly once and no other sink is touched. In every other case nothing is sent. A chat
  never changes the room and is never answered.
\<close>

theorem chat_relay:
  assumes "actor_running a" and "distinct (map mb_sink (hm_values (ac_members a)))"
  shows "(case RoomActor_handle M (Chat p content) a \<sigma> of (stop, a', \<sigma>', reply) \<Rightarrow>
      \<not> stop \<and> a' = a \<and> reply = None \<and>
      (\<forall>s. \<sigma>' s =
        (case hm_get (ac_members a) p of
           None \<Rightarrow> \<sigma> s
         | Some m \<Rightarrow>
             if 1 \<le> length (trim content) \<and> length (trim content) \<le> 512 \<and>
                s \<in> mb_sink ` set (hm_values (ac_members a))
             then RoomEventSink_try_send M
                    (ChatEvent (rm_id (ac_room a)) p (mb_nickname m) (trim content)) (\<sigma> s)
             else \<sigma> s)))"
proof -
  have "RoomActor_broadcast M ev a \<sigma> s =
      (if s \<in> mb_sink ` set (hm_values (ac_members a)) then RoomEventSink_try_send M ev (\<sigma> s) else \<sigma> s)" for ev s
    using broadcast_once [OF assms(2)] broadcast_other [of a s M ev \<sigma>] by auto
  then show ?thesis
    using running_not_stop [OF assms(1)]
    by (auto simp: RoomActor_handle_chat_def MAX_CHAT_CHARS_def Let_def Suc_le_eq split: option.splits)
qed

text \<open>Witness: a member of the sample room says hello with blanks around it.\<close>

theorem chat_relay_witness:
  "(fst (snd (snd (RoomActor_handle list_mpsc (Chat (PlayerId 7) (ascii '' hi '')) sample_actor sample_sinks)))) 0
     = RoomEventSink_try_send list_mpsc (ChatEvent (RoomId 1) (PlayerId 7) (ascii ''n'') (ascii ''hi'')) (sample_sinks 0)"
proof -
  have v: "ac_members sample_actor = [(PlayerId 7, \<lparr>mb_nickname = ascii ''n'', mb_sink = 0\<rparr>)]"
    "rm_id (ac_room sample_actor) = RoomId 1"
    by (simp_all add: sample_actor_def joined_def RoomActor_spawn_def hm_insert_def Room_open_def)
  have t: "trim (ascii '' hi '') = ascii ''hi''"
    by (simp add: trim_def trim_start_def trim_end_def ascii_def is_whitespace_def of_char_def)
  have "distinct (map mb_sink (hm_values (ac_members sample_actor)))" by (simp add: v hm_values_def)
  from chat_relay [OF sample_actor_running this, where M = list_mpsc and p = "PlayerId 7" and content = "ascii '' hi ''" and \<sigma> = sample_sinks]
  show ?thesis by (simp add: v t hm_get_def hm_values_def split: prod.splits)
qed

end
