(* ===== verification/LX_RoomService.thy ===== *)
theory LX_RoomService
  imports LX_RoomActor
begin

text \<open>
  \<^verbatim>\<open>crates/application/src/room/service.rs\<close> and the \<^verbatim>\<open>RoomHandle\<close> of \<^verbatim>\<open>room/actor.rs\<close>. The world
  holds the registry of handles, the actor tasks they address, the sinks and the events
  handed to the publisher (whose answer the service ignores).

  The tasks run concurrently with the service call. What other connections do between the
  registry lookup and the delivery of the command is an explicit list of \<open>env_action\<close>s,
  and \<open>lost\<close> says what happens to a command sent to a task that has already stopped: refused
  because its channel is closed, or accepted in the last moment and never answered. The
  theorems hold for every choice of both.
\<close>

section \<open>Tasks and handles\<close>

record room_service_config =
  rsc_command_capacity :: usize
  rsc_max_players :: u32

record room_handle =
  rh_room_id :: room_id

record task =
  tk_actor :: actor
  tk_running :: bool

record 'q world =
  sv_registry :: "(room_id, room_handle) hmap"
  sv_config :: room_service_config
  sv_tasks :: "room_id \<rightharpoonup> task"
  sv_sinks :: "'q sinks"
  sv_published :: "domain_event list"

text \<open>One iteration of the loop of \<^verbatim>\<open>RoomActor::run\<close>, with the final \<^verbatim>\<open>finish\<close> after a stop.\<close>

definition task_step ::
  "'q event_chan \<Rightarrow> room_command \<Rightarrow> task \<Rightarrow> 'q sinks \<Rightarrow> task \<times> 'q sinks \<times> actor_reply option" where
  "task_step M cmd t \<sigma> =
     (case RoomActor_handle M cmd (tk_actor t) \<sigma> of (stop, a, \<sigma>1, reply) \<Rightarrow>
        if stop
        then (let (a2, \<sigma>2) = RoomActor_finish M reason_channel_closed a \<sigma>1
              in (\<lparr>tk_actor = a2, tk_running = False\<rparr>, \<sigma>2, reply))
        else (\<lparr>tk_actor = a, tk_running = True\<rparr>, \<sigma>1, reply))"

definition deliver ::
  "'q event_chan \<Rightarrow> room_id \<Rightarrow> room_command \<Rightarrow> 'q world \<Rightarrow> actor_reply option option \<times> 'q world" where
  "deliver M rid cmd w =
     (case sv_tasks w rid of
        Some t \<Rightarrow>
          (if tk_running t
           then (case task_step M cmd t (sv_sinks w) of (t', \<sigma>', reply) \<Rightarrow>
                   (Some reply, w\<lparr>sv_tasks := (sv_tasks w)(rid \<mapsto> t'), sv_sinks := \<sigma>'\<rparr>))
           else (None, w))
      | None \<Rightarrow> (None, w))"

definition RoomHandle_send ::
  "'q event_chan \<Rightarrow> bool \<Rightarrow> room_handle \<Rightarrow> room_command \<Rightarrow> 'q world
     \<Rightarrow> (actor_reply option, app_error) result \<times> 'q world" where
  "RoomHandle_send M lost h cmd w =
     (case deliver M (rh_room_id h) cmd w of
        (Some reply, w') \<Rightarrow> (Ok reply, w')
      | (None, w') \<Rightarrow> (if lost then Ok None else Err (NotFound msg_room_missing), w'))"

definition RoomHandle_try_send ::
  "'q event_chan \<Rightarrow> bool \<Rightarrow> bool \<Rightarrow> room_handle \<Rightarrow> room_command \<Rightarrow> 'q world
     \<Rightarrow> (unit, app_error) result \<times> 'q world" where
  "RoomHandle_try_send M full lost h cmd w =
     (case sv_tasks w (rh_room_id h) of
        Some t \<Rightarrow>
          (if tk_running t
           then (if full then (Err Busy, w) else (Ok (), snd (deliver M (rh_room_id h) cmd w)))
           else (if lost then Ok () else Err (NotFound msg_room_missing), w))
      | None \<Rightarrow> (Err (NotFound msg_room_missing), w))"

definition RoomHandle_is_closed :: "room_handle \<Rightarrow> 'q world \<Rightarrow> bool" where
  "RoomHandle_is_closed h w =
     (case sv_tasks w (rh_room_id h) of Some t \<Rightarrow> ac_closed (tk_actor t) | None \<Rightarrow> False)"

text \<open>Dropping the last handle closes the channel, which ends the task's loop.\<close>

definition RoomHandle_drop :: "'q event_chan \<Rightarrow> room_handle \<Rightarrow> 'q world \<Rightarrow> 'q world" where
  "RoomHandle_drop M h w =
     (case sv_tasks w (rh_room_id h) of
        Some t \<Rightarrow>
          (case RoomActor_finish M reason_channel_closed (tk_actor t) (sv_sinks w) of (a, \<sigma>) \<Rightarrow>
             w\<lparr>sv_tasks := (sv_tasks w)(rh_room_id h \<mapsto> \<lparr>tk_actor = a, tk_running = False\<rparr>), sv_sinks := \<sigma>\<rparr>)
      | None \<Rightarrow> w)"

text \<open>What the other connections may do in between.\<close>

datatype env_action = EnvCommand room_id room_command | EnvRemove room_id

definition registry_remove :: "room_id \<Rightarrow> 'q world \<Rightarrow> 'q world" where
  "registry_remove rid w = w\<lparr>sv_registry := hm_remove rid (sv_registry w)\<rparr>"

primrec env_step :: "'q event_chan \<Rightarrow> env_action \<Rightarrow> 'q world \<Rightarrow> 'q world" where
  "env_step M (EnvCommand rid cmd) w = snd (deliver M rid cmd w)"
| "env_step M (EnvRemove rid) w = registry_remove rid w"

definition interfere :: "'q event_chan \<Rightarrow> env_action list \<Rightarrow> 'q world \<Rightarrow> 'q world" where
  "interfere M env w = fold (env_step M) env w"

section \<open>The service\<close>

definition RoomService_new :: "room_service_config \<Rightarrow> 'q sinks \<Rightarrow> 'q world" where
  "RoomService_new config \<sigma> =
     \<lparr>sv_registry = [], sv_config = config, sv_tasks = Map.empty, sv_sinks = \<sigma>, sv_published = []\<rparr>"

definition RoomService_publish :: "domain_event \<Rightarrow> 'q world \<Rightarrow> 'q world" where
  "RoomService_publish ev w = w\<lparr>sv_published := sv_published w @ [ev]\<rparr>"

definition handle_for :: "room_id \<Rightarrow> 'q world \<Rightarrow> room_handle option \<times> 'q world" where
  "handle_for rid w =
     (case hm_get (sv_registry w) rid of
        Some h \<Rightarrow> (if RoomHandle_is_closed h w then (None, registry_remove rid w) else (Some h, w))
      | None \<Rightarrow> (None, w))"

definition live_handles :: "'q world \<Rightarrow> room_handle list \<times> 'q world" where
  "live_handles w =
     (let reg = hm_retain (\<lambda>_ h. \<not> RoomHandle_is_closed h w) (sv_registry w)
      in (hm_values reg, w\<lparr>sv_registry := reg\<rparr>))"

definition join_outcome :: "(actor_reply option, app_error) result \<Rightarrow> (unit, app_error) result" where
  "join_outcome sent =
     (case sent of
        Err e \<Rightarrow> Err e
      | Ok (Some (JoinReply r)) \<Rightarrow> r
      | Ok _ \<Rightarrow> Err (Internal msg_join_unknown))"

definition RoomService_join ::
  "'q event_chan \<Rightarrow> env_action list \<Rightarrow> bool \<Rightarrow> datetime \<Rightarrow> room_id \<Rightarrow> player_id \<Rightarrow> rstring \<Rightarrow> sink_ref
     \<Rightarrow> 'q world \<Rightarrow> (unit, app_error) result \<times> 'q world" where
  "RoomService_join M env lost now rid p nick sink w =
     (case handle_for rid w of
        (None, w1) \<Rightarrow> (Err (NotFound msg_room_missing), w1)
      | (Some h, w1) \<Rightarrow>
          (case RoomHandle_send M lost h (Join p nick sink) (interfere M env w1) of (sent, w2) \<Rightarrow>
             (case join_outcome sent of
                Err e \<Rightarrow> (Err e, w2)
              | Ok _ \<Rightarrow> (Ok (), RoomService_publish (PlayerJoinedRoom rid p now) w2))))"

definition create_and_join ::
  "'q event_chan \<Rightarrow> env_action list \<Rightarrow> bool \<Rightarrow> uuid \<Rightarrow> datetime \<Rightarrow> player_id \<Rightarrow> rstring \<Rightarrow> sink_ref
     \<Rightarrow> 'q world \<Rightarrow> (room_id, app_error) result \<times> 'q world" where
  "create_and_join M env lost fresh now p nick sink w =
     (let r = Room_open fresh (rsc_max_players (sv_config w)) now;
          rid = rm_id r;
          h = \<lparr>rh_room_id = rid\<rparr>;
          w1 = w\<lparr>sv_tasks := (sv_tasks w)(rid \<mapsto> \<lparr>tk_actor = RoomActor_spawn r, tk_running = True\<rparr>),
                 sv_registry := hm_insert rid h (sv_registry w)\<rparr>
      in case RoomService_join M env lost now rid p nick sink w1 of
           (Err e, w2) \<Rightarrow> (Err e, RoomHandle_drop M h (registry_remove rid w2))
         | (Ok _, w2) \<Rightarrow> (Ok rid, w2))"

definition join_or_create ::
  "'q event_chan \<Rightarrow> env_action list \<Rightarrow> bool \<Rightarrow> uuid \<Rightarrow> datetime \<Rightarrow> room_id option \<Rightarrow> player_id \<Rightarrow> rstring
     \<Rightarrow> sink_ref \<Rightarrow> 'q world \<Rightarrow> (room_id, app_error) result \<times> 'q world" where
  "join_or_create M env lost fresh now room p nick sink w =
     (case room of
        Some rid \<Rightarrow>
          (case RoomService_join M env lost now rid p nick sink w of
             (Err e, w') \<Rightarrow> (Err e, w')
           | (Ok _, w') \<Rightarrow> (Ok rid, w'))
      | None \<Rightarrow> create_and_join M env lost fresh now p nick sink w)"

definition RoomService_chat ::
  "'q event_chan \<Rightarrow> env_action list \<Rightarrow> bool \<Rightarrow> bool \<Rightarrow> room_id \<Rightarrow> player_id \<Rightarrow> rstring
     \<Rightarrow> 'q world \<Rightarrow> (unit, app_error) result \<times> 'q world" where
  "RoomService_chat M env full lost rid p content w =
     (let trimmed = trim content in
      if trimmed = [] then (Err (Validation msg_chat_empty), w)
      else if length trimmed > MAX_CHAT_CHARS then (Err (Validation msg_chat_long), w)
      else case handle_for rid w of
             (None, w1) \<Rightarrow> (Err (NotFound msg_room_missing), w1)
           | (Some h, w1) \<Rightarrow> RoomHandle_try_send M full lost h (Chat p trimmed) (interfere M env w1))"

definition remove_if_closed :: "room_handle \<Rightarrow> room_id \<Rightarrow> 'q world \<Rightarrow> 'q world" where
  "remove_if_closed h rid w = (if RoomHandle_is_closed h w then registry_remove rid w else w)"

definition RoomService_leave ::
  "'q event_chan \<Rightarrow> env_action list \<Rightarrow> bool \<Rightarrow> datetime \<Rightarrow> room_id \<Rightarrow> player_id \<Rightarrow> rstring
     \<Rightarrow> 'q world \<Rightarrow> (unit, app_error) result \<times> 'q world" where
  "RoomService_leave M env lost now rid p reason w =
     (case handle_for rid w of
        (None, w1) \<Rightarrow> (Ok (), w1)
      | (Some h, w1) \<Rightarrow>
          (case RoomHandle_send M lost h (Leave p reason) (interfere M env w1) of
             (Err e, w2) \<Rightarrow>
               (if RoomHandle_is_closed h w2 then (Ok (), registry_remove rid w2) else (Err e, w2))
           | (Ok (Some (LeaveReply (Err e))), w2) \<Rightarrow> (Err e, w2)
           | (Ok (Some (LeaveReply (Ok left))), w2) \<Rightarrow>
               (let w3 = remove_if_closed h rid w2
                in if left then (Ok (), RoomService_publish (PlayerLeftRoom rid p reason now) w3)
                   else (Ok (), w3))
           | (Ok _, w2) \<Rightarrow>
               (if RoomHandle_is_closed h w2 then (Ok (), remove_if_closed h rid w2)
                else (Err (Internal msg_leave_unfinished), w2))))"

text \<open>The loop of \<^verbatim>\<open>leave_all\<close>: one \<open>(env, lost)\<close> pair per visited room, the first error ends it.\<close>

fun leave_each ::
  "'q event_chan \<Rightarrow> (nat \<Rightarrow> env_action list \<times> bool) \<Rightarrow> datetime \<Rightarrow> player_id \<Rightarrow> rstring \<Rightarrow> nat
     \<Rightarrow> room_handle list \<Rightarrow> 'q world \<Rightarrow> (unit, app_error) result \<times> 'q world" where
  "leave_each M envs now p reason n [] w = (Ok (), w)"
| "leave_each M envs now p reason n (h # hs) w =
     (case RoomService_leave M (fst (envs n)) (snd (envs n)) now (rh_room_id h) p reason w of
        (Err e, w') \<Rightarrow> (Err e, w')
      | (Ok _, w') \<Rightarrow> leave_each M envs now p reason (Suc n) hs w')"

definition leave_all ::
  "'q event_chan \<Rightarrow> (nat \<Rightarrow> env_action list \<times> bool) \<Rightarrow> datetime \<Rightarrow> player_id \<Rightarrow> rstring
     \<Rightarrow> 'q world \<Rightarrow> (unit, app_error) result \<times> 'q world" where
  "leave_all M envs now p reason w =
     (case live_handles w of (hs, w1) \<Rightarrow> leave_each M envs now p reason 0 hs w1)"

definition close_all :: "'q event_chan \<Rightarrow> rstring \<Rightarrow> 'q world \<Rightarrow> (unit, app_error) result \<times> 'q world" where
  "close_all M reason w =
     (let hs = hm_values (sv_registry w)
      in (Ok (), fold (\<lambda>h w'. snd (RoomHandle_send M False h (Close reason) w')) hs (w\<lparr>sv_registry := []\<rparr>)))"

definition active_rooms :: "'q world \<Rightarrow> nat" where
  "active_rooms w = length (sv_registry w)"

section \<open>The invariant\<close>

definition task_ok :: "u32 \<Rightarrow> room_id \<Rightarrow> task \<Rightarrow> bool" where
  "task_ok mp rid t \<longleftrightarrow>
     (if tk_running t then actor_running (tk_actor t) else actor_stopped (tk_actor t)) \<and>
     room_inv (ac_room (tk_actor t)) \<and>
     rm_id (ac_room (tk_actor t)) = rid \<and> rm_max_players (ac_room (tk_actor t)) = max mp 1"

definition service_inv :: "'q world \<Rightarrow> bool" where
  "service_inv w \<longleftrightarrow>
     hm_wf (sv_registry w) \<and>
     (\<forall>rid h. hm_get (sv_registry w) rid = Some h \<longrightarrow> rh_room_id h = rid \<and> sv_tasks w rid \<noteq> None) \<and>
     (\<forall>rid t. sv_tasks w rid = Some t \<longrightarrow> task_ok (rsc_max_players (sv_config w)) rid t)"

lemma service_inv_new: "service_inv (RoomService_new config \<sigma>)"
  by (simp add: service_inv_def RoomService_new_def)

lemma task_ok_closed: "task_ok mp rid t \<Longrightarrow> ac_closed (tk_actor t) \<longleftrightarrow> \<not> tk_running t"
  by (auto simp: task_ok_def actor_running_def actor_stopped_def split: if_splits)

lemma handle_id:
  assumes "actor_running a" and "RoomActor_handle M c a \<sigma> = (stop, a', \<sigma>', reply)"
  shows "rm_id (ac_room a') = rm_id (ac_room a)"
proof (cases c)
  case (Join p nick sink)
  from assms(1) show ?thesis
    by (cases rule: handle_join_cases [of a p M nick sink \<sigma>]) (use assms(2) Join in \<open>auto simp: joined_def\<close>)
next
  case (Leave p reason)
  from assms(1) show ?thesis
    by (cases rule: handle_leave_cases [of a p M reason \<sigma>])
      (use assms(2) Leave in \<open>auto simp: left_room_def simp del: filter_empty_conv\<close>)
next
  case (Close reason)
  with assms(2) show ?thesis
    by (auto simp: RoomActor_finish_def Room_close_def Let_def split: prod.splits if_splits)
qed (use assms(2) in auto)

lemma task_step_ok:
  assumes "task_ok mp rid t" and "tk_running t" and "task_step M cmd t \<sigma> = (t', \<sigma>', reply)"
  shows "task_ok mp rid t'" and "reply = room_spec_reply (unat (max mp 1)) cmd (actor_abs (tk_actor t))"
    and "actor_abs (tk_actor t') = room_spec (unat (max mp 1)) cmd (actor_abs (tk_actor t))"
    and "tk_running t' \<longleftrightarrow> \<not> room_spec_stops cmd (actor_abs (tk_actor t))"
proof -
  obtain stop a \<sigma>1 r where h: "RoomActor_handle M cmd (tk_actor t) \<sigma> = (stop, a, \<sigma>1, r)"
    by (metis prod_cases4)
  have run: "actor_running (tk_actor t)" and cap: "rm_max_players (ac_room (tk_actor t)) = max mp 1"
    and i: "rm_id (ac_room (tk_actor t)) = rid"
    using assms(1,2) by (auto simp: task_ok_def)
  note step = handle_step [OF run h] handle_room_inv [OF run h] handle_id [OF run h]
    handle_reply [OF run h] handle_refines [OF run h] handle_stops [OF run h]
  have eq: "t' = \<lparr>tk_actor = a, tk_running = \<not> stop\<rparr> \<and> reply = r"
    using assms(3) h step(1) by (auto simp: task_step_def finish_again split: if_splits)
  show "task_ok mp rid t'" using eq step(1,2,3) cap i by (auto simp: task_ok_def)
  show "reply = room_spec_reply (unat (max mp 1)) cmd (actor_abs (tk_actor t))"
    "actor_abs (tk_actor t') = room_spec (unat (max mp 1)) cmd (actor_abs (tk_actor t))"
    "tk_running t' \<longleftrightarrow> \<not> room_spec_stops cmd (actor_abs (tk_actor t))"
    using eq step(4,5,6) cap by simp_all
qed

definition in_room :: "'q world \<Rightarrow> room_id \<Rightarrow> player_id \<Rightarrow> bool" where
  "in_room w rid p \<longleftrightarrow>
     (case sv_tasks w rid of Some t \<Rightarrow> tk_running t \<and> p \<in> actor_abs (tk_actor t) | None \<Rightarrow> False)"

definition is_running :: "'q world \<Rightarrow> room_id \<Rightarrow> bool" where
  "is_running w rid \<longleftrightarrow> (case sv_tasks w rid of Some t \<Rightarrow> tk_running t | None \<Rightarrow> False)"

definition room_members :: "'q world \<Rightarrow> room_id \<Rightarrow> player_id set" where
  "room_members w rid = (case sv_tasks w rid of Some t \<Rightarrow> actor_abs (tk_actor t) | None \<Rightarrow> {})"

definition room_cap :: "'q world \<Rightarrow> nat" where
  "room_cap w = unat (max (rsc_max_players (sv_config w)) 1)"

lemma in_room_alt: "in_room w rid p \<longleftrightarrow> is_running w rid \<and> p \<in> room_members w rid"
  by (auto simp: in_room_def is_running_def room_members_def split: option.splits)

lemma service_inv_task: "service_inv w \<Longrightarrow> sv_tasks w rid = Some t \<Longrightarrow> task_ok (rsc_max_players (sv_config w)) rid t"
  by (auto simp: service_inv_def)

text \<open>Delivery to a running task is one step of the specification; otherwise nothing happens.\<close>

lemma deliver_frame [simp]:
  "sv_registry (snd (deliver M rid cmd w)) = sv_registry w"
  "sv_config (snd (deliver M rid cmd w)) = sv_config w"
  "sv_published (snd (deliver M rid cmd w)) = sv_published w"
  "sv_tasks (snd (deliver M rid cmd w)) r = None \<longleftrightarrow> sv_tasks w r = None"
  by (auto simp: deliver_def split: option.splits prod.splits)

lemma deliver_other: "r \<noteq> rid \<Longrightarrow> sv_tasks (snd (deliver M rid cmd w)) r = sv_tasks w r"
  by (auto simp: deliver_def split: option.splits prod.splits)

lemma deliver_idle: "\<not> is_running w rid \<Longrightarrow> deliver M rid cmd w = (None, w)"
  by (auto simp: deliver_def is_running_def split: option.splits)

lemma deliver_running:
  assumes "service_inv w" and "is_running w rid"
  shows "fst (deliver M rid cmd w) = Some (room_spec_reply (room_cap w) cmd (room_members w rid))"
    and "room_members (snd (deliver M rid cmd w)) rid = room_spec (room_cap w) cmd (room_members w rid)"
    and "is_running (snd (deliver M rid cmd w)) rid \<longleftrightarrow> \<not> room_spec_stops cmd (room_members w rid)"
proof -
  obtain t where t: "sv_tasks w rid = Some t" "tk_running t"
    using assms(2) by (auto simp: is_running_def split: option.splits)
  obtain t' \<sigma>' reply where st: "task_step M cmd t (sv_sinks w) = (t', \<sigma>', reply)" by (metis prod_cases3)
  have d: "deliver M rid cmd w = (Some reply, w\<lparr>sv_tasks := (sv_tasks w)(rid \<mapsto> t'), sv_sinks := \<sigma>'\<rparr>)"
    using t st by (simp add: deliver_def)
  note ok = task_step_ok [OF service_inv_task [OF assms(1) t(1)] t(2) st]
  show "fst (deliver M rid cmd w) = Some (room_spec_reply (room_cap w) cmd (room_members w rid))"
    and "room_members (snd (deliver M rid cmd w)) rid = room_spec (room_cap w) cmd (room_members w rid)"
    and "is_running (snd (deliver M rid cmd w)) rid \<longleftrightarrow> \<not> room_spec_stops cmd (room_members w rid)"
    using ok(2,3,4) t d by (simp_all add: room_members_def room_cap_def is_running_def)
qed

lemma deliver_inv [lx_inv]:
  assumes "service_inv w"
  shows "service_inv (snd (deliver M rid cmd w))"
proof (cases "is_running w rid")
  case False
  with assms show ?thesis by (simp add: deliver_idle)
next
  case True
  then obtain t where t: "sv_tasks w rid = Some t" "tk_running t"
    by (auto simp: is_running_def split: option.splits)
  obtain t' \<sigma>' reply where st: "task_step M cmd t (sv_sinks w) = (t', \<sigma>', reply)" by (metis prod_cases3)
  from task_step_ok(1) [OF service_inv_task [OF assms t(1)] t(2) st] t st assms show ?thesis
    by (auto simp: service_inv_def deliver_def)
qed

lemma registry_remove_inv [lx_inv]: "service_inv w \<Longrightarrow> service_inv (registry_remove rid w)"
  by (auto simp: service_inv_def registry_remove_def)

lemma registry_remove_frame [simp]:
  "sv_tasks (registry_remove rid w) = sv_tasks w" "sv_config (registry_remove rid w) = sv_config w"
  "sv_published (registry_remove rid w) = sv_published w"
  "sv_registry (registry_remove rid w) = hm_remove rid (sv_registry w)"
  "is_running (registry_remove rid w) = is_running w" "room_members (registry_remove rid w) = room_members w"
  "RoomHandle_is_closed h (registry_remove rid w) = RoomHandle_is_closed h w"
  by (simp_all add: registry_remove_def is_running_def room_members_def RoomHandle_is_closed_def fun_eq_iff)

lemma publish_frame [simp]:
  "sv_tasks (RoomService_publish ev w) = sv_tasks w" "sv_registry (RoomService_publish ev w) = sv_registry w"
  "sv_config (RoomService_publish ev w) = sv_config w"
  "is_running (RoomService_publish ev w) = is_running w" "room_members (RoomService_publish ev w) = room_members w"
  by (simp_all add: RoomService_publish_def is_running_def room_members_def fun_eq_iff)

lemma published_publish: "sv_published (RoomService_publish ev w) = sv_published w @ [ev]"
  by (simp add: RoomService_publish_def)

lemma publish_inv [lx_inv]: "service_inv w \<Longrightarrow> service_inv (RoomService_publish ev w)"
  by (simp add: service_inv_def)

lemma env_step_inv: "service_inv w \<Longrightarrow> service_inv (env_step M e w)"
  by (cases e) (simp_all add: lx_inv)

lemma interfere_inv [lx_inv]: "service_inv w \<Longrightarrow> service_inv (interfere M env w)"
  unfolding interfere_def by (induction env arbitrary: w) (simp_all add: env_step_inv)

lemma env_step_frame:
  "sv_config (env_step M e w) = sv_config w" "sv_published (env_step M e w) = sv_published w"
  "sv_tasks (env_step M e w) r = None \<longleftrightarrow> sv_tasks w r = None"
  by (cases e; simp)+

lemma interfere_frame [simp]:
  "sv_config (interfere M env w) = sv_config w" "sv_published (interfere M env w) = sv_published w"
  "sv_tasks (interfere M env w) r = None \<longleftrightarrow> sv_tasks w r = None"
  unfolding interfere_def by (induction env arbitrary: w) (simp_all add: env_step_frame)

lemma room_cap_frame [simp]:
  "room_cap (interfere M env w) = room_cap w" "room_cap (registry_remove rid w) = room_cap w"
  "room_cap (snd (deliver M rid cmd w)) = room_cap w" "room_cap (RoomService_publish ev w) = room_cap w"
  by (simp_all add: room_cap_def)

lemma is_closed_iff:
  "service_inv w \<Longrightarrow> sv_tasks w (rh_room_id h) \<noteq> None \<Longrightarrow>
     RoomHandle_is_closed h w \<longleftrightarrow> \<not> is_running w (rh_room_id h)"
  by (auto simp: RoomHandle_is_closed_def is_running_def dest!: service_inv_task task_ok_closed)

text \<open>The registry lookup hands out a handle only for a task that runs.\<close>

lemma handle_for_cases:
  assumes "service_inv w"
  obtains (gone) w1 where "handle_for rid w = (None, w1)" "service_inv w1" "sv_tasks w1 = sv_tasks w"
      "hm_get (sv_registry w1) rid = None" "sv_config w1 = sv_config w" "sv_published w1 = sv_published w"
      "hm_get (sv_registry w) rid = None \<or> \<not> is_running w rid"
  | (live) h where "handle_for rid w = (Some h, w)" "rh_room_id h = rid" "is_running w rid"
      "hm_get (sv_registry w) rid = Some h"
proof (cases "hm_get (sv_registry w) rid")
  case None
  with assms gone [of w] show ?thesis by (simp add: handle_for_def)
next
  case (Some h)
  then have h: "rh_room_id h = rid" "sv_tasks w rid \<noteq> None" using assms by (auto simp: service_inv_def)
  show ?thesis
  proof (cases "RoomHandle_is_closed h w")
    case True
    then have "\<not> is_running w rid" using is_closed_iff [OF assms, of h] h by simp
    with True Some assms show ?thesis
      by (intro gone [of "registry_remove rid w"]) (auto simp: handle_for_def lx_inv)
  next
    case False
    then have "is_running w rid" using is_closed_iff [OF assms, of h] h by simp
    with False Some h show ?thesis by (intro live) (auto simp: handle_for_def)
  qed
qed

lemma live_task: "is_running w rid \<Longrightarrow> sv_tasks w rid \<noteq> None"
  by (auto simp: is_running_def split: option.splits)

section \<open>Leaving\<close>

lemma spec_leave_running:
  assumes "service_inv w" and "is_running w rid"
  shows "\<exists>w'. deliver M rid (Leave p reason) w = (Some (Some (LeaveReply (Ok (p \<in> room_members w rid)))), w') \<and>
    service_inv w' \<and> sv_config w' = sv_config w \<and> \<not> in_room w' rid p"
proof -
  obtain r w' where d: "deliver M rid (Leave p reason) w = (r, w')" by (metis prod.exhaust)
  from deliver_running [OF assms, of M "Leave p reason"] deliver_inv [OF assms(1), of M rid "Leave p reason"]
    deliver_frame(2) [of M rid "Leave p reason" w] d
  show ?thesis by (simp add: in_room_alt)
qed

lemma leave_ok:
  assumes inv: "service_inv w"
  shows "\<exists>w'. RoomService_leave M env lost now rid p reason w = (Ok (), w') \<and> service_inv w' \<and>
    sv_config w' = sv_config w \<and> (hm_get (sv_registry w) rid \<noteq> None \<longrightarrow> \<not> in_room w' rid p)"
  using inv
proof (cases rule: handle_for_cases [of w rid])
  case (gone w1)
  then show ?thesis
    by (auto simp: RoomService_leave_def in_room_def is_running_def split: option.splits)
next
  case (live h)
  let ?v = "interfere M env w"
  have v: "service_inv ?v" using inv by (rule interfere_inv)
  have task: "sv_tasks ?v rid \<noteq> None" using live_task [OF live(3)] by simp
  show ?thesis
  proof (cases "is_running ?v rid")
    case True
    obtain w' where d: "deliver M rid (Leave p reason) ?v = (Some (Some (LeaveReply (Ok (p \<in> room_members ?v rid)))), w')"
      "service_inv w'" "sv_config w' = sv_config ?v" "\<not> in_room w' rid p"
      using spec_leave_running [OF v True, of M p reason] by blast
    then show ?thesis
      using live by (simp add: RoomService_leave_def RoomHandle_send_def Let_def remove_if_closed_def lx_inv in_room_alt)
  next
    case False
    have "RoomHandle_is_closed h ?v" using is_closed_iff [OF v, of h] task live(2) False by simp
    then show ?thesis
      using False v live
      by (auto simp: RoomService_leave_def RoomHandle_send_def deliver_idle remove_if_closed_def lx_inv in_room_alt)
  qed
qed

text \<open>Nothing but a join command of that player brings a player into a room.\<close>

primrec joins :: "player_id \<Rightarrow> env_action \<Rightarrow> bool" where
  "joins p (EnvCommand rid cmd) = (case cmd of Join q nick sink \<Rightarrow> q = p | _ \<Rightarrow> False)"
| "joins p (EnvRemove rid) = False"

lemma deliver_no_join:
  assumes "service_inv w" and "\<not> joins p (EnvCommand rid cmd)" and "\<not> in_room w r p"
  shows "\<not> in_room (snd (deliver M rid cmd w)) r p"
proof (cases "r = rid \<and> is_running w rid")
  case False
  then show ?thesis
    using assms(3) deliver_other [of r rid M cmd w] deliver_idle [of w rid M cmd]
    by (cases "r = rid") (simp_all add: in_room_def)
next
  case True
  note d = deliver_running [OF assms(1), of rid M cmd]
  from True assms(2,3) d show ?thesis by (cases cmd) (auto simp: in_room_alt)
qed

lemma interfere_no_join:
  assumes "service_inv w" and "\<forall>e \<in> set env. \<not> joins p e" and "\<not> in_room w r p"
  shows "\<not> in_room (interfere M env w) r p"
  using assms
proof (induction env arbitrary: w)
  case (Cons e env)
  have "\<not> in_room (env_step M e w) r p"
  proof (cases e)
    case (EnvCommand rid cmd)
    with Cons.prems deliver_no_join [of w p rid cmd r M] show ?thesis by simp
  next
    case (EnvRemove rid)
    with Cons.prems show ?thesis by (simp add: in_room_alt)
  qed
  with Cons.IH [of "env_step M e w"] Cons.prems env_step_inv [of w M e] show ?case
    by (simp add: interfere_def)
qed (simp add: interfere_def)

lemma send_world: "snd (RoomHandle_send M lost h cmd w) = snd (deliver M (rh_room_id h) cmd w)"
  by (auto simp: RoomHandle_send_def split: prod.splits option.splits)

lemma leave_world:
  assumes "service_inv w"
  shows "sv_tasks (snd (RoomService_leave M env lost now rid p reason w)) = sv_tasks w \<or>
    sv_tasks (snd (RoomService_leave M env lost now rid p reason w)) =
      sv_tasks (snd (deliver M rid (Leave p reason) (interfere M env w)))"
  using assms
proof (cases rule: handle_for_cases [of w rid])
  case (gone w1)
  then show ?thesis by (simp add: RoomService_leave_def)
next
  case (live h)
  obtain sent w2 where s: "RoomHandle_send M lost h (Leave p reason) (interfere M env w) = (sent, w2)"
    by (metis prod.exhaust)
  have w2: "w2 = snd (deliver M rid (Leave p reason) (interfere M env w))"
    using send_world [of M lost h "Leave p reason" "interfere M env w"] s live(2) by simp
  have "sv_tasks (snd (RoomService_leave M env lost now rid p reason w)) = sv_tasks w2"
    using live s
    by (auto simp: RoomService_leave_def Let_def remove_if_closed_def
        split: result.split option.split actor_reply.split)
  then show ?thesis using w2 by simp
qed

lemma leave_no_join:
  assumes "service_inv w" and "\<forall>e \<in> set env. \<not> joins p e" and "\<not> in_room w r p"
  shows "\<not> in_room (snd (RoomService_leave M env lost now rid p reason w)) r p"
proof -
  have "\<not> in_room (snd (deliver M rid (Leave p reason) (interfere M env w))) r p"
    using interfere_no_join [OF assms] interfere_inv [OF assms(1), of M env]
    by (intro deliver_no_join) auto
  with leave_world [OF assms(1), of M env lost now rid p reason] assms(3) show ?thesis
    by (auto simp: in_room_def)
qed

lemma interfere_registry:
  "hm_get (sv_registry (interfere M env w)) r \<noteq> None \<Longrightarrow> hm_get (sv_registry w) r \<noteq> None"
proof (induction env arbitrary: w)
  case (Cons e env)
  have "hm_get (sv_registry (env_step M e w)) r \<noteq> None \<Longrightarrow> hm_get (sv_registry w) r \<noteq> None"
    by (cases e) (auto split: if_splits)
  with Cons.IH [of "env_step M e w"] Cons.prems show ?case by (simp add: interfere_def)
qed (simp add: interfere_def)

lemma leave_registry:
  assumes "service_inv w"
    and "hm_get (sv_registry (snd (RoomService_leave M env lost now rid p reason w))) r \<noteq> None"
  shows "hm_get (sv_registry w) r \<noteq> None"
  using assms(1)
proof (cases rule: handle_for_cases [of w rid])
  case (gone w1)
  have "sv_registry w1 = sv_registry w \<or> sv_registry w1 = hm_remove rid (sv_registry w)"
    using gone(1) by (auto simp: handle_for_def split: option.splits if_splits)
  with gone assms(2) show ?thesis by (auto simp: RoomService_leave_def split: if_splits)
next
  case (live h)
  obtain sent w2 where s: "RoomHandle_send M lost h (Leave p reason) (interfere M env w) = (sent, w2)"
    by (metis prod.exhaust)
  have "w2 = snd (deliver M rid (Leave p reason) (interfere M env w))"
    using send_world [of M lost h "Leave p reason" "interfere M env w"] s live(2) by simp
  then have w2: "sv_registry w2 = sv_registry (interfere M env w)" by simp
  have "hm_get (sv_registry w2) r \<noteq> None"
    using assms(2) live s
    by (auto simp: RoomService_leave_def Let_def remove_if_closed_def
        split: result.splits option.splits actor_reply.splits if_splits)
  then show ?thesis unfolding w2 by (rule interfere_registry)
qed

lemma leave_each_ok:
  assumes "service_inv w" and "\<forall>n. \<forall>e \<in> set (fst (envs n)). \<not> joins p e"
    and "\<forall>rid. hm_get (sv_registry w) rid \<noteq> None \<longrightarrow> \<not> in_room w rid p \<or> rid \<in> rh_room_id ` set hs"
  shows "\<exists>w'. leave_each M envs now p reason n hs w = (Ok (), w') \<and> service_inv w' \<and>
    (\<forall>rid. hm_get (sv_registry w') rid \<noteq> None \<longrightarrow> \<not> in_room w' rid p)"
  using assms
proof (induction hs arbitrary: w n)
  case Nil
  then show ?case by simp
next
  case (Cons h hs)
  let ?L = "RoomService_leave M (fst (envs n)) (snd (envs n)) now (rh_room_id h) p reason w"
  obtain w1 where w1: "?L = (Ok (), w1)" "service_inv w1"
    "hm_get (sv_registry w) (rh_room_id h) \<noteq> None \<longrightarrow> \<not> in_room w1 (rh_room_id h) p"
    using leave_ok [OF Cons.prems(1), of M "fst (envs n)" "snd (envs n)" now "rh_room_id h" p reason] by blast
  have "\<forall>rid. hm_get (sv_registry w1) rid \<noteq> None \<longrightarrow> \<not> in_room w1 rid p \<or> rid \<in> rh_room_id ` set hs"
  proof (intro allI impI)
    fix rid assume reg: "hm_get (sv_registry w1) rid \<noteq> None"
    have old: "hm_get (sv_registry w) rid \<noteq> None"
      using leave_registry [OF Cons.prems(1), of M "fst (envs n)" "snd (envs n)" now "rh_room_id h" p reason rid]
        w1(1) reg by simp
    show "\<not> in_room w1 rid p \<or> rid \<in> rh_room_id ` set hs"
    proof (cases "in_room w rid p")
      case True
      with Cons.prems(3) old w1(3) show ?thesis by auto
    next
      case False
      have "\<forall>e \<in> set (fst (envs n)). \<not> joins p e" using Cons.prems(2) by blast
      from leave_no_join [OF Cons.prems(1) this False, of M "snd (envs n)" now "rh_room_id h" reason] w1(1)
      show ?thesis by simp
    qed
  qed
  from Cons.IH [OF w1(2) Cons.prems(2) this, of "Suc n"] w1(1) show ?case by simp
qed

lemma live_handles_inv:
  assumes "service_inv w" and "live_handles w = (hs, w1)"
  shows "service_inv w1" and "sv_tasks w1 = sv_tasks w" and "sv_config w1 = sv_config w"
    and "\<forall>rid. hm_get (sv_registry w1) rid \<noteq> None \<longrightarrow> rid \<in> rh_room_id ` set hs"
proof -
  have w1: "w1 = w\<lparr>sv_registry := hm_retain (\<lambda>_ h. \<not> RoomHandle_is_closed h w) (sv_registry w)\<rparr>"
    and hs: "hs = hm_values (sv_registry w1)"
    using assms(2) by (auto simp: live_handles_def Let_def)
  show inv: "service_inv w1"
    using assms(1) by (auto simp: w1 service_inv_def hm_get_retain split: option.splits if_splits)
  show "sv_tasks w1 = sv_tasks w" "sv_config w1 = sv_config w" by (simp_all add: w1)
  show "\<forall>rid. hm_get (sv_registry w1) rid \<noteq> None \<longrightarrow> rid \<in> rh_room_id ` set hs"
  proof (intro allI impI)
    fix rid assume "hm_get (sv_registry w1) rid \<noteq> None"
    then obtain h where h: "hm_get (sv_registry w1) rid = Some h" by blast
    then have "rh_room_id h = rid" "h \<in> set hs"
      using inv by (auto simp: service_inv_def hs set_hm_values)
    then show "rid \<in> rh_room_id ` set hs" by blast
  qed
qed

section \<open>Closing\<close>

lemma close_each:
  assumes "service_inv w"
  shows "service_inv (fold (\<lambda>h w'. snd (RoomHandle_send M False h (Close reason) w')) hs w) \<and>
    sv_registry (fold (\<lambda>h w'. snd (RoomHandle_send M False h (Close reason) w')) hs w) = sv_registry w \<and>
    (\<forall>rid. is_running (fold (\<lambda>h w'. snd (RoomHandle_send M False h (Close reason) w')) hs w) rid \<longrightarrow>
       is_running w rid \<and> rid \<notin> rh_room_id ` set hs)"
  using assms
proof (induction hs arbitrary: w)
  case (Cons h hs)
  let ?w = "snd (RoomHandle_send M False h (Close reason) w)"
  have w: "?w = snd (deliver M (rh_room_id h) (Close reason) w)" by (rule send_world)
  have inv: "service_inv ?w" and reg: "sv_registry ?w = sv_registry w"
    using Cons.prems by (simp_all add: w lx_inv)
  have "is_running ?w rid \<Longrightarrow> is_running w rid \<and> rid \<noteq> rh_room_id h" for rid
    using deliver_running(3) [OF Cons.prems, of "rh_room_id h" M "Close reason"]
      deliver_other [of rid "rh_room_id h" M "Close reason" w] deliver_idle [of w "rh_room_id h" M "Close reason"]
    unfolding w by (cases "is_running w (rh_room_id h)"; cases "rid = rh_room_id h") (auto simp: is_running_def)
  with Cons.IH [OF inv] reg show ?case by auto
qed simp

section \<open>Joining\<close>

lemma join_cases:
  assumes inv: "service_inv w"
    and eq: "RoomService_join M env lost now rid p nick sink w = (res, w')"
  shows "service_inv w' \<and> sv_config w' = sv_config w \<and>
    (case res of
       Ok _ \<Rightarrow> in_room w' rid p \<and> sv_published w' = sv_published w @ [PlayerJoinedRoom rid p now]
     | Err e \<Rightarrow> (e = NotFound msg_room_missing \<or> e = Conflict msg_room_full \<or> (lost \<and> e = Internal msg_join_unknown)) \<and>
         sv_published w' = sv_published w)"
  using inv
proof (cases rule: handle_for_cases [of w rid])
  case (gone w1)
  with eq show ?thesis by (auto simp: RoomService_join_def)
next
  case (live h)
  let ?v = "interfere M env w"
  have v: "service_inv ?v" using inv by (rule interfere_inv)
  show ?thesis
  proof (cases "is_running ?v rid")
    case False
    with eq live v show ?thesis
      by (auto simp: RoomService_join_def RoomHandle_send_def deliver_idle join_outcome_def split: if_splits)
  next
    case True
    obtain r w2 where d: "deliver M rid (Join p nick sink) ?v = (r, w2)" by (metis prod.exhaust)
    note run = deliver_running [OF v True, of M "Join p nick sink", unfolded d fst_conv snd_conv]
    have w2: "service_inv w2" "sv_config w2 = sv_config w" "sv_published w2 = sv_published w"
      using deliver_inv [OF v, of M rid "Join p nick sink"] deliver_frame(2,3) [of M rid "Join p nick sink" ?v]
      by (simp_all add: d)
    show ?thesis
    proof (cases "p \<in> room_members ?v rid \<or> card (room_members ?v rid) < room_cap ?v")
      case True
      then have "in_room w2 rid p" "r = Some (Some (JoinReply (Ok ())))"
        using run by (auto simp: in_room_alt)
      with eq live d w2 show ?thesis
        by (auto simp: RoomService_join_def RoomHandle_send_def join_outcome_def lx_inv in_room_alt published_publish)
    next
      case False
      then have "r = Some (Some (JoinReply (Err (Conflict msg_room_full))))"
        using run by auto
      with eq live d w2 show ?thesis
        by (auto simp: RoomService_join_def RoomHandle_send_def join_outcome_def)
    qed
  qed
qed

definition spawned :: "uuid \<Rightarrow> datetime \<Rightarrow> 'q world \<Rightarrow> 'q world" where
  "spawned fresh now w =
     w\<lparr>sv_tasks := (sv_tasks w)(RoomId fresh \<mapsto>
          \<lparr>tk_actor = RoomActor_spawn (Room_open fresh (rsc_max_players (sv_config w)) now), tk_running = True\<rparr>),
       sv_registry := hm_insert (RoomId fresh) \<lparr>rh_room_id = RoomId fresh\<rparr> (sv_registry w)\<rparr>"

lemma create_and_join_alt:
  "create_and_join M env lost fresh now p nick sink w =
     (case RoomService_join M env lost now (RoomId fresh) p nick sink (spawned fresh now w) of
        (Err e, w2) \<Rightarrow>
          (Err e, RoomHandle_drop M \<lparr>rh_room_id = RoomId fresh\<rparr> (registry_remove (RoomId fresh) w2))
      | (Ok _, w2) \<Rightarrow> (Ok (RoomId fresh), w2))"
proof -
  have i: "rm_id (Room_open fresh mp now) = RoomId fresh" for mp by (simp add: Room_open_def)
  show ?thesis unfolding create_and_join_def spawned_def Let_def i ..
qed

lemma spawned_task_ok:
  "task_ok mp (RoomId fresh) \<lparr>tk_actor = RoomActor_spawn (Room_open fresh mp now), tk_running = True\<rparr>"
  using actor_running_open [of fresh mp now]
  by (auto simp: task_ok_def RoomActor_spawn_def Room_open_def actor_running_def)

lemma spawned_inv: "service_inv w \<Longrightarrow> service_inv (spawned fresh now w)"
  using spawned_task_ok [of "rsc_max_players (sv_config w)" fresh now]
  by (auto simp: service_inv_def spawned_def)

lemma spawned_simps:
  "is_running (spawned fresh now w) (RoomId fresh)" "room_members (spawned fresh now w) (RoomId fresh) = {}"
  "sv_config (spawned fresh now w) = sv_config w" "sv_published (spawned fresh now w) = sv_published w"
  "hm_get (sv_registry (spawned fresh now w)) (RoomId fresh) = Some \<lparr>rh_room_id = RoomId fresh\<rparr>"
  by (simp_all add: spawned_def is_running_def room_members_def RoomActor_spawn_def Room_open_def actor_abs_def)

lemma room_cap_pos: "0 < room_cap w"
  by (auto simp: room_cap_def max_def word_le_nat_alt)

lemma drop_inv [lx_inv]:
  assumes "service_inv w"
  shows "service_inv (RoomHandle_drop M h w)"
proof (cases "sv_tasks w (rh_room_id h)")
  case None
  with assms show ?thesis by (simp add: RoomHandle_drop_def)
next
  case (Some t)
  obtain a \<sigma> where f: "RoomActor_finish M reason_channel_closed (tk_actor t) (sv_sinks w) = (a, \<sigma>)"
    by (metis prod.exhaust)
  have ok: "task_ok (rsc_max_players (sv_config w)) (rh_room_id h) t"
    by (rule service_inv_task [OF assms Some])
  have "rm_id (ac_room a) = rm_id (ac_room (tk_actor t))"
    using f by (auto simp: RoomActor_finish_def Room_close_def Let_def split: if_splits)
  with ok f finish_stopped [of M reason_channel_closed "tk_actor t" "sv_sinks w"]
    finish_room_inv [of "tk_actor t" M reason_channel_closed "sv_sinks w"]
    finish_max [of M reason_channel_closed "tk_actor t" "sv_sinks w"]
  have "task_ok (rsc_max_players (sv_config w)) (rh_room_id h) \<lparr>tk_actor = a, tk_running = False\<rparr>"
    by (simp add: task_ok_def)
  with assms Some f show ?thesis by (auto simp: RoomHandle_drop_def service_inv_def)
qed

lemma drop_frame [simp]:
  "sv_registry (RoomHandle_drop M h w) = sv_registry w" "sv_config (RoomHandle_drop M h w) = sv_config w"
  by (simp_all add: RoomHandle_drop_def split: option.split prod.split)

lemma create_inv:
  assumes "service_inv w" and "create_and_join M env lost fresh now p nick sink w = (res, w')"
  shows "service_inv w' \<and> sv_config w' = sv_config w \<and>
    (case res of Ok rid \<Rightarrow> rid = RoomId fresh \<and> in_room w' rid p
     | Err e \<Rightarrow> hm_get (sv_registry w') (RoomId fresh) = None)"
proof -
  obtain r w2 where j: "RoomService_join M env lost now (RoomId fresh) p nick sink (spawned fresh now w) = (r, w2)"
    by (metis prod.exhaust)
  note inv = join_cases [OF spawned_inv [OF assms(1)] j]
  with assms(2) j show ?thesis
    by (cases r) (auto simp: create_and_join_alt spawned_simps lx_inv)
qed

lemma chat_inv: "service_inv w \<Longrightarrow> service_inv (snd (RoomService_chat M env full lost rid p content w))"
proof -
  assume inv: "service_inv w"
  have ts: "service_inv (snd (RoomHandle_try_send M full lost h c v))" if "service_inv v" for h c v
    using that by (auto simp: RoomHandle_try_send_def lx_inv split: option.split)
  from inv show ?thesis
    by (cases rule: handle_for_cases [of w rid])
      (use inv ts in \<open>auto simp: RoomService_chat_def Let_def lx_inv\<close>)
qed

lemma chat_config: "sv_config (snd (RoomService_chat M env full lost rid p content w)) = sv_config w"
  by (auto simp: RoomService_chat_def Let_def handle_for_def RoomHandle_try_send_def split: option.split)

section \<open>Sequences of service calls\<close>

datatype service_op =
    SvJoin "env_action list" bool uuid datetime "room_id option" player_id rstring sink_ref
  | SvChat "env_action list" bool bool room_id player_id rstring
  | SvLeave "env_action list" bool datetime room_id player_id rstring
  | SvLeaveAll "nat \<Rightarrow> env_action list \<times> bool" datetime player_id rstring
  | SvCloseAll rstring

primrec service_exec :: "'q event_chan \<Rightarrow> service_op \<Rightarrow> 'q world \<Rightarrow> 'q world" where
  "service_exec M (SvJoin env lost fresh now room p nick sink) w =
     snd (join_or_create M env lost fresh now room p nick sink w)"
| "service_exec M (SvChat env full lost rid p content) w = snd (RoomService_chat M env full lost rid p content w)"
| "service_exec M (SvLeave env lost now rid p reason) w = snd (RoomService_leave M env lost now rid p reason w)"
| "service_exec M (SvLeaveAll envs now p reason) w = snd (leave_all M envs now p reason w)"
| "service_exec M (SvCloseAll reason) w = snd (close_all M reason w)"

lemma leave_each_inv:
  "service_inv w \<Longrightarrow>
     service_inv (snd (leave_each M envs now p reason n hs w)) \<and>
     sv_config (snd (leave_each M envs now p reason n hs w)) = sv_config w"
proof (induction hs arbitrary: w n)
  case (Cons h hs)
  obtain w1 where "RoomService_leave M (fst (envs n)) (snd (envs n)) now (rh_room_id h) p reason w = (Ok (), w1)"
    "service_inv w1" "sv_config w1 = sv_config w"
    using leave_ok [OF Cons.prems, of M "fst (envs n)" "snd (envs n)" now "rh_room_id h" p reason] by blast
  with Cons.IH [of w1 "Suc n"] show ?case by simp
qed simp

lemma close_each_config:
  "sv_config (fold (\<lambda>h w'. snd (RoomHandle_send M False h (Close reason) w')) hs w) = sv_config w"
  by (induction hs arbitrary: w) (simp_all add: send_world)

lemma drained_inv: "service_inv w \<Longrightarrow> service_inv (w\<lparr>sv_registry := []\<rparr>)"
  by (simp add: service_inv_def)

lemma service_exec_inv:
  assumes "service_inv w"
  shows "service_inv (service_exec M oper w) \<and> sv_config (service_exec M oper w) = sv_config w"
proof (cases oper)
  case (SvJoin env lost fresh now room p nick sink)
  show ?thesis
  proof (cases room)
    case None
    with SvJoin create_inv [OF assms, of M env lost fresh now p nick sink] show ?thesis
      by (cases "create_and_join M env lost fresh now p nick sink w") (simp add: join_or_create_def)
  next
    case (Some rid)
    obtain res w' where j: "RoomService_join M env lost now rid p nick sink w = (res, w')" by (metis prod.exhaust)
    from join_cases [OF assms j] SvJoin Some j show ?thesis
      by (cases res) (simp_all add: join_or_create_def)
  qed
next
  case (SvChat env full lost rid p content)
  with assms show ?thesis by (simp add: chat_inv chat_config)
next
  case (SvLeave env lost now rid p reason)
  with leave_ok [OF assms, of M env lost now rid p reason] show ?thesis by auto
next
  case (SvLeaveAll envs now p reason)
  obtain hs w1 where l: "live_handles w = (hs, w1)" by (metis prod.exhaust)
  with SvLeaveAll leave_each_inv [OF live_handles_inv(1) [OF assms l], of M envs now p reason 0 hs]
    live_handles_inv(3) [OF assms l]
  show ?thesis by (simp add: leave_all_def)
next
  case (SvCloseAll reason)
  with close_each [OF drained_inv [OF assms], of M reason "hm_values (sv_registry w)"] show ?thesis
    by (simp add: close_all_def Let_def close_each_config)
qed

lemma service_run_inv:
  "service_inv w \<Longrightarrow> service_inv (fold (service_exec M) opers w) \<and>
     sv_config (fold (service_exec M) opers w) = sv_config w"
  by (induction opers arbitrary: w) (simp_all add: service_exec_inv)

section \<open>Properties of the service\<close>

text \<open>
  (C1) Safety of the whole room system: after any sequence of service calls, interleaved in any
  way with commands and registry changes of other connections, every room task that exists
  has distinct members, at most \<^verbatim>\<open>max_players\<close> (at least one) of them, is registered under its
  own id, and is marked closed exactly when it no longer runs.
\<close>

theorem service_run_safe:
  "sv_tasks (fold (service_exec M) opers (RoomService_new config \<sigma>)) rid = Some t \<Longrightarrow>
     distinct (rm_members (ac_room (tk_actor t))) \<and>
     length (rm_members (ac_room (tk_actor t))) \<le> max 1 (unat (rsc_max_players config)) \<and>
     rm_id (ac_room (tk_actor t)) = rid \<and>
     (Room_is_closed (ac_room (tk_actor t)) \<longleftrightarrow> \<not> tk_running t) \<and>
     (ac_closed (tk_actor t) \<longleftrightarrow> \<not> tk_running t)"
proof -
  let ?w = "fold (service_exec M) opers (RoomService_new config \<sigma>)"
  assume t: "sv_tasks ?w rid = Some t"
  have inv: "service_inv ?w" and cfg: "sv_config ?w = config"
    using service_run_inv [OF service_inv_new [of config \<sigma>], of M opers] by (simp_all add: RoomService_new_def)
  have ok: "task_ok (rsc_max_players config) rid t" using service_inv_task [OF inv t] cfg by simp
  have "unat (max (rsc_max_players config) 1) = max 1 (unat (rsc_max_players config))"
    by (auto simp: max_def word_le_nat_alt)
  with ok task_ok_closed [OF ok] show ?thesis
    by (auto simp: task_ok_def room_inv_def actor_running_def actor_stopped_def split: if_splits)
qed

text \<open>Witness: one player creates a room; its task exists and satisfies the claim.\<close>

definition sample_service :: "room_event list_chan world" where
  "sample_service = RoomService_new \<lparr>rsc_command_capacity = 16, rsc_max_players = 2\<rparr> sample_sinks"

definition sample_create :: service_op where
  "sample_create = SvJoin [] False 1 0 None (PlayerId 7) (ascii ''n'') 0"

lemma sample_created:
  "join_or_create list_mpsc [] False 1 0 None (PlayerId 7) (ascii ''n'') 0 sample_service =
     (Ok (RoomId 1), snd (join_or_create list_mpsc [] False 1 0 None (PlayerId 7) (ascii ''n'') 0 sample_service))"
  "in_room (snd (join_or_create list_mpsc [] False 1 0 None (PlayerId 7) (ascii ''n'') 0 sample_service))
     (RoomId 1) (PlayerId 7)"
  by (simp_all add: join_or_create_def create_and_join_def sample_service_def RoomService_new_def RoomService_join_def
      handle_for_def RoomHandle_is_closed_def RoomHandle_send_def deliver_def task_step_def interfere_def
      RoomActor_handle_join_def Room_try_join_def Room_open_def RoomActor_spawn_def Room_is_closed_def
      Room_is_full_def Room_member_count_def actor_should_stop_def join_outcome_def RoomService_publish_def
      in_room_def actor_abs_def Let_def)

theorem service_run_safe_witness:
  "\<exists>t. sv_tasks (fold (service_exec list_mpsc) [sample_create] sample_service) (RoomId 1) = Some t \<and>
     distinct (rm_members (ac_room (tk_actor t))) \<and> length (rm_members (ac_room (tk_actor t))) \<le> 2"
proof -
  obtain t where t: "sv_tasks (fold (service_exec list_mpsc) [sample_create] sample_service) (RoomId 1) = Some t"
    using sample_created(2) by (auto simp: sample_create_def in_room_def split: option.splits)
  from service_run_safe [OF t [unfolded sample_service_def]] t show ?thesis by auto
qed

text \<open>
  (C16) Leaving never fails: whatever other connections do between the lookup and the delivery,
  and whether a command to a stopped task is refused or swallowed, \<^verbatim>\<open>leave\<close> answers \<^verbatim>\<open>Ok\<close>, the
  invariant is kept, and the player is no longer in that room if the room was registered.
  The branches that answer \<^verbatim>\<open>Internal\<close> or pass a send error on are unreachable.
\<close>

theorem leave_never_fails:
  "service_inv w \<Longrightarrow>
     fst (RoomService_leave M env lost now rid p reason w) = Ok () \<and>
     service_inv (snd (RoomService_leave M env lost now rid p reason w)) \<and>
     (hm_get (sv_registry w) rid \<noteq> None \<longrightarrow>
        \<not> in_room (snd (RoomService_leave M env lost now rid p reason w)) rid p)"
  using leave_ok [of w M env lost now rid p reason] by auto

text \<open>Witness: the creator of the sample room leaves it while somebody else closes it.\<close>

theorem leave_never_fails_witness:
  "fst (RoomService_leave list_mpsc [EnvCommand (RoomId 1) (Close [])] True 5 (RoomId 1) (PlayerId 7) []
     (service_exec list_mpsc sample_create sample_service)) = Ok ()"
proof -
  have "service_inv (service_exec list_mpsc sample_create sample_service)"
    using service_exec_inv [of sample_service list_mpsc sample_create]
    by (simp add: sample_service_def service_inv_new)
  from leave_never_fails [OF this] show ?thesis by blast
qed

text \<open>
  (C15) Disconnect clean-up: \<^verbatim>\<open>leave_all\<close> answers \<^verbatim>\<open>Ok\<close> and afterwards the player is in no
  registered room, however other connections interleave with it, as long as they do not
  make this player join again.
\<close>

theorem leave_all_clears:
  "service_inv w \<Longrightarrow> (\<forall>n. \<forall>e \<in> set (fst (envs n)). \<not> joins p e) \<Longrightarrow>
     (case leave_all M envs now p reason w of (res, w') \<Rightarrow>
        res = Ok () \<and> service_inv w' \<and>
        (\<forall>rid. hm_get (sv_registry w') rid \<noteq> None \<longrightarrow> \<not> in_room w' rid p))"
proof -
  assume inv: "service_inv w" and env: "\<forall>n. \<forall>e \<in> set (fst (envs n)). \<not> joins p e"
  obtain hs w1 where l: "live_handles w = (hs, w1)" by (metis prod.exhaust)
  note live = live_handles_inv [OF inv l]
  from leave_each_ok [OF live(1) env, of hs M now reason 0] live(4) l show ?thesis
    by (auto simp: leave_all_def)
qed

text \<open>Witness: the creator of the sample room disconnects.\<close>

theorem leave_all_clears_witness:
  "fst (leave_all list_mpsc (\<lambda>n. ([], False)) 9 (PlayerId 7) []
     (service_exec list_mpsc sample_create sample_service)) = Ok ()"
proof -
  have "service_inv (service_exec list_mpsc sample_create sample_service)"
    using service_exec_inv [of sample_service list_mpsc sample_create]
    by (simp add: sample_service_def service_inv_new)
  from leave_all_clears [OF this, of "\<lambda>n. ([], False)" "PlayerId 7" list_mpsc 9 "[]"] show ?thesis
    by (auto split: prod.splits)
qed

text \<open>
  (C17) A successful join means membership, a failed one has a documented cause: when \<^verbatim>\<open>join\<close> or
  room creation answers \<^verbatim>\<open>Ok(id)\<close>, the player is a member of the running room \<^verbatim>\<open>id\<close> and the
  join event was handed to the publisher; an error is that the room is gone, full, or (only
  when the stopped task swallowed the command) of unknown outcome, and then nothing was
  published for an existing room; a failed creation leaves no registration behind.
\<close>

theorem join_or_create_outcome:
  "service_inv w \<Longrightarrow> join_or_create M env lost fresh now room p nick sink w = (res, w') \<Longrightarrow>
     service_inv w' \<and>
     (case res of
        Ok rid \<Rightarrow> in_room w' rid p \<and> rid = (case room of Some r \<Rightarrow> r | None \<Rightarrow> RoomId fresh) \<and>
          sv_published w' = sv_published w @ [PlayerJoinedRoom rid p now]
      | Err e \<Rightarrow>
          (e = NotFound msg_room_missing \<or> e = Conflict msg_room_full \<or> (lost \<and> e = Internal msg_join_unknown)) \<and>
          (room = None \<longrightarrow> hm_get (sv_registry w') (RoomId fresh) = None))"
proof (cases room)
  case (Some rid)
  assume inv: "service_inv w" and eq: "join_or_create M env lost fresh now room p nick sink w = (res, w')"
  obtain r w1 where j: "RoomService_join M env lost now rid p nick sink w = (r, w1)" by (metis prod.exhaust)
  from join_cases [OF inv j] eq j Some show ?thesis
    by (cases r) (auto simp: join_or_create_def)
next
  case None
  assume inv: "service_inv w" and eq: "join_or_create M env lost fresh now room p nick sink w = (res, w')"
  obtain r w1 where
    j: "RoomService_join M env lost now (RoomId fresh) p nick sink (spawned fresh now w) = (r, w1)"
    by (metis prod.exhaust)
  from join_cases [OF spawned_inv [OF inv] j] eq j None show ?thesis
    by (cases r) (auto simp: join_or_create_def create_and_join_alt spawned_simps lx_inv)
qed

text \<open>Witness: creating the sample room puts its creator in it.\<close>

theorem join_or_create_outcome_witness:
  "in_room (snd (join_or_create list_mpsc [] False 1 0 None (PlayerId 7) (ascii ''n'') 0 sample_service))
     (RoomId 1) (PlayerId 7)"
proof -
  have "service_inv sample_service" by (simp add: sample_service_def service_inv_new)
  from join_or_create_outcome [OF this sample_created(1)] show ?thesis by simp
qed

end
