(* ===== verification/LX_Session.thy ===== *)
theory LX_Session
  imports LX_Values
begin

text \<open>\<^verbatim>\<open>crates/domain/src/session/aggregate.rs\<close>: the session of one connection.\<close>

record session =
  se_id :: session_id
  se_player_id :: "player_id option"
  se_connected_at :: datetime
  se_last_heartbeat_at :: datetime

definition Session_new :: "uuid \<Rightarrow> datetime \<Rightarrow> session" where
  "Session_new fresh now =
     \<lparr>se_id = SessionId fresh, se_player_id = None, se_connected_at = now,
      se_last_heartbeat_at = now\<rparr>"

definition Session_reconstitute ::
  "session_id \<Rightarrow> player_id option \<Rightarrow> datetime \<Rightarrow> datetime \<Rightarrow> session" where
  "Session_reconstitute i p connected beat =
     \<lparr>se_id = i, se_player_id = p, se_connected_at = connected, se_last_heartbeat_at = beat\<rparr>"

definition Session_bind_player :: "player_id \<Rightarrow> datetime \<Rightarrow> session \<Rightarrow> session" where
  "Session_bind_player p now s = s\<lparr>se_player_id := Some p, se_last_heartbeat_at := now\<rparr>"

definition Session_is_authenticated :: "session \<Rightarrow> bool" where
  "Session_is_authenticated s \<longleftrightarrow> se_player_id s \<noteq> None"

definition Session_touch_heartbeat :: "datetime \<Rightarrow> session \<Rightarrow> session" where
  "Session_touch_heartbeat now s = s\<lparr>se_last_heartbeat_at := now\<rparr>"

definition Session_is_heartbeat_expired :: "session \<Rightarrow> datetime \<Rightarrow> duration \<Rightarrow> bool" where
  "Session_is_heartbeat_expired s now timeout \<longleftrightarrow> now - se_last_heartbeat_at s > timeout"

lemmas session_op_defs [lx_defs] =
  Session_new_def Session_reconstitute_def Session_bind_player_def Session_is_authenticated_def
  Session_touch_heartbeat_def Session_is_heartbeat_expired_def

lemma expired_mono:
  "Session_is_heartbeat_expired s now t \<Longrightarrow> now \<le> later \<Longrightarrow> Session_is_heartbeat_expired s later t"
  by (simp add: lx_defs)

end
