(* ===== verification/LX_Ports.thy ===== *)
theory LX_Ports
  imports LX_AppError LX_Session
begin

text \<open>
  The traits of \<^verbatim>\<open>crates/application/src/ports.rs\<close> and of the \<^verbatim>\<open>repository.rs\<close> files of the domain:
  a trait object is a record of its methods over the state \<open>'s\<close> of the backend behind
  it. What an implementation promises is a locale; this theory holds the contract of the session
  token store and what its clients may conclude from it. Randomness and the clock are read by an
  implementation, so they are arguments of the methods that read them. The audit log and the
  event bus are stores of their own.
\<close>

section \<open>Trait objects\<close>

record 's account_repository =
  ar_find_by_id :: "account_id \<Rightarrow> 's \<Rightarrow> (account option, repo_error) result"
  ar_find_by_username :: "rstring \<Rightarrow> 's \<Rightarrow> (account option, repo_error) result"
  ar_save :: "account \<Rightarrow> 's \<Rightarrow> (unit, repo_error) result \<times> 's"

record 's player_repository =
  pr_find_by_id :: "player_id \<Rightarrow> 's \<Rightarrow> (player option, repo_error) result"
  pr_find_by_account :: "account_id \<Rightarrow> 's \<Rightarrow> (player option, repo_error) result"
  pr_save :: "player \<Rightarrow> 's \<Rightarrow> (unit, repo_error) result \<times> 's"
  pr_gain_exp :: "player_id \<Rightarrow> u64 \<Rightarrow> 's \<Rightarrow> ((player \<times> u32 option) option, repo_error) result \<times> 's"
  pr_record_login :: "player_id \<Rightarrow> datetime \<Rightarrow> 's \<Rightarrow> (player option, repo_error) result \<times> 's"

record 's registration_store =
  rs_register :: "account \<Rightarrow> player \<Rightarrow> 's \<Rightarrow> (unit, app_error) result \<times> 's"

record 's token_store =
  tk_create :: "u8 list \<Rightarrow> instant \<Rightarrow> player_id \<Rightarrow> duration \<Rightarrow> 's \<Rightarrow> (rstring, app_error) result \<times> 's"
  tk_resolve :: "instant \<Rightarrow> rstring \<Rightarrow> 's \<Rightarrow> (player_id option, app_error) result"
  tk_revoke_player :: "player_id \<Rightarrow> 's \<Rightarrow> (unit, app_error) result \<times> 's"

record password_hasher =
  ph_hash :: "rstring \<Rightarrow> (rstring, app_error) result"
  ph_verify :: "rstring \<Rightarrow> rstring \<Rightarrow> (bool, app_error) result"

record 'l audit_logger =
  al_record :: "player_id option \<Rightarrow> rstring \<Rightarrow> rstring \<Rightarrow> 'l \<Rightarrow> (unit, app_error) result \<times> 'l"

record 'b event_publisher =
  ep_publish :: "domain_event \<Rightarrow> 'b \<Rightarrow> (unit, app_error) result \<times> 'b"

section \<open>The contract of the user store\<close>

text \<open>
  The account repository, the player repository and the registration store, seen together.
  \<open>stored_account\<close> and \<open>stored_player\<close> are the forms in which the backend keeps an aggregate
  (a database rounds its time stamps); \<open>fresh a p s\<close> is what the backend needs of the identifiers of
  a new user beyond its own checks; \<open>stamp_ok\<close> are the time stamps it can keep. The registration use case only submits a \<open>new_user\<close>.
\<close>

definition new_user :: "account \<Rightarrow> player \<Rightarrow> bool" where
  "new_user a p \<longleftrightarrow>
     wf_username (acc_username a) \<and> wf_nickname (pl_nickname p) \<and> acc_status a = Active \<and>
     pl_account_id p = acc_id a \<and> unat (pl_level p) < 2 ^ 31 \<and> unat (pl_exp p) < 2 ^ 63"

lemma new_user_registered:
  "wf_username name \<Longrightarrow> wf_nickname nick \<Longrightarrow>
   new_user (Account_register fa name h now1) (Player_create fp (AccountId fa) nick now2)"
  by (simp add: new_user_def Account_register_def Player_create_def)

locale user_store =
  fixes AR :: "'s account_repository" and PR :: "'s player_repository" and RS :: "'s registration_store"
    and inv :: "'s \<Rightarrow> bool" and fresh :: "account \<Rightarrow> player \<Rightarrow> 's \<Rightarrow> bool"
    and stored_account :: "account \<Rightarrow> account" and stored_player :: "player \<Rightarrow> player"
    and stamp_ok :: "datetime \<Rightarrow> bool"
  assumes register_inv: "inv s \<Longrightarrow> new_user a p \<Longrightarrow> fresh a p s \<Longrightarrow> inv (snd (rs_register RS a p s))"
    and register_atomic: "inv s \<Longrightarrow> rs_register RS a p s = (Err e, s') \<Longrightarrow> s' = s"
    and register_account:
      "inv s \<Longrightarrow> new_user a p \<Longrightarrow> fresh a p s \<Longrightarrow> rs_register RS a p s = (Ok (), s') \<Longrightarrow> wf_username u \<Longrightarrow>
         ar_find_by_username AR (Username_as_str u) s' =
           (if u = acc_username a then Ok (Some (stored_account a)) else ar_find_by_username AR (Username_as_str u) s)"
    and register_player:
      "inv s \<Longrightarrow> new_user a p \<Longrightarrow> fresh a p s \<Longrightarrow> rs_register RS a p s = (Ok (), s') \<Longrightarrow>
         pr_find_by_account PR i s' =
           (if i = pl_account_id p then Ok (Some (stored_player p)) else pr_find_by_account PR i s)"
    and register_taken:
      "inv s \<Longrightarrow> wf_username (acc_username a) \<Longrightarrow>
         ar_find_by_username AR (Username_as_str (acc_username a)) s = Ok (Some b) \<Longrightarrow>
         is_err (fst (rs_register RS a p s))"
    and find_total: "inv s \<Longrightarrow> \<exists>r. ar_find_by_username AR name s = Ok r"
    and find_username:
      "inv s \<Longrightarrow> wf_username u \<Longrightarrow> ar_find_by_username AR (Username_as_str u) s = Ok (Some a) \<Longrightarrow> acc_username a = u"
    and find_account_total: "inv s \<Longrightarrow> \<exists>r. pr_find_by_account PR i s = Ok r"
    and find_account: "inv s \<Longrightarrow> pr_find_by_account PR i s = Ok (Some p) \<Longrightarrow> pl_account_id p = i"
    and login_inv: "inv s \<Longrightarrow> inv (snd (pr_record_login PR pid at s))"
    and login_player:
      "inv s \<Longrightarrow> pr_find_by_account PR acc s = Ok (Some p) \<Longrightarrow> stamp_ok at \<Longrightarrow>
         fst (pr_record_login PR (pl_id p) at s) = Ok (Some (stored_player (Player_record_login at p))) \<and>
         pr_find_by_account PR acc (snd (pr_record_login PR (pl_id p) at s)) =
           Ok (Some (stored_player (Player_record_login at p)))"
    and login_accounts:
      "inv s \<Longrightarrow> ar_find_by_username AR name (snd (pr_record_login PR pid at s)) = ar_find_by_username AR name s"
    and stored_account_fields:
      "acc_id (stored_account a) = acc_id a" "acc_username (stored_account a) = acc_username a"
      "acc_password_hash (stored_account a) = acc_password_hash a"
      "acc_status a = Active \<Longrightarrow> acc_status (stored_account a) = Active"
    and stored_player_fields:
      "pl_id (stored_player p) = pl_id p" "pl_account_id (stored_player p) = pl_account_id p"
      "pl_nickname (stored_player p) = pl_nickname p"
begin

text \<open>A user name is never registered twice, whoever tries.\<close>

lemma register_once:
  assumes "inv s" and "new_user a p" and "fresh a p s" and "rs_register RS a p s = (Ok (), s')"
    and "acc_username b = acc_username a"
  shows "is_err (fst (rs_register RS b q s'))"
proof -
  have wf: "wf_username (acc_username a)" using assms(2) by (simp add: new_user_def)
  have "inv s'" using register_inv [OF assms(1-3)] assms(4) by simp
  moreover have "ar_find_by_username AR (Username_as_str (acc_username b)) s' = Ok (Some (stored_account a))"
    using register_account [OF assms(1-4) wf] assms(5) by simp
  ultimately show ?thesis using register_taken wf assms(5) by metis
qed

end

section \<open>The contract of a session token store\<close>

text \<open>
  Two contracts. \<open>expiring_token_store\<close> is what every store promises: the backend has a clock
  that only moves forward, an answered create or revoke is in force from then on, and a call
  that fails may or may not have been carried out. \<open>known now t s\<close>: at \<open>now\<close> or later the store
  may still remember the token \<open>t\<close>; a token is fresh when it is not known, and the entropy
  source makes every issued token fresh. \<open>alive now ttl at\<close>: a token issued at \<open>now\<close> for \<open>ttl\<close> is
  still valid at \<open>at\<close>.
\<close>

locale expiring_token_store =
  fixes create :: "u8 list \<Rightarrow> instant \<Rightarrow> player_id \<Rightarrow> duration \<Rightarrow> 's \<Rightarrow> (rstring, app_error) result \<times> 's"
    and resolve :: "instant \<Rightarrow> rstring \<Rightarrow> 's \<Rightarrow> (player_id option, app_error) result"
    and revoke_player :: "instant \<Rightarrow> player_id \<Rightarrow> 's \<Rightarrow> (unit, app_error) result \<times> 's"
    and token_of :: "u8 list \<Rightarrow> rstring"
    and known :: "instant \<Rightarrow> rstring \<Rightarrow> 's \<Rightarrow> bool"
    and inv :: "instant \<Rightarrow> 's \<Rightarrow> bool"
    and alive :: "instant \<Rightarrow> duration \<Rightarrow> instant \<Rightarrow> bool"
  assumes inv_later: "inv now s \<Longrightarrow> now \<le> now' \<Longrightarrow> inv now' s"
    and issue_inv: "inv now s \<Longrightarrow> \<not> known now (token_of bytes) s \<Longrightarrow> inv now (snd (create bytes now p ttl s))"
    and issue_token: "create bytes now p ttl s = (Ok t, s') \<Longrightarrow> t = token_of bytes"
    and issue_resolve:
      "inv now s \<Longrightarrow> \<not> known now (token_of bytes) s \<Longrightarrow> create bytes now p ttl s = (Ok t, s') \<Longrightarrow> now \<le> at \<Longrightarrow>
         resolve at t' s' =
           (if t' = t then Ok (if alive now ttl at then Some p else None)
            else if resolve at t' s = Ok (Some p) then Ok None else resolve at t' s)"
    and issue_others:
      "inv now s \<Longrightarrow> \<not> known now (token_of bytes) s \<Longrightarrow> now \<le> at \<Longrightarrow> t' \<noteq> token_of bytes \<Longrightarrow>
         resolve at t' s = Ok (Some q) \<Longrightarrow> q \<noteq> p \<Longrightarrow>
         resolve at t' (snd (create bytes now p ttl s)) = Ok (Some q)"
    and withdraw_inv: "inv now s \<Longrightarrow> inv now (snd (revoke_player now p s))"
    and withdraw_resolve:
      "inv now s \<Longrightarrow> revoke_player now p s = (Ok (), s') \<Longrightarrow> now \<le> at \<Longrightarrow>
         resolve at t s' = (if resolve at t s = Ok (Some p) then Ok None else resolve at t s)"
begin

text \<open>After a successful create the new token is the only one that names the player.\<close>

lemma sole_session:
  assumes "inv now s" and "\<not> known now (token_of bytes) s" and "create bytes now p ttl s = (Ok t, s')"
    and "now \<le> at" and "resolve at t' s' = Ok (Some p)"
  shows "t' = t"
  using issue_resolve [OF assms(1-4), of t'] assms(5) by (auto split: if_splits)

lemma withdrawn_gone:
  "inv now s \<Longrightarrow> revoke_player now p s = (Ok (), s') \<Longrightarrow> now \<le> at \<Longrightarrow> resolve at t s' \<noteq> Ok (Some p)"
  using withdraw_resolve [of now s p s' at t] by auto

text \<open>A second login invalidates the token of the first.\<close>

lemma reissue_replaces:
  assumes "inv now1 s" and "\<not> known now1 (token_of b1) s" and "create b1 now1 p ttl s = (Ok t1, s1)"
    and "\<not> known now2 (token_of b2) s1" and "create b2 now2 p ttl s1 = (Ok t2, s2)" and "t1 \<noteq> t2"
    and "now1 \<le> now2" and "now2 \<le> at"
  shows "resolve at t1 s2 = Ok None" and "alive now2 ttl at \<Longrightarrow> resolve at t2 s2 = Ok (Some p)"
proof -
  have inv: "inv now2 s1" using inv_later [OF issue_inv [OF assms(1,2), of p ttl] assms(7)] assms(3) by simp
  have at1: "now1 \<le> at" using assms(7,8) by simp
  note r1 = issue_resolve [OF assms(1-3) at1, of t1]
  note r2 = issue_resolve [OF inv assms(4,5,8)]
  show "resolve at t1 s2 = Ok None" using r1 r2 [of t1] assms(6) by (auto split: if_splits)
  show "alive now2 ttl at \<Longrightarrow> resolve at t2 s2 = Ok (Some p)" using r2 [of t2] by simp
qed

end

text \<open>
  \<open>session_token_store\<close> is the stronger contract of a store in the memory of the process: it never
  fails half-way, revoking always succeeds, and its laws do not depend on the time. Every such
  store keeps the first contract too.
\<close>

locale session_token_store =
  fixes create :: "u8 list \<Rightarrow> instant \<Rightarrow> player_id \<Rightarrow> duration \<Rightarrow> 's \<Rightarrow> (rstring, app_error) result \<times> 's"
    and resolve :: "instant \<Rightarrow> rstring \<Rightarrow> 's \<Rightarrow> (player_id option, app_error) result"
    and revoke_player :: "player_id \<Rightarrow> 's \<Rightarrow> (unit, app_error) result \<times> 's"
    and token_of :: "u8 list \<Rightarrow> rstring"
    and known :: "rstring \<Rightarrow> 's \<Rightarrow> bool"
    and inv :: "'s \<Rightarrow> bool"
    and alive :: "instant \<Rightarrow> duration \<Rightarrow> instant \<Rightarrow> bool"
  assumes create_inv:
      "inv s \<Longrightarrow> \<not> known (token_of bytes) s \<Longrightarrow> inv (snd (create bytes now p ttl s))"
    and create_token: "create bytes now p ttl s = (Ok t, s') \<Longrightarrow> t = token_of bytes"
    and create_fails: "create bytes now p ttl s = (Err e, s') \<Longrightarrow> s' = s"
    and create_resolve:
      "inv s \<Longrightarrow> \<not> known (token_of bytes) s \<Longrightarrow> create bytes now p ttl s = (Ok t, s') \<Longrightarrow>
         resolve at t' s' =
           (if t' = t then Ok (if alive now ttl at then Some p else None)
            else if resolve at t' s = Ok (Some p) then Ok None else resolve at t' s)"
    and revoke_inv: "inv s \<Longrightarrow> inv (snd (revoke_player p s))"
    and revoke_ok: "fst (revoke_player p s) = Ok ()"
    and revoke_resolve:
      "inv s \<Longrightarrow> resolve at t (snd (revoke_player p s)) =
         (if resolve at t s = Ok (Some p) then Ok None else resolve at t s)"

sublocale session_token_store \<subseteq>
  expiring_token_store create resolve "\<lambda>_. revoke_player" token_of "\<lambda>_. known" "\<lambda>_. inv" alive
proof
  fix now now' at :: instant and s s' :: 's and bytes p ttl t t' q
  show "inv s \<Longrightarrow> \<not> known (token_of bytes) s \<Longrightarrow> t' \<noteq> token_of bytes \<Longrightarrow> resolve at t' s = Ok (Some q) \<Longrightarrow>
      q \<noteq> p \<Longrightarrow> resolve at t' (snd (create bytes now p ttl s)) = Ok (Some q)"
  proof (cases "fst (create bytes now p ttl s)")
    case (Ok u)
    assume "inv s" "\<not> known (token_of bytes) s" "t' \<noteq> token_of bytes" "resolve at t' s = Ok (Some q)" "q \<noteq> p"
    moreover have "create bytes now p ttl s = (Ok u, snd (create bytes now p ttl s))"
      using Ok by (simp add: prod_eq_iff)
    ultimately show ?thesis
      using create_resolve [of s bytes now p ttl u _ at t'] create_token [of bytes now p ttl s u] by auto
  next
    case (Err e)
    assume "resolve at t' s = Ok (Some q)"
    moreover have "snd (create bytes now p ttl s) = s"
      using create_fails [of bytes now p ttl s e "snd (create bytes now p ttl s)"] Err by (simp add: prod_eq_iff)
    ultimately show ?thesis by simp
  qed
  show "inv s \<Longrightarrow> revoke_player p s = (Ok (), s') \<Longrightarrow>
      resolve at t s' = (if resolve at t s = Ok (Some p) then Ok None else resolve at t s)"
    using revoke_resolve [of s at t p] by simp
qed (simp_all add: create_inv create_token create_resolve revoke_inv)

end
