(* ===== verification/LX_MemoryRepos.thy ===== *)
theory LX_MemoryRepos
  imports LX_Ports LX_HashMap LX_Room
begin

text \<open>
  \<^verbatim>\<open>crates/infrastructure/src/persistence/repositories/memory_repos.rs\<close> and \<^verbatim>\<open>room_repo.rs\<close>: the
  in-memory repositories. The account and the player repository are two maps that the
  registration store locks together, so the backend is one record. The contract the use
  cases rely on is the locale \<open>user_store\<close>; this theory shows that the in-memory store
  fulfils it.
\<close>

record mem_store =
  ms_accounts :: "(uuid, account) hmap"
  ms_players :: "(uuid, player) hmap"

definition mem_store_new :: mem_store where
  "mem_store_new = \<lparr>ms_accounts = [], ms_players = []\<rparr>"

section \<open>Accounts\<close>

definition InMemoryAccount_find_by_id :: "account_id \<Rightarrow> mem_store \<Rightarrow> (account option, repo_error) result" where
  "InMemoryAccount_find_by_id i s = Ok (hm_get (ms_accounts s) (account_uuid i))"

definition InMemoryAccount_find_by_username :: "rstring \<Rightarrow> mem_store \<Rightarrow> (account option, repo_error) result" where
  "InMemoryAccount_find_by_username name s =
     Ok (hm_find (\<lambda>a. Username_as_str (acc_username a) = name) (ms_accounts s))"

definition InMemoryAccount_save :: "account \<Rightarrow> mem_store \<Rightarrow> (unit, repo_error) result \<times> mem_store" where
  "InMemoryAccount_save a s = (Ok (), s\<lparr>ms_accounts := hm_insert (account_uuid (acc_id a)) a (ms_accounts s)\<rparr>)"

section \<open>Players\<close>

definition InMemoryPlayer_seed ::
  "uuid \<Rightarrow> uuid \<Rightarrow> rstring \<Rightarrow> datetime \<Rightarrow> mem_store \<Rightarrow> (player \<times> mem_store) option" where
  "InMemoryPlayer_seed fresh_account fresh_player nick now s =
     (case Nickname_try_new nick of
        Err e \<Rightarrow> None
      | Ok n \<Rightarrow>
          (let p = Player_create fresh_player (AccountId fresh_account) n now
           in Some (p, s\<lparr>ms_players := hm_insert (player_uuid (pl_id p)) p (ms_players s)\<rparr>)))"

definition InMemoryPlayer_gain_exp ::
  "player_id \<Rightarrow> u64 \<Rightarrow> mem_store \<Rightarrow> ((player \<times> u32 option) option, repo_error) result \<times> mem_store" where
  "InMemoryPlayer_gain_exp i amount s =
     (case hm_get (ms_players s) (player_uuid i) of
        None \<Rightarrow> (Ok None, s)
      | Some p \<Rightarrow>
          (let (p', level) = Player_gain_exp amount p
           in (Ok (Some (p', level)), s\<lparr>ms_players := hm_insert (player_uuid i) p' (ms_players s)\<rparr>)))"

definition InMemoryPlayer_record_login ::
  "player_id \<Rightarrow> datetime \<Rightarrow> mem_store \<Rightarrow> (player option, repo_error) result \<times> mem_store" where
  "InMemoryPlayer_record_login i at s =
     (case hm_get (ms_players s) (player_uuid i) of
        None \<Rightarrow> (Ok None, s)
      | Some p \<Rightarrow>
          (let p' = Player_record_login at p
           in (Ok (Some p'), s\<lparr>ms_players := hm_insert (player_uuid i) p' (ms_players s)\<rparr>)))"

definition InMemoryPlayer_find_by_id :: "player_id \<Rightarrow> mem_store \<Rightarrow> (player option, repo_error) result" where
  "InMemoryPlayer_find_by_id i s = Ok (hm_get (ms_players s) (player_uuid i))"

definition InMemoryPlayer_find_by_account :: "account_id \<Rightarrow> mem_store \<Rightarrow> (player option, repo_error) result" where
  "InMemoryPlayer_find_by_account i s = Ok (hm_find (\<lambda>p. pl_account_id p = i) (ms_players s))"

definition InMemoryPlayer_save :: "player \<Rightarrow> mem_store \<Rightarrow> (unit, repo_error) result \<times> mem_store" where
  "InMemoryPlayer_save p s = (Ok (), s\<lparr>ms_players := hm_insert (player_uuid (pl_id p)) p (ms_players s)\<rparr>)"

section \<open>Registration\<close>

definition InMemoryRegistration_register ::
  "account \<Rightarrow> player \<Rightarrow> mem_store \<Rightarrow> (unit, app_error) result \<times> mem_store" where
  "InMemoryRegistration_register a p s =
     (if hm_contains (ms_accounts s) (account_uuid (acc_id a)) \<or>
         list_ex (\<lambda>stored. acc_username stored = acc_username a) (hm_values (ms_accounts s)) \<or>
         hm_contains (ms_players s) (player_uuid (pl_id p)) \<or>
         list_ex (\<lambda>stored. pl_account_id stored = pl_account_id p) (hm_values (ms_players s))
      then (Err (Conflict msg_registration_exists), s)
      else (Ok (), s\<lparr>ms_accounts := hm_insert (account_uuid (acc_id a)) a (ms_accounts s),
                      ms_players := hm_insert (player_uuid (pl_id p)) p (ms_players s)\<rparr>))"

text \<open>The trait objects the use cases receive.\<close>

definition InMemoryAccountRepository :: "mem_store account_repository" where
  "InMemoryAccountRepository =
     \<lparr>ar_find_by_id = InMemoryAccount_find_by_id, ar_find_by_username = InMemoryAccount_find_by_username,
      ar_save = InMemoryAccount_save\<rparr>"

definition InMemoryPlayerRepository :: "mem_store player_repository" where
  "InMemoryPlayerRepository =
     \<lparr>pr_find_by_id = InMemoryPlayer_find_by_id, pr_find_by_account = InMemoryPlayer_find_by_account,
      pr_save = InMemoryPlayer_save, pr_gain_exp = InMemoryPlayer_gain_exp,
      pr_record_login = InMemoryPlayer_record_login\<rparr>"

definition InMemoryRegistrationStore :: "mem_store registration_store" where
  "InMemoryRegistrationStore = \<lparr>rs_register = InMemoryRegistration_register\<rparr>"

section \<open>Rooms\<close>

type_synonym mem_rooms = "(room_id, room) hmap"

definition InMemoryRoom_len :: "mem_rooms \<Rightarrow> nat" where
  "InMemoryRoom_len s = length s"

definition InMemoryRoom_is_empty :: "mem_rooms \<Rightarrow> bool" where
  "InMemoryRoom_is_empty s \<longleftrightarrow> s = []"

definition InMemoryRoom_find_by_id :: "room_id \<Rightarrow> mem_rooms \<Rightarrow> (room option, repo_error) result" where
  "InMemoryRoom_find_by_id i s = Ok (hm_get s i)"

definition InMemoryRoom_save :: "room \<Rightarrow> mem_rooms \<Rightarrow> (unit, repo_error) result \<times> mem_rooms" where
  "InMemoryRoom_save r s = (Ok (), hm_insert (rm_id r) r s)"

definition InMemoryRoom_delete :: "room_id \<Rightarrow> mem_rooms \<Rightarrow> (unit, repo_error) result \<times> mem_rooms" where
  "InMemoryRoom_delete i s = (Ok (), hm_remove i s)"

locale room_repository =
  fixes find_by_id :: "room_id \<Rightarrow> 's \<Rightarrow> (room option, repo_error) result"
    and save :: "room \<Rightarrow> 's \<Rightarrow> (unit, repo_error) result \<times> 's"
    and delete :: "room_id \<Rightarrow> 's \<Rightarrow> (unit, repo_error) result \<times> 's"
  assumes save_ok: "fst (save r s) = Ok ()" and delete_ok: "fst (delete i s) = Ok ()"
    and find_save: "find_by_id i (snd (save r s)) = (if i = rm_id r then Ok (Some r) else find_by_id i s)"
    and find_delete: "find_by_id i (snd (delete j s)) = (if i = j then Ok None else find_by_id i s)"
begin

lemma save_delete: "find_by_id i (snd (delete (rm_id r) (snd (save r s)))) = (if i = rm_id r then Ok None else find_by_id i s)"
  by (simp add: find_save find_delete)

lemma last_save_wins: "rm_id r = rm_id r' \<Longrightarrow> find_by_id (rm_id r) (snd (save r' (snd (save r s)))) = Ok (Some r')"
  by (simp add: find_save)

end

interpretation memory_rooms: room_repository InMemoryRoom_find_by_id InMemoryRoom_save InMemoryRoom_delete
  by unfold_locales
    (auto simp: InMemoryRoom_find_by_id_def InMemoryRoom_save_def InMemoryRoom_delete_def)

section \<open>The in-memory store fulfils the contract of the user store\<close>

definition mem_inv :: "mem_store \<Rightarrow> bool" where
  "mem_inv s \<longleftrightarrow>
     hm_wf (ms_accounts s) \<and> hm_wf (ms_players s) \<and>
     (\<forall>u a. hm_get (ms_accounts s) u = Some a \<longrightarrow> account_uuid (acc_id a) = u) \<and>
     (\<forall>u p. hm_get (ms_players s) u = Some p \<longrightarrow> player_uuid (pl_id p) = u) \<and>
     (\<forall>u v a b. hm_get (ms_accounts s) u = Some a \<longrightarrow> hm_get (ms_accounts s) v = Some b \<longrightarrow>
        acc_username a = acc_username b \<longrightarrow> u = v) \<and>
     (\<forall>u v p q. hm_get (ms_players s) u = Some p \<longrightarrow> hm_get (ms_players s) v = Some q \<longrightarrow>
        pl_account_id p = pl_account_id q \<longrightarrow> u = v)"

lemma mem_inv_new: "mem_inv mem_store_new"
  by (simp add: mem_inv_def mem_store_new_def)

lemma list_ex_values: "hm_wf m \<Longrightarrow> list_ex P (hm_values m) \<longleftrightarrow> (\<exists>k v. hm_get m k = Some v \<and> P v)"
  by (auto simp: list_ex_iff set_hm_values)

lemma register_Ok_iff:
  assumes "mem_inv s"
  shows "InMemoryRegistration_register a p s = (Ok (), s') \<longleftrightarrow>
    hm_get (ms_accounts s) (account_uuid (acc_id a)) = None \<and>
    (\<forall>u b. hm_get (ms_accounts s) u = Some b \<longrightarrow> acc_username b \<noteq> acc_username a) \<and>
    hm_get (ms_players s) (player_uuid (pl_id p)) = None \<and>
    (\<forall>u q. hm_get (ms_players s) u = Some q \<longrightarrow> pl_account_id q \<noteq> pl_account_id p) \<and>
    s' = s\<lparr>ms_accounts := hm_insert (account_uuid (acc_id a)) a (ms_accounts s),
           ms_players := hm_insert (player_uuid (pl_id p)) p (ms_players s)\<rparr>"
proof -
  have wf: "hm_wf (ms_accounts s)" "hm_wf (ms_players s)" using assms by (auto simp: mem_inv_def)
  show ?thesis
    unfolding InMemoryRegistration_register_def list_ex_values [OF wf(1)] list_ex_values [OF wf(2)]
    by (auto simp: hm_contains_def)
qed

lemma mem_find_username:
  assumes "mem_inv s"
  shows "hm_find (\<lambda>a. Username_as_str (acc_username a) = name) (ms_accounts s) = Some a \<longleftrightarrow>
    (\<exists>u. hm_get (ms_accounts s) u = Some a \<and> Username_as_str (acc_username a) = name)"
    (is "?l \<longleftrightarrow> ?r")
proof
  show ?r if ?l using hm_find_Some [OF _ that] assms by (auto simp: mem_inv_def)
  assume ?r
  then obtain u where u: "hm_get (ms_accounts s) u = Some a" "Username_as_str (acc_username a) = name" by blast
  have uniq: "b = a" if "hm_get (ms_accounts s) v = Some b" "Username_as_str (acc_username b) = name" for v b
  proof -
    have "acc_username b = acc_username a" using that(2) u(2) by (simp add: Username_as_str_inject [symmetric])
    then have "v = u" using assms that(1) u(1) unfolding mem_inv_def by blast
    with that(1) u(1) show ?thesis by simp
  qed
  have wf: "hm_wf (ms_accounts s)" using assms by (simp add: mem_inv_def)
  show ?l by (rule hm_find_unique [OF wf u(1)]) (rule u(2), rule uniq)
qed

lemma mem_find_account:
  assumes "mem_inv s"
  shows "hm_find (\<lambda>p. pl_account_id p = i) (ms_players s) = Some p \<longleftrightarrow>
    (\<exists>u. hm_get (ms_players s) u = Some p \<and> pl_account_id p = i)"
    (is "?l \<longleftrightarrow> ?r")
proof
  show ?r if ?l using hm_find_Some [OF _ that] assms by (auto simp: mem_inv_def)
  assume ?r
  then obtain u where u: "hm_get (ms_players s) u = Some p" "pl_account_id p = i" by blast
  have uniq: "q = p" if "hm_get (ms_players s) v = Some q" "pl_account_id q = i" for v q
  proof -
    have "v = u" using assms that u unfolding mem_inv_def by blast
    with that(1) u(1) show ?thesis by simp
  qed
  have wf: "hm_wf (ms_players s)" using assms by (simp add: mem_inv_def)
  show ?l by (rule hm_find_unique [OF wf u(1)]) (rule u(2), rule uniq)
qed

lemma hm_insert_ex:
  assumes "hm_get m k = None"
  shows "(\<exists>u. hm_get (hm_insert k v m) u = Some x) \<longleftrightarrow> x = v \<or> (\<exists>u. hm_get m u = Some x)"
proof (intro iffI)
  assume "x = v \<or> (\<exists>u. hm_get m u = Some x)"
  then show "\<exists>u. hm_get (hm_insert k v m) u = Some x"
  proof
    assume "x = v"
    then show ?thesis by (intro exI [of _ k]) simp
  next
    assume "\<exists>u. hm_get m u = Some x"
    then obtain u where "hm_get m u = Some x" by blast
    with assms show ?thesis by (intro exI [of _ u]) auto
  qed
qed (auto split: if_splits)

lemma option_eqI: "(\<And>x. a = Some x \<longleftrightarrow> b = Some x) \<Longrightarrow> a = b"
  by (cases a; cases b) auto

lemma mem_register_inv: "mem_inv s \<Longrightarrow> mem_inv (snd (InMemoryRegistration_register a p s))"
proof (cases "fst (InMemoryRegistration_register a p s)")
  case (Err e)
  then show "mem_inv s \<Longrightarrow> ?thesis" by (auto simp: InMemoryRegistration_register_def split: if_splits)
next
  case (Ok x)
  assume inv: "mem_inv s"
  have "InMemoryRegistration_register a p s = (Ok (), snd (InMemoryRegistration_register a p s))"
    using Ok by (simp add: prod_eq_iff)
  from this [unfolded register_Ok_iff [OF inv]] inv show ?thesis
    unfolding mem_inv_def by (simp split: if_splits) metis
qed

lemma mem_register_account:
  assumes inv: "mem_inv s" and ok: "InMemoryRegistration_register a p s = (Ok (), s')"
  shows "InMemoryAccount_find_by_username name s' =
    (if name = Username_as_str (acc_username a) then Ok (Some a) else InMemoryAccount_find_by_username name s)"
proof -
  note reg = ok [unfolded register_Ok_iff [OF inv]]
  have inv': "mem_inv s'" using mem_register_inv [OF inv, of a p] ok by simp
  have "hm_find (\<lambda>a. Username_as_str (acc_username a) = name) (ms_accounts s') =
      (if name = Username_as_str (acc_username a) then Some a
       else hm_find (\<lambda>a. Username_as_str (acc_username a) = name) (ms_accounts s))" (is "_ = ?r")
  proof (rule option_eqI)
    fix b
    show "hm_find (\<lambda>a. Username_as_str (acc_username a) = name) (ms_accounts s') = Some b \<longleftrightarrow> ?r = Some b"
      using reg mem_find_username [OF inv', of name b] mem_find_username [OF inv, of name b]
        hm_insert_ex [of "ms_accounts s" "account_uuid (acc_id a)" a b]
      by (auto simp: Username_as_str_inject simp del: hm_get_insert)
  qed
  then show ?thesis by (simp add: InMemoryAccount_find_by_username_def)
qed

lemma mem_register_player:
  assumes inv: "mem_inv s" and ok: "InMemoryRegistration_register a p s = (Ok (), s')"
  shows "InMemoryPlayer_find_by_account i s' =
    (if i = pl_account_id p then Ok (Some p) else InMemoryPlayer_find_by_account i s)"
proof -
  note reg = ok [unfolded register_Ok_iff [OF inv]]
  have inv': "mem_inv s'" using mem_register_inv [OF inv, of a p] ok by simp
  have "hm_find (\<lambda>p. pl_account_id p = i) (ms_players s') =
      (if i = pl_account_id p then Some p else hm_find (\<lambda>p. pl_account_id p = i) (ms_players s))" (is "_ = ?r")
  proof (rule option_eqI)
    fix q
    show "hm_find (\<lambda>p. pl_account_id p = i) (ms_players s') = Some q \<longleftrightarrow> ?r = Some q"
      using reg mem_find_account [OF inv', of i q] mem_find_account [OF inv, of i q]
        hm_insert_ex [of "ms_players s" "player_uuid (pl_id p)" p q]
      by (auto simp del: hm_get_insert)
  qed
  then show ?thesis by (simp add: InMemoryPlayer_find_by_account_def)
qed

lemma record_login_frame [simp]:
  "pl_id (Player_record_login at p) = pl_id p" "pl_account_id (Player_record_login at p) = pl_account_id p"
  by (simp_all add: Player_record_login_def)

lemma mem_login_inv:
  assumes inv: "mem_inv s"
  shows "mem_inv (snd (InMemoryPlayer_record_login i at s))"
proof (cases "hm_get (ms_players s) (player_uuid i)")
  case None
  with inv show ?thesis by (simp add: InMemoryPlayer_record_login_def)
next
  case (Some p)
  let ?s = "snd (InMemoryPlayer_record_login i at s)"
  have s: "ms_players ?s = hm_insert (player_uuid i) (Player_record_login at p) (ms_players s)"
    "ms_accounts ?s = ms_accounts s"
    using Some by (simp_all add: InMemoryPlayer_record_login_def Let_def)
  from inv Some show ?thesis unfolding mem_inv_def s
    by (auto split: if_splits)
qed

lemma mem_login_player:
  assumes inv: "mem_inv s" and p: "InMemoryPlayer_find_by_account acc s = Ok (Some p)"
  shows "fst (InMemoryPlayer_record_login (pl_id p) at s) = Ok (Some (Player_record_login at p)) \<and>
    InMemoryPlayer_find_by_account acc (snd (InMemoryPlayer_record_login (pl_id p) at s)) =
      Ok (Some (Player_record_login at p))"
proof -
  obtain u where u: "hm_get (ms_players s) u = Some p" "pl_account_id p = acc"
    using p mem_find_account [OF inv, of acc p] by (auto simp: InMemoryPlayer_find_by_account_def)
  have k: "player_uuid (pl_id p) = u" using inv u(1) by (simp add: mem_inv_def)
  have "hm_find (\<lambda>p. pl_account_id p = acc) (ms_players (snd (InMemoryPlayer_record_login (pl_id p) at s))) =
      Some (Player_record_login at p)"
    unfolding mem_find_account [OF mem_login_inv [OF inv]]
    using u k by (auto simp: InMemoryPlayer_record_login_def Let_def)
  then show ?thesis
    using u k by (simp add: InMemoryPlayer_record_login_def InMemoryPlayer_find_by_account_def Let_def)
qed

lemma mem_register_taken:
  assumes "mem_inv s" and "InMemoryAccount_find_by_username (Username_as_str (acc_username a)) s = Ok (Some b)"
  shows "fst (InMemoryRegistration_register a p s) = Err (Conflict msg_registration_exists)"
proof -
  have wf: "hm_wf (ms_accounts s)" using assms(1) by (simp add: mem_inv_def)
  obtain u where "hm_get (ms_accounts s) u = Some b" "acc_username b = acc_username a"
    using assms(2) mem_find_username [OF assms(1), of "Username_as_str (acc_username a)" b]
    by (auto simp: InMemoryAccount_find_by_username_def Username_as_str_inject)
  then show ?thesis by (auto simp: InMemoryRegistration_register_def list_ex_values [OF wf])
qed

text \<open>The stored form of an aggregate is the aggregate itself, and the store checks every identifier.\<close>

interpretation memory_users: user_store
  InMemoryAccountRepository InMemoryPlayerRepository InMemoryRegistrationStore mem_inv "\<lambda>_ _ _. True" "\<lambda>a. a" "\<lambda>p. p" "\<lambda>_. True"
proof
  fix s s' :: mem_store and a b :: account and p :: player and e name u i at acc pid
  note [simp] = InMemoryAccountRepository_def InMemoryPlayerRepository_def InMemoryRegistrationStore_def
  show "mem_inv s \<Longrightarrow> mem_inv (snd (rs_register InMemoryRegistrationStore a p s))"
    by (simp add: mem_register_inv)
  show "rs_register InMemoryRegistrationStore a p s = (Err e, s') \<Longrightarrow> s' = s"
    by (auto simp: InMemoryRegistration_register_def split: if_splits)
  show "mem_inv s \<Longrightarrow> rs_register InMemoryRegistrationStore a p s = (Ok (), s') \<Longrightarrow>
      ar_find_by_username InMemoryAccountRepository (Username_as_str u) s' =
        (if u = acc_username a then Ok (Some a)
         else ar_find_by_username InMemoryAccountRepository (Username_as_str u) s)"
    using mem_register_account [of s a p s' "Username_as_str u"] by (simp add: Username_as_str_inject)
  show "mem_inv s \<Longrightarrow> rs_register InMemoryRegistrationStore a p s = (Ok (), s') \<Longrightarrow>
      pr_find_by_account InMemoryPlayerRepository i s' =
        (if i = pl_account_id p then Ok (Some p) else pr_find_by_account InMemoryPlayerRepository i s)"
    using mem_register_player [of s a p s' i] by simp
  show "mem_inv s \<Longrightarrow>
      ar_find_by_username InMemoryAccountRepository (Username_as_str (acc_username a)) s = Ok (Some b) \<Longrightarrow>
      is_err (fst (rs_register InMemoryRegistrationStore a p s))"
    using mem_register_taken [of s a b p] by simp
  show "\<exists>r. ar_find_by_username InMemoryAccountRepository name s = Ok r"
    by (simp add: InMemoryAccount_find_by_username_def)
  show "mem_inv s \<Longrightarrow> ar_find_by_username InMemoryAccountRepository (Username_as_str u) s = Ok (Some a) \<Longrightarrow>
      acc_username a = u"
    using mem_find_username [of s "Username_as_str u" a]
    by (auto simp: InMemoryAccount_find_by_username_def Username_as_str_inject)
  show "\<exists>r. pr_find_by_account InMemoryPlayerRepository i s = Ok r"
    by (simp add: InMemoryPlayer_find_by_account_def)
  show "mem_inv s \<Longrightarrow> pr_find_by_account InMemoryPlayerRepository i s = Ok (Some p) \<Longrightarrow> pl_account_id p = i"
    using mem_find_account [of s i p] by (auto simp: InMemoryPlayer_find_by_account_def)
  show "mem_inv s \<Longrightarrow> mem_inv (snd (pr_record_login InMemoryPlayerRepository pid at s))"
    by (simp add: mem_login_inv)
  show "mem_inv s \<Longrightarrow> pr_find_by_account InMemoryPlayerRepository acc s = Ok (Some p) \<Longrightarrow>
      fst (pr_record_login InMemoryPlayerRepository (pl_id p) at s) = Ok (Some (Player_record_login at p)) \<and>
      pr_find_by_account InMemoryPlayerRepository acc
        (snd (pr_record_login InMemoryPlayerRepository (pl_id p) at s)) = Ok (Some (Player_record_login at p))"
    using mem_login_player [of s acc p at] by simp
  show "ar_find_by_username InMemoryAccountRepository name
      (snd (pr_record_login InMemoryPlayerRepository pid at s)) =
      ar_find_by_username InMemoryAccountRepository name s"
    by (simp add: InMemoryAccount_find_by_username_def InMemoryPlayer_record_login_def Let_def split: option.split)
qed simp_all

end
