(* ===== verification/LX_TokenIndex.thy ===== *)
theory LX_TokenIndex
  imports LX_Ports LX_HashMap
begin

text \<open>
  What the token stores in the memory of the process share: a map from tokens to entries and a
  map from players to their tokens. An entry names its owner; \<open>index_inv\<close> says that the two
  maps agree, and the lemmas give the effect of the two moves every such store is made of:
  forgetting the tokens of a player, and issuing a fresh one after that.
\<close>

type_synonym 'e token_index = "(rstring, 'e) hmap"
type_synonym player_index = "(player_id, rstring list) hmap"

definition index_inv :: "('e \<Rightarrow> player_id) \<Rightarrow> 'e token_index \<Rightarrow> player_index \<Rightarrow> bool" where
  "index_inv owner m ix \<longleftrightarrow>
     hm_wf m \<and> hm_wf ix \<and>
     (\<forall>t e. hm_get m t = Some e \<longrightarrow> (\<exists>ts. hm_get ix (owner e) = Some ts \<and> t \<in> set ts)) \<and>
     (\<forall>p ts t e. hm_get ix p = Some ts \<longrightarrow> t \<in> set ts \<longrightarrow> hm_get m t = Some e \<longrightarrow> owner e = p)"

definition index_known :: "rstring \<Rightarrow> 'e token_index \<Rightarrow> player_index \<Rightarrow> bool" where
  "index_known t m ix \<longleftrightarrow> hm_get m t \<noteq> None \<or> (\<exists>p ts. hm_get ix p = Some ts \<and> t \<in> set ts)"

definition index_forget :: "player_id \<Rightarrow> 'e token_index \<Rightarrow> player_index \<Rightarrow> 'e token_index" where
  "index_forget p m ix = fold hm_remove (case hm_get ix p of None \<Rightarrow> [] | Some ts \<Rightarrow> ts) m"

lemma hm_get_fold_remove:
  "hm_get (fold hm_remove ks m) k = (if k \<in> set ks then None else hm_get m k)"
  by (induction ks arbitrary: m) auto

lemma hm_wf_fold_remove [simp, intro]: "hm_wf m \<Longrightarrow> hm_wf (fold hm_remove ks m)"
  by (induction ks arbitrary: m) auto

lemma index_inv_empty [lx_inv]: "index_inv owner [] []"
  by (simp add: index_inv_def)

text \<open>Forgetting a player deletes exactly the entries the player owns.\<close>

lemma index_forget_get:
  assumes "index_inv owner m ix"
  shows "hm_get (index_forget p m ix) t =
    (case hm_get m t of Some e \<Rightarrow> if owner e = p then None else Some e | None \<Rightarrow> None)"
proof (cases "hm_get ix p")
  case None
  have "owner e \<noteq> p" if "hm_get m t = Some e" for e
    using assms that None unfolding index_inv_def by (metis option.distinct(1))
  with None show ?thesis by (auto simp: index_forget_def split: option.split)
next
  case (Some ts)
  have "t \<in> set ts \<longleftrightarrow> owner e = p" if "hm_get m t = Some e" for e
    using assms that Some unfolding index_inv_def by (metis option.inject)
  with Some show ?thesis by (auto simp: index_forget_def hm_get_fold_remove split: option.split)
qed

lemma index_forget_inv:
  assumes inv: "index_inv owner m ix"
  shows "index_inv owner (index_forget p m ix) (hm_remove p ix)"
proof -
  have "hm_wf (index_forget p m ix)" using inv by (simp add: index_inv_def index_forget_def)
  with inv show ?thesis
    unfolding index_inv_def index_forget_get [OF inv] by (auto split: option.splits if_splits)
qed

text \<open>Issuing a fresh token to a player who has none.\<close>

lemma index_issue_inv:
  assumes inv: "index_inv owner m ix" and fresh: "\<not> index_known t m ix"
  shows "index_inv owner (hm_insert t e (index_forget (owner e) m ix))
    (hm_insert (owner e) [t] (hm_remove (owner e) ix))"
proof -
  let ?p = "owner e" and ?m = "index_forget (owner e) m ix" and ?ix = "hm_remove (owner e) ix"
  have f: "index_inv owner ?m ?ix" using inv by (rule index_forget_inv)
  have own: "owner e' \<noteq> ?p" if "hm_get ?m u = Some e'" for u e'
    using that by (auto simp: index_forget_get [OF inv] split: option.splits if_splits)
  have new: "t \<notin> set ts" if "hm_get ?ix q = Some ts" for q ts
    using that fresh by (auto simp: index_known_def split: if_splits)
  have "\<exists>ts. hm_get (hm_insert ?p [t] ?ix) (owner e') = Some ts \<and> u \<in> set ts"
    if "hm_get (hm_insert t e ?m) u = Some e'" for u e'
  proof (cases "u = t")
    case False
    with that have g: "hm_get ?m u = Some e'" by simp
    with f obtain ts where "hm_get ?ix (owner e') = Some ts" "u \<in> set ts" unfolding index_inv_def by blast
    with own [OF g] show ?thesis by simp
  qed (use that in simp)
  moreover have "owner e' = q"
    if "hm_get (hm_insert ?p [t] ?ix) q = Some ts" "u \<in> set ts" "hm_get (hm_insert t e ?m) u = Some e'" for q ts u e'
  proof (cases "q = ?p")
    case False
    with that(1) have g: "hm_get ?ix q = Some ts" by simp
    with new that(2,3) have "hm_get ?m u = Some e'" by (auto split: if_splits)
    with f g that(2) show ?thesis unfolding index_inv_def by blast
  qed (use that in auto)
  moreover have "hm_wf ?m" "hm_wf ?ix" using f unfolding index_inv_def by blast+
  ultimately show ?thesis unfolding index_inv_def by blast
qed

end
