(* ===== verification/LX_TokenStore.thy ===== *)
theory LX_TokenStore
  imports LX_TokenIndex
begin

text \<open>
  \<^verbatim>\<open>crates/infrastructure/src/cache/memory_token_store.rs\<close>: the in-memory session token store.
  Its two indices are kept consistent by \<open>token_inv\<close>, and it fulfils the contract
  \<open>session_token_store\<close>.
\<close>

record token_entry =
  te_player_id :: player_id
  te_expires_at :: instant

record token_state =
  ts_by_token :: "token_entry token_index"
  ts_by_player :: player_index

definition InMemoryTokenStore_new :: token_state where
  "InMemoryTokenStore_new = \<lparr>ts_by_token = [], ts_by_player = []\<rparr>"

definition live_tokens :: "instant \<Rightarrow> token_state \<Rightarrow> nat \<times> token_state" where
  "live_tokens now s =
     (let kept = hm_retain (\<lambda>_ e. te_expires_at e > now) (ts_by_token s)
      in (length kept, s\<lparr>ts_by_token := kept\<rparr>))"

text \<open>\<open>hex2\<close> is the format \<^verbatim>\<open>{byte:02x}\<close>: two lower-case digits.\<close>

definition hex_digit :: "nat \<Rightarrow> uchar" where
  "hex_digit n = (if n < 10 then 0x30 + n else 0x57 + n)"

definition hex2 :: "u8 \<Rightarrow> rstring" where
  "hex2 b = [hex_digit (unat b div 16), hex_digit (unat b mod 16)]"

definition random_token :: "u8 list \<Rightarrow> rstring" where
  "random_token bytes = concat (map hex2 bytes)"

definition checked_add :: "instant \<Rightarrow> instant \<Rightarrow> duration \<Rightarrow> instant option" where
  "checked_add imax now ttl = (if now + ttl \<le> imax then Some (now + ttl) else None)"

definition InMemoryTokenStore_revoke_player ::
  "player_id \<Rightarrow> token_state \<Rightarrow> (unit, app_error) result \<times> token_state" where
  "InMemoryTokenStore_revoke_player p s =
     (case hm_get (ts_by_player s) p of
        None \<Rightarrow> (Ok (), s)
      | Some tokens \<Rightarrow>
          (Ok (), s\<lparr>ts_by_player := hm_remove p (ts_by_player s),
                     ts_by_token := fold hm_remove tokens (ts_by_token s)\<rparr>))"

definition InMemoryTokenStore_create ::
  "instant \<Rightarrow> u8 list \<Rightarrow> instant \<Rightarrow> player_id \<Rightarrow> duration \<Rightarrow> token_state
     \<Rightarrow> (rstring, app_error) result \<times> token_state" where
  "InMemoryTokenStore_create imax bytes now p ttl s =
     (let token = random_token bytes in
      case checked_add imax now ttl of
        None \<Rightarrow> (Err (Validation msg_ttl_too_big), s)
      | Some expires_at \<Rightarrow>
          (let s1 = (case hm_get (ts_by_player s) p of
                       None \<Rightarrow> s
                     | Some tokens \<Rightarrow>
                         s\<lparr>ts_by_player := hm_remove p (ts_by_player s),
                            ts_by_token := fold hm_remove tokens (ts_by_token s)\<rparr>);
               mine = (case hm_get (ts_by_player s1) p of None \<Rightarrow> [] | Some ts \<Rightarrow> ts)
           in (Ok token,
               s1\<lparr>ts_by_player := hm_insert p (mine @ [token]) (ts_by_player s1),
                  ts_by_token := hm_insert token \<lparr>te_player_id = p, te_expires_at = expires_at\<rparr> (ts_by_token s1)\<rparr>)))"

definition InMemoryTokenStore_resolve ::
  "instant \<Rightarrow> rstring \<Rightarrow> token_state \<Rightarrow> (player_id option, app_error) result" where
  "InMemoryTokenStore_resolve now token s =
     Ok (case hm_get (ts_by_token s) token of
           None \<Rightarrow> None
         | Some e \<Rightarrow> if te_expires_at e > now then Some (te_player_id e) else None)"

definition InMemoryTokenStore :: "instant \<Rightarrow> token_state token_store" where
  "InMemoryTokenStore imax =
     \<lparr>tk_create = InMemoryTokenStore_create imax, tk_resolve = InMemoryTokenStore_resolve,
      tk_revoke_player = InMemoryTokenStore_revoke_player\<rparr>"

section \<open>The invariant of the two indices\<close>

definition token_inv :: "token_state \<Rightarrow> bool" where
  "token_inv s \<longleftrightarrow> index_inv te_player_id (ts_by_token s) (ts_by_player s)"

definition token_known :: "rstring \<Rightarrow> token_state \<Rightarrow> bool" where
  "token_known t s \<longleftrightarrow> index_known t (ts_by_token s) (ts_by_player s)"

lemma token_inv_new [lx_inv]: "token_inv InMemoryTokenStore_new"
  by (simp add: token_inv_def InMemoryTokenStore_new_def lx_inv)

lemma token_known_new [simp]: "\<not> token_known t InMemoryTokenStore_new"
  by (simp add: token_known_def index_known_def InMemoryTokenStore_new_def)

text \<open>Both operations first forget the tokens of the player.\<close>

definition forget_player :: "player_id \<Rightarrow> token_state \<Rightarrow> token_state" where
  "forget_player p s =
     s\<lparr>ts_by_player := hm_remove p (ts_by_player s), ts_by_token := index_forget p (ts_by_token s) (ts_by_player s)\<rparr>"

lemma hm_remove_absent: "hm_get m k = None \<Longrightarrow> hm_remove k m = m"
  by (simp add: hm_get_None_iff hm_remove_def delete_id)

lemma revoke_forgets: "InMemoryTokenStore_revoke_player p s = (Ok (), forget_player p s)"
  by (simp add: InMemoryTokenStore_revoke_player_def forget_player_def index_forget_def hm_remove_absent
      split: option.split)

lemma create_Ok:
  "InMemoryTokenStore_create imax bytes now p ttl s =
     (if now + ttl \<le> imax
      then (Ok (random_token bytes),
            (forget_player p s)
              \<lparr>ts_by_player := hm_insert p [random_token bytes] (ts_by_player (forget_player p s)),
               ts_by_token := hm_insert (random_token bytes) \<lparr>te_player_id = p, te_expires_at = now + ttl\<rparr>
                                 (ts_by_token (forget_player p s))\<rparr>)
      else (Err (Validation msg_ttl_too_big), s))"
  by (auto simp: InMemoryTokenStore_create_def checked_add_def forget_player_def index_forget_def
      hm_remove_absent Let_def split: option.splits)

interpretation memory_tokens: session_token_store
  "InMemoryTokenStore_create imax" InMemoryTokenStore_resolve InMemoryTokenStore_revoke_player
  random_token token_known token_inv "\<lambda>now ttl at. at < now + ttl"
proof
  show "token_inv s \<Longrightarrow> \<not> token_known (random_token bytes) s \<Longrightarrow>
      token_inv (snd (InMemoryTokenStore_create imax bytes now p ttl s))" for s bytes now p ttl
    using index_issue_inv [of te_player_id "ts_by_token s" "ts_by_player s" "random_token bytes"
        "\<lparr>te_player_id = p, te_expires_at = now + ttl\<rparr>"]
    by (simp add: token_inv_def token_known_def create_Ok forget_player_def)
  show "InMemoryTokenStore_create imax bytes now p ttl s = (Ok t, s') \<Longrightarrow> t = random_token bytes"
    for bytes now p ttl s t s'
    by (auto simp: create_Ok split: if_splits)
  show "InMemoryTokenStore_create imax bytes now p ttl s = (Err e, s') \<Longrightarrow> s' = s" for bytes now p ttl s e s'
    by (auto simp: create_Ok split: if_splits)
  show "token_inv s \<Longrightarrow> token_inv (snd (InMemoryTokenStore_revoke_player p s))" for s p
    by (simp add: revoke_forgets token_inv_def forget_player_def index_forget_inv)
  show "fst (InMemoryTokenStore_revoke_player p s) = Ok ()" for p s
    by (simp add: revoke_forgets)
  show "token_inv s \<Longrightarrow> InMemoryTokenStore_resolve at t (snd (InMemoryTokenStore_revoke_player p s)) =
      (if InMemoryTokenStore_resolve at t s = Ok (Some p) then Ok None else InMemoryTokenStore_resolve at t s)"
    for s at t p
    by (auto simp: InMemoryTokenStore_resolve_def revoke_forgets forget_player_def token_inv_def index_forget_get
        split: option.splits)
  show "token_inv s \<Longrightarrow> \<not> token_known (random_token bytes) s \<Longrightarrow>
      InMemoryTokenStore_create imax bytes now p ttl s = (Ok t, s') \<Longrightarrow>
      InMemoryTokenStore_resolve at t' s' =
        (if t' = t then Ok (if at < now + ttl then Some p else None)
         else if InMemoryTokenStore_resolve at t' s = Ok (Some p) then Ok None
         else InMemoryTokenStore_resolve at t' s)" for s bytes now p ttl t s' at t'
    by (auto simp: create_Ok InMemoryTokenStore_resolve_def forget_player_def token_inv_def index_forget_get
        split: option.splits if_splits)
qed

section \<open>Tokens\<close>

lemma hex_digit_inject: "m < 16 \<Longrightarrow> n < 16 \<Longrightarrow> hex_digit m = hex_digit n \<longleftrightarrow> m = n"
  by (auto simp: hex_digit_def)

lemma unat_u8_bound: "unat (b :: u8) < 256"
  using unsigned_less [of b] by simp

lemma hex2_inject: "hex2 a = hex2 b \<longleftrightarrow> a = b"
proof
  assume h: "hex2 a = hex2 b"
  have "unat a div 16 < 16" "unat b div 16 < 16" using unat_u8_bound [of a] unat_u8_bound [of b] by auto
  with h have "unat a div 16 = unat b div 16" "unat a mod 16 = unat b mod 16"
    by (simp_all add: hex2_def hex_digit_inject)
  then have "unat a = unat b" by (metis div_mult_mod_eq)
  then show "a = b" by (simp add: word_unat_eq_iff)
qed simp

lemma random_token_inject: "random_token xs = random_token ys \<Longrightarrow> length xs = length ys \<Longrightarrow> xs = ys"
proof (induction xs ys rule: list_induct2')
  case (4 x xs y ys)
  then have "hex2 x = hex2 y \<and> random_token xs = random_token ys"
    by (auto simp: random_token_def hex2_def)
  with 4 show ?case by (simp add: hex2_inject)
qed auto

lemma length_random_token: "length (random_token bytes) = 2 * length bytes"
  by (induction bytes) (simp_all add: random_token_def hex2_def)

lemma random_token_chars:
  "c \<in> set (random_token bytes) \<Longrightarrow> is_ascii_digit c \<or> (0x61 \<le> c \<and> c \<le> 0x66)"
proof (induction bytes)
  case (Cons b bytes)
  have "unat b div 16 < 16" using unat_u8_bound [of b] by auto
  moreover have "unat b mod 16 < 16" by simp
  ultimately have "\<forall>c \<in> set (hex2 b). is_ascii_digit c \<or> (0x61 \<le> c \<and> c \<le> 0x66)"
    by (auto simp: hex2_def hex_digit_def is_ascii_digit_def)
  with Cons show ?case by (auto simp: random_token_def)
qed (simp add: random_token_def)

text \<open>A token needs no trimming and is not empty.\<close>

lemma trim_random_token: "trim (random_token bytes) = random_token bytes"
  by (rule trim_no_white) (auto dest!: random_token_chars simp: is_ascii_digit_def is_whitespace_def)

lemma random_token_nonempty: "bytes \<noteq> [] \<Longrightarrow> random_token bytes \<noteq> []"
  using length_random_token [of bytes] by (cases bytes) auto

text \<open>
  Issuing a token replaces the session of the player and nothing else: from a consistent
  store and with a fresh token, a successful create answers that token; it resolves to the
  player until it expires; every older token of the player stops resolving at once; the
  tokens of all other players resolve as before; and the store stays consistent.
\<close>

theorem token_create_replaces:
  assumes "token_inv s" and "\<not> token_known (random_token bytes) s"
    and "InMemoryTokenStore_create imax bytes now p ttl s = (Ok t, s')"
  shows "t = random_token bytes \<and> token_inv s' \<and>
    (\<forall>at t'. InMemoryTokenStore_resolve at t' s' =
       (if t' = t then Ok (if at < now + ttl then Some p else None)
        else if InMemoryTokenStore_resolve at t' s = Ok (Some p) then Ok None
        else InMemoryTokenStore_resolve at t' s))"
  using memory_tokens.create_token [OF assms(3)] memory_tokens.create_inv [OF assms(1,2), of imax now p ttl]
    memory_tokens.create_resolve [OF assms] assms(3)
  by simp

text \<open>Witness: the first token of a fresh store.\<close>

theorem token_create_replaces_witness:
  "InMemoryTokenStore_resolve 9 (random_token [1])
     (snd (InMemoryTokenStore_create 100 [1] 5 (PlayerId 7) 10 InMemoryTokenStore_new)) = Ok (Some (PlayerId 7))"
proof -
  have c: "InMemoryTokenStore_create 100 [1] 5 (PlayerId 7) 10 InMemoryTokenStore_new =
      (Ok (random_token [1]), snd (InMemoryTokenStore_create 100 [1] 5 (PlayerId 7) 10 InMemoryTokenStore_new))"
    by (simp add: create_Ok prod_eq_iff)
  have "\<not> token_known (random_token [1]) InMemoryTokenStore_new"
    by simp
  from token_create_replaces [OF token_inv_new this c] show ?thesis by simp
qed

end
