(* ===== verification/LX_Auth.thy ===== *)
theory LX_Auth
  imports LX_MemoryRepos LX_TokenStore
begin

text \<open>
  \<^verbatim>\<open>crates/application/src/auth\<close> and \<^verbatim>\<open>crates/application/src/player\<close>: the registration, login, profile and
  progression use cases, over the trait objects of \<open>LX_Ports\<close>. The store of users, the
  token store, the audit log and the event bus are passed along explicitly. The locale
  \<open>auth_backend\<close> joins the contracts of the stores; what the use cases guarantee over every
  backend with these contracts is proved there and holds for the in-memory one.
\<close>

section \<open>Registration\<close>

definition audit_success ::
  "'l audit_logger \<Rightarrow> player \<Rightarrow> username \<Rightarrow> 'l \<Rightarrow> 'l" where
  "audit_success AL p name l =
     snd (al_record AL (Some (pl_id p)) (ascii ''register'')
            ([0x7B, 0x22] @ ascii ''username'' @ [0x22, 0x3A, 0x22] @ Username_as_str name @ [0x22, 0x7D]) l)"

definition RegisterUseCase_execute ::
  "'s account_repository \<Rightarrow> 's registration_store \<Rightarrow> password_hasher \<Rightarrow> 'l audit_logger \<Rightarrow> uuid \<Rightarrow> uuid
     \<Rightarrow> datetime \<Rightarrow> datetime \<Rightarrow> register_command \<Rightarrow> 's \<Rightarrow> 'l \<Rightarrow> (register_result, app_error) result \<times> 's \<times> 'l" where
  "RegisterUseCase_execute AR RS PH AL fresh_account fresh_player now1 now2 cmd s l =
     (case Username_try_new (rc_username cmd) of
        Err e \<Rightarrow> (Err (AppError_from_domain e), s, l)
      | Ok name \<Rightarrow>
     (case Nickname_try_new (rc_nickname cmd) of
        Err e \<Rightarrow> (Err (AppError_from_domain e), s, l)
      | Ok nick \<Rightarrow>
     (case PlainPassword_try_new (rc_password cmd) of
        Err e \<Rightarrow> (Err (AppError_from_domain e), s, l)
      | Ok password \<Rightarrow>
     (case ar_find_by_username AR (Username_as_str name) s of
        Err e \<Rightarrow> (Err (AppError_from_repo e), s, l)
      | Ok (Some _) \<Rightarrow> (Err (Conflict msg_username_taken), s, l)
      | Ok None \<Rightarrow>
     (case ph_hash PH (PlainPassword_expose password) of
        Err e \<Rightarrow> (Err e, s, l)
      | Ok h \<Rightarrow>
          (let account = Account_register fresh_account name (PasswordHash_new h) now1;
               player = Player_create fresh_player (acc_id account) nick now2
           in case rs_register RS account player s of
                (Err e, s') \<Rightarrow> (Err e, s', l)
              | (Ok _, s') \<Rightarrow>
                  (Ok \<lparr>rr_account_id = acc_id account, rr_player_id = pl_id player,
                       rr_nickname = Nickname_as_str (pl_nickname player)\<rparr>,
                   s', audit_success AL player (acc_username account) l)))))))"

section \<open>Login\<close>

record ('s, 't, 'l) login_deps =
  ld_accounts :: "'s account_repository"
  ld_players :: "'s player_repository"
  ld_tokens :: "'t token_store"
  ld_hasher :: password_hasher
  ld_audit :: "'l audit_logger"

definition load_account :: "'s account_repository \<Rightarrow> rstring \<Rightarrow> 's \<Rightarrow> (account, app_error) result" where
  "load_account AR name s =
     and_then (map_err AppError_from_repo (ar_find_by_username AR name s))
       (\<lambda>a. ok_or a (Unauthorized msg_bad_credentials))"

definition ensure_login_allowed :: "datetime \<Rightarrow> account \<Rightarrow> (unit, app_error) result" where
  "ensure_login_allowed now a =
     (if allows_login (acc_status a) now then Ok () else Err (Forbidden msg_login_forbidden))"

definition load_player :: "'s player_repository \<Rightarrow> account_id \<Rightarrow> 's \<Rightarrow> (player, app_error) result" where
  "load_player PR acc s =
     and_then (map_err AppError_from_repo (pr_find_by_account PR acc s))
       (\<lambda>p. ok_or p (Internal msg_profile_missing))"

definition audit_login :: "'l audit_logger \<Rightarrow> player \<Rightarrow> 'l \<Rightarrow> 'l" where
  "audit_login AL p l = snd (al_record AL (Some (pl_id p)) (ascii ''login'') (ascii ''{}'') l)"

definition as_secs :: "duration \<Rightarrow> u64" where
  "as_secs d = word_of_int (d div 1000000000)"

definition LoginUseCase_execute ::
  "('s, 't, 'l) login_deps \<Rightarrow> duration \<Rightarrow> datetime \<Rightarrow> datetime \<Rightarrow> instant \<Rightarrow> u8 list \<Rightarrow> login_command
     \<Rightarrow> 's \<Rightarrow> 't \<Rightarrow> 'l \<Rightarrow> (login_result, app_error) result \<times> 's \<times> 't \<times> 'l" where
  "LoginUseCase_execute deps token_ttl now_check now_login now bytes cmd s t l =
     (case Username_try_new (lc_username cmd) of
        Err e \<Rightarrow> (Err (AppError_from_domain e), s, t, l)
      | Ok name \<Rightarrow>
     (case load_account (ld_accounts deps) (Username_as_str name) s of
        Err e \<Rightarrow> (Err e, s, t, l)
      | Ok account \<Rightarrow>
     (case ensure_login_allowed now_check account of
        Err e \<Rightarrow> (Err e, s, t, l)
      | Ok _ \<Rightarrow>
     (case ph_verify (ld_hasher deps) (lc_password cmd) (PasswordHash_expose (acc_password_hash account)) of
        Err e \<Rightarrow> (Err e, s, t, l)
      | Ok False \<Rightarrow> (Err (Unauthorized msg_bad_credentials), s, t, l)
      | Ok True \<Rightarrow>
     (case load_player (ld_players deps) (acc_id account) s of
        Err e \<Rightarrow> (Err e, s, t, l)
      | Ok found \<Rightarrow>
     (case pr_record_login (ld_players deps) (pl_id found) now_login s of
        (Err e, s') \<Rightarrow> (Err (AppError_from_repo e), s', t, l)
      | (Ok None, s') \<Rightarrow> (Err (Internal msg_profile_missing), s', t, l)
      | (Ok (Some player), s') \<Rightarrow>
     (case tk_create (ld_tokens deps) bytes now (pl_id player) token_ttl t of
        (Err e, t') \<Rightarrow> (Err e, s', t', l)
      | (Ok token, t') \<Rightarrow>
          (Ok \<lparr>lr_token = token, lr_player_id = pl_id player,
               lr_nickname = Nickname_as_str (pl_nickname player), lr_expires_in_secs = as_secs token_ttl\<rparr>,
           s', t', audit_login (ld_audit deps) player l))))))))"

section \<open>Profile and progression\<close>

definition GetPlayerProfile_execute :: "'s player_repository \<Rightarrow> player_id \<Rightarrow> 's \<Rightarrow> (player_profile, app_error) result" where
  "GetPlayerProfile_execute PR i s =
     and_then (map_err AppError_from_repo (pr_find_by_id PR i s))
       (\<lambda>found. and_then (ok_or found (NotFound msg_player_missing)) (\<lambda>p. Ok (PlayerProfile_from p)))"

definition GainExpUseCase_execute ::
  "'s player_repository \<Rightarrow> 'b event_publisher \<Rightarrow> datetime \<Rightarrow> player_id \<Rightarrow> u64 \<Rightarrow> 's \<Rightarrow> 'b
     \<Rightarrow> (player_profile, app_error) result \<times> 's \<times> 'b" where
  "GainExpUseCase_execute PR EP now i amount s b =
     (if amount = 0 then (Err (Validation msg_exp_positive), s, b)
      else case pr_gain_exp PR i amount s of
             (Err e, s') \<Rightarrow> (Err (AppError_from_repo e), s', b)
           | (Ok None, s') \<Rightarrow> (Err (NotFound msg_player_missing), s', b)
           | (Ok (Some (player, new_level)), s') \<Rightarrow>
               (case new_level of
                  None \<Rightarrow> (Ok (PlayerProfile_from player), s', b)
                | Some lv \<Rightarrow>
                    (case ep_publish EP (PlayerLeveledUp i lv now) b of
                       (Err e, b') \<Rightarrow> (Err (PostCommit (AppError_display e)), s', b')
                     | (Ok _, b') \<Rightarrow> (Ok (PlayerProfile_from player), s', b'))))"

section \<open>What holds over every backend\<close>

text \<open>The documented law of the password hasher: a password verifies against its own hash.\<close>

definition hasher_sound :: "password_hasher \<Rightarrow> bool" where
  "hasher_sound PH \<longleftrightarrow> (\<forall>pw h. ph_hash PH pw = Ok h \<longrightarrow> ph_verify PH pw h = Ok True)"

lemma register_Ok:
  assumes "RegisterUseCase_execute AR RS PH AL fa fp now1 now2 cmd s l = (Ok r, s', l')"
  obtains name nick h where "Username_try_new (rc_username cmd) = Ok name"
    "Nickname_try_new (rc_nickname cmd) = Ok nick" "ph_hash PH (rc_password cmd) = Ok h"
    "ar_find_by_username AR (Username_as_str name) s = Ok None"
    "rs_register RS (Account_register fa name (PasswordHash_new h) now1) (Player_create fp (AccountId fa) nick now2) s = (Ok (), s')"
    "r = \<lparr>rr_account_id = AccountId fa, rr_player_id = PlayerId fp, rr_nickname = Nickname_as_str nick\<rparr>"
    "new_user (Account_register fa name (PasswordHash_new h) now1) (Player_create fp (AccountId fa) nick now2)"
  using assms
  by (auto simp: RegisterUseCase_execute_def Let_def Account_register_def Player_create_def
      PlainPassword_try_new_Ok_iff new_user_def split: result.splits option.splits prod.splits
      dest: Username_try_new_Ok(2) Nickname_try_new_Ok(2))

text \<open>A successful login has issued the token it answers with.\<close>

lemma login_issues:
  assumes "LoginUseCase_execute deps ttl now_check now_login now bytes cmd s t l = (Ok lr, s', t', l')"
  shows "tk_create (ld_tokens deps) bytes now (lr_player_id lr) ttl t = (Ok (lr_token lr), t')"
  using assms
  by (auto simp: LoginUseCase_execute_def split: result.splits option.splits prod.splits bool.splits)

text \<open>A failed login issues no token, if a failed create issues none, and writes no audit record.\<close>

lemma login_failure:
  assumes "LoginUseCase_execute \<lparr>ld_accounts = AR, ld_players = PR, ld_tokens = TS, ld_hasher = PH, ld_audit = AL\<rparr>
      ttl now_check now_login now bytes lcmd s t l = (Err e, s', t', l')"
    and "\<And>bytes now p ttl e t'. tk_create TS bytes now p ttl t = (Err e, t') \<Longrightarrow> t' = t"
  shows "t' = t \<and> l' = l"
  using assms
  by (fastforce simp: LoginUseCase_execute_def split: result.splits option.splits prod.splits bool.splits)

text \<open>
  The backend of the use cases: a user store and a token store. \<open>withdraw\<close> is the revocation at a
  given time, which the use cases do not call.
\<close>

locale auth_backend =
  users: user_store AR PR RS uinv fresh stored_account stored_player stamp_ok +
  tokens: expiring_token_store "tk_create TS" "tk_resolve TS" withdraw token_of known tinv alive
  for AR :: "'s account_repository" and PR :: "'s player_repository" and RS :: "'s registration_store"
    and uinv :: "'s \<Rightarrow> bool" and fresh and stored_account and stored_player and stamp_ok
    and TS :: "'t token_store" and withdraw and token_of and known and tinv and alive
begin

lemma register_atomic_use:
  assumes "uinv s" and "RegisterUseCase_execute AR RS PH AL fa fp now1 now2 cmd s l = (Err e, s', l')"
  shows "s' = s \<and> l' = l"
  using assms users.register_atomic
  by (fastforce simp: RegisterUseCase_execute_def Let_def split: result.splits option.splits prod.splits)

text \<open>A fresh account can log in at once with the password it was registered with.\<close>

lemma register_then_login:
  assumes inv: "uinv s" "tinv now t" and sound: "hasher_sound PH"
    and reg: "RegisterUseCase_execute AR RS PH AL fa fp now1 now2 cmd s l = (Ok r, s', l')"
    and ids: "\<And>a p. acc_id a = AccountId fa \<Longrightarrow> pl_id p = PlayerId fp \<Longrightarrow> fresh a p s"
    and fresh: "\<not> known now (token_of bytes) t"
    and issue: "is_ok (fst (tk_create TS bytes now (PlayerId fp) ttl t))"
    and cred: "lc_username lcmd = rc_username cmd" "lc_password lcmd = rc_password cmd" and stamp: "stamp_ok now_login"
  shows "\<exists>lr s2 t2 l2.
    LoginUseCase_execute \<lparr>ld_accounts = AR, ld_players = PR, ld_tokens = TS, ld_hasher = PH, ld_audit = AL\<rparr>
      ttl now_check now_login now bytes lcmd s' t l' = (Ok lr, s2, t2, l2) \<and>
    lr_player_id lr = rr_player_id r \<and> lr_nickname lr = rr_nickname r \<and> lr_token lr = token_of bytes \<and>
    uinv s2 \<and> tinv now t2 \<and>
    (\<forall>at \<ge> now. tk_resolve TS at (lr_token lr) t2 = Ok (if alive now ttl at then Some (rr_player_id r) else None))"
proof -
  obtain name nick h where n: "Username_try_new (rc_username cmd) = Ok name" and h: "ph_hash PH (rc_password cmd) = Ok h"
    and rs: "rs_register RS (Account_register fa name (PasswordHash_new h) now1) (Player_create fp (AccountId fa) nick now2) s = (Ok (), s')"
    and r: "r = \<lparr>rr_account_id = AccountId fa, rr_player_id = PlayerId fp, rr_nickname = Nickname_as_str nick\<rparr>"
    and new: "new_user (Account_register fa name (PasswordHash_new h) now1) (Player_create fp (AccountId fa) nick now2)"
    by (rule register_Ok [OF reg])
  let ?a = "Account_register fa name (PasswordHash_new h) now1"
  let ?p = "Player_create fp (AccountId fa) nick now2"
  have fr: "fresh ?a ?p s" by (rule ids) (simp_all add: Account_register_def Player_create_def)
  have inv': "uinv s'" using users.register_inv [OF inv(1) new fr] rs by simp
  have fa: "ar_find_by_username AR (Username_as_str name) s' = Ok (Some (stored_account ?a))"
    using users.register_account [OF inv(1) new fr rs, of name] new by (simp add: Account_register_def new_user_def)
  have fp: "pr_find_by_account PR (AccountId fa) s' = Ok (Some (stored_player ?p))"
    using users.register_player [OF inv(1) new fr rs, of "AccountId fa"] by (simp add: Player_create_def)
  let ?q = "stored_player (Player_record_login now_login (stored_player ?p))"
  note lp = users.login_player [OF inv' fp stamp]
  obtain s2 where s2: "pr_record_login PR (PlayerId fp) now_login s' = (Ok (Some ?q), s2)"
    using lp by (cases "pr_record_login PR (pl_id ?p) now_login s'")
      (auto simp: Player_create_def users.stored_player_fields)
  have i2: "uinv s2" using users.login_inv [OF inv', of "PlayerId fp" now_login] s2 by simp
  obtain tok t2 where t2: "tk_create TS bytes now (PlayerId fp) ttl t = (Ok tok, t2)"
    using issue by (cases "tk_create TS bytes now (PlayerId fp) ttl t") (auto simp: is_ok_iff)
  have v: "ph_verify PH (rc_password cmd) h = Ok True" using sound h by (simp add: hasher_sound_def)
  have acc: "acc_id (stored_account ?a) = AccountId fa" "acc_password_hash (stored_account ?a) = PasswordHash h"
    "acc_status (stored_account ?a) = Active"
    by (simp_all add: users.stored_account_fields Account_register_def PasswordHash_new_def)
  have pl: "pl_id (stored_player ?p) = PlayerId fp" "pl_id ?q = PlayerId fp" "pl_nickname ?q = nick"
    by (simp_all add: users.stored_player_fields Player_record_login_def Player_create_def)
  have "tinv now t2" using tokens.issue_inv [OF inv(2) fresh, of "PlayerId fp" ttl] t2 by simp
  with tokens.issue_resolve [OF inv(2) fresh t2] tokens.issue_token [OF t2] i2 show ?thesis
    using s2 t2 v n fa fp cred r acc pl
    by (simp add: LoginUseCase_execute_def load_account_def load_player_def ensure_login_allowed_def ok_or_def)
qed

end

interpretation memory_auth: auth_backend
  InMemoryAccountRepository InMemoryPlayerRepository InMemoryRegistrationStore mem_inv "\<lambda>_ _ _. True" "\<lambda>a. a" "\<lambda>p. p" "\<lambda>_. True"
  "InMemoryTokenStore imax" "\<lambda>_. InMemoryTokenStore_revoke_player" random_token "\<lambda>_. token_known" "\<lambda>_. token_inv"
  "\<lambda>now ttl at. at < now + ttl"
proof -
  have ts: "tk_create (InMemoryTokenStore imax) = InMemoryTokenStore_create imax"
    "tk_resolve (InMemoryTokenStore imax) = InMemoryTokenStore_resolve"
    by (simp_all add: InMemoryTokenStore_def)
  show "auth_backend InMemoryAccountRepository InMemoryPlayerRepository InMemoryRegistrationStore mem_inv
      (\<lambda>_ _ _. True) (\<lambda>a. a) (\<lambda>p. p) (\<lambda>_. True) (InMemoryTokenStore imax) (\<lambda>_. InMemoryTokenStore_revoke_player)
      random_token (\<lambda>_. token_known) (\<lambda>_. token_inv) (\<lambda>now ttl at. at < now + ttl)"
    unfolding auth_backend_def ts
    by (intro conjI memory_users.user_store_axioms memory_tokens.expiring_token_store_axioms)
qed

text \<open>The player a login names is stored, under that id and with that nickname.\<close>

lemma memory_login_player:
  assumes "mem_inv s" and "ld_players deps = InMemoryPlayerRepository"
    and "LoginUseCase_execute deps ttl now_check now_login now bytes cmd s t l = (Ok lr, s', t', l')"
  shows "\<exists>p. InMemoryPlayer_find_by_id (lr_player_id lr) s' = Ok (Some p) \<and> Nickname_as_str (pl_nickname p) = lr_nickname lr \<and>
    pl_id p = lr_player_id lr"
proof -
  obtain i p where r: "InMemoryPlayer_record_login i now_login s = (Ok (Some p), s')"
    "lr_player_id lr = pl_id p" "lr_nickname lr = Nickname_as_str (pl_nickname p)"
    using assms(2,3)
    by (auto simp: LoginUseCase_execute_def InMemoryPlayerRepository_def
        split: result.splits option.splits prod.splits bool.splits)
  then show ?thesis using assms(1)
    by (auto simp: InMemoryPlayer_record_login_def InMemoryPlayer_find_by_id_def mem_inv_def Let_def split: option.splits)
qed

section \<open>Properties of the use cases\<close>

text \<open>
  (C11) Register, then log in: on the in-memory backend, with any password hasher that verifies a
  password against its own hash, an account that was registered successfully can log in at
  once with the same user name and password; the login answers the registered player and
  nickname and a token that resolves to that player until it expires, and both stores stay
  consistent.
\<close>

theorem register_login_resolve:
  assumes "mem_inv s" and "token_inv t" and "hasher_sound PH"
    and "RegisterUseCase_execute InMemoryAccountRepository InMemoryRegistrationStore PH AL fa fp now1 now2 cmd s l
           = (Ok r, s', l')"
    and "\<not> token_known (random_token bytes) t" and "now + ttl \<le> imax"
    and "lc_username lcmd = rc_username cmd" and "lc_password lcmd = rc_password cmd"
  shows "\<exists>lr s2 t2 l2.
    LoginUseCase_execute
      \<lparr>ld_accounts = InMemoryAccountRepository, ld_players = InMemoryPlayerRepository,
       ld_tokens = InMemoryTokenStore imax, ld_hasher = PH, ld_audit = AL\<rparr>
      ttl now_check now_login now bytes lcmd s' t l' = (Ok lr, s2, t2, l2) \<and>
    lr_player_id lr = rr_player_id r \<and> lr_nickname lr = rr_nickname r \<and> mem_inv s2 \<and> token_inv t2 \<and>
    (\<forall>at. InMemoryTokenStore_resolve at (lr_token lr) t2 =
       Ok (if at < now + ttl then Some (rr_player_id r) else None))"
proof -
  have "is_ok (fst (tk_create (InMemoryTokenStore imax) bytes now (PlayerId fp) ttl t))"
    using assms(6) by (simp add: InMemoryTokenStore_def create_Ok)
  from memory_auth.register_then_login [OF assms(1-4) TrueI assms(5) this assms(7,8) TrueI]
  obtain lr s2 t2 l2 where login: "LoginUseCase_execute
      \<lparr>ld_accounts = InMemoryAccountRepository, ld_players = InMemoryPlayerRepository,
       ld_tokens = InMemoryTokenStore imax, ld_hasher = PH, ld_audit = AL\<rparr>
      ttl now_check now_login now bytes lcmd s' t l' = (Ok lr, s2, t2, l2)"
    and lr: "lr_player_id lr = rr_player_id r" "lr_nickname lr = rr_nickname r" "mem_inv s2" "token_inv t2" by blast
  have "InMemoryTokenStore_create imax bytes now (rr_player_id r) ttl t = (Ok (lr_token lr), t2)"
    using login_issues [OF login] lr(1) by (simp add: InMemoryTokenStore_def)
  from memory_tokens.create_resolve [OF assms(2,5) this, of _ "lr_token lr"] login lr show ?thesis by auto
qed

text \<open>Witness: a concrete registration on the empty store, with a hasher that tags the password.\<close>

definition sample_hasher :: password_hasher where
  "sample_hasher = \<lparr>ph_hash = (\<lambda>pw. Ok (0x24 # pw)), ph_verify = (\<lambda>pw h. Ok (h = 0x24 # pw))\<rparr>"

definition sample_audit :: "nat audit_logger" where
  "sample_audit = \<lparr>al_record = (\<lambda>p act detail n. (Ok (), Suc n))\<rparr>"

definition sample_command :: register_command where
  "sample_command = \<lparr>rc_username = ascii ''Alice'', rc_password = ascii ''super-secret'', rc_nickname = ascii ''Al''\<rparr>"

lemma sample_hasher_sound: "hasher_sound sample_hasher"
  by (simp add: hasher_sound_def sample_hasher_def)

definition sample_registered ::
  "(register_result, app_error) result \<times> mem_store \<times> nat" where
  "sample_registered =
     RegisterUseCase_execute InMemoryAccountRepository InMemoryRegistrationStore sample_hasher sample_audit
       1 2 10 11 sample_command mem_store_new 0"

lemma sample_username: "Username_try_new (ascii ''Alice'') = Ok (Username (ascii ''alice''))"
  by (simp add: Username_try_new_def string_eval is_username_char_def)

lemma sample_nickname: "Nickname_try_new (ascii ''Al'') = Ok (Nickname (ascii ''Al''))"
  by (simp add: Nickname_try_new_def string_eval)

lemma sample_password: "PlainPassword_try_new (ascii ''super-secret'') = Ok (PlainPassword (ascii ''super-secret''))"
  by (simp add: PlainPassword_try_new_def string_eval)

lemma sample_registered_ok:
  "fst sample_registered = Ok \<lparr>rr_account_id = AccountId 1, rr_player_id = PlayerId 2, rr_nickname = ascii ''Al''\<rparr>"
  by (simp add: sample_registered_def RegisterUseCase_execute_def sample_command_def sample_username sample_nickname
      sample_password InMemoryAccountRepository_def InMemoryAccount_find_by_username_def mem_store_new_def
      hm_find_def hm_values_def sample_hasher_def Let_def InMemoryRegistrationStore_def
      InMemoryRegistration_register_def hm_contains_def Account_register_def Player_create_def)

theorem register_login_resolve_witness:
  "\<exists>lr s2 t2 l2.
    LoginUseCase_execute
      \<lparr>ld_accounts = InMemoryAccountRepository, ld_players = InMemoryPlayerRepository,
       ld_tokens = InMemoryTokenStore 100, ld_hasher = sample_hasher, ld_audit = sample_audit\<rparr>
      20 30 31 5 [1] \<lparr>lc_username = ascii ''Alice'', lc_password = ascii ''super-secret''\<rparr>
      (fst (snd sample_registered)) InMemoryTokenStore_new (snd (snd sample_registered)) = (Ok lr, s2, t2, l2) \<and>
    lr_player_id lr = PlayerId 2 \<and> InMemoryTokenStore_resolve 24 (lr_token lr) t2 = Ok (Some (PlayerId 2))"
proof -
  have reg: "RegisterUseCase_execute InMemoryAccountRepository InMemoryRegistrationStore sample_hasher sample_audit
       1 2 10 11 sample_command mem_store_new 0 =
     (Ok \<lparr>rr_account_id = AccountId 1, rr_player_id = PlayerId 2, rr_nickname = ascii ''Al''\<rparr>,
      fst (snd sample_registered), snd (snd sample_registered))"
    using sample_registered_ok unfolding sample_registered_def by (metis prod.collapse)
  have k: "\<not> token_known (random_token [1]) InMemoryTokenStore_new"
    by simp
  let ?lcmd = "\<lparr>lc_username = ascii ''Alice'', lc_password = ascii ''super-secret''\<rparr> :: login_command"
  from register_login_resolve [OF mem_inv_new token_inv_new sample_hasher_sound reg k,
      where now = 5 and ttl = 20 and imax = 100 and lcmd = ?lcmd and now_check = 30 and now_login = 31]
  show ?thesis by (force simp: sample_command_def)
qed

text \<open>A login of that account, on stores with room for the token.\<close>

abbreviation sample_login_deps :: "(mem_store, token_state, nat) login_deps" where
  "sample_login_deps \<equiv>
     \<lparr>ld_accounts = InMemoryAccountRepository, ld_players = InMemoryPlayerRepository,
      ld_tokens = InMemoryTokenStore 1000, ld_hasher = sample_hasher, ld_audit = sample_audit\<rparr>"

abbreviation sample_login_command :: login_command where
  "sample_login_command \<equiv> \<lparr>lc_username = rc_username sample_command, lc_password = rc_password sample_command\<rparr>"

lemma sample_login:
  "\<exists>lr s2 t2 l2. LoginUseCase_execute sample_login_deps 50 0 0 2 [0x0A] sample_login_command
     (fst (snd sample_registered)) InMemoryTokenStore_new (snd (snd sample_registered)) = (Ok lr, s2, t2, l2) \<and>
   mem_inv (fst (snd sample_registered)) \<and> \<not> token_known (random_token [0x0A]) InMemoryTokenStore_new"
proof -
  let ?r = "\<lparr>rr_account_id = AccountId 1, rr_player_id = PlayerId 2, rr_nickname = ascii ''Al''\<rparr>"
  have reg: "RegisterUseCase_execute InMemoryAccountRepository InMemoryRegistrationStore sample_hasher sample_audit
       1 2 10 11 sample_command mem_store_new 0 = (Ok ?r, fst (snd sample_registered), snd (snd sample_registered))"
    using sample_registered_ok unfolding sample_registered_def by (metis prod.collapse)
  have k: "\<not> token_known (random_token [0x0A]) InMemoryTokenStore_new"
    by simp
  have issue: "is_ok (fst (tk_create (InMemoryTokenStore 1000) [0x0A] 2 (PlayerId 2) 50 InMemoryTokenStore_new))"
    by (simp add: InMemoryTokenStore_def create_Ok)
  obtain a p where "rs_register InMemoryRegistrationStore a p mem_store_new = (Ok (), fst (snd sample_registered))"
    by (rule register_Ok [OF reg]) blast
  then have "mem_inv (fst (snd sample_registered))"
    using mem_register_inv [OF mem_inv_new, of a p] by (simp add: InMemoryRegistrationStore_def)
  with memory_auth.register_then_login [OF mem_inv_new token_inv_new sample_hasher_sound reg TrueI k issue,
      of sample_login_command 0 0] k show ?thesis by fastforce
qed

text \<open>
  A user name is taken for good: after a successful registration every later registration
  whose user name normalises to the same one (case and surrounding blanks do not matter) is
  answered with a conflict or rejected by an earlier check, and changes neither store nor
  audit log.
\<close>

theorem username_unique:
  assumes "mem_inv s"
    and "RegisterUseCase_execute InMemoryAccountRepository InMemoryRegistrationStore PH AL fa fp now1 now2 cmd s l
           = (Ok r, s', l')"
    and "Username_try_new (rc_username cmd2) = Username_try_new (rc_username cmd)"
  shows "\<exists>e. RegisterUseCase_execute InMemoryAccountRepository InMemoryRegistrationStore PH2 AL2 fa2 fp2 now3 now4
      cmd2 s' l2 = (Err e, s', l2) \<and>
    (is_ok (Nickname_try_new (rc_nickname cmd2)) \<and> is_ok (PlainPassword_try_new (rc_password cmd2))
       \<longrightarrow> e = Conflict msg_username_taken)"
proof -
  obtain name nick h where n: "Username_try_new (rc_username cmd) = Ok name"
    and rs: "rs_register InMemoryRegistrationStore (Account_register fa name (PasswordHash_new h) now1)
               (Player_create fp (AccountId fa) nick now2) s = (Ok (), s')"
    and new: "new_user (Account_register fa name (PasswordHash_new h) now1) (Player_create fp (AccountId fa) nick now2)"
    by (rule register_Ok [OF assms(2)])
  have "ar_find_by_username InMemoryAccountRepository (Username_as_str name) s' =
      Ok (Some (Account_register fa name (PasswordHash_new h) now1))"
    using memory_users.register_account [OF assms(1) new TrueI rs, of name] new
    by (simp add: Account_register_def new_user_def)
  then show ?thesis
    using n assms(3)
    by (cases "Nickname_try_new (rc_nickname cmd2)"; cases "PlainPassword_try_new (rc_password cmd2)")
      (simp_all add: RegisterUseCase_execute_def)
qed

text \<open>Witness: the sample user name cannot be registered again.\<close>

theorem username_unique_witness:
  "\<exists>e. RegisterUseCase_execute InMemoryAccountRepository InMemoryRegistrationStore sample_hasher sample_audit
      3 4 12 13 sample_command (fst (snd sample_registered)) 7 = (Err e, fst (snd sample_registered), 7)"
proof -
  have reg: "RegisterUseCase_execute InMemoryAccountRepository InMemoryRegistrationStore sample_hasher sample_audit
       1 2 10 11 sample_command mem_store_new 0 =
     (Ok \<lparr>rr_account_id = AccountId 1, rr_player_id = PlayerId 2, rr_nickname = ascii ''Al''\<rparr>,
      fst (snd sample_registered), snd (snd sample_registered))"
    using sample_registered_ok unfolding sample_registered_def by (metis prod.collapse)
  from username_unique [OF mem_inv_new reg refl, where ?PH2.0 = sample_hasher and ?AL2.0 = sample_audit and
      ?fa2.0 = 3 and ?fp2.0 = 4 and ?now3.0 = 12 and ?now4.0 = 13 and ?l2.0 = 7]
  show ?thesis by blast
qed

text \<open>
  Failures are atomic: a failed registration changes neither the user store nor the audit
  log, and a failed login leaves every session token and the audit log as they were.
\<close>

theorem auth_failures_atomic:
  "(RegisterUseCase_execute InMemoryAccountRepository InMemoryRegistrationStore PH AL fa fp now1 now2 cmd s l
      = (Err e, s', l') \<longrightarrow> s' = s \<and> l' = l) \<and>
   (LoginUseCase_execute
      \<lparr>ld_accounts = InMemoryAccountRepository, ld_players = InMemoryPlayerRepository,
       ld_tokens = InMemoryTokenStore imax, ld_hasher = PH, ld_audit = AL\<rparr>
      ttl now_check now_login now bytes lcmd s t l = (Err e, s', t', l') \<longrightarrow> t' = t \<and> l' = l)"
proof (intro conjI impI)
  show "s' = s" "l' = l"
    if "RegisterUseCase_execute InMemoryAccountRepository InMemoryRegistrationStore PH AL fa fp now1 now2 cmd s l
      = (Err e, s', l')"
    using that
    by (auto simp: RegisterUseCase_execute_def Let_def InMemoryRegistrationStore_def InMemoryRegistration_register_def
        split: result.splits option.splits prod.splits if_splits)
next
  assume "LoginUseCase_execute
      \<lparr>ld_accounts = InMemoryAccountRepository, ld_players = InMemoryPlayerRepository,
       ld_tokens = InMemoryTokenStore imax, ld_hasher = PH, ld_audit = AL\<rparr>
      ttl now_check now_login now bytes lcmd s t l = (Err e, s', t', l')"
  from login_failure [OF this] show "t' = t" "l' = l"
    using memory_tokens.create_fails by (simp_all add: InMemoryTokenStore_def)
qed

text \<open>Witness: an unknown user name fails to log in.\<close>

theorem auth_failures_atomic_witness:
  "\<exists>e s'. LoginUseCase_execute
      \<lparr>ld_accounts = InMemoryAccountRepository, ld_players = InMemoryPlayerRepository,
       ld_tokens = InMemoryTokenStore 100, ld_hasher = sample_hasher, ld_audit = sample_audit\<rparr>
      20 30 31 5 [1] \<lparr>lc_username = ascii ''Alice'', lc_password = []\<rparr> mem_store_new InMemoryTokenStore_new 0
    = (Err e, s', InMemoryTokenStore_new, 0)"
proof -
  let ?L = "LoginUseCase_execute
      \<lparr>ld_accounts = InMemoryAccountRepository, ld_players = InMemoryPlayerRepository,
       ld_tokens = InMemoryTokenStore 100, ld_hasher = sample_hasher, ld_audit = sample_audit\<rparr>
      20 30 31 5 [1] \<lparr>lc_username = ascii ''Alice'', lc_password = []\<rparr> mem_store_new InMemoryTokenStore_new 0"
  obtain e s' t' l' where L: "?L = (Err e, s', t', l')"
    by (simp add: LoginUseCase_execute_def sample_username load_account_def InMemoryAccountRepository_def
        InMemoryAccount_find_by_username_def mem_store_new_def hm_find_def hm_values_def ok_or_def)
  from auth_failures_atomic [where imax = 100 and PH = sample_hasher and AL = sample_audit and ttl = 20 and
      now_check = 30 and now_login = 31 and now = 5 and bytes = "[1]" and s = mem_store_new and
      t = InMemoryTokenStore_new and l = 0 and e = e and s' = s' and t' = t' and l' = l' and
      lcmd = "\<lparr>lc_username = ascii ''Alice'', lc_password = []\<rparr>"] L
  have "t' = InMemoryTokenStore_new \<and> l' = 0" by blast
  with L show ?thesis by blast
qed

text \<open>
  The status of an account is checked before its password: while an account is suspended or
  banned, a login attempt is answered \<^verbatim>\<open>Forbidden\<close> for every password, right or wrong, and
  changes nothing; for an unknown user name the answer is \<^verbatim>\<open>Unauthorized\<close>.
\<close>

theorem login_status_first:
  assumes "Username_try_new (lc_username lcmd) = Ok name"
  shows "(\<forall>a. ar_find_by_username (ld_accounts deps) (Username_as_str name) s = Ok (Some a) \<and>
        \<not> allows_login (acc_status a) now_check \<longrightarrow>
        LoginUseCase_execute deps ttl now_check now_login now bytes lcmd s t l
          = (Err (Forbidden msg_login_forbidden), s, t, l)) \<and>
    (ar_find_by_username (ld_accounts deps) (Username_as_str name) s = Ok None \<longrightarrow>
        LoginUseCase_execute deps ttl now_check now_login now bytes lcmd s t l
          = (Err (Unauthorized msg_bad_credentials), s, t, l))"
  using assms
  by (simp add: LoginUseCase_execute_def load_account_def ensure_login_allowed_def ok_or_def)

text \<open>Witness: a suspended account and a wrong password.\<close>

definition sample_suspended :: mem_store where
  "sample_suspended =
     mem_store_new\<lparr>ms_accounts := [(1, Account_suspend
        (Account_register 1 (Username (ascii ''alice'')) (PasswordHash_new (ascii ''x'')) 0))]\<rparr>"

theorem login_status_first_witness:
  "LoginUseCase_execute
      \<lparr>ld_accounts = InMemoryAccountRepository, ld_players = InMemoryPlayerRepository,
       ld_tokens = InMemoryTokenStore 100, ld_hasher = sample_hasher, ld_audit = sample_audit\<rparr>
      20 30 31 5 [1] \<lparr>lc_username = ascii ''Alice'', lc_password = ascii ''wrong''\<rparr>
      sample_suspended InMemoryTokenStore_new 0
    = (Err (Forbidden msg_login_forbidden), sample_suspended, InMemoryTokenStore_new, 0)"
proof -
  let ?a = "Account_suspend (Account_register 1 (Username (ascii ''alice'')) (PasswordHash_new (ascii ''x'')) 0)"
  let ?lcmd = "\<lparr>lc_username = ascii ''Alice'', lc_password = ascii ''wrong''\<rparr> :: login_command"
  have n: "Username_try_new (lc_username ?lcmd) = Ok (Username (ascii ''alice''))"
    by (simp add: sample_username)
  have f: "ar_find_by_username InMemoryAccountRepository (ascii ''alice'') sample_suspended = Ok (Some ?a)"
    by (simp add: InMemoryAccountRepository_def InMemoryAccount_find_by_username_def sample_suspended_def
        hm_find_def hm_values_def Account_suspend_def Account_register_def)
  have "\<not> allows_login (acc_status ?a) 30" by (simp add: Account_suspend_def)
  with login_status_first [OF n, where s = sample_suspended and now_check = 30 and
      deps = "\<lparr>ld_accounts = InMemoryAccountRepository, ld_players = InMemoryPlayerRepository,
       ld_tokens = InMemoryTokenStore 100, ld_hasher = sample_hasher, ld_audit = sample_audit\<rparr>"] f
  show ?thesis by auto
qed

text \<open>
  Gaining experience, on the in-memory backend: zero is refused; an unknown player is not
  found; otherwise the player is stored with the experience added, and exactly one level-up
  event is published when the level rose and none otherwise. If the publisher fails, the
  answer is \<^verbatim>\<open>PostCommit\<close> and the new experience stays stored.
\<close>

theorem gain_exp_use_case:
  "(case GainExpUseCase_execute InMemoryPlayerRepository EP now i amount s b of (res, s', b') \<Rightarrow>
     if amount = 0 then res = Err (Validation msg_exp_positive) \<and> s' = s \<and> b' = b
     else case hm_get (ms_players s) (player_uuid i) of
       None \<Rightarrow> res = Err (NotFound msg_player_missing) \<and> s' = s \<and> b' = b
     | Some p \<Rightarrow>
         s' = s\<lparr>ms_players := hm_insert (player_uuid i) (fst (Player_gain_exp amount p)) (ms_players s)\<rparr> \<and>
         (case snd (Player_gain_exp amount p) of
            None \<Rightarrow> b' = b \<and> res = Ok (PlayerProfile_from (fst (Player_gain_exp amount p)))
          | Some lv \<Rightarrow>
              b' = snd (ep_publish EP (PlayerLeveledUp i lv now) b) \<and>
              res = (case fst (ep_publish EP (PlayerLeveledUp i lv now) b) of
                       Ok _ \<Rightarrow> Ok (PlayerProfile_from (fst (Player_gain_exp amount p)))
                     | Err e \<Rightarrow> Err (PostCommit (AppError_display e)))))"
  by (auto simp: GainExpUseCase_execute_def InMemoryPlayerRepository_def InMemoryPlayer_gain_exp_def Let_def
      split: option.splits prod.splits result.splits)

end
