(* ===== verification/LX_Gateway.thy ===== *)
theory LX_Gateway
  imports LX_Gate LX_RoomService LX_Auth
begin

text \<open>
  The TCP gateway, \<^verbatim>\<open>crates/gateway/src/tcp\<close>: connection context, translation of room events, opcode
  handlers, router assembly, the read loop with its admission checks, and the life cycle of a
  connection. A handler maps its context (dependencies and environment) and the pair of connection
  state and shared gateway state to its answer and the new state. The environment record
  supplies what a handler reads from outside: clocks, fresh identifiers, the interference of other
  connections on a room call, and whether a deadline passed first. Metrics and log
  output are left out.
\<close>

section \<open>State\<close>

record authed_player =
  ap_player_id :: player_id
  ap_nickname :: rstring

record auth_state =
  as_player :: "authed_player option"
  as_session_token :: "rstring option"
  as_current_room :: "room_id option"

definition AuthState_default :: auth_state where
  "AuthState_default = \<lparr>as_player = None, as_session_token = None, as_current_room = None\<rparr>"

record conn =
  cn_id :: uuid
  cn_peer_ip :: ip_addr
  cn_outbound :: conn_ref
  cn_room_tx :: sink_ref
  cn_auth :: auth_state

text \<open>The printer and parser of the uuid crate.\<close>

record uuid_lib =
  ul_show :: "uuid \<Rightarrow> rstring"
  ul_parse :: "rstring \<Rightarrow> uuid option"

record ('t, 's, 'q, 'f) gateway_deps =
  gd_prost :: prost
  gd_uuid :: uuid_lib
  gd_tokens :: "'t token_store"
  gd_players :: "'s player_repository"
  gd_events :: "'q event_chan"
  gd_frames :: "'f frame_chan"

record ('t, 's, 'q, 'f) gw =
  gw_tokens :: 't
  gw_users :: 's
  gw_rooms :: "'q world"
  gw_gate :: auth_gate
  gw_conns :: conn_registry
  gw_queues :: "'f queues"

record handler_env =
  ge_now :: instant
  ge_utc :: datetime
  ge_fresh :: uuid
  ge_env :: "env_action list"
  ge_lost :: bool
  ge_full :: bool
  ge_envs :: "nat \<Rightarrow> env_action list \<times> bool"
  ge_timed_out :: bool

type_synonym ('t, 's, 'q, 'f) ctx = "('t, 's, 'q, 'f) gateway_deps \<times> handler_env"
type_synonym ('t, 's, 'q, 'f) cstate = "conn \<times> ('t, 's, 'q, 'f) gw"

section \<open>Connection context\<close>

definition is_authenticated :: "conn \<Rightarrow> bool" where
  "is_authenticated c \<longleftrightarrow> as_player (cn_auth c) \<noteq> None"

definition authed_player_of :: "conn \<Rightarrow> authed_player option" where
  "authed_player_of c = as_player (cn_auth c)"

definition set_authed :: "authed_player \<Rightarrow> rstring \<Rightarrow> conn \<Rightarrow> conn" where
  "set_authed p token c = c\<lparr>cn_auth := (cn_auth c)\<lparr>as_player := Some p, as_session_token := Some token\<rparr>\<rparr>"

definition current_room :: "conn \<Rightarrow> room_id option" where
  "current_room c = as_current_room (cn_auth c)"

definition set_current_room :: "room_id option \<Rightarrow> conn \<Rightarrow> conn" where
  "set_current_room r c = c\<lparr>cn_auth := (cn_auth c)\<lparr>as_current_room := r\<rparr>\<rparr>"

definition validate_session :: "('t, 's, 'q, 'f) ctx \<Rightarrow> ('t, 's, 'q, 'f) cstate \<Rightarrow> bool" where
  "validate_session ctx st =
     (case (as_player (cn_auth (fst st)), as_session_token (cn_auth (fst st))) of
        (Some player, Some token) \<Rightarrow>
          (if ge_timed_out (snd ctx) then False
           else case tk_resolve (gd_tokens (fst ctx)) (ge_now (snd ctx)) token (gw_tokens (snd st)) of
                  Ok (Some i) \<Rightarrow> i = ap_player_id player
                | Ok None \<Rightarrow> False
                | Err e \<Rightarrow> False)
      | _ \<Rightarrow> False)"

definition ctx_try_send ::
  "('t, 's, 'q, 'f) ctx \<Rightarrow> outbound_message \<Rightarrow> ('t, 's, 'q, 'f) cstate
     \<Rightarrow> (unit, protocol_error) result \<times> ('t, 's, 'q, 'f) cstate" where
  "ctx_try_send ctx message st =
     (case GameCodec_encode (gd_prost (fst ctx)) message of
        Err e \<Rightarrow> (Err e, st)
      | Ok f \<Rightarrow>
          (case try_send_frame (gd_frames (fst ctx)) f (gw_queues (snd st) (cn_outbound (fst st))) of (res, s') \<Rightarrow>
             (map_err (\<lambda>e. HandlerError (NetError_display e)) res,
              (fst st, (snd st)\<lparr>gw_queues := (gw_queues (snd st))(cn_outbound (fst st) := s')\<rparr>))))"

section \<open>Translation of room events\<close>

primrec room_event_to_notification :: "uuid_lib \<Rightarrow> room_event \<Rightarrow> room_event_notification" where
  "room_event_to_notification U (MemberJoined r p n) =
     RoomEventNotification (Some (PbMemberJoined (ul_show U (room_uuid r)) (ul_show U (player_uuid p)) n))"
| "room_event_to_notification U (MemberLeft r p) =
     RoomEventNotification (Some (PbMemberLeft (ul_show U (room_uuid r)) (ul_show U (player_uuid p))))"
| "room_event_to_notification U (ChatEvent r p n t) =
     RoomEventNotification (Some (PbRoomChat (ul_show U (room_uuid r)) (ul_show U (player_uuid p)) n t))"
| "room_event_to_notification U (ClosedEvent r reason) =
     RoomEventNotification (Some (PbRoomClosed (ul_show U (room_uuid r)) reason))"

definition room_event_message :: "uuid_lib \<Rightarrow> room_event \<Rightarrow> outbound_message" where
  "room_event_message U ev = OutRoomEvent (room_event_to_notification U ev)"

section \<open>Handlers\<close>

primrec app_error_notification :: "app_error \<Rightarrow> outbound_message" where
  "app_error_notification (Validation m) = error_notification ERR_INVALID_INPUT m"
| "app_error_notification (Unauthorized m) = error_notification ERR_NOT_AUTHENTICATED m"
| "app_error_notification (Forbidden m) = error_notification ERR_FORBIDDEN m"
| "app_error_notification (NotFound m) = error_notification ERR_NOT_FOUND m"
| "app_error_notification (Conflict m) = error_notification ERR_CONFLICT m"
| "app_error_notification Busy = error_notification ERR_SERVER_BUSY txt_busy"
| "app_error_notification RateLimited = error_notification ERR_RATE_LIMITED txt_rate_limited"
| "app_error_notification (PostCommit m) = error_notification ERR_PROTOCOL txt_post_commit"
| "app_error_notification (Storage m) = error_notification ERR_PROTOCOL txt_internal"
| "app_error_notification (Internal m) = error_notification ERR_PROTOCOL txt_internal"

definition parse_optional_room_id :: "uuid_lib \<Rightarrow> rstring option \<Rightarrow> (room_id option, rstring) result" where
  "parse_optional_room_id U raw =
     (case raw of
        None \<Rightarrow> Ok None
      | Some txt' \<Rightarrow>
          (if trim txt' = [] then Ok None
           else case ul_parse U (trim txt') of Some u \<Rightarrow> Ok (Some (RoomId u)) | None \<Rightarrow> Err txt_room_id_invalid))"

definition handle_bind :: "(('t, 's, 'q, 'f) ctx, ('t, 's, 'q, 'f) cstate) handler" where
  "handle_bind ctx message st =
     (case message of
        InBind request \<Rightarrow>
          (if is_authenticated (fst st)
           then (Ok (Some (error_notification ERR_ALREADY_BOUND txt_already_bound)), st)
           else
             (let token = trim (br_token request) in
              if token = [] then (Ok (Some (bind_rejected txt_token_missing)), st)
              else case tk_resolve (gd_tokens (fst ctx)) (ge_now (snd ctx)) token (gw_tokens (snd st)) of
                     Err e \<Rightarrow> (Err (HandlerError (AppError_display e)), st)
                   | Ok None \<Rightarrow> (Ok (Some (bind_rejected txt_token_invalid)), st)
                   | Ok (Some player_id) \<Rightarrow>
                       (case pr_find_by_id (gd_players (fst ctx)) player_id (gw_users (snd st)) of
                          Err e \<Rightarrow> (Err (HandlerError (RepoError_display e)), st)
                        | Ok None \<Rightarrow> (Err (HandlerError txt_token_player_missing), st)
                        | Ok (Some player) \<Rightarrow>
                            (let nick = Nickname_as_str (pl_nickname player)
                             in (Ok (Some (bind_ok (ul_show (gd_uuid (fst ctx)) (player_uuid player_id)) nick)),
                                 (set_authed \<lparr>ap_player_id = player_id, ap_nickname = nick\<rparr> token (fst st), snd st))))))
      | _ \<Rightarrow> (Err (HandlerError txt_bind_route), st))"

definition timestamp_millis :: "datetime \<Rightarrow> i64" where
  "timestamp_millis t = word_of_int (t div 1000000)"

definition handle_heartbeat :: "(('t, 's, 'q, 'f) ctx, ('t, 's, 'q, 'f) cstate) handler" where
  "handle_heartbeat ctx message st =
     (case message of
        InHeartbeat ping \<Rightarrow> (Ok (Some (OutHeartbeatAck (HeartbeatAckMsg (timestamp_millis (ge_utc (snd ctx)))))), st)
      | _ \<Rightarrow> (Err (HandlerError txt_heartbeat_route), st))"

definition handle_join_room :: "(('t, 's, 'q, 'f) ctx, ('t, 's, 'q, 'f) cstate) handler" where
  "handle_join_room ctx message st =
     (case message of
        InJoinRoom request \<Rightarrow>
          (case authed_player_of (fst st) of
             None \<Rightarrow> (Ok (Some (error_notification ERR_NOT_AUTHENTICATED txt_please_bind)), st)
           | Some player \<Rightarrow>
          (case parse_optional_room_id (gd_uuid (fst ctx)) (jr_room_id request) of
             Err m \<Rightarrow> (Ok (Some (error_notification ERR_INVALID_INPUT m)), st)
           | Ok target \<Rightarrow>
          (case current_room (fst st) of
             Some current \<Rightarrow>
               (if target = Some current then (Ok None, st)
                else (Ok (Some (error_notification ERR_CONFLICT txt_leave_current_first)), st))
           | None \<Rightarrow>
          (case join_or_create (gd_events (fst ctx)) (ge_env (snd ctx)) (ge_lost (snd ctx)) (ge_fresh (snd ctx))
                  (ge_utc (snd ctx)) target (ap_player_id player) (ap_nickname player) (cn_room_tx (fst st))
                  (gw_rooms (snd st)) of
             (Ok rid, rooms') \<Rightarrow> (Ok None, (set_current_room (Some rid) (fst st), (snd st)\<lparr>gw_rooms := rooms'\<rparr>))
           | (Err e, rooms') \<Rightarrow> (Ok (Some (app_error_notification e)), (fst st, (snd st)\<lparr>gw_rooms := rooms'\<rparr>))))))
      | _ \<Rightarrow> (Err (HandlerError txt_join_route), st))"

definition reason_client_leave :: rstring where
  "reason_client_leave = ascii ''client leave''"

definition handle_leave_room :: "(('t, 's, 'q, 'f) ctx, ('t, 's, 'q, 'f) cstate) handler" where
  "handle_leave_room ctx message st =
     (case message of
        InLeaveRoom request \<Rightarrow>
          (case authed_player_of (fst st) of
             None \<Rightarrow> (Ok (Some (error_notification ERR_NOT_AUTHENTICATED txt_please_bind)), st)
           | Some player \<Rightarrow>
          (case parse_optional_room_id (gd_uuid (fst ctx)) (lv_room_id request) of
             Err m \<Rightarrow> (Ok (Some (error_notification ERR_INVALID_INPUT m)), st)
           | Ok target \<Rightarrow>
               (let (outcome, c', rooms') =
                  (case target of
                     Some rid \<Rightarrow>
                       (case RoomService_leave (gd_events (fst ctx)) (ge_env (snd ctx)) (ge_lost (snd ctx))
                               (ge_utc (snd ctx)) rid (ap_player_id player) reason_client_leave (gw_rooms (snd st)) of
                          (res, rooms') \<Rightarrow>
                            (res, if is_ok res \<and> current_room (fst st) = Some rid then set_current_room None (fst st)
                                  else fst st, rooms'))
                   | None \<Rightarrow>
                       (case leave_all (gd_events (fst ctx)) (ge_envs (snd ctx)) (ge_utc (snd ctx))
                               (ap_player_id player) reason_client_leave (gw_rooms (snd st)) of
                          (res, rooms') \<Rightarrow> (res, if is_ok res then set_current_room None (fst st) else fst st, rooms')))
                in (case outcome of Ok _ \<Rightarrow> Ok None | Err e \<Rightarrow> Ok (Some (app_error_notification e)),
                    (c', (snd st)\<lparr>gw_rooms := rooms'\<rparr>)))))
      | _ \<Rightarrow> (Err (HandlerError txt_leave_route), st))"

definition handle_room_chat :: "(('t, 's, 'q, 'f) ctx, ('t, 's, 'q, 'f) cstate) handler" where
  "handle_room_chat ctx message st =
     (case message of
        InRoomChat request \<Rightarrow>
          (case authed_player_of (fst st) of
             None \<Rightarrow> (Ok (Some (error_notification ERR_NOT_AUTHENTICATED txt_please_bind)), st)
           | Some player \<Rightarrow>
          (case current_room (fst st) of
             None \<Rightarrow> (Ok (Some (error_notification ERR_NOT_FOUND txt_join_first)), st)
           | Some rid \<Rightarrow>
          (case RoomService_chat (gd_events (fst ctx)) (ge_env (snd ctx)) (ge_full (snd ctx)) (ge_lost (snd ctx)) rid
                  (ap_player_id player) (rq_text request) (gw_rooms (snd st)) of
             (Ok _, rooms') \<Rightarrow> (Ok None, (fst st, (snd st)\<lparr>gw_rooms := rooms'\<rparr>))
           | (Err e, rooms') \<Rightarrow> (Ok (Some (app_error_notification e)), (fst st, (snd st)\<lparr>gw_rooms := rooms'\<rparr>)))))
      | _ \<Rightarrow> (Err (HandlerError txt_chat_route), st))"

definition handle_get_profile :: "(('t, 's, 'q, 'f) ctx, ('t, 's, 'q, 'f) cstate) handler" where
  "handle_get_profile ctx message st =
     (case message of
        InGetProfile request \<Rightarrow>
          (case authed_player_of (fst st) of
             None \<Rightarrow> (Ok (Some (error_notification ERR_NOT_AUTHENTICATED txt_please_bind)), st)
           | Some player \<Rightarrow>
          (case GetPlayerProfile_execute (gd_players (fst ctx)) (ap_player_id player) (gw_users (snd st)) of
             Ok profile \<Rightarrow>
               (Ok (Some (OutProfile (ProfileResponse True
                      (Some (ul_show (gd_uuid (fst ctx)) (player_uuid (pp_player_id profile)))) (Some (pp_nickname profile))
                      (Some (pp_level profile)) (Some (pp_exp profile))
                      (map_option timestamp_millis (pp_last_login_at profile)) None))), st)
           | Err e \<Rightarrow> (Ok (Some (app_error_notification e)), st)))
      | _ \<Rightarrow> (Err (HandlerError txt_profile_route), st))"

definition build_router :: "(('t, 's, 'q, 'f) ctx, ('t, 's, 'q, 'f) cstate) router" where
  "build_router =
     Router_route OP_C2S_GET_PROFILE handle_get_profile
     (Router_route OP_C2S_ROOM_CHAT handle_room_chat
     (Router_route OP_C2S_LEAVE_ROOM handle_leave_room
     (Router_route OP_C2S_JOIN_ROOM handle_join_room
     (Router_route OP_C2S_HEARTBEAT handle_heartbeat
     (Router_route OP_C2S_BIND handle_bind Router_new)))))"

section \<open>Admission of a frame\<close>

text \<open>Sending an answer whose delivery is not checked.\<close>

definition notify :: "('t, 's, 'q, 'f) ctx \<Rightarrow> outbound_message \<Rightarrow> ('t, 's, 'q, 'f) cstate \<Rightarrow> ('t, 's, 'q, 'f) cstate" where
  "notify ctx message st = snd (ctx_try_send ctx message st)"

definition bucket_step :: "(real \<Rightarrow> real) \<Rightarrow> instant \<Rightarrow> token_bucket option \<Rightarrow> bool \<times> token_bucket option" where
  "bucket_step rnd now bucket =
     (case bucket of
        None \<Rightarrow> (True, None)
      | Some b \<Rightarrow> (case try_acquire rnd now b of (ok, b') \<Rightarrow> (ok, Some b')))"

definition admit_frame ::
  "(real \<Rightarrow> real) \<Rightarrow> ('t, 's, 'q, 'f) ctx \<Rightarrow> token_bucket option \<Rightarrow> frame \<Rightarrow> ('t, 's, 'q, 'f) cstate
     \<Rightarrow> bool \<times> token_bucket option \<times> ('t, 's, 'q, 'f) cstate" where
  "admit_frame rnd ctx bucket f st =
     (case bucket_step rnd (ge_now (snd ctx)) bucket of (ok, bucket') \<Rightarrow>
      if \<not> ok then (False, bucket', notify ctx (error_notification ERR_RATE_LIMITED txt_rate_limited) st)
      else case GameCodec_decode (gd_prost (fst ctx)) f of
        Err e \<Rightarrow> (False, bucket', notify ctx (error_notification ERR_PROTOCOL (ProtocolError_display e)) st)
      | Ok message \<Rightarrow>
          if \<not> is_authenticated (fst st) \<and> InboundMessage_opcode message \<noteq> OP_C2S_BIND
          then (False, bucket', notify ctx (error_notification ERR_AUTH_REQUIRED_FIRST txt_bind_first) st)
          else if is_authenticated (fst st) \<and> \<not> validate_session ctx st
          then (False, bucket', notify ctx (error_notification ERR_NOT_AUTHENTICATED txt_session_invalid) st)
          else if is_authenticated (fst st) \<and> InboundMessage_opcode message = OP_C2S_BIND
          then (True, bucket', notify ctx (error_notification ERR_ALREADY_BOUND txt_already_bound) st)
          else case Router_dispatch build_router ctx message st of
                 (Ok (Some reply), st') \<Rightarrow> (case ctx_try_send ctx reply st' of (res, st'') \<Rightarrow> (is_ok res, bucket', st''))
               | (Ok None, st') \<Rightarrow> (True, bucket', st')
               | (Err e, st') \<Rightarrow>
                   (case ctx_try_send ctx (app_error_notification (Internal (ProtocolError_display e))) st' of
                      (res, st'') \<Rightarrow> (is_ok res, bucket', st'')))"

section \<open>A sample gateway\<close>

text \<open>In-memory backends, list channels, the counting codec; used by witnesses.\<close>

definition sample_deps :: "(token_state, mem_store, room_event list_chan, frame list_chan) gateway_deps" where
  "sample_deps =
     \<lparr>gd_prost = count_prost, gd_uuid = \<lparr>ul_show = (\<lambda>u. []), ul_parse = (\<lambda>s. None)\<rparr>,
      gd_tokens = InMemoryTokenStore 1000, gd_players = InMemoryPlayerRepository,
      gd_events = list_mpsc, gd_frames = list_mpsc\<rparr>"

definition sample_env :: handler_env where
  "sample_env =
     \<lparr>ge_now = 3, ge_utc = 3, ge_fresh = 1, ge_env = [], ge_lost = False, ge_full = False,
      ge_envs = (\<lambda>n. ([], False)), ge_timed_out = False\<rparr>"

definition sample_gw :: "(token_state, mem_store, room_event list_chan, frame list_chan) gw" where
  "sample_gw =
     \<lparr>gw_tokens = InMemoryTokenStore_new, gw_users = mem_store_new, gw_rooms = sample_service,
      gw_gate = AuthGate_new 2, gw_conns = [],
      gw_queues = (\<lambda>c. OutboundSender_new \<lparr>lc_items = [], lc_cap = 4, lc_closed = False\<rparr>)\<rparr>"

definition sample_conn :: conn where
  "sample_conn = \<lparr>cn_id = 11, cn_peer_ip = 1, cn_outbound = 0, cn_room_tx = 0, cn_auth = AuthState_default\<rparr>"

definition sample_bound :: conn where
  "sample_bound = set_authed \<lparr>ap_player_id = PlayerId 7, ap_nickname = ascii ''Al''\<rparr> (ascii ''00'') sample_conn"

section \<open>Effects of one frame\<close>

text \<open>
  The shared parts a frame can change. \<open>quiet\<close>: nothing but the outbound queue of this very connection
  differs.
\<close>

definition quiet :: "('t, 's, 'q, 'f) cstate \<Rightarrow> ('t, 's, 'q, 'f) gw \<Rightarrow> bool" where
  "quiet st g' \<longleftrightarrow>
     gw_tokens g' = gw_tokens (snd st) \<and> gw_users g' = gw_users (snd st) \<and> gw_rooms g' = gw_rooms (snd st) \<and>
     gw_gate g' = gw_gate (snd st) \<and> gw_conns g' = gw_conns (snd st) \<and>
     (\<forall>c. c \<noteq> cn_outbound (fst st) \<longrightarrow> gw_queues g' c = gw_queues (snd st) c)"

lemma quiet_refl [simp]: "quiet (c, g) g"
  by (simp add: quiet_def)

lemma GameCodec_encode_ok: "\<exists>f. GameCodec_encode P m = Ok f"
  by (cases m) (simp_all add: GameCodec_encode_def map_ok_def)

lemma ctx_try_send_conn [simp]: "fst (snd (ctx_try_send ctx m st)) = fst st"
  by (auto simp: ctx_try_send_def split: prod.splits result.splits)

lemma ctx_try_send_quiet: "quiet st (snd (snd (ctx_try_send ctx m st)))"
  by (cases st) (auto simp: ctx_try_send_def quiet_def split: prod.splits result.splits)

lemma ctx_try_send_frame [simp]:
  "gw_tokens (snd (snd (ctx_try_send ctx m st))) = gw_tokens (snd st)"
  "gw_users (snd (snd (ctx_try_send ctx m st))) = gw_users (snd st)"
  "gw_rooms (snd (snd (ctx_try_send ctx m st))) = gw_rooms (snd st)"
  "gw_gate (snd (snd (ctx_try_send ctx m st))) = gw_gate (snd st)"
  "gw_conns (snd (snd (ctx_try_send ctx m st))) = gw_conns (snd st)"
  using ctx_try_send_quiet [of st ctx m] by (simp_all add: quiet_def)

lemma notify_conn [simp]: "fst (notify ctx m st) = fst st"
  by (simp add: notify_def)

lemma notify_quiet: "quiet st (snd (notify ctx m st))"
  by (simp add: notify_def ctx_try_send_quiet)

lemma notify_frame [simp]:
  "gw_tokens (snd (notify ctx m st)) = gw_tokens (snd st)"
  "gw_users (snd (notify ctx m st)) = gw_users (snd st)"
  "gw_rooms (snd (notify ctx m st)) = gw_rooms (snd st)"
  "gw_gate (snd (notify ctx m st)) = gw_gate (snd st)"
  "gw_conns (snd (notify ctx m st)) = gw_conns (snd st)"
  by (simp_all add: notify_def)

text \<open>A decoded message is routed by its opcode; the router has exactly the six client opcodes.\<close>

lemma dispatch_simps [simp]:
  "Router_dispatch build_router ctx (InBind a) st = handle_bind ctx (InBind a) st"
  "Router_dispatch build_router ctx (InHeartbeat b) st = handle_heartbeat ctx (InHeartbeat b) st"
  "Router_dispatch build_router ctx (InJoinRoom c) st = handle_join_room ctx (InJoinRoom c) st"
  "Router_dispatch build_router ctx (InLeaveRoom d) st = handle_leave_room ctx (InLeaveRoom d) st"
  "Router_dispatch build_router ctx (InRoomChat e) st = handle_room_chat ctx (InRoomChat e) st"
  "Router_dispatch build_router ctx (InGetProfile f) st = handle_get_profile ctx (InGetProfile f) st"
  by (simp_all add: Router_dispatch_def build_router_def Router_route_def Router_new_def c2s_opcode_defs)

lemma decoded_bind:
  "GameCodec_decode P f = Ok m \<Longrightarrow> InboundMessage_opcode m = OP_C2S_BIND \<Longrightarrow> \<exists>r. m = InBind r"
  using decode_inbound_opcode [of P "fr_opcode f" "fr_payload f" m]
  by (auto simp: GameCodec_decode_def decode_inbound_def map_ok_def split: result.splits)

lemma decoded_unknown:
  "GameCodec_decode P f = Ok (InUnknown opc) \<Longrightarrow>
     opc \<notin> {OP_C2S_BIND, OP_C2S_HEARTBEAT, OP_C2S_JOIN_ROOM, OP_C2S_LEAVE_ROOM, OP_C2S_ROOM_CHAT, OP_C2S_GET_PROFILE}"
  by (auto simp: GameCodec_decode_def decode_inbound_def map_ok_def split: result.splits if_splits)

lemma dispatch_unknown:
  "GameCodec_decode P f = Ok (InUnknown opc) \<Longrightarrow>
     Router_dispatch build_router ctx (InUnknown opc) st = (Err (UnsupportedOpcode opc), st)"
  using decoded_unknown [of P f opc]
  by (simp add: Router_dispatch_def build_router_def Router_route_def Router_new_def)

text \<open>When a BIND succeeds: the presented token names a player who exists.\<close>

definition bind_accepts ::
  "('t, 's, 'q, 'f) ctx \<Rightarrow> ('t, 's, 'q, 'f) gw \<Rightarrow> bind_request \<Rightarrow> authed_player \<Rightarrow> bool" where
  "bind_accepts ctx g request ap \<longleftrightarrow>
     trim (br_token request) \<noteq> [] \<and>
     tk_resolve (gd_tokens (fst ctx)) (ge_now (snd ctx)) (trim (br_token request)) (gw_tokens g) =
       Ok (Some (ap_player_id ap)) \<and>
     (case pr_find_by_id (gd_players (fst ctx)) (ap_player_id ap) (gw_users g) of
        Ok (Some player) \<Rightarrow> ap_nickname ap = Nickname_as_str (pl_nickname player)
      | _ \<Rightarrow> False)"

lemma handle_bind_accepted:
  assumes "\<not> is_authenticated c" and "bind_accepts ctx g request ap"
  shows "handle_bind ctx (InBind request) (c, g) =
    (Ok (Some (bind_ok (ul_show (gd_uuid (fst ctx)) (player_uuid (ap_player_id ap))) (ap_nickname ap))),
     (set_authed ap (trim (br_token request)) c, g))"
proof -
  from assms(2) obtain player
    where p: "pr_find_by_id (gd_players (fst ctx)) (ap_player_id ap) (gw_users g) = Ok (Some player)"
      "Nickname_as_str (pl_nickname player) = ap_nickname ap"
    by (auto simp: bind_accepts_def split: result.splits option.splits)
  have ap: "\<lparr>ap_player_id = ap_player_id ap, ap_nickname = ap_nickname ap\<rparr> = ap" by simp
  show ?thesis using assms p by (simp add: handle_bind_def bind_accepts_def Let_def ap)
qed

lemma handle_bind_refused:
  assumes "\<not> is_authenticated c" and "\<And>ap. \<not> bind_accepts ctx g request ap"
  shows "snd (handle_bind ctx (InBind request) (c, g)) = (c, g)"
proof -
  have no: False
    if "trim (br_token request) \<noteq> []"
      "tk_resolve (gd_tokens (fst ctx)) (ge_now (snd ctx)) (trim (br_token request)) (gw_tokens g) = Ok (Some i)"
      "pr_find_by_id (gd_players (fst ctx)) i (gw_users g) = Ok (Some player)" for i player
    using that assms(2) [of "\<lparr>ap_player_id = i, ap_nickname = Nickname_as_str (pl_nickname player)\<rparr>"]
    by (simp add: bind_accepts_def)
  show ?thesis using assms(1) by (auto simp: handle_bind_def Let_def split: result.splits option.splits dest: no)
qed

lemma set_authed_simps [simp]:
  "is_authenticated (set_authed ap token c)" "as_player (cn_auth (set_authed ap token c)) = Some ap"
  "as_session_token (cn_auth (set_authed ap token c)) = Some token"
  "as_current_room (cn_auth (set_authed ap token c)) = as_current_room (cn_auth c)"
  "cn_id (set_authed ap token c) = cn_id c" "cn_outbound (set_authed ap token c) = cn_outbound c"
  "cn_room_tx (set_authed ap token c) = cn_room_tx c" "cn_peer_ip (set_authed ap token c) = cn_peer_ip c"
  by (simp_all add: set_authed_def is_authenticated_def)

lemma set_current_room_simps [simp]:
  "is_authenticated (set_current_room r c) = is_authenticated c"
  "as_player (cn_auth (set_current_room r c)) = as_player (cn_auth c)"
  "as_session_token (cn_auth (set_current_room r c)) = as_session_token (cn_auth c)"
  "current_room (set_current_room r c) = r"
  "cn_id (set_current_room r c) = cn_id c" "cn_outbound (set_current_room r c) = cn_outbound c"
  "cn_room_tx (set_current_room r c) = cn_room_tx c" "cn_peer_ip (set_current_room r c) = cn_peer_ip c"
  by (simp_all add: set_current_room_def is_authenticated_def current_room_def)

text \<open>A frame that is refused before dispatch: at most a notice, and the connection ends.\<close>

lemma reply_state:
  assumes "(case (res, st') of
      (Ok (Some reply), st') \<Rightarrow> (case ctx_try_send ctx reply st' of (r, st'') \<Rightarrow> (is_ok r, b, st''))
    | (Ok None, st') \<Rightarrow> (True, b, st')
    | (Err e, st') \<Rightarrow>
        (case ctx_try_send ctx (app_error_notification (Internal (ProtocolError_display e))) st' of
           (r, st'') \<Rightarrow> (is_ok r, b, st''))) = (go, b', st'')"
  shows "fst st'' = fst st' \<and> quiet st' (snd st'')"
proof -
  have "st'' = st' \<or> (\<exists>m. st'' = snd (ctx_try_send ctx m st'))"
    using assms by (auto split: prod.splits result.splits option.splits) (metis snd_conv)+
  then show ?thesis using ctx_try_send_conn ctx_try_send_quiet quiet_refl by (metis prod.collapse)
qed

lemma admit_unauth:
  assumes "\<not> is_authenticated c" and "admit_frame rnd ctx bucket f (c, g) = (go, bucket', c', g')"
  shows "quiet (c, g) g' \<and>
    ((c' = c \<and> (go \<longrightarrow> (\<exists>r. GameCodec_decode (gd_prost (fst ctx)) f = Ok (InBind r)))) \<or>
     (\<exists>r ap. GameCodec_decode (gd_prost (fst ctx)) f = Ok (InBind r) \<and> bind_accepts ctx g r ap \<and>
        c' = set_authed ap (trim (br_token r)) c))"
proof -
  obtain ok b' where b: "bucket_step rnd (ge_now (snd ctx)) bucket = (ok, b')" by (metis prod.exhaust)
  note eq = assms(2) [unfolded admit_frame_def b prod.case]
  note quiet_facts = notify_quiet [of "(c, g)"] ctx_try_send_quiet [of "(c, g)"]
  consider (limited) "\<not> ok" | (bad) e where "ok" "GameCodec_decode (gd_prost (fst ctx)) f = Err e"
    | (other) m where "ok" "GameCodec_decode (gd_prost (fst ctx)) f = Ok m" "InboundMessage_opcode m \<noteq> OP_C2S_BIND"
    | (bind) r where "ok" "GameCodec_decode (gd_prost (fst ctx)) f = Ok (InBind r)"
    using decoded_bind by (metis result.exhaust)
  then show ?thesis
  proof cases
    case limited
    have "(c', g') = notify ctx (error_notification ERR_RATE_LIMITED txt_rate_limited) (c, g)" "\<not> go"
      using eq limited by auto
    then show ?thesis using notify_quiet notify_conn by (metis fst_conv snd_conv)
  next
    case bad
    have "(c', g') = notify ctx (error_notification ERR_PROTOCOL (ProtocolError_display e)) (c, g)" "\<not> go"
      using eq bad by auto
    then show ?thesis using notify_quiet notify_conn by (metis fst_conv snd_conv)
  next
    case other
    have "(c', g') = notify ctx (error_notification ERR_AUTH_REQUIRED_FIRST txt_bind_first) (c, g)" "\<not> go"
      using eq other assms(1) by auto
    then show ?thesis using notify_quiet notify_conn by (metis fst_conv snd_conv)
  next
    case bind
    obtain res st where h: "handle_bind ctx (InBind r) (c, g) = (res, st)" by (metis prod.exhaust)
    have st: "snd st = g" "fst st = c \<or> (\<exists>ap. bind_accepts ctx g r ap \<and> fst st = set_authed ap (trim (br_token r)) c)"
      using handle_bind_refused [OF assms(1), of ctx g r] handle_bind_accepted [OF assms(1), of ctx g r] h
      by (metis fst_conv snd_conv)+
    note eq' = eq [unfolded bind(2) result.case dispatch_simps h]
    have "c' = fst st \<and> quiet st g'"
      using reply_state [where res = res and st' = st and ctx = ctx and b = b' and go = go and b' = bucket' and st'' = "(c', g')"] eq' bind(1) assms(1) by simp
    then have c: "c' = fst st" and q: "quiet st g'" by auto
    have "cn_outbound (fst st) = cn_outbound c" using st(2) by auto
    with q st(1) have "quiet (c, g) g'" by (simp add: quiet_def)
    with c st(2) bind(2) show ?thesis by blast
  qed
qed

text \<open>What no handler changes once the connection is bound, and that the rooms stay well formed.\<close>

definition same_conn :: "conn \<Rightarrow> conn \<Rightarrow> bool" where
  "same_conn c c' \<longleftrightarrow>
     cn_id c' = cn_id c \<and> cn_peer_ip c' = cn_peer_ip c \<and> cn_outbound c' = cn_outbound c \<and>
     cn_room_tx c' = cn_room_tx c \<and> as_player (cn_auth c') = as_player (cn_auth c) \<and>
     as_session_token (cn_auth c') = as_session_token (cn_auth c)"

definition only_rooms :: "('t, 's, 'q, 'f) gw \<Rightarrow> ('t, 's, 'q, 'f) gw \<Rightarrow> bool" where
  "only_rooms g g' \<longleftrightarrow>
     g' = g\<lparr>gw_rooms := gw_rooms g'\<rparr> \<and> (service_inv (gw_rooms g) \<longrightarrow> service_inv (gw_rooms g'))"

lemma same_conn_refl [simp]: "same_conn c c" "same_conn c (set_current_room r c)"
  by (simp_all add: same_conn_def)

lemma only_rooms_refl [simp]: "only_rooms g g"
  by (simp add: only_rooms_def)

lemma only_rooms_exec:
  assumes "w = service_exec M oper (gw_rooms g)"
  shows "only_rooms g (g\<lparr>gw_rooms := w\<rparr>)"
  using assms service_exec_inv [of "gw_rooms g" M oper] by (simp add: only_rooms_def)

lemma handle_join_room_keeps:
  assumes "handle_join_room ctx m (c, g) = (res, c', g')"
  shows "same_conn c c' \<and> only_rooms g g'"
proof -
  have "only_rooms g (g\<lparr>gw_rooms := w\<rparr>)"
    if "join_or_create M env lost fresh now room p nick sink (gw_rooms g) = (r, w)"
    for M env lost fresh now room p nick sink r w
    using only_rooms_exec [of w M "SvJoin env lost fresh now room p nick sink" g] that by simp
  then show ?thesis using assms
    by (auto simp: handle_join_room_def split: inbound_message.splits option.splits result.splits prod.splits if_splits)
qed

lemma handle_leave_room_keeps:
  assumes "handle_leave_room ctx m (c, g) = (res, c', g')"
  shows "same_conn c c' \<and> only_rooms g g'"
proof -
  have "only_rooms g (g\<lparr>gw_rooms := w\<rparr>)"
    if "RoomService_leave M env lost now rid p reason (gw_rooms g) = (r, w)" for M env lost now rid p reason r w
    using only_rooms_exec [of w M "SvLeave env lost now rid p reason" g] that by simp
  moreover have "only_rooms g (g\<lparr>gw_rooms := w\<rparr>)"
    if "leave_all M envs now p reason (gw_rooms g) = (r, w)" for M envs now p reason r w
    using only_rooms_exec [of w M "SvLeaveAll envs now p reason" g] that by simp
  ultimately show ?thesis using assms
    by (auto simp: handle_leave_room_def split: inbound_message.splits option.splits result.splits prod.splits if_splits)
qed

lemma handle_room_chat_keeps:
  assumes "handle_room_chat ctx m (c, g) = (res, c', g')"
  shows "c' = c \<and> only_rooms g g'"
proof -
  have "only_rooms g (g\<lparr>gw_rooms := w\<rparr>)"
    if "RoomService_chat M env full lost rid p content (gw_rooms g) = (r, w)" for M env full lost rid p content r w
    using only_rooms_exec [of w M "SvChat env full lost rid p content" g] that by simp
  then show ?thesis using assms
    by (auto simp: handle_room_chat_def split: inbound_message.splits option.splits result.splits prod.splits)
qed

lemma dispatch_keeps:
  assumes "is_authenticated c" and "GameCodec_decode P f = Ok m"
    and "Router_dispatch build_router ctx m (c, g) = (res, c', g')"
  shows "same_conn c c' \<and> only_rooms g g'"
proof (cases m)
  case (InUnknown opc)
  with assms dispatch_unknown [of P f opc ctx "(c, g)"] show ?thesis by simp
next
  case (InJoinRoom r)
  with assms(3) show ?thesis by (auto dest: handle_join_room_keeps)
next
  case (InLeaveRoom r)
  with assms(3) show ?thesis by (auto dest: handle_leave_room_keeps)
next
  case (InRoomChat r)
  with assms(3) show ?thesis by (auto dest: handle_room_chat_keeps)
qed (use assms in \<open>auto simp: handle_bind_def handle_heartbeat_def handle_get_profile_def
      split: option.splits result.splits\<close>)

text \<open>The outcomes of a frame on a bound connection.\<close>

lemma admit_authed_invalid:
  assumes "is_authenticated c" and "\<not> validate_session ctx (c, g)"
    and "admit_frame rnd ctx bucket f (c, g) = (go, bucket', c', g')"
  shows "\<not> go \<and> c' = c \<and> quiet (c, g) g'"
proof -
  obtain ok b' where b: "bucket_step rnd (ge_now (snd ctx)) bucket = (ok, b')" by (metis prod.exhaust)
  have "\<not> go \<and> (\<exists>m. notify ctx m (c, g) = (c', g'))"
    using assms by (auto simp: admit_frame_def b split: if_splits result.splits)
  then show ?thesis using notify_quiet notify_conn by (metis fst_conv snd_conv)
qed

lemma admit_authed_valid:
  assumes "is_authenticated c" and "validate_session ctx (c, g)"
    and "admit_frame rnd ctx bucket f (c, g) = (go, bucket', c', g')"
  shows "\<exists>g1. same_conn c c' \<and> only_rooms g g1 \<and> quiet (c, g1) g'"
proof -
  obtain ok b' where b: "bucket_step rnd (ge_now (snd ctx)) bucket = (ok, b')" by (metis prod.exhaust)
  have told: ?thesis if "\<exists>m. notify ctx m (c, g) = (c', g')"
    using that notify_quiet notify_conn by (metis fst_conv only_rooms_refl same_conn_refl(1) snd_conv)
  show ?thesis
  proof (cases "ok \<and> (\<exists>m. GameCodec_decode (gd_prost (fst ctx)) f = Ok m \<and> InboundMessage_opcode m \<noteq> OP_C2S_BIND)")
    case False
    then have "\<exists>m. notify ctx m (c, g) = (c', g')"
      using assms by (auto simp: admit_frame_def b split: if_splits result.splits)
    then show ?thesis by (rule told)
  next
    case True
    then obtain m where ok: ok and m: "GameCodec_decode (gd_prost (fst ctx)) f = Ok m"
      "InboundMessage_opcode m \<noteq> OP_C2S_BIND" by blast
    obtain res c1 g1 where d: "Router_dispatch build_router ctx m (c, g) = (res, c1, g1)" by (metis prod_cases3)
    note keeps = dispatch_keeps [OF assms(1) m(1) d]
    have "c' = c1 \<and> quiet (c1, g1) g'"
      using reply_state [where res = res and st' = "(c1, g1)" and ctx = ctx and b = b' and go = go and b' = bucket'
          and st'' = "(c', g')"] assms ok m by (simp add: admit_frame_def b d)
    with keeps show ?thesis by (auto simp: quiet_def same_conn_def)
  qed
qed

text \<open>
  (C4) The authentication gate: before a connection is bound, no frame reads or changes rooms, users,
  tokens, other connections' queues or the gate; the only frame that keeps the connection alive
  is a BIND; and the connection becomes authenticated only by a BIND whose token the store
  resolves to a stored player, as that player and with that token, in every other case
  its state is unchanged.
\<close>

theorem unauthenticated_gate:
  assumes "\<not> is_authenticated c" and "admit_frame rnd ctx bucket f (c, g) = (go, bucket', c', g')"
  shows "quiet (c, g) g' \<and>
    (go \<longrightarrow> (\<exists>r. GameCodec_decode (gd_prost (fst ctx)) f = Ok (InBind r))) \<and>
    (if is_authenticated c'
     then \<exists>r ap. GameCodec_decode (gd_prost (fst ctx)) f = Ok (InBind r) \<and> bind_accepts ctx g r ap \<and>
       c' = set_authed ap (trim (br_token r)) c
     else c' = c)"
  using admit_unauth [OF assms] assms(1) by auto

text \<open>Witness: a profile request on a fresh connection.\<close>

lemma sample_profile_frame:
  "GameCodec_decode (gd_prost sample_deps) (Frame_new OP_C2S_GET_PROFILE []) = Ok (InGetProfile GetProfileRequest)"
  by (simp add: GameCodec_decode_def Frame_new_def decode_inbound_def c2s_opcode_defs sample_deps_def count_prost_def
      pb_decode_def map_ok_def)

theorem unauthenticated_gate_witness:
  "\<not> fst (admit_frame (\<lambda>x. x) (sample_deps, sample_env) None (Frame_new OP_C2S_GET_PROFILE []) (sample_conn, sample_gw))"
proof -
  have un: "\<not> is_authenticated sample_conn"
    by (simp add: is_authenticated_def sample_conn_def AuthState_default_def)
  obtain go b c g where a:
    "admit_frame (\<lambda>x. x) (sample_deps, sample_env) None (Frame_new OP_C2S_GET_PROFILE []) (sample_conn, sample_gw) = (go, b, c, g)"
    by (metis prod_cases4)
  from unauthenticated_gate [OF un a] a sample_profile_frame show ?thesis by auto
qed

text \<open>When a session is valid: the store answers in time that the token of the connection is the one of its player.\<close>

lemma validate_session_iff:
  "validate_session ctx (c, g) \<longleftrightarrow>
     (\<exists>player token. as_player (cn_auth c) = Some player \<and> as_session_token (cn_auth c) = Some token \<and> \<not> ge_timed_out (snd ctx) \<and>
        tk_resolve (gd_tokens (fst ctx)) (ge_now (snd ctx)) token (gw_tokens g) = Ok (Some (ap_player_id player)))"
  by (auto simp: validate_session_def split: option.splits result.splits)

lemma admit_authed_dispatch:
  assumes "is_authenticated c" and "validate_session ctx (c, g)" and "fst (bucket_step rnd (ge_now (snd ctx)) bucket)"
    and "GameCodec_decode (gd_prost (fst ctx)) f = Ok m" and "InboundMessage_opcode m \<noteq> OP_C2S_BIND"
    and "admit_frame rnd ctx bucket f (c, g) = (go, bucket', c', g')"
  shows "c' = fst (snd (Router_dispatch build_router ctx m (c, g))) \<and>
    gw_rooms g' = gw_rooms (snd (snd (Router_dispatch build_router ctx m (c, g))))"
proof -
  obtain ok b' where b: "bucket_step rnd (ge_now (snd ctx)) bucket = (ok, b')" by (metis prod.exhaust)
  obtain res c1 g1 where d: "Router_dispatch build_router ctx m (c, g) = (res, c1, g1)" by (metis prod_cases3)
  have "c' = c1 \<and> quiet (c1, g1) g'"
    using reply_state [where res = res and st' = "(c1, g1)" and ctx = ctx and b = b' and go = go and b' = bucket'
        and st'' = "(c', g')"] assms by (simp add: admit_frame_def b d)
  then show ?thesis by (simp add: d quiet_def)
qed

text \<open>
  (C5) Session enforcement on every frame. A bound connection sends a frame, and the store does not answer within the session timeout
  that the connection's token belongs to the very player it is bound as (the token is revoked, expired, replaced by a newer login,
  somebody else's, or the store fails or is too slow): then the frame, whatever it is, has no effect but an error notice, and the
  connection ends. If the store does answer so, a frame within the rate limit that decodes to anything but a BIND is handed to its
  handler, whose effect on connection and rooms is what happens, and no frame changes anything but rooms and the connection's
  own queue and current room.
\<close>

theorem session_enforced:
  assumes "as_player (cn_auth c) = Some player" and "admit_frame rnd ctx bucket f (c, g) = (go, bucket', c', g')"
  shows "if (\<exists>token. as_session_token (cn_auth c) = Some token \<and> \<not> ge_timed_out (snd ctx) \<and>
        tk_resolve (gd_tokens (fst ctx)) (ge_now (snd ctx)) token (gw_tokens g) = Ok (Some (ap_player_id player)))
    then same_conn c c' \<and> (\<exists>g1. only_rooms g g1 \<and> quiet (c, g1) g') \<and>
      (\<forall>m. fst (bucket_step rnd (ge_now (snd ctx)) bucket) \<longrightarrow> GameCodec_decode (gd_prost (fst ctx)) f = Ok m \<longrightarrow>
         InboundMessage_opcode m \<noteq> OP_C2S_BIND \<longrightarrow>
         c' = fst (snd (Router_dispatch build_router ctx m (c, g))) \<and>
         gw_rooms g' = gw_rooms (snd (snd (Router_dispatch build_router ctx m (c, g)))))
    else \<not> go \<and> c' = c \<and> quiet (c, g) g'"
proof -
  have au: "is_authenticated c" using assms(1) by (simp add: is_authenticated_def)
  have v: "validate_session ctx (c, g) \<longleftrightarrow> (\<exists>token. as_session_token (cn_auth c) = Some token \<and> \<not> ge_timed_out (snd ctx) \<and>
      tk_resolve (gd_tokens (fst ctx)) (ge_now (snd ctx)) token (gw_tokens g) = Ok (Some (ap_player_id player)))"
    using assms(1) by (simp add: validate_session_iff)
  show ?thesis
  proof (cases "validate_session ctx (c, g)")
    case True
    show ?thesis unfolding v [symmetric] if_P [OF True]
      using admit_authed_valid [OF au True assms(2)] admit_authed_dispatch [OF au True _ _ _ assms(2)] by blast
  next
    case False
    show ?thesis unfolding v [symmetric] if_not_P [OF False] by (rule admit_authed_invalid [OF au False assms(2)])
  qed
qed

text \<open>Witness: a connection whose token is one that the store knows as another player's.\<close>

definition sample_taken_over :: "(token_state, mem_store, room_event list_chan, frame list_chan) gw" where
  "sample_taken_over = sample_gw\<lparr>gw_tokens :=
     \<lparr>ts_by_token = [(ascii ''00'', \<lparr>te_player_id = PlayerId 8, te_expires_at = 100\<rparr>)], ts_by_player = [(PlayerId 8, [ascii ''00''])]\<rparr>\<rparr>"

theorem session_enforced_witness:
  "\<not> fst (admit_frame (\<lambda>x. x) (sample_deps, sample_env) None (Frame_new OP_C2S_GET_PROFILE []) (sample_bound, sample_taken_over))"
proof -
  have au: "as_player (cn_auth sample_bound) = Some \<lparr>ap_player_id = PlayerId 7, ap_nickname = ascii ''Al''\<rparr>"
    by (simp add: sample_bound_def set_authed_def)
  have inv: "tk_resolve (gd_tokens sample_deps) 3 (ascii ''00'') (gw_tokens sample_taken_over) = Ok (Some (PlayerId 8))"
    "as_session_token (cn_auth sample_bound) = Some (ascii ''00'')" "ge_now sample_env = 3"
    by (simp_all add: sample_bound_def set_authed_def sample_env_def sample_deps_def sample_taken_over_def InMemoryTokenStore_def
        InMemoryTokenStore_resolve_def hm_get_def)
  obtain go b c g where a:
    "admit_frame (\<lambda>x. x) (sample_deps, sample_env) None (Frame_new OP_C2S_GET_PROFILE []) (sample_bound, sample_taken_over) = (go, b, c, g)"
    by (metis prod_cases4)
  from session_enforced [OF au a] inv a show ?thesis by simp
qed

end
