(* ===== verification/LX_Cancel.thy ===== *)
theory LX_Cancel
  imports LX_Gateway
begin

text \<open>
  What a call leaves behind that is cut off while it waits. A connection task is cancelled at a suspension point:
  its read loop is dropped when the translator of room events ends first (\<^verbatim>\<open>tokio::select!\<close> in
  \<^verbatim>\<open>handle_admitted_connection\<close>), and the whole task when the accept loop aborts it; the clean-up of its rooms runs
  under a timeout. The functions below are the calls of \<^verbatim>\<open>crates/application/src/room/service.rs\<close> and
  the handlers of \<^verbatim>\<open>crates/gateway/src/tcp/handlers.rs\<close> up to a given suspension point. A command that is in the
  queue of a room is handled although its sender is gone, and in the order of the queue, so that it counts as delivered.
\<close>

section \<open>Room calls\<close>

text \<open>
  Where a join or a leave waits: for the registry lock, for a place in the command queue, for the answer of the room
  (or, after it, for the lock again, to remove a closed room), or for the publisher of domain events. A point that the call does not reach stands for the last one it does.
\<close>

datatype call_cut = AtRegistry | AtQueue | AtReply | AtPublish

definition RoomService_join_until ::
  "'q event_chan \<Rightarrow> env_action list \<Rightarrow> bool \<Rightarrow> datetime \<Rightarrow> room_id \<Rightarrow> player_id \<Rightarrow> rstring \<Rightarrow> sink_ref \<Rightarrow> call_cut
     \<Rightarrow> 'q world \<Rightarrow> 'q world" where
  "RoomService_join_until M env lost now rid p nick sink point w =
     (if point = AtRegistry then w
      else case handle_for rid w of
             (None, w1) \<Rightarrow> w1
           | (Some h, w1) \<Rightarrow>
               (if point = AtQueue then interfere M env w1
                else if point = AtReply then snd (RoomHandle_send M lost h (Join p nick sink) (interfere M env w1))
                else snd (RoomService_join M env lost now rid p nick sink w)))"

definition RoomService_leave_until ::
  "'q event_chan \<Rightarrow> env_action list \<Rightarrow> bool \<Rightarrow> datetime \<Rightarrow> room_id \<Rightarrow> player_id \<Rightarrow> rstring \<Rightarrow> call_cut
     \<Rightarrow> 'q world \<Rightarrow> 'q world" where
  "RoomService_leave_until M env lost now rid p reason point w =
     (if point = AtRegistry then w
      else case handle_for rid w of
             (None, w1) \<Rightarrow> w1
           | (Some h, w1) \<Rightarrow>
               (if point = AtQueue then interfere M env w1
                else if point = AtReply then snd (RoomHandle_send M lost h (Leave p reason) (interfere M env w1))
                else snd (RoomService_leave M env lost now rid p reason w)))"

text \<open>\<^verbatim>\<open>leave_all\<close> completes, or is cut off in the call for one of the rooms, after \<open>k\<close> of them.\<close>

datatype leave_progress = LeaveDone | LeaveCut nat call_cut

definition leave_all_until ::
  "'q event_chan \<Rightarrow> (nat \<Rightarrow> env_action list \<times> bool) \<Rightarrow> datetime \<Rightarrow> player_id \<Rightarrow> rstring \<Rightarrow> leave_progress
     \<Rightarrow> 'q world \<Rightarrow> 'q world" where
  "leave_all_until M envs now p reason progress w =
     (case progress of
        LeaveDone \<Rightarrow> snd (leave_all M envs now p reason w)
      | LeaveCut k point \<Rightarrow>
          (case live_handles w of (hs, w1) \<Rightarrow>
             (case leave_each M envs now p reason 0 (take k hs) w1 of (res, w2) \<Rightarrow>
                if is_ok res \<and> k < length hs
                then RoomService_leave_until M (fst (envs k)) (snd (envs k)) now (rh_room_id (hs ! k)) p reason point w2
                else w2)))"

section \<open>Handlers\<close>

text \<open>
  Where the handling of a frame waits: for the session check, before a room it has spawned is registered, in a join or a
  leave, before the registration of a room whose creator failed to join is taken back, in one of the calls of \<^verbatim>\<open>leave_all\<close>.
\<close>

datatype handler_cut = AtSession | AtInsert | AtCall call_cut | AtRollback | AtRoom nat call_cut

definition join_or_create_until ::
  "'q event_chan \<Rightarrow> env_action list \<Rightarrow> bool \<Rightarrow> uuid \<Rightarrow> datetime \<Rightarrow> room_id option \<Rightarrow> player_id \<Rightarrow> rstring \<Rightarrow> sink_ref
     \<Rightarrow> handler_cut \<Rightarrow> 'q world \<Rightarrow> 'q world" where
  "join_or_create_until M env lost fresh now room p nick sink point w =
     (case room of
        Some rid \<Rightarrow>
          (case point of AtCall call \<Rightarrow> RoomService_join_until M env lost now rid p nick sink call w | _ \<Rightarrow> w)
      | None \<Rightarrow>
          (let r = Room_open fresh (rsc_max_players (sv_config w)) now;
               rid = rm_id r;
               h = \<lparr>rh_room_id = rid\<rparr>;
               w0 = w\<lparr>sv_tasks := (sv_tasks w)(rid \<mapsto> \<lparr>tk_actor = RoomActor_spawn r, tk_running = True\<rparr>)\<rparr>;
               w1 = w0\<lparr>sv_registry := hm_insert rid h (sv_registry w)\<rparr>
           in case point of
                AtInsert \<Rightarrow> RoomHandle_drop M h w0
              | AtCall call \<Rightarrow> RoomService_join_until M env lost now rid p nick sink call w1
              | AtRollback \<Rightarrow> snd (RoomService_join M env lost now rid p nick sink w1)
              | _ \<Rightarrow> w))"

definition leave_room_until ::
  "'q event_chan \<Rightarrow> handler_env \<Rightarrow> room_id option \<Rightarrow> player_id \<Rightarrow> handler_cut \<Rightarrow> 'q world \<Rightarrow> 'q world" where
  "leave_room_until M env target p point w =
     (case (target, point) of
        (Some rid, AtCall call) \<Rightarrow>
          RoomService_leave_until M (ge_env env) (ge_lost env) (ge_utc env) rid p reason_client_leave call w
      | (None, AtRoom k call) \<Rightarrow>
          leave_all_until M (ge_envs env) (ge_utc env) p reason_client_leave (LeaveCut k call) w
      | _ \<Rightarrow> w)"

text \<open>
  A handler sets the state of its connection only after its last suspension point, so that a cancelled one changes
  rooms and nothing else. A BIND, a heartbeat, a profile request and a chat message change nothing before they are through.
\<close>

definition dispatch_until :: "('t, 's, 'q, 'f) ctx \<Rightarrow> inbound_message \<Rightarrow> handler_cut \<Rightarrow> ('t, 's, 'q, 'f) cstate \<Rightarrow> ('t, 's, 'q, 'f) gw" where
  "dispatch_until ctx message point st =
     (case (message, authed_player_of (fst st)) of
        (InJoinRoom request, Some player) \<Rightarrow>
          (case (parse_optional_room_id (gd_uuid (fst ctx)) (jr_room_id request), current_room (fst st)) of
             (Ok target, None) \<Rightarrow>
               (snd st)\<lparr>gw_rooms := join_or_create_until (gd_events (fst ctx)) (ge_env (snd ctx)) (ge_lost (snd ctx))
                  (ge_fresh (snd ctx)) (ge_utc (snd ctx)) target (ap_player_id player) (ap_nickname player)
                  (cn_room_tx (fst st)) point (gw_rooms (snd st))\<rparr>
           | _ \<Rightarrow> snd st)
      | (InLeaveRoom request, Some player) \<Rightarrow>
          (case parse_optional_room_id (gd_uuid (fst ctx)) (lv_room_id request) of
             Ok target \<Rightarrow>
               (snd st)\<lparr>gw_rooms := leave_room_until (gd_events (fst ctx)) (snd ctx) target (ap_player_id player) point
                  (gw_rooms (snd st))\<rparr>
           | Err m \<Rightarrow> snd st)
      | _ \<Rightarrow> snd st)"

section \<open>The rooms stay well formed\<close>

lemma send_inv: "service_inv w \<Longrightarrow> service_inv (snd (RoomHandle_send M lost h cmd w))"
  by (simp add: send_world lx_inv)

lemma handle_for_inv: "service_inv w \<Longrightarrow> handle_for rid w = (ho, w1) \<Longrightarrow> service_inv w1"
  using handle_for_cases [of w rid] by (metis prod.inject)

lemma join_inv: "service_inv w \<Longrightarrow> service_inv (snd (RoomService_join M env lost now rid p nick sink w))"
  using join_cases [of w M env lost now rid p nick sink] by (metis prod.collapse)

lemma leave_inv: "service_inv w \<Longrightarrow> service_inv (snd (RoomService_leave M env lost now rid p reason w))"
  using leave_ok [of w M env lost now rid p reason] by auto

lemma join_until_inv: "service_inv w \<Longrightarrow> service_inv (RoomService_join_until M env lost now rid p nick sink point w)"
  by (auto simp: RoomService_join_until_def lx_inv join_inv split: prod.split option.split
      intro!: send_inv interfere_inv dest: handle_for_inv)

lemma leave_until_inv: "service_inv w \<Longrightarrow> service_inv (RoomService_leave_until M env lost now rid p reason point w)"
  by (auto simp: RoomService_leave_until_def lx_inv leave_inv split: prod.split option.split
      intro!: send_inv interfere_inv dest: handle_for_inv)

lemma leave_all_until_inv: "service_inv w \<Longrightarrow> service_inv (leave_all_until M envs now p reason progress w)"
proof (cases progress)
  case LeaveDone
  assume "service_inv w"
  with LeaveDone service_exec_inv [of w M "SvLeaveAll envs now p reason"] show ?thesis by (simp add: leave_all_until_def)
next
  case (LeaveCut k point)
  assume inv: "service_inv w"
  obtain hs w1 where l: "live_handles w = (hs, w1)" by (metis prod.exhaust)
  obtain res w2 where e: "leave_each M envs now p reason 0 (take k hs) w1 = (res, w2)" by (metis prod.exhaust)
  have "service_inv w2"
    using leave_each_inv [OF live_handles_inv(1) [OF inv l], of M envs now p reason 0 "take k hs"] e by simp
  then show ?thesis by (simp add: leave_all_until_def LeaveCut l e leave_until_inv)
qed

lemma leave_all_done:
  assumes "service_inv w" and "\<forall>n. \<forall>e \<in> set (fst (envs n)). \<not> joins p e"
  shows "hm_get (sv_registry (leave_all_until M envs now p reason LeaveDone w)) rid \<noteq> None \<Longrightarrow>
    \<not> in_room (leave_all_until M envs now p reason LeaveDone w) rid p"
proof -
  obtain hs w1 where l: "live_handles w = (hs, w1)" by (metis prod.exhaust)
  note live = live_handles_inv [OF assms(1) l]
  from leave_each_ok [OF live(1) assms(2), of hs M now reason 0] live(4) l
  show "hm_get (sv_registry (leave_all_until M envs now p reason LeaveDone w)) rid \<noteq> None \<Longrightarrow>
      \<not> in_room (leave_all_until M envs now p reason LeaveDone w) rid p"
    by (auto simp: leave_all_until_def leave_all_def)
qed

lemma unregistered_inv:
  assumes "service_inv w"
  shows "service_inv (w\<lparr>sv_tasks := (sv_tasks w)(RoomId fresh \<mapsto>
    \<lparr>tk_actor = RoomActor_spawn (Room_open fresh (rsc_max_players (sv_config w)) now), tk_running = True\<rparr>)\<rparr>)"
  using assms spawned_task_ok [of "rsc_max_players (sv_config w)" fresh now] by (auto simp: service_inv_def)

lemma join_or_create_until_inv:
  assumes "service_inv w"
  shows "service_inv (join_or_create_until M env lost fresh now room p nick sink point w)"
proof -
  have i: "rm_id (Room_open fresh mp now) = RoomId fresh" for mp by (simp add: Room_open_def)
  note sp = spawned_inv [OF assms, of fresh now, unfolded spawned_def]
  show ?thesis
    using assms join_until_inv [OF sp] join_inv [OF sp] drop_inv [OF unregistered_inv [OF assms]]
    by (auto simp: join_or_create_until_def i Let_def join_until_inv split: option.split handler_cut.split)
qed

lemma leave_room_until_inv: "service_inv w \<Longrightarrow> service_inv (leave_room_until M env target p point w)"
  by (auto simp: leave_room_until_def leave_until_inv leave_all_until_inv split: option.split handler_cut.split)

lemma dispatch_until_keeps: "only_rooms (snd st) (dispatch_until ctx message point st)"
  by (auto simp: dispatch_until_def only_rooms_def join_or_create_until_inv leave_room_until_inv
      split: inbound_message.split option.split result.split)

text \<open>
  A creation that is cut off after the room is registered and before its creator's join is in its queue leaves
  a registered, running room without members; as it never had one, no leave will close it.
\<close>

lemma cancelled_creation:
  assumes "service_inv w"
  shows "hm_get (sv_registry (join_or_create_until M env lost fresh now None p nick sink (AtCall AtRegistry) w)) (RoomId fresh) \<noteq> None"
    and "is_running (join_or_create_until M env lost fresh now None p nick sink (AtCall AtRegistry) w) (RoomId fresh)"
    and "room_members (join_or_create_until M env lost fresh now None p nick sink (AtCall AtRegistry) w) (RoomId fresh) = {}"
proof -
  have i: "rm_id (Room_open fresh mp now) = RoomId fresh" for mp by (simp add: Room_open_def)
  have "join_or_create_until M env lost fresh now None p nick sink (AtCall AtRegistry) w = spawned fresh now w"
    by (simp add: join_or_create_until_def i Let_def RoomService_join_until_def spawned_def)
  with spawned_simps [of fresh now w]
  show "hm_get (sv_registry (join_or_create_until M env lost fresh now None p nick sink (AtCall AtRegistry) w)) (RoomId fresh) \<noteq> None"
    "is_running (join_or_create_until M env lost fresh now None p nick sink (AtCall AtRegistry) w) (RoomId fresh)"
    "room_members (join_or_create_until M env lost fresh now None p nick sink (AtCall AtRegistry) w) (RoomId fresh) = {}"
    by simp_all
qed

end
