(* ===== verification/LX_Connection.thy ===== *)
theory LX_Connection
  imports LX_Cancel
begin

text \<open>
  The life of one TCP connection, \<^verbatim>\<open>crates/gateway/src/tcp/handler.rs\<close> and \<^verbatim>\<open>lifecycle.rs\<close>: admission,
  read loop, translation of room events, clean-up. One round of the loop is a step on the loop
  state; its input says what the round met: what the other tasks of the server did to the
  shared state while it waited (\<open>li_others\<close>), whether shutdown was signalled, and the result
  of the read, or that the deadline passed first. The last round may be cut off at any suspension point
  (\<open>CutRound\<close>), when the translator ends first or the task is aborted. Everything that is dropped at the end of the
  task (guard, admission permit) is dropped explicitly; the clean-up that the guard of an aborted task spawns is a
  task of its own, which runs later.
\<close>

section \<open>Admission\<close>

record tcp_gateway_config =
  tc_shutdown_timeout :: duration
  tc_write_drain_timeout :: duration
  tc_bind_addr :: nat            \<comment> \<open>opaque\<close>
  tc_max_frame_size :: nat
  tc_send_queue_capacity :: nat
  tc_room_event_capacity :: nat
  tc_unauth_timeout :: duration
  tc_heartbeat_timeout :: duration
  tc_rate :: rate_limit_settings
  tc_max_connections :: nat
  tc_backlog :: u32
  tc_accept_concurrency :: u32
  tc_nodelay :: bool
  tc_keepalive :: duration

record admission =
  ad_deadline :: instant
  ad_permit :: "ip_addr option"

definition Admission_acquire :: "ip_addr \<Rightarrow> duration \<Rightarrow> instant \<Rightarrow> auth_gate \<Rightarrow> admission option \<times> auth_gate" where
  "Admission_acquire ip timeout now gate =
     (case AuthGate_permit ip gate of
        (None, gate') \<Rightarrow> (None, gate')
      | (Some permit, gate') \<Rightarrow> (Some \<lparr>ad_deadline = now + timeout, ad_permit = Some permit\<rparr>, gate'))"

text \<open>\<^verbatim>\<open>Option::take\<close> on the permit, and the drop of the whole admission.\<close>

definition drop_permit :: "admission \<Rightarrow> ('t, 's, 'q, 'f) gw \<Rightarrow> admission \<times> ('t, 's, 'q, 'f) gw" where
  "drop_permit adm g =
     (case ad_permit adm of
        None \<Rightarrow> (adm, g)
      | Some ip \<Rightarrow> (adm\<lparr>ad_permit := None\<rparr>, g\<lparr>gw_gate := AuthPermit_drop ip (gw_gate g)\<rparr>))"

section \<open>The read loop\<close>

record ('t, 's, 'q, 'f) loop_input =
  li_others :: "('t, 's, 'q, 'f) gw \<Rightarrow> ('t, 's, 'q, 'f) gw"
  li_start :: instant
  li_env :: handler_env
  li_shutdown :: bool
  li_read :: "(frame option, net_error) result option"
  li_late :: bool

record ('t, 's, 'q, 'f) loop_state =
  lp_bucket :: "token_bucket option"
  lp_admission :: admission
  lp_session :: session
  lp_state :: "('t, 's, 'q, 'f) cstate"

definition disconnect_own :: "('t, 's, 'q, 'f) cstate \<Rightarrow> ('t, 's, 'q, 'f) cstate" where
  "disconnect_own st =
     (fst st, (snd st)\<lparr>gw_queues := (gw_queues (snd st))(cn_outbound (fst st) :=
        OutboundSender_disconnect (gw_queues (snd st) (cn_outbound (fst st))))\<rparr>)"

definition read_deadline :: "tcp_gateway_config \<Rightarrow> instant \<Rightarrow> admission \<Rightarrow> conn \<Rightarrow> instant" where
  "read_deadline cfg start adm c =
     (if is_authenticated c then start + tc_heartbeat_timeout cfg else ad_deadline adm)"

text \<open>
  The dispatch of an unauthenticated connection runs under \<^verbatim>\<open>timeout_at\<close>. It can only be cut off where it
  suspends, which is the token lookup of a BIND; nothing has been changed by then.
\<close>

definition dispatch_suspends ::
  "(real \<Rightarrow> real) \<Rightarrow> ('t, 's, 'q, 'f) ctx \<Rightarrow> token_bucket option \<Rightarrow> frame \<Rightarrow> bool" where
  "dispatch_suspends rnd ctx bucket f \<longleftrightarrow>
     fst (bucket_step rnd (ge_now (snd ctx)) bucket) \<and>
     (case GameCodec_decode (gd_prost (fst ctx)) f of Ok (InBind r) \<Rightarrow> trim (br_token r) \<noteq> [] | _ \<Rightarrow> False)"

definition read_error_notice ::
  "('t, 's, 'q, 'f) ctx \<Rightarrow> net_error \<Rightarrow> ('t, 's, 'q, 'f) cstate \<Rightarrow> ('t, 's, 'q, 'f) cstate" where
  "read_error_notice ctx e st =
     (if is_disconnect e then st
      else notify ctx (error_notification
             (case e of FrameTooLarge declared mx \<Rightarrow> ERR_FRAME_TOO_LARGE | _ \<Rightarrow> ERR_PROTOCOL) (NetError_display e)) st)"

definition read_loop_frame ::
  "(real \<Rightarrow> real) \<Rightarrow> ('t, 's, 'q, 'f) ctx \<Rightarrow> instant \<Rightarrow> bool \<Rightarrow> frame \<Rightarrow> ('t, 's, 'q, 'f) loop_state
     \<Rightarrow> bool \<times> ('t, 's, 'q, 'f) loop_state" where
  "read_loop_frame rnd ctx deadline late f ls0 =
     (let ls = ls0\<lparr>lp_session := Session_touch_heartbeat (ge_utc (snd ctx)) (lp_session ls0)\<rparr>;
          st = lp_state ls;
          timed_out = (False, ls\<lparr>lp_state := notify ctx (error_notification ERR_TIMEOUT txt_session_timeout) st\<rparr>)
      in if deadline \<le> ge_now (snd ctx) then timed_out
         else if \<not> is_authenticated (fst st) \<and> late \<and> dispatch_suspends rnd ctx (lp_bucket ls) f then timed_out
         else case admit_frame rnd ctx (lp_bucket ls) f st of (go, bucket', c', g') \<Rightarrow>
           if \<not> go then (False, ls\<lparr>lp_bucket := bucket', lp_state := (c', g')\<rparr>)
           else if is_authenticated c'
           then (case drop_permit (lp_admission ls) g' of (adm', g'') \<Rightarrow>
                   (True, ls\<lparr>lp_bucket := bucket', lp_admission := adm', lp_state := (c', g'')\<rparr>))
           else (True, ls\<lparr>lp_bucket := bucket', lp_state := (c', g')\<rparr>))"

definition read_loop_step ::
  "(real \<Rightarrow> real) \<Rightarrow> tcp_gateway_config \<Rightarrow> ('t, 's, 'q, 'f) gateway_deps \<Rightarrow> ('t, 's, 'q, 'f) loop_input
     \<Rightarrow> ('t, 's, 'q, 'f) loop_state \<Rightarrow> bool \<times> ('t, 's, 'q, 'f) loop_state" where
  "read_loop_step rnd cfg deps inp ls =
     (let ctx = (deps, li_env inp);
          c = fst (lp_state ls);
          deadline = read_deadline cfg (li_start inp) (lp_admission ls) c;
          g = li_others inp (snd (lp_state ls));
          here = ls\<lparr>lp_state := (c, g)\<rparr>
      in if OutboundSender_is_closed (gd_frames deps) (gw_queues g (cn_outbound c)) then (False, here)
         else if es_failed (sv_sinks (gw_rooms g) (cn_room_tx c))
         then (False, here\<lparr>lp_state := disconnect_own (c, g)\<rparr>)
         else if li_shutdown inp
         then (False, here\<lparr>lp_state := notify ctx (OutShutdown (ServerShutdownNotice txt_shutdown_notice)) (c, g)\<rparr>)
         else case li_read inp of
                Some (Ok (Some f)) \<Rightarrow> read_loop_frame rnd ctx deadline (li_late inp) f here
              | Some (Ok None) \<Rightarrow> (False, here)
              | Some (Err e) \<Rightarrow> (False, here\<lparr>lp_state := read_error_notice ctx e (c, g)\<rparr>)
              | None \<Rightarrow> (False, here\<lparr>lp_state := notify ctx (error_notification ERR_TIMEOUT txt_session_timeout) (c, g)\<rparr>))"

text \<open>
  A round that is cut off. Where it does not wait for anything after the read it is cut off while it waits for the
  read; else in the session check or in the handler.
\<close>

definition read_loop_cut ::
  "(real \<Rightarrow> real) \<Rightarrow> tcp_gateway_config \<Rightarrow> ('t, 's, 'q, 'f) gateway_deps \<Rightarrow> ('t, 's, 'q, 'f) loop_input \<Rightarrow> handler_cut
     \<Rightarrow> ('t, 's, 'q, 'f) loop_state \<Rightarrow> ('t, 's, 'q, 'f) loop_state" where
  "read_loop_cut rnd cfg deps inp point ls =
     (let ctx = (deps, li_env inp);
          c = fst (lp_state ls);
          g = li_others inp (snd (lp_state ls));
          here = ls\<lparr>lp_state := (c, g)\<rparr>;
          dispatching = here\<lparr>lp_session := Session_touch_heartbeat (ge_utc (li_env inp)) (lp_session ls),
                             lp_bucket := snd (bucket_step rnd (ge_now (li_env inp)) (lp_bucket ls))\<rparr>
      in if OutboundSender_is_closed (gd_frames deps) (gw_queues g (cn_outbound c)) \<or>
            es_failed (sv_sinks (gw_rooms g) (cn_room_tx c)) \<or> li_shutdown inp then here
         else case li_read inp of
                Some (Ok (Some f)) \<Rightarrow>
                  (if read_deadline cfg (li_start inp) (lp_admission ls) c \<le> ge_now (li_env inp) then here
                   else if \<not> is_authenticated c
                   then (if dispatch_suspends rnd ctx (lp_bucket ls) f then dispatching else here)
                   else case (fst (bucket_step rnd (ge_now (li_env inp)) (lp_bucket ls)), GameCodec_decode (gd_prost deps) f) of
                          (True, Ok message) \<Rightarrow>
                            (if point = AtSession \<or> \<not> validate_session ctx (c, g) then dispatching
                             else dispatching\<lparr>lp_state := (c, dispatch_until ctx message point (c, g))\<rparr>)
                        | _ \<Rightarrow> here)
              | _ \<Rightarrow> here)"

section \<open>Translation of room events\<close>

definition room_event_translator_step ::
  "('t, 's, 'q, 'f) ctx \<Rightarrow> room_event \<Rightarrow> ('t, 's, 'q, 'f) cstate \<Rightarrow> bool \<times> ('t, 's, 'q, 'f) cstate" where
  "room_event_translator_step ctx ev st =
     (if \<not> validate_session ctx st
      then (False, notify ctx (error_notification ERR_NOT_AUTHENTICATED txt_session_invalid) st)
      else case GameCodec_encode (gd_prost (fst ctx)) (OutRoomEvent (room_event_to_notification (gd_uuid (fst ctx)) ev)) of
             Err e \<Rightarrow> (False, disconnect_own st)
           | Ok f \<Rightarrow>
               (case try_send_frame (gd_frames (fst ctx)) f (gw_queues (snd st) (cn_outbound (fst st))) of (res, s') \<Rightarrow>
                  (is_ok res, (fst st, (snd st)\<lparr>gw_queues := (gw_queues (snd st))(cn_outbound (fst st) := s')\<rparr>))))"

text \<open>
  The read loop and the translator run side by side on the same connection; whichever ends first ends
  the connection. A run is the list of rounds they make, in the order they happen. After a round of the read loop
  that is cut off, only the translator goes on until the connection ends.
\<close>

datatype ('t, 's, 'q, 'f) conn_step =
    ReadRound "('t, 's, 'q, 'f) loop_input"
  | TranslateRound "('t, 's, 'q, 'f) gw \<Rightarrow> ('t, 's, 'q, 'f) gw" handler_env room_event
  | CutRound "('t, 's, 'q, 'f) loop_input" handler_cut

primrec conn_step_exec ::
  "(real \<Rightarrow> real) \<Rightarrow> tcp_gateway_config \<Rightarrow> ('t, 's, 'q, 'f) gateway_deps \<Rightarrow> ('t, 's, 'q, 'f) conn_step
     \<Rightarrow> ('t, 's, 'q, 'f) loop_state \<Rightarrow> bool \<times> ('t, 's, 'q, 'f) loop_state" where
  "conn_step_exec rnd cfg deps (ReadRound inp) ls = read_loop_step rnd cfg deps inp ls"
| "conn_step_exec rnd cfg deps (TranslateRound others env ev) ls =
     (case room_event_translator_step (deps, env) ev (fst (lp_state ls), others (snd (lp_state ls))) of (go, st) \<Rightarrow>
        (go, ls\<lparr>lp_state := st\<rparr>))"
| "conn_step_exec rnd cfg deps (CutRound inp point) ls = (True, read_loop_cut rnd cfg deps inp point ls)"

primrec translates :: "('t, 's, 'q, 'f) conn_step \<Rightarrow> bool" where
  "translates (ReadRound inp) = False"
| "translates (TranslateRound others env ev) = True"
| "translates (CutRound inp point) = False"

primrec cuts :: "('t, 's, 'q, 'f) conn_step \<Rightarrow> bool" where
  "cuts (ReadRound inp) = False"
| "cuts (TranslateRound others env ev) = False"
| "cuts (CutRound inp point) = True"

fun suspended_loop ::
  "(real \<Rightarrow> real) \<Rightarrow> tcp_gateway_config \<Rightarrow> ('t, 's, 'q, 'f) gateway_deps \<Rightarrow> ('t, 's, 'q, 'f) conn_step list
     \<Rightarrow> ('t, 's, 'q, 'f) loop_state \<Rightarrow> bool \<times> ('t, 's, 'q, 'f) loop_state" where
  "suspended_loop rnd cfg deps [] ls = (True, ls)"
| "suspended_loop rnd cfg deps (x # xs) ls =
     (if translates x
      then (case conn_step_exec rnd cfg deps x ls of
              (True, ls') \<Rightarrow> suspended_loop rnd cfg deps xs ls'
            | (False, ls') \<Rightarrow> (False, ls'))
      else suspended_loop rnd cfg deps xs ls)"

fun connection_loop ::
  "(real \<Rightarrow> real) \<Rightarrow> tcp_gateway_config \<Rightarrow> ('t, 's, 'q, 'f) gateway_deps \<Rightarrow> ('t, 's, 'q, 'f) conn_step list
     \<Rightarrow> ('t, 's, 'q, 'f) loop_state \<Rightarrow> bool \<times> ('t, 's, 'q, 'f) loop_state" where
  "connection_loop rnd cfg deps [] ls = (True, ls)"
| "connection_loop rnd cfg deps (x # xs) ls =
     (case conn_step_exec rnd cfg deps x ls of
        (True, ls') \<Rightarrow> (if cuts x then suspended_loop rnd cfg deps xs ls' else connection_loop rnd cfg deps xs ls')
      | (False, ls') \<Rightarrow> (False, ls'))"

section \<open>Clean-up\<close>

definition reason_connection_closed :: rstring where
  "reason_connection_closed = ascii ''connection closed''"

definition cleanup_room ::
  "('t, 's, 'q, 'f) ctx \<Rightarrow> leave_progress \<Rightarrow> auth_state \<Rightarrow> ('t, 's, 'q, 'f) gw \<Rightarrow> ('t, 's, 'q, 'f) gw" where
  "cleanup_room ctx progress auth g =
     (case as_player auth of
        None \<Rightarrow> g
      | Some player \<Rightarrow>
          g\<lparr>gw_rooms := leave_all_until (gd_events (fst ctx)) (ge_envs (snd ctx)) (ge_utc (snd ctx))
              (ap_player_id player) reason_connection_closed progress (gw_rooms g)\<rparr>)"

record connection_guard =
  cg_conn_id :: uuid
  cg_auth :: auth_state
  cg_cleaned :: bool

definition ConnectionGuard_new :: "uuid \<Rightarrow> auth_state \<Rightarrow> connection_guard" where
  "ConnectionGuard_new i auth = \<lparr>cg_conn_id = i, cg_auth = auth, cg_cleaned = False\<rparr>"

definition ConnectionGuard_cleanup ::
  "('t, 's, 'q, 'f) ctx \<Rightarrow> leave_progress \<Rightarrow> connection_guard \<Rightarrow> ('t, 's, 'q, 'f) gw
     \<Rightarrow> connection_guard \<times> ('t, 's, 'q, 'f) gw" where
  "ConnectionGuard_cleanup ctx progress gd g = (gd\<lparr>cg_cleaned := True\<rparr>, cleanup_room ctx progress (cg_auth gd) g)"

definition remove_conn :: "uuid \<Rightarrow> ('t, 's, 'q, 'f) gw \<Rightarrow> ('t, 's, 'q, 'f) gw" where
  "remove_conn i g = g\<lparr>gw_conns := snd (ConnectionRegistry_remove i (gw_conns g))\<rparr>"

text \<open>
  The drop of the guard of a bound connection that has not cleaned up spawns a task for that and changes nothing
  itself; otherwise it removes the connection from the registry. The spawned task runs when the drop is long over, on
  what the other tasks have made of the shared state by then.
\<close>

record cleanup_task =
  cl_conn_id :: uuid
  cl_auth :: auth_state

definition ConnectionGuard_drop ::
  "connection_guard \<Rightarrow> ('t, 's, 'q, 'f) gw \<Rightarrow> cleanup_task option \<times> ('t, 's, 'q, 'f) gw" where
  "ConnectionGuard_drop gd g =
     (if \<not> cg_cleaned gd \<and> as_player (cg_auth gd) \<noteq> None
      then (Some \<lparr>cl_conn_id = cg_conn_id gd, cl_auth = cg_auth gd\<rparr>, g)
      else (None, remove_conn (cg_conn_id gd) g))"

definition detached_cleanup ::
  "('t, 's, 'q, 'f) ctx \<Rightarrow> leave_progress \<Rightarrow> cleanup_task \<Rightarrow> ('t, 's, 'q, 'f) gw \<Rightarrow> ('t, 's, 'q, 'f) gw" where
  "detached_cleanup ctx progress t g = remove_conn (cl_conn_id t) (cleanup_room ctx progress (cl_auth t) g)"

section \<open>The whole connection\<close>

record ('q, 'f) conn_env =
  ce_conn_id :: uuid
  ce_session_id :: uuid
  ce_out :: conn_ref
  ce_sink :: sink_ref
  ce_frames :: "nat \<Rightarrow> 'f"      \<comment> \<open>a new channel of the given capacity\<close>
  ce_events :: "nat \<Rightarrow> 'q"
  ce_now :: instant
  ce_utc :: datetime

definition open_connection ::
  "(real \<Rightarrow> real) \<Rightarrow> tcp_gateway_config \<Rightarrow> ('q, 'f) conn_env \<Rightarrow> ip_addr \<Rightarrow> admission \<Rightarrow> ('t, 's, 'q, 'f) gw
     \<Rightarrow> ('t, 's, 'q, 'f) loop_state" where
  "open_connection rnd cfg env ip adm g =
     (let g1 = g\<lparr>gw_queues := (gw_queues g)(ce_out env := OutboundSender_new (ce_frames env (tc_send_queue_capacity cfg))),
                 gw_conns := ConnectionRegistry_register (ce_conn_id env) (ce_out env) (gw_conns g),
                 gw_rooms := (gw_rooms g)\<lparr>sv_sinks := (sv_sinks (gw_rooms g))(ce_sink env :=
                    RoomEventSink_from (ce_events env (tc_room_event_capacity cfg)))\<rparr>\<rparr>;
          c = \<lparr>cn_id = ce_conn_id env, cn_peer_ip = ip, cn_outbound = ce_out env, cn_room_tx = ce_sink env,
               cn_auth = AuthState_default\<rparr>
      in \<lparr>lp_bucket = TokenBucket_new rnd (tc_rate cfg) (ce_now env), lp_admission = adm,
          lp_session = Session_new (ce_session_id env) (ce_utc env), lp_state = (c, g1)\<rparr>)"

text \<open>
  How the task ends: its loop is over and it cleans up itself, as far as the clean-up timeout lets it; or it is aborted
  in its loop; or it is aborted in its own clean-up. An abort after that finds the guard cleaned and the rest of the
  values to be dropped, which is what a return does.
\<close>

datatype conn_end = Returned leave_progress | Aborted | AbortedCleaning nat call_cut

definition close_connection ::
  "('t, 's, 'q, 'f) ctx \<Rightarrow> conn_end \<Rightarrow> ('t, 's, 'q, 'f) loop_state \<Rightarrow> cleanup_task option \<times> ('t, 's, 'q, 'f) gw" where
  "close_connection ctx how ls =
     (let c = fst (lp_state ls); g = snd (lp_state ls); gd = ConnectionGuard_new (cn_id c) (cn_auth c);
          abort = (\<lambda>g. case ConnectionGuard_drop gd g of (t, g') \<Rightarrow> (t, snd (drop_permit (lp_admission ls) g')))
      in case how of
           Returned progress \<Rightarrow>
             (let (gd1, g1) = ConnectionGuard_cleanup ctx progress gd g;
                  g2 = g1\<lparr>gw_conns := begin_drain (cn_id c) (gw_conns g1)\<rparr>;
                  (adm, g3) = drop_permit (lp_admission ls) g2
              in ConnectionGuard_drop gd1 g3)
         | Aborted \<Rightarrow> abort g
         | AbortedCleaning k point \<Rightarrow> abort (cleanup_room ctx (LeaveCut k point) (cn_auth c) g))"

definition handle_admitted_connection ::
  "(real \<Rightarrow> real) \<Rightarrow> tcp_gateway_config \<Rightarrow> ('t, 's, 'q, 'f) gateway_deps \<Rightarrow> ('q, 'f) conn_env \<Rightarrow> ip_addr \<Rightarrow> admission
     \<Rightarrow> ('t, 's, 'q, 'f) conn_step list \<Rightarrow> conn_end \<Rightarrow> handler_env \<Rightarrow> ('t, 's, 'q, 'f) gw
     \<Rightarrow> cleanup_task option \<times> ('t, 's, 'q, 'f) gw" where
  "handle_admitted_connection rnd cfg deps env ip adm steps how fin g =
     close_connection (deps, fin) how (snd (connection_loop rnd cfg deps steps (open_connection rnd cfg env ip adm g)))"

definition handle_connection ::
  "(real \<Rightarrow> real) \<Rightarrow> tcp_gateway_config \<Rightarrow> ('t, 's, 'q, 'f) gateway_deps \<Rightarrow> ('q, 'f) conn_env \<Rightarrow> ip_addr
     \<Rightarrow> ('t, 's, 'q, 'f) conn_step list \<Rightarrow> conn_end \<Rightarrow> handler_env \<Rightarrow> ('t, 's, 'q, 'f) gw
     \<Rightarrow> cleanup_task option \<times> ('t, 's, 'q, 'f) gw" where
  "handle_connection rnd cfg deps env ip steps how fin g =
     (case Admission_acquire ip (tc_unauth_timeout cfg) (ce_now env) (gw_gate g) of
        (None, gate') \<Rightarrow> (None, g\<lparr>gw_gate := gate'\<rparr>)
      | (Some adm, gate') \<Rightarrow>
          handle_admitted_connection rnd cfg deps env ip adm steps how fin (g\<lparr>gw_gate := gate'\<rparr>))"

section \<open>The TCP server\<close>

text \<open>
  The connection task of \<^verbatim>\<open>TcpGateway::run\<close>: admission first, then a TLS handshake in one of the handshake
  slots, bounded by the admission deadline and by shutdown.
\<close>

datatype handshake_end = HsNoSlot | HsShutdown | HsFailed net_error | HsTimeout | HsDone

definition TcpGateway_serve ::
  "(real \<Rightarrow> real) \<Rightarrow> tcp_gateway_config \<Rightarrow> ('t, 's, 'q, 'f) gateway_deps \<Rightarrow> ('q, 'f) conn_env \<Rightarrow> ip_addr \<Rightarrow> handshake_end
     \<Rightarrow> ('t, 's, 'q, 'f) conn_step list \<Rightarrow> conn_end \<Rightarrow> handler_env \<Rightarrow> ('t, 's, 'q, 'f) gw
     \<Rightarrow> cleanup_task option \<times> ('t, 's, 'q, 'f) gw" where
  "TcpGateway_serve rnd cfg deps env ip handshake steps how fin g =
     (case Admission_acquire ip (tc_unauth_timeout cfg) (ce_now env) (gw_gate g) of
        (None, gate') \<Rightarrow> (None, g\<lparr>gw_gate := gate'\<rparr>)
      | (Some adm, gate') \<Rightarrow>
          (let g1 = g\<lparr>gw_gate := gate'\<rparr>
           in case handshake of
                HsDone \<Rightarrow> handle_admitted_connection rnd cfg deps env ip adm steps how fin g1
              | HsNoSlot \<Rightarrow> (None, snd (drop_permit adm g1))
              | HsShutdown \<Rightarrow> (None, snd (drop_permit adm g1))
              | HsFailed e \<Rightarrow> (None, snd (drop_permit adm g1))
              | HsTimeout \<Rightarrow> (None, snd (drop_permit adm g1))))"

definition broadcast_shutdown ::
  "('t, 's, 'q, 'f) gateway_deps \<Rightarrow> rstring \<Rightarrow> ('t, 's, 'q, 'f) gw \<Rightarrow> nat \<times> ('t, 's, 'q, 'f) gw" where
  "broadcast_shutdown deps message g =
     (case ConnectionRegistry_broadcast (gd_frames deps) (gd_prost deps) (OutShutdown (ServerShutdownNotice message))
             (gw_conns g) (gw_queues g) of (n, q') \<Rightarrow> (n, g\<lparr>gw_queues := q'\<rparr>))"

definition active_connections :: "('t, 's, 'q, 'f) gw \<Rightarrow> nat" where
  "active_connections g = active_count (gw_conns g)"

text \<open>The polling loop of \<^verbatim>\<open>wait_until_drained\<close>, on what each round observes; \<open>None\<close> means it still waits.\<close>

fun wait_until_drained :: "instant \<Rightarrow> (nat \<times> instant) list \<Rightarrow> bool option" where
  "wait_until_drained deadline [] = None"
| "wait_until_drained deadline ((active, now) # rounds) =
     (if active > 0 then (if deadline \<le> now then Some False else wait_until_drained deadline rounds)
      else Some True)"

section \<open>Invariants of a connection\<close>

lemma admit_keeps:
  assumes "admit_frame rnd ctx bucket f (c, g) = (go, bucket', c', g')"
  shows "gw_gate g' = gw_gate g \<and> gw_conns g' = gw_conns g \<and> cn_id c' = cn_id c \<and>
    (service_inv (gw_rooms g) \<longrightarrow> service_inv (gw_rooms g')) \<and> (is_authenticated c \<longrightarrow> same_conn c c')"
proof (cases "is_authenticated c")
  case False
  with admit_unauth [OF _ assms] show ?thesis by (auto simp: quiet_def)
next
  case True
  show ?thesis
  proof (cases "validate_session ctx (c, g)")
    case False
    with admit_authed_invalid [OF True _ assms] show ?thesis by (auto simp: quiet_def)
  next
    case valid: True
    obtain g1 where "same_conn c c'" "only_rooms g g1" "quiet (c, g1) g'"
      using admit_authed_valid [OF True valid assms] by blast
    moreover from this(2) have "gw_gate g1 = gw_gate g" "gw_conns g1 = gw_conns g"
      by (metis gw.ext_inject gw.surjective gw.update_convs(3) only_rooms_def)+
    ultimately show ?thesis by (auto simp: quiet_def same_conn_def only_rooms_def)
  qed
qed

definition step_others :: "('t, 's, 'q, 'f) conn_step \<Rightarrow> ('t, 's, 'q, 'f) gw \<Rightarrow> ('t, 's, 'q, 'f) gw" where
  "step_others x = (case x of ReadRound inp \<Rightarrow> li_others inp | TranslateRound others env ev \<Rightarrow> others | CutRound inp point \<Rightarrow> li_others inp)"

text \<open>
  What is relied on of the other tasks: they keep the room service well formed, and the quota of this
  address counts the same places of others before and after.
\<close>

definition others_ok :: "ip_addr \<Rightarrow> (('t, 's, 'q, 'f) gw \<Rightarrow> ('t, 's, 'q, 'f) gw) \<Rightarrow> bool" where
  "others_ok ip f \<longleftrightarrow>
     (\<forall>g. (service_inv (gw_rooms g) \<longrightarrow> service_inv (gw_rooms (f g))) \<and>
          unauth_count ip (gw_gate (f g)) = unauth_count ip (gw_gate g))"

definition loop_inv :: "ip_addr \<Rightarrow> uuid \<Rightarrow> nat \<Rightarrow> ('t, 's, 'q, 'f) loop_state \<Rightarrow> bool" where
  "loop_inv ip i base ls \<longleftrightarrow>
     cn_id (fst (lp_state ls)) = i \<and> service_inv (gw_rooms (snd (lp_state ls))) \<and>
     (ad_permit (lp_admission ls) = None \<or> ad_permit (lp_admission ls) = Some ip) \<and>
     unauth_count ip (gw_gate (snd (lp_state ls))) = base + (if ad_permit (lp_admission ls) = None then 0 else 1)"

definition permit_matches :: "('t, 's, 'q, 'f) loop_state \<Rightarrow> bool" where
  "permit_matches ls \<longleftrightarrow> (ad_permit (lp_admission ls) = None \<longleftrightarrow> is_authenticated (fst (lp_state ls)))"

lemma disconnect_own_simps [simp]:
  "fst (disconnect_own st) = fst st" "gw_rooms (snd (disconnect_own st)) = gw_rooms (snd st)"
  "gw_gate (snd (disconnect_own st)) = gw_gate (snd st)" "gw_conns (snd (disconnect_own st)) = gw_conns (snd st)"
  by (simp_all add: disconnect_own_def)

lemma read_error_simps [simp]:
  "fst (read_error_notice ctx e st) = fst st" "gw_rooms (snd (read_error_notice ctx e st)) = gw_rooms (snd st)"
  "gw_gate (snd (read_error_notice ctx e st)) = gw_gate (snd st)"
  by (simp_all add: read_error_notice_def)

lemma drop_permit_simps:
  "ad_permit (fst (drop_permit adm g)) = None" "gw_rooms (snd (drop_permit adm g)) = gw_rooms g"
  "gw_conns (snd (drop_permit adm g)) = gw_conns g" "ad_deadline (fst (drop_permit adm g)) = ad_deadline adm"
  "unauth_count ip (gw_gate (snd (drop_permit adm g))) =
     (if ad_permit adm = Some ip then unauth_count ip (gw_gate g) - 1 else unauth_count ip (gw_gate g))"
  by (auto simp: drop_permit_def AuthPermit_drop_def release_simps split: option.split)

lemma loop_inv_upd:
  assumes "loop_inv ip i base ls" and "cn_id c = i" and "service_inv (gw_rooms g)"
    and "unauth_count ip (gw_gate g) = unauth_count ip (gw_gate (snd (lp_state ls)))"
  shows "loop_inv ip i base (ls\<lparr>lp_state := (c, g)\<rparr>)"
  using assms by (simp add: loop_inv_def)

lemma read_loop_frame_inv:
  assumes "loop_inv ip i base ls" and "permit_matches ls"
    and "read_loop_frame rnd ctx deadline late f ls = (go, ls')"
  shows "loop_inv ip i base ls' \<and> (go \<longrightarrow> permit_matches ls')"
proof -
  obtain c g where st: "lp_state ls = (c, g)" by (metis prod.exhaust)
  obtain ok b' c' g' where a: "admit_frame rnd ctx (lp_bucket ls) f (c, g) = (ok, b', c', g')" by (metis prod_cases4)
  obtain adm g'' where d: "drop_permit (lp_admission ls) g' = (adm, g'')" by (metis prod.exhaust)
  note keeps = admit_keeps [OF a]
  have drop: "ad_permit adm = None" "gw_rooms g'' = gw_rooms g'"
    "unauth_count ip (gw_gate g'') = (if ad_permit (lp_admission ls) = Some ip then unauth_count ip (gw_gate g') - 1
       else unauth_count ip (gw_gate g'))"
    using drop_permit_simps [where adm = "lp_admission ls" and g = g'] d by auto
  have auth: "is_authenticated c \<longrightarrow> is_authenticated c'"
    using keeps by (auto simp: same_conn_def is_authenticated_def)
  show ?thesis
    using assms keeps drop auth
    by (auto simp: read_loop_frame_def Let_def st a d loop_inv_def permit_matches_def split: if_splits)
qed

lemma read_loop_step_inv:
  assumes "loop_inv ip i base ls" and "permit_matches ls" and "others_ok ip (li_others inp)"
    and "read_loop_step rnd cfg deps inp ls = (go, ls')"
  shows "loop_inv ip i base ls' \<and> (go \<longrightarrow> permit_matches ls')"
proof -
  obtain c g where st: "lp_state ls = (c, g)" by (metis prod.exhaust)
  let ?here = "ls\<lparr>lp_state := (c, li_others inp g)\<rparr>"
  have here: "loop_inv ip i base ?here" "permit_matches ?here"
    using assms(1-3) by (auto simp: loop_inv_def others_ok_def st permit_matches_def)
  have still: "loop_inv ip i base (?here\<lparr>lp_state := st'\<rparr>)"
    if "fst st' = c" "gw_rooms (snd st') = gw_rooms (li_others inp g)" "gw_gate (snd st') = gw_gate (li_others inp g)" for st'
    using that here(1) by (auto simp: loop_inv_def)
  have ends: "loop_inv ip i base (?here\<lparr>lp_state := disconnect_own (c, li_others inp g)\<rparr>)"
    "loop_inv ip i base (?here\<lparr>lp_state := notify ctx m (c, li_others inp g)\<rparr>)"
    "loop_inv ip i base (?here\<lparr>lp_state := read_error_notice ctx e (c, li_others inp g)\<rparr>)" for ctx m e
    by (rule still; simp)+
  note fr = read_loop_frame_inv [OF here, of rnd "(deps, li_env inp)"]
  show ?thesis
    using assms(4) here fr ends
    by (auto simp: read_loop_step_def Let_def st split: if_splits option.splits result.splits)
qed

lemma translator_keeps:
  assumes "room_event_translator_step ctx ev (c, g) = (go, c', g')"
  shows "c' = c \<and> quiet (c, g) g'"
proof (cases "validate_session ctx (c, g)")
  case False
  with assms have "(c', g') = notify ctx (error_notification ERR_NOT_AUTHENTICATED txt_session_invalid) (c, g)"
    by (simp add: room_event_translator_step_def)
  then show ?thesis using notify_quiet notify_conn by (metis fst_conv snd_conv)
next
  case True
  with assms show ?thesis
    by (auto simp: room_event_translator_step_def quiet_def disconnect_own_def split: result.splits prod.splits)
qed

lemma read_loop_cut_inv:
  assumes "loop_inv ip i base ls" and "permit_matches ls" and "others_ok ip (li_others inp)"
  shows "loop_inv ip i base (read_loop_cut rnd cfg deps inp point ls) \<and> permit_matches (read_loop_cut rnd cfg deps inp point ls)"
proof -
  obtain c g where st: "lp_state ls = (c, g)" by (metis prod.exhaust)
  let ?g = "li_others inp g"
  have rooms: "loop_inv ip i base ls' \<and> permit_matches ls'"
    if "only_rooms ?g (snd (lp_state ls'))" "fst (lp_state ls') = c" "lp_admission ls' = lp_admission ls"
    for ls' :: "('a, 'b, 'c, 'd) loop_state"
  proof -
    from that(1) have "gw_gate (snd (lp_state ls')) = gw_gate ?g" "service_inv (gw_rooms ?g) \<longrightarrow> service_inv (gw_rooms (snd (lp_state ls')))"
      by (metis gw.ext_inject gw.surjective gw.update_convs(3) only_rooms_def, simp add: only_rooms_def)
    with that(2,3) assms st show ?thesis by (auto simp: loop_inv_def permit_matches_def others_ok_def)
  qed
  have disp: "only_rooms ?g (dispatch_until (deps, li_env inp) message point (c, ?g))" for message
    using dispatch_until_keeps [of "(c, ?g)"] by simp
  show ?thesis
    by (rule rooms) (auto simp: read_loop_cut_def Let_def st disp split: option.split result.split bool.split prod.split)
qed

lemma conn_step_inv:
  assumes "loop_inv ip i base ls" and "permit_matches ls" and "others_ok ip (step_others x)"
    and "conn_step_exec rnd cfg deps x ls = (go, ls')"
  shows "loop_inv ip i base ls' \<and> (go \<longrightarrow> permit_matches ls')"
proof (cases x)
  case (ReadRound inp)
  with read_loop_step_inv [OF assms(1,2)] assms(3,4) show ?thesis by (simp add: step_others_def)
next
  case (TranslateRound others env ev)
  obtain c g where st: "lp_state ls = (c, g)" by (metis prod.exhaust)
  obtain c' g' where t: "room_event_translator_step (deps, env) ev (c, others g) = (go, c', g')"
    "ls' = ls\<lparr>lp_state := (c', g')\<rparr>"
    using assms(4) TranslateRound st by (auto split: prod.splits)
  with translator_keeps [OF t(1)] assms(1-3) TranslateRound st show ?thesis
    by (auto simp: loop_inv_def permit_matches_def others_ok_def step_others_def quiet_def)
next
  case (CutRound inp point)
  with read_loop_cut_inv [OF assms(1,2)] assms(3,4) show ?thesis by (auto simp: step_others_def)
qed

lemma suspended_loop_inv:
  assumes "loop_inv ip i base ls" and "permit_matches ls" and "list_all (\<lambda>x. others_ok ip (step_others x)) xs"
    and "suspended_loop rnd cfg deps xs ls = (running, ls')"
  shows "loop_inv ip i base ls' \<and> (running \<longrightarrow> permit_matches ls')"
  using assms
proof (induction xs arbitrary: ls)
  case (Cons x xs)
  obtain go ls1 where s: "conn_step_exec rnd cfg deps x ls = (go, ls1)" by (metis prod.exhaust)
  have step: "loop_inv ip i base ls1 \<and> (go \<longrightarrow> permit_matches ls1)" and xs: "list_all (\<lambda>x. others_ok ip (step_others x)) xs"
    using conn_step_inv [OF Cons.prems(1,2) _ s] Cons.prems(3) by simp_all
  show ?case
  proof (cases "translates x \<and> \<not> go")
    case True
    then show ?thesis using step Cons.prems(4) by (simp add: s)
  next
    case False
    then have "suspended_loop rnd cfg deps xs (if translates x then ls1 else ls) = (running, ls')"
      using Cons.prems(4) by (simp add: s split: if_splits)
    moreover have "loop_inv ip i base (if translates x then ls1 else ls)" "permit_matches (if translates x then ls1 else ls)"
      using step False Cons.prems(1,2) by auto
    ultimately show ?thesis by (intro Cons.IH [OF _ _ xs])
  qed
qed simp

lemma connection_loop_inv:
  assumes "loop_inv ip i base ls" and "permit_matches ls" and "list_all (\<lambda>x. others_ok ip (step_others x)) xs"
    and "connection_loop rnd cfg deps xs ls = (running, ls')"
  shows "loop_inv ip i base ls' \<and> (running \<longrightarrow> permit_matches ls')"
  using assms
proof (induction xs arbitrary: ls)
  case (Cons x xs)
  obtain go ls1 where s: "conn_step_exec rnd cfg deps x ls = (go, ls1)" by (metis prod.exhaust)
  have step: "loop_inv ip i base ls1 \<and> (go \<longrightarrow> permit_matches ls1)" and xs: "list_all (\<lambda>x. others_ok ip (step_others x)) xs"
    using conn_step_inv [OF Cons.prems(1,2) _ s] Cons.prems(3) by simp_all
  show ?case
  proof (cases go)
    case False
    then show ?thesis using step Cons.prems(4) by (simp add: s)
  next
    case True
    then have rest: "(if cuts x then suspended_loop rnd cfg deps xs ls1 else connection_loop rnd cfg deps xs ls1) = (running, ls')"
      using Cons.prems(4) by (simp add: s)
    from step True have ls1: "loop_inv ip i base ls1" "permit_matches ls1" by simp_all
    show ?thesis
    proof (cases "cuts x")
      case True
      show ?thesis by (rule suspended_loop_inv [OF ls1 xs]) (use rest True in simp)
    next
      case False
      show ?thesis by (rule Cons.IH [OF ls1 xs]) (use rest False in simp)
    qed
  qed
qed simp

section \<open>The end of a connection\<close>

lemma remove_conn_simps [simp]:
  "gw_rooms (remove_conn i g) = gw_rooms g" "gw_gate (remove_conn i g) = gw_gate g"
  "hm_get (gw_conns (remove_conn i g)) i = None"
  by (simp_all add: remove_conn_def ConnectionRegistry_remove_def)

lemma cleanup_room_simps [simp]:
  "gw_gate (cleanup_room ctx progress auth g) = gw_gate g" "gw_conns (cleanup_room ctx progress auth g) = gw_conns g"
  by (simp_all add: cleanup_room_def split: option.split)

lemma cleanup_room_inv: "service_inv (gw_rooms g) \<Longrightarrow> service_inv (gw_rooms (cleanup_room ctx progress auth g))"
  by (simp add: cleanup_room_def leave_all_until_inv split: option.split)

lemma cleanup_room_done:
  assumes "service_inv (gw_rooms g)" and "as_player auth = Some ap"
    and "\<forall>n. \<forall>e \<in> set (fst (ge_envs (snd ctx) n)). \<not> joins (ap_player_id ap) e"
    and "hm_get (sv_registry (gw_rooms (cleanup_room ctx LeaveDone auth g))) rid \<noteq> None"
  shows "\<not> in_room (gw_rooms (cleanup_room ctx LeaveDone auth g)) rid (ap_player_id ap)"
  using leave_all_done [OF assms(1,3)] assms(2,4) by (simp add: cleanup_room_def)

text \<open>The shared state once the clean-up task, if the end of the connection has left one, has run as well.\<close>

definition after_cleanup ::
  "('t, 's, 'q, 'f) ctx \<Rightarrow> leave_progress \<Rightarrow> (('t, 's, 'q, 'f) gw \<Rightarrow> ('t, 's, 'q, 'f) gw) \<Rightarrow> cleanup_task option
     \<Rightarrow> ('t, 's, 'q, 'f) gw \<Rightarrow> ('t, 's, 'q, 'f) gw" where
  "after_cleanup ctx progress others t g = (case t of None \<Rightarrow> g | Some t \<Rightarrow> detached_cleanup ctx progress t (others g))"

text \<open>Whether the clean-up that counts was completed: the task's own when it returned, else the detached one.\<close>

definition cleaned_up :: "conn_end \<Rightarrow> leave_progress \<Rightarrow> bool" where
  "cleaned_up how progress = (case how of Returned p \<Rightarrow> p = LeaveDone | _ \<Rightarrow> progress = LeaveDone)"

lemma close_connection_gate:
  assumes "close_connection ctx how ls = (t, g')"
  shows "unauth_count ip (gw_gate g') =
     (if ad_permit (lp_admission ls) = Some ip then unauth_count ip (gw_gate (snd (lp_state ls))) - 1
      else unauth_count ip (gw_gate (snd (lp_state ls))))"
  using assms
  by (cases how; auto simp: close_connection_def Let_def ConnectionGuard_cleanup_def ConnectionGuard_drop_def
      ConnectionGuard_new_def drop_permit_simps split_beta split: if_splits)

lemma close_connection_inv:
  assumes "close_connection ctx how ls = (t, g')" and "service_inv (gw_rooms (snd (lp_state ls)))"
  shows "service_inv (gw_rooms g')"
  using assms
  by (cases how; auto simp: close_connection_def Let_def ConnectionGuard_cleanup_def ConnectionGuard_drop_def
      ConnectionGuard_new_def drop_permit_simps split_beta intro: cleanup_room_inv split: if_splits)

text \<open>What is left to do: nothing, the entry being removed and, on a return, the rooms left; or the clean-up task of this connection.\<close>

lemma close_connection_task:
  assumes "close_connection ctx how ls = (t, g')"
  shows "t = None \<and> hm_get (gw_conns g') (cn_id (fst (lp_state ls))) = None \<and>
      (case how of
         Returned progress \<Rightarrow> gw_rooms g' = gw_rooms (cleanup_room ctx progress (cn_auth (fst (lp_state ls))) (snd (lp_state ls)))
       | _ \<Rightarrow> as_player (cn_auth (fst (lp_state ls))) = None) \<or>
    (\<forall>progress. how \<noteq> Returned progress) \<and>
      t = Some \<lparr>cl_conn_id = cn_id (fst (lp_state ls)), cl_auth = cn_auth (fst (lp_state ls))\<rparr>"
  using assms
  by (cases how; auto simp: close_connection_def Let_def ConnectionGuard_cleanup_def ConnectionGuard_drop_def
      ConnectionGuard_new_def drop_permit_simps split_beta split: if_splits)

lemma open_connection_inv:
  assumes "service_inv (gw_rooms g)" and "unauth_count ip (gw_gate g) = Suc base" and "ad_permit adm = Some ip"
  shows "loop_inv ip (ce_conn_id env) base (open_connection rnd cfg env ip adm g)"
    and "permit_matches (open_connection rnd cfg env ip adm g)"
  using assms
  by (simp_all add: open_connection_def Let_def loop_inv_def permit_matches_def is_authenticated_def AuthState_default_def
      service_inv_def)

lemma acquire_admission:
  assumes "Admission_acquire ip timeout now gate = (Some adm, gate')"
  shows "ad_permit adm = Some ip \<and> unauth_count ip gate' = Suc (unauth_count ip gate) \<and> ad_deadline adm = now + timeout"
  using assms acquire_simps(2) [of ip ip gate]
  by (auto simp: Admission_acquire_def permit_eq split: if_splits)

text \<open>The end of an admitted connection, before and after the clean-up task.\<close>

lemma admitted_end:
  assumes "service_inv (gw_rooms g)" and "unauth_count ip (gw_gate g) = Suc base" and "ad_permit adm = Some ip"
    and "list_all (\<lambda>x. others_ok ip (step_others x)) steps"
    and l: "connection_loop rnd cfg deps steps (open_connection rnd cfg env ip adm g) = (running, ls)"
    and close: "close_connection ctx how ls = (t, g')"
  shows "unauth_count ip (gw_gate g') = base" and "service_inv (gw_rooms g')" and "cn_id (fst (lp_state ls)) = ce_conn_id env"
    and "service_inv (gw_rooms (snd (lp_state ls)))"
proof -
  have inv: "loop_inv ip (ce_conn_id env) base ls"
    using connection_loop_inv [OF open_connection_inv [OF assms(1-3)] assms(4) l] by simp
  then show s: "service_inv (gw_rooms (snd (lp_state ls)))" and "cn_id (fst (lp_state ls)) = ce_conn_id env"
    by (simp_all add: loop_inv_def)
  show "service_inv (gw_rooms g')" by (rule close_connection_inv [OF close s])
  show "unauth_count ip (gw_gate g') = base"
    using inv close_connection_gate [OF close, of ip] by (auto simp: loop_inv_def split: if_splits)
qed

lemma cleanup_end:
  assumes close: "close_connection ctx how ls = (t, g')" and i: "cn_id (fst (lp_state ls)) = i"
    and inv: "service_inv (gw_rooms (snd (lp_state ls)))" and oth: "others_ok ip others"
  shows "hm_get (gw_conns (after_cleanup dctx progress others t g')) i = None"
    and "service_inv (gw_rooms (after_cleanup dctx progress others t g'))"
    and "unauth_count ip (gw_gate (after_cleanup dctx progress others t g')) = unauth_count ip (gw_gate g')"
    and "cleaned_up how progress \<Longrightarrow> as_player (cn_auth (fst (lp_state ls))) = Some ap \<Longrightarrow>
      \<forall>n. \<forall>e \<in> set (fst (ge_envs (snd ctx) n)) \<union> set (fst (ge_envs (snd dctx) n)). \<not> joins (ap_player_id ap) e \<Longrightarrow>
      hm_get (sv_registry (gw_rooms (after_cleanup dctx progress others t g'))) rid \<noteq> None \<Longrightarrow>
      \<not> in_room (gw_rooms (after_cleanup dctx progress others t g')) rid (ap_player_id ap)"
proof -
  let ?auth = "cn_auth (fst (lp_state ls))"
  have g': "service_inv (gw_rooms g')" by (rule close_connection_inv [OF close inv])
  then have og: "service_inv (gw_rooms (others g'))" using oth by (simp add: others_ok_def)
  note task = close_connection_task [OF close, unfolded i]
  have done_at: "after_cleanup dctx progress others t g' =
      (if t = None then g' else remove_conn i (cleanup_room dctx progress ?auth (others g')))"
    using task by (auto simp: after_cleanup_def detached_cleanup_def)
  show "hm_get (gw_conns (after_cleanup dctx progress others t g')) i = None"
    "service_inv (gw_rooms (after_cleanup dctx progress others t g'))"
    "unauth_count ip (gw_gate (after_cleanup dctx progress others t g')) = unauth_count ip (gw_gate g')"
    using task g' cleanup_room_inv [OF og] oth by (auto simp: done_at others_ok_def)
  assume fin: "cleaned_up how progress" "as_player ?auth = Some ap"
    and env: "\<forall>n. \<forall>e \<in> set (fst (ge_envs (snd ctx) n)) \<union> set (fst (ge_envs (snd dctx) n)). \<not> joins (ap_player_id ap) e"
    and reg: "hm_get (sv_registry (gw_rooms (after_cleanup dctx progress others t g'))) rid \<noteq> None"
  show "\<not> in_room (gw_rooms (after_cleanup dctx progress others t g')) rid (ap_player_id ap)"
  proof (cases t)
    case None
    then have r: "gw_rooms g' = gw_rooms (cleanup_room ctx LeaveDone ?auth (snd (lp_state ls)))"
      using task fin by (auto simp: cleaned_up_def split: conn_end.splits)
    have e: "after_cleanup dctx progress others t g' = g'" unfolding done_at using None by simp
    show ?thesis unfolding e r by (rule cleanup_room_done [OF inv fin(2)]) (use env reg [unfolded e r] in auto)
  next
    case (Some t')
    then have "progress = LeaveDone" using task fin(1) by (auto simp: cleaned_up_def split: conn_end.splits)
    then have e: "gw_rooms (after_cleanup dctx progress others t g') = gw_rooms (cleanup_room dctx LeaveDone ?auth (others g'))"
      unfolding done_at using Some by simp
    show ?thesis unfolding e by (rule cleanup_room_done [OF og fin(2)]) (use env reg [unfolded e] in auto)
  qed
qed

text \<open>
  (C2) Nothing of a connection outlives it. Its task may end in the TLS handshake, by returning, or by being aborted, and in the
  last two cases its last round may be cut off at any suspension point, a join or a leave under way included. When it has
  ended, the quota of its address is what it was before it arrived and the room service is well formed; and once the
  clean-up task that the guard of an aborted connection spawns has run too, whatever the other tasks did before it did,
  its registry entry is gone, and the player that was bound to it is in no registered room, provided that clean-up was
  not itself cut off by its deadline and no other connection let the player join a room meanwhile. An address over its quota is
  turned away and leaves no trace in rooms, registry or count. Of the other tasks it is assumed that they keep the room
  service well formed and the places of this address that are not the connection's.
\<close>

theorem connection_lifecycle:
  assumes "service_inv (gw_rooms g)" and "list_all (\<lambda>x. others_ok ip (step_others x)) steps" and "others_ok ip others"
    and "TcpGateway_serve rnd cfg deps env ip handshake steps how fin g = (t, g')"
    and "g'' = after_cleanup (deps, fin') progress others t g'"
  shows "unauth_count ip (gw_gate g') = unauth_count ip (gw_gate g) \<and> service_inv (gw_rooms g') \<and>
    (case Admission_acquire ip (tc_unauth_timeout cfg) (ce_now env) (gw_gate g) of
       (None, gate') \<Rightarrow> t = None \<and> g' = g\<lparr>gw_gate := gate'\<rparr> \<and> unauth_count ip (gw_gate g) \<ge> ag_max_per_ip (gw_gate g)
     | (Some adm, gate') \<Rightarrow>
         (handshake \<noteq> HsDone \<longrightarrow> t = None \<and> gw_rooms g' = gw_rooms g \<and> gw_conns g' = gw_conns g) \<and>
         (handshake = HsDone \<longrightarrow>
            hm_get (gw_conns g'') (ce_conn_id env) = None \<and> service_inv (gw_rooms g'') \<and>
            unauth_count ip (gw_gate g'') = unauth_count ip (gw_gate g) \<and>
            (case connection_loop rnd cfg deps steps (open_connection rnd cfg env ip adm (g\<lparr>gw_gate := gate'\<rparr>)) of
               (running, ls) \<Rightarrow>
                 (\<forall>ap rid. cleaned_up how progress \<longrightarrow> as_player (cn_auth (fst (lp_state ls))) = Some ap \<longrightarrow>
                    (\<forall>n. \<forall>e \<in> set (fst (ge_envs fin n)) \<union> set (fst (ge_envs fin' n)). \<not> joins (ap_player_id ap) e) \<longrightarrow>
                    hm_get (sv_registry (gw_rooms g'')) rid \<noteq> None \<longrightarrow> \<not> in_room (gw_rooms g'') rid (ap_player_id ap)))))"
proof -
  obtain admo gate' where a: "Admission_acquire ip (tc_unauth_timeout cfg) (ce_now env) (gw_gate g) = (admo, gate')"
    by (metis prod.exhaust)
  show ?thesis
  proof (cases admo)
    case None
    with a assms show ?thesis
      by (auto simp: TcpGateway_serve_def Admission_acquire_def permit_eq acquire_simps split: if_splits)
  next
    case (Some adm)
    note acq = acquire_admission [OF a [unfolded Some]]
    let ?g = "g\<lparr>gw_gate := gate'\<rparr>"
    show ?thesis
    proof (cases "handshake = HsDone")
      case False
      then have "t = None \<and> g' = snd (drop_permit adm ?g)"
        using assms(4) by (cases handshake) (simp_all add: TcpGateway_serve_def a Some)
      with False acq assms(1) show ?thesis by (simp add: a Some drop_permit_simps)
    next
      case True
      obtain running ls where l: "connection_loop rnd cfg deps steps (open_connection rnd cfg env ip adm ?g) = (running, ls)"
        by (metis prod.exhaust)
      have close: "close_connection (deps, fin) how ls = (t, g')"
        using assms(4) True by (simp add: TcpGateway_serve_def a Some handle_admitted_connection_def l)
      have "service_inv (gw_rooms ?g)" "unauth_count ip (gw_gate ?g) = Suc (unauth_count ip (gw_gate g))"
        "ad_permit adm = Some ip"
        using assms(1) acq by simp_all
      note fin = admitted_end [OF this assms(2) l close]
      note set = cleanup_end [OF close fin(3,4) assms(3), where dctx = "(deps, fin')" and progress = progress, folded assms(5)]
      from set(4) show ?thesis using fin(1,2) set(1-3) True by (simp add: a Some l)
    qed
  qed
qed

text \<open>Witness: connections to the sample gateway, one that closes at once and one that is aborted while it waits for a frame.\<close>

definition sample_config :: tcp_gateway_config where
  "sample_config =
     \<lparr>tc_shutdown_timeout = 5, tc_write_drain_timeout = 5, tc_bind_addr = 0, tc_max_frame_size = 64,
      tc_send_queue_capacity = 4, tc_room_event_capacity = 4, tc_unauth_timeout = 10, tc_heartbeat_timeout = 30,
      tc_rate = sample_rate, tc_max_connections = 8, tc_backlog = 16, tc_accept_concurrency = 2, tc_nodelay = True,
      tc_keepalive = 60\<rparr>"

definition sample_conn_env :: "(room_event list_chan, frame list_chan) conn_env" where
  "sample_conn_env =
     \<lparr>ce_conn_id = 11, ce_session_id = 12, ce_out = 0, ce_sink = 0,
      ce_frames = (\<lambda>n. \<lparr>lc_items = [], lc_cap = n, lc_closed = False\<rparr>),
      ce_events = (\<lambda>n. \<lparr>lc_items = [], lc_cap = n, lc_closed = False\<rparr>), ce_now = 3, ce_utc = 3\<rparr>"

definition sample_input :: "(token_state, mem_store, room_event list_chan, frame list_chan) loop_input" where
  "sample_input =
     \<lparr>li_others = (\<lambda>g. g), li_start = 3, li_env = sample_env, li_shutdown = False, li_read = Some (Ok None), li_late = False\<rparr>"

theorem connection_lifecycle_witness:
  "unauth_count 1 (gw_gate (snd (TcpGateway_serve (\<lambda>x. x) sample_config sample_deps sample_conn_env 1 HsDone
      [ReadRound sample_input] (Returned LeaveDone) sample_env sample_gw))) = unauth_count 1 (gw_gate sample_gw) \<and>
   unauth_count 1 (gw_gate (snd (TcpGateway_serve (\<lambda>x. x) sample_config sample_deps sample_conn_env 1 HsDone
      [CutRound sample_input AtSession] Aborted sample_env sample_gw))) = unauth_count 1 (gw_gate sample_gw)"
proof -
  have inv: "service_inv (gw_rooms sample_gw)" by (simp add: sample_gw_def sample_service_def service_inv_new)
  have oks: "list_all (\<lambda>x. others_ok 1 (step_others x)) [ReadRound sample_input]"
    "list_all (\<lambda>x. others_ok 1 (step_others x)) [CutRound sample_input AtSession]"
    by (simp_all add: others_ok_def step_others_def sample_input_def)
  have oth: "others_ok 1 (\<lambda>g :: (token_state, mem_store, room_event list_chan, frame list_chan) gw. g)" by (simp add: others_ok_def)
  show ?thesis
    using connection_lifecycle [OF inv oks(1) oth prod.collapse [symmetric] refl]
      connection_lifecycle [OF inv oks(2) oth prod.collapse [symmetric] refl] by blast
qed

text \<open>
  (C31) Deadlines hold: a round that reads a frame at or after its deadline, which is the admission deadline until the connection is
  bound and the start of the round plus the heartbeat timeout afterwards, or that reads none before it, does not handle
  the frame, whatever it is: the connection ends, its state is unchanged, the token bucket and the admission are untouched, and no
  shared state but its own queue is.
\<close>

theorem read_loop_deadline:
  assumes "(case as_player (cn_auth (fst (lp_state ls))) of
        None \<Rightarrow> ad_deadline (lp_admission ls) \<le> ge_now (li_env inp)
      | Some player \<Rightarrow> li_start inp + tc_heartbeat_timeout cfg \<le> ge_now (li_env inp)) \<or> li_read inp = None"
    and "read_loop_step rnd cfg deps inp ls = (go, ls')"
  shows "\<not> go \<and> fst (lp_state ls') = fst (lp_state ls) \<and> lp_admission ls' = lp_admission ls \<and> lp_bucket ls' = lp_bucket ls \<and>
    quiet (fst (lp_state ls), li_others inp (snd (lp_state ls))) (snd (lp_state ls'))"
proof -
  obtain c g where st: "lp_state ls = (c, g)" by (metis prod.exhaust)
  have own: "quiet (c, li_others inp g) (snd (disconnect_own (c, li_others inp g)))"
    "quiet (c, li_others inp g) (snd (read_error_notice ctx e (c, li_others inp g)))" for ctx e
    by (simp_all add: quiet_def disconnect_own_def read_error_notice_def notify_quiet [unfolded quiet_def])
  have late: "read_deadline cfg (li_start inp) (lp_admission ls) c \<le> ge_now (li_env inp) \<or> li_read inp = None"
    using assms(1) st by (auto simp: read_deadline_def is_authenticated_def split: option.splits)
  show ?thesis
    using late assms(2) own notify_quiet [of "(c, li_others inp g)"]
    by (auto simp: read_loop_step_def read_loop_frame_def Let_def st
        split: if_splits option.splits result.splits)
qed

text \<open>
  Witness: a frame that is read when the admission deadline has passed, on a connection that is not bound, although the
  heartbeat timeout would leave it time; and a frame read too late on a bound connection, whose admission deadline is far off.
\<close>

definition sample_late_input :: "(token_state, mem_store, room_event list_chan, frame list_chan) loop_input" where
  "sample_late_input = sample_input\<lparr>li_read := Some (Ok (Some (Frame_new OP_C2S_GET_PROFILE [])))\<rparr>"

definition sample_loop :: "instant \<Rightarrow> conn \<Rightarrow> (token_state, mem_store, room_event list_chan, frame list_chan) loop_state" where
  "sample_loop deadline c = (open_connection (\<lambda>x. x) sample_config sample_conn_env 1 \<lparr>ad_deadline = deadline, ad_permit = Some 1\<rparr> sample_gw)
     \<lparr>lp_state := (c, sample_gw)\<rparr>"

theorem read_loop_deadline_witness:
  "\<not> fst (read_loop_step (\<lambda>x. x) sample_config sample_deps sample_late_input (sample_loop 3 sample_conn)) \<and>
   \<not> fst (read_loop_step (\<lambda>x. x) sample_config sample_deps (sample_late_input\<lparr>li_start := - 27\<rparr>) (sample_loop 90 sample_bound))"
proof
  have late: "ad_deadline (lp_admission (sample_loop 3 sample_conn)) \<le> ge_now (li_env sample_late_input)"
    "as_player (cn_auth (fst (lp_state (sample_loop 3 sample_conn)))) = None"
    "as_player (cn_auth (fst (lp_state (sample_loop 90 sample_bound)))) = Some \<lparr>ap_player_id = PlayerId 7, ap_nickname = ascii ''Al''\<rparr>"
    "ge_now (li_env (sample_late_input\<lparr>li_start := - 27\<rparr>)) = 3" "tc_heartbeat_timeout sample_config = 30"
    by (simp_all add: sample_loop_def open_connection_def Let_def sample_late_input_def sample_input_def sample_env_def sample_conn_def
        sample_bound_def set_authed_def AuthState_default_def sample_config_def)
  show "\<not> fst (read_loop_step (\<lambda>x. x) sample_config sample_deps sample_late_input (sample_loop 3 sample_conn))"
    using read_loop_deadline [OF _ prod.collapse [symmetric], of "sample_loop 3 sample_conn" sample_late_input] late by auto
  show "\<not> fst (read_loop_step (\<lambda>x. x) sample_config sample_deps (sample_late_input\<lparr>li_start := - 27\<rparr>) (sample_loop 90 sample_bound))"
    using read_loop_deadline [OF _ prod.collapse [symmetric], of "sample_loop 90 sample_bound" "sample_late_input\<lparr>li_start := - 27\<rparr>"
        sample_config] late by auto
qed

end
