(* ===== verification/LX_Bootstrap.thy ===== *)
theory LX_Bootstrap
  imports LX_Connection LX_Config
begin

text \<open>
  The composition root, \<^verbatim>\<open>crates/server-bin/src/bootstrap.rs\<close>, first part: how the
  configuration becomes the settings of the room service and of the TCP gateway, the state the
  gateway starts in, and the order of the graceful shutdown. The start-up sequence itself is in
  \<open>LX_Startup\<close>.
\<close>

definition from_secs :: "u64 \<Rightarrow> duration" where
  "from_secs s = uint s * 1000000000"

definition from_millis :: "u64 \<Rightarrow> duration" where
  "from_millis ms = uint ms * 1000000"

definition build_room_service :: "config \<Rightarrow> 'q sinks \<Rightarrow> 'q world" where
  "build_room_service c \<sigma> =
     RoomService_new
       \<lparr>rsc_command_capacity = nc_channel_per_room (cf_network c), rsc_max_players = apc_max_players_per_room (cf_app c)\<rparr> \<sigma>"

definition tcp_config_from :: "config \<Rightarrow> nat \<Rightarrow> tcp_gateway_config" where
  "tcp_config_from c bind_addr =
     \<lparr>tc_shutdown_timeout = from_secs (apc_shutdown_timeout_secs (cf_app c)),
      tc_write_drain_timeout = from_millis (nc_write_drain_timeout_ms (cf_network c)),
      tc_bind_addr = bind_addr,
      tc_max_frame_size = unat (nc_max_frame_size (cf_network c)),
      tc_send_queue_capacity = unat (nc_channel_per_conn (cf_network c)),
      tc_room_event_capacity = ROOM_EVENT_CAPACITY,
      tc_unauth_timeout = from_secs (nc_unauth_timeout_secs (cf_network c)),
      tc_heartbeat_timeout = from_secs (nc_heartbeat_timeout_secs (cf_network c)),
      tc_rate = \<lparr>rl_enabled = rlc_enabled (cf_rate_limit c), rl_per_second = rlc_per_conn (cf_rate_limit c),
                 rl_burst = rlc_burst (cf_rate_limit c)\<rparr>,
      tc_max_connections = unat (nc_max_connections (cf_network c)),
      tc_backlog = nc_backlog (cf_network c),
      tc_accept_concurrency = nc_accept_concurrency (cf_network c),
      tc_nodelay = nc_tcp_nodelay (cf_network c),
      tc_keepalive = from_secs (nc_tcp_keepalive_secs (cf_network c))\<rparr>"

definition build_gateway_deps ::
  "config \<Rightarrow> 't \<Rightarrow> 's \<Rightarrow> 'q world \<Rightarrow> 'f queues \<Rightarrow> ('t, 's, 'q, 'f) gw" where
  "build_gateway_deps c tokens users rooms queues =
     \<lparr>gw_tokens = tokens, gw_users = users, gw_rooms = rooms,
      gw_gate = AuthGate_new (unat (nc_unauth_max_per_ip (cf_network c))), gw_conns = [], gw_queues = queues\<rparr>"

text \<open>
  Shutdown, one step after the other: close the rooms, then poll until the connections are gone or the deadline passes (\<open>rounds\<close> is
  what the polls have observed so far), then close the database pool (\<open>db_close\<close>). While the wait is not over
  nothing comes after it: the answer is \<open>None\<close>, and the pool is as it was. The errors of closing are only logged. The
  steps that are done come out in their order; the rooms are those right after they were closed.
\<close>

datatype teardown_event = RoomsClosed | DrainEnded bool | PoolClosed

definition graceful_teardown ::
  "'q event_chan \<Rightarrow> ('d \<Rightarrow> (unit, rstring) result \<times> 'd) \<Rightarrow> config \<Rightarrow> instant \<Rightarrow> (nat \<times> instant) list \<Rightarrow> 'q world \<Rightarrow> 'd
     \<Rightarrow> bool option \<times> teardown_event list \<times> 'q world \<times> 'd" where
  "graceful_teardown M db_close c now rounds rooms d =
     (let rooms' = snd (close_all M msg_server_stopping rooms);
          drain_timeout = from_secs (apc_shutdown_timeout_secs (cf_app c))
      in case wait_until_drained (now + drain_timeout) rounds of
           None \<Rightarrow> (None, [RoomsClosed], rooms', d)
         | Some drained \<Rightarrow> (Some drained, [RoomsClosed, DrainEnded drained, PoolClosed], rooms', snd (db_close d)))"

lemma wait_until_drained_None:
  "wait_until_drained deadline rounds = None \<longleftrightarrow> list_all (\<lambda>r. 0 < fst r \<and> snd r < deadline) rounds"
  by (induction deadline rounds rule: wait_until_drained.induct) auto

lemma wait_until_drained_True:
  "wait_until_drained deadline rounds = Some True \<Longrightarrow> list_ex (\<lambda>r. fst r = 0) rounds"
  by (induction deadline rounds rule: wait_until_drained.induct) (auto split: if_splits)

lemma close_all_state:
  assumes "service_inv w"
  shows "sv_registry (snd (close_all M reason w)) = []"
    and "hm_get (sv_registry w) rid \<noteq> None \<Longrightarrow> \<not> is_running (snd (close_all M reason w)) rid"
proof -
  note cl = close_each [OF drained_inv [OF assms], of M reason "hm_values (sv_registry w)"]
  show "sv_registry (snd (close_all M reason w)) = []" using cl by (simp add: close_all_def Let_def)
  assume "hm_get (sv_registry w) rid \<noteq> None"
  then have "rid \<in> rh_room_id ` set (hm_values (sv_registry w))"
    using assms by (force simp: service_inv_def set_hm_values)
  with cl show "\<not> is_running (snd (close_all M reason w)) rid" by (auto simp: close_all_def Let_def)
qed

lemma wait_until_drained_False:
  "wait_until_drained deadline rounds = Some False \<Longrightarrow> list_ex (\<lambda>r. 0 < fst r \<and> deadline \<le> snd r) rounds"
  by (induction deadline rounds rule: wait_until_drained.induct) (auto split: if_splits)

text \<open>Where the teardown stands: it still waits, or it is through.\<close>

lemma teardown_cases:
  assumes "graceful_teardown M db_close c now rounds w d = (drained, steps, rooms, d')"
  obtains (waits) "drained = None" "steps = [RoomsClosed]" "d' = d"
      "list_all (\<lambda>r. 0 < fst r \<and> snd r < now + from_secs (apc_shutdown_timeout_secs (cf_app c))) rounds"
    | (through) ok where "drained = Some ok" "steps = [RoomsClosed, DrainEnded ok, PoolClosed]" "d' = snd (db_close d)"
      "if ok then list_ex (\<lambda>r. fst r = 0) rounds
       else list_ex (\<lambda>r. 0 < fst r \<and> now + from_secs (apc_shutdown_timeout_secs (cf_app c)) \<le> snd r) rounds"
proof (cases "wait_until_drained (now + from_secs (apc_shutdown_timeout_secs (cf_app c))) rounds")
  case None
  with assms waits show ?thesis by (simp add: graceful_teardown_def wait_until_drained_None)
next
  case (Some ok)
  then have "if ok then list_ex (\<lambda>r. fst r = 0) rounds
      else list_ex (\<lambda>r. 0 < fst r \<and> now + from_secs (apc_shutdown_timeout_secs (cf_app c)) \<le> snd r) rounds"
    using wait_until_drained_True wait_until_drained_False by (cases ok) simp_all
  with assms Some show ?thesis by (intro through) (simp_all add: graceful_teardown_def)
qed

lemma teardown_rooms:
  assumes "service_inv w" and "graceful_teardown M db_close c now rounds w d = (drained, steps, rooms, d')"
  shows "sv_registry rooms = [] \<and> (\<forall>rid. hm_get (sv_registry w) rid \<noteq> None \<longrightarrow> \<not> is_running rooms rid)"
proof -
  have "rooms = snd (close_all M msg_server_stopping w)"
    using assms(2) by (auto simp: graceful_teardown_def Let_def split: option.splits)
  with close_all_state [OF assms(1)] show ?thesis by blast
qed

text \<open>The state in which the gateway starts, under an accepted configuration.\<close>

lemma gateway_start:
  assumes "load_config dbg mp lookup = Ok c"
    and "g = build_gateway_deps c tokens users (build_room_service c \<sigma>) queues"
  shows "service_inv (gw_rooms g) \<and> active_connections g = 0 \<and> unauth_count ip (gw_gate g) = 0 \<and>
    0 < tc_send_queue_capacity (tcp_config_from c addr)"
proof -
  have "Config_validate mp c = Ok ()" using assms(1) by (auto simp: load_config_def and_then_Ok_iff)
  then have "0 < unat (nc_channel_per_conn (cf_network c))" by (simp add: validate_iff word_less_nat_alt)
  then show ?thesis
    using service_inv_new
    by (simp add: assms(2) build_gateway_deps_def build_room_service_def tcp_config_from_def active_connections_def
        active_count_def unauth_count_def AuthGate_new_def)
qed

end
