(* ===== verification/LX_Listener.thy ===== *)
theory LX_Listener
  imports LX_Prelude
begin

text \<open>
  \<^verbatim>\<open>crates/net-kit/src/listener.rs\<close>: the accept loop as a state machine with a clock. A fixed number of workers
  accept connections concurrently; each accepted connection runs in a task of its worker and
  holds one permit of the shared semaphore (when there is a limit) from the moment it is
  accepted until its task ends. \<open>loop_step\<close> has one rule per branch of the loop, and one each for the
  shutdown signal, the loss of its sender and the passing of time; \<open>accept_step\<close> adds that a connection task
  may end by itself. Nothing makes a task end by itself, so what the loop promises without \<open>handler_done\<close> it promises
  for handlers that hang. The steps of different workers interleave freely.
\<close>

record accept_loop_config =
  al_shutdown_timeout :: duration
  al_max_concurrent :: "nat option"
  al_accept_concurrency :: nat

definition AcceptLoopConfig_default :: accept_loop_config where
  "AcceptLoopConfig_default =
     \<lparr>al_shutdown_timeout = 30 * 1000000000, al_max_concurrent = None, al_accept_concurrency = 1\<rparr>"

datatype worker_phase = Accepting | Draining | Aborting | Finished

record worker =
  wk_phase :: worker_phase
  wk_handlers :: nat          \<comment> \<open>connection tasks of this worker that still run\<close>
  wk_since :: int             \<comment> \<open>when the worker left its accept loop and the shutdown timeout began\<close>

record listener =
  ls_workers :: "worker list"
  ls_permits :: "nat option"
  ls_shutdown :: bool         \<comment> \<open>the value of the watch channel\<close>
  ls_sender_gone :: bool      \<comment> \<open>its sender was dropped\<close>
  ls_timeout :: duration
  ls_now :: int

definition accept_loop_start :: "accept_loop_config \<Rightarrow> listener" where
  "accept_loop_start cfg =
     \<lparr>ls_workers = replicate (max (al_accept_concurrency cfg) 1) \<lparr>wk_phase = Accepting, wk_handlers = 0, wk_since = 0\<rparr>,
      ls_permits = al_max_concurrent cfg, ls_shutdown = False, ls_sender_gone = False,
      ls_timeout = al_shutdown_timeout cfg, ls_now = 0\<rparr>"

text \<open>The older entry point: one worker, the other settings as by default.\<close>

definition accept_loop :: "nat option \<Rightarrow> listener" where
  "accept_loop max_concurrent =
     accept_loop_start (AcceptLoopConfig_default\<lparr>al_max_concurrent := max_concurrent, al_accept_concurrency := 1\<rparr>)"

definition set_worker :: "nat \<Rightarrow> worker \<Rightarrow> listener \<Rightarrow> listener" where
  "set_worker i k l = l\<lparr>ls_workers := (ls_workers l)[i := k]\<rparr>"

definition release_permit :: "listener \<Rightarrow> listener" where
  "release_permit l = l\<lparr>ls_permits := map_option Suc (ls_permits l)\<rparr>"

text \<open>\<^verbatim>\<open>shutdown.changed()\<close> returns when a value is sent, and with an error when the sender is gone; both leave the accept loop.\<close>

definition stopping :: "listener \<Rightarrow> bool" where
  "stopping l \<longleftrightarrow> ls_shutdown l \<or> ls_sender_gone l"

inductive loop_step :: "listener \<Rightarrow> listener \<Rightarrow> bool" where
  accept_unlimited:
    "i < length (ls_workers l) \<Longrightarrow> k = ls_workers l ! i \<Longrightarrow> wk_phase k = Accepting \<Longrightarrow> ls_permits l = None \<Longrightarrow>
       loop_step l (set_worker i (k\<lparr>wk_handlers := Suc (wk_handlers k)\<rparr>) l)"
| accept_permit:
    "i < length (ls_workers l) \<Longrightarrow> k = ls_workers l ! i \<Longrightarrow> wk_phase k = Accepting \<Longrightarrow> ls_permits l = Some (Suc n) \<Longrightarrow>
       loop_step l (set_worker i (k\<lparr>wk_handlers := Suc (wk_handlers k)\<rparr>) l\<lparr>ls_permits := Some n\<rparr>)"
| accept_refused:
    "i < length (ls_workers l) \<Longrightarrow> wk_phase (ls_workers l ! i) = Accepting \<Longrightarrow> ls_permits l = Some 0 \<Longrightarrow> loop_step l l"
| accept_failed:
    "i < length (ls_workers l) \<Longrightarrow> wk_phase (ls_workers l ! i) = Accepting \<Longrightarrow> loop_step l l"
| shutdown: "loop_step l (l\<lparr>ls_shutdown := True\<rparr>)"
| sender_dropped: "loop_step l (l\<lparr>ls_sender_gone := True\<rparr>)"
| time_passes: "0 \<le> d \<Longrightarrow> loop_step l (l\<lparr>ls_now := ls_now l + d\<rparr>)"
| stop:
    "i < length (ls_workers l) \<Longrightarrow> k = ls_workers l ! i \<Longrightarrow> wk_phase k = Accepting \<Longrightarrow> stopping l \<Longrightarrow>
       loop_step l (set_worker i (k\<lparr>wk_phase := Draining, wk_since := ls_now l\<rparr>) l)"
| drained:
    "i < length (ls_workers l) \<Longrightarrow> k = ls_workers l ! i \<Longrightarrow> wk_phase k = Draining \<Longrightarrow> wk_handlers k = 0 \<Longrightarrow>
       loop_step l (set_worker i (k\<lparr>wk_phase := Finished\<rparr>) l)"
| deadline:    \<comment> \<open>the timeout fires and \<^verbatim>\<open>abort_all\<close> is called\<close>
    "i < length (ls_workers l) \<Longrightarrow> k = ls_workers l ! i \<Longrightarrow> wk_phase k = Draining \<Longrightarrow> 0 < wk_handlers k \<Longrightarrow>
       wk_since k + ls_timeout l \<le> ls_now l \<Longrightarrow>
       loop_step l (set_worker i (k\<lparr>wk_phase := Aborting\<rparr>) l)"
| handler_aborted:    \<comment> \<open>a task that was aborted is joined\<close>
    "i < length (ls_workers l) \<Longrightarrow> k = ls_workers l ! i \<Longrightarrow> wk_phase k = Aborting \<Longrightarrow> wk_handlers k = Suc n \<Longrightarrow>
       loop_step l (release_permit (set_worker i (k\<lparr>wk_handlers := n\<rparr>) l))"
| aborted:
    "i < length (ls_workers l) \<Longrightarrow> k = ls_workers l ! i \<Longrightarrow> wk_phase k = Aborting \<Longrightarrow> wk_handlers k = 0 \<Longrightarrow>
       loop_step l (set_worker i (k\<lparr>wk_phase := Finished\<rparr>) l)"

inductive accept_step :: "listener \<Rightarrow> listener \<Rightarrow> bool" where
  loop: "loop_step l l' \<Longrightarrow> accept_step l l'"
| handler_done:
    "i < length (ls_workers l) \<Longrightarrow> k = ls_workers l ! i \<Longrightarrow> wk_handlers k = Suc n \<Longrightarrow>
       accept_step l (release_permit (set_worker i (k\<lparr>wk_handlers := n\<rparr>) l))"

section \<open>The permit count\<close>

definition live_handlers :: "listener \<Rightarrow> nat" where
  "live_handlers l = sum_list (map wk_handlers (ls_workers l))"

definition listener_inv :: "nat option \<Rightarrow> listener \<Rightarrow> bool" where
  "listener_inv lim l \<longleftrightarrow>
     (case lim of None \<Rightarrow> ls_permits l = None | Some n \<Rightarrow> (\<exists>m. ls_permits l = Some m \<and> m + live_handlers l = n)) \<and>
     (\<forall>k \<in> set (ls_workers l). wk_phase k = Finished \<longrightarrow> wk_handlers k = 0) \<and>
     (\<forall>k \<in> set (ls_workers l). wk_phase k \<noteq> Accepting \<longrightarrow> stopping l)"

lemma sum_list_map_update:
  "i < length xs \<Longrightarrow> sum_list (map f (xs[i := x])) + f (xs ! i) = sum_list (map f xs) + (f x :: nat)"
proof (induction xs arbitrary: i)
  case (Cons a xs)
  then show ?case by (cases i) fastforce+
qed simp

lemma live_set_worker:
  "i < length (ls_workers l) \<Longrightarrow>
     live_handlers (set_worker i k l) + wk_handlers (ls_workers l ! i) = live_handlers l + wk_handlers k"
  by (simp add: live_handlers_def set_worker_def sum_list_map_update)

lemma listener_frame [simp]:
  "ls_permits (set_worker i k l) = ls_permits l" "ls_shutdown (set_worker i k l) = ls_shutdown l"
  "ls_timeout (set_worker i k l) = ls_timeout l" "ls_now (set_worker i k l) = ls_now l"
  "ls_sender_gone (set_worker i k l) = ls_sender_gone l" "stopping (set_worker i k l) = stopping l"
  "ls_workers (release_permit l) = ls_workers l" "ls_shutdown (release_permit l) = ls_shutdown l"
  "ls_timeout (release_permit l) = ls_timeout l" "ls_now (release_permit l) = ls_now l"
  "stopping (release_permit l) = stopping l" "stopping (l\<lparr>ls_permits := p\<rparr>) = stopping l" "stopping (l\<lparr>ls_now := t\<rparr>) = stopping l"
  "live_handlers (release_permit l) = live_handlers l"
  "live_handlers (l\<lparr>ls_permits := p\<rparr>) = live_handlers l" "live_handlers (l\<lparr>ls_shutdown := b\<rparr>) = live_handlers l"
  "live_handlers (l\<lparr>ls_sender_gone := b\<rparr>) = live_handlers l" "live_handlers (l\<lparr>ls_now := t\<rparr>) = live_handlers l"
  by (simp_all add: set_worker_def release_permit_def live_handlers_def stopping_def)

lemma set_worker_member: "k \<in> set (ls_workers (set_worker i k' l)) \<Longrightarrow> k = k' \<or> k \<in> set (ls_workers l)"
  using set_update_subset_insert [of "ls_workers l" i k'] by (auto simp: set_worker_def)

lemma length_set_worker [simp]: "length (ls_workers (set_worker i k l)) = length (ls_workers l)"
  by (simp add: set_worker_def)

lemma listener_inv_start: "listener_inv (al_max_concurrent cfg) (accept_loop_start cfg)"
  by (auto simp: listener_inv_def accept_loop_start_def live_handlers_def sum_list_replicate split: option.split)

lemma worker_cases_inv:
  assumes "\<forall>k \<in> set (ls_workers l). wk_phase k = Finished \<longrightarrow> wk_handlers k = 0"
    and "\<forall>k \<in> set (ls_workers l). wk_phase k \<noteq> Accepting \<longrightarrow> stopping l"
    and "wk_phase k' = Finished \<longrightarrow> wk_handlers k' = 0" and "wk_phase k' \<noteq> Accepting \<longrightarrow> stopping l"
  shows "(\<forall>k \<in> set (ls_workers (set_worker i k' l)). wk_phase k = Finished \<longrightarrow> wk_handlers k = 0) \<and>
    (\<forall>k \<in> set (ls_workers (set_worker i k' l)). wk_phase k \<noteq> Accepting \<longrightarrow> stopping l)"
  using assms by (auto dest!: set_worker_member)

text \<open>A worker that changes its phase keeps the invariant, and so does one that loses a task.\<close>

lemma phase_inv:
  assumes "listener_inv lim l" and "i < length (ls_workers l)" and "wk_handlers k = wk_handlers (ls_workers l ! i)"
    and "stopping l" and "wk_phase k = Finished \<longrightarrow> wk_handlers k = 0"
  shows "listener_inv lim (set_worker i k l)"
proof -
  have "live_handlers (set_worker i k l) = live_handlers l" using live_set_worker [OF assms(2), of k] assms(3) by simp
  moreover have "(\<forall>k \<in> set (ls_workers (set_worker i k l)). wk_phase k = Finished \<longrightarrow> wk_handlers k = 0) \<and>
    (\<forall>k \<in> set (ls_workers (set_worker i k l)). wk_phase k \<noteq> Accepting \<longrightarrow> stopping l)"
    using assms(1,4,5) by (intro worker_cases_inv) (simp_all add: listener_inv_def)
  ultimately show ?thesis using assms(1) by (cases lim) (simp_all add: listener_inv_def)
qed

lemma reap_inv:
  assumes inv: "listener_inv lim l" and i: "i < length (ls_workers l)" and k: "k = ls_workers l ! i" "wk_handlers k = Suc n"
  shows "listener_inv lim (release_permit (set_worker i (k\<lparr>wk_handlers := n\<rparr>) l))"
proof -
  let ?k = "k\<lparr>wk_handlers := n\<rparr>"
  have live: "Suc (live_handlers (set_worker i ?k l)) = live_handlers l" using live_set_worker [OF i, of ?k] k by simp
  have "k \<in> set (ls_workers l)" using i k by simp
  then have ph: "wk_phase ?k \<noteq> Finished" "wk_phase ?k \<noteq> Accepting \<longrightarrow> stopping l" using inv k by (auto simp: listener_inv_def)
  have "(\<forall>k \<in> set (ls_workers (set_worker i ?k l)). wk_phase k = Finished \<longrightarrow> wk_handlers k = 0) \<and>
    (\<forall>k \<in> set (ls_workers (set_worker i ?k l)). wk_phase k \<noteq> Accepting \<longrightarrow> stopping l)"
    using inv ph by (intro worker_cases_inv) (simp_all add: listener_inv_def)
  moreover have "case lim of None \<Rightarrow> map_option Suc (ls_permits l) = None
      | Some n' \<Rightarrow> (\<exists>m. map_option Suc (ls_permits l) = Some m \<and> m + live_handlers (set_worker i ?k l) = n')"
    using inv live by (auto simp: listener_inv_def split: option.splits)
  ultimately show ?thesis by (auto simp: listener_inv_def release_permit_def stopping_def split: option.splits)
qed

lemma left_stopping:
  "listener_inv lim l \<Longrightarrow> i < length (ls_workers l) \<Longrightarrow> wk_phase (ls_workers l ! i) \<noteq> Accepting \<Longrightarrow> stopping l"
  by (auto simp: listener_inv_def)

lemma loop_step_inv:
  assumes "loop_step l l'" and "listener_inv lim l"
  shows "listener_inv lim l'"
  using assms
proof (induction rule: loop_step.induct)
  case (accept_unlimited i l k)
  have "lim = None" using accept_unlimited by (auto simp: listener_inv_def split: option.splits)
  with accept_unlimited worker_cases_inv [of l "k\<lparr>wk_handlers := Suc (wk_handlers k)\<rparr>" i] show ?case
    by (auto simp: listener_inv_def)
next
  case (accept_permit i l k n)
  have w: "wk_phase (ls_workers l ! i) = Accepting" using accept_permit by simp
  let ?k = "k\<lparr>wk_handlers := Suc (wk_handlers k)\<rparr>"
  have "live_handlers (set_worker i ?k l) = Suc (live_handlers l)"
    using live_set_worker [of i l ?k] accept_permit by simp
  with accept_permit worker_cases_inv [of l ?k i] show ?case
    by (auto simp: listener_inv_def split: option.splits)
next
  case (shutdown l)
  then show ?case by (auto simp: listener_inv_def stopping_def split: option.splits)
next
  case (sender_dropped l)
  then show ?case by (auto simp: listener_inv_def stopping_def split: option.splits)
next
  case (time_passes d l)
  then show ?case by (auto simp: listener_inv_def split: option.splits)
next
  case (handler_aborted i l k n)
  then show ?case by (intro reap_inv)
qed (auto intro!: phase_inv dest: left_stopping)

lemma accept_step_inv: "accept_step l l' \<Longrightarrow> listener_inv lim l \<Longrightarrow> listener_inv lim l'"
  by (auto elim!: accept_step.cases intro: loop_step_inv reap_inv)

lemma accept_run_inv: "accept_step\<^sup>*\<^sup>* l l' \<Longrightarrow> listener_inv lim l \<Longrightarrow> listener_inv lim l'"
  by (induction rule: rtranclp_induct) (auto intro: accept_step_inv)

section \<open>Draining\<close>

primrec phase_rank :: "worker_phase \<Rightarrow> nat" where
  "phase_rank Accepting = 3"
| "phase_rank Draining = 2"
| "phase_rank Aborting = 1"
| "phase_rank Finished = 0"

definition drain_measure :: "listener \<Rightarrow> nat" where
  "drain_measure l = sum_list (map (\<lambda>k. phase_rank (wk_phase k) + wk_handlers k) (ls_workers l))"

lemma drain_set_worker:
  "i < length (ls_workers l) \<Longrightarrow>
     drain_measure (set_worker i k l) + (phase_rank (wk_phase (ls_workers l ! i)) + wk_handlers (ls_workers l ! i)) =
     drain_measure l + (phase_rank (wk_phase k) + wk_handlers k)"
  unfolding drain_measure_def set_worker_def
  using sum_list_map_update [of i "ls_workers l" "\<lambda>k. phase_rank (wk_phase k) + wk_handlers k" k] by simp

lemma drain_frame [simp]:
  "drain_measure (release_permit l) = drain_measure l" "drain_measure (l\<lparr>ls_now := t\<rparr>) = drain_measure l"
  by (simp_all add: drain_measure_def release_permit_def)

lemma loop_step_drains:
  assumes "loop_step l l'" and acc: "\<forall>k \<in> set (ls_workers l). wk_phase k \<noteq> Accepting"
  shows "ls_workers l' = ls_workers l \<or> drain_measure l' < drain_measure l"
  using assms(1)
proof cases
  case (drained i k)
  with drain_set_worker [of i l "k\<lparr>wk_phase := Finished\<rparr>"] show ?thesis by simp
next
  case (deadline i k)
  with drain_set_worker [of i l "k\<lparr>wk_phase := Aborting\<rparr>"] show ?thesis by simp
next
  case (handler_aborted i k n)
  with drain_set_worker [of i l "k\<lparr>wk_handlers := n\<rparr>"] show ?thesis by simp
next
  case (aborted i k)
  with drain_set_worker [of i l "k\<lparr>wk_phase := Finished\<rparr>"] show ?thesis by simp
qed (use acc nth_mem in \<open>force+\<close>)

lemma accept_step_drains:
  assumes "accept_step l l'" and "\<forall>k \<in> set (ls_workers l). wk_phase k \<noteq> Accepting"
  shows "ls_workers l' = ls_workers l \<or> drain_measure l' < drain_measure l"
  using assms(1)
proof cases
  case loop
  with assms(2) show ?thesis by (intro loop_step_drains)
next
  case (handler_done i k n)
  with drain_set_worker [of i l "k\<lparr>wk_handlers := n\<rparr>"] show ?thesis by simp
qed

text \<open>The clock: no worker left its accept loop in the future, and none aborts its tasks before its timeout has run out.\<close>

definition clock_inv :: "duration \<Rightarrow> listener \<Rightarrow> bool" where
  "clock_inv timeout l \<longleftrightarrow> ls_timeout l = timeout \<and>
     (\<forall>k \<in> set (ls_workers l). wk_since k \<le> ls_now l \<and> (wk_phase k = Aborting \<longrightarrow> wk_since k + timeout \<le> ls_now l))"

lemma clock_inv_start: "clock_inv (al_shutdown_timeout cfg) (accept_loop_start cfg)"
  by (simp add: clock_inv_def accept_loop_start_def)

lemma clock_set_worker:
  assumes "clock_inv timeout l" and "wk_since k \<le> ls_now l" and "wk_phase k = Aborting \<longrightarrow> wk_since k + timeout \<le> ls_now l"
  shows "clock_inv timeout (set_worker i k l)"
  using assms by (auto simp: clock_inv_def dest!: set_worker_member)

lemma clock_frame [simp]:
  "clock_inv timeout (release_permit l) = clock_inv timeout l" "clock_inv timeout (l\<lparr>ls_permits := p\<rparr>) = clock_inv timeout l"
  "clock_inv timeout (l\<lparr>ls_shutdown := b\<rparr>) = clock_inv timeout l" "clock_inv timeout (l\<lparr>ls_sender_gone := b\<rparr>) = clock_inv timeout l"
  by (simp_all add: clock_inv_def)

lemma clock_worker:
  "clock_inv timeout l \<Longrightarrow> i < length (ls_workers l) \<Longrightarrow>
     wk_since (ls_workers l ! i) \<le> ls_now l \<and>
     (wk_phase (ls_workers l ! i) = Aborting \<longrightarrow> wk_since (ls_workers l ! i) + timeout \<le> ls_now l)"
  by (simp add: clock_inv_def)

lemma loop_step_clock:
  assumes "loop_step l l'" and c: "clock_inv timeout l"
  shows "clock_inv timeout l'"
  using assms(1)
proof cases
  case (time_passes d)
  then show ?thesis using c by (fastforce simp: clock_inv_def)
next
  case (deadline i k)
  have "ls_timeout l = timeout" using c by (simp add: clock_inv_def)
  with deadline clock_worker [OF c, of i] show ?thesis by (simp add: clock_set_worker [OF c])
qed (use c clock_worker [OF c] in \<open>auto intro!: clock_set_worker\<close>)

lemma accept_step_clock:
  assumes "accept_step l l'" and c: "clock_inv timeout l"
  shows "clock_inv timeout l'"
  using assms(1)
proof cases
  case loop
  then show ?thesis by (rule loop_step_clock [OF _ c])
next
  case (handler_done i k n)
  then show ?thesis using clock_worker [OF c, of i] c by (auto intro!: clock_set_worker)
qed

lemma accept_run_clock: "accept_step\<^sup>*\<^sup>* l l' \<Longrightarrow> clock_inv timeout l \<Longrightarrow> clock_inv timeout l'"
  by (induction rule: rtranclp_induct) (auto intro: accept_step_clock)

text \<open>Draining by the loop alone: first every worker leaves its accept loop, \<dots>\<close>

lemma stops_all:
  "stopping l \<Longrightarrow> \<exists>l'. loop_step\<^sup>*\<^sup>* l l' \<and> stopping l' \<and> ls_now l' = ls_now l \<and> (\<forall>k \<in> set (ls_workers l'). wk_phase k \<noteq> Accepting)"
proof (induction "drain_measure l" arbitrary: l rule: less_induct)
  case less
  show ?case
  proof (cases "\<forall>k \<in> set (ls_workers l). wk_phase k \<noteq> Accepting")
    case True
    with less.prems show ?thesis by blast
  next
    case False
    then obtain i where i: "i < length (ls_workers l)" "wk_phase (ls_workers l ! i) = Accepting" by (auto simp: in_set_conv_nth)
    let ?k = "(ls_workers l ! i)\<lparr>wk_phase := Draining, wk_since := ls_now l\<rparr>"
    have "drain_measure (set_worker i ?k l) < drain_measure l" using drain_set_worker [OF i(1), of ?k] i(2) by simp
    from less.hyps [OF this] less.prems obtain l' where "loop_step\<^sup>*\<^sup>* (set_worker i ?k l) l'" "stopping l'" "ls_now l' = ls_now l"
      "\<forall>k \<in> set (ls_workers l'). wk_phase k \<noteq> Accepting" by auto
    with loop_step.stop [OF i(1) refl i(2) less.prems] show ?thesis by (meson converse_rtranclp_into_rtranclp)
  qed
qed

text \<open>\<dots> and once the timeout of every worker has run out, each has a step that brings it nearer to its end.\<close>

definition expired :: "listener \<Rightarrow> bool" where
  "expired l \<longleftrightarrow> (\<forall>k \<in> set (ls_workers l). wk_phase k \<noteq> Accepting \<and> wk_since k + ls_timeout l \<le> ls_now l)"

lemma expired_set_worker:
  assumes "expired l" and "i < length (ls_workers l)" and "wk_since k = wk_since (ls_workers l ! i)" and "wk_phase k \<noteq> Accepting"
  shows "expired (set_worker i k l)"
proof -
  have "wk_since k + ls_timeout l \<le> ls_now l" using assms(1-3) by (simp add: expired_def)
  then show ?thesis using assms(1,4) by (auto simp: expired_def dest!: set_worker_member)
qed

lemma expired_release [simp]: "expired (release_permit l) = expired l"
  by (simp add: expired_def)

lemma drain_progress:
  assumes "expired l" and "k \<in> set (ls_workers l)" and "wk_phase k \<noteq> Finished"
  shows "\<exists>l'. loop_step l l' \<and> drain_measure l' < drain_measure l \<and> expired l' \<and> ls_now l' = ls_now l"
proof -
  obtain i where i: "i < length (ls_workers l)" "k = ls_workers l ! i" using assms(2) by (auto simp: in_set_conv_nth)
  have ph: "wk_phase k = Draining \<or> wk_phase k = Aborting" and since: "wk_since k + ls_timeout l \<le> ls_now l"
    using assms by (cases "wk_phase k"; auto simp: expired_def)+
  note dm = drain_set_worker [OF i(1)] and ex = expired_set_worker [OF assms(1) i(1)]
  show ?thesis
  proof (cases "wk_handlers k")
    case 0
    with ph loop_step.drained [OF i] loop_step.aborted [OF i] dm [of "k\<lparr>wk_phase := Finished\<rparr>"] i(2) ex [of "k\<lparr>wk_phase := Finished\<rparr>"]
    show ?thesis by (intro exI [of _ "set_worker i (k\<lparr>wk_phase := Finished\<rparr>) l"]) auto
  next
    case (Suc n)
    from ph show ?thesis
    proof
      assume d: "wk_phase k = Draining"
      with Suc loop_step.deadline [OF i d _ since] dm [of "k\<lparr>wk_phase := Aborting\<rparr>"] i(2) ex [of "k\<lparr>wk_phase := Aborting\<rparr>"]
      show ?thesis by (intro exI [of _ "set_worker i (k\<lparr>wk_phase := Aborting\<rparr>) l"]) auto
    next
      assume a: "wk_phase k = Aborting"
      with loop_step.handler_aborted [OF i a Suc] dm [of "k\<lparr>wk_handlers := n\<rparr>"] Suc i(2) ex [of "k\<lparr>wk_handlers := n\<rparr>"]
      show ?thesis by (intro exI [of _ "release_permit (set_worker i (k\<lparr>wk_handlers := n\<rparr>) l)"]) auto
    qed
  qed
qed

lemma expired_drains:
  "expired l \<Longrightarrow> \<exists>l'. loop_step\<^sup>*\<^sup>* l l' \<and> (\<forall>k \<in> set (ls_workers l'). wk_phase k = Finished) \<and> ls_now l' = ls_now l"
proof (induction "drain_measure l" arbitrary: l rule: less_induct)
  case less
  show ?case
  proof (cases "\<forall>k \<in> set (ls_workers l). wk_phase k = Finished")
    case True
    then show ?thesis by blast
  next
    case False
    then obtain l1 where l1: "loop_step l l1" "drain_measure l1 < drain_measure l" "expired l1" "ls_now l1 = ls_now l"
      using drain_progress [OF less.prems] by blast
    from less.hyps [OF l1(2,3)] l1(4) obtain l' where "loop_step\<^sup>*\<^sup>* l1 l'" "\<forall>k \<in> set (ls_workers l'). wk_phase k = Finished"
      "ls_now l' = ls_now l" by auto
    with l1(1) show ?thesis by (meson converse_rtranclp_into_rtranclp)
  qed
qed

lemma loop_run_inv: "loop_step\<^sup>*\<^sup>* l l' \<Longrightarrow> listener_inv lim l \<Longrightarrow> listener_inv lim l'"
  by (induction rule: rtranclp_induct) (auto intro: loop_step_inv)

lemma loop_run_clock: "loop_step\<^sup>*\<^sup>* l l' \<Longrightarrow> clock_inv timeout l \<Longrightarrow> clock_inv timeout l'"
  by (induction rule: rtranclp_induct) (auto intro: loop_step_clock)

lemma loop_run_accepts: "loop_step\<^sup>*\<^sup>* l l' \<Longrightarrow> accept_step\<^sup>*\<^sup>* l l'"
  by (induction rule: rtranclp_induct) (auto intro: rtranclp.rtrancl_into_rtrancl accept_step.loop)

lemma drain_reaches:
  assumes inv: "listener_inv lim l" and clock: "clock_inv timeout l" and t: "0 \<le> timeout" and stop: "stopping l"
  shows "\<exists>l'. loop_step\<^sup>*\<^sup>* l l' \<and> (\<forall>k \<in> set (ls_workers l'). wk_phase k = Finished) \<and> listener_inv lim l' \<and>
    ls_now l' = ls_now l + timeout"
proof -
  obtain l1 where l1: "loop_step\<^sup>*\<^sup>* l l1" "ls_now l1 = ls_now l" "\<forall>k \<in> set (ls_workers l1). wk_phase k \<noteq> Accepting"
    using stops_all [OF stop] by blast
  let ?l = "l1\<lparr>ls_now := ls_now l1 + timeout\<rparr>"
  have "expired ?l" using loop_run_clock [OF l1(1) clock] l1(3) by (auto simp: expired_def clock_inv_def)
  then obtain l' where l': "loop_step\<^sup>*\<^sup>* ?l l'" "\<forall>k \<in> set (ls_workers l'). wk_phase k = Finished" "ls_now l' = ls_now l + timeout"
    using expired_drains [of ?l] l1(2) by auto
  have "loop_step\<^sup>*\<^sup>* l l'" using l1(1) loop_step.time_passes [OF t, of l1] l'(1) by (meson converse_rtranclp_into_rtranclp rtranclp_trans)
  with l' loop_run_inv [OF _ inv] show ?thesis by blast
qed

lemma finished_no_handlers:
  assumes "listener_inv lim l" and "\<forall>k \<in> set (ls_workers l). wk_phase k = Finished"
  shows "live_handlers l = 0"
  using assms by (auto simp: listener_inv_def live_handlers_def sum_list_eq_0_iff)

text \<open>
  The connection limit holds in every reachable state of the accept loop, however the workers
  interleave: permits in the semaphore plus running connection tasks equal the limit, so never
  more than the limit run at once, counted from the moment of acceptance.
\<close>

theorem listener_limit:
  assumes "accept_step\<^sup>*\<^sup>* (accept_loop_start cfg) l" and "al_max_concurrent cfg = Some n"
  shows "live_handlers l \<le> n \<and> (\<exists>m. ls_permits l = Some m \<and> m + live_handlers l = n)"
proof -
  have "listener_inv (Some n) l" using accept_run_inv [OF assms(1) listener_inv_start] assms(2) by simp
  then show ?thesis by (auto simp: listener_inv_def)
qed

text \<open>Witness: one connection is accepted under a limit of two.\<close>

definition sample_listener :: accept_loop_config where
  "sample_listener = \<lparr>al_shutdown_timeout = 5, al_max_concurrent = Some 2, al_accept_concurrency = 1\<rparr>"

definition sample_accepted :: listener where
  "sample_accepted = \<lparr>ls_workers = [\<lparr>wk_phase = Accepting, wk_handlers = 1, wk_since = 0\<rparr>], ls_permits = Some 1, ls_shutdown = False,
     ls_sender_gone = False, ls_timeout = 5, ls_now = 0\<rparr>"

lemma sample_accept: "accept_step\<^sup>*\<^sup>* (accept_loop_start sample_listener) sample_accepted"
proof -
  let ?k = "\<lparr>wk_phase = Accepting, wk_handlers = 0, wk_since = 0\<rparr>"
  have start: "accept_loop_start sample_listener = \<lparr>ls_workers = [?k], ls_permits = Some (Suc 1), ls_shutdown = False,
      ls_sender_gone = False, ls_timeout = 5, ls_now = 0\<rparr>"
    by (simp add: accept_loop_start_def sample_listener_def)
  have eq: "sample_accepted = set_worker 0 (?k\<lparr>wk_handlers := Suc (wk_handlers ?k)\<rparr>) (accept_loop_start sample_listener)\<lparr>ls_permits := Some 1\<rparr>"
    unfolding start by (simp add: sample_accepted_def set_worker_def)
  have "loop_step (accept_loop_start sample_listener) sample_accepted"
    unfolding eq by (rule loop_step.accept_permit) (simp_all add: start)
  then show ?thesis by (intro r_into_rtranclp accept_step.loop)
qed

theorem listener_limit_witness: "live_handlers sample_accepted \<le> 2"
  using listener_limit [OF sample_accept, of 2] by (simp add: sample_listener_def)



end
