(* ===== verification/LX_Server.thy ===== *)
theory LX_Server
  imports LX_Connection LX_Listener
begin

text \<open>
  \<^verbatim>\<open>TcpGateway::run\<close> of \<^verbatim>\<open>crates/gateway/src/tcp/server.rs\<close> as a state machine over all connections at once: the accept
  loop of \<open>LX_Listener\<close>, the quota of \<open>LX_Gate\<close>, the slots for TLS handshakes, and the connection tasks in the phases of
  the connection handler. What one connection does once it is served is the subject of \<open>LX_Connection\<close>; here it
  holds its admission until it is bound and then goes on without. Tasks interleave freely.
\<close>

section \<open>State\<close>

text \<open>\<open>Serving True\<close>: the connection still holds the permit of its admission.\<close>

datatype task_phase = Accepted | Admitted | Handshaking | Serving bool

record conn_task =
  ct_worker :: nat
  ct_ip :: ip_addr
  ct_phase :: task_phase

record server =
  sr_listener :: listener
  sr_gate :: auth_gate
  sr_slots :: nat
  sr_tasks :: "conn_task list"

text \<open>\<^verbatim>\<open>TcpGateway::run\<close> starts the accept loop on raw connections with these settings, and allows as many handshakes at once as it has workers.\<close>

definition gateway_accept_config :: "tcp_gateway_config \<Rightarrow> accept_loop_config" where
  "gateway_accept_config cfg =
     \<lparr>al_shutdown_timeout = tc_shutdown_timeout cfg, al_max_concurrent = Some (tc_max_connections cfg),
      al_accept_concurrency = max (unat (tc_accept_concurrency cfg)) 1\<rparr>"

definition handshake_permits :: "tcp_gateway_config \<Rightarrow> nat" where
  "handshake_permits cfg = max (unat (tc_accept_concurrency cfg)) 1"

definition server_start :: "tcp_gateway_config \<Rightarrow> auth_gate \<Rightarrow> server" where
  "server_start cfg gate =
     \<lparr>sr_listener = accept_loop_start (gateway_accept_config cfg), sr_gate = gate, sr_slots = handshake_permits cfg, sr_tasks = []\<rparr>"

primrec holds_permit :: "task_phase \<Rightarrow> bool" where
  "holds_permit Accepted = False"
| "holds_permit Admitted = True"
| "holds_permit Handshaking = True"
| "holds_permit (Serving permit) = permit"

section \<open>Steps\<close>

text \<open>A worker spawns the task of an accepted connection, and loses a task that has ended, with its connection permit.\<close>

definition spawn_on :: "nat \<Rightarrow> listener \<Rightarrow> listener" where
  "spawn_on i l =
     (let k = ls_workers l ! i
      in (set_worker i (k\<lparr>wk_handlers := Suc (wk_handlers k)\<rparr>) l)\<lparr>ls_permits := map_option (\<lambda>n. n - 1) (ls_permits l)\<rparr>)"

definition reap_on :: "nat \<Rightarrow> listener \<Rightarrow> listener" where
  "reap_on i l =
     (let k = ls_workers l ! i in release_permit (set_worker i (k\<lparr>wk_handlers := wk_handlers k - 1\<rparr>) l))"

definition remove_nth :: "nat \<Rightarrow> 'a list \<Rightarrow> 'a list" where
  "remove_nth j xs = take j xs @ drop (Suc j) xs"

definition set_phase :: "nat \<Rightarrow> task_phase \<Rightarrow> server \<Rightarrow> server" where
  "set_phase j p s = s\<lparr>sr_tasks := (sr_tasks s)[j := (sr_tasks s ! j)\<lparr>ct_phase := p\<rparr>]\<rparr>"

text \<open>The end of a task: whatever it holds is dropped, the handshake slot, the permit of its admission, its place in the accept loop.\<close>

definition end_task :: "nat \<Rightarrow> server \<Rightarrow> server" where
  "end_task j s =
     (let t = sr_tasks s ! j
      in \<lparr>sr_listener = reap_on (ct_worker t) (sr_listener s),
          sr_gate = (if holds_permit (ct_phase t) then AuthPermit_drop (ct_ip t) (sr_gate s) else sr_gate s),
          sr_slots = (if ct_phase t = Handshaking then Suc (sr_slots s) else sr_slots s),
          sr_tasks = remove_nth j (sr_tasks s)\<rparr>)"

definition task_at :: "server \<Rightarrow> nat \<Rightarrow> task_phase \<Rightarrow> bool" where
  "task_at s j p \<longleftrightarrow> j < length (sr_tasks s) \<and> ct_phase (sr_tasks s ! j) = p"

inductive server_step :: "server \<Rightarrow> server \<Rightarrow> bool" where
  listening:
    "accept_step (sr_listener s) l \<Longrightarrow> map wk_handlers (ls_workers l) = map wk_handlers (ls_workers (sr_listener s)) \<Longrightarrow>
       server_step s (s\<lparr>sr_listener := l\<rparr>)"
| accepted:
    "i < length (ls_workers (sr_listener s)) \<Longrightarrow> wk_phase (ls_workers (sr_listener s) ! i) = Accepting \<Longrightarrow>
       ls_permits (sr_listener s) \<noteq> Some 0 \<Longrightarrow>
       server_step s (s\<lparr>sr_listener := spawn_on i (sr_listener s),
         sr_tasks := sr_tasks s @ [\<lparr>ct_worker = i, ct_ip = ip, ct_phase = Accepted\<rparr>]\<rparr>)"
| admitted:
    "task_at s j Accepted \<Longrightarrow> AuthGate_permit (ct_ip (sr_tasks s ! j)) (sr_gate s) = (Some p, gate) \<Longrightarrow>
       server_step s (set_phase j Admitted (s\<lparr>sr_gate := gate\<rparr>))"
| turned_away:
    "task_at s j Accepted \<Longrightarrow> AuthGate_permit (ct_ip (sr_tasks s ! j)) (sr_gate s) = (None, gate) \<Longrightarrow>
       server_step s (end_task j (s\<lparr>sr_gate := gate\<rparr>))"
| slot_taken:
    "task_at s j Admitted \<Longrightarrow> sr_slots s = Suc n \<Longrightarrow> server_step s (set_phase j Handshaking (s\<lparr>sr_slots := n\<rparr>))"
| no_slot:
    "task_at s j Admitted \<Longrightarrow> sr_slots s = 0 \<Longrightarrow> server_step s (end_task j s)"
| handshake_done:
    "task_at s j Handshaking \<Longrightarrow> server_step s (set_phase j (Serving True) (s\<lparr>sr_slots := Suc (sr_slots s)\<rparr>))"
| handshake_over:    \<comment> \<open>refused by the peer, timed out, or shut down\<close>
    "task_at s j Handshaking \<Longrightarrow> server_step s (end_task j s)"
| bound:
    "task_at s j (Serving True) \<Longrightarrow>
       server_step s (set_phase j (Serving False) (s\<lparr>sr_gate := AuthPermit_drop (ct_ip (sr_tasks s ! j)) (sr_gate s)\<rparr>))"
| served:
    "task_at s j (Serving permit) \<Longrightarrow> server_step s (end_task j s)"
| aborted_task:
    "task_at s j p \<Longrightarrow> wk_phase (ls_workers (sr_listener s) ! ct_worker (sr_tasks s ! j)) = Aborting \<Longrightarrow>
       server_step s (end_task j s)"

section \<open>Counting\<close>

definition cnt :: "('a \<Rightarrow> bool) \<Rightarrow> 'a list \<Rightarrow> nat" where
  "cnt P xs = length (filter P xs)"

lemma cnt_simps [simp]: "cnt P [] = 0" "cnt P (x # xs) = of_bool (P x) + cnt P xs" "cnt P (xs @ ys) = cnt P xs + cnt P ys"
  by (simp_all add: cnt_def)

lemma cnt_update: "j < length xs \<Longrightarrow> cnt P (xs[j := x]) + of_bool (P (xs ! j)) = cnt P xs + of_bool (P x)"
proof (induction xs arbitrary: j)
  case (Cons a xs)
  then show ?case by (cases j) fastforce+
qed simp

lemma remove_nth_simps [simp]: "remove_nth 0 (x # xs) = xs" "remove_nth (Suc j) (x # xs) = x # remove_nth j xs"
  by (simp_all add: remove_nth_def)

lemma cnt_remove: "j < length xs \<Longrightarrow> cnt P (remove_nth j xs) + of_bool (P (xs ! j)) = cnt P xs"
proof (induction xs arbitrary: j)
  case (Cons a xs)
  then show ?case by (cases j) fastforce+
qed simp

lemma cnt_pos: "0 < cnt P xs \<Longrightarrow> \<exists>j < length xs. P (xs ! j)"
  by (auto simp: cnt_def filter_empty_conv in_set_conv_nth)

lemma set_remove_nth: "set (remove_nth j xs) \<subseteq> set xs"
  using set_take_subset [of j xs] set_drop_subset [of "Suc j" xs] by (auto simp: remove_nth_def)

lemma cnt_by_worker:
  fixes w :: "'a \<Rightarrow> nat"
  assumes "\<forall>t \<in> set ts. w t < n"
  shows "(\<Sum>i < n. cnt (\<lambda>t. w t = i) ts) = length ts"
  using assms
proof (induction ts)
  case (Cons t ts)
  have "(\<Sum>i < n. of_bool (w t = i) :: nat) = 1" using Cons.prems by (simp add: of_bool_def)
  with Cons show ?case by (simp add: sum.distrib)
qed simp

section \<open>The invariant\<close>

definition permits_of :: "ip_addr \<Rightarrow> server \<Rightarrow> nat" where
  "permits_of ip s = cnt (\<lambda>t. ct_ip t = ip \<and> holds_permit (ct_phase t)) (sr_tasks s)"

definition handshakes :: "server \<Rightarrow> nat" where
  "handshakes s = cnt (\<lambda>t. ct_phase t = Handshaking) (sr_tasks s)"

definition tasks_of :: "nat \<Rightarrow> server \<Rightarrow> nat" where
  "tasks_of i s = cnt (\<lambda>t. ct_worker t = i) (sr_tasks s)"

definition server_inv :: "nat \<Rightarrow> nat \<Rightarrow> nat \<Rightarrow> server \<Rightarrow> bool" where
  "server_inv mx slots quota s \<longleftrightarrow>
     listener_inv (Some mx) (sr_listener s) \<and>
     (\<forall>i < length (ls_workers (sr_listener s)). wk_handlers (ls_workers (sr_listener s) ! i) = tasks_of i s) \<and>
     (\<forall>t \<in> set (sr_tasks s). ct_worker t < length (ls_workers (sr_listener s))) \<and>
     sr_slots s + handshakes s = slots \<and>
     (\<forall>ip. unauth_count ip (sr_gate s) = permits_of ip s \<and> permits_of ip s \<le> quota) \<and> ag_max_per_ip (sr_gate s) = quota"

text \<open>The two listener operations of a task are steps of the accept loop.\<close>

lemma spawn_step:
  assumes "i < length (ls_workers l)" and "wk_phase (ls_workers l ! i) = Accepting" and "ls_permits l \<noteq> Some 0"
  shows "accept_step l (spawn_on i l)"
proof (cases "ls_permits l")
  case None
  then have "spawn_on i l = set_worker i ((ls_workers l ! i)\<lparr>wk_handlers := Suc (wk_handlers (ls_workers l ! i))\<rparr>) l"
    by (cases l) (simp add: spawn_on_def Let_def set_worker_def)
  with loop_step.accept_unlimited [OF assms(1) refl assms(2) None] show ?thesis by (simp add: accept_step.loop)
next
  case (Some m)
  then obtain n where n: "ls_permits l = Some (Suc n)" using assms(3) by (cases m) auto
  with accept_step.loop [OF loop_step.accept_permit [OF assms(1) refl assms(2) n]] show ?thesis by (simp add: spawn_on_def Let_def)
qed

lemma reap_step:
  assumes "i < length (ls_workers l)" and "0 < wk_handlers (ls_workers l ! i)"
  shows "accept_step l (reap_on i l)"
proof -
  obtain n where n: "wk_handlers (ls_workers l ! i) = Suc n" using assms(2) by (cases "wk_handlers (ls_workers l ! i)") auto
  from accept_step.handler_done [OF assms(1) refl n] n show ?thesis by (simp add: reap_on_def Let_def)
qed

lemma spawn_handlers:
  "i < length (ls_workers l) \<Longrightarrow> j < length (ls_workers l) \<Longrightarrow>
     wk_handlers (ls_workers (spawn_on i l) ! j) = wk_handlers (ls_workers l ! j) + of_bool (j = i)"
  "length (ls_workers (spawn_on i l)) = length (ls_workers l)"
  by (auto simp: spawn_on_def set_worker_def Let_def nth_list_update)

lemma reap_handlers:
  "i < length (ls_workers l) \<Longrightarrow> j < length (ls_workers l) \<Longrightarrow>
     wk_handlers (ls_workers (reap_on i l) ! j) = wk_handlers (ls_workers l ! j) - of_bool (j = i)"
  "length (ls_workers (reap_on i l)) = length (ls_workers l)"
  by (auto simp: reap_on_def release_permit_def set_worker_def Let_def nth_list_update)

text \<open>How a change of phase and the end of a task change the counts.\<close>

lemma set_phase_counts:
  assumes "j < length (sr_tasks s)"
  shows "tasks_of i (set_phase j p s) = tasks_of i s"
    and "handshakes (set_phase j p s) + of_bool (ct_phase (sr_tasks s ! j) = Handshaking) = handshakes s + of_bool (p = Handshaking)"
    and "permits_of ip (set_phase j p s) + of_bool (ct_ip (sr_tasks s ! j) = ip \<and> holds_permit (ct_phase (sr_tasks s ! j))) =
      permits_of ip s + of_bool (ct_ip (sr_tasks s ! j) = ip \<and> holds_permit p)"
  using cnt_update [OF assms, of "\<lambda>t. ct_worker t = i" "(sr_tasks s ! j)\<lparr>ct_phase := p\<rparr>"]
    cnt_update [OF assms, of "\<lambda>t. ct_phase t = Handshaking" "(sr_tasks s ! j)\<lparr>ct_phase := p\<rparr>"]
    cnt_update [OF assms, of "\<lambda>t. ct_ip t = ip \<and> holds_permit (ct_phase t)" "(sr_tasks s ! j)\<lparr>ct_phase := p\<rparr>"]
  by (simp_all add: set_phase_def tasks_of_def handshakes_def permits_of_def)

lemma end_task_counts:
  assumes "j < length (sr_tasks s)"
  shows "tasks_of i (end_task j s) + of_bool (ct_worker (sr_tasks s ! j) = i) = tasks_of i s"
    and "handshakes (end_task j s) + of_bool (ct_phase (sr_tasks s ! j) = Handshaking) = handshakes s"
    and "permits_of ip (end_task j s) + of_bool (ct_ip (sr_tasks s ! j) = ip \<and> holds_permit (ct_phase (sr_tasks s ! j))) = permits_of ip s"
  using cnt_remove [OF assms, of "\<lambda>t. ct_worker t = i"] cnt_remove [OF assms, of "\<lambda>t. ct_phase t = Handshaking"]
    cnt_remove [OF assms, of "\<lambda>t. ct_ip t = ip \<and> holds_permit (ct_phase t)"]
  by (simp_all add: end_task_def Let_def tasks_of_def handshakes_def permits_of_def)

lemma counts_frame [simp]:
  "tasks_of i (s\<lparr>sr_gate := g\<rparr>) = tasks_of i s" "handshakes (s\<lparr>sr_gate := g\<rparr>) = handshakes s"
  "permits_of ip (s\<lparr>sr_gate := g\<rparr>) = permits_of ip s" "tasks_of i (s\<lparr>sr_slots := n\<rparr>) = tasks_of i s"
  "handshakes (s\<lparr>sr_slots := n\<rparr>) = handshakes s" "permits_of ip (s\<lparr>sr_slots := n\<rparr>) = permits_of ip s"
  "tasks_of i (s\<lparr>sr_listener := l\<rparr>) = tasks_of i s" "handshakes (s\<lparr>sr_listener := l\<rparr>) = handshakes s"
  "permits_of ip (s\<lparr>sr_listener := l\<rparr>) = permits_of ip s"
  by (simp_all add: tasks_of_def handshakes_def permits_of_def)

lemma set_phase_frame [simp]:
  "sr_listener (set_phase j p s) = sr_listener s" "sr_gate (set_phase j p s) = sr_gate s" "sr_slots (set_phase j p s) = sr_slots s"
  by (simp_all add: set_phase_def)

lemma set_phase_workers:
  assumes "j < length (sr_tasks s)" and "\<forall>t \<in> set (sr_tasks s). ct_worker t < n"
  shows "\<forall>t \<in> set (sr_tasks (set_phase j p s)). ct_worker t < n"
  using assms set_update_subset_insert [of "sr_tasks s" j "(sr_tasks s ! j)\<lparr>ct_phase := p\<rparr>"] by (auto simp: set_phase_def)

lemma set_phase_inv:
  assumes inv: "server_inv mx slots quota s" and j: "j < length (sr_tasks s)" and t: "sr_tasks s ! j = t"
    and n: "n + of_bool (p = Handshaking) = sr_slots s + of_bool (ct_phase t = Handshaking)"
    and g: "\<And>ip. unauth_count ip g + of_bool (ct_ip t = ip \<and> holds_permit (ct_phase t)) =
      unauth_count ip (sr_gate s) + of_bool (ct_ip t = ip \<and> holds_permit p)"
    and q: "ag_max_per_ip g = quota" "\<And>ip. unauth_count ip g \<le> quota"
  shows "server_inv mx slots quota (set_phase j p (s\<lparr>sr_gate := g, sr_slots := n\<rparr>))"
proof -
  let ?s = "s\<lparr>sr_gate := g, sr_slots := n\<rparr>"
  have j': "j < length (sr_tasks ?s)" "sr_tasks ?s ! j = t" using j t by simp_all
  note c = set_phase_counts [OF j'(1), where p = p, unfolded j'(2)]
  have permits: "unauth_count ip g = permits_of ip (set_phase j p ?s)" for ip
    using c(3) [of ip] g [of ip] inv by (simp add: server_inv_def)
  have "n + handshakes (set_phase j p ?s) = slots" using c(2) n inv by (auto simp: server_inv_def)
  moreover have "\<forall>t \<in> set (sr_tasks (set_phase j p ?s)). ct_worker t < length (ls_workers (sr_listener s))"
    using set_phase_workers [OF j'(1)] inv by (simp add: server_inv_def)
  ultimately show ?thesis using inv c(1) q permits by (simp add: server_inv_def)
qed

lemma task_handlers:
  assumes "server_inv mx slots quota s" and "j < length (sr_tasks s)"
  shows "ct_worker (sr_tasks s ! j) < length (ls_workers (sr_listener s))"
    and "0 < wk_handlers (ls_workers (sr_listener s) ! ct_worker (sr_tasks s ! j))"
proof -
  show w: "ct_worker (sr_tasks s ! j) < length (ls_workers (sr_listener s))" using assms by (simp add: server_inv_def)
  with assms(1) have "wk_handlers (ls_workers (sr_listener s) ! ct_worker (sr_tasks s ! j)) = tasks_of (ct_worker (sr_tasks s ! j)) s"
    by (simp add: server_inv_def)
  with end_task_counts(1) [OF assms(2), of "ct_worker (sr_tasks s ! j)"] show
    "0 < wk_handlers (ls_workers (sr_listener s) ! ct_worker (sr_tasks s ! j))" by simp
qed

lemma end_task_inv:
  assumes inv: "server_inv mx slots quota s" and j: "j < length (sr_tasks s)"
  shows "server_inv mx slots quota (end_task j s)"
proof -
  let ?l = "sr_listener s" and ?t = "sr_tasks s ! j"
  note h = task_handlers [OF inv j] and c = end_task_counts [OF j]
  have l: "sr_listener (end_task j s) = reap_on (ct_worker ?t) ?l" by (simp add: end_task_def Let_def)
  have "listener_inv (Some mx) (reap_on (ct_worker ?t) ?l)"
    using accept_step_inv [OF reap_step [OF h]] inv by (simp add: server_inv_def)
  moreover have "wk_handlers (ls_workers (reap_on (ct_worker ?t) ?l) ! i) = tasks_of i (end_task j s)"
    if "i < length (ls_workers ?l)" for i
    using that reap_handlers(1) [OF h(1) that] c(1) [of i] inv by (auto simp: server_inv_def)
  moreover have "\<forall>t \<in> set (sr_tasks (end_task j s)). ct_worker t < length (ls_workers ?l)"
    using inv set_remove_nth [of j "sr_tasks s"] by (auto simp: server_inv_def end_task_def Let_def)
  moreover have "sr_slots (end_task j s) + handshakes (end_task j s) = slots"
    using c(2) inv by (auto simp: server_inv_def end_task_def Let_def)
  moreover have "unauth_count ip (sr_gate (end_task j s)) = permits_of ip (end_task j s)" for ip
    using c(3) [of ip] inv by (auto simp: server_inv_def end_task_def Let_def AuthPermit_drop_def release_simps)
  moreover have "permits_of ip (end_task j s) \<le> quota" for ip
  proof -
    have "permits_of ip (end_task j s) \<le> permits_of ip s" using c(3) [of ip] by linarith
    also have "\<dots> \<le> quota" using inv by (simp add: server_inv_def)
    finally show ?thesis .
  qed
  moreover have "ag_max_per_ip (sr_gate (end_task j s)) = quota"
    using inv by (simp add: server_inv_def end_task_def Let_def AuthPermit_drop_def release_simps)
  ultimately show ?thesis by (simp add: server_inv_def l reap_handlers(2))
qed

text \<open>Admission: the quota has a place, or nothing changes that counts.\<close>

lemma permit_counts:
  assumes "AuthGate_permit ip g = (permit, g')"
  shows "ag_max_per_ip g' = ag_max_per_ip g"
    and "permit = None \<Longrightarrow> unauth_count jp g' = unauth_count jp g"
    and "permit \<noteq> None \<Longrightarrow> unauth_count ip g < ag_max_per_ip g \<and> unauth_count jp g' = unauth_count jp g + of_bool (ip = jp)"
  using assms acquire_simps(2) [of jp ip g] by (auto simp: permit_eq acquire_simps(3) split: if_splits)

lemma server_step_inv:
  assumes "server_step s s'" and "server_inv mx slots quota s"
  shows "server_inv mx slots quota s'"
  using assms
proof (induction rule: server_step.induct)
  case (listening s l)
  have "length (ls_workers l) = length (ls_workers (sr_listener s))" using listening.hyps(2) by (metis length_map)
  moreover from this have "wk_handlers (ls_workers l ! i) = wk_handlers (ls_workers (sr_listener s) ! i)"
    if "i < length (ls_workers l)" for i using that listening.hyps(2) by (metis nth_map)
  ultimately show ?case using listening accept_step_inv [OF listening.hyps(1)] by (simp add: server_inv_def)
next
  case (accepted i s ip)
  let ?s = "s\<lparr>sr_listener := spawn_on i (sr_listener s), sr_tasks := sr_tasks s @ [\<lparr>ct_worker = i, ct_ip = ip, ct_phase = Accepted\<rparr>]\<rparr>"
  have "listener_inv (Some mx) (spawn_on i (sr_listener s))"
    using accept_step_inv [OF spawn_step [OF accepted.hyps]] accepted.prems by (simp add: server_inv_def)
  moreover have "tasks_of k ?s = tasks_of k s + of_bool (i = k)" "handshakes ?s = handshakes s" "permits_of jp ?s = permits_of jp s" for k jp
    by (simp_all add: tasks_of_def handshakes_def permits_of_def)
  ultimately show ?case
    using accepted.prems accepted.hyps(1) spawn_handlers [of i "sr_listener s"] by (auto simp: server_inv_def)
next
  case (admitted s j p gate)
  have j: "j < length (sr_tasks s)" "ct_phase (sr_tasks s ! j) = Accepted" using admitted.hyps(1) by (simp_all add: task_at_def)
  note c = permit_counts [OF admitted.hyps(2)]
  have q: "ag_max_per_ip gate = quota" "unauth_count ip gate \<le> quota" for ip
    using c(1) c(3) [of ip] admitted.prems by (auto simp: server_inv_def Suc_le_eq)
  have "server_inv mx slots quota (set_phase j Admitted (s\<lparr>sr_gate := gate, sr_slots := sr_slots s\<rparr>))"
    using set_phase_inv [OF admitted.prems j(1) refl _ _ q, of "sr_slots s" Admitted] c(3) j(2) by simp
  then show ?case by simp
next
  case (turned_away s j gate)
  have "server_inv mx slots quota (s\<lparr>sr_gate := gate\<rparr>)"
    using turned_away.prems permit_counts(1,2) [OF turned_away.hyps(2)] by (simp add: server_inv_def)
  then show ?case using turned_away.hyps(1) by (intro end_task_inv) (simp_all add: task_at_def)
next
  case (slot_taken s j n)
  have "server_inv mx slots quota (set_phase j Handshaking (s\<lparr>sr_gate := sr_gate s, sr_slots := n\<rparr>))"
    by (rule set_phase_inv [OF slot_taken.prems _ refl])
      (use slot_taken in \<open>auto simp: task_at_def server_inv_def\<close>)
  then show ?case by simp
next
  case (handshake_done s j)
  have "server_inv mx slots quota (set_phase j (Serving True) (s\<lparr>sr_gate := sr_gate s, sr_slots := Suc (sr_slots s)\<rparr>))"
    by (rule set_phase_inv [OF handshake_done.prems _ refl])
      (use handshake_done in \<open>auto simp: task_at_def server_inv_def\<close>)
  then show ?case by simp
next
  case (bound s j)
  let ?ip = "ct_ip (sr_tasks s ! j)"
  have j: "j < length (sr_tasks s)" "ct_phase (sr_tasks s ! j) = Serving True" using bound.hyps by (simp_all add: task_at_def)
  have "0 < permits_of ?ip s" using end_task_counts(3) [OF j(1), of ?ip] j(2) by simp
  then have pos: "0 < unauth_count ?ip (sr_gate s)" using bound.prems by (simp add: server_inv_def)
  have u: "unauth_count ip (AuthPermit_drop ?ip (sr_gate s)) + of_bool (?ip = ip) = unauth_count ip (sr_gate s)" for ip
    using pos by (auto simp: AuthPermit_drop_def release_simps)
  have q: "ag_max_per_ip (AuthPermit_drop ?ip (sr_gate s)) = quota" "unauth_count ip (AuthPermit_drop ?ip (sr_gate s)) \<le> quota" for ip
    using bound.prems u [of ip] by (auto simp: server_inv_def AuthPermit_drop_def release_simps intro: le_trans [OF diff_le_self])
  have "server_inv mx slots quota (set_phase j (Serving False) (s\<lparr>sr_gate := AuthPermit_drop ?ip (sr_gate s), sr_slots := sr_slots s\<rparr>))"
    using set_phase_inv [OF bound.prems j(1) refl _ _ q, of "sr_slots s" "Serving False"] u j(2) by simp
  then show ?case by simp
qed (auto simp: task_at_def intro: end_task_inv)

lemma server_start_inv:
  assumes "ag_counts gate = []"
  shows "server_inv (tc_max_connections cfg) (handshake_permits cfg) (ag_max_per_ip gate) (server_start cfg gate)"
proof -
  have "listener_inv (Some (tc_max_connections cfg)) (accept_loop_start (gateway_accept_config cfg))"
    using listener_inv_start [of "gateway_accept_config cfg"] by (simp add: gateway_accept_config_def)
  moreover have "wk_handlers (ls_workers (accept_loop_start acfg) ! i) = 0" if "i < length (ls_workers (accept_loop_start acfg))" for acfg i
    using that by (simp add: accept_loop_start_def)
  ultimately show ?thesis
    using assms by (simp add: server_inv_def server_start_def tasks_of_def handshakes_def permits_of_def unauth_count_def)
qed

lemma server_run_inv: "server_step\<^sup>*\<^sup>* s s' \<Longrightarrow> server_inv mx slots quota s \<Longrightarrow> server_inv mx slots quota s'"
  by (induction rule: rtranclp_induct) (auto intro: server_step_inv)

lemma server_inv_tasks:
  assumes "server_inv mx slots quota s"
  shows "length (sr_tasks s) = live_handlers (sr_listener s)"
proof -
  let ?ws = "ls_workers (sr_listener s)"
  have "live_handlers (sr_listener s) = (\<Sum>i < length ?ws. wk_handlers (?ws ! i))"
    by (simp add: live_handlers_def sum_list_sum_nth atLeast0LessThan)
  also have "\<dots> = (\<Sum>i < length ?ws. tasks_of i s)" using assms by (intro sum.cong) (simp_all add: server_inv_def)
  also have "\<dots> = length (sr_tasks s)"
    unfolding tasks_of_def using assms by (intro cnt_by_worker) (simp add: server_inv_def)
  finally show ?thesis by simp
qed

section \<open>The server and its accept loop\<close>

text \<open>Every step of the server is a step of the accept loop or leaves it alone.\<close>

lemma server_step_listens:
  assumes "server_step s s'" and "server_inv mx slots quota s"
  shows "sr_listener s' = sr_listener s \<or> accept_step (sr_listener s) (sr_listener s')"
proof -
  have reaps: "accept_step (sr_listener s) (sr_listener (end_task j s1))"
    if "sr_tasks s1 = sr_tasks s" "sr_listener s1 = sr_listener s" "j < length (sr_tasks s)" for j s1
    using reap_step [OF task_handlers [OF assms(2) that(3)]] that by (simp add: end_task_def Let_def)
  from assms(1) show ?thesis
  proof cases
    case (accepted i ip)
    then show ?thesis using spawn_step [of i "sr_listener s"] by simp
  qed (auto simp: task_at_def intro: reaps)
qed

text \<open>A task can always come to its end, whatever its phase.\<close>

lemma by_step: "server_step s s' \<Longrightarrow> sr_listener s' = l \<Longrightarrow> \<exists>s'. server_step\<^sup>*\<^sup>* s s' \<and> sr_listener s' = l"
  by blast

lemma end_task_listener: "sr_listener (end_task j s) = reap_on (ct_worker (sr_tasks s ! j)) (sr_listener s)"
  by (simp add: end_task_def Let_def)

lemma handshaking_ends:
  "task_at s j Handshaking \<Longrightarrow> \<exists>s'. server_step\<^sup>*\<^sup>* s s' \<and> sr_listener s' = reap_on (ct_worker (sr_tasks s ! j)) (sr_listener s)"
  by (rule by_step [OF server_step.handshake_over end_task_listener])

lemma set_phase_at:
  "j < length (sr_tasks s) \<Longrightarrow> task_at (set_phase j p s) j p"
  "j < length (sr_tasks s) \<Longrightarrow> ct_worker (sr_tasks (set_phase j p s) ! j) = ct_worker (sr_tasks s ! j)"
  by (simp_all add: task_at_def set_phase_def)

lemma admitted_ends:
  assumes "task_at s j Admitted"
  shows "\<exists>s'. server_step\<^sup>*\<^sup>* s s' \<and> sr_listener s' = reap_on (ct_worker (sr_tasks s ! j)) (sr_listener s)"
proof (cases "sr_slots s")
  case 0
  show ?thesis by (rule by_step [OF server_step.no_slot [OF assms 0] end_task_listener])
next
  case (Suc n)
  let ?s = "set_phase j Handshaking (s\<lparr>sr_slots := n\<rparr>)"
  have j: "j < length (sr_tasks (s\<lparr>sr_slots := n\<rparr>))" using assms by (simp add: task_at_def)
  obtain s' where "server_step\<^sup>*\<^sup>* ?s s'" "sr_listener s' = reap_on (ct_worker (sr_tasks ?s ! j)) (sr_listener ?s)"
    using handshaking_ends [OF set_phase_at(1) [OF j]] by blast
  with server_step.slot_taken [OF assms Suc] set_phase_at(2) [OF j, of Handshaking] show ?thesis
    by (auto intro: converse_rtranclp_into_rtranclp)
qed

lemma task_can_end:
  assumes j: "j < length (sr_tasks s)"
  shows "\<exists>s'. server_step\<^sup>*\<^sup>* s s' \<and> sr_listener s' = reap_on (ct_worker (sr_tasks s ! j)) (sr_listener s)"
proof (cases "ct_phase (sr_tasks s ! j)")
  case Accepted
  with j have a: "task_at s j Accepted" by (simp add: task_at_def)
  obtain permit gate where g: "AuthGate_permit (ct_ip (sr_tasks s ! j)) (sr_gate s) = (permit, gate)" by (metis prod.exhaust)
  show ?thesis
  proof (cases permit)
    case None
    have "server_step s (end_task j (s\<lparr>sr_gate := gate\<rparr>))" by (rule server_step.turned_away [OF a]) (simp add: g None)
    then show ?thesis by (rule by_step) (simp add: end_task_listener)
  next
    case (Some p)
    let ?s = "set_phase j Admitted (s\<lparr>sr_gate := gate\<rparr>)"
    have j': "j < length (sr_tasks (s\<lparr>sr_gate := gate\<rparr>))" using j by simp
    obtain s' where "server_step\<^sup>*\<^sup>* ?s s'" "sr_listener s' = reap_on (ct_worker (sr_tasks ?s ! j)) (sr_listener ?s)"
      using admitted_ends [OF set_phase_at(1) [OF j']] by blast
    with server_step.admitted [OF a] g Some set_phase_at(2) [OF j', of Admitted] show ?thesis
      by (auto intro: converse_rtranclp_into_rtranclp)
  qed
next
  case Admitted
  with j admitted_ends [of s j] show ?thesis by (simp add: task_at_def)
next
  case Handshaking
  with j handshaking_ends [of s j] show ?thesis by (simp add: task_at_def)
next
  case (Serving permit)
  with j have "task_at s j (Serving permit)" by (simp add: task_at_def)
  from server_step.served [OF this] end_task_listener show ?thesis by (rule by_step)
qed

text \<open>And every step of the accept loop can be taken by the server.\<close>

lemma reap_lifts:
  assumes inv: "server_inv mx slots quota s" and "i < length (ls_workers (sr_listener s))"
    and "wk_handlers (ls_workers (sr_listener s) ! i) = Suc n"
  shows "\<exists>s'. server_step\<^sup>*\<^sup>* s s' \<and> sr_listener s' = reap_on i (sr_listener s)"
proof -
  have "wk_handlers (ls_workers (sr_listener s) ! i) = tasks_of i s" using assms by (simp add: server_inv_def)
  then have "0 < cnt (\<lambda>t. ct_worker t = i) (sr_tasks s)" using assms(3) by (simp add: tasks_of_def)
  then obtain j where "j < length (sr_tasks s)" "ct_worker (sr_tasks s ! j) = i" by (auto dest: cnt_pos)
  then show ?thesis using task_can_end [of j s] by auto
qed

lemma accept_step_lifts:
  assumes step: "accept_step (sr_listener s) l" and inv: "server_inv mx slots quota s"
  shows "\<exists>s'. server_step\<^sup>*\<^sup>* s s' \<and> sr_listener s' = l"
proof -
  have same: ?thesis if "map wk_handlers (ls_workers l) = map wk_handlers (ls_workers (sr_listener s))"
    using server_step.listening [OF step that] by (intro exI [of _ "s\<lparr>sr_listener := l\<rparr>"]) auto
  have upd: "map wk_handlers (xs[i := k]) = map wk_handlers xs" if "wk_handlers k = wk_handlers (xs ! i)" for xs i k
    using that by (metis list_update_id map_update)
  have reap: ?thesis if "i < length (ls_workers (sr_listener s))" "k = ls_workers (sr_listener s) ! i" "wk_handlers k = Suc n"
    "l = release_permit (set_worker i (k\<lparr>wk_handlers := n\<rparr>) (sr_listener s))" for i k n
    using that reap_lifts [OF inv, of i n] by (simp add: reap_on_def Let_def)
  from step show ?thesis
  proof cases
    case loop
    then show ?thesis
    proof cases
      case (accept_unlimited i k)
      then show ?thesis using inv by (simp add: server_inv_def listener_inv_def)
    next
      case (accept_permit i k n)
      have l: "l = spawn_on i (sr_listener s)" using accept_permit by (simp add: spawn_on_def Let_def)
      from server_step.accepted [of i s 0] accept_permit have "server_step s (s\<lparr>sr_listener := spawn_on i (sr_listener s),
          sr_tasks := sr_tasks s @ [\<lparr>ct_worker = i, ct_ip = 0, ct_phase = Accepted\<rparr>]\<rparr>)" by simp
      then show ?thesis by (rule by_step) (simp add: l)
    next
      case (handler_aborted i k n)
      then show ?thesis by (intro reap)
    qed (rule same; simp add: set_worker_def upd)+
  next
    case (handler_done i k n)
    then show ?thesis by (intro reap)
  qed
qed

lemma accept_run_lifts:
  assumes "accept_step\<^sup>*\<^sup>* (sr_listener s) l" and "server_inv mx slots quota s"
  shows "\<exists>s'. server_step\<^sup>*\<^sup>* s s' \<and> sr_listener s' = l"
  using assms(1)
proof (induction rule: rtranclp_induct)
  case base
  then show ?case by blast
next
  case (step l l')
  then obtain s1 where s1: "server_step\<^sup>*\<^sup>* s s1" "sr_listener s1 = l" by blast
  have "accept_step (sr_listener s1) l'" using step.hyps(2) s1(2) by simp
  then obtain s' where s': "server_step\<^sup>*\<^sup>* s1 s'" "sr_listener s' = l'"
    using accept_step_lifts [OF _ server_run_inv [OF s1(1) assms(2)]] by blast
  from rtranclp_trans [OF s1(1) s'(1)] s'(2) show ?case by blast
qed

lemma server_run_clock:
  "server_step\<^sup>*\<^sup>* s s' \<Longrightarrow> server_inv mx slots quota s \<Longrightarrow> clock_inv timeout (sr_listener s) \<Longrightarrow> clock_inv timeout (sr_listener s')"
proof (induction rule: rtranclp_induct)
  case (step s1 s2)
  with server_step_listens [OF step.hyps(2) server_run_inv [OF step.hyps(1)]] accept_step_clock show ?case by metis
qed

section \<open>Properties\<close>

text \<open>
  (C27) The limits of the server hold together, in every state it can reach, however accepts, handshakes, binds,
  disconnects, aborts and the shutdown interleave: at most the configured number of connection tasks, at most the
  configured number of TLS handshakes at once, at most the quota of connections per address that are not yet bound, each
  counted exactly by its semaphore or counter. When no task is left, every permit, slot and place is free again, and when
  all workers of the accept loop have finished, no task is left.
\<close>

theorem server_limits:
  assumes "server_step\<^sup>*\<^sup>* (server_start cfg (AuthGate_new quota)) s"
  shows "length (sr_tasks s) \<le> tc_max_connections cfg \<and>
    ls_permits (sr_listener s) = Some (tc_max_connections cfg - length (sr_tasks s)) \<and>
    sr_slots s + handshakes s = handshake_permits cfg \<and>
    (\<forall>ip. unauth_count ip (sr_gate s) = permits_of ip s \<and> permits_of ip s \<le> quota) \<and>
    (sr_tasks s = [] \<longrightarrow> ls_permits (sr_listener s) = Some (tc_max_connections cfg) \<and> sr_slots s = handshake_permits cfg \<and>
       (\<forall>ip. unauth_count ip (sr_gate s) = 0)) \<and>
    ((\<forall>k \<in> set (ls_workers (sr_listener s)). wk_phase k = Finished) \<longrightarrow> sr_tasks s = [])"
proof -
  have "ag_counts (AuthGate_new quota) = []" "ag_max_per_ip (AuthGate_new quota) = quota" by (simp_all add: AuthGate_new_def)
  with server_run_inv [OF assms server_start_inv] have inv: "server_inv (tc_max_connections cfg) (handshake_permits cfg) quota s"
    by metis
  then have l: "listener_inv (Some (tc_max_connections cfg)) (sr_listener s)" by (simp add: server_inv_def)
  note n = server_inv_tasks [OF inv]
  have p: "ls_permits (sr_listener s) = Some (tc_max_connections cfg - length (sr_tasks s))" "length (sr_tasks s) \<le> tc_max_connections cfg"
    using l n by (auto simp: listener_inv_def)
  have "sr_tasks s = []" if "\<forall>k \<in> set (ls_workers (sr_listener s)). wk_phase k = Finished"
    using finished_no_handlers [OF l that] n by simp
  moreover have "handshakes s = 0 \<and> (\<forall>ip. permits_of ip s = 0)" if "sr_tasks s = []"
    using that by (simp add: handshakes_def permits_of_def)
  ultimately show ?thesis using inv p by (auto simp: server_inv_def)
qed

text \<open>Witness: one connection is accepted, admitted and gets a handshake slot.\<close>

definition sample_server :: server where
  "sample_server = server_start sample_config (AuthGate_new 1)"

lemma sample_server_run:
  "\<exists>s. server_step\<^sup>*\<^sup>* sample_server s \<and> length (sr_tasks s) = 1"
proof -
  have w: "0 < length (ls_workers (sr_listener sample_server))" "wk_phase (ls_workers (sr_listener sample_server) ! 0) = Accepting"
    "ls_permits (sr_listener sample_server) \<noteq> Some 0" "sr_tasks sample_server = []"
    by (simp_all add: sample_server_def server_start_def accept_loop_start_def gateway_accept_config_def sample_config_def)
  show ?thesis by (rule exI, rule conjI, rule r_into_rtranclp, rule server_step.accepted [OF w(1-3), of 9]) (simp add: w(4))
qed

theorem server_limits_witness:
  "\<exists>s. server_step\<^sup>*\<^sup>* sample_server s \<and> length (sr_tasks s) = 1 \<and> ls_permits (sr_listener s) = Some 7 \<and> sr_slots s + handshakes s = 2"
proof -
  obtain s where s: "server_step\<^sup>*\<^sup>* sample_server s" "length (sr_tasks s) = 1" using sample_server_run by blast
  with server_limits [OF s(1) [unfolded sample_server_def]] show ?thesis
    by (auto simp: sample_config_def handshake_permits_def)
qed

text \<open>
  After the shutdown signal, or the loss of its sender, the whole server can come to rest: from every reachable state there is a run to one in which all
  workers have finished, no task is left, and every slot and place is free. It is the run of the accept loop alone, each
  end of a task being taken through the phases that task is in.
\<close>

theorem server_drains:
  assumes "server_step\<^sup>*\<^sup>* (server_start cfg (AuthGate_new quota)) s" and "stopping (sr_listener s)"
    and "0 \<le> tc_shutdown_timeout cfg"
  shows "\<exists>s'. server_step\<^sup>*\<^sup>* s s' \<and> (\<forall>k \<in> set (ls_workers (sr_listener s')). wk_phase k = Finished) \<and> sr_tasks s' = [] \<and>
    sr_slots s' = handshake_permits cfg \<and> (\<forall>ip. unauth_count ip (sr_gate s') = 0)"
proof -
  have "ag_counts (AuthGate_new quota) = []" "ag_max_per_ip (AuthGate_new quota) = quota" by (simp_all add: AuthGate_new_def)
  then have inv0: "server_inv (tc_max_connections cfg) (handshake_permits cfg) quota (server_start cfg (AuthGate_new quota))"
    using server_start_inv by metis
  with server_run_inv [OF assms(1)] have inv: "server_inv (tc_max_connections cfg) (handshake_permits cfg) quota s"
    by metis
  then have "listener_inv (Some (tc_max_connections cfg)) (sr_listener s)" by (simp add: server_inv_def)
  moreover have "clock_inv (tc_shutdown_timeout cfg) (sr_listener s)"
    using server_run_clock [OF assms(1)] inv0 clock_inv_start [of "gateway_accept_config cfg"]
    by (simp add: server_start_def gateway_accept_config_def)
  ultimately obtain l where l: "accept_step\<^sup>*\<^sup>* (sr_listener s) l" "\<forall>k \<in> set (ls_workers l). wk_phase k = Finished"
    "listener_inv (Some (tc_max_connections cfg)) l" using drain_reaches [OF _ _ assms(3,2)] loop_run_accepts by blast
  obtain s' where s': "server_step\<^sup>*\<^sup>* s s'" "sr_listener s' = l" using accept_run_lifts [OF l(1) inv] by blast
  note inv' = server_run_inv [OF s'(1) inv]
  have "sr_tasks s' = []" using server_inv_tasks [OF inv'] finished_no_handlers [OF l(3,2)] s'(2) by simp
  moreover from this have "sr_slots s' = handshake_permits cfg \<and> (\<forall>ip. unauth_count ip (sr_gate s') = 0)"
    using inv' by (simp add: server_inv_def handshakes_def permits_of_def)
  ultimately show ?thesis using s' l(2) by auto
qed

end
