(* ===== verification/LX_Http.thy ===== *)
theory LX_Http
  imports LX_Auth
begin

text \<open>
  \<^verbatim>\<open>crates/gateway/src/http\<close>: the mapping of errors to responses, the Bearer token extractor, the handlers of
  the routes and the redirect of the optional plain-text listener. A handler takes the decoded
  request; the route table and the decoding are in \<open>LX_HttpRouter\<close>. The reason phrases of status codes and the
  parser of a \<^verbatim>\<open>Host\<close> header belong to the HTTP framework and are arguments.
\<close>

section \<open>Responses\<close>

type_synonym status_code = nat

record api_error =
  ae_status :: status_code
  ae_message :: rstring

datatype http_body =
    TextBody rstring
  | ErrorBody rstring rstring                                       \<comment> \<open>error, message\<close>
  | RegisterResponse uuid uuid rstring                              \<comment> \<open>account, player, nickname\<close>
  | LoginResponse rstring uuid rstring u64                          \<comment> \<open>token, player, nickname, lifetime in seconds\<close>
  | PlayerResponse uuid rstring u32 u64 "datetime option"           \<comment> \<open>player, nickname, level, exp, last login\<close>
  | NoBody

record http_response =
  hr_status :: status_code
  hr_headers :: "(rstring \<times> rstring) list"
  hr_body :: http_body

definition ApiError_new :: "status_code \<Rightarrow> rstring \<Rightarrow> api_error" where
  "ApiError_new status message = \<lparr>ae_status = status, ae_message = message\<rparr>"

definition ApiError_into_response :: "(status_code \<Rightarrow> rstring option) \<Rightarrow> api_error \<Rightarrow> http_response" where
  "ApiError_into_response reason e =
     \<lparr>hr_status = ae_status e, hr_headers = [],
      hr_body = ErrorBody (case reason (ae_status e) of Some r \<Rightarrow> r | None \<Rightarrow> ascii ''error'') (ae_message e)\<rparr>"

primrec ApiError_from :: "app_error \<Rightarrow> api_error" where
  "ApiError_from (Validation m) = ApiError_new 400 m"
| "ApiError_from (Unauthorized m) = ApiError_new 401 m"
| "ApiError_from (Forbidden m) = ApiError_new 403 m"
| "ApiError_from (NotFound m) = ApiError_new 404 m"
| "ApiError_from (Conflict m) = ApiError_new 409 m"
| "ApiError_from Busy = ApiError_new 503 txt_busy"
| "ApiError_from RateLimited = ApiError_new 429 txt_rate_limited"
| "ApiError_from (PostCommit m) = ApiError_new 500 txt_post_commit"
| "ApiError_from (Storage m) = ApiError_new 500 txt_internal"
| "ApiError_from (Internal m) = ApiError_new 500 txt_internal"

section \<open>Authentication\<close>

fun strip_prefix :: "rstring \<Rightarrow> rstring \<Rightarrow> rstring option" where
  "strip_prefix [] s = Some s"
| "strip_prefix (p # ps) [] = None"
| "strip_prefix (p # ps) (c # cs) = (if p = c then strip_prefix ps cs else None)"

text \<open>\<open>header\<close> is the value of the Authorization header, if there is one and it is visible ASCII.\<close>

definition AuthUser_from_request ::
  "'t token_store \<Rightarrow> instant \<Rightarrow> rstring option \<Rightarrow> 't \<Rightarrow> (player_id, api_error) result" where
  "AuthUser_from_request TS now header t =
     and_then (ok_or header (ApiError_new 401 msg_no_auth_header)) (\<lambda>h.
     and_then (ok_or (strip_prefix (ascii ''Bearer '') h) (ApiError_new 401 msg_not_bearer)) (\<lambda>token.
       case tk_resolve TS now (trim token) t of
         Ok (Some player) \<Rightarrow> Ok player
       | Ok None \<Rightarrow> Err (ApiError_new 401 txt_token_invalid)
       | Err e \<Rightarrow> Err (ApiError_from e)))"

section \<open>Shared state\<close>

record ('s, 'l) register_use_case =
  ru_accounts :: "'s account_repository"
  ru_registration :: "'s registration_store"
  ru_hasher :: password_hasher
  ru_audit :: "'l audit_logger"

record ('s, 't, 'l) login_use_case =
  lu_deps :: "('s, 't, 'l) login_deps"
  lu_token_ttl :: duration

record ('s, 't, 'l) http_state =
  hs_register :: "('s, 'l) register_use_case"
  hs_login :: "('s, 't, 'l) login_use_case"
  hs_profile :: "'s player_repository"
  hs_tokens :: "'t token_store"

text \<open>
  What a request draws from its surroundings: fresh identifiers and times for a registration, times and
  random bytes for a login, and the time at which a token is resolved.
\<close>

record http_env =
  he_account :: uuid
  he_player :: uuid
  he_registered :: datetime
  he_created :: datetime
  he_check :: datetime
  he_login :: datetime
  he_now :: instant
  he_bytes :: "u8 list"

section \<open>Handlers\<close>

record register_request =
  rq_username :: rstring
  rq_password :: rstring
  rq_nickname :: rstring

record login_request =
  lq_username :: rstring
  lq_password :: rstring

definition into_response ::
  "(status_code \<Rightarrow> rstring option) \<Rightarrow> (status_code \<times> http_body, api_error) result \<Rightarrow> http_response" where
  "into_response reason r =
     (case r of
        Ok (status, body) \<Rightarrow> \<lparr>hr_status = status, hr_headers = [], hr_body = body\<rparr>
      | Err e \<Rightarrow> ApiError_into_response reason e)"

definition http_healthz :: "(status_code \<times> http_body, api_error) result" where
  "http_healthz = Ok (200, TextBody (ascii ''ok''))"

definition http_register ::
  "('s, 't, 'l) http_state \<Rightarrow> http_env \<Rightarrow> register_request \<Rightarrow> 's \<Rightarrow> 'l
     \<Rightarrow> (status_code \<times> http_body, api_error) result \<times> 's \<times> 'l" where
  "http_register state env request s l =
     (let u = hs_register state in
      case RegisterUseCase_execute (ru_accounts u) (ru_registration u) (ru_hasher u) (ru_audit u)
             (he_account env) (he_player env) (he_registered env) (he_created env)
             \<lparr>rc_username = rq_username request, rc_password = rq_password request, rc_nickname = rq_nickname request\<rparr> s l of
        (res, s', l') \<Rightarrow>
          (case res of
             Ok r \<Rightarrow> Ok (201, RegisterResponse (account_uuid (rr_account_id r)) (player_uuid (rr_player_id r)) (rr_nickname r))
           | Err e \<Rightarrow> Err (ApiError_from e), s', l'))"

definition http_login ::
  "('s, 't, 'l) http_state \<Rightarrow> http_env \<Rightarrow> login_request \<Rightarrow> 's \<Rightarrow> 't \<Rightarrow> 'l
     \<Rightarrow> (status_code \<times> http_body, api_error) result \<times> 's \<times> 't \<times> 'l" where
  "http_login state env request s t l =
     (case LoginUseCase_execute (lu_deps (hs_login state)) (lu_token_ttl (hs_login state)) (he_check env) (he_login env)
             (he_now env) (he_bytes env) \<lparr>lc_username = lq_username request, lc_password = lq_password request\<rparr> s t l of
        (res, s', t', l') \<Rightarrow>
          (case res of
             Ok r \<Rightarrow> Ok (200, LoginResponse (lr_token r) (player_uuid (lr_player_id r)) (lr_nickname r) (lr_expires_in_secs r))
           | Err e \<Rightarrow> Err (ApiError_from e), s', t', l'))"

definition http_me ::
  "('s, 't, 'l) http_state \<Rightarrow> player_id \<Rightarrow> 's \<Rightarrow> (status_code \<times> http_body, api_error) result" where
  "http_me state player s =
     and_then (map_err ApiError_from (GetPlayerProfile_execute (hs_profile state) player s)) (\<lambda>p.
       Ok (200, PlayerResponse (player_uuid (pp_player_id p)) (pp_nickname p) (pp_level p) (pp_exp p) (pp_last_login_at p)))"

definition hsts_middleware :: "http_response \<Rightarrow> http_response" where
  "hsts_middleware r =
     r\<lparr>hr_headers := (ascii ''strict-transport-security'', ascii ''max-age=63072000; includeSubDomains'') #
        filter (\<lambda>h. fst h \<noteq> ascii ''strict-transport-security'') (hr_headers r)\<rparr>"

section \<open>Redirect to HTTPS\<close>

text \<open>
  \<open>host\<close> is the Host header parsed as an authority: its text, its host part and its port if that is a
  number of 16 bits.
\<close>

record authority =
  au_text :: rstring
  au_host :: rstring
  au_port :: "u16 option"

definition host_acceptable :: "authority \<Rightarrow> bool" where
  "host_acceptable a \<longleftrightarrow>
     (let suffix = drop (length (au_host a)) (au_text a) in
      0x40 \<notin> set (au_text a) \<and> au_host a \<noteq> [] \<and>
      (suffix = [] \<or> (hd suffix = 0x3A \<and> au_port a \<noteq> None)))"

definition to_https :: "(nat \<Rightarrow> rstring) \<Rightarrow> u16 \<Rightarrow> authority option \<Rightarrow> rstring option \<Rightarrow> http_response" where
  "to_https show_port https_port host path =
     (case host of
        Some a \<Rightarrow>
          (if host_acceptable a
           then (let p = (case path of Some p \<Rightarrow> p | None \<Rightarrow> ascii ''/'');
                     authority = (if https_port = 443 then au_host a
                                  else au_host a @ ascii '':'' @ show_port (unat https_port))
                 in \<lparr>hr_status = 308, hr_headers = [(ascii ''location'', ascii ''https://'' @ authority @ p)], hr_body = NoBody\<rparr>)
           else \<lparr>hr_status = 400, hr_headers = [], hr_body = NoBody\<rparr>)
      | None \<Rightarrow> \<lparr>hr_status = 400, hr_headers = [], hr_body = NoBody\<rparr>)"

section \<open>Properties\<close>

lemma strip_prefix_append: "strip_prefix p (p @ s) = Some s"
  by (induction p) auto

lemma into_response_simps [simp]:
  "hr_status (into_response reason (Ok (status, body))) = status"
  "hr_body (into_response reason (Ok (status, body))) = body"
  "hr_status (into_response reason (Err e)) = ae_status e"
  by (simp_all add: into_response_def ApiError_into_response_def)

lemma api_error_status [simp]: "ae_status (ApiError_from e) \<noteq> 200" "ae_status (ApiError_from e) \<noteq> 201"
  by (cases e; simp add: ApiError_new_def)+

end
