(* ===== verification/LX_HttpRouter.thy ===== *)
theory LX_HttpRouter
  imports LX_Http
begin

text \<open>
  \<^verbatim>\<open>crates/gateway/src/http/routes.rs\<close> and \<^verbatim>\<open>server.rs\<close>: the route table of the HTTPS server with the extraction of
  each handler's arguments, and the router of the redirect listener. A router is the list of calls that
  the code makes to build it. How the HTTP framework serves a request on such a router is a parameter
  with the hypothesis \<open>axum_spec\<close>, the decoding of JSON bodies one with \<open>json_spec\<close>.
\<close>

section \<open>Requests and routers\<close>

datatype http_method = GET | HEAD | POST | OtherMethod rstring

text \<open>Headers are given when they are present and visible ASCII.\<close>

record http_request =
  qt_method :: http_method
  qt_path :: rstring
  qt_path_and_query :: "rstring option"
  qt_host :: "rstring option"
  qt_authorization :: "rstring option"
  qt_content_type :: "rstring option"
  qt_body :: "u8 list"

type_synonym 'w http_handler = "http_request \<Rightarrow> 'w \<Rightarrow> http_response \<times> 'w"

datatype 'w router_call =
    Route rstring http_method "'w http_handler"
  | Fallback "'w http_handler"
  | Layer "http_response \<Rightarrow> http_response"

record json_lib =
  jx_register :: "http_request \<Rightarrow> (register_request, http_response) result"
  jx_login :: "http_request \<Rightarrow> (login_request, http_response) result"

text \<open>A rejected body is answered with one of the documented client errors.\<close>

definition json_spec :: "json_lib \<Rightarrow> bool" where
  "json_spec J \<longleftrightarrow>
     (\<forall>q r. jx_register J q = Err r \<or> jx_login J q = Err r \<longrightarrow> hr_status r \<in> {400, 413, 415, 422})"

section \<open>The HTTPS routes\<close>

definition serve_healthz :: "(status_code \<Rightarrow> rstring option) \<Rightarrow> 'w http_handler" where
  "serve_healthz reason q w = (into_response reason http_healthz, w)"

definition serve_register ::
  "json_lib \<Rightarrow> (status_code \<Rightarrow> rstring option) \<Rightarrow> http_env \<Rightarrow> ('s, 't, 'l) http_state \<Rightarrow> ('s \<times> 't \<times> 'l) http_handler" where
  "serve_register J reason env state q w =
     (case w of (s, t, l) \<Rightarrow>
        (case jx_register J q of
           Err rejection \<Rightarrow> (rejection, w)
         | Ok request \<Rightarrow> (case http_register state env request s l of (r, s', l') \<Rightarrow> (into_response reason r, s', t, l'))))"

definition serve_login ::
  "json_lib \<Rightarrow> (status_code \<Rightarrow> rstring option) \<Rightarrow> http_env \<Rightarrow> ('s, 't, 'l) http_state \<Rightarrow> ('s \<times> 't \<times> 'l) http_handler" where
  "serve_login J reason env state q w =
     (case w of (s, t, l) \<Rightarrow>
        (case jx_login J q of
           Err rejection \<Rightarrow> (rejection, w)
         | Ok request \<Rightarrow> (case http_login state env request s t l of (r, s', t', l') \<Rightarrow> (into_response reason r, s', t', l'))))"

definition serve_me ::
  "(status_code \<Rightarrow> rstring option) \<Rightarrow> http_env \<Rightarrow> ('s, 't, 'l) http_state \<Rightarrow> ('s \<times> 't \<times> 'l) http_handler" where
  "serve_me reason env state q w =
     (case w of (s, t, l) \<Rightarrow>
        (into_response reason
           (and_then (AuthUser_from_request (hs_tokens state) (he_now env) (qt_authorization q) t)
              (\<lambda>player. http_me state player s)), w))"

definition router ::
  "json_lib \<Rightarrow> (status_code \<Rightarrow> rstring option) \<Rightarrow> http_env \<Rightarrow> ('s, 't, 'l) http_state \<Rightarrow> ('s \<times> 't \<times> 'l) router_call list" where
  "router J reason env state =
     [Route (ascii ''/healthz'') GET (serve_healthz reason),
      Route (ascii ''/register'') POST (serve_register J reason env state),
      Route (ascii ''/login'') POST (serve_login J reason env state),
      Route (ascii ''/me'') GET (serve_me reason env state),
      Layer hsts_middleware]"

section \<open>The redirect listener\<close>

definition redirect_router :: "(rstring \<Rightarrow> authority option) \<Rightarrow> (nat \<Rightarrow> rstring) \<Rightarrow> u16 \<Rightarrow> 'w router_call list" where
  "redirect_router parse_authority show_port https_port =
     [Fallback (\<lambda>q w. (to_https show_port https_port (Option.bind (qt_host q) parse_authority) (qt_path_and_query q), w))]"

section \<open>Serving a request\<close>

fun route_keys :: "'w router_call list \<Rightarrow> (rstring \<times> http_method) list" where
  "route_keys [] = []"
| "route_keys (Route p m h # calls) = (p, m) # route_keys calls"
| "route_keys (Fallback h # calls) = route_keys calls"
| "route_keys (Layer f # calls) = route_keys calls"

fun route_of :: "'w router_call list \<Rightarrow> rstring \<Rightarrow> http_method \<Rightarrow> 'w http_handler option" where
  "route_of [] p m = None"
| "route_of (Route p' m' h # calls) p m = (if p = p' \<and> m = m' then Some h else route_of calls p m)"
| "route_of (Fallback h # calls) p m = route_of calls p m"
| "route_of (Layer f # calls) p m = route_of calls p m"

fun fallback_of :: "'w router_call list \<Rightarrow> 'w http_handler option" where
  "fallback_of [] = None"
| "fallback_of (Route p m h # calls) = fallback_of calls"
| "fallback_of (Fallback h # calls) = Some h"
| "fallback_of (Layer f # calls) = fallback_of calls"

definition is_layer :: "'w router_call \<Rightarrow> bool" where
  "is_layer c \<longleftrightarrow> (case c of Layer f \<Rightarrow> True | _ \<Rightarrow> False)"

text \<open>
  The documented dispatch of a router: a layer added last sees every response; among routes with
  different keys the one with the path and the method of the request runs; a \<^verbatim>\<open>GET\<close> route also serves \<^verbatim>\<open>HEAD\<close>
  without the body; a known path with another method is answered with 405, an unknown one by the
  fallback or with 404.
\<close>

definition dispatched :: "'w router_call list \<Rightarrow> http_request \<Rightarrow> 'w \<Rightarrow> http_response \<times> 'w \<Rightarrow> bool" where
  "dispatched calls q w out \<longleftrightarrow>
     (case route_of calls (qt_path q) (qt_method q) of
        Some h \<Rightarrow> out = h q w
      | None \<Rightarrow>
          (case (if qt_method q = HEAD then route_of calls (qt_path q) GET else None) of
             Some h \<Rightarrow> out = ((fst (h q w))\<lparr>hr_body := NoBody\<rparr>, snd (h q w))
           | None \<Rightarrow>
               (if qt_path q \<in> fst ` set (route_keys calls) then hr_status (fst out) = 405 \<and> snd out = w
                else (case fallback_of calls of
                        Some h \<Rightarrow> out = h q w
                      | None \<Rightarrow> hr_status (fst out) = 404 \<and> snd out = w))))"

definition axum_spec :: "('w router_call list \<Rightarrow> 'w http_handler) \<Rightarrow> bool" where
  "axum_spec oneshot \<longleftrightarrow>
     (\<forall>calls f q w. oneshot (calls @ [Layer f]) q w = (f (fst (oneshot calls q w)), snd (oneshot calls q w))) \<and>
     (\<forall>calls q w. \<not> list_ex is_layer calls \<longrightarrow> distinct (route_keys calls) \<longrightarrow> dispatched calls q w (oneshot calls q w))"

section \<open>Dispatch lemmas\<close>

lemma layered_dispatch:
  assumes "axum_spec oneshot" and "\<not> list_ex is_layer calls" and "distinct (route_keys calls)"
  obtains out where "dispatched calls q w out" and "oneshot (calls @ [Layer f]) q w = (f (fst out), snd out)"
  using assms unfolding axum_spec_def by blast

text \<open>The routes of the HTTPS router before the layer.\<close>

abbreviation routes where
  "routes J reason env state \<equiv> butlast (router J reason env state)"

lemma router_layered: "router J reason env state = routes J reason env state @ [Layer hsts_middleware]"
  by (simp add: router_def)

lemma path_distinct [simp]:
  "ascii ''/healthz'' \<noteq> ascii ''/register''" "ascii ''/healthz'' \<noteq> ascii ''/login''" "ascii ''/healthz'' \<noteq> ascii ''/me''"
  "ascii ''/register'' \<noteq> ascii ''/login''" "ascii ''/register'' \<noteq> ascii ''/me''" "ascii ''/login'' \<noteq> ascii ''/me''"
  by code_simp+

lemmas path_distinct_sym [simp] = path_distinct [symmetric]

lemma routes_plain [simp]:
  "\<not> list_ex is_layer (routes J reason env state)" "distinct (route_keys (routes J reason env state))"
  "fallback_of (routes J reason env state) = None"
  "set (route_keys (routes J reason env state)) =
     {(ascii ''/healthz'', GET), (ascii ''/register'', POST), (ascii ''/login'', POST), (ascii ''/me'', GET)}"
  by (simp_all add: router_def is_layer_def insert_commute)

lemma route_of_routes:
  "route_of (routes J reason env state) p m =
     (if p = ascii ''/healthz'' \<and> m = GET then Some (serve_healthz reason)
      else if p = ascii ''/register'' \<and> m = POST then Some (serve_register J reason env state)
      else if p = ascii ''/login'' \<and> m = POST then Some (serve_login J reason env state)
      else if p = ascii ''/me'' \<and> m = GET then Some (serve_me reason env state)
      else None)"
  by (auto simp: router_def)

lemma router_dispatch:
  assumes "axum_spec oneshot"
  obtains out where "dispatched (routes J reason env state) q w out"
    and "oneshot (router J reason env state) q w = (hsts_middleware (fst out), snd out)"
  using layered_dispatch [OF assms routes_plain(1,2)] router_layered by metis

lemma router_route:
  assumes "axum_spec oneshot" and "route_of (routes J reason env state) (qt_path q) (qt_method q) = Some h"
  shows "oneshot (router J reason env state) q w = (hsts_middleware (fst (h q w)), snd (h q w))"
  by (rule router_dispatch [OF assms(1), of J reason env state q w]) (use assms(2) in \<open>simp add: dispatched_def\<close>)

lemma hsts_middleware_simps [simp]:
  "hr_status (hsts_middleware r) = hr_status r" "hr_body (hsts_middleware r) = hr_body r"
  by (simp_all add: hsts_middleware_def)

text \<open>A router whose keys say nothing about a request answers 404 or 405 and keeps the state.\<close>

lemma dispatched_miss:
  assumes "dispatched calls q w out" and "route_of calls (qt_path q) (qt_method q) = None" and "fallback_of calls = None"
    and "qt_method q = HEAD \<Longrightarrow> route_of calls (qt_path q) GET = None"
  shows "snd out = w" and "hr_status (fst out) = (if qt_path q \<in> fst ` set (route_keys calls) then 405 else 404)"
  using assms by (cases "qt_method q = HEAD"; simp add: dispatched_def split: if_splits)+

lemma dispatched_keeps:
  assumes "dispatched (routes J reason env state) q w out" and "snd out \<noteq> w"
  shows "qt_method q = POST \<and>
    (qt_path q = ascii ''/register'' \<and> is_ok (jx_register J q) \<or> qt_path q = ascii ''/login'' \<and> is_ok (jx_login J q))"
proof (cases "route_of (routes J reason env state) (qt_path q) (qt_method q)")
  case None
  with assms dispatched_miss(1) [OF assms(1) None] show ?thesis
    by (cases w) (auto simp: dispatched_def route_of_routes serve_healthz_def serve_me_def split: if_splits)
next
  case (Some h)
  with assms show ?thesis
    by (cases w) (auto simp: dispatched_def route_of_routes serve_healthz_def serve_me_def serve_register_def serve_login_def
        split: if_splits result.splits)
qed

lemma dispatched_rejected:
  assumes "json_spec J" and "dispatched (routes J reason env state) q w out" and "qt_method q = POST \<and>
    (qt_path q = ascii ''/register'' \<and> is_err (jx_register J q) \<or> qt_path q = ascii ''/login'' \<and> is_err (jx_login J q))"
  shows "hr_status (fst out) \<in> {400, 413, 415, 422}"
proof -
  from assms(3) consider (register) r where "qt_path q = ascii ''/register''" "jx_register J q = Err r"
    | (login) r where "qt_path q = ascii ''/login''" "jx_login J q = Err r"
    by (metis is_err_def is_ok.simps(1) result.exhaust)
  then show ?thesis
  proof cases
    case register
    then have "out = (r, w)" using assms(2,3) by (cases w) (simp add: dispatched_def route_of_routes serve_register_def)
    with assms(1) register show ?thesis unfolding json_spec_def by (metis fst_conv)
  next
    case login
    then have "out = (r, w)" using assms(2,3) by (cases w) (simp add: dispatched_def route_of_routes serve_login_def)
    with assms(1) login show ?thesis unfolding json_spec_def by (metis fst_conv)
  qed
qed

section \<open>A concrete dispatcher\<close>

text \<open>A dispatcher with the documented behaviour, for the witnesses.\<close>

definition plain_oneshot :: "'w router_call list \<Rightarrow> 'w http_handler" where
  "plain_oneshot calls q w =
     (case route_of calls (qt_path q) (qt_method q) of
        Some h \<Rightarrow> h q w
      | None \<Rightarrow>
          (case (if qt_method q = HEAD then route_of calls (qt_path q) GET else None) of
             Some h \<Rightarrow> ((fst (h q w))\<lparr>hr_body := NoBody\<rparr>, snd (h q w))
           | None \<Rightarrow>
               (if qt_path q \<in> fst ` set (route_keys calls)
                then (\<lparr>hr_status = 405, hr_headers = [], hr_body = NoBody\<rparr>, w)
                else (case fallback_of calls of
                        Some h \<Rightarrow> h q w
                      | None \<Rightarrow> (\<lparr>hr_status = 404, hr_headers = [], hr_body = NoBody\<rparr>, w)))))"

function sample_oneshot :: "'w router_call list \<Rightarrow> 'w http_handler" where
  "sample_oneshot calls q w =
     (case rev calls of
        Layer f # rest \<Rightarrow> (f (fst (sample_oneshot (rev rest) q w)), snd (sample_oneshot (rev rest) q w))
      | _ \<Rightarrow> plain_oneshot calls q w)"
  by pat_completeness auto

termination
  by (relation "measure (\<lambda>(calls, q, w). length calls)") (auto dest!: arg_cong [where f = length])

declare sample_oneshot.simps [simp del]

lemma plain_oneshot_dispatched: "dispatched calls q w (plain_oneshot calls q w)"
  unfolding dispatched_def plain_oneshot_def by (simp split: option.split)

lemma axum_spec_sample: "axum_spec sample_oneshot"
  unfolding axum_spec_def
proof (intro conjI allI impI)
  fix calls :: "'w router_call list" and f q w
  show "sample_oneshot (calls @ [Layer f]) q w = (f (fst (sample_oneshot calls q w)), snd (sample_oneshot calls q w))"
    by (subst sample_oneshot.simps) simp
next
  fix calls :: "'w router_call list" and q w
  assume "\<not> list_ex is_layer calls"
  then have "\<forall>c\<in>set (rev calls). \<not> is_layer c" by (simp add: list_ex_iff)
  then have "sample_oneshot calls q w = plain_oneshot calls q w"
    by (subst sample_oneshot.simps) (auto simp: is_layer_def split: list.split router_call.split)
  then show "dispatched calls q w (sample_oneshot calls q w)" by (simp add: plain_oneshot_dispatched)
qed

lemma me_ok_iff:
  "hr_status (fst (serve_me reason env state q (s, t, l))) = 200 \<longleftrightarrow>
     (\<exists>h token player p. qt_authorization q = Some h \<and> strip_prefix (ascii ''Bearer '') h = Some token \<and>
        tk_resolve (hs_tokens state) (he_now env) (trim token) t = Ok (Some player) \<and>
        GetPlayerProfile_execute (hs_profile state) player s = Ok p)"
proof (cases "AuthUser_from_request (hs_tokens state) (he_now env) (qt_authorization q) t")
  case (Err e)
  have "ae_status e \<noteq> 200"
    using Err by (auto simp: AuthUser_from_request_def ok_or_def ApiError_new_def split: option.splits result.splits)
  with Err show ?thesis
    by (auto simp: serve_me_def AuthUser_from_request_def ok_or_def)
next
  case (Ok player)
  from Ok obtain h token where "qt_authorization q = Some h" "strip_prefix (ascii ''Bearer '') h = Some token"
    "tk_resolve (hs_tokens state) (he_now env) (trim token) t = Ok (Some player)"
    by (auto simp: AuthUser_from_request_def ok_or_def split: result.splits option.splits)
  with Ok show ?thesis
    by (cases "GetPlayerProfile_execute (hs_profile state) player s") (auto simp: serve_me_def http_me_def)
qed

text \<open>On the in-memory stores the token of a login resolves to a player with a profile until it expires.\<close>

lemma memory_login_profile:
  assumes "ld_tokens deps = InMemoryTokenStore imax" and "ld_players deps = InMemoryPlayerRepository"
    and "mem_inv s" and "token_inv t" and "\<not> token_known (random_token bytes) t"
    and "LoginUseCase_execute deps ttl now_check now_login now bytes cmd s t l = (Ok lr, s', t', l')" and "at0 < now + ttl"
  shows "\<exists>p. tk_resolve (InMemoryTokenStore imax) at0 (trim (lr_token lr)) t' = Ok (Some (lr_player_id lr)) \<and>
    GetPlayerProfile_execute InMemoryPlayerRepository (lr_player_id lr) s' = Ok p \<and>
    pp_player_id p = lr_player_id lr \<and> pp_nickname p = lr_nickname lr"
proof -
  have cr: "InMemoryTokenStore_create imax bytes now (lr_player_id lr) ttl t = (Ok (lr_token lr), t')"
    using login_issues [OF assms(6)] assms(1) by (simp add: InMemoryTokenStore_def)
  have "trim (lr_token lr) = lr_token lr" using memory_tokens.create_token [OF cr] trim_random_token by simp
  moreover have "tk_resolve (InMemoryTokenStore imax) at0 (lr_token lr) t' = Ok (Some (lr_player_id lr))"
    using memory_tokens.create_resolve [OF assms(4,5) cr, of at0 "lr_token lr"] assms(7)
    by (simp add: InMemoryTokenStore_def)
  moreover obtain p where p: "InMemoryPlayer_find_by_id (lr_player_id lr) s' = Ok (Some p)"
    "Nickname_as_str (pl_nickname p) = lr_nickname lr" "pl_id p = lr_player_id lr"
    using memory_login_player [OF assms(3,2,6)] by blast
  ultimately show ?thesis
    by (simp add: GetPlayerProfile_execute_def InMemoryPlayerRepository_def ok_or_def PlayerProfile_from_def)
qed

text \<open>A login that was answered with 200 ran the use case with success.\<close>

lemma serve_login_ok:
  assumes "json_spec J" and "serve_login J reason env state q (s, t, l) = (r, s', t', l')" and "hr_status r = 200"
  obtains cmd lr where "LoginUseCase_execute (lu_deps (hs_login state)) (lu_token_ttl (hs_login state)) (he_check env)
      (he_login env) (he_now env) (he_bytes env) cmd s t l = (Ok lr, s', t', l')"
    and "hr_body r = LoginResponse (lr_token lr) (player_uuid (lr_player_id lr)) (lr_nickname lr) (lr_expires_in_secs lr)"
proof -
  have "jx_login J q \<noteq> Err r" using assms(1,3) unfolding json_spec_def by force
  then obtain request res where "jx_login J q = Ok request" "r = into_response reason res"
    "http_login state env request s t l = (res, s', t', l')"
    using assms(2) by (auto simp: serve_login_def split: result.splits prod.splits)
  with that assms(3) show thesis by (auto simp: http_login_def split: prod.splits result.splits)
qed

text \<open>A server on the in-memory stores, a decoder that knows one body, and the requests of a client.\<close>

definition sample_http_state :: "(mem_store, token_state, nat) http_state" where
  "sample_http_state =
     \<lparr>hs_register = \<lparr>ru_accounts = InMemoryAccountRepository, ru_registration = InMemoryRegistrationStore,
                     ru_hasher = sample_hasher, ru_audit = sample_audit\<rparr>,
      hs_login = \<lparr>lu_deps = sample_login_deps, lu_token_ttl = 50\<rparr>,
      hs_profile = InMemoryPlayerRepository, hs_tokens = InMemoryTokenStore 1000\<rparr>"

definition sample_http_env :: "instant \<Rightarrow> http_env" where
  "sample_http_env now =
     \<lparr>he_account = 1, he_player = 2, he_registered = 10, he_created = 11, he_check = 0, he_login = 0, he_now = now,
      he_bytes = [0x0A]\<rparr>"

definition sample_decode :: "'a \<Rightarrow> http_request \<Rightarrow> ('a, http_response) result" where
  "sample_decode x q =
     (if qt_content_type q = Some (ascii ''application/json'') then Ok x
      else Err \<lparr>hr_status = 415, hr_headers = [], hr_body = NoBody\<rparr>)"

definition sample_json :: json_lib where
  "sample_json =
     \<lparr>jx_register = sample_decode \<lparr>rq_username = rc_username sample_command, rq_password = rc_password sample_command,
                                   rq_nickname = rc_nickname sample_command\<rparr>,
      jx_login = sample_decode \<lparr>lq_username = rc_username sample_command, lq_password = rc_password sample_command\<rparr>\<rparr>"

definition sample_request :: "http_method \<Rightarrow> rstring \<Rightarrow> rstring option \<Rightarrow> http_request" where
  "sample_request method path authorization =
     \<lparr>qt_method = method, qt_path = path, qt_path_and_query = Some path, qt_host = None, qt_authorization = authorization,
      qt_content_type = Some (ascii ''application/json''), qt_body = []\<rparr>"

lemma json_spec_sample: "json_spec sample_json"
  by (auto simp: json_spec_def sample_json_def sample_decode_def split: if_splits)

text \<open>What an accepted \<^verbatim>\<open>POST /login\<close> has done.\<close>

lemma login_route:
  assumes "axum_spec oneshot" and "json_spec J" and "qt_method q = POST" and "qt_path q = ascii ''/login''"
    and "oneshot (router J reason env state) q (s, t, l) = (r, s', t', l')" and "hr_status r = 200"
  obtains cmd lr where "LoginUseCase_execute (lu_deps (hs_login state)) (lu_token_ttl (hs_login state)) (he_check env)
      (he_login env) (he_now env) (he_bytes env) cmd s t l = (Ok lr, s', t', l')"
    and "hr_body r = LoginResponse (lr_token lr) (player_uuid (lr_player_id lr)) (lr_nickname lr) (lr_expires_in_secs lr)"
proof -
  have "r = hsts_middleware (fst (serve_login J reason env state q (s, t, l)))"
    and "(s', t', l') = snd (serve_login J reason env state q (s, t, l))"
    using router_route [OF assms(1), of J reason env state q] assms(3-5) by (auto simp: route_of_routes)
  with serve_login_ok [OF assms(2), of reason env state q s t l "fst (serve_login J reason env state q (s, t, l))" s' t' l']
    assms(6) that show ?thesis by (metis hsts_middleware_simps prod.collapse)
qed

text \<open>The sample account logs in over HTTP.\<close>

lemma sample_http_login:
  assumes "LoginUseCase_execute sample_login_deps 50 0 0 2 [0x0A] sample_login_command
      (fst (snd sample_registered)) InMemoryTokenStore_new (snd (snd sample_registered)) = (Ok lr, s2, t2, l2)"
  obtains r where "sample_oneshot (router sample_json (\<lambda>c. None) (sample_http_env 2) sample_http_state)
      (sample_request POST (ascii ''/login'') None)
      (fst (snd sample_registered), InMemoryTokenStore_new, snd (snd sample_registered)) = (r, s2, t2, l2)"
    and "hr_status r = 200"
    and "hr_body r = LoginResponse (lr_token lr) (player_uuid (lr_player_id lr)) (lr_nickname lr) (lr_expires_in_secs lr)"
proof -
  let ?q = "sample_request POST (ascii ''/login'') None"
  let ?w = "(fst (snd sample_registered), InMemoryTokenStore_new, snd (snd sample_registered))"
  have "serve_login sample_json (\<lambda>c. None) (sample_http_env 2) sample_http_state ?q ?w =
      (into_response (\<lambda>c. None) (Ok (200, LoginResponse (lr_token lr) (player_uuid (lr_player_id lr)) (lr_nickname lr)
         (lr_expires_in_secs lr))), s2, t2, l2)"
    using assms by (simp add: serve_login_def sample_json_def sample_decode_def sample_request_def http_login_def
        sample_http_state_def sample_http_env_def)
  with that router_route [OF axum_spec_sample, of sample_json "\<lambda>c. None" "sample_http_env 2" sample_http_state ?q
        "serve_login sample_json (\<lambda>c. None) (sample_http_env 2) sample_http_state" ?w]
  show ?thesis by (simp add: route_of_routes sample_request_def)
qed

section \<open>Properties\<close>

text \<open>
  (C39) Routing of the HTTPS server: every response, also to unknown paths, carries the transport security
  header exactly once; the stores change only through \<^verbatim>\<open>POST /register\<close> and \<^verbatim>\<open>POST /login\<close> with a body that
  decodes; an undecodable body is a client error; an unknown path is answered with 404 and a known one
  with another method with 405; \<^verbatim>\<open>GET /healthz\<close> answers 200.
\<close>

theorem http_routing:
  assumes "axum_spec oneshot" and "json_spec J" and "oneshot (router J reason env state) q w = (r, w')"
  shows "filter (\<lambda>h. fst h = ascii ''strict-transport-security'') (hr_headers r) =
           [(ascii ''strict-transport-security'', ascii ''max-age=63072000; includeSubDomains'')] \<and>
    (w' \<noteq> w \<longrightarrow> qt_method q = POST \<and>
       (qt_path q = ascii ''/register'' \<and> is_ok (jx_register J q) \<or> qt_path q = ascii ''/login'' \<and> is_ok (jx_login J q))) \<and>
    (qt_method q = POST \<and> (qt_path q = ascii ''/register'' \<and> is_err (jx_register J q) \<or>
       qt_path q = ascii ''/login'' \<and> is_err (jx_login J q)) \<longrightarrow> hr_status r \<in> {400, 413, 415, 422}) \<and>
    (qt_path q \<notin> {ascii ''/healthz'', ascii ''/register'', ascii ''/login'', ascii ''/me''} \<longrightarrow> hr_status r = 404) \<and>
    (qt_path q \<in> {ascii ''/healthz'', ascii ''/me''} \<and> qt_method q \<notin> {GET, HEAD} \<or>
     qt_path q \<in> {ascii ''/register'', ascii ''/login''} \<and> qt_method q \<noteq> POST \<longrightarrow> hr_status r = 405) \<and>
    (qt_path q = ascii ''/healthz'' \<and> qt_method q = GET \<longrightarrow> hr_status r = 200 \<and> hr_body r = TextBody (ascii ''ok''))"
proof -
  let ?R = "routes J reason env state"
  obtain out where out: "dispatched ?R q w out" "r = hsts_middleware (fst out)" "w' = snd out"
    using router_dispatch [OF assms(1), of J reason env state q w] assms(3) by (metis prod.inject)
  have miss: "hr_status r = (if qt_path q \<in> fst ` set (route_keys ?R) then 405 else 404)"
    if "route_of ?R (qt_path q) (qt_method q) = None" "qt_method q = HEAD \<Longrightarrow> route_of ?R (qt_path q) GET = None"
    using dispatched_miss(2) [OF out(1) that(1) _ that(2)] out(2) by simp
  show ?thesis
  proof (intro conjI impI)
    show "filter (\<lambda>h. fst h = ascii ''strict-transport-security'') (hr_headers r) =
        [(ascii ''strict-transport-security'', ascii ''max-age=63072000; includeSubDomains'')]"
      by (simp add: out(2) hsts_middleware_def)
  next
    assume "w' \<noteq> w"
    with dispatched_keeps [OF out(1)] out(3) show "qt_method q = POST" by simp
  next
    assume "w' \<noteq> w"
    with dispatched_keeps [OF out(1)] out(3) show "qt_path q = ascii ''/register'' \<and> is_ok (jx_register J q) \<or>
      qt_path q = ascii ''/login'' \<and> is_ok (jx_login J q)" by simp
  next
    assume "qt_method q = POST \<and> (qt_path q = ascii ''/register'' \<and> is_err (jx_register J q) \<or>
       qt_path q = ascii ''/login'' \<and> is_err (jx_login J q))"
    then show "hr_status r \<in> {400, 413, 415, 422}" using dispatched_rejected [OF assms(2) out(1)] out(2) by simp
  next
    assume "qt_path q \<notin> {ascii ''/healthz'', ascii ''/register'', ascii ''/login'', ascii ''/me''}"
    then show "hr_status r = 404" using miss by (simp add: route_of_routes)
  next
    assume "qt_path q \<in> {ascii ''/healthz'', ascii ''/me''} \<and> qt_method q \<notin> {GET, HEAD} \<or>
     qt_path q \<in> {ascii ''/register'', ascii ''/login''} \<and> qt_method q \<noteq> POST"
    then show "hr_status r = 405" using miss by (elim disjE; auto simp: route_of_routes)
  qed (use out in \<open>auto simp: dispatched_def route_of_routes serve_healthz_def http_healthz_def\<close>)
qed

text \<open>Witness: an unknown path on the sample server.\<close>

theorem http_routing_witness:
  "hr_status (fst (sample_oneshot (router sample_json (\<lambda>c. None) (sample_http_env 0) sample_http_state)
     (sample_request GET (ascii ''/x'') None) (mem_store_new, InMemoryTokenStore_new, 0))) = 404"
proof -
  have "ascii ''/x'' \<notin> {ascii ''/healthz'', ascii ''/register'', ascii ''/login'', ascii ''/me''}" by code_simp
  with http_routing [OF axum_spec_sample json_spec_sample prod.collapse [symmetric], of "\<lambda>c. None" "sample_http_env 0"
      sample_http_state "sample_request GET (ascii ''/x'') None" "(mem_store_new, InMemoryTokenStore_new, 0)"]
  show ?thesis by (simp add: sample_request_def)
qed

text \<open>
  (C9) A session over HTTP: \<^verbatim>\<open>GET /me\<close> answers 200 exactly when the request carries a Bearer token that the
  store resolves to a player with a profile; after a \<^verbatim>\<open>POST /login\<close> answered with 200 on the in-memory
  stores, the token of the answer opens \<^verbatim>\<open>/me\<close> until it expires, for the same player and nickname; and
  an error response never depends on the detail of a storage, internal or post-commit error.
\<close>

theorem http_session:
  assumes "axum_spec oneshot" and "json_spec J"
    and "ld_tokens (lu_deps (hs_login state)) = InMemoryTokenStore imax" and "hs_tokens state = InMemoryTokenStore imax"
    and "ld_players (lu_deps (hs_login state)) = InMemoryPlayerRepository" and "hs_profile state = InMemoryPlayerRepository"
    and "mem_inv s" and "token_inv t" and "\<not> token_known (random_token (he_bytes env)) t"
    and "qt_method q = POST" and "qt_path q = ascii ''/login''" and "qt_method q' = GET" and "qt_path q' = ascii ''/me''"
    and "oneshot (router J reason env state) q (s, t, l) = (r, s', t', l')"
    and "oneshot (router J reason env' state) q' (s', t', l') = (r', w')"
  shows "(hr_status r' = 200 \<longleftrightarrow>
       (\<exists>h token player p. qt_authorization q' = Some h \<and> strip_prefix (ascii ''Bearer '') h = Some token \<and>
          InMemoryTokenStore_resolve (he_now env') (trim token) t' = Ok (Some player) \<and>
          GetPlayerProfile_execute InMemoryPlayerRepository player s' = Ok p)) \<and>
    (hr_status r = 200 \<longrightarrow> he_now env' < he_now env + lu_token_ttl (hs_login state) \<longrightarrow>
       (\<exists>token player nick secs. hr_body r = LoginResponse token player nick secs \<and>
          (qt_authorization q' = Some (ascii ''Bearer '' @ token) \<longrightarrow>
             (\<exists>level exp last. hr_body r' = PlayerResponse player nick level exp last)))) \<and>
    ApiError_from (Storage m) = ApiError_from (Internal m') \<and> ApiError_from (PostCommit m) = ApiError_from (PostCommit m')"
proof -
  have r': "r' = hsts_middleware (fst (serve_me reason env' state q' (s', t', l')))"
    using router_route [OF assms(1), of J reason env' state q'] assms(12,13,15) by (auto simp: route_of_routes)
  have "\<exists>token player nick secs. hr_body r = LoginResponse token player nick secs \<and>
          (qt_authorization q' = Some (ascii ''Bearer '' @ token) \<longrightarrow>
             (\<exists>level exp last. hr_body r' = PlayerResponse player nick level exp last))"
    if ok: "hr_status r = 200" and soon: "he_now env' < he_now env + lu_token_ttl (hs_login state)"
  proof -
    obtain cmd lr where log: "LoginUseCase_execute (lu_deps (hs_login state)) (lu_token_ttl (hs_login state)) (he_check env)
        (he_login env) (he_now env) (he_bytes env) cmd s t l = (Ok lr, s', t', l')"
      and body: "hr_body r = LoginResponse (lr_token lr) (player_uuid (lr_player_id lr)) (lr_nickname lr) (lr_expires_in_secs lr)"
      using login_route [OF assms(1,2,10,11,14) ok] .
    from memory_login_profile [OF assms(3,5,7,8,9) log soon] obtain p where
      p: "tk_resolve (InMemoryTokenStore imax) (he_now env') (trim (lr_token lr)) t' = Ok (Some (lr_player_id lr))"
      "GetPlayerProfile_execute InMemoryPlayerRepository (lr_player_id lr) s' = Ok p"
      "pp_player_id p = lr_player_id lr" "pp_nickname p = lr_nickname lr" by blast
    with body r' assms(4,6) show ?thesis
      by (auto simp: serve_me_def http_me_def AuthUser_from_request_def ok_or_def strip_prefix_append)
  qed
  then show ?thesis using r' me_ok_iff [of reason env' state q' s' t' l'] assms(4,6) by (simp add: InMemoryTokenStore_def)
qed

text \<open>Witness: the sample account logs in and asks for its profile.\<close>

theorem http_session_witness:
  "\<exists>r s' t' l'. sample_oneshot (router sample_json (\<lambda>c. None) (sample_http_env 2) sample_http_state)
      (sample_request POST (ascii ''/login'') None) (fst (snd sample_registered), InMemoryTokenStore_new, snd (snd sample_registered))
        = (r, s', t', l') \<and> hr_status r = 200 \<and>
   (\<exists>token player nick secs level exp last. hr_body r = LoginResponse token player nick secs \<and>
      hr_body (fst (sample_oneshot (router sample_json (\<lambda>c. None) (sample_http_env 10) sample_http_state)
        (sample_request GET (ascii ''/me'') (Some (ascii ''Bearer '' @ token))) (s', t', l'))) =
        PlayerResponse player nick level exp last)"
proof -
  let ?q = "sample_request POST (ascii ''/login'') None"
  let ?w = "(fst (snd sample_registered), InMemoryTokenStore_new, snd (snd sample_registered))"
  let ?R = "\<lambda>now. router sample_json (\<lambda>c. None) (sample_http_env now) sample_http_state"
  obtain lr s2 t2 l2 where log: "LoginUseCase_execute sample_login_deps 50 0 0 2 [0x0A] sample_login_command
      (fst (snd sample_registered)) InMemoryTokenStore_new (snd (snd sample_registered)) = (Ok lr, s2, t2, l2)"
    and k: "\<not> token_known (random_token [0x0A]) InMemoryTokenStore_new"
    and inv: "mem_inv (fst (snd sample_registered))"
    using sample_login by blast
  obtain r where r: "sample_oneshot (?R 2) ?q ?w = (r, s2, t2, l2)" "hr_status r = 200" by (rule sample_http_login [OF log])
  have me: "\<exists>token player nick secs. hr_body r = LoginResponse token player nick secs \<and>
      (qt_authorization q' = Some (ascii ''Bearer '' @ token) \<longrightarrow>
        (\<exists>level exp last. hr_body (fst (sample_oneshot (?R 10) q' (s2, t2, l2))) = PlayerResponse player nick level exp last))"
    if "qt_method q' = GET" "qt_path q' = ascii ''/me''" for q'
    using http_session [OF axum_spec_sample json_spec_sample _ _ _ _ inv token_inv_new _ _ _ that r(1) prod.collapse [symmetric],
        of 1000 "sample_http_env 10"] k r(2)
    by (simp add: sample_http_state_def sample_http_env_def sample_request_def)
  from me [of "sample_request GET (ascii ''/me'') None"] obtain token player nick secs where
    b: "hr_body r = LoginResponse token player nick secs" by (auto simp: sample_request_def)
  from me [of "sample_request GET (ascii ''/me'') (Some (ascii ''Bearer '' @ token))"] b r show ?thesis
    by (auto simp: sample_request_def)
qed

end
