(* ===== verification/LX_Observability.thy ===== *)
theory LX_Observability
  imports LX_HttpRouter
begin

text \<open>
  \<^verbatim>\<open>crates/server-bin/src/observability.rs\<close>: the choice of the log subscriber and the metrics endpoint. The parser of
  filter directives and the recorder of the metrics belong to libraries: they are the parameters
  \<open>env_filter\<close> and \<open>render\<close>, the text of the recorder in its current state.
\<close>

section \<open>Logging\<close>

record 'f env_filter =
  ef_try_new :: "rstring \<Rightarrow> ('f, rstring) result"
  ef_new :: "rstring \<Rightarrow> 'f"

record 'f subscriber =
  sb_filter :: 'f
  sb_json :: bool

definition eq_ignore_ascii_case :: "rstring \<Rightarrow> rstring \<Rightarrow> bool" where
  "eq_ignore_ascii_case s t \<longleftrightarrow> to_ascii_lowercase s = to_ascii_lowercase t"

definition init_tracing :: "'f env_filter \<Rightarrow> rstring \<Rightarrow> rstring \<Rightarrow> 'f subscriber" where
  "init_tracing E level format =
     \<lparr>sb_filter = (case ef_try_new E level of Ok f \<Rightarrow> f | Err _ \<Rightarrow> ef_new E (ascii ''info'')),
      sb_json = eq_ignore_ascii_case format (ascii ''json'')\<rparr>"

section \<open>Metrics\<close>

definition metrics_router :: "('w \<Rightarrow> rstring) \<Rightarrow> 'w router_call list" where
  "metrics_router render =
     [Route (ascii ''/metrics'') GET
        (\<lambda>q w. (\<lparr>hr_status = 200, hr_headers = [], hr_body = TextBody (render w)\<rparr>, w))]"

text \<open>What is served on which listener; a port that cannot be bound is only logged.\<close>

definition serve_metrics ::
  "('a \<Rightarrow> 'o \<Rightarrow> ('li, 'e) result \<times> 'o) \<Rightarrow> 'a \<Rightarrow> ('w \<Rightarrow> rstring) \<Rightarrow> 'o \<Rightarrow> ('li \<times> 'w router_call list) option \<times> 'o" where
  "serve_metrics tcp_bind addr render os =
     (case tcp_bind addr os of
        (Ok listener, os') \<Rightarrow> (Some (listener, metrics_router render), os')
      | (Err e, os') \<Rightarrow> (None, os'))"

section \<open>Behaviour\<close>

lemma init_tracing_format: "sb_json (init_tracing E level (to_ascii_lowercase format)) = sb_json (init_tracing E level format)"
  by (simp add: init_tracing_def eq_ignore_ascii_case_def)

lemma metrics_dispatch:
  assumes "axum_spec oneshot"
  shows "dispatched (metrics_router render) q w (oneshot (metrics_router render) q w)"
  using assms by (simp add: axum_spec_def metrics_router_def is_layer_def)

text \<open>
  The metrics endpoint only reads: it answers \<^verbatim>\<open>GET /metrics\<close> with the text of the recorder, everything else with
  404 or 405, and no request changes the recorder.
\<close>

lemma metrics_endpoint:
  assumes "axum_spec oneshot" and "oneshot (metrics_router render) q w = (r, w')"
  shows "w' = w \<and>
    (qt_path q = ascii ''/metrics'' \<and> qt_method q = GET \<longrightarrow> hr_status r = 200 \<and> hr_body r = TextBody (render w)) \<and>
    (qt_path q = ascii ''/metrics'' \<and> qt_method q \<notin> {GET, HEAD} \<longrightarrow> hr_status r = 405) \<and>
    (qt_path q \<noteq> ascii ''/metrics'' \<longrightarrow> hr_status r = 404)"
proof -
  have "dispatched (metrics_router render) q w (r, w')"
    using metrics_dispatch [OF assms(1), of render q w] unfolding assms(2) .
  then show ?thesis
    unfolding dispatched_def metrics_router_def
    by (cases "qt_method q = HEAD"; cases "qt_path q = ascii ''/metrics''"; cases "qt_method q = GET") auto
qed

end
