(* ===== verification/LX_Database.thy ===== *)
theory LX_Database
  imports LX_MemoryRepos LX_Converters
begin

text \<open>
  The SeaORM repositories of \<^verbatim>\<open>crates/infrastructure/src/persistence/repositories\<close>
  (\<^verbatim>\<open>account_repo.rs\<close>, \<^verbatim>\<open>player_repo.rs\<close>, \<^verbatim>\<open>registration_store.rs\<close>, \<^verbatim>\<open>audit_repo.rs\<close>). The ORM and
  PostgreSQL are not part of the repository: the statements the repositories issue are the record
  \<open>database\<close> over an abstract database \<open>'d\<close>, and \<open>db_spec\<close> is their documented behaviour
  on the schema of the migrations. A transaction works on a private copy that its commit makes visible;
  dropping it is the rollback.
\<close>

section \<open>The statements\<close>

datatype sql_err = UniqueConstraintViolation rstring | ForeignKeyConstraintViolation rstring

record db_err =
  de_sql_err :: "sql_err option"
  de_text :: rstring

text \<open>An \<^verbatim>\<open>ActiveModel\<close> of a player: the columns that are \<^verbatim>\<open>Set\<close>.\<close>

record player_active =
  pa_id :: "uuid option"
  pa_account_id :: "uuid option"
  pa_nickname :: "rstring option"
  pa_level :: "i32 option"
  pa_exp :: "i64 option"
  pa_last_login_at :: "fixed_datetime option option"
  pa_created_at :: "fixed_datetime option"

definition player_active_default :: player_active where
  "player_active_default =
     \<lparr>pa_id = None, pa_account_id = None, pa_nickname = None, pa_level = None, pa_exp = None,
      pa_last_login_at = None, pa_created_at = None\<rparr>"

definition player_set_all :: "player_model \<Rightarrow> player_active" where
  "player_set_all m =
     \<lparr>pa_id = Some (pm_id m), pa_account_id = Some (pm_account_id m), pa_nickname = Some (pm_nickname m),
      pa_level = Some (pm_level m), pa_exp = Some (pm_exp m), pa_last_login_at = Some (pm_last_login_at m),
      pa_created_at = Some (pm_created_at m)\<rparr>"

record 'd database =
  db_begin :: "'d \<Rightarrow> ('d, db_err) result"
  db_commit :: "'d \<Rightarrow> 'd \<Rightarrow> (unit, db_err) result \<times> 'd"
  db_account_by_id :: "uuid \<Rightarrow> 'd \<Rightarrow> (account_model option, db_err) result"
  db_account_by_username :: "rstring \<Rightarrow> 'd \<Rightarrow> (account_model option, db_err) result"
  db_account_insert :: "account_model \<Rightarrow> 'd \<Rightarrow> (account_model, db_err) result \<times> 'd"
  db_account_update :: "account_model \<Rightarrow> 'd \<Rightarrow> (account_model, db_err) result \<times> 'd"
  db_player_by_id :: "uuid \<Rightarrow> 'd \<Rightarrow> (player_model option, db_err) result"
  db_player_by_account :: "uuid \<Rightarrow> 'd \<Rightarrow> (player_model option, db_err) result"
  db_player_lock_by_id :: "uuid \<Rightarrow> 'd \<Rightarrow> (player_model option, db_err) result"
  db_player_insert :: "player_model \<Rightarrow> 'd \<Rightarrow> (player_model, db_err) result \<times> 'd"
  db_player_update :: "player_active \<Rightarrow> 'd \<Rightarrow> (player_model, db_err) result \<times> 'd"
  db_players_update_many :: "player_active \<Rightarrow> uuid \<Rightarrow> 'd \<Rightarrow> (player_model list, db_err) result \<times> 'd"

section \<open>Repositories\<close>

definition storage_error :: "db_err \<Rightarrow> repo_error" where
  "storage_error err = RepoStorage (de_text err)"

text \<open>\<^verbatim>\<open>.map(f).transpose()\<close>\<close>

definition transpose_map :: "('m \<Rightarrow> ('a, 'e) result) \<Rightarrow> 'm option \<Rightarrow> ('a option, 'e) result" where
  "transpose_map f o' =
     (case o' of None \<Rightarrow> Ok None | Some m \<Rightarrow> (case f m of Ok a \<Rightarrow> Ok (Some a) | Err e \<Rightarrow> Err e))"

definition SeaAccount_find_by_id ::
  "'d database \<Rightarrow> (uuid \<Rightarrow> rstring) \<Rightarrow> account_id \<Rightarrow> 'd \<Rightarrow> (account option, repo_error) result" where
  "SeaAccount_find_by_id D show_uuid i d =
     and_then (map_err storage_error (db_account_by_id D (account_uuid i) d)) (transpose_map (account_to_domain show_uuid))"

definition SeaAccount_find_by_username ::
  "'d database \<Rightarrow> (uuid \<Rightarrow> rstring) \<Rightarrow> rstring \<Rightarrow> 'd \<Rightarrow> (account option, repo_error) result" where
  "SeaAccount_find_by_username D show_uuid name d =
     and_then (map_err storage_error (db_account_by_username D name d)) (transpose_map (account_to_domain show_uuid))"

definition SeaAccount_save :: "'d database \<Rightarrow> account \<Rightarrow> 'd \<Rightarrow> (unit, repo_error) result \<times> 'd" where
  "SeaAccount_save D a d =
     (case db_account_by_id D (account_uuid (acc_id a)) d of
        Err e \<Rightarrow> (Err (storage_error e), d)
      | Ok found \<Rightarrow>
          (let active = account_to_active a;
               (res, d') = (if found \<noteq> None then db_account_update D active d else db_account_insert D active d)
           in (case res of Ok _ \<Rightarrow> Ok () | Err e \<Rightarrow> Err (storage_error e), d')))"

text \<open>\<^verbatim>\<open>i32::try_from(level)\<close> and \<^verbatim>\<open>i64::try_from(exp)\<close> with the text of \<^verbatim>\<open>TryFromIntError\<close>.\<close>

definition try_from_int_error :: rstring where
  "try_from_int_error = ascii ''out of range integral type conversion attempted''"

definition level_try_from :: "u32 \<Rightarrow> (i32, repo_error) result" where
  "level_try_from l = (if unat l < 2 ^ 31 then Ok l else Err (RepoStorage try_from_int_error))"

definition exp_try_from :: "u64 \<Rightarrow> (i64, repo_error) result" where
  "exp_try_from e = (if unat e < 2 ^ 63 then Ok e else Err (RepoStorage try_from_int_error))"

definition gain_exp_active :: "uuid \<Rightarrow> player \<Rightarrow> (player_active, repo_error) result" where
  "gain_exp_active i p =
     and_then (level_try_from (pl_level p)) (\<lambda>level.
     and_then (exp_try_from (pl_exp p)) (\<lambda>exp.
       Ok (player_active_default\<lparr>pa_id := Some i, pa_level := Some level, pa_exp := Some exp\<rparr>)))"

definition SeaPlayer_gain_exp ::
  "'d database \<Rightarrow> (uuid \<Rightarrow> rstring) \<Rightarrow> player_id \<Rightarrow> u64 \<Rightarrow> 'd
     \<Rightarrow> ((player \<times> u32 option) option, repo_error) result \<times> 'd" where
  "SeaPlayer_gain_exp D show_uuid i amount d =
     (case db_begin D d of
        Err e \<Rightarrow> (Err (storage_error e), d)
      | Ok txn \<Rightarrow>
          (case db_player_lock_by_id D (player_uuid i) txn of
             Err e \<Rightarrow> (Err (storage_error e), d)
           | Ok None \<Rightarrow> (Ok None, d)
           | Ok (Some model) \<Rightarrow>
               (case player_to_domain show_uuid model of
                  Err e \<Rightarrow> (Err e, d)
                | Ok player \<Rightarrow>
                    (let (player', level) = Player_gain_exp amount player
                     in case gain_exp_active (player_uuid i) player' of
                          Err e \<Rightarrow> (Err e, d)
                        | Ok active \<Rightarrow>
                            (case db_player_update D active txn of
                               (Err e, _) \<Rightarrow> (Err (storage_error e), d)
                             | (Ok _, txn') \<Rightarrow>
                                 (case db_commit D txn' d of
                                    (Err e, d') \<Rightarrow> (Err (storage_error e), d')
                                  | (Ok _, d') \<Rightarrow> (Ok (Some (player', level)), d')))))))"

definition SeaPlayer_record_login ::
  "'d database \<Rightarrow> (uuid \<Rightarrow> rstring) \<Rightarrow> player_id \<Rightarrow> datetime \<Rightarrow> 'd \<Rightarrow> (player option, repo_error) result \<times> 'd" where
  "SeaPlayer_record_login D show_uuid i at d =
     (let active = player_active_default\<lparr>pa_last_login_at := Some (Some (to_fixed at))\<rparr>;
          (res, d') = db_players_update_many D active (player_uuid i) d
      in (and_then (map_err storage_error res)
            (\<lambda>rows. transpose_map (player_to_domain show_uuid) (case rows of [] \<Rightarrow> None | m # _ \<Rightarrow> Some m)), d'))"

definition SeaPlayer_find_by_id ::
  "'d database \<Rightarrow> (uuid \<Rightarrow> rstring) \<Rightarrow> player_id \<Rightarrow> 'd \<Rightarrow> (player option, repo_error) result" where
  "SeaPlayer_find_by_id D show_uuid i d =
     and_then (map_err storage_error (db_player_by_id D (player_uuid i) d)) (transpose_map (player_to_domain show_uuid))"

definition SeaPlayer_find_by_account ::
  "'d database \<Rightarrow> (uuid \<Rightarrow> rstring) \<Rightarrow> account_id \<Rightarrow> 'd \<Rightarrow> (player option, repo_error) result" where
  "SeaPlayer_find_by_account D show_uuid i d =
     and_then (map_err storage_error (db_player_by_account D (account_uuid i) d)) (transpose_map (player_to_domain show_uuid))"

definition SeaPlayer_save :: "'d database \<Rightarrow> player \<Rightarrow> 'd \<Rightarrow> (unit, repo_error) result \<times> 'd" where
  "SeaPlayer_save D p d =
     (case db_player_by_id D (player_uuid (pl_id p)) d of
        Err e \<Rightarrow> (Err (storage_error e), d)
      | Ok found \<Rightarrow>
          (let active = player_to_active p;
               (res, d') = (if found \<noteq> None then db_player_update D (player_set_all active) d
                            else db_player_insert D active d)
           in (case res of Ok _ \<Rightarrow> Ok () | Err e \<Rightarrow> Err (storage_error e), d')))"

section \<open>Registration\<close>

definition registration_map_error :: "db_err \<Rightarrow> app_error" where
  "registration_map_error err =
     (case de_sql_err err of
        Some (UniqueConstraintViolation _) \<Rightarrow> Conflict msg_registration_exists
      | _ \<Rightarrow> Storage (de_text err))"

definition SeaRegistration_register ::
  "'d database \<Rightarrow> account \<Rightarrow> player \<Rightarrow> 'd \<Rightarrow> (unit, app_error) result \<times> 'd" where
  "SeaRegistration_register D a p d =
     (case db_begin D d of
        Err e \<Rightarrow> (Err (registration_map_error e), d)
      | Ok txn \<Rightarrow>
          (case db_account_insert D (account_to_active a) txn of
             (Err e, _) \<Rightarrow> (Err (registration_map_error e), d)
           | (Ok _, txn1) \<Rightarrow>
               (case db_player_insert D (player_to_active p) txn1 of
                  (Err e, _) \<Rightarrow> (Err (registration_map_error e), d)
                | (Ok _, txn2) \<Rightarrow>
                    (case db_commit D txn2 d of
                       (res, d') \<Rightarrow> (map_err registration_map_error res, d')))))"

section \<open>Audit\<close>

record 'j audit_model =
  au_id :: uuid
  au_player_id :: "uuid option"
  au_action :: rstring
  au_detail :: "'j option"
  au_created_at :: fixed_datetime

text \<open>
  The audit table is a store of its own; \<open>from_str\<close> and \<open>value_string\<close> are
  \<^verbatim>\<open>serde_json::from_str\<close> and \<^verbatim>\<open>Value::String\<close>.
\<close>

definition SeaAudit_record ::
  "('j audit_model \<Rightarrow> 'l \<Rightarrow> (unit, db_err) result \<times> 'l) \<Rightarrow> (rstring \<Rightarrow> 'j option) \<Rightarrow> (rstring \<Rightarrow> 'j) \<Rightarrow> uuid \<Rightarrow> datetime
     \<Rightarrow> player_id option \<Rightarrow> rstring \<Rightarrow> rstring \<Rightarrow> 'l \<Rightarrow> (unit, app_error) result \<times> 'l" where
  "SeaAudit_record insert_row from_str value_string fresh now player action detail l =
     (let detail_json = (case from_str detail of Some v \<Rightarrow> v | None \<Rightarrow> value_string detail);
          row = \<lparr>au_id = fresh, au_player_id = map_option player_uuid player, au_action = action,
                 au_detail = Some detail_json, au_created_at = to_fixed now\<rparr>
      in case insert_row row l of
           (Ok _, l') \<Rightarrow> (Ok (), l')
         | (Err e, l') \<Rightarrow> (Err (Storage (pre_audit_write @ de_text e)), l'))"

section \<open>The trait objects\<close>

definition SeaAccountRepository :: "'d database \<Rightarrow> (uuid \<Rightarrow> rstring) \<Rightarrow> 'd account_repository" where
  "SeaAccountRepository D show_uuid =
     \<lparr>ar_find_by_id = SeaAccount_find_by_id D show_uuid, ar_find_by_username = SeaAccount_find_by_username D show_uuid,
      ar_save = SeaAccount_save D\<rparr>"

definition SeaPlayerRepository :: "'d database \<Rightarrow> (uuid \<Rightarrow> rstring) \<Rightarrow> 'd player_repository" where
  "SeaPlayerRepository D show_uuid =
     \<lparr>pr_find_by_id = SeaPlayer_find_by_id D show_uuid, pr_find_by_account = SeaPlayer_find_by_account D show_uuid,
      pr_save = SeaPlayer_save D, pr_gain_exp = SeaPlayer_gain_exp D show_uuid,
      pr_record_login = SeaPlayer_record_login D show_uuid\<rparr>"

definition SeaRegistrationStore :: "'d database \<Rightarrow> 'd registration_store" where
  "SeaRegistrationStore D = \<lparr>rs_register = SeaRegistration_register D\<rparr>"

definition SeaAuditLogger ::
  "('j audit_model \<Rightarrow> 'l \<Rightarrow> (unit, db_err) result \<times> 'l) \<Rightarrow> (rstring \<Rightarrow> 'j option) \<Rightarrow> (rstring \<Rightarrow> 'j) \<Rightarrow> uuid \<Rightarrow> datetime
     \<Rightarrow> 'l audit_logger" where
  "SeaAuditLogger insert_row from_str value_string fresh now =
     \<lparr>al_record = SeaAudit_record insert_row from_str value_string fresh now\<rparr>"

end
