(* ===== verification/LX_DbContract.thy ===== *)
theory LX_DbContract
  imports LX_Database
begin

text \<open>
  The documented behaviour of the database on the schema of the migrations, and the proof that
  the SeaORM repositories keep the contract \<open>user_store\<close> while the database answers.
\<close>

section \<open>Tables\<close>

text \<open>
  \<open>rt\<close> is the rounding of a time stamp to the resolution of the column type and \<open>lower\<close>
  the case folding of the type \<^verbatim>\<open>citext\<close>.
\<close>

record tables =
  tb_accounts :: "uuid \<Rightarrow> account_model option"
  tb_players :: "uuid \<Rightarrow> player_model option"

definition sql_time :: "(datetime \<Rightarrow> datetime) \<Rightarrow> fixed_datetime \<Rightarrow> fixed_datetime" where
  "sql_time rt v = (rt (fst v), 0)"

definition sql_account :: "(datetime \<Rightarrow> datetime) \<Rightarrow> account_model \<Rightarrow> account_model" where
  "sql_account rt m =
     m\<lparr>am_banned_until := map_option (sql_time rt) (am_banned_until m), am_created_at := sql_time rt (am_created_at m)\<rparr>"

definition sql_player :: "(datetime \<Rightarrow> datetime) \<Rightarrow> player_model \<Rightarrow> player_model" where
  "sql_player rt m =
     m\<lparr>pm_last_login_at := map_option (sql_time rt) (pm_last_login_at m), pm_created_at := sql_time rt (pm_created_at m)\<rparr>"

definition player_apply :: "player_active \<Rightarrow> player_model \<Rightarrow> player_model" where
  "player_apply a m =
     \<lparr>pm_id = pm_id m, pm_account_id = (case pa_account_id a of Some v \<Rightarrow> v | None \<Rightarrow> pm_account_id m),
      pm_nickname = (case pa_nickname a of Some v \<Rightarrow> v | None \<Rightarrow> pm_nickname m),
      pm_level = (case pa_level a of Some v \<Rightarrow> v | None \<Rightarrow> pm_level m),
      pm_exp = (case pa_exp a of Some v \<Rightarrow> v | None \<Rightarrow> pm_exp m),
      pm_last_login_at = (case pa_last_login_at a of Some v \<Rightarrow> v | None \<Rightarrow> pm_last_login_at m),
      pm_created_at = (case pa_created_at a of Some v \<Rightarrow> v | None \<Rightarrow> pm_created_at m)\<rparr>"

definition is_unique :: "db_err \<Rightarrow> bool" where
  "is_unique e \<longleftrightarrow> (\<exists>c. de_sql_err e = Some (UniqueConstraintViolation c))"

definition account_conflict :: "(rstring \<Rightarrow> rstring) \<Rightarrow> account_model \<Rightarrow> tables \<Rightarrow> bool" where
  "account_conflict lower m T \<longleftrightarrow>
     tb_accounts T (am_id m) \<noteq> None \<or>
     (\<exists>u m'. tb_accounts T u = Some m' \<and> lower (am_username m') = lower (am_username m))"

text \<open>The values a column can hold: text without NUL, a time stamp in the range \<open>ts_ok\<close> of the type.\<close>

definition text_ok :: "rstring \<Rightarrow> bool" where
  "text_ok s \<longleftrightarrow> 0 \<notin> set s"

definition account_fits :: "(datetime \<Rightarrow> bool) \<Rightarrow> account_model \<Rightarrow> bool" where
  "account_fits ts_ok m \<longleftrightarrow>
     text_ok (am_username m) \<and> text_ok (am_password_hash m) \<and> pred_option text_ok (am_banned_reason m) \<and>
     ts_ok (fst (am_created_at m)) \<and> pred_option (\<lambda>v. ts_ok (fst v)) (am_banned_until m)"

definition player_fits :: "(datetime \<Rightarrow> bool) \<Rightarrow> player_model \<Rightarrow> bool" where
  "player_fits ts_ok m \<longleftrightarrow>
     text_ok (pm_nickname m) \<and> ts_ok (fst (pm_created_at m)) \<and> pred_option (\<lambda>v. ts_ok (fst v)) (pm_last_login_at m)"

section \<open>The documented behaviour\<close>

text \<open>
  Reads: an answer is a row of the table that satisfies the condition, or the absence of one.
  Writes: an answer means that the constraints held and the row is in the table, with its time
  stamps rounded; an error means that nothing happened, and a unique violation is only
  reported when there is one. While \<open>up\<close> holds every read is answered, and a write whose values
  fit the columns fails only on a constraint.
\<close>

definition db_reads :: "'d database \<Rightarrow> ('d \<Rightarrow> tables) \<Rightarrow> ('d \<Rightarrow> bool) \<Rightarrow> (rstring \<Rightarrow> rstring) \<Rightarrow> bool" where
  "db_reads D tabs up lower \<longleftrightarrow>
     (\<forall>d u r. db_account_by_id D u d = Ok r \<longrightarrow> r = tb_accounts (tabs d) u) \<and>
     (\<forall>d u r. db_player_by_id D u d = Ok r \<longrightarrow> r = tb_players (tabs d) u) \<and>
     (\<forall>d u r. db_player_lock_by_id D u d = Ok r \<longrightarrow> r = tb_players (tabs d) u) \<and>
     (\<forall>d n m. db_account_by_username D n d = Ok (Some m) \<longrightarrow>
        (\<exists>u. tb_accounts (tabs d) u = Some m) \<and> lower (am_username m) = lower n) \<and>
     (\<forall>d n. db_account_by_username D n d = Ok None \<longrightarrow>
        (\<forall>u m. tb_accounts (tabs d) u = Some m \<longrightarrow> lower (am_username m) \<noteq> lower n)) \<and>
     (\<forall>d i m. db_player_by_account D i d = Ok (Some m) \<longrightarrow>
        (\<exists>u. tb_players (tabs d) u = Some m) \<and> pm_account_id m = i) \<and>
     (\<forall>d i. db_player_by_account D i d = Ok None \<longrightarrow>
        (\<forall>u m. tb_players (tabs d) u = Some m \<longrightarrow> pm_account_id m \<noteq> i)) \<and>
     (\<forall>d u n. up d \<longrightarrow> is_ok (db_account_by_id D u d) \<and> is_ok (db_player_by_id D u d) \<and>
        is_ok (db_player_lock_by_id D u d) \<and> is_ok (db_account_by_username D n d) \<and> is_ok (db_player_by_account D u d))"

definition db_transactions :: "'d database \<Rightarrow> ('d \<Rightarrow> tables) \<Rightarrow> ('d \<Rightarrow> bool) \<Rightarrow> bool" where
  "db_transactions D tabs up \<longleftrightarrow>
     (\<forall>d t. db_begin D d = Ok t \<longrightarrow> tabs t = tabs d \<and> (up d \<longrightarrow> up t)) \<and>
     (\<forall>d e. db_begin D d = Err e \<longrightarrow> \<not> up d \<and> \<not> is_unique e) \<and>
     (\<forall>t d. case db_commit D t d of (res, d') \<Rightarrow> (\<forall>e. res = Err e \<longrightarrow> \<not> is_unique e) \<and>
        (res = Ok () \<longrightarrow> tabs d' = tabs t) \<and> (tabs d' = tabs t \<or> tabs d' = tabs d) \<and>
        (up t \<longrightarrow> res = Ok () \<and> up d'))"

definition db_writes ::
  "'d database \<Rightarrow> ('d \<Rightarrow> tables) \<Rightarrow> ('d \<Rightarrow> bool) \<Rightarrow> (datetime \<Rightarrow> datetime) \<Rightarrow> (rstring \<Rightarrow> rstring) \<Rightarrow> (datetime \<Rightarrow> bool) \<Rightarrow> bool" where
  "db_writes D tabs up rt lower ts_ok \<longleftrightarrow>
     (\<forall>m d. case db_account_insert D m d of (res, d') \<Rightarrow>
        (case res of
           Ok _ \<Rightarrow> \<not> account_conflict lower m (tabs d) \<and> account_fits ts_ok m \<and>
             tabs d' = (tabs d)\<lparr>tb_accounts := (tb_accounts (tabs d))(am_id m \<mapsto> sql_account rt m)\<rparr> \<and> (up d \<longrightarrow> up d')
         | Err e \<Rightarrow> tabs d' = tabs d \<and> (is_unique e \<longrightarrow> account_conflict lower m (tabs d)) \<and>
             (up d \<and> account_fits ts_ok m \<longrightarrow> is_unique e))) \<and>
     (\<forall>m d. case db_player_insert D m d of (res, d') \<Rightarrow>
        (case res of
           Ok _ \<Rightarrow> player_fits ts_ok m \<and> tb_players (tabs d) (pm_id m) = None \<and> tb_accounts (tabs d) (pm_account_id m) \<noteq> None \<and>
             tabs d' = (tabs d)\<lparr>tb_players := (tb_players (tabs d))(pm_id m \<mapsto> sql_player rt m)\<rparr> \<and> (up d \<longrightarrow> up d')
         | Err e \<Rightarrow> tabs d' = tabs d \<and> (is_unique e \<longrightarrow> tb_players (tabs d) (pm_id m) \<noteq> None) \<and>
             (up d \<and> player_fits ts_ok m \<and> tb_accounts (tabs d) (pm_account_id m) \<noteq> None \<longrightarrow> is_unique e))) \<and>
     (\<forall>m d. case db_account_update D m d of (res, d') \<Rightarrow>
        (case res of
           Ok _ \<Rightarrow> tb_accounts (tabs d) (am_id m) \<noteq> None \<and>
             \<not> account_conflict lower m ((tabs d)\<lparr>tb_accounts := (tb_accounts (tabs d))(am_id m := None)\<rparr>) \<and>
             tabs d' = (tabs d)\<lparr>tb_accounts := (tb_accounts (tabs d))(am_id m \<mapsto> sql_account rt m)\<rparr>
         | Err e \<Rightarrow> tabs d' = tabs d)) \<and>
     (\<forall>a d. case db_player_update D a d of (res, d') \<Rightarrow>
        (case res of
           Ok _ \<Rightarrow> (\<exists>u m. pa_id a = Some u \<and> tb_players (tabs d) u = Some m \<and> player_fits ts_ok (player_apply a m) \<and>
             tabs d' = (tabs d)\<lparr>tb_players := (tb_players (tabs d))(u \<mapsto> sql_player rt (player_apply a m))\<rparr>) \<and> (up d \<longrightarrow> up d')
         | Err e \<Rightarrow> tabs d' = tabs d \<and>
             \<not> (up d \<and> (\<exists>u m. pa_id a = Some u \<and> tb_players (tabs d) u = Some m \<and> pa_account_id a = None \<and>
                           player_fits ts_ok (player_apply a m))))) \<and>
     (\<forall>a u d. case db_players_update_many D a u d of (res, d') \<Rightarrow>
        (up d \<longrightarrow> up d') \<and>
        (case res of
           Ok rows \<Rightarrow> (case tb_players (tabs d) u of
               None \<Rightarrow> rows = [] \<and> tabs d' = tabs d
             | Some m \<Rightarrow> player_fits ts_ok (player_apply a m) \<and> rows = [sql_player rt (player_apply a m)] \<and>
                 tabs d' = (tabs d)\<lparr>tb_players := (tb_players (tabs d))(u \<mapsto> sql_player rt (player_apply a m))\<rparr>)
         | Err e \<Rightarrow> tabs d' = tabs d \<and>
             \<not> (up d \<and> pa_account_id a = None \<and> pred_option (\<lambda>m. player_fits ts_ok (player_apply a m)) (tb_players (tabs d) u))))"

definition db_spec ::
  "'d database \<Rightarrow> ('d \<Rightarrow> tables) \<Rightarrow> ('d \<Rightarrow> bool) \<Rightarrow> (datetime \<Rightarrow> datetime) \<Rightarrow> (rstring \<Rightarrow> rstring) \<Rightarrow> (datetime \<Rightarrow> bool) \<Rightarrow> bool" where
  "db_spec D tabs up rt lower ts_ok \<longleftrightarrow>
     db_reads D tabs up lower \<and> db_transactions D tabs up \<and> db_writes D tabs up rt lower ts_ok \<and>
     (\<forall>t. rt (rt t) = rt t) \<and> (\<forall>t. ts_ok t \<longrightarrow> ts_ok (rt t)) \<and> (\<forall>u. wf_username u \<longrightarrow> lower (Username_as_str u) = Username_as_str u)"

section \<open>The stored form of an aggregate\<close>

primrec sql_status :: "(datetime \<Rightarrow> datetime) \<Rightarrow> account_status \<Rightarrow> account_status" where
  "sql_status rt Active = Active"
| "sql_status rt Suspended = Suspended"
| "sql_status rt (Banned reason until) = Banned reason (map_option rt until)"

definition stored_account :: "(datetime \<Rightarrow> datetime) \<Rightarrow> account \<Rightarrow> account" where
  "stored_account rt a = a\<lparr>acc_status := sql_status rt (acc_status a), acc_created_at := rt (acc_created_at a)\<rparr>"

definition stored_player :: "(datetime \<Rightarrow> datetime) \<Rightarrow> player \<Rightarrow> player" where
  "stored_player rt p =
     p\<lparr>pl_last_login_at := map_option rt (pl_last_login_at p), pl_created_at := rt (pl_created_at p)\<rparr>"

definition storable_player :: "player \<Rightarrow> bool" where
  "storable_player p \<longleftrightarrow> wf_nickname (pl_nickname p) \<and> unat (pl_level p) < 2 ^ 31 \<and> unat (pl_exp p) < 2 ^ 63"

lemma sql_account_active: "sql_account rt (account_to_active a) = account_to_active (stored_account rt a)"
  by (cases "acc_status a")
    (simp_all add: sql_account_def account_to_active_def stored_account_def sql_time_def to_fixed_def
      option.map_comp comp_def)

lemma sql_player_active: "sql_player rt (player_to_active p) = player_to_active (stored_player rt p)"
  by (simp add: sql_player_def player_to_active_def stored_player_def sql_time_def to_fixed_def option.map_comp comp_def)

lemma stored_account_simps [simp]:
  "acc_id (stored_account rt a) = acc_id a" "acc_username (stored_account rt a) = acc_username a"
  "acc_password_hash (stored_account rt a) = acc_password_hash a"
  by (simp_all add: stored_account_def)

lemma stored_player_simps [simp]:
  "pl_id (stored_player rt p) = pl_id p" "pl_account_id (stored_player rt p) = pl_account_id p"
  "pl_nickname (stored_player rt p) = pl_nickname p" "pl_level (stored_player rt p) = pl_level p"
  "pl_exp (stored_player rt p) = pl_exp p"
  by (simp_all add: stored_player_def)

lemma active_simps [simp]:
  "am_id (account_to_active a) = account_uuid (acc_id a)" "am_username (account_to_active a) = Username_as_str (acc_username a)"
  "pm_id (player_to_active p) = player_uuid (pl_id p)" "pm_account_id (player_to_active p) = account_uuid (pl_account_id p)"
  by (simp_all add: account_to_active_def player_to_active_def Let_def split: prod.splits)

lemma stored_account_idem: "\<forall>t. rt (rt t) = rt t \<Longrightarrow> stored_account rt (stored_account rt a) = stored_account rt a"
  by (cases "acc_status a") (simp_all add: stored_account_def option.map_comp comp_def)

lemma stored_player_idem: "\<forall>t. rt (rt t) = rt t \<Longrightarrow> stored_player rt (stored_player rt p) = stored_player rt p"
  by (simp add: stored_player_def option.map_comp comp_def)

lemma player_row_exact: "storable_player p \<Longrightarrow> player_to_domain show_uuid (player_to_active p) = Ok p"
  by (simp add: storable_player_def player_row_roundtrip)

section \<open>The invariant\<close>

text \<open>
  Every row is the stored form of an aggregate, user names are unique, every player belongs
  to an account and no account has two players. Only the uniqueness of user names and the
  existence of the account are constraints of the schema; the others are kept by the code.
\<close>

definition sea_rows :: "(datetime \<Rightarrow> datetime) \<Rightarrow> (datetime \<Rightarrow> bool) \<Rightarrow> tables \<Rightarrow> bool" where
  "sea_rows rt ts_ok T \<longleftrightarrow>
     (\<forall>u m. tb_accounts T u = Some m \<longrightarrow>
        (\<exists>a. m = account_to_active a \<and> stored_account rt a = a \<and> wf_username (acc_username a) \<and> account_uuid (acc_id a) = u)) \<and>
     (\<forall>u m. tb_players T u = Some m \<longrightarrow>
        (\<exists>p. m = player_to_active p \<and> stored_player rt p = p \<and> storable_player p \<and> player_fits ts_ok m \<and> player_uuid (pl_id p) = u)) \<and>
     (\<forall>u v m m'. tb_accounts T u = Some m \<longrightarrow> tb_accounts T v = Some m' \<longrightarrow> am_username m = am_username m' \<longrightarrow> u = v) \<and>
     (\<forall>u v m m'. tb_players T u = Some m \<longrightarrow> tb_players T v = Some m' \<longrightarrow> pm_account_id m = pm_account_id m' \<longrightarrow> u = v) \<and>
     (\<forall>u m. tb_players T u = Some m \<longrightarrow> tb_accounts T (pm_account_id m) \<noteq> None)"

lemma sea_rowsD:
  assumes "sea_rows rt ts_ok T"
  shows "tb_accounts T u = Some m \<Longrightarrow>
      \<exists>a. m = account_to_active a \<and> stored_account rt a = a \<and> wf_username (acc_username a) \<and> account_uuid (acc_id a) = u"
    and "tb_players T v = Some n \<Longrightarrow>
      \<exists>p. n = player_to_active p \<and> stored_player rt p = p \<and> storable_player p \<and> player_fits ts_ok n \<and> player_uuid (pl_id p) = v"
    and "tb_accounts T u = Some m \<Longrightarrow> tb_accounts T w = Some m' \<Longrightarrow> am_username m = am_username m' \<Longrightarrow> u = w"
    and "tb_players T v = Some n \<Longrightarrow> tb_players T w = Some n' \<Longrightarrow> pm_account_id n = pm_account_id n' \<Longrightarrow> v = w"
    and "tb_players T v = Some n \<Longrightarrow> tb_accounts T (pm_account_id n) \<noteq> None"
proof -
  note law = assms [unfolded sea_rows_def]
  show "tb_accounts T u = Some m \<Longrightarrow>
      \<exists>a. m = account_to_active a \<and> stored_account rt a = a \<and> wf_username (acc_username a) \<and> account_uuid (acc_id a) = u"
    using law [THEN conjunct1] by blast
  show "tb_players T v = Some n \<Longrightarrow>
      \<exists>p. n = player_to_active p \<and> stored_player rt p = p \<and> storable_player p \<and> player_fits ts_ok n \<and> player_uuid (pl_id p) = v"
    using law [THEN conjunct2, THEN conjunct1] by blast
  show "tb_accounts T u = Some m \<Longrightarrow> tb_accounts T w = Some m' \<Longrightarrow> am_username m = am_username m' \<Longrightarrow> u = w"
    using law [THEN conjunct2, THEN conjunct2, THEN conjunct1] by blast
  show "tb_players T v = Some n \<Longrightarrow> tb_players T w = Some n' \<Longrightarrow> pm_account_id n = pm_account_id n' \<Longrightarrow> v = w"
    using law [THEN conjunct2, THEN conjunct2, THEN conjunct2, THEN conjunct1] by blast
  show "tb_players T v = Some n \<Longrightarrow> tb_accounts T (pm_account_id n) \<noteq> None"
    using law [THEN conjunct2, THEN conjunct2, THEN conjunct2, THEN conjunct2] by blast
qed

section \<open>Reads\<close>

lemma db_reads_ok:
  assumes "db_reads D tabs up lower" and "up d"
  shows "is_ok (db_account_by_id D u d)" "is_ok (db_player_by_id D u d)" "is_ok (db_player_lock_by_id D u d)"
    "is_ok (db_account_by_username D n d)" "is_ok (db_player_by_account D u d)"
  using assms unfolding db_reads_def by blast+

lemma db_readsD:
  assumes "db_reads D tabs up lower"
  shows "db_account_by_id D u d = Ok ra \<Longrightarrow> ra = tb_accounts (tabs d) u"
    and "db_player_by_id D u d = Ok rp \<Longrightarrow> rp = tb_players (tabs d) u"
    and "db_player_lock_by_id D u d = Ok rp \<Longrightarrow> rp = tb_players (tabs d) u"
    and "db_account_by_username D n d = Ok (Some m) \<Longrightarrow> (\<exists>u. tb_accounts (tabs d) u = Some m) \<and> lower (am_username m) = lower n"
    and "db_account_by_username D n d = Ok None \<Longrightarrow> tb_accounts (tabs d) u = Some m \<Longrightarrow> lower (am_username m) \<noteq> lower n"
    and "db_player_by_account D i d = Ok (Some q) \<Longrightarrow> (\<exists>u. tb_players (tabs d) u = Some q) \<and> pm_account_id q = i"
    and "db_player_by_account D i d = Ok None \<Longrightarrow> tb_players (tabs d) u = Some q \<Longrightarrow> pm_account_id q \<noteq> i"
  using assms by (simp_all add: db_reads_def)

lemma lower_row:
  assumes "db_spec D tabs up rt lower ts_ok" and "sea_rows rt ts_ok T" and "tb_accounts T u = Some m"
  shows "lower (am_username m) = am_username m"
  using sea_rowsD(1) [OF assms(2,3)] assms(1) by (auto simp: db_spec_def)

lemma sea_find_username:
  assumes spec: "db_spec D tabs up rt lower ts_ok" and up: "up d" and rows: "sea_rows rt ts_ok (tabs d)"
  shows "\<exists>r. SeaAccount_find_by_username D show_uuid n d = Ok r"
    and "SeaAccount_find_by_username D show_uuid n d = Ok (Some a) \<longleftrightarrow>
      tb_accounts (tabs d) (account_uuid (acc_id a)) = Some (account_to_active a) \<and> wf_username (acc_username a) \<and>
      Username_as_str (acc_username a) = lower n"
proof -
  have reads: "db_reads D tabs up lower" using spec by (simp add: db_spec_def)
  obtain r where r: "db_account_by_username D n d = Ok r" using db_reads_ok(4) [OF reads up] by (auto simp: is_ok_iff)
  have all: "(\<exists>r. SeaAccount_find_by_username D show_uuid n d = Ok r) \<and>
    (SeaAccount_find_by_username D show_uuid n d = Ok (Some a) \<longleftrightarrow>
      tb_accounts (tabs d) (account_uuid (acc_id a)) = Some (account_to_active a) \<and> wf_username (acc_username a) \<and>
      Username_as_str (acc_username a) = lower n)"
  proof (cases r)
    case None
    with r have no: "tb_accounts (tabs d) u = Some m \<Longrightarrow> lower (am_username m) \<noteq> lower n" for u m
      using db_readsD(5) [OF reads] by simp
    have "Username_as_str (acc_username a) \<noteq> lower n"
      if "tb_accounts (tabs d) (account_uuid (acc_id a)) = Some (account_to_active a)"
      using no [OF that] lower_row [OF spec rows that] by simp
    with r None show ?thesis by (auto simp: SeaAccount_find_by_username_def transpose_map_def)
  next
    case (Some m)
    with r db_readsD(4) [OF reads, of n d m] obtain u where u: "tb_accounts (tabs d) u = Some m" "lower (am_username m) = lower n"
      by blast
    obtain b where b: "m = account_to_active b" "wf_username (acc_username b)" "account_uuid (acc_id b) = u"
      using sea_rowsD(1) [OF rows u(1)] by blast
    have found: "SeaAccount_find_by_username D show_uuid n d = Ok (Some b)"
      using r Some b by (simp add: SeaAccount_find_by_username_def transpose_map_def account_row_roundtrip)
    have name: "Username_as_str (acc_username b) = lower n" using u(2) lower_row [OF spec rows u(1)] b(1) by simp
    have "b = a" if "tb_accounts (tabs d) (account_uuid (acc_id a)) = Some (account_to_active a)"
      "wf_username (acc_username a)" "Username_as_str (acc_username a) = lower n"
    proof -
      have "account_uuid (acc_id a) = u" by (rule sea_rowsD(3) [OF rows that(1) u(1)]) (use that(3) name b(1) in simp)
      then have "account_to_active a = account_to_active b" using that(1) u(1) b(1) by simp
      then show ?thesis
        using account_row_roundtrip [OF that(2), of show_uuid] account_row_roundtrip [OF b(2), of show_uuid]
        by (metis result.inject(1))
    qed
    with found name b u(1) show ?thesis by auto
  qed
  show "\<exists>r. SeaAccount_find_by_username D show_uuid n d = Ok r" using all by blast
  show "SeaAccount_find_by_username D show_uuid n d = Ok (Some a) \<longleftrightarrow>
      tb_accounts (tabs d) (account_uuid (acc_id a)) = Some (account_to_active a) \<and> wf_username (acc_username a) \<and>
      Username_as_str (acc_username a) = lower n" using all by blast
qed

lemma sea_find_account:
  assumes spec: "db_spec D tabs up rt lower ts_ok" and up: "up d" and rows: "sea_rows rt ts_ok (tabs d)"
  shows "\<exists>r. SeaPlayer_find_by_account D show_uuid i d = Ok r"
    and "SeaPlayer_find_by_account D show_uuid i d = Ok (Some p) \<longleftrightarrow>
      tb_players (tabs d) (player_uuid (pl_id p)) = Some (player_to_active p) \<and> storable_player p \<and> pl_account_id p = i"
proof -
  have reads: "db_reads D tabs up lower" using spec by (simp add: db_spec_def)
  obtain r where r: "db_player_by_account D (account_uuid i) d = Ok r"
    using db_reads_ok(5) [OF reads up] by (auto simp: is_ok_iff)
  have acc: "account_uuid j = account_uuid i \<longleftrightarrow> j = i" for j by (cases j; cases i) simp
  have all: "(\<exists>r. SeaPlayer_find_by_account D show_uuid i d = Ok r) \<and>
    (SeaPlayer_find_by_account D show_uuid i d = Ok (Some p) \<longleftrightarrow>
      tb_players (tabs d) (player_uuid (pl_id p)) = Some (player_to_active p) \<and> storable_player p \<and> pl_account_id p = i)"
  proof (cases r)
    case None
    with r have "tb_players (tabs d) u = Some m \<Longrightarrow> pm_account_id m \<noteq> account_uuid i" for u m
      using db_readsD(7) [OF reads] by simp
    with r None show ?thesis by (fastforce simp: SeaPlayer_find_by_account_def transpose_map_def)
  next
    case (Some m)
    with r db_readsD(6) [OF reads, of "account_uuid i" d m] obtain u
      where u: "tb_players (tabs d) u = Some m" "pm_account_id m = account_uuid i" by blast
    obtain q where q: "m = player_to_active q" "storable_player q" "player_uuid (pl_id q) = u"
      using sea_rowsD(2) [OF rows u(1)] by blast
    have found: "SeaPlayer_find_by_account D show_uuid i d = Ok (Some q)"
      using r Some q by (simp add: SeaPlayer_find_by_account_def transpose_map_def player_row_exact)
    have "q = p" if "tb_players (tabs d) (player_uuid (pl_id p)) = Some (player_to_active p)" "storable_player p" "pl_account_id p = i"
    proof -
      have "player_uuid (pl_id p) = u" by (rule sea_rowsD(4) [OF rows that(1) u(1)]) (use that(3) u(2) in simp)
      then have "player_to_active p = player_to_active q" using that(1) u(1) q(1) by simp
      then show ?thesis using player_row_exact [OF that(2), of show_uuid] player_row_exact [OF q(2), of show_uuid]
        by (metis result.inject(1))
    qed
    with found q u acc show ?thesis by auto
  qed
  show "\<exists>r. SeaPlayer_find_by_account D show_uuid i d = Ok r" using all by blast
  show "SeaPlayer_find_by_account D show_uuid i d = Ok (Some p) \<longleftrightarrow>
      tb_players (tabs d) (player_uuid (pl_id p)) = Some (player_to_active p) \<and> storable_player p \<and> pl_account_id p = i"
    using all by blast
qed

section \<open>Writes\<close>

lemma db_account_insertD:
  assumes "db_writes D tabs up rt lower ts_ok"
  shows "db_account_insert D m d = (Ok r, d') \<Longrightarrow>
      \<not> account_conflict lower m (tabs d) \<and> account_fits ts_ok m \<and>
      tabs d' = (tabs d)\<lparr>tb_accounts := (tb_accounts (tabs d))(am_id m \<mapsto> sql_account rt m)\<rparr> \<and> (up d \<longrightarrow> up d')"
    and "db_account_insert D m d = (Err e, d') \<Longrightarrow>
      (is_unique e \<longrightarrow> account_conflict lower m (tabs d)) \<and> (up d \<and> account_fits ts_ok m \<longrightarrow> is_unique e)"
  using assms [unfolded db_writes_def, THEN conjunct1, rule_format, of m d] by simp_all

lemma db_player_insertD:
  assumes "db_writes D tabs up rt lower ts_ok"
  shows "db_player_insert D m d = (Ok r, d') \<Longrightarrow>
      player_fits ts_ok m \<and> tb_players (tabs d) (pm_id m) = None \<and> tb_accounts (tabs d) (pm_account_id m) \<noteq> None \<and>
      tabs d' = (tabs d)\<lparr>tb_players := (tb_players (tabs d))(pm_id m \<mapsto> sql_player rt m)\<rparr> \<and> (up d \<longrightarrow> up d')"
    and "db_player_insert D m d = (Err e, d') \<Longrightarrow>
      (is_unique e \<longrightarrow> tb_players (tabs d) (pm_id m) \<noteq> None) \<and>
      (up d \<and> player_fits ts_ok m \<and> tb_accounts (tabs d) (pm_account_id m) \<noteq> None \<longrightarrow> is_unique e)"
  using assms [unfolded db_writes_def, THEN conjunct2, THEN conjunct1, rule_format, of m d] by simp_all

lemma db_player_updateD:
  assumes "db_writes D tabs up rt lower ts_ok"
  shows "db_player_update D a d = (Ok r, d') \<Longrightarrow>
      (\<exists>u m. pa_id a = Some u \<and> tb_players (tabs d) u = Some m \<and> player_fits ts_ok (player_apply a m) \<and>
         tabs d' = (tabs d)\<lparr>tb_players := (tb_players (tabs d))(u \<mapsto> sql_player rt (player_apply a m))\<rparr>) \<and> (up d \<longrightarrow> up d')"
    and "db_player_update D a d = (Err e, d') \<Longrightarrow>
      \<not> (up d \<and> pa_id a = Some u \<and> tb_players (tabs d) u = Some m \<and> pa_account_id a = None \<and>
         player_fits ts_ok (player_apply a m))"
  using assms [unfolded db_writes_def, THEN conjunct2, THEN conjunct2, THEN conjunct2, THEN conjunct1, rule_format, of a d]
  by auto

lemma db_players_update_manyD:
  assumes "db_writes D tabs up rt lower ts_ok"
  shows "db_players_update_many D a u d = (res, d') \<Longrightarrow> up d \<Longrightarrow> up d'"
    and "db_players_update_many D a u d = (Ok rows, d') \<Longrightarrow> tb_players (tabs d) u = None \<Longrightarrow> rows = [] \<and> tabs d' = tabs d"
    and "db_players_update_many D a u d = (Ok rows, d') \<Longrightarrow> tb_players (tabs d) u = Some m \<Longrightarrow>
      player_fits ts_ok (player_apply a m) \<and> rows = [sql_player rt (player_apply a m)] \<and>
      tabs d' = (tabs d)\<lparr>tb_players := (tb_players (tabs d))(u \<mapsto> sql_player rt (player_apply a m))\<rparr>"
    and "db_players_update_many D a u d = (Err e, d') \<Longrightarrow> tabs d' = tabs d \<and>
      \<not> (up d \<and> pa_account_id a = None \<and> pred_option (\<lambda>m. player_fits ts_ok (player_apply a m)) (tb_players (tabs d) u))"
  using assms [unfolded db_writes_def, THEN conjunct2, THEN conjunct2, THEN conjunct2, THEN conjunct2, rule_format, of d a u]
  by (auto split: result.splits)

lemma db_transactionsD:
  assumes "db_transactions D tabs up"
  shows "db_begin D d = Ok t \<Longrightarrow> tabs t = tabs d \<and> (up d \<longrightarrow> up t)"
    and "db_begin D d = Err e \<Longrightarrow> \<not> up d \<and> \<not> is_unique e"
    and "db_commit D t d = (res, d') \<Longrightarrow> (\<forall>e. res = Err e \<longrightarrow> \<not> is_unique e) \<and>
      (res = Ok () \<longrightarrow> tabs d' = tabs t) \<and> (tabs d' = tabs t \<or> tabs d' = tabs d) \<and> (up t \<longrightarrow> res = Ok () \<and> up d')"
  using assms by (auto simp: db_transactions_def split: prod.splits)

section \<open>Registration\<close>

text \<open>The tables after a registration.\<close>

definition registered :: "(datetime \<Rightarrow> datetime) \<Rightarrow> account \<Rightarrow> player \<Rightarrow> tables \<Rightarrow> tables" where
  "registered rt a p T =
     T\<lparr>tb_accounts := (tb_accounts T)(account_uuid (acc_id a) \<mapsto> account_to_active (stored_account rt a)),
       tb_players := (tb_players T)(player_uuid (pl_id p) \<mapsto> player_to_active (stored_player rt p))\<rparr>"

definition registration_taken :: "(rstring \<Rightarrow> rstring) \<Rightarrow> account \<Rightarrow> player \<Rightarrow> tables \<Rightarrow> bool" where
  "registration_taken lower a p T \<longleftrightarrow>
     account_conflict lower (account_to_active a) T \<or> tb_players T (player_uuid (pl_id p)) \<noteq> None"

definition registration_fits :: "(datetime \<Rightarrow> bool) \<Rightarrow> account \<Rightarrow> player \<Rightarrow> bool" where
  "registration_fits ts_ok a p \<longleftrightarrow> account_fits ts_ok (account_to_active a) \<and> player_fits ts_ok (player_to_active p)"

lemma registration_map_error_Conflict: "registration_map_error e = Conflict msg_registration_exists \<longleftrightarrow> is_unique e"
  by (auto simp: registration_map_error_def is_unique_def split: option.splits sql_err.splits)

text \<open>
  A registration is refused and leaves the database untouched, or both rows satisfied the
  constraints and the commit decides.
\<close>

lemma sea_register_outcome:
  assumes spec: "db_spec D tabs up rt lower ts_ok" and reg: "SeaRegistration_register D a p d = (res, d')"
  shows "(\<exists>e. res = Err e \<and> d' = d \<and>
        (e = Conflict msg_registration_exists \<longrightarrow> registration_taken lower a p (tabs d)) \<and>
        (up d \<and> registration_fits ts_ok a p \<and> pl_account_id p = acc_id a \<longrightarrow> e = Conflict msg_registration_exists)) \<or>
    (\<not> registration_taken lower a p (tabs d) \<and> registration_fits ts_ok a p \<and>
     (\<exists>t c. tabs t = registered rt a p (tabs d) \<and> (up d \<longrightarrow> up t) \<and> db_commit D t d = (c, d') \<and>
            res = map_err registration_map_error c))"
    (is "(\<exists>e. ?refused e) \<or> ?committed")
proof -
  have tr: "db_transactions D tabs up" and wr: "db_writes D tabs up rt lower ts_ok" using spec by (auto simp: db_spec_def)
  note C = registration_map_error_Conflict
  show ?thesis
  proof (cases "db_begin D d")
    case (Err e)
    with reg db_transactionsD(2) [OF tr Err] have "?refused (registration_map_error e)"
      by (simp add: SeaRegistration_register_def C)
    then show ?thesis by blast
  next
    case (Ok t)
    have t: "tabs t = tabs d" "up d \<longrightarrow> up t" using db_transactionsD(1) [OF tr Ok] by auto
    obtain r1 t1 where i1: "db_account_insert D (account_to_active a) t = (r1, t1)" by (cases "db_account_insert D (account_to_active a) t")
    show ?thesis
    proof (cases r1)
      case (Err e)
      with reg Ok i1 t db_account_insertD(2) [OF wr i1 [unfolded Err]] have "?refused (registration_map_error e)"
        by (auto simp: SeaRegistration_register_def C registration_taken_def registration_fits_def)
      then show ?thesis by blast
    next
      case ok1: (Ok x1)
      note ins1 = db_account_insertD(1) [OF wr i1 [unfolded ok1]]
      obtain r2 t2 where i2: "db_player_insert D (player_to_active p) t1 = (r2, t2)"
        by (cases "db_player_insert D (player_to_active p) t1")
      show ?thesis
      proof (cases r2)
        case (Err e)
        with reg Ok i1 ok1 i2 t ins1 db_player_insertD(2) [OF wr i2 [unfolded Err]] have "?refused (registration_map_error e)"
          by (auto simp: SeaRegistration_register_def C registration_taken_def registration_fits_def)
        then show ?thesis by blast
      next
        case ok2: (Ok x2)
        note ins2 = db_player_insertD(1) [OF wr i2 [unfolded ok2]]
        obtain c where "db_commit D t2 d = (c, d')" "res = map_err registration_map_error c"
          using reg Ok i1 ok1 i2 ok2 by (auto simp: SeaRegistration_register_def split: prod.splits)
        moreover have "tabs t2 = registered rt a p (tabs d)"
          using ins1 ins2 t by (simp add: registered_def sql_account_active sql_player_active)
        ultimately have ?committed
          using ins1 ins2 t by (auto simp: registration_taken_def registration_fits_def)
        then show ?thesis ..
      qed
    qed
  qed
qed

text \<open>One player per account follows from the foreign key and the fresh account of a registration.\<close>

lemma registered_rows:
  assumes rt: "\<forall>t. rt (rt t) = rt t" and ts: "\<forall>t. ts_ok t \<longrightarrow> ts_ok (rt t)"
    and rows: "sea_rows rt ts_ok T" and new: "new_user a p"
    and free: "\<not> registration_taken lower a p T" and fits: "registration_fits ts_ok a p"
  shows "sea_rows rt ts_ok (registered rt a p T)"
proof -
  let ?u = "account_uuid (acc_id a)" and ?v = "player_uuid (pl_id p)"
  have wf: "wf_username (acc_username a)" "storable_player p" "pl_account_id p = acc_id a"
    using new by (auto simp: new_user_def storable_player_def)
  have names: "am_username m \<noteq> Username_as_str (acc_username a)" if "tb_accounts T u = Some m" for u m
    using free that by (fastforce simp: registration_taken_def account_conflict_def)
  have other: "pm_account_id m \<noteq> ?u" if "tb_players T u = Some m" for u m
    using sea_rowsD(5) [OF rows that] free by (auto simp: registration_taken_def account_conflict_def)
  have st: "storable_player (stored_player rt p)" using wf(2) by (simp add: storable_player_def)
  have pf: "player_fits ts_ok (player_to_active (stored_player rt p))"
    using fits ts by (auto simp: registration_fits_def player_fits_def player_to_active_def stored_player_def
        to_fixed_def option.pred_map comp_def split: option.splits elim!: option.pred_mono_strong)
  show ?thesis
    unfolding sea_rows_def
  proof (intro conjI allI impI)
    fix u m assume "tb_accounts (registered rt a p T) u = Some m"
    then show "\<exists>b. m = account_to_active b \<and> stored_account rt b = b \<and> wf_username (acc_username b) \<and> account_uuid (acc_id b) = u"
      using sea_rowsD(1) [OF rows, of u m] wf(1) stored_account_idem [OF rt, of a]
      by (cases "u = ?u") (auto simp: registered_def)
  next
    fix u m assume "tb_players (registered rt a p T) u = Some m"
    then show "\<exists>q. m = player_to_active q \<and> stored_player rt q = q \<and> storable_player q \<and> player_fits ts_ok m \<and> player_uuid (pl_id q) = u"
      using sea_rowsD(2) [OF rows, of u m] st pf stored_player_idem [OF rt, of p]
      by (cases "u = ?v") (auto simp: registered_def)
  next
    fix u v m m'
    assume "tb_accounts (registered rt a p T) u = Some m" "tb_accounts (registered rt a p T) v = Some m'"
      "am_username m = am_username m'"
    then show "u = v"
      using names [of u m] names [of v m'] sea_rowsD(3) [OF rows, of u m v m']
      by (auto simp: registered_def split: if_splits)
  next
    fix u v m m'
    assume "tb_players (registered rt a p T) u = Some m" "tb_players (registered rt a p T) v = Some m'"
      "pm_account_id m = pm_account_id m'"
    then show "u = v"
      using other [of u m] other [of v m'] sea_rowsD(4) [OF rows, of u m v m'] wf(3)
      by (auto simp: registered_def split: if_splits)
  next
    fix u m assume "tb_players (registered rt a p T) u = Some m"
    then show "tb_accounts (registered rt a p T) (pm_account_id m) \<noteq> None"
      using sea_rowsD(5) [OF rows, of u m] wf(3) by (auto simp: registered_def split: if_splits)
  qed
qed

section \<open>Updates of a player\<close>

lemma sea_rows_update:
  assumes rows: "sea_rows rt ts_ok T" and old: "tb_players T (player_uuid (pl_id p)) = Some (player_to_active p)"
    and q: "pl_id q = pl_id p" "pl_account_id q = pl_account_id p" "stored_player rt q = q" "storable_player q"
      "player_fits ts_ok (player_to_active q)"
  shows "sea_rows rt ts_ok (T\<lparr>tb_players := (tb_players T)(player_uuid (pl_id p) \<mapsto> player_to_active q)\<rparr>)"
  unfolding sea_rows_def
proof (intro conjI allI impI)
  let ?T = "T\<lparr>tb_players := (tb_players T)(player_uuid (pl_id p) \<mapsto> player_to_active q)\<rparr>"
  fix u v m m'
  show "\<exists>a. m = account_to_active a \<and> stored_account rt a = a \<and> wf_username (acc_username a) \<and> account_uuid (acc_id a) = u"
    if "tb_accounts ?T u = Some m" for u m using sea_rowsD(1) [OF rows, of u m] that by simp
  show "\<exists>p. n = player_to_active p \<and> stored_player rt p = p \<and> storable_player p \<and> player_fits ts_ok n \<and> player_uuid (pl_id p) = u"
    if "tb_players ?T u = Some n" for u n
    using sea_rowsD(2) [OF rows, of u n] that q by (auto split: if_splits)
  show "tb_accounts ?T u = Some m \<Longrightarrow> tb_accounts ?T v = Some m' \<Longrightarrow> am_username m = am_username m' \<Longrightarrow> u = v"
    using sea_rowsD(3) [OF rows, of u m v m'] by simp
  show "u = v" if "tb_players ?T u = Some n" "tb_players ?T v = Some n'" "pm_account_id n = pm_account_id n'" for u v n n'
    using sea_rowsD(4) [OF rows old, of v n'] sea_rowsD(4) [OF rows _ old, of u n] sea_rowsD(4) [OF rows, of u n v n'] that q(2)
    by (auto split: if_splits)
  show "tb_accounts ?T (pm_account_id n) \<noteq> None" if "tb_players ?T u = Some n" for u n
    using sea_rowsD(5) [OF rows old] sea_rowsD(5) [OF rows, of u n] that q(2) by (auto split: if_splits)
qed

definition sea_inv ::
  "('d \<Rightarrow> tables) \<Rightarrow> ('d \<Rightarrow> bool) \<Rightarrow> (datetime \<Rightarrow> datetime) \<Rightarrow> (datetime \<Rightarrow> bool) \<Rightarrow> 'd \<Rightarrow> bool" where
  "sea_inv tabs up rt ts_ok d \<longleftrightarrow> up d \<and> sea_rows rt ts_ok (tabs d)"

lemma login_row: "player_apply (player_active_default\<lparr>pa_last_login_at := Some (Some (to_fixed at))\<rparr>) (player_to_active p) =
    player_to_active (Player_record_login at p)"
  by (simp add: player_apply_def player_active_default_def player_to_active_def Player_record_login_def)

lemma sea_login:
  assumes spec: "db_spec D tabs up rt lower ts_ok" and inv: "sea_inv tabs up rt ts_ok d"
    and run: "SeaPlayer_record_login D show_uuid i at d = (res, d')"
  shows "sea_inv tabs up rt ts_ok d'" and "tb_accounts (tabs d') = tb_accounts (tabs d)"
    and "tb_players (tabs d) (player_uuid (pl_id p)) = Some (player_to_active p) \<Longrightarrow> storable_player p \<Longrightarrow> pl_id p = i \<Longrightarrow> ts_ok at \<Longrightarrow>
      res = Ok (Some (stored_player rt (Player_record_login at p))) \<and>
      tb_players (tabs d') (player_uuid (pl_id p)) = Some (player_to_active (stored_player rt (Player_record_login at p)))"
proof -
  have wr: "db_writes D tabs up rt lower ts_ok" and rt: "\<forall>t. rt (rt t) = rt t" and ts: "\<forall>t. ts_ok t \<longrightarrow> ts_ok (rt t)"
    using spec by (auto simp: db_spec_def)
  have up: "up d" and rows: "sea_rows rt ts_ok (tabs d)" using inv by (auto simp: sea_inv_def)
  let ?a = "player_active_default\<lparr>pa_last_login_at := Some (Some (to_fixed at))\<rparr>"
  obtain r where um: "db_players_update_many D ?a (player_uuid i) d = (r, d')"
    and res: "res = and_then (map_err storage_error r)
        (\<lambda>rows. transpose_map (player_to_domain show_uuid) (case rows of [] \<Rightarrow> None | m # _ \<Rightarrow> Some m))"
    using run by (auto simp: SeaPlayer_record_login_def Let_def split: prod.splits)
  note D = db_players_update_manyD [OF wr, of ?a "player_uuid i" d]
  have up': "up d'" using D(1) um up by blast
  have main: "sea_rows rt ts_ok (tabs d') \<and> tb_accounts (tabs d') = tb_accounts (tabs d) \<and>
     (ts_ok at \<longrightarrow> res = Ok (Some (stored_player rt (Player_record_login at q))) \<and>
        tb_players (tabs d') (player_uuid (pl_id q)) = Some (player_to_active (stored_player rt (Player_record_login at q))))"
    if q: "tb_players (tabs d) (player_uuid (pl_id q)) = Some (player_to_active q)" "player_uuid (pl_id q) = player_uuid i"
      "storable_player q" "player_fits ts_ok (player_to_active q)" for q
  proof -
    let ?q = "stored_player rt (Player_record_login at q)"
    have q': "pl_id ?q = pl_id q" "pl_account_id ?q = pl_account_id q" "stored_player rt ?q = ?q" "storable_player ?q"
      using q(3) stored_player_idem [OF rt] by (simp_all add: Player_record_login_def storable_player_def)
    have fit: "player_fits ts_ok (player_to_active (Player_record_login at q))" if "ts_ok at"
      using q(4) that by (simp add: player_fits_def player_to_active_def Player_record_login_def to_fixed_def)
    have fit': "player_fits ts_ok (player_to_active ?q)" if "ts_ok at"
      using q(4) that ts by (simp add: player_fits_def player_to_active_def Player_record_login_def to_fixed_def stored_player_def)
    show ?thesis
    proof (cases r)
      case (Ok rs)
      have "tb_players (tabs d) (player_uuid i) = Some (player_to_active q)" using q(1,2) by simp
      from D(3) [OF um [unfolded Ok] this] have at: "ts_ok at" and rs: "rs = [player_to_active ?q]"
        and tabs: "tabs d' = (tabs d)\<lparr>tb_players := (tb_players (tabs d))(player_uuid (pl_id q) \<mapsto> player_to_active ?q)\<rparr>"
        by (auto simp: login_row sql_player_active q(2), simp add: player_fits_def player_to_active_def
            Player_record_login_def to_fixed_def)
      from sea_rows_update [OF rows q(1) q' fit' [OF at]] show ?thesis
        using Ok rs tabs res player_row_exact [OF q'(4)] by (simp add: transpose_map_def)
    next
      case (Err e)
      with D(4) um fit q show ?thesis
        using rows by (auto simp: login_row up player_active_default_def [THEN arg_cong [where f = pa_account_id]])
    qed
  qed
  have old: "\<exists>q. m = player_to_active q \<and> tb_players (tabs d) (player_uuid (pl_id q)) = Some (player_to_active q) \<and>
      player_uuid (pl_id q) = player_uuid i \<and> storable_player q \<and> player_fits ts_ok (player_to_active q)"
    if "tb_players (tabs d) (player_uuid i) = Some m" for m
    using sea_rowsD(2) [OF rows that] that by metis
  have "sea_rows rt ts_ok (tabs d') \<and> tb_accounts (tabs d') = tb_accounts (tabs d)"
  proof (cases "tb_players (tabs d) (player_uuid i)")
    case None
    then show ?thesis using D(2,4) um rows by (cases r) auto
  next
    case (Some m)
    from old [OF this] main show ?thesis by blast
  qed
  then show "sea_inv tabs up rt ts_ok d'" "tb_accounts (tabs d') = tb_accounts (tabs d)"
    using up' by (auto simp: sea_inv_def)
  assume p: "tb_players (tabs d) (player_uuid (pl_id p)) = Some (player_to_active p)" "storable_player p" "pl_id p = i" "ts_ok at"
  then have "player_fits ts_ok (player_to_active p)" using sea_rowsD(2) [OF rows p(1)] by blast
  with main [of p] p show "res = Ok (Some (stored_player rt (Player_record_login at p))) \<and>
      tb_players (tabs d') (player_uuid (pl_id p)) = Some (player_to_active (stored_player rt (Player_record_login at p)))"
    by simp
qed

section \<open>The contract\<close>

lemma account_to_active_inject:
  "wf_username (acc_username a) \<Longrightarrow> wf_username (acc_username b) \<Longrightarrow> account_to_active a = account_to_active b \<longleftrightarrow> a = b"
  by (metis account_row_roundtrip result.inject(1))

lemma player_to_active_inject:
  "storable_player p \<Longrightarrow> storable_player q \<Longrightarrow> player_to_active p = player_to_active q \<longleftrightarrow> p = q"
  by (metis player_row_exact result.inject(1))

lemma sea_find_registered:
  assumes spec: "db_spec D tabs up rt lower ts_ok"
    and inv: "sea_inv tabs up rt ts_ok d" "sea_inv tabs up rt ts_ok d'" and new: "new_user a p"
    and tabs: "tabs d' = registered rt a p (tabs d)" and free: "\<not> registration_taken lower a p (tabs d)"
  shows "wf_username u \<Longrightarrow> SeaAccount_find_by_username D show_uuid (Username_as_str u) d' =
      (if u = acc_username a then Ok (Some (stored_account rt a))
       else SeaAccount_find_by_username D show_uuid (Username_as_str u) d)"
    and "SeaPlayer_find_by_account D show_uuid i d' =
      (if i = pl_account_id p then Ok (Some (stored_player rt p)) else SeaPlayer_find_by_account D show_uuid i d)"
proof -
  have i: "up d" "sea_rows rt ts_ok (tabs d)" "up d'" "sea_rows rt ts_ok (tabs d')" using inv by (auto simp: sea_inv_def)
  have wf: "wf_username (acc_username a)" "storable_player p" "pl_account_id p = acc_id a"
    using new by (auto simp: new_user_def storable_player_def)
  have st: "storable_player (stored_player rt p)" using wf(2) by (simp add: storable_player_def)
  have low: "wf_username v \<Longrightarrow> lower (Username_as_str v) = Username_as_str v" for v using spec by (simp add: db_spec_def)
  have ids: "account_uuid j = account_uuid k \<longleftrightarrow> j = k" "player_uuid m = player_uuid n \<longleftrightarrow> m = n" for j k m n
    by (cases j; cases k; simp) (cases m; cases n; simp)
  show "SeaAccount_find_by_username D show_uuid (Username_as_str u) d' =
      (if u = acc_username a then Ok (Some (stored_account rt a))
       else SeaAccount_find_by_username D show_uuid (Username_as_str u) d)" if u: "wf_username u"
  proof -
    obtain r r' where r: "SeaAccount_find_by_username D show_uuid (Username_as_str u) d = Ok r"
      "SeaAccount_find_by_username D show_uuid (Username_as_str u) d' = Ok r'"
      using sea_find_username(1) [OF spec i(1,2)] sea_find_username(1) [OF spec i(3,4)] by metis
    have names: "acc_username b \<noteq> acc_username a"
      if "tb_accounts (tabs d) (account_uuid (acc_id b)) = Some (account_to_active b)" for b
      using free that by (fastforce simp: registration_taken_def account_conflict_def)
    have "r' = Some b \<longleftrightarrow> (if u = acc_username a then Some (stored_account rt a) else r) = Some b" for b
      using sea_find_username(2) [OF spec i(1,2), of show_uuid "Username_as_str u" b]
        sea_find_username(2) [OF spec i(3,4), of show_uuid "Username_as_str u" b] r low [OF u] wf(1) names [of b]
        account_to_active_inject [of "stored_account rt a" b] free
      by (auto simp: tabs registered_def ids Username_as_str_inject registration_taken_def account_conflict_def split: if_splits)
    with option_eqI [of r' "if u = acc_username a then Some (stored_account rt a) else r"] r show ?thesis by simp
  qed
  obtain r r' where r: "SeaPlayer_find_by_account D show_uuid i d = Ok r" "SeaPlayer_find_by_account D show_uuid i d' = Ok r'"
    using sea_find_account(1) [OF spec i(1,2)] sea_find_account(1) [OF spec i(3,4)] by metis
  have other: "pl_account_id q \<noteq> acc_id a" if "tb_players (tabs d) v = Some (player_to_active q)" for q v
    using sea_rowsD(5) [OF i(2) that] free by (auto simp: registration_taken_def account_conflict_def)
  have "r' = Some q \<longleftrightarrow> (if i = pl_account_id p then Some (stored_player rt p) else r) = Some q" for q
    using sea_find_account(2) [OF spec i(1,2), of show_uuid i q] sea_find_account(2) [OF spec i(3,4), of show_uuid i q]
      r st player_to_active_inject [OF st, of q] wf(3) free other [of _ q]
    by (auto simp: tabs registered_def ids registration_taken_def split: if_splits)
  with option_eqI [of r' "if i = pl_account_id p then Some (stored_player rt p) else r"] r
  show "SeaPlayer_find_by_account D show_uuid i d' =
      (if i = pl_account_id p then Ok (Some (stored_player rt p)) else SeaPlayer_find_by_account D show_uuid i d)" by simp
qed

lemma sea_contract:
  assumes spec: "db_spec D tabs up rt lower ts_ok"
  shows "user_store (SeaAccountRepository D show_uuid) (SeaPlayerRepository D show_uuid) (SeaRegistrationStore D)
    (sea_inv tabs up rt ts_ok) (\<lambda>_ _ _. True) (stored_account rt) (stored_player rt) ts_ok"
proof
  fix d d' :: 'a and a b :: account and p :: player and e name u i at acc pid
  note [simp] = SeaAccountRepository_def SeaPlayerRepository_def SeaRegistrationStore_def
  have tr: "db_transactions D tabs up" and rt: "\<forall>t. rt (rt t) = rt t" and ts: "\<forall>t. ts_ok t \<longrightarrow> ts_ok (rt t)"
    and low: "wf_username v \<Longrightarrow> lower (Username_as_str v) = Username_as_str v" for v
    using spec by (auto simp: db_spec_def)
  have inv: "up d \<and> sea_rows rt ts_ok (tabs d)" if "sea_inv tabs up rt ts_ok d" for d using that by (simp add: sea_inv_def)
  note fu = sea_find_username [OF spec] and fa = sea_find_account [OF spec]
  have committed: "res = Ok () \<and> up d' \<and> tabs d' = registered rt a p (tabs d) \<and> \<not> registration_taken lower a p (tabs d) \<and>
      registration_fits ts_ok a p \<or> (\<exists>e. res = Err e \<and> d' = d)"
    if "up d" "SeaRegistration_register D a p d = (res, d')" for a p d d' res
    using sea_register_outcome [OF spec that(2)] that(1) db_transactionsD(3) [OF tr] by (metis map_err.simps(1))
  show "sea_inv tabs up rt ts_ok d \<Longrightarrow> rs_register (SeaRegistrationStore D) a p d = (Err e, d') \<Longrightarrow> d' = d"
    using committed [of d a p "Err e" d'] inv by auto
  show "sea_inv tabs up rt ts_ok (snd (rs_register (SeaRegistrationStore D) a p d))"
    if "sea_inv tabs up rt ts_ok d" "new_user a p"
    using committed [of d a p "fst (SeaRegistration_register D a p d)" "snd (SeaRegistration_register D a p d)"]
      registered_rows [OF rt ts _ that(2), of "tabs d" lower] inv [OF that(1)] that(1)
    by (auto simp: sea_inv_def)
  show "\<exists>r. ar_find_by_username (SeaAccountRepository D show_uuid) name d = Ok r" if "sea_inv tabs up rt ts_ok d"
    using fu(1) inv [OF that] by simp
  show "\<exists>r. pr_find_by_account (SeaPlayerRepository D show_uuid) i d = Ok r" if "sea_inv tabs up rt ts_ok d"
    using fa(1) inv [OF that] by simp
  show "acc_username a = u" if "sea_inv tabs up rt ts_ok d" "wf_username u"
    "ar_find_by_username (SeaAccountRepository D show_uuid) (Username_as_str u) d = Ok (Some a)"
    using fu(2) [of d show_uuid "Username_as_str u" a] inv [OF that(1)] that low [OF that(2)]
    by (simp add: Username_as_str_inject)
  show "pl_account_id p = i" if "sea_inv tabs up rt ts_ok d"
    "pr_find_by_account (SeaPlayerRepository D show_uuid) i d = Ok (Some p)"
    using fa(2) [of d show_uuid i p] inv [OF that(1)] that by simp
  show "sea_inv tabs up rt ts_ok (snd (pr_record_login (SeaPlayerRepository D show_uuid) pid at d))"
    if "sea_inv tabs up rt ts_ok d"
    using sea_login(1) [OF spec that, of show_uuid pid at "fst (SeaPlayer_record_login D show_uuid pid at d)"] by simp
  show "acc_status a = Active \<Longrightarrow> acc_status (stored_account rt a) = Active" by (simp add: stored_account_def)
  show "is_err (fst (rs_register (SeaRegistrationStore D) a p d))"
    if i: "sea_inv tabs up rt ts_ok d" and wf: "wf_username (acc_username a)"
      and f: "ar_find_by_username (SeaAccountRepository D show_uuid) (Username_as_str (acc_username a)) d = Ok (Some b)"
  proof -
    have "registration_taken lower a p (tabs d)"
      using fu(2) [of d show_uuid "Username_as_str (acc_username a)" b] inv [OF i] f low [OF wf]
        lower_row [OF spec, of "tabs d" "account_uuid (acc_id b)" "account_to_active b"]
      by (fastforce simp: registration_taken_def account_conflict_def)
    then show ?thesis
      using committed [of d a p "fst (SeaRegistration_register D a p d)" "snd (SeaRegistration_register D a p d)"] inv [OF i]
      by auto
  qed
  show "ar_find_by_username (SeaAccountRepository D show_uuid) name (snd (pr_record_login (SeaPlayerRepository D show_uuid) pid at d)) =
      ar_find_by_username (SeaAccountRepository D show_uuid) name d" if i: "sea_inv tabs up rt ts_ok d"
  proof -
    let ?d = "snd (SeaPlayer_record_login D show_uuid pid at d)"
    note l = sea_login(1,2) [OF spec i, of show_uuid pid at "fst (SeaPlayer_record_login D show_uuid pid at d)" ?d]
    obtain r r' where r: "SeaAccount_find_by_username D show_uuid name d = Ok r"
      "SeaAccount_find_by_username D show_uuid name ?d = Ok r'"
      using fu(1) inv [OF i] inv [OF l(1)] by force
    have "r' = Some b \<longleftrightarrow> r = Some b" for b
      using fu(2) [of d show_uuid name b] fu(2) [of ?d show_uuid name b] inv [OF i] inv [OF l(1)] l(2) r by simp
    with option_eqI [of r' r] r show ?thesis by simp
  qed
  show "fst (pr_record_login (SeaPlayerRepository D show_uuid) (pl_id p) at d) = Ok (Some (stored_player rt (Player_record_login at p))) \<and>
      pr_find_by_account (SeaPlayerRepository D show_uuid) acc (snd (pr_record_login (SeaPlayerRepository D show_uuid) (pl_id p) at d)) =
        Ok (Some (stored_player rt (Player_record_login at p)))"
    if i: "sea_inv tabs up rt ts_ok d" and f: "pr_find_by_account (SeaPlayerRepository D show_uuid) acc d = Ok (Some p)" and at: "ts_ok at"
  proof -
    let ?l = "SeaPlayer_record_login D show_uuid (pl_id p) at d"
    have p: "tb_players (tabs d) (player_uuid (pl_id p)) = Some (player_to_active p)" "storable_player p" "pl_account_id p = acc"
      using fa(2) [of d show_uuid acc p] inv [OF i] f by simp_all
    note l = sea_login [OF spec i, of show_uuid "pl_id p" at "fst ?l" "snd ?l"]
    have "storable_player (stored_player rt (Player_record_login at p))"
      using p(2) by (simp add: storable_player_def Player_record_login_def)
    then show ?thesis
      using l(1) l(3) [OF _ p(1,2) refl at] fa(2) [of "snd ?l" show_uuid acc "stored_player rt (Player_record_login at p)"] p(3)
      by (auto simp: sea_inv_def)
  qed
  have registered: "sea_inv tabs up rt ts_ok d' \<and> tabs d' = registered rt a p (tabs d) \<and> \<not> registration_taken lower a p (tabs d)"
    if "sea_inv tabs up rt ts_ok d" "new_user a p" "SeaRegistration_register D a p d = (Ok (), d')" for d d' a p
    using committed [OF _ that(3)] registered_rows [OF rt ts _ that(2), of "tabs d" lower] inv [OF that(1)]
    by (auto simp: sea_inv_def)
  show "ar_find_by_username (SeaAccountRepository D show_uuid) (Username_as_str u) d' =
      (if u = acc_username a then Ok (Some (stored_account rt a))
       else ar_find_by_username (SeaAccountRepository D show_uuid) (Username_as_str u) d)"
    if "sea_inv tabs up rt ts_ok d" "new_user a p" "rs_register (SeaRegistrationStore D) a p d = (Ok (), d')" "wf_username u"
    using registered [of d a p d'] sea_find_registered(1) [OF spec that(1) _ that(2) _ _ that(4)] that by simp
  show "pr_find_by_account (SeaPlayerRepository D show_uuid) i d' =
      (if i = pl_account_id p then Ok (Some (stored_player rt p)) else pr_find_by_account (SeaPlayerRepository D show_uuid) i d)"
    if "sea_inv tabs up rt ts_ok d" "new_user a p" "rs_register (SeaRegistrationStore D) a p d = (Ok (), d')"
    using registered [of d a p d'] sea_find_registered(2) [OF spec that(1) _ that(2)] that by simp
qed simp_all

end
