(* ===== verification/LX_ListDb.thy ===== *)
theory LX_ListDb
  imports LX_DbContract
begin

text \<open>
  A database kept as two lists, with microsecond time stamps: it shows that the documented
  behaviour \<open>db_spec\<close> can hold. It is used for witnesses only.
\<close>

record list_db =
  ldb_accounts :: "(uuid, account_model) hmap"
  ldb_players :: "(uuid, player_model) hmap"

definition ldb_empty :: list_db where
  "ldb_empty = \<lparr>ldb_accounts = [], ldb_players = []\<rparr>"

definition ldb_tabs :: "list_db \<Rightarrow> tables" where
  "ldb_tabs d = \<lparr>tb_accounts = hm_get (ldb_accounts d), tb_players = hm_get (ldb_players d)\<rparr>"

definition micros :: "datetime \<Rightarrow> datetime" where
  "micros t = t div 1000 * 1000"

definition ldb_error :: "sql_err option \<Rightarrow> db_err" where
  "ldb_error e = \<lparr>de_sql_err = e, de_text = []\<rparr>"

definition ldb_unique :: db_err where
  "ldb_unique = ldb_error (Some (UniqueConstraintViolation []))"

definition ldb_find :: "('v \<Rightarrow> bool) \<Rightarrow> ('k, 'v) hmap \<Rightarrow> 'v option" where
  "ldb_find P m = List.find P (filter (\<lambda>v. \<exists>k \<in> set (map fst m). hm_get m k = Some v) (map snd m))"

definition ldb_conflict :: "account_model \<Rightarrow> list_db \<Rightarrow> bool" where
  "ldb_conflict m d \<longleftrightarrow>
     hm_contains (ldb_accounts d) (am_id m) \<or>
     ldb_find (\<lambda>m'. to_ascii_lowercase (am_username m') = to_ascii_lowercase (am_username m)) (ldb_accounts d) \<noteq> None"

abbreviation ldb_ts_ok :: "datetime \<Rightarrow> bool" where
  "ldb_ts_ok \<equiv> (\<lambda>_. True)"

definition ldb_put_player :: "uuid \<Rightarrow> player_model \<Rightarrow> list_db \<Rightarrow> list_db" where
  "ldb_put_player u m d = d\<lparr>ldb_players := hm_insert u (sql_player micros m) (ldb_players d)\<rparr>"

definition list_database :: "list_db database" where
  "list_database =
     \<lparr>db_begin = Ok, db_commit = (\<lambda>t d. (Ok (), t)),
      db_account_by_id = (\<lambda>u d. Ok (hm_get (ldb_accounts d) u)),
      db_account_by_username = (\<lambda>n d. Ok (ldb_find (\<lambda>m. to_ascii_lowercase (am_username m) = to_ascii_lowercase n) (ldb_accounts d))),
      db_account_insert = (\<lambda>m d.
        if \<not> account_fits ldb_ts_ok m then (Err (ldb_error None), d)
        else if ldb_conflict m d then (Err ldb_unique, d)
        else (Ok (sql_account micros m), d\<lparr>ldb_accounts := hm_insert (am_id m) (sql_account micros m) (ldb_accounts d)\<rparr>)),
      db_account_update = (\<lambda>m d.
        if \<not> hm_contains (ldb_accounts d) (am_id m) \<or> ldb_conflict m (d\<lparr>ldb_accounts := hm_remove (am_id m) (ldb_accounts d)\<rparr>)
        then (Err (ldb_error None), d)
        else (Ok (sql_account micros m), d\<lparr>ldb_accounts := hm_insert (am_id m) (sql_account micros m) (ldb_accounts d)\<rparr>)),
      db_player_by_id = (\<lambda>u d. Ok (hm_get (ldb_players d) u)),
      db_player_by_account = (\<lambda>i d. Ok (ldb_find (\<lambda>m. pm_account_id m = i) (ldb_players d))),
      db_player_lock_by_id = (\<lambda>u d. Ok (hm_get (ldb_players d) u)),
      db_player_insert = (\<lambda>m d.
        if \<not> player_fits ldb_ts_ok m \<or> \<not> hm_contains (ldb_accounts d) (pm_account_id m) then (Err (ldb_error None), d)
        else if hm_contains (ldb_players d) (pm_id m) then (Err ldb_unique, d)
        else (Ok (sql_player micros m), ldb_put_player (pm_id m) m d)),
      db_player_update = (\<lambda>a d.
        case Option.bind (pa_id a) (hm_get (ldb_players d)) of
          None \<Rightarrow> (Err (ldb_error None), d)
        | Some m \<Rightarrow>
            (let m' = player_apply a m in
             if player_fits ldb_ts_ok m' then (Ok (sql_player micros m'), ldb_put_player (the (pa_id a)) m' d)
             else (Err (ldb_error None), d))),
      db_players_update_many = (\<lambda>a u d.
        case hm_get (ldb_players d) u of
          None \<Rightarrow> (Ok [], d)
        | Some m \<Rightarrow>
            (let m' = player_apply a m in
             if player_fits ldb_ts_ok m' then (Ok [sql_player micros m'], ldb_put_player u m' d)
             else (Err (ldb_error None), d)))\<rparr>"

lemma find_Some_iff_ex: "List.find P xs = Some x \<Longrightarrow> x \<in> set xs \<and> P x"
  by (induction xs) (auto split: if_splits)

lemma ldb_find_Some: "ldb_find P m = Some v \<Longrightarrow> (\<exists>k. hm_get m k = Some v) \<and> P v"
  unfolding ldb_find_def by (drule find_Some_iff_ex) auto

lemma hm_get_in: "hm_get m k = Some v \<Longrightarrow> (k, v) \<in> set m"
  by (simp add: hm_get_def map_of_SomeD)

lemma ldb_find_None: "ldb_find P m = None \<Longrightarrow> hm_get m k = Some v \<Longrightarrow> \<not> P v"
  unfolding ldb_find_def find_None_iff using hm_get_in [of m k v] by force

lemma ldb_conflict_iff: "ldb_conflict m d \<longleftrightarrow> account_conflict to_ascii_lowercase m (ldb_tabs d)"
proof -
  have "ldb_find P M \<noteq> None \<longleftrightarrow> (\<exists>u m'. hm_get M u = Some m' \<and> P m')" for P :: "account_model \<Rightarrow> bool" and M :: "(uuid, account_model) hmap"
    using ldb_find_Some [of P M] ldb_find_None [of P M] by blast
  then show ?thesis by (simp add: ldb_conflict_def account_conflict_def ldb_tabs_def hm_contains_def)
qed

lemma hm_get_upd: "hm_get (hm_insert k v m) = (hm_get m)(k \<mapsto> v)" "hm_get (hm_remove k m) = (hm_get m)(k := None)"
  by (auto simp: fun_eq_iff)

lemma is_unique_ldb [simp]: "is_unique ldb_unique" "\<not> is_unique (ldb_error None)"
  by (simp_all add: is_unique_def ldb_unique_def ldb_error_def)

lemma ldb_tabs_sel [simp]:
  "tb_accounts (ldb_tabs d) = hm_get (ldb_accounts d)" "tb_players (ldb_tabs d) = hm_get (ldb_players d)"
  by (simp_all add: ldb_tabs_def)

lemma ldb_tabs_put:
  "ldb_tabs (d\<lparr>ldb_accounts := hm_insert u m (ldb_accounts d)\<rparr>) = (ldb_tabs d)\<lparr>tb_accounts := (hm_get (ldb_accounts d))(u \<mapsto> m)\<rparr>"
  "ldb_tabs (d\<lparr>ldb_accounts := hm_remove u (ldb_accounts d)\<rparr>) = (ldb_tabs d)\<lparr>tb_accounts := (hm_get (ldb_accounts d))(u := None)\<rparr>"
  "ldb_tabs (ldb_put_player u n d) = (ldb_tabs d)\<lparr>tb_players := (hm_get (ldb_players d))(u \<mapsto> sql_player micros n)\<rparr>"
  by (simp_all add: ldb_tabs_def ldb_put_player_def hm_get_upd)

lemma list_db_reads: "db_reads list_database ldb_tabs (\<lambda>_. True) to_ascii_lowercase"
  unfolding db_reads_def list_database_def
  by (auto dest: ldb_find_Some ldb_find_None)

lemma list_db_writes: "db_writes list_database ldb_tabs (\<lambda>_. True) micros to_ascii_lowercase ldb_ts_ok"
  unfolding db_writes_def
proof (intro conjI allI)
  fix m :: account_model and n :: player_model and a :: player_active and u and d :: list_db
  show "case db_account_insert list_database m d of (res, d') \<Rightarrow>
      (case res of
         Ok _ \<Rightarrow> \<not> account_conflict to_ascii_lowercase m (ldb_tabs d) \<and> account_fits ldb_ts_ok m \<and>
           ldb_tabs d' = (ldb_tabs d)\<lparr>tb_accounts := (tb_accounts (ldb_tabs d))(am_id m \<mapsto> sql_account micros m)\<rparr> \<and> (True \<longrightarrow> True)
       | Err e \<Rightarrow> ldb_tabs d' = ldb_tabs d \<and> (is_unique e \<longrightarrow> account_conflict to_ascii_lowercase m (ldb_tabs d)) \<and>
           (True \<and> account_fits ldb_ts_ok m \<longrightarrow> is_unique e))"
    by (auto simp: list_database_def ldb_conflict_iff ldb_tabs_put)
  show "case db_player_insert list_database n d of (res, d') \<Rightarrow>
      (case res of
         Ok _ \<Rightarrow> player_fits ldb_ts_ok n \<and> tb_players (ldb_tabs d) (pm_id n) = None \<and> tb_accounts (ldb_tabs d) (pm_account_id n) \<noteq> None \<and>
           ldb_tabs d' = (ldb_tabs d)\<lparr>tb_players := (tb_players (ldb_tabs d))(pm_id n \<mapsto> sql_player micros n)\<rparr> \<and> (True \<longrightarrow> True)
       | Err e \<Rightarrow> ldb_tabs d' = ldb_tabs d \<and> (is_unique e \<longrightarrow> tb_players (ldb_tabs d) (pm_id n) \<noteq> None) \<and>
           (True \<and> player_fits ldb_ts_ok n \<and> tb_accounts (ldb_tabs d) (pm_account_id n) \<noteq> None \<longrightarrow> is_unique e))"
    by (auto simp: list_database_def ldb_tabs_put hm_contains_def)
  show "case db_account_update list_database m d of (res, d') \<Rightarrow>
      (case res of
         Ok _ \<Rightarrow> tb_accounts (ldb_tabs d) (am_id m) \<noteq> None \<and>
           \<not> account_conflict to_ascii_lowercase m ((ldb_tabs d)\<lparr>tb_accounts := (tb_accounts (ldb_tabs d))(am_id m := None)\<rparr>) \<and>
           ldb_tabs d' = (ldb_tabs d)\<lparr>tb_accounts := (tb_accounts (ldb_tabs d))(am_id m \<mapsto> sql_account micros m)\<rparr>
       | Err e \<Rightarrow> ldb_tabs d' = ldb_tabs d)"
    by (auto simp: list_database_def ldb_conflict_iff ldb_tabs_put hm_contains_def)
  show "case db_player_update list_database a d of (res, d') \<Rightarrow>
      (case res of
         Ok _ \<Rightarrow> (\<exists>u m. pa_id a = Some u \<and> tb_players (ldb_tabs d) u = Some m \<and> player_fits ldb_ts_ok (player_apply a m) \<and>
           ldb_tabs d' = (ldb_tabs d)\<lparr>tb_players := (tb_players (ldb_tabs d))(u \<mapsto> sql_player micros (player_apply a m))\<rparr>) \<and> (True \<longrightarrow> True)
       | Err e \<Rightarrow> ldb_tabs d' = ldb_tabs d \<and>
           \<not> (True \<and> (\<exists>u m. pa_id a = Some u \<and> tb_players (ldb_tabs d) u = Some m \<and> pa_account_id a = None \<and>
                         player_fits ldb_ts_ok (player_apply a m))))"
    by (cases "pa_id a") (auto simp: list_database_def ldb_tabs_put Let_def split: option.splits)
  show "case db_players_update_many list_database a u d of (res, d') \<Rightarrow> (True \<longrightarrow> True) \<and>
      (case res of
         Ok rows \<Rightarrow> (case tb_players (ldb_tabs d) u of
             None \<Rightarrow> rows = [] \<and> ldb_tabs d' = ldb_tabs d
           | Some m \<Rightarrow> player_fits ldb_ts_ok (player_apply a m) \<and> rows = [sql_player micros (player_apply a m)] \<and>
               ldb_tabs d' = (ldb_tabs d)\<lparr>tb_players := (tb_players (ldb_tabs d))(u \<mapsto> sql_player micros (player_apply a m))\<rparr>)
       | Err e \<Rightarrow> ldb_tabs d' = ldb_tabs d \<and>
           \<not> (True \<and> pa_account_id a = None \<and> pred_option (\<lambda>m. player_fits ldb_ts_ok (player_apply a m)) (tb_players (ldb_tabs d) u)))"
    by (auto simp: list_database_def ldb_tabs_put Let_def split: option.splits)
qed

lemma list_db_transactions: "db_transactions list_database ldb_tabs (\<lambda>_. True)"
  by (simp add: db_transactions_def list_database_def)

lemma list_db_spec: "db_spec list_database ldb_tabs (\<lambda>_. True) micros to_ascii_lowercase ldb_ts_ok"
proof -
  have "to_ascii_lowercase (Username_as_str u) = Username_as_str u" if "wf_username u" for u
  proof -
    have "Username_try_new (Username_as_str u) = Ok u" by (rule Username_try_new_canonical [OF that])
    from Username_try_new_Ok(1) [OF this] show ?thesis by (metis Username_as_str.simps to_ascii_lowercase_idem)
  qed
  moreover have "micros (micros t) = micros t" for t by (simp add: micros_def)
  ultimately show ?thesis
    using list_db_reads list_db_writes list_db_transactions by (simp add: db_spec_def)
qed

lemma ldb_empty_inv: "sea_inv ldb_tabs (\<lambda>_. True) rt ts_ok ldb_empty"
  by (simp add: sea_inv_def sea_rows_def ldb_empty_def ldb_tabs_def)

end
