(* ===== verification/LX_Redis.thy ===== *)
theory LX_Redis
  imports LX_TokenStore
begin

text \<open>
  \<^verbatim>\<open>crates/infrastructure/src/cache/redis_token_store.rs\<close>: the session token store of the production
  server. The Redis server is not part of the repository: the commands the store and its Lua
  scripts issue are the record \<open>redis\<close> over an abstract server state, each with the time of the
  server's clock in milliseconds at which it runs, and \<open>redis_spec\<close> is their documented
  behaviour. A script runs at one point of time. The network is the argument \<open>fault\<close>
  of a call: the request may get lost before it runs, or its answer afterwards.
\<close>

datatype redis_value = RStr rstring | RSet "rstring set"

record 'r redis =
  rd_smembers :: "int \<Rightarrow> rstring \<Rightarrow> 'r \<Rightarrow> (rstring list, rstring) result"
  rd_get :: "int \<Rightarrow> rstring \<Rightarrow> 'r \<Rightarrow> (rstring option, rstring) result"
  rd_del :: "int \<Rightarrow> rstring \<Rightarrow> 'r \<Rightarrow> (unit, rstring) result \<times> 'r"
  rd_sadd :: "int \<Rightarrow> rstring \<Rightarrow> rstring \<Rightarrow> 'r \<Rightarrow> (unit, rstring) result \<times> 'r"
  rd_pexpire :: "int \<Rightarrow> rstring \<Rightarrow> u64 \<Rightarrow> 'r \<Rightarrow> (unit, rstring) result \<times> 'r"
  rd_set_px :: "int \<Rightarrow> rstring \<Rightarrow> rstring \<Rightarrow> u64 \<Rightarrow> 'r \<Rightarrow> (unit, rstring) result \<times> 'r"

datatype redis_fault = RequestLost rstring | ReplyLost rstring

definition redis_invoke ::
  "redis_fault option \<Rightarrow> ('r \<Rightarrow> (unit, rstring) result \<times> 'r) \<Rightarrow> 'r \<Rightarrow> (unit, rstring) result \<times> 'r" where
  "redis_invoke fault script r =
     (case fault of
        None \<Rightarrow> script r
      | Some (RequestLost e) \<Rightarrow> (Err e, r)
      | Some (ReplyLost e) \<Rightarrow> (Err e, snd (script r)))"

section \<open>The store\<close>

definition RedisTokenStore_connect ::
  "(rstring \<Rightarrow> ('c, rstring) result) \<Rightarrow> ('c \<Rightarrow> ('r, rstring) result option) \<Rightarrow> rstring \<Rightarrow> ('r, app_error) result" where
  "RedisTokenStore_connect client_open get_connection url =
     (case client_open url of
        Err e \<Rightarrow> Err (Internal (pre_redis_url @ e))
      | Ok client \<Rightarrow>
          (case get_connection client of
             None \<Rightarrow> Err (Internal msg_redis_timeout)
           | Some (Err e) \<Rightarrow> Err (Internal (pre_redis_connect @ e))
           | Some (Ok conn) \<Rightarrow> Ok conn))"

definition token_key :: "rstring \<Rightarrow> rstring" where
  "token_key token = ascii ''token:'' @ token"

definition player_index_key :: "(uuid \<Rightarrow> rstring) \<Rightarrow> player_id \<Rightarrow> rstring" where
  "player_index_key show_uuid p = ascii ''ptokens:'' @ show_uuid (player_uuid p)"

definition map_redis :: "rstring \<Rightarrow> app_error" where
  "map_redis err = Storage (pre_redis_command @ err)"

fun fill_hex :: "u8 list \<Rightarrow> rstring \<Rightarrow> rstring" where
  "fill_hex [] hex = hex"
| "fill_hex (b # bytes) hex = fill_hex bytes (hex @ hex2 b)"

definition redis_random_token :: "u8 list \<Rightarrow> rstring" where
  "redis_random_token bytes = fill_hex bytes []"

text \<open>The server's clock and the lifetime of a token, in milliseconds.\<close>

definition as_millis :: "int \<Rightarrow> int" where
  "as_millis t = t div 1000000"

definition token_ttl_ms :: "duration \<Rightarrow> (u64, app_error) result" where
  "token_ttl_ms ttl =
     (if as_millis ttl < 2 ^ 64 \<and> as_millis ttl \<le> (2 ^ 63 - 1) div 2
      then Ok (max (word_of_int (as_millis ttl)) 1)
      else Err (Validation msg_ttl_too_big))"

fun lua_del_tokens :: "'r redis \<Rightarrow> int \<Rightarrow> rstring list \<Rightarrow> 'r \<Rightarrow> (unit, rstring) result \<times> 'r" where
  "lua_del_tokens R now [] r = (Ok (), r)"
| "lua_del_tokens R now (t # ts) r =
     st_then (rd_del R now (ascii ''token:'' @ t) r) (\<lambda>_ r1. lua_del_tokens R now ts r1)"

definition create_script ::
  "'r redis \<Rightarrow> int \<Rightarrow> rstring \<Rightarrow> rstring \<Rightarrow> rstring \<Rightarrow> u64 \<Rightarrow> rstring \<Rightarrow> 'r \<Rightarrow> (unit, rstring) result \<times> 'r" where
  "create_script R now index key player ttl_ms token r =
     (case rd_smembers R now index r of
        Err e \<Rightarrow> (Err e, r)
      | Ok old \<Rightarrow>
          st_then (lua_del_tokens R now old r) (\<lambda>_ r1.
          st_then (rd_del R now index r1) (\<lambda>_ r2.
          st_then (rd_sadd R now index token r2) (\<lambda>_ r3.
          st_then (rd_pexpire R now index ttl_ms r3) (\<lambda>_ r4.
          rd_set_px R now key player ttl_ms r4)))))"

definition revoke_script :: "'r redis \<Rightarrow> int \<Rightarrow> rstring \<Rightarrow> 'r \<Rightarrow> (unit, rstring) result \<times> 'r" where
  "revoke_script R now index r =
     (case rd_smembers R now index r of
        Err e \<Rightarrow> (Err e, r)
      | Ok tokens \<Rightarrow> st_then (lua_del_tokens R now tokens r) (\<lambda>_ r1. rd_del R now index r1))"

definition RedisTokenStore_create ::
  "'r redis \<Rightarrow> (uuid \<Rightarrow> rstring) \<Rightarrow> redis_fault option \<Rightarrow> u8 list \<Rightarrow> instant \<Rightarrow> player_id \<Rightarrow> duration \<Rightarrow> 'r
     \<Rightarrow> (rstring, app_error) result \<times> 'r" where
  "RedisTokenStore_create R show_uuid fault bytes now p ttl r =
     (let token = redis_random_token bytes in
      case token_ttl_ms ttl of
        Err e \<Rightarrow> (Err e, r)
      | Ok ttl_ms \<Rightarrow>
          (case redis_invoke fault
                  (create_script R (as_millis now) (player_index_key show_uuid p) (token_key token)
                     (show_uuid (player_uuid p)) ttl_ms token) r of
             (Err e, r') \<Rightarrow> (Err (map_redis e), r')
           | (Ok _, r') \<Rightarrow> (Ok token, r')))"

definition RedisTokenStore_resolve ::
  "'r redis \<Rightarrow> (rstring \<Rightarrow> (uuid, rstring) result) \<Rightarrow> rstring option \<Rightarrow> instant \<Rightarrow> rstring \<Rightarrow> 'r
     \<Rightarrow> (player_id option, app_error) result" where
  "RedisTokenStore_resolve R parse_uuid fault now token r =
     (case (case fault of None \<Rightarrow> rd_get R (as_millis now) (token_key token) r | Some e \<Rightarrow> Err e) of
        Err e \<Rightarrow> Err (map_redis e)
      | Ok None \<Rightarrow> Ok None
      | Ok (Some raw) \<Rightarrow>
          (case parse_uuid raw of
             Err e \<Rightarrow> Err (Internal (pre_token_corrupt @ e))
           | Ok u \<Rightarrow> Ok (Some (PlayerId u))))"

definition RedisTokenStore_revoke_player ::
  "'r redis \<Rightarrow> (uuid \<Rightarrow> rstring) \<Rightarrow> redis_fault option \<Rightarrow> instant \<Rightarrow> player_id \<Rightarrow> 'r \<Rightarrow> (unit, app_error) result \<times> 'r" where
  "RedisTokenStore_revoke_player R show_uuid fault now p r =
     (case redis_invoke fault (revoke_script R (as_millis now) (player_index_key show_uuid p)) r of
        (Err e, r') \<Rightarrow> (Err (map_redis e), r')
      | (Ok _, r') \<Rightarrow> (Ok (), r'))"

text \<open>The trait object; its revocation runs at \<open>now\<close>.\<close>

definition RedisTokenStore ::
  "'r redis \<Rightarrow> (uuid \<Rightarrow> rstring) \<Rightarrow> (rstring \<Rightarrow> (uuid, rstring) result) \<Rightarrow> instant \<Rightarrow> 'r token_store" where
  "RedisTokenStore R show_uuid parse_uuid now =
     \<lparr>tk_create = RedisTokenStore_create R show_uuid None, tk_resolve = RedisTokenStore_resolve R parse_uuid None,
      tk_revoke_player = RedisTokenStore_revoke_player R show_uuid None now\<rparr>"

section \<open>The documented behaviour of the server\<close>

text \<open>
  \<open>view r t k\<close> is the value that a command running at \<open>t\<close> finds under the key \<open>k\<close>, if no
  other command runs before. A value disappears when its time is over and does not come back;
  a command that fails changes nothing.
\<close>

definition redis_effect ::
  "('r \<Rightarrow> int \<Rightarrow> rstring \<Rightarrow> redis_value option) \<Rightarrow> int \<Rightarrow> rstring \<Rightarrow> (int \<Rightarrow> redis_value option)
     \<Rightarrow> (unit, rstring) result \<times> 'r \<Rightarrow> 'r \<Rightarrow> bool" where
  "redis_effect view now k f res r \<longleftrightarrow>
     (\<forall>t \<ge> now. \<forall>k'. view (snd res) t k' = (if k' = k \<and> is_ok (fst res) then f t else view r t k'))"

fun rset_add :: "rstring \<Rightarrow> redis_value \<Rightarrow> redis_value" where
  "rset_add x (RSet S) = RSet (insert x S)"
| "rset_add x (RStr s) = RStr s"

definition redis_spec :: "'r redis \<Rightarrow> ('r \<Rightarrow> int \<Rightarrow> rstring \<Rightarrow> redis_value option) \<Rightarrow> bool" where
  "redis_spec R view \<longleftrightarrow>
     (\<forall>r k t t' v. t \<le> t' \<longrightarrow> view r t' k = Some v \<longrightarrow> view r t k = Some v) \<and>
     (\<forall>now k r xs. rd_smembers R now k r = Ok xs \<longrightarrow>
        (case view r now k of None \<Rightarrow> xs = [] | Some (RSet S) \<Rightarrow> set xs = S | Some (RStr s) \<Rightarrow> False)) \<and>
     (\<forall>now k r. case view r now k of
        None \<Rightarrow> rd_get R now k r = Ok None
      | Some (RStr s) \<Rightarrow> rd_get R now k r = Ok (Some s)
      | Some (RSet S) \<Rightarrow> is_err (rd_get R now k r)) \<and>
     (\<forall>now k r. redis_effect view now k (\<lambda>_. None) (rd_del R now k r) r) \<and>
     (\<forall>now k x r. redis_effect view now k
        (\<lambda>t. if view r now k = None then Some (RSet {x}) else map_option (rset_add x) (view r t k))
        (rd_sadd R now k x r) r) \<and>
     (\<forall>now k ms r. redis_effect view now k
        (\<lambda>t. if t < now + uint ms then view r now k else None) (rd_pexpire R now k ms r) r) \<and>
     (\<forall>now k v ms r. redis_effect view now k
        (\<lambda>t. if t < now + uint ms then Some (RStr v) else None) (rd_set_px R now k v ms r) r)"

text \<open>The text form of an identifier can be read back.\<close>

definition uuid_text :: "(uuid \<Rightarrow> rstring) \<Rightarrow> (rstring \<Rightarrow> (uuid, rstring) result) \<Rightarrow> bool" where
  "uuid_text show_uuid parse_uuid \<longleftrightarrow> (\<forall>u. parse_uuid (show_uuid u) = Ok u)"

section \<open>Keys and values\<close>

lemma token_key_inject [simp]: "token_key x = token_key y \<longleftrightarrow> x = y"
  by (simp add: token_key_def)

lemma key_spaces_disjoint [simp]:
  "token_key x \<noteq> player_index_key f p" "player_index_key f p \<noteq> token_key x"
  by (simp_all add: token_key_def player_index_key_def ascii_def of_char_def)

lemma uuid_text_inject: "uuid_text f g \<Longrightarrow> f u = f v \<longleftrightarrow> u = v"
  unfolding uuid_text_def by (metis result.inject(1))

lemma player_index_key_inject: "uuid_text f g \<Longrightarrow> player_index_key f p = player_index_key f q \<longleftrightarrow> p = q"
  by (cases p; cases q) (auto simp: player_index_key_def uuid_text_inject)

lemma fill_hex_concat: "fill_hex bytes hex = hex @ concat (map hex2 bytes)"
  by (induction bytes arbitrary: hex) auto

text \<open>Both token stores draw their tokens in the same form.\<close>

lemma redis_random_token_eq: "redis_random_token bytes = random_token bytes"
  by (simp add: redis_random_token_def random_token_def fill_hex_concat)

lemma as_millis_mono: "a \<le> b \<Longrightarrow> as_millis a \<le> as_millis b"
  by (simp add: as_millis_def zdiv_mono1)

definition redis_alive :: "instant \<Rightarrow> duration \<Rightarrow> instant \<Rightarrow> bool" where
  "redis_alive now ttl at \<longleftrightarrow>
     (case token_ttl_ms ttl of Ok ms \<Rightarrow> as_millis at < as_millis now + uint ms | Err _ \<Rightarrow> False)"

lemma token_ttl_ms_Ok:
  assumes "0 \<le> ttl" and "token_ttl_ms ttl = Ok ms"
  shows "uint ms = max (as_millis ttl) 1"
proof -
  have b: "0 \<le> as_millis ttl" "as_millis ttl < 2 ^ 64" and ms: "ms = max (word_of_int (as_millis ttl)) 1"
    using assms by (auto simp: token_ttl_ms_def as_millis_def pos_imp_zdiv_nonneg_iff split: if_splits)
  have "uint (word_of_int (as_millis ttl) :: u64) = as_millis ttl"
    using b by (simp add: uint_word_of_int)
  then show ?thesis using ms by (auto simp: max_def word_le_def)
qed

section \<open>The invariant of the two key spaces\<close>

text \<open>
  From \<open>now\<close> on, a token names a player whose index lists it, and an index lists no token of
  another player.
\<close>

definition redis_inv ::
  "('r \<Rightarrow> int \<Rightarrow> rstring \<Rightarrow> redis_value option) \<Rightarrow> (uuid \<Rightarrow> rstring) \<Rightarrow> int \<Rightarrow> 'r \<Rightarrow> bool" where
  "redis_inv view show_uuid now r \<longleftrightarrow>
     (\<forall>t \<ge> now.
        (\<forall>x v. view r t (token_key x) = Some v \<longrightarrow>
           (\<exists>q S. v = RStr (show_uuid (player_uuid q)) \<and> view r t (player_index_key show_uuid q) = Some (RSet S) \<and> x \<in> S)) \<and>
        (\<forall>q v. view r t (player_index_key show_uuid q) = Some v \<longrightarrow>
           (\<exists>S. v = RSet S \<and> (\<forall>x \<in> S. view r t (token_key x) = None \<or>
                                     view r t (token_key x) = Some (RStr (show_uuid (player_uuid q)))))))"

definition redis_known ::
  "('r \<Rightarrow> int \<Rightarrow> rstring \<Rightarrow> redis_value option) \<Rightarrow> (uuid \<Rightarrow> rstring) \<Rightarrow> int \<Rightarrow> rstring \<Rightarrow> 'r \<Rightarrow> bool" where
  "redis_known view show_uuid now x r \<longleftrightarrow>
     (\<exists>t \<ge> now. view r t (token_key x) \<noteq> None \<or>
        (\<exists>q S. view r t (player_index_key show_uuid q) = Some (RSet S) \<and> x \<in> S))"

text \<open>No token of the player is left.\<close>

definition no_tokens ::
  "('r \<Rightarrow> int \<Rightarrow> rstring \<Rightarrow> redis_value option) \<Rightarrow> (uuid \<Rightarrow> rstring) \<Rightarrow> int \<Rightarrow> player_id \<Rightarrow> 'r \<Rightarrow> bool" where
  "no_tokens view show_uuid now p r \<longleftrightarrow>
     (\<forall>t \<ge> now. \<forall>x. view r t (token_key x) \<noteq> Some (RStr (show_uuid (player_uuid p))))"

lemma redis_specD:
  assumes "redis_spec R view"
  shows "t \<le> t' \<Longrightarrow> view r t' k = Some v \<Longrightarrow> view r t k = Some v"
    and "rd_smembers R now k r = Ok xs \<Longrightarrow> view r now k = None \<and> xs = [] \<or> (\<exists>S. view r now k = Some (RSet S) \<and> set xs = S)"
    and "redis_effect view now k (\<lambda>_. None) (rd_del R now k r) r"
    and "redis_effect view now k
        (\<lambda>t. if view r now k = None then Some (RSet {x}) else map_option (rset_add x) (view r t k)) (rd_sadd R now k x r) r"
    and "redis_effect view now k (\<lambda>t. if t < now + uint ms then view r now k else None) (rd_pexpire R now k ms r) r"
    and "redis_effect view now k (\<lambda>t. if t < now + uint ms then Some (RStr w) else None) (rd_set_px R now k w ms r) r"
    and "view r now k = None \<Longrightarrow> rd_get R now k r = Ok None"
    and "view r now k = Some (RStr w) \<Longrightarrow> rd_get R now k r = Ok (Some w)"
proof -
  note law = assms [unfolded redis_spec_def]
  show "t \<le> t' \<Longrightarrow> view r t' k = Some v \<Longrightarrow> view r t k = Some v" using law [THEN conjunct1] by blast
  show "rd_smembers R now k r = Ok xs \<Longrightarrow> view r now k = None \<and> xs = [] \<or> (\<exists>S. view r now k = Some (RSet S) \<and> set xs = S)"
    using law [THEN conjunct2, THEN conjunct1, rule_format, of now k r xs]
    by (auto split: option.splits redis_value.splits)
  note get = law [THEN conjunct2, THEN conjunct2, THEN conjunct1, rule_format, of now k r]
  show "view r now k = None \<Longrightarrow> rd_get R now k r = Ok None"
    "view r now k = Some (RStr w) \<Longrightarrow> rd_get R now k r = Ok (Some w)"
    using get by simp_all
qed (use assms in \<open>simp_all add: redis_spec_def\<close>)

lemma redis_effectD:
  "redis_effect view now k f (res, r') r \<Longrightarrow> now \<le> t \<Longrightarrow> view r' t k' = (if k' = k \<and> is_ok res then f t else view r t k')"
  by (auto simp: redis_effect_def)

section \<open>What the scripts do\<close>

lemma inv_del_token:
  assumes "redis_effect view now (token_key x) (\<lambda>_. None) (res, r') r" and "redis_inv view f now r"
  shows "redis_inv view f now r'"
  using assms(2) unfolding redis_inv_def
  by (auto simp: redis_effectD [OF assms(1)] split: if_splits) blast+

text \<open>The index of a player without tokens may be replaced by any list of unused tokens.\<close>

lemma inv_index:
  assumes eff: "redis_effect view now (player_index_key f p) h (res, r') r" and inv: "redis_inv view f now r"
    and none: "no_tokens view f now p r" and ut: "uuid_text f g"
    and h: "\<And>t. now \<le> t \<Longrightarrow> h t = None \<or> (\<exists>S. h t = Some (RSet S) \<and> (\<forall>x \<in> S. view r t (token_key x) = None))"
  shows "redis_inv view f now r' \<and> no_tokens view f now p r'"
proof -
  note e = redis_effectD [OF eff]
  have inj: "player_index_key f q = player_index_key f p \<longleftrightarrow> q = p" for q by (rule player_index_key_inject [OF ut])
  have "redis_inv view f now r'"
    unfolding redis_inv_def
  proof (intro allI impI conjI)
    fix t x v
    assume t: "now \<le> t" and "view r' t (token_key x) = Some v"
    then have v: "view r t (token_key x) = Some v" by (simp add: e)
    then obtain q S where q: "v = RStr (f (player_uuid q))" "view r t (player_index_key f q) = Some (RSet S)" "x \<in> S"
      using inv [unfolded redis_inv_def, rule_format, OF t, THEN conjunct1] by blast
    moreover have "q \<noteq> p" using none v q(1) t by (auto simp: no_tokens_def)
    ultimately show "\<exists>q S. v = RStr (f (player_uuid q)) \<and> view r' t (player_index_key f q) = Some (RSet S) \<and> x \<in> S"
      using t by (auto simp: e inj)
  next
    fix t q v
    assume t: "now \<le> t" and v: "view r' t (player_index_key f q) = Some v"
    show "\<exists>S. v = RSet S \<and> (\<forall>x\<in>S. view r' t (token_key x) = None \<or>
        view r' t (token_key x) = Some (RStr (f (player_uuid q))))"
    proof (cases "q = p \<and> is_ok res")
      case True
      with v h [OF t] show ?thesis using t by (auto simp: e inj)
    next
      case False
      with v t inv [unfolded redis_inv_def, rule_format, OF t, THEN conjunct2] show ?thesis by (auto simp: e inj)
    qed
  qed
  moreover have "no_tokens view f now p r'" using none by (simp add: no_tokens_def e)
  ultimately show ?thesis ..
qed

lemma del_tokens:
  assumes "redis_spec R view" and "lua_del_tokens R now ts r = (res, r')" and "redis_inv view f now r"
  shows "redis_inv view f now r'"
    and "now \<le> t \<Longrightarrow> (\<And>x. x \<in> set ts \<Longrightarrow> k \<noteq> token_key x) \<Longrightarrow> view r' t k = view r t k"
    and "now \<le> t \<Longrightarrow> view r' t (token_key x) = None \<or> view r' t (token_key x) = view r t (token_key x)"
    and "res = Ok () \<Longrightarrow> now \<le> t \<Longrightarrow> x \<in> set ts \<Longrightarrow> view r' t (token_key x) = None"
proof -
  have "redis_inv view f now r' \<and>
      (\<forall>t \<ge> now. \<forall>k. (\<forall>x \<in> set ts. k \<noteq> token_key x) \<longrightarrow> view r' t k = view r t k) \<and>
      (\<forall>t \<ge> now. \<forall>x. view r' t (token_key x) = None \<or> view r' t (token_key x) = view r t (token_key x)) \<and>
      (res = Ok () \<longrightarrow> (\<forall>t \<ge> now. \<forall>x \<in> set ts. view r' t (token_key x) = None))"
    using assms(2,3)
  proof (induction ts arbitrary: r)
    case (Cons y ys)
    obtain d r1 where d: "rd_del R now (token_key y) r = (d, r1)" by (cases "rd_del R now (token_key y) r")
    have eff: "redis_effect view now (token_key y) (\<lambda>_. None) (d, r1) r"
      using redis_specD(3) [OF assms(1), of now "token_key y" r] d by simp
    have inv1: "redis_inv view f now r1" by (rule inv_del_token [OF eff Cons.prems(2)])
    note e = redis_effectD [OF eff]
    show ?case
    proof (cases d)
      case (Ok u)
      with Cons.prems(1) d have "lua_del_tokens R now ys r1 = (res, r')" by (simp add: token_key_def)
      from Cons.IH [OF this inv1] Ok show ?thesis by (auto simp: e) (metis+)
    next
      case (Err er)
      with Cons.prems(1) d have "r' = r1" "res = Err er" by (auto simp: token_key_def)
      with inv1 Err show ?thesis by (simp add: e)
    qed
  qed simp
  note all = this
  show "redis_inv view f now r'" using all by blast
  show "now \<le> t \<Longrightarrow> (\<And>x. x \<in> set ts \<Longrightarrow> k \<noteq> token_key x) \<Longrightarrow> view r' t k = view r t k" using all by blast
  show "now \<le> t \<Longrightarrow> view r' t (token_key x) = None \<or> view r' t (token_key x) = view r t (token_key x)" using all by blast
  show "res = Ok () \<Longrightarrow> now \<le> t \<Longrightarrow> x \<in> set ts \<Longrightarrow> view r' t (token_key x) = None" using all by blast
qed

text \<open>Both scripts first delete the tokens that the index of the player lists.\<close>

lemma forget_stage:
  assumes spec: "redis_spec R view" and ut: "uuid_text f g" and inv: "redis_inv view f now r"
    and mem: "rd_smembers R now (player_index_key f p) r = Ok old" and del: "lua_del_tokens R now old r = (res, r1)"
  shows "redis_inv view f now r1"
    and "res = Ok () \<Longrightarrow> no_tokens view f now p r1"
    and "now \<le> t \<Longrightarrow> view r t (token_key x) \<noteq> Some (RStr (f (player_uuid p))) \<Longrightarrow>
           view r1 t (token_key x) = view r t (token_key x)"
    and "res = Ok () \<Longrightarrow> now \<le> t \<Longrightarrow> view r t (token_key x) = Some (RStr (f (player_uuid p))) \<Longrightarrow>
           view r1 t (token_key x) = None"
proof -
  note d = del_tokens [OF spec del inv]
  show "redis_inv view f now r1" by (rule d(1))
  have listed: "x \<in> set old" if t: "now \<le> t" and v: "view r t (token_key x) = Some (RStr (f (player_uuid p)))" for t x
  proof -
    obtain q S where q: "f (player_uuid p) = f (player_uuid q)" "view r t (player_index_key f q) = Some (RSet S)" "x \<in> S"
      using inv [unfolded redis_inv_def, rule_format, OF t, THEN conjunct1] v by blast
    have "q = p" using q(1) uuid_text_inject [OF ut] by (cases p; cases q) simp
    with q redis_specD(1) [OF spec t] have "view r now (player_index_key f p) = Some (RSet S)" by blast
    with redis_specD(2) [OF spec mem] q(3) show ?thesis by auto
  qed
  show gone: "view r1 t (token_key x) = None"
    if "res = Ok ()" "now \<le> t" "view r t (token_key x) = Some (RStr (f (player_uuid p)))" for t x
    by (rule d(4) [OF that(1,2) listed [OF that(2,3)]])
  show kept: "view r1 t (token_key x) = view r t (token_key x)"
    if t: "now \<le> t" and n: "view r t (token_key x) \<noteq> Some (RStr (f (player_uuid p)))" for t x
  proof (cases "view r t (token_key x)")
    case None
    then show ?thesis using d(3) [OF t, of x] by auto
  next
    case (Some v)
    have "x \<notin> set old"
    proof
      assume x: "x \<in> set old"
      then obtain S where S: "view r now (player_index_key f p) = Some (RSet S)" "x \<in> S"
        using redis_specD(2) [OF spec mem] by auto
      have "view r now (token_key x) = Some v" using redis_specD(1) [OF spec t Some] .
      with inv [unfolded redis_inv_def, rule_format, of now, THEN conjunct2] S n Some show False by fastforce
    qed
    with d(2) [OF t, of "token_key x"] show ?thesis by auto
  qed
  show "no_tokens view f now p r1" if ok: "res = Ok ()"
    unfolding no_tokens_def using gone [OF ok] kept by (metis option.distinct(1))
qed

text \<open>A token that is in nobody's hands.\<close>

definition unissued ::
  "('r \<Rightarrow> int \<Rightarrow> rstring \<Rightarrow> redis_value option) \<Rightarrow> (uuid \<Rightarrow> rstring) \<Rightarrow> int \<Rightarrow> player_id \<Rightarrow> rstring \<Rightarrow> 'r \<Rightarrow> bool" where
  "unissued view f now p x r \<longleftrightarrow>
     (\<forall>t \<ge> now. view r t (token_key x) = None \<and>
        (\<forall>q S. q \<noteq> p \<longrightarrow> view r t (player_index_key f q) = Some (RSet S) \<longrightarrow> x \<notin> S))"

lemma not_known_unissued: "\<not> redis_known view f now x r \<Longrightarrow> unissued view f now p x r"
  by (auto simp: redis_known_def unissued_def)

lemma unissued_del_tokens:
  assumes "redis_spec R view" and "lua_del_tokens R now ts r = (res, r')" and "redis_inv view f now r"
    and "unissued view f now p x r"
  shows "unissued view f now p x r'"
proof -
  note d = del_tokens [OF assms(1-3)]
  have "view r' t (player_index_key f q) = view r t (player_index_key f q)" if "now \<le> t" for t q
    by (rule d(2) [OF that]) simp
  moreover have "view r' t (token_key x) = None" if "now \<le> t" for t
    using d(3) [OF that, of x] assms(4) that by (auto simp: unissued_def)
  ultimately show ?thesis using assms(4) by (simp add: unissued_def)
qed

lemma unissued_index:
  assumes "redis_effect view now (player_index_key f p) h (res, r') r" and "unissued view f now p x r" and "uuid_text f g"
  shows "unissued view f now p x r'"
  using assms(2) by (simp add: unissued_def redis_effectD [OF assms(1)] player_index_key_inject [OF assms(3)])

lemma inv_set_token:
  assumes eff: "redis_effect view now (token_key x) (\<lambda>t. if t < now + ms then Some (RStr (f (player_uuid p))) else None) (res, r') r"
    and inv: "redis_inv view f now r" and un: "unissued view f now p x r"
    and idx: "\<And>t. now \<le> t \<Longrightarrow> view r t (player_index_key f p) = (if t < now + ms then Some (RSet {x}) else None)"
  shows "redis_inv view f now r'"
proof -
  note e = redis_effectD [OF eff]
  show ?thesis
    unfolding redis_inv_def
  proof (intro allI impI conjI)
    fix t y v
    assume t: "now \<le> t" and v: "view r' t (token_key y) = Some v"
    show "\<exists>q S. v = RStr (f (player_uuid q)) \<and> view r' t (player_index_key f q) = Some (RSet S) \<and> y \<in> S"
    proof (cases "y = x \<and> is_ok res")
      case True
      with v t show ?thesis by (intro exI [of _ p] exI [of _ "{x}"]) (auto simp: e idx split: if_splits)
    next
      case False
      with v t inv [unfolded redis_inv_def, rule_format, OF t, THEN conjunct1] show ?thesis by (auto simp: e)
    qed
  next
    fix t q v
    assume t: "now \<le> t" and "view r' t (player_index_key f q) = Some v"
    then have v: "view r t (player_index_key f q) = Some v" by (simp add: e)
    then obtain S where S: "v = RSet S"
      "\<forall>y\<in>S. view r t (token_key y) = None \<or> view r t (token_key y) = Some (RStr (f (player_uuid q)))"
      using inv [unfolded redis_inv_def, rule_format, OF t, THEN conjunct2] by blast
    moreover have "x \<notin> S" if "q \<noteq> p" using un t v S(1) that by (auto simp: unissued_def)
    ultimately show "\<exists>S. v = RSet S \<and> (\<forall>y\<in>S. view r' t (token_key y) = None \<or>
        view r' t (token_key y) = Some (RStr (f (player_uuid q))))"
      using t by (cases "q = p") (auto simp: e)
  qed
qed

lemma st_then_cases:
  assumes "st_then x g = (res, s')"
  obtains (err) e where "x = (Err e, s')" "res = Err e" | (ok) a s where "x = (Ok a, s)" "g a s = (res, s')"
  using assms by (cases x; cases "fst x") (auto simp: st_then_def)

text \<open>The second half of the create script, on a store without tokens of the player.\<close>

lemma create_tail:
  assumes spec: "redis_spec R view" and ut: "uuid_text f g" and inv: "redis_inv view f now r"
    and none: "no_tokens view f now p r" and un: "unissued view f now p x r"
    and run: "st_then (rd_del R now (player_index_key f p) r) (\<lambda>_ r2.
          st_then (rd_sadd R now (player_index_key f p) x r2) (\<lambda>_ r3.
          st_then (rd_pexpire R now (player_index_key f p) ms r3) (\<lambda>_ r4.
          rd_set_px R now (token_key x) (f (player_uuid p)) ms r4))) = (res, r')"
  shows "redis_inv view f now r' \<and>
    (\<forall>t y. now \<le> t \<longrightarrow> view r' t (token_key y) =
       (if y = x \<and> res = Ok () then if t < now + uint ms then Some (RStr (f (player_uuid p))) else None
        else view r t (token_key y)))"
proof -
  let ?i = "player_index_key f p"
  obtain d2 r2 where del: "rd_del R now ?i r = (d2, r2)" by (cases "rd_del R now ?i r")
  have e2: "redis_effect view now ?i (\<lambda>_. None) (d2, r2) r" using redis_specD(3) [OF spec, of now ?i r] del by simp
  note i2 = inv_index [OF e2 inv none ut disjI1, OF refl] and u2 = unissued_index [OF e2 un ut]
  note k2 = redis_effectD [OF e2]
  from run show ?thesis
  proof (cases rule: st_then_cases)
    case (err e)
    with del i2 show ?thesis by (auto simp: k2)
  next
    case (ok a s)
    then have d2: "d2 = Ok ()" "s = r2" using del by auto
    obtain d3 r3 where add: "rd_sadd R now ?i x r2 = (d3, r3)" by (cases "rd_sadd R now ?i x r2")
    let ?h = "\<lambda>t. if view r2 now ?i = None then Some (RSet {x}) else map_option (rset_add x) (view r2 t ?i)"
    have e3: "redis_effect view now ?i ?h (d3, r3) r2" using redis_specD(4) [OF spec, of now ?i r2 x] add by simp
    have h: "?h t = Some (RSet {x})" for t using k2 [of now ?i] d2 by simp
    have i3: "redis_inv view f now r3 \<and> no_tokens view f now p r3"
      by (rule inv_index [OF e3 _ _ ut]) (use i2 u2 h in \<open>auto simp: unissued_def\<close>)
    note u3 = unissued_index [OF e3 u2 ut] and k3 = redis_effectD [OF e3, unfolded h]
    from ok(2) [unfolded d2] show ?thesis
    proof (cases rule: st_then_cases)
      case (err e)
      with add i3 show ?thesis by (auto simp: k2 k3)
    next
      case (ok a s)
      then have d3: "d3 = Ok ()" "s = r3" using add by auto
      obtain d4 r4 where ex: "rd_pexpire R now ?i ms r3 = (d4, r4)" by (cases "rd_pexpire R now ?i ms r3")
      let ?h = "\<lambda>t. if t < now + uint ms then view r3 now ?i else None"
      have e4: "redis_effect view now ?i ?h (d4, r4) r3" using redis_specD(5) [OF spec, of now ?i ms r3] ex by simp
      have h: "?h t = (if t < now + uint ms then Some (RSet {x}) else None)" for t using k3 [of now ?i] d3 by simp
      have i4: "redis_inv view f now r4 \<and> no_tokens view f now p r4"
        by (rule inv_index [OF e4 _ _ ut]) (use i3 u3 h in \<open>auto simp: unissued_def\<close>)
      note u4 = unissued_index [OF e4 u3 ut] and k4 = redis_effectD [OF e4, unfolded h]
      from ok(2) [unfolded d3] show ?thesis
      proof (cases rule: st_then_cases)
        case (err e)
        with ex i4 show ?thesis by (auto simp: k2 k3 k4)
      next
        case (ok a s)
        then have d4: "d4 = Ok ()" "s = r4" using ex by auto
        have e5: "redis_effect view now (token_key x)
            (\<lambda>t. if t < now + uint ms then Some (RStr (f (player_uuid p))) else None) (res, r') r4"
          using redis_specD(6) [OF spec, of now "token_key x" ms "f (player_uuid p)" r4] ok(2) d4 by simp
        have "redis_inv view f now r'"
          by (rule inv_set_token [OF e5 _ u4]) (use i4 k4 d4 in auto)
        then show ?thesis
          by (auto simp: redis_effectD [OF e5] k4 k3 k2) (cases res; simp)+
      qed
    qed
  qed
qed

lemma create_script_effect:
  assumes spec: "redis_spec R view" and ut: "uuid_text f g" and inv: "redis_inv view f now r"
    and un: "\<not> redis_known view f now x r"
    and run: "create_script R now (player_index_key f p) (token_key x) (f (player_uuid p)) ms x r = (res, r')"
  shows "redis_inv view f now r'"
    and "now \<le> t \<Longrightarrow> y \<noteq> x \<Longrightarrow> view r t (token_key y) \<noteq> Some (RStr (f (player_uuid p))) \<Longrightarrow>
           view r' t (token_key y) = view r t (token_key y)"
    and "res = Ok () \<Longrightarrow> now \<le> t \<Longrightarrow> view r' t (token_key y) =
           (if y = x then if t < now + uint ms then Some (RStr (f (player_uuid p))) else None
            else if view r t (token_key y) = Some (RStr (f (player_uuid p))) then None else view r t (token_key y))"
proof -
  let ?i = "player_index_key f p"
  have "redis_inv view f now r' \<and>
    (\<forall>t y. now \<le> t \<longrightarrow> y \<noteq> x \<longrightarrow> view r t (token_key y) \<noteq> Some (RStr (f (player_uuid p))) \<longrightarrow>
       view r' t (token_key y) = view r t (token_key y)) \<and>
    (res = Ok () \<longrightarrow> (\<forall>t y. now \<le> t \<longrightarrow> view r' t (token_key y) =
       (if y = x then if t < now + uint ms then Some (RStr (f (player_uuid p))) else None
        else if view r t (token_key y) = Some (RStr (f (player_uuid p))) then None else view r t (token_key y))))"
  proof (cases "rd_smembers R now ?i r")
    case (Err e)
    with run inv show ?thesis by (auto simp: create_script_def)
  next
    case (Ok old)
    obtain d r1 where del: "lua_del_tokens R now old r = (d, r1)" by (cases "lua_del_tokens R now old r")
    note fs = forget_stage [OF spec ut inv Ok del]
    show ?thesis
    proof (cases d)
      case (Err e)
      then have "r' = r1" "res = Err e" using run Ok del by (auto simp: create_script_def)
      with fs(1,3) show ?thesis by auto
    next
      case ok: (Ok u)
      then have d: "d = Ok ()" by simp
      have tail: "redis_inv view f now r' \<and>
        (\<forall>t y. now \<le> t \<longrightarrow> view r' t (token_key y) =
           (if y = x \<and> res = Ok () then if t < now + uint ms then Some (RStr (f (player_uuid p))) else None
            else view r1 t (token_key y)))"
        by (rule create_tail [OF spec ut fs(1) fs(2) [OF d]
              unissued_del_tokens [OF spec del inv not_known_unissued [OF un]]])
          (use run Ok del d in \<open>simp add: create_script_def\<close>)
      then show ?thesis using fs(3) fs(4) [OF d] by auto
    qed
  qed
  note all = this
  show "redis_inv view f now r'" using all by blast
  show "now \<le> t \<Longrightarrow> y \<noteq> x \<Longrightarrow> view r t (token_key y) \<noteq> Some (RStr (f (player_uuid p))) \<Longrightarrow>
      view r' t (token_key y) = view r t (token_key y)" using all by blast
  show "res = Ok () \<Longrightarrow> now \<le> t \<Longrightarrow> view r' t (token_key y) =
      (if y = x then if t < now + uint ms then Some (RStr (f (player_uuid p))) else None
       else if view r t (token_key y) = Some (RStr (f (player_uuid p))) then None else view r t (token_key y))"
    using all by blast
qed

lemma revoke_script_effect:
  assumes spec: "redis_spec R view" and ut: "uuid_text f g" and inv: "redis_inv view f now r"
    and run: "revoke_script R now (player_index_key f p) r = (res, r')"
  shows "redis_inv view f now r'"
    and "res = Ok () \<Longrightarrow> now \<le> t \<Longrightarrow> view r' t (token_key y) =
           (if view r t (token_key y) = Some (RStr (f (player_uuid p))) then None else view r t (token_key y))"
proof -
  let ?i = "player_index_key f p"
  have "redis_inv view f now r' \<and>
    (res = Ok () \<longrightarrow> (\<forall>t y. now \<le> t \<longrightarrow> view r' t (token_key y) =
       (if view r t (token_key y) = Some (RStr (f (player_uuid p))) then None else view r t (token_key y))))"
  proof (cases "rd_smembers R now ?i r")
    case (Err e)
    with run inv show ?thesis by (auto simp: revoke_script_def)
  next
    case (Ok old)
    obtain d r1 where del: "lua_del_tokens R now old r = (d, r1)" by (cases "lua_del_tokens R now old r")
    note fs = forget_stage [OF spec ut inv Ok del]
    show ?thesis
    proof (cases d)
      case (Err e)
      then have "r' = r1" "res = Err e" using run Ok del by (auto simp: revoke_script_def)
      with fs(1) show ?thesis by simp
    next
      case ok: (Ok u)
      then have d: "d = Ok ()" by simp
      have "rd_del R now ?i r1 = (res, r')" using run Ok del d by (simp add: revoke_script_def)
      then have e: "redis_effect view now ?i (\<lambda>_. None) (res, r') r1"
        using redis_specD(3) [OF spec, of now ?i r1] by simp
      from inv_index [OF e fs(1) fs(2) [OF d] ut disjI1, OF refl] fs(3) fs(4) [OF d] show ?thesis
        by (auto simp: redis_effectD [OF e])
    qed
  qed
  note all = this
  show "redis_inv view f now r'" using all by blast
  show "res = Ok () \<Longrightarrow> now \<le> t \<Longrightarrow> view r' t (token_key y) =
      (if view r t (token_key y) = Some (RStr (f (player_uuid p))) then None else view r t (token_key y))"
    using all by blast
qed

section \<open>The store keeps the contract of a token store\<close>

lemma redis_resolve_view:
  assumes spec: "redis_spec R view" and ut: "uuid_text f g" and inv: "redis_inv view f now r" and t: "now \<le> as_millis at"
  shows "RedisTokenStore_resolve R g None at x r =
    Ok (case view r (as_millis at) (token_key x) of
          None \<Rightarrow> None
        | Some v \<Rightarrow> Some (SOME q. v = RStr (f (player_uuid q))))"
    and "RedisTokenStore_resolve R g None at x r = Ok (Some p) \<longleftrightarrow>
      view r (as_millis at) (token_key x) = Some (RStr (f (player_uuid p)))"
    and "RedisTokenStore_resolve R g None at x r = Ok None \<longleftrightarrow> view r (as_millis at) (token_key x) = None"
proof -
  have all: "RedisTokenStore_resolve R g None at x r =
      Ok (case view r (as_millis at) (token_key x) of None \<Rightarrow> None
          | Some v \<Rightarrow> Some (SOME q. v = RStr (f (player_uuid q)))) \<and>
    (RedisTokenStore_resolve R g None at x r = Ok (Some p) \<longleftrightarrow>
      view r (as_millis at) (token_key x) = Some (RStr (f (player_uuid p)))) \<and>
    (RedisTokenStore_resolve R g None at x r = Ok None \<longleftrightarrow> view r (as_millis at) (token_key x) = None)"
  proof (cases "view r (as_millis at) (token_key x)")
    case None
    then show ?thesis by (simp add: RedisTokenStore_resolve_def redis_specD(7) [OF spec])
  next
    case (Some v)
    obtain q where q: "v = RStr (f (player_uuid q))"
      using inv [unfolded redis_inv_def, rule_format, OF t, THEN conjunct1] Some by blast
    have eq: "f (player_uuid q) = f (player_uuid q') \<longleftrightarrow> q = q'" for q'
      using uuid_text_inject [OF ut] by (cases q; cases q') simp
    have "RedisTokenStore_resolve R g None at x r = Ok (Some q)"
      using redis_specD(8) [OF spec] Some q ut by (cases q) (simp add: RedisTokenStore_resolve_def uuid_text_def)
    then show ?thesis using Some q eq by auto
  qed
  show "RedisTokenStore_resolve R g None at x r =
    Ok (case view r (as_millis at) (token_key x) of None \<Rightarrow> None
        | Some v \<Rightarrow> Some (SOME q. v = RStr (f (player_uuid q))))" using all by blast
  show "RedisTokenStore_resolve R g None at x r = Ok (Some p) \<longleftrightarrow>
      view r (as_millis at) (token_key x) = Some (RStr (f (player_uuid p)))" using all by blast
  show "RedisTokenStore_resolve R g None at x r = Ok None \<longleftrightarrow> view r (as_millis at) (token_key x) = None"
    using all by blast
qed

text \<open>However the call ends, the script has run as a whole, has stopped at a failed command, or has not run.\<close>

lemma redis_create_cases:
  assumes "RedisTokenStore_create R f fault bytes now p ttl r = (res, r')"
  obtains (unchanged) e where "res = Err e" "r' = r"
  | (ran) ms o' where "token_ttl_ms ttl = Ok ms"
      "create_script R (as_millis now) (player_index_key f p) (token_key (random_token bytes)) (f (player_uuid p)) ms
         (random_token bytes) r = (o', r')"
      "is_ok res \<Longrightarrow> o' = Ok () \<and> res = Ok (random_token bytes)"
  using assms
  by (auto simp: RedisTokenStore_create_def redis_invoke_def redis_random_token_eq Let_def
      split: result.splits prod.splits option.splits redis_fault.splits) (metis prod.collapse)+

lemma redis_revoke_cases:
  assumes "RedisTokenStore_revoke_player R f fault now p r = (res, r')"
  obtains (unchanged) e where "res = Err e" "r' = r"
  | (ran) o' where "revoke_script R (as_millis now) (player_index_key f p) r = (o', r')" "is_ok res \<Longrightarrow> o' = Ok ()"
  using assms
  by (auto simp: RedisTokenStore_revoke_player_def redis_invoke_def
      split: result.splits prod.splits option.splits redis_fault.splits) (metis prod.collapse)+

lemma redis_contract:
  assumes spec: "redis_spec R view" and ut: "uuid_text f g"
  shows "expiring_token_store (RedisTokenStore_create R f fault) (RedisTokenStore_resolve R g None)
    (RedisTokenStore_revoke_player R f fault') random_token (\<lambda>now. redis_known view f (as_millis now))
    (\<lambda>now. redis_inv view f (as_millis now)) redis_alive"
proof
  fix now now' at :: instant and r r' :: 'a and bytes p q ttl t t'
  note ms = as_millis_mono
  show later: "redis_inv view f (as_millis now) r \<Longrightarrow> now \<le> now' \<Longrightarrow> redis_inv view f (as_millis now') r" for now now' r
    unfolding redis_inv_def using ms [of now now'] by (meson order_trans)
  show inv: "redis_inv view f (as_millis now) (snd (RedisTokenStore_create R f fault bytes now p ttl r))"
    if "redis_inv view f (as_millis now) r" "\<not> redis_known view f (as_millis now) (random_token bytes) r"
    for now r bytes p ttl
  proof -
    have "RedisTokenStore_create R f fault bytes now p ttl r =
        (fst (RedisTokenStore_create R f fault bytes now p ttl r), snd (RedisTokenStore_create R f fault bytes now p ttl r))"
      by simp
    then show ?thesis using that create_script_effect(1) [OF spec ut that] by (cases rule: redis_create_cases) auto
  qed
  show tok: "RedisTokenStore_create R f fault bytes now p ttl r = (Ok t, r') \<Longrightarrow> t = random_token bytes"
    for bytes now p ttl r t r'
    by (erule redis_create_cases) auto
  show "RedisTokenStore_resolve R g None at t' r' =
      (if t' = t then Ok (if redis_alive now ttl at then Some p else None)
       else if RedisTokenStore_resolve R g None at t' r = Ok (Some p) then Ok None
       else RedisTokenStore_resolve R g None at t' r)"
    if i: "redis_inv view f (as_millis now) r" "\<not> redis_known view f (as_millis now) (random_token bytes) r"
      and c: "RedisTokenStore_create R f fault bytes now p ttl r = (Ok t, r')" and at: "now \<le> at"
  proof -
    from c obtain ms' where m: "token_ttl_ms ttl = Ok ms'" and
      run: "create_script R (as_millis now) (player_index_key f p) (token_key (random_token bytes)) (f (player_uuid p)) ms'
         (random_token bytes) r = (Ok (), r')"
      by (rule redis_create_cases) auto
    have i': "redis_inv view f (as_millis now) r'" using inv [OF i, of p ttl] c by simp
    note v' = redis_resolve_view [OF spec ut i' ms [OF at], of t'] and v = redis_resolve_view [OF spec ut i(1) ms [OF at], of t']
    note e = create_script_effect(3) [OF spec ut i run refl ms [OF at], of t']
    show ?thesis
      using e v'(2) [of p] v'(3) v(2) [of p] v'(1) v(1) tok [OF c] m
      by (auto simp: redis_alive_def split: if_splits)
  qed
  show "RedisTokenStore_resolve R g None at t' (snd (RedisTokenStore_create R f fault bytes now p ttl r)) = Ok (Some q)"
    if i: "redis_inv view f (as_millis now) r" "\<not> redis_known view f (as_millis now) (random_token bytes) r"
      and at: "now \<le> at" and t': "t' \<noteq> random_token bytes" and res: "RedisTokenStore_resolve R g None at t' r = Ok (Some q)"
      and q: "q \<noteq> p"
  proof -
    let ?r' = "snd (RedisTokenStore_create R f fault bytes now p ttl r)"
    have c: "RedisTokenStore_create R f fault bytes now p ttl r = (fst (RedisTokenStore_create R f fault bytes now p ttl r), ?r')"
      by simp
    have v: "view r (as_millis at) (token_key t') = Some (RStr (f (player_uuid q)))"
      using redis_resolve_view(2) [OF spec ut i(1) ms [OF at]] res by blast
    have "f (player_uuid q) \<noteq> f (player_uuid p)" using q uuid_text_inject [OF ut] by (cases p; cases q) simp
    then have "view ?r' (as_millis at) (token_key t') = Some (RStr (f (player_uuid q)))"
      using v by (cases rule: redis_create_cases [OF c]) (auto simp: create_script_effect(2) [OF spec ut i _ ms [OF at] t'])
    then show ?thesis using redis_resolve_view(2) [OF spec ut inv [OF i] ms [OF at]] by blast
  qed
  show rinv: "redis_inv view f (as_millis now) (snd (RedisTokenStore_revoke_player R f fault' now p r))"
    if i: "redis_inv view f (as_millis now) r" for now r p
  proof -
    have "RedisTokenStore_revoke_player R f fault' now p r =
        (fst (RedisTokenStore_revoke_player R f fault' now p r), snd (RedisTokenStore_revoke_player R f fault' now p r))"
      by simp
    then show ?thesis using i revoke_script_effect(1) [OF spec ut i] by (cases rule: redis_revoke_cases) auto
  qed
  show "RedisTokenStore_resolve R g None at t r' =
      (if RedisTokenStore_resolve R g None at t r = Ok (Some p) then Ok None else RedisTokenStore_resolve R g None at t r)"
    if i: "redis_inv view f (as_millis now) r" and c: "RedisTokenStore_revoke_player R f fault' now p r = (Ok (), r')"
      and at: "now \<le> at"
  proof -
    from c have run: "revoke_script R (as_millis now) (player_index_key f p) r = (Ok (), r')"
      by (rule redis_revoke_cases) auto
    have i': "redis_inv view f (as_millis now) r'" using rinv [OF i, of p] c by simp
    note v' = redis_resolve_view [OF spec ut i' ms [OF at], of t] and v = redis_resolve_view [OF spec ut i ms [OF at], of t]
    show ?thesis
      using revoke_script_effect(2) [OF spec ut i run refl ms [OF at], of t] v'(3) v(2) [of p] v'(1) v(1)
      by (auto split: if_splits)
  qed
qed

section \<open>A server that behaves as documented\<close>

text \<open>A key space kept as a list, used to show that the hypotheses can hold.\<close>

datatype lvalue = LStr rstring | LSet "rstring list"

type_synonym lredis = "(rstring, lvalue \<times> int option) hmap"

definition lr_alive :: "int \<Rightarrow> lvalue \<times> int option \<Rightarrow> lvalue option" where
  "lr_alive now ve = (case snd ve of None \<Rightarrow> Some (fst ve) | Some d \<Rightarrow> if now < d then Some (fst ve) else None)"

definition lr_look :: "int \<Rightarrow> rstring \<Rightarrow> lredis \<Rightarrow> lvalue option" where
  "lr_look now k r = Option.bind (hm_get r k) (lr_alive now)"

primrec lr_abs :: "lvalue \<Rightarrow> redis_value" where
  "lr_abs (LStr s) = RStr s"
| "lr_abs (LSet xs) = RSet (set xs)"

definition lr_view :: "lredis \<Rightarrow> int \<Rightarrow> rstring \<Rightarrow> redis_value option" where
  "lr_view r t k = map_option lr_abs (lr_look t k r)"

definition lr_wrongtype :: rstring where
  "lr_wrongtype = ascii ''WRONGTYPE''"

definition list_redis :: "lredis redis" where
  "list_redis =
     \<lparr>rd_smembers = (\<lambda>now k r. case lr_look now k r of None \<Rightarrow> Ok [] | Some (LSet xs) \<Rightarrow> Ok xs | Some (LStr _) \<Rightarrow> Err lr_wrongtype),
      rd_get = (\<lambda>now k r. case lr_look now k r of None \<Rightarrow> Ok None | Some (LStr s) \<Rightarrow> Ok (Some s) | Some (LSet _) \<Rightarrow> Err lr_wrongtype),
      rd_del = (\<lambda>now k r. (Ok (), hm_remove k r)),
      rd_sadd = (\<lambda>now k x r. case lr_look now k r of
           None \<Rightarrow> (Ok (), hm_insert k (LSet [x], None) r)
         | Some (LSet xs) \<Rightarrow> (Ok (), hm_insert k (LSet (x # xs), Option.bind (hm_get r k) snd) r)
         | Some (LStr _) \<Rightarrow> (Err lr_wrongtype, r)),
      rd_pexpire = (\<lambda>now k ms r. case lr_look now k r of
           None \<Rightarrow> (Ok (), hm_remove k r)
         | Some v \<Rightarrow> (Ok (), hm_insert k (v, Some (now + uint ms)) r)),
      rd_set_px = (\<lambda>now k v ms r. (Ok (), hm_insert k (LStr v, Some (now + uint ms)) r))\<rparr>"

lemma lr_view_antitone: "t \<le> t' \<Longrightarrow> lr_view r t' k = Some v \<Longrightarrow> lr_view r t k = Some v"
  by (cases "hm_get r k") (auto simp: lr_view_def lr_look_def lr_alive_def split: option.splits if_splits)

lemma lr_look_other: "k' \<noteq> k \<Longrightarrow> lr_look t k' (hm_insert k v r) = lr_look t k' r" "k' \<noteq> k \<Longrightarrow> lr_look t k' (hm_remove k r) = lr_look t k' r"
  by (simp_all add: lr_look_def)

lemma lr_look_same [simp]: "lr_look t k (hm_insert k ve r) = lr_alive t ve" "lr_look t k (hm_remove k r) = None"
  by (simp_all add: lr_look_def)

lemma lr_look_from:
  assumes "lr_look now k r = Some v" and "now \<le> t"
  shows "lr_look t k r = lr_alive t (v, Option.bind (hm_get r k) snd)"
  using assms by (cases "hm_get r k") (auto simp: lr_look_def lr_alive_def split: option.splits if_splits)

lemma list_redis_spec: "redis_spec list_redis lr_view"
  unfolding redis_spec_def
proof (intro conjI allI impI)
  fix r :: lredis and now t t' :: int and k x w xs v and ms :: u64
  show "t \<le> t' \<Longrightarrow> lr_view r t' k = Some v \<Longrightarrow> lr_view r t k = Some v" by (rule lr_view_antitone)
  show "rd_smembers list_redis now k r = Ok xs \<Longrightarrow>
      (case lr_view r now k of None \<Rightarrow> xs = [] | Some (RStr s) \<Rightarrow> False | Some (RSet S) \<Rightarrow> set xs = S)"
    by (auto simp: list_redis_def lr_view_def split: option.splits lvalue.splits)
  show "case lr_view r now k of None \<Rightarrow> rd_get list_redis now k r = Ok None
      | Some (RStr s) \<Rightarrow> rd_get list_redis now k r = Ok (Some s) | Some (RSet S) \<Rightarrow> is_err (rd_get list_redis now k r)"
    by (auto simp: list_redis_def lr_view_def split: option.splits lvalue.splits)
  show "redis_effect lr_view now k (\<lambda>_. None) (rd_del list_redis now k r) r"
    by (auto simp: redis_effect_def list_redis_def lr_view_def lr_look_other)
  show "redis_effect lr_view now k (\<lambda>t. if t < now + uint ms then Some (RStr w) else None) (rd_set_px list_redis now k w ms r) r"
    by (auto simp: redis_effect_def list_redis_def lr_view_def lr_look_other lr_alive_def)
  show "redis_effect lr_view now k (\<lambda>t. if t < now + uint ms then lr_view r now k else None) (rd_pexpire list_redis now k ms r) r"
    by (cases "lr_look now k r") (auto simp: redis_effect_def list_redis_def lr_view_def lr_look_other lr_alive_def)
  show "redis_effect lr_view now k
      (\<lambda>t. if lr_view r now k = None then Some (RSet {x}) else map_option (rset_add x) (lr_view r t k)) (rd_sadd list_redis now k x r) r"
  proof (cases "lr_look now k r")
    case None
    then show ?thesis by (auto simp: redis_effect_def list_redis_def lr_view_def lr_look_other lr_alive_def)
  next
    case (Some v)
    then show ?thesis
      by (cases v) (auto simp: redis_effect_def list_redis_def lr_view_def lr_look_other lr_look_from lr_alive_def
          split: option.splits)
  qed
qed

definition nat_uuid :: "uuid \<Rightarrow> rstring" where
  "nat_uuid u = [unat u]"

fun uuid_nat :: "rstring \<Rightarrow> (uuid, rstring) result" where
  "uuid_nat [n] = Ok (word_of_nat n)"
| "uuid_nat s = Err s"

lemma nat_uuid_text: "uuid_text nat_uuid uuid_nat"
  by (simp add: uuid_text_def nat_uuid_def)

lemma empty_redis: "redis_inv lr_view f now []" "\<not> redis_known lr_view f now x []"
  by (simp_all add: redis_inv_def redis_known_def lr_view_def lr_look_def)

section \<open>Property\<close>

text \<open>
  (C13) The Redis token store keeps one session per player, even when calls fail. From consistent
  key spaces and with a fresh token, whatever becomes of a create call: the key spaces stay
  consistent and every token of another player resolves as before. If the call is answered
  with a token, it is the one drawn; it resolves to the player for the whole time to live in
  milliseconds (at least one), and every older token of the player stops resolving at once.
  A revocation that is answered leaves the player without any token and the others with
  theirs.
\<close>

theorem redis_single_session:
  assumes "redis_spec R view" and "uuid_text show_uuid parse_uuid"
    and "redis_inv view show_uuid (as_millis now) r"
    and "\<not> redis_known view show_uuid (as_millis now) (redis_random_token bytes) r"
    and "0 \<le> ttl" and "now \<le> at"
  shows "(case RedisTokenStore_create R show_uuid fault bytes now p ttl r of (res, r') \<Rightarrow>
      redis_inv view show_uuid (as_millis now) r' \<and>
      (\<forall>t q. t \<noteq> redis_random_token bytes \<longrightarrow> q \<noteq> p \<longrightarrow> RedisTokenStore_resolve R parse_uuid None at t r = Ok (Some q) \<longrightarrow>
         RedisTokenStore_resolve R parse_uuid None at t r' = Ok (Some q)) \<and>
      (\<forall>t. res = Ok t \<longrightarrow> t = redis_random_token bytes \<and>
         RedisTokenStore_resolve R parse_uuid None at t r' =
           Ok (if as_millis at < as_millis now + max (as_millis ttl) 1 then Some p else None) \<and>
         (\<forall>t'. t' \<noteq> t \<longrightarrow> RedisTokenStore_resolve R parse_uuid None at t' r' \<noteq> Ok (Some p)))) \<and>
    (case RedisTokenStore_revoke_player R show_uuid fault' now p r of (res, r') \<Rightarrow>
      redis_inv view show_uuid (as_millis now) r' \<and>
      (res = Ok () \<longrightarrow> (\<forall>t. RedisTokenStore_resolve R parse_uuid None at t r' =
         (if RedisTokenStore_resolve R parse_uuid None at t r = Ok (Some p) then Ok None
          else RedisTokenStore_resolve R parse_uuid None at t r))))"
proof -
  note con = redis_contract [OF assms(1,2), of fault fault']
  note fresh = assms(4) [unfolded redis_random_token_eq]
  obtain res r' where c: "RedisTokenStore_create R show_uuid fault bytes now p ttl r = (res, r')"
    by (cases "RedisTokenStore_create R show_uuid fault bytes now p ttl r")
  obtain res2 r2 where v: "RedisTokenStore_revoke_player R show_uuid fault' now p r = (res2, r2)"
    by (cases "RedisTokenStore_revoke_player R show_uuid fault' now p r")
  have inv: "redis_inv view show_uuid (as_millis now) r'" "redis_inv view show_uuid (as_millis now) r2"
    using expiring_token_store.issue_inv [OF con assms(3) fresh, of p ttl]
      expiring_token_store.withdraw_inv [OF con assms(3), of p] c v by simp_all
  have alive: "redis_alive now ttl at \<longleftrightarrow> as_millis at < as_millis now + max (as_millis ttl) 1" if "res = Ok t" for t
    using that c token_ttl_ms_Ok [OF assms(5)]
    by (auto simp: redis_alive_def RedisTokenStore_create_def Let_def split: result.splits)
  have "RedisTokenStore_resolve R parse_uuid None at t r' = Ok (Some q)"
    if "t \<noteq> redis_random_token bytes" "q \<noteq> p" "RedisTokenStore_resolve R parse_uuid None at t r = Ok (Some q)" for t q
    using expiring_token_store.issue_others [OF con assms(3) fresh assms(6) _ that(3,2), of ttl] that(1) c
    by (simp add: redis_random_token_eq)
  moreover have "t = redis_random_token bytes \<and>
      RedisTokenStore_resolve R parse_uuid None at t r' =
        Ok (if as_millis at < as_millis now + max (as_millis ttl) 1 then Some p else None) \<and>
      (\<forall>t'. t' \<noteq> t \<longrightarrow> RedisTokenStore_resolve R parse_uuid None at t' r' \<noteq> Ok (Some p))" if ok: "res = Ok t" for t
    using expiring_token_store.issue_token [OF con c [unfolded ok]] alive [OF ok]
      expiring_token_store.issue_resolve [OF con assms(3) fresh c [unfolded ok] assms(6)]
    by (simp add: redis_random_token_eq)
  moreover have "RedisTokenStore_resolve R parse_uuid None at t r2 =
         (if RedisTokenStore_resolve R parse_uuid None at t r = Ok (Some p) then Ok None
          else RedisTokenStore_resolve R parse_uuid None at t r)" if "res2 = Ok ()" for t
    using expiring_token_store.withdraw_resolve [OF con assms(3) v [unfolded that] assms(6)] .
  ultimately show ?thesis using inv c v by simp
qed

text \<open>Witness: a token of two milliseconds on an empty server.\<close>

theorem redis_single_session_witness:
  "RedisTokenStore_resolve list_redis uuid_nat None 1999999 (redis_random_token [1])
     (snd (RedisTokenStore_create list_redis nat_uuid None [1] 0 (PlayerId 7) 2000000 [])) = Ok (Some (PlayerId 7))"
proof -
  have ms: "token_ttl_ms 2000000 = Ok 2" by (simp add: token_ttl_ms_def as_millis_def)
  let ?c = "RedisTokenStore_create list_redis nat_uuid None [1] 0 (PlayerId 7) 2000000 []"
  have "fst ?c = Ok (redis_random_token [1])"
    by (simp add: RedisTokenStore_create_def ms redis_invoke_def create_script_def list_redis_def lr_look_def
        lr_alive_def as_millis_def Let_def)
  then obtain r' where c: "?c = (Ok (redis_random_token [1]), r')" by (cases ?c) auto
  from redis_single_session [OF list_redis_spec nat_uuid_text empty_redis, where now = 0 and bytes = "[1]" and ttl = 2000000
      and at = 1999999 and fault = None and fault' = None and p = "PlayerId 7"]
  show ?thesis unfolding c by (simp add: as_millis_def)
qed

end
