(* ===== verification/LX_Production.thy ===== *)
theory LX_Production
  imports LX_ListDb LX_Redis LX_Auth
begin

text \<open>
  The backend of the production server: the SeaORM repositories over PostgreSQL and the Redis
  token store. Registration, progression and the whole way from a registration to a resolving
  token, over every database and every Redis server that behaves as documented.
\<close>

section \<open>Registration\<close>

text \<open>
  (C14) A registration in the database is all or nothing. Whatever fails, the tables are afterwards
  as before or hold exactly the two new rows (when the answer to the commit is lost); a
  success means that user name and identifiers were free and both rows are stored; the conflict
  answer is only given when they were taken, and then nothing has changed; and while the
  database answers, a registration whose values fit the columns succeeds if they are free and is
  answered with the conflict if they are not. Unique user names, the tie of
  every player to an account and one player per account are kept in every case.
\<close>

theorem sea_registration:
  assumes "db_spec D tabs up rt lower ts_ok" and "sea_rows rt ts_ok (tabs d)" and "new_user a p"
    and "SeaRegistration_register D a p d = (res, d')"
  shows "(tabs d' = tabs d \<or> tabs d' = registered rt a p (tabs d) \<and> \<not> registration_taken lower a p (tabs d)) \<and>
    sea_rows rt ts_ok (tabs d') \<and>
    (res = Ok () \<longrightarrow> tabs d' = registered rt a p (tabs d) \<and> \<not> registration_taken lower a p (tabs d)) \<and>
    (res = Err (Conflict msg_registration_exists) \<longrightarrow> d' = d \<and> registration_taken lower a p (tabs d)) \<and>
    (up d \<and> registration_fits ts_ok a p \<longrightarrow>
       res = (if registration_taken lower a p (tabs d) then Err (Conflict msg_registration_exists) else Ok ()))"
proof -
  have tr: "db_transactions D tabs up" and rt: "\<forall>t. rt (rt t) = rt t" and ts: "\<forall>t. ts_ok t \<longrightarrow> ts_ok (rt t)"
    using assms(1) by (auto simp: db_spec_def)
  have id: "pl_account_id p = acc_id a" using assms(3) by (simp add: new_user_def)
  from sea_register_outcome [OF assms(1,4)] show ?thesis
  proof
    assume "\<exists>e. res = Err e \<and> d' = d \<and>
        (e = Conflict msg_registration_exists \<longrightarrow> registration_taken lower a p (tabs d)) \<and>
        (up d \<and> registration_fits ts_ok a p \<and> pl_account_id p = acc_id a \<longrightarrow> e = Conflict msg_registration_exists)"
    then show ?thesis using assms(2) id by auto
  next
    assume "\<not> registration_taken lower a p (tabs d) \<and> registration_fits ts_ok a p \<and>
     (\<exists>t c. tabs t = registered rt a p (tabs d) \<and> (up d \<longrightarrow> up t) \<and> db_commit D t d = (c, d') \<and>
            res = map_err registration_map_error c)"
    then obtain t c where free: "\<not> registration_taken lower a p (tabs d)" "registration_fits ts_ok a p"
      and t: "tabs t = registered rt a p (tabs d)" "up d \<longrightarrow> up t" and c: "db_commit D t d = (c, d')"
      and res: "res = map_err registration_map_error c" by blast
    note com = db_transactionsD(3) [OF tr c]
    have "sea_rows rt ts_ok (registered rt a p (tabs d))" by (rule registered_rows [OF rt ts assms(2,3) free])
    moreover have "res \<noteq> Err (Conflict msg_registration_exists)"
      using com res registration_map_error_Conflict by (cases c) auto
    ultimately show ?thesis using com free t res assms(2) by (cases c) auto
  qed
qed

definition sample_account :: account where
  "sample_account = Account_register 1 (Username (ascii ''alice'')) (PasswordHash_new (ascii ''hash'')) 1500"

definition sample_player :: player where
  "sample_player = Player_create 2 (AccountId 1) (Nickname (ascii ''Al'')) 1500"

lemma sample_new_user: "new_user sample_account sample_player"
  unfolding sample_account_def sample_player_def
  by (rule new_user_registered)
    (use Username_try_new_Ok(2) [OF sample_username] Nickname_try_new_Ok(2) [OF sample_nickname] in auto)

definition sample_db :: list_db where
  "sample_db = snd (SeaRegistration_register list_database sample_account sample_player ldb_empty)"

lemma sample_fits: "registration_fits ldb_ts_ok sample_account sample_player"
  by (simp add: registration_fits_def account_fits_def player_fits_def sample_account_def sample_player_def text_ok_def
      account_to_active_def player_to_active_def Account_register_def Player_create_def PasswordHash_new_def ascii_def of_char_def)

lemma sample_free: "\<not> registration_taken to_ascii_lowercase sample_account sample_player (ldb_tabs ldb_empty)"
  by (simp add: registration_taken_def account_conflict_def ldb_empty_def)

lemma sample_db_inv:
  "sea_inv ldb_tabs (\<lambda>_. True) micros ldb_ts_ok sample_db" 
  "ldb_tabs sample_db = registered micros sample_account sample_player (ldb_tabs ldb_empty)"
proof -
  let ?r = "SeaRegistration_register list_database sample_account sample_player ldb_empty"
  have id: "pl_account_id sample_player = acc_id sample_account"
    by (simp add: sample_player_def sample_account_def Player_create_def Account_register_def)
  have rows: "sea_rows micros ldb_ts_ok (ldb_tabs ldb_empty)" using ldb_empty_inv by (simp add: sea_inv_def)
  obtain t c where t: "ldb_tabs t = registered micros sample_account sample_player (ldb_tabs ldb_empty)"
    "db_commit list_database t ldb_empty = (c, snd ?r)"
    using sea_register_outcome [OF list_db_spec, of sample_account sample_player ldb_empty "fst ?r" "snd ?r"] sample_free sample_fits id
    by auto
  then show tabs: "ldb_tabs sample_db = registered micros sample_account sample_player (ldb_tabs ldb_empty)"
    by (simp add: sample_db_def list_database_def)
  show "sea_inv ldb_tabs (\<lambda>_. True) micros ldb_ts_ok sample_db"
    using registered_rows [OF _ _ rows sample_new_user sample_free sample_fits] tabs by (simp add: sea_inv_def micros_def)
qed

text \<open>Witness: registering the same user twice on an empty database.\<close>

theorem sea_registration_witness:
  "fst (SeaRegistration_register list_database sample_account sample_player ldb_empty) = Ok () \<and>
   fst (SeaRegistration_register list_database sample_account sample_player
          (snd (SeaRegistration_register list_database sample_account sample_player ldb_empty))) =
     Err (Conflict msg_registration_exists)"
proof -
  let ?r = "SeaRegistration_register list_database sample_account sample_player"
  have rows: "sea_rows micros ldb_ts_ok (ldb_tabs ldb_empty)" using ldb_empty_inv by (simp add: sea_inv_def)
  note reg = sea_registration [OF list_db_spec _ sample_new_user, of d "fst (?r d)" "snd (?r d)" for d]
  note first = reg [OF rows prod.collapse [symmetric]]
  have one: "fst (?r ldb_empty) = Ok ()" using first sample_fits sample_free by simp
  have rows': "sea_rows micros ldb_ts_ok (ldb_tabs (snd (?r ldb_empty)))"
    and tabs: "ldb_tabs (snd (?r ldb_empty)) = registered micros sample_account sample_player (ldb_tabs ldb_empty)"
    using first one by blast+
  note second = reg [OF rows' prod.collapse [symmetric]]
  have "registration_taken to_ascii_lowercase sample_account sample_player (ldb_tabs (snd (?r ldb_empty)))"
    unfolding tabs by (simp add: registration_taken_def registered_def)
  with second one sample_fits show ?thesis by simp
qed

section \<open>Progression\<close>

lemma gain_exp_frame:
  assumes "Player_gain_exp amount p = (q, lvl)"
  obtains l x where "q = p\<lparr>pl_level := l, pl_exp := x\<rparr>"
  using assms that by (auto simp: Player_gain_exp_def Let_def split: prod.splits)

text \<open>A transaction that locks a player sees the committed row.\<close>

lemma sea_lock:
  assumes "db_spec D tabs up rt lower ts_ok" and "up d"
  obtains t where "db_begin D d = Ok t" and "tabs t = tabs d" and "up t"
    and "\<And>u. db_player_lock_by_id D u t = Ok (tb_players (tabs d) u)"
proof -
  have tr: "db_transactions D tabs up" and rd: "db_reads D tabs up lower" using assms(1) by (auto simp: db_spec_def)
  obtain t where t: "db_begin D d = Ok t" using db_transactionsD(2) [OF tr, of d] assms(2) by (cases "db_begin D d") blast+
  note t = t db_transactionsD(1) [OF tr t, THEN conjunct1] db_transactionsD(1) [OF tr t, THEN conjunct2, rule_format, OF assms(2)]
  have "db_player_lock_by_id D u t = Ok (tb_players (tabs d) u)" for u
    using db_reads_ok(3) [OF rd t(3), of u] db_readsD(3) [OF rd, of u t] t(2) by (auto simp: is_ok_iff)
  with that t show ?thesis by blast
qed

lemma gain_exp_stored:
  assumes "Player_gain_exp amount p = (q, lvl)" and "stored_player rt p = p"
  obtains l x where "q = p\<lparr>pl_level := l, pl_exp := x\<rparr>" and "pl_id q = pl_id p" and "pl_account_id q = pl_account_id p"
    and "stored_player rt q = q"
proof -
  obtain l x where q: "q = p\<lparr>pl_level := l, pl_exp := x\<rparr>" by (rule gain_exp_frame [OF assms(1)])
  have "stored_player rt p = p \<Longrightarrow> stored_player rt (p\<lparr>pl_level := l, pl_exp := x\<rparr>) = p\<lparr>pl_level := l, pl_exp := x\<rparr>"
    by (cases p) (simp add: stored_player_def)
  with q assms(2) that show ?thesis by simp
qed

text \<open>
  (C23) Experience in the database: while it answers, gaining experience stores exactly the level and
  experience that the rules of the game give, in the row of that player and nowhere else, and
  answers the player and the level reached. When the new level or experience does not fit
  its signed column the call fails and nothing changes; for an unknown player it answers nothing
  and changes nothing.
\<close>

theorem sea_gain_exp:
  assumes spec: "db_spec D tabs up rt lower ts_ok" and inv: "sea_inv tabs up rt ts_ok d"
    and row: "tb_players (tabs d) (player_uuid (pl_id p)) = Some (player_to_active p)" and p: "storable_player p"
    and gain: "Player_gain_exp amount p = (q, lvl)" and unknown: "tb_players (tabs d) (player_uuid i) = None"
  shows "(if unat (pl_level q) < 2 ^ 31 \<and> unat (pl_exp q) < 2 ^ 63
     then (case SeaPlayer_gain_exp D show_uuid (pl_id p) amount d of (res, d') \<Rightarrow>
        res = Ok (Some (q, lvl)) \<and> sea_inv tabs up rt ts_ok d' \<and>
        tabs d' = (tabs d)\<lparr>tb_players := (tb_players (tabs d))(player_uuid (pl_id p) \<mapsto> player_to_active q)\<rparr>)
     else SeaPlayer_gain_exp D show_uuid (pl_id p) amount d = (Err (RepoStorage try_from_int_error), d)) \<and>
    SeaPlayer_gain_exp D show_uuid i amount d = (Ok None, d)"
proof -
  have tr: "db_transactions D tabs up" and wr: "db_writes D tabs up rt lower ts_ok" using spec by (auto simp: db_spec_def)
  have up: "up d" and rows: "sea_rows rt ts_ok (tabs d)" using inv by (auto simp: sea_inv_def)
  obtain t where t: "db_begin D d = Ok t" "tabs t = tabs d" "up t"
    and lock: "db_player_lock_by_id D u t = Ok (tb_players (tabs d) u)" for u by (rule sea_lock [OF spec up]) blast
  have st: "stored_player rt p = p" and fits: "player_fits ts_ok (player_to_active p)"
    using sea_rowsD(2) [OF rows row] player_to_active_inject [OF p] by metis+
  obtain l x where q: "q = p\<lparr>pl_level := l, pl_exp := x\<rparr>"
    and qs: "pl_id q = pl_id p" "pl_account_id q = pl_account_id p" "stored_player rt q = q"
    by (rule gain_exp_stored [OF gain st])
  have none: "SeaPlayer_gain_exp D show_uuid i amount d = (Ok None, d)"
    using t(1) lock [of "player_uuid i"] unknown by (simp add: SeaPlayer_gain_exp_def)
  show ?thesis
  proof (cases "unat (pl_level q) < 2 ^ 31 \<and> unat (pl_exp q) < 2 ^ 63")
    case False
    then show ?thesis
      using none t(1) lock row gain player_row_exact [OF p, of show_uuid]
      by (auto simp: SeaPlayer_gain_exp_def gain_exp_active_def level_try_from_def exp_try_from_def)
  next
    case True
    let ?a = "player_active_default\<lparr>pa_id := Some (player_uuid (pl_id p)), pa_level := Some (pl_level q), pa_exp := Some (pl_exp q)\<rparr>"
    have act: "gain_exp_active (player_uuid (pl_id p)) q = Ok ?a"
      using True by (simp add: gain_exp_active_def level_try_from_def exp_try_from_def)
    have app: "player_apply ?a (player_to_active p) = player_to_active q"
      using True by (simp add: q player_apply_def player_active_default_def player_to_active_def level_to_row_def exp_to_row_def)
    have storq: "storable_player q" using True p by (simp add: q storable_player_def)
    have fitq: "player_fits ts_ok (player_to_active q)"
      using fits by (simp add: q player_fits_def player_to_active_def)
    have none': "pa_account_id ?a = None" "pa_id ?a = Some (player_uuid (pl_id p))" by (simp_all add: player_active_default_def)
    obtain r t' where u: "db_player_update D ?a t = (r, t')" by (cases "db_player_update D ?a t")
    obtain m where r: "r = Ok m"
      using db_player_updateD(2) [OF wr, of ?a t _ t' "player_uuid (pl_id p)" "player_to_active p"] u row none' fitq app t(2,3)
      by (cases r) auto
    have t': "up t'" "tabs t' = (tabs d)\<lparr>tb_players := (tb_players (tabs d))(player_uuid (pl_id p) \<mapsto> player_to_active q)\<rparr>"
      using db_player_updateD(1) [OF wr, of ?a t m t'] u r row none' t(2,3) app by (auto simp: sql_player_active qs(3))
    obtain d' where c: "db_commit D t' d = (Ok (), d')" "up d'" "tabs d' = tabs t'"
      using db_transactionsD(3) [OF tr, of t' d] t'(1) by (cases "db_commit D t' d") auto
    have "SeaPlayer_gain_exp D show_uuid (pl_id p) amount d = (Ok (Some (q, lvl)), d')"
      using t(1) lock row gain player_row_exact [OF p, of show_uuid] act u r c(1) by (simp add: SeaPlayer_gain_exp_def)
    moreover have "sea_inv tabs up rt ts_ok d'"
      using sea_rows_update [OF rows row qs(1,2,3) storq fitq] c t' by (simp add: sea_inv_def)
    ultimately show ?thesis using True none c(3) t'(2) by simp
  qed
qed

text \<open>Witness: one hundred experience for the registered sample player.\<close>

theorem sea_gain_exp_witness:
  "fst (SeaPlayer_gain_exp list_database (\<lambda>_. []) (PlayerId 2) 100 sample_db) =
     Ok (Some (Player_gain_exp 100 (stored_player micros sample_player)))"
proof -
  let ?p = "stored_player micros sample_player"
  obtain q lvl where g: "Player_gain_exp 100 ?p = (q, lvl)" by (cases "Player_gain_exp 100 ?p")
  have id: "pl_id ?p = PlayerId 2" by (simp add: sample_player_def Player_create_def)
  have lv: "pl_level sample_player = 1" "pl_exp sample_player = 0" by (simp_all add: sample_player_def Player_create_def)
  have st: "storable_player ?p" using sample_new_user by (simp add: storable_player_def new_user_def)
  have row: "tb_players (ldb_tabs sample_db) (player_uuid (pl_id ?p)) = Some (player_to_active ?p)"
    "tb_players (ldb_tabs sample_db) (player_uuid (PlayerId 3)) = None"
    unfolding sample_db_inv(2) registered_def by (simp_all add: ldb_empty_def sample_player_def Player_create_def)
  have "unat (pl_level q) \<le> 999" "unat (pl_exp q) \<le> 100" using Player_gain_exp_spec(2,3) [OF g] by (simp_all add: lv)
  then have "unat (pl_level q) < 2 ^ 31 \<and> unat (pl_exp q) < 2 ^ 63" by simp
  with sea_gain_exp [OF list_db_spec sample_db_inv(1) row(1) st g row(2), of "\<lambda>_. []"] g id show ?thesis
    by (auto split: prod.splits)
qed

section \<open>From registration to a resolving token\<close>

lemma production_auth:
  assumes "db_spec D tabs up rt lower ts_ok" and "redis_spec R view" and "uuid_text show_uuid parse_uuid"
  shows "auth_backend (SeaAccountRepository D show_uuid) (SeaPlayerRepository D show_uuid) (SeaRegistrationStore D)
    (sea_inv tabs up rt ts_ok) (\<lambda>_ _ _. True) (stored_account rt) (stored_player rt) ts_ok
    (RedisTokenStore R show_uuid parse_uuid t0) (RedisTokenStore_revoke_player R show_uuid None) random_token
    (\<lambda>now. redis_known view show_uuid (as_millis now)) (\<lambda>now. redis_inv view show_uuid (as_millis now)) redis_alive"
proof -
  have ts: "tk_create (RedisTokenStore R show_uuid parse_uuid t0) = RedisTokenStore_create R show_uuid None"
    "tk_resolve (RedisTokenStore R show_uuid parse_uuid t0) = RedisTokenStore_resolve R parse_uuid None"
    by (simp_all add: RedisTokenStore_def)
  show ?thesis
    unfolding auth_backend_def ts by (intro conjI sea_contract [OF assms(1)] redis_contract [OF assms(2,3)])
qed

text \<open>
  (C12) The production backend, end to end: over any database and any Redis server that behave as
  documented, an account that was registered successfully can log in at once with the same
  credentials while both answer; the login answers the registered player and nickname and a
  fresh token, the token resolves to that player for its time to live, and database and
  token store stay consistent.
\<close>

theorem production_register_login:
  assumes "db_spec D tabs up rt lower ts_ok" and "redis_spec R view" and "uuid_text show_uuid parse_uuid"
    and "sea_inv tabs up rt ts_ok d" and "redis_inv view show_uuid (as_millis now) s" and "hasher_sound PH"
    and "RegisterUseCase_execute (SeaAccountRepository D show_uuid) (SeaRegistrationStore D) PH AL fa fp now1 now2 cmd d l
           = (Ok r, d', l')"
    and "\<not> redis_known view show_uuid (as_millis now) (random_token bytes) s"
    and "is_ok (fst (RedisTokenStore_create R show_uuid None bytes now (PlayerId fp) ttl s))"
    and "lc_username lcmd = rc_username cmd" and "lc_password lcmd = rc_password cmd" and "ts_ok now_login" and "0 \<le> ttl"
  shows "\<exists>lr d2 s2 l2.
    LoginUseCase_execute
      \<lparr>ld_accounts = SeaAccountRepository D show_uuid, ld_players = SeaPlayerRepository D show_uuid,
       ld_tokens = RedisTokenStore R show_uuid parse_uuid t0, ld_hasher = PH, ld_audit = AL\<rparr>
      ttl now_check now_login now bytes lcmd d' s l' = (Ok lr, d2, s2, l2) \<and>
    lr_player_id lr = rr_player_id r \<and> lr_nickname lr = rr_nickname r \<and> lr_token lr = random_token bytes \<and>
    sea_inv tabs up rt ts_ok d2 \<and> redis_inv view show_uuid (as_millis now) s2 \<and>
    (\<forall>at \<ge> now. RedisTokenStore_resolve R parse_uuid None at (lr_token lr) s2 =
       Ok (if as_millis at < as_millis now + max (as_millis ttl) 1 then Some (rr_player_id r) else None))"
proof -
  have ok: "is_ok (fst (tk_create (RedisTokenStore R show_uuid parse_uuid t0) bytes now (PlayerId fp) ttl s))"
    using assms(9) by (simp add: RedisTokenStore_def)
  obtain ms where "token_ttl_ms ttl = Ok ms"
    using assms(9) by (auto simp: RedisTokenStore_create_def Let_def split: result.splits)
  with token_ttl_ms_Ok [OF assms(13)] have "redis_alive now ttl at \<longleftrightarrow> as_millis at < as_millis now + max (as_millis ttl) 1" for at
    by (simp add: redis_alive_def)
  with auth_backend.register_then_login [OF production_auth [OF assms(1-3)] assms(4,5,6,7) TrueI assms(8) ok assms(10-12)]
  show ?thesis by (simp add: RedisTokenStore_def)
qed

text \<open>Witness: the sample registration, then a login, on an empty database and an empty server.\<close>

definition sample_sea_registered ::
  "(register_result, app_error) result \<times> list_db \<times> nat" where
  "sample_sea_registered =
     RegisterUseCase_execute (SeaAccountRepository list_database nat_uuid) (SeaRegistrationStore list_database)
       sample_hasher sample_audit 1 2 10 11 sample_command ldb_empty 0"

lemma ldb_empty_register:
  assumes "registration_fits ldb_ts_ok a p" and "pl_account_id p = acc_id a"
  shows "fst (SeaRegistration_register list_database a p ldb_empty) = Ok ()"
proof -
  let ?r = "SeaRegistration_register list_database a p ldb_empty"
  have "\<not> registration_taken to_ascii_lowercase a p (ldb_tabs ldb_empty)"
    by (simp add: registration_taken_def account_conflict_def ldb_empty_def)
  with sea_register_outcome [OF list_db_spec, of a p ldb_empty "fst ?r" "snd ?r"] assms show ?thesis
    by (auto simp: list_database_def)
qed

lemma sample_sea_registered_ok:
  "fst sample_sea_registered = Ok \<lparr>rr_account_id = AccountId 1, rr_player_id = PlayerId 2, rr_nickname = ascii ''Al''\<rparr>"
proof -
  let ?a = "Account_register 1 (Username (ascii ''alice'')) (PasswordHash_new (0x24 # ascii ''super-secret'')) 10"
  let ?p = "Player_create 2 (AccountId 1) (Nickname (ascii ''Al'')) 11"
  have "registration_fits ldb_ts_ok ?a ?p"
    by (simp add: registration_fits_def account_fits_def player_fits_def text_ok_def account_to_active_def player_to_active_def
        Account_register_def Player_create_def PasswordHash_new_def ascii_def of_char_def)
  then have reg: "fst (SeaRegistration_register list_database ?a ?p ldb_empty) = Ok ()"
    by (rule ldb_empty_register) (simp add: Account_register_def Player_create_def)
  have find: "SeaAccount_find_by_username list_database nat_uuid name ldb_empty = Ok None" for name
    by (simp add: SeaAccount_find_by_username_def list_database_def ldb_find_def ldb_empty_def transpose_map_def)
  obtain d where "SeaRegistration_register list_database ?a ?p ldb_empty = (Ok (), d)"
    using reg by (cases "SeaRegistration_register list_database ?a ?p ldb_empty") auto
  then show ?thesis
    by (simp add: sample_sea_registered_def RegisterUseCase_execute_def sample_command_def sample_username sample_nickname
        sample_password SeaAccountRepository_def find sample_hasher_def sample_audit_def SeaRegistrationStore_def Let_def
        Account_register_def Player_create_def)
qed

theorem production_register_login_witness:
  "\<exists>lr d2 s2 l2.
    LoginUseCase_execute
      \<lparr>ld_accounts = SeaAccountRepository list_database nat_uuid, ld_players = SeaPlayerRepository list_database nat_uuid,
       ld_tokens = RedisTokenStore list_redis nat_uuid uuid_nat 0, ld_hasher = sample_hasher, ld_audit = sample_audit\<rparr>
      2000000 30 31 0 [1] sample_login_command
      (fst (snd sample_sea_registered)) [] (snd (snd sample_sea_registered)) = (Ok lr, d2, s2, l2) \<and>
    RedisTokenStore_resolve list_redis uuid_nat None 1999999 (lr_token lr) s2 = Ok (Some (PlayerId 2))"
proof -
  let ?r = "\<lparr>rr_account_id = AccountId 1, rr_player_id = PlayerId 2, rr_nickname = ascii ''Al''\<rparr>"
  have reg: "RegisterUseCase_execute (SeaAccountRepository list_database nat_uuid) (SeaRegistrationStore list_database)
      sample_hasher sample_audit 1 2 10 11 sample_command ldb_empty 0 =
      (Ok ?r, fst (snd sample_sea_registered), snd (snd sample_sea_registered))"
    using sample_sea_registered_ok unfolding sample_sea_registered_def by (metis prod.collapse)
  have ms: "token_ttl_ms 2000000 = Ok 2" by (simp add: token_ttl_ms_def as_millis_def)
  have issue: "is_ok (fst (RedisTokenStore_create list_redis nat_uuid None [1] 0 (PlayerId 2) 2000000 []))"
    by (simp add: RedisTokenStore_create_def ms redis_invoke_def create_script_def list_redis_def lr_look_def
        lr_alive_def as_millis_def Let_def)
  from production_register_login [OF list_db_spec list_redis_spec nat_uuid_text ldb_empty_inv empty_redis(1) sample_hasher_sound
      reg empty_redis(2) issue, where lcmd = sample_login_command and now_login = 31 and now_check = 30 and ?t0.0 = 0]
  show ?thesis by (force simp: as_millis_def)
qed

end
