(* ===== verification/LX_Migration.thy ===== *)
theory LX_Migration
  imports LX_Database
begin

text \<open>
  \<^verbatim>\<open>migration/src\<close>: the three migrations that create the tables, and the row types of
  \<^verbatim>\<open>persistence/entities\<close> as the lists of their columns. Executing a statement is the business of the
  database: the \<^verbatim>\<open>SchemaManager\<close> is the record \<open>schema_manager\<close>, with \<open>manager_spec\<close> as
  its documented behaviour.
\<close>

section \<open>Table definitions\<close>

datatype sql_type = TUuid | TText | TSmallInt | TInteger | TBigInt | TTimestampTz | TJsonb | TCustom rstring

datatype sql_default = DefCust rstring | DefInt int | DefCurrentTimestamp

record column_def =
  cd_name :: rstring
  cd_type :: sql_type
  cd_not_null :: bool
  cd_default :: "sql_default option"
  cd_primary_key :: bool
  cd_unique_key :: bool

datatype fk_action = FkRestrict | FkSetNull

record foreign_key_def =
  fk_name :: rstring
  fk_column :: rstring
  fk_target :: "rstring \<times> rstring"
  fk_on_delete :: fk_action

record table_def =
  td_name :: rstring
  td_cols :: "column_def list"
  td_fks :: "foreign_key_def list"

record index_def =
  ix_name :: rstring
  ix_table :: rstring
  ix_cols :: "rstring list"

text \<open>\<^verbatim>\<open>ColumnDef::new(name)\<close> with its type; the modifiers of the builder are record updates.\<close>

definition new_column :: "rstring \<Rightarrow> sql_type \<Rightarrow> column_def" where
  "new_column n t =
     \<lparr>cd_name = n, cd_type = t, cd_not_null = False, cd_default = None, cd_primary_key = False, cd_unique_key = False\<rparr>"

section \<open>Names\<close>

text \<open>\<^verbatim>\<open>DeriveIden\<close> gives every variant its name in snake case, and \<^verbatim>\<open>Table\<close> the name of the enum.\<close>

datatype accounts_iden =
  AccTable | AccId | AccUsername | AccPasswordHash | AccStatus | AccBannedReason | AccBannedUntil | AccCreatedAt | AccCitext

primrec accounts_name :: "accounts_iden \<Rightarrow> rstring" where
  "accounts_name AccTable = ascii ''accounts''"
| "accounts_name AccId = ascii ''id''"
| "accounts_name AccUsername = ascii ''username''"
| "accounts_name AccPasswordHash = ascii ''password_hash''"
| "accounts_name AccStatus = ascii ''status''"
| "accounts_name AccBannedReason = ascii ''banned_reason''"
| "accounts_name AccBannedUntil = ascii ''banned_until''"
| "accounts_name AccCreatedAt = ascii ''created_at''"
| "accounts_name AccCitext = ascii ''citext''"

datatype players_iden = PlTable | PlId | PlAccountId | PlNickname | PlLevel | PlExp | PlLastLoginAt | PlCreatedAt

primrec players_name :: "players_iden \<Rightarrow> rstring" where
  "players_name PlTable = ascii ''players''"
| "players_name PlId = ascii ''id''"
| "players_name PlAccountId = ascii ''account_id''"
| "players_name PlNickname = ascii ''nickname''"
| "players_name PlLevel = ascii ''level''"
| "players_name PlExp = ascii ''exp''"
| "players_name PlLastLoginAt = ascii ''last_login_at''"
| "players_name PlCreatedAt = ascii ''created_at''"

datatype audit_iden = AuTable | AuId | AuPlayerId | AuAction | AuDetail | AuCreatedAt

primrec audit_name :: "audit_iden \<Rightarrow> rstring" where
  "audit_name AuTable = ascii ''audit_logs''"
| "audit_name AuId = ascii ''id''"
| "audit_name AuPlayerId = ascii ''player_id''"
| "audit_name AuAction = ascii ''action''"
| "audit_name AuDetail = ascii ''detail''"
| "audit_name AuCreatedAt = ascii ''created_at''"

section \<open>The migrations\<close>

record 's schema_manager =
  sm_create_table :: "table_def \<Rightarrow> 's \<Rightarrow> (unit, db_err) result \<times> 's"
  sm_create_index :: "index_def \<Rightarrow> 's \<Rightarrow> (unit, db_err) result \<times> 's"
  sm_drop_index :: "rstring \<Rightarrow> rstring \<Rightarrow> 's \<Rightarrow> (unit, db_err) result \<times> 's"
  sm_drop_table :: "rstring \<Rightarrow> 's \<Rightarrow> (unit, db_err) result \<times> 's"

definition accounts_table :: table_def where
  "accounts_table =
     \<lparr>td_name = accounts_name AccTable,
      td_cols =
        [(new_column (accounts_name AccId) TUuid)
           \<lparr>cd_not_null := True, cd_default := Some (DefCust (ascii ''uuidv7()'')), cd_primary_key := True\<rparr>,
         (new_column (accounts_name AccUsername) (TCustom (accounts_name AccCitext)))
           \<lparr>cd_not_null := True, cd_unique_key := True\<rparr>,
         (new_column (accounts_name AccPasswordHash) TText)\<lparr>cd_not_null := True\<rparr>,
         (new_column (accounts_name AccStatus) TSmallInt)\<lparr>cd_not_null := True, cd_default := Some (DefInt 0)\<rparr>,
         new_column (accounts_name AccBannedReason) TText,
         new_column (accounts_name AccBannedUntil) TTimestampTz,
         (new_column (accounts_name AccCreatedAt) TTimestampTz)
           \<lparr>cd_not_null := True, cd_default := Some DefCurrentTimestamp\<rparr>],
      td_fks = []\<rparr>"

definition create_accounts_up :: "'s schema_manager \<Rightarrow> 's \<Rightarrow> (unit, db_err) result \<times> 's" where
  "create_accounts_up M s = sm_create_table M accounts_table s"

definition create_accounts_down :: "'s schema_manager \<Rightarrow> 's \<Rightarrow> (unit, db_err) result \<times> 's" where
  "create_accounts_down M s = sm_drop_table M (accounts_name AccTable) s"

definition players_table :: table_def where
  "players_table =
     \<lparr>td_name = players_name PlTable,
      td_cols =
        [(new_column (players_name PlId) TUuid)
           \<lparr>cd_not_null := True, cd_default := Some (DefCust (ascii ''uuidv7()'')), cd_primary_key := True\<rparr>,
         (new_column (players_name PlAccountId) TUuid)\<lparr>cd_not_null := True\<rparr>,
         (new_column (players_name PlNickname) TText)\<lparr>cd_not_null := True\<rparr>,
         (new_column (players_name PlLevel) TInteger)\<lparr>cd_not_null := True, cd_default := Some (DefInt 1)\<rparr>,
         (new_column (players_name PlExp) TBigInt)\<lparr>cd_not_null := True, cd_default := Some (DefInt 0)\<rparr>,
         new_column (players_name PlLastLoginAt) TTimestampTz,
         (new_column (players_name PlCreatedAt) TTimestampTz)
           \<lparr>cd_not_null := True, cd_default := Some DefCurrentTimestamp\<rparr>],
      td_fks =
        [\<lparr>fk_name = ascii ''fk_players_account_id'', fk_column = players_name PlAccountId,
          fk_target = (accounts_name AccTable, accounts_name AccId), fk_on_delete = FkRestrict\<rparr>]\<rparr>"

definition players_index :: index_def where
  "players_index =
     \<lparr>ix_name = ascii ''idx_players_account_id'', ix_table = players_name PlTable, ix_cols = [players_name PlAccountId]\<rparr>"

definition create_players_up :: "'s schema_manager \<Rightarrow> 's \<Rightarrow> (unit, db_err) result \<times> 's" where
  "create_players_up M s = st_then (sm_create_table M players_table s) (\<lambda>_. sm_create_index M players_index)"

definition create_players_down :: "'s schema_manager \<Rightarrow> 's \<Rightarrow> (unit, db_err) result \<times> 's" where
  "create_players_down M s =
     st_then (sm_drop_index M (ascii ''idx_players_account_id'') (players_name PlTable) s)
       (\<lambda>_. sm_drop_table M (players_name PlTable))"

definition audit_logs_table :: table_def where
  "audit_logs_table =
     \<lparr>td_name = audit_name AuTable,
      td_cols =
        [(new_column (audit_name AuId) TUuid)
           \<lparr>cd_not_null := True, cd_default := Some (DefCust (ascii ''uuidv7()'')), cd_primary_key := True\<rparr>,
         new_column (audit_name AuPlayerId) TUuid,
         (new_column (audit_name AuAction) TText)\<lparr>cd_not_null := True\<rparr>,
         new_column (audit_name AuDetail) TJsonb,
         (new_column (audit_name AuCreatedAt) TTimestampTz)
           \<lparr>cd_not_null := True, cd_default := Some DefCurrentTimestamp\<rparr>],
      td_fks =
        [\<lparr>fk_name = ascii ''fk_audit_logs_player_id'', fk_column = audit_name AuPlayerId,
          fk_target = (players_name PlTable, players_name PlId), fk_on_delete = FkSetNull\<rparr>]\<rparr>"

definition audit_logs_index :: index_def where
  "audit_logs_index =
     \<lparr>ix_name = ascii ''idx_audit_logs_player_id_created_at'', ix_table = audit_name AuTable,
      ix_cols = [audit_name AuPlayerId, audit_name AuCreatedAt]\<rparr>"

definition create_audit_logs_up :: "'s schema_manager \<Rightarrow> 's \<Rightarrow> (unit, db_err) result \<times> 's" where
  "create_audit_logs_up M s = st_then (sm_create_table M audit_logs_table s) (\<lambda>_. sm_create_index M audit_logs_index)"

definition create_audit_logs_down :: "'s schema_manager \<Rightarrow> 's \<Rightarrow> (unit, db_err) result \<times> 's" where
  "create_audit_logs_down M s =
     st_then (sm_drop_index M (ascii ''idx_audit_logs_player_id_created_at'') (audit_name AuTable) s)
       (\<lambda>_. sm_drop_table M (audit_name AuTable))"

record 's migration =
  mg_name :: rstring
  mg_up :: "'s \<Rightarrow> (unit, db_err) result \<times> 's"
  mg_down :: "'s \<Rightarrow> (unit, db_err) result \<times> 's"

definition Migrator_migrations :: "'s schema_manager \<Rightarrow> 's migration list" where
  "Migrator_migrations M =
     [\<lparr>mg_name = ascii ''m20250904_000001_create_accounts'', mg_up = create_accounts_up M, mg_down = create_accounts_down M\<rparr>,
      \<lparr>mg_name = ascii ''m20250904_000002_create_players'', mg_up = create_players_up M, mg_down = create_players_down M\<rparr>,
      \<lparr>mg_name = ascii ''m20250904_000003_create_audit_logs'', mg_up = create_audit_logs_up M, mg_down = create_audit_logs_down M\<rparr>]"

text \<open>
  \<open>migrator_up\<close> is \<^verbatim>\<open>MigratorTrait::up(db, None)\<close>: it keeps the history of migrations in a table of its own and runs those
  that are not yet in it (\<open>migrator_spec\<close>). \<^verbatim>\<open>DeriveMigrationName\<close> names a migration after its file.
\<close>

definition run_migrations ::
  "('s migration list \<Rightarrow> 's \<Rightarrow> (unit, db_err) result \<times> 's) \<Rightarrow> 's schema_manager \<Rightarrow> 's \<Rightarrow> (unit, db_err) result \<times> 's" where
  "run_migrations migrator_up M s = migrator_up (Migrator_migrations M) s"

section \<open>Rows\<close>

text \<open>The entities: \<^verbatim>\<open>DeriveEntityModel\<close> names the columns after the fields, in their order.\<close>

datatype 'j sql_value =
  VUuid uuid | VText rstring | VSmallInt i16 | VInt i32 | VBigInt i64 | VTimestamp fixed_datetime | VJson 'j | VNull

definition or_null :: "('a \<Rightarrow> 'j sql_value) \<Rightarrow> 'a option \<Rightarrow> 'j sql_value" where
  "or_null f o' = (case o' of None \<Rightarrow> VNull | Some a \<Rightarrow> f a)"

definition account_row :: "account_model \<Rightarrow> (rstring \<times> 'j sql_value) list" where
  "account_row m =
     [(ascii ''id'', VUuid (am_id m)), (ascii ''username'', VText (am_username m)),
      (ascii ''password_hash'', VText (am_password_hash m)), (ascii ''status'', VSmallInt (am_status m)),
      (ascii ''banned_reason'', or_null VText (am_banned_reason m)),
      (ascii ''banned_until'', or_null VTimestamp (am_banned_until m)), (ascii ''created_at'', VTimestamp (am_created_at m))]"

definition player_row :: "player_model \<Rightarrow> (rstring \<times> 'j sql_value) list" where
  "player_row m =
     [(ascii ''id'', VUuid (pm_id m)), (ascii ''account_id'', VUuid (pm_account_id m)),
      (ascii ''nickname'', VText (pm_nickname m)), (ascii ''level'', VInt (pm_level m)), (ascii ''exp'', VBigInt (pm_exp m)),
      (ascii ''last_login_at'', or_null VTimestamp (pm_last_login_at m)), (ascii ''created_at'', VTimestamp (pm_created_at m))]"

definition audit_row :: "'j audit_model \<Rightarrow> (rstring \<times> 'j sql_value) list" where
  "audit_row m =
     [(ascii ''id'', VUuid (au_id m)), (ascii ''player_id'', or_null VUuid (au_player_id m)),
      (ascii ''action'', VText (au_action m)), (ascii ''detail'', or_null VJson (au_detail m)),
      (ascii ''created_at'', VTimestamp (au_created_at m))]"

fun value_has_type :: "'j sql_value \<Rightarrow> sql_type \<Rightarrow> bool" where
  "value_has_type VNull t = True"
| "value_has_type (VUuid _) t = (t = TUuid)"
| "value_has_type (VText _) t = (t = TText \<or> t = TCustom (ascii ''citext''))"
| "value_has_type (VSmallInt _) t = (t = TSmallInt)"
| "value_has_type (VInt _) t = (t = TInteger)"
| "value_has_type (VBigInt _) t = (t = TBigInt)"
| "value_has_type (VTimestamp _) t = (t = TTimestampTz)"
| "value_has_type (VJson _) t = (t = TJsonb)"

definition column_accepts :: "column_def \<Rightarrow> rstring \<times> 'j sql_value \<Rightarrow> bool" where
  "column_accepts c nv \<longleftrightarrow>
     fst nv = cd_name c \<and> value_has_type (snd nv) (cd_type c) \<and> (cd_not_null c \<longrightarrow> snd nv \<noteq> VNull)"

definition row_typed :: "table_def \<Rightarrow> (rstring \<times> 'j sql_value) list \<Rightarrow> bool" where
  "row_typed t row \<longleftrightarrow> list_all2 column_accepts (td_cols t) row"

section \<open>The documented behaviour of schema changes\<close>

record schema =
  sc_tables :: "rstring \<Rightarrow> table_def option"
  sc_indexes :: "rstring \<Rightarrow> index_def option"
  sc_types :: "rstring set"

definition column_of :: "table_def \<Rightarrow> rstring \<Rightarrow> column_def option" where
  "column_of t n = List.find (\<lambda>c. cd_name c = n) (td_cols t)"

text \<open>
  A table can be created when its name is free, its columns have different names and known
  types, and every foreign key refers from an own column to a key column of the same type.
\<close>

definition type_known :: "schema \<Rightarrow> sql_type \<Rightarrow> bool" where
  "type_known S t = (case t of TCustom n \<Rightarrow> n \<in> sc_types S | _ \<Rightarrow> True)"

definition fk_valid :: "schema \<Rightarrow> table_def \<Rightarrow> foreign_key_def \<Rightarrow> bool" where
  "fk_valid S t k =
     (case (column_of t (fk_column k), Option.bind (sc_tables S (fst (fk_target k))) (\<lambda>u. column_of u (snd (fk_target k)))) of
        (Some c, Some c') \<Rightarrow> cd_type c = cd_type c' \<and> (cd_primary_key c' \<or> cd_unique_key c')
      | _ \<Rightarrow> False)"

definition table_valid :: "schema \<Rightarrow> table_def \<Rightarrow> bool" where
  "table_valid S t \<longleftrightarrow>
     sc_tables S (td_name t) = None \<and> distinct (map cd_name (td_cols t)) \<and>
     list_all (\<lambda>c. type_known S (cd_type c)) (td_cols t) \<and> list_all (fk_valid S t) (td_fks t)"

definition index_valid :: "schema \<Rightarrow> index_def \<Rightarrow> bool" where
  "index_valid S i \<longleftrightarrow>
     sc_indexes S (ix_name i) = None \<and>
     (case sc_tables S (ix_table i) of None \<Rightarrow> False | Some t \<Rightarrow> list_all (\<lambda>n. column_of t n \<noteq> None) (ix_cols i))"

text \<open>A table cannot be dropped while another one refers to it.\<close>

definition table_droppable :: "schema \<Rightarrow> rstring \<Rightarrow> bool" where
  "table_droppable S n \<longleftrightarrow>
     sc_tables S n \<noteq> None \<and> (\<forall>m t. sc_tables S m = Some t \<longrightarrow> m \<noteq> n \<longrightarrow> list_all (\<lambda>k. fst (fk_target k) \<noteq> n) (td_fks t))"

definition drop_table_indexes :: "rstring \<Rightarrow> (rstring \<Rightarrow> index_def option) \<Rightarrow> rstring \<Rightarrow> index_def option" where
  "drop_table_indexes n ix i = (case ix i of Some d \<Rightarrow> if ix_table d = n then None else Some d | None \<Rightarrow> None)"

definition manager_spec :: "'s schema_manager \<Rightarrow> ('s \<Rightarrow> schema) \<Rightarrow> bool" where
  "manager_spec M sch \<longleftrightarrow>
     (\<forall>t s. if table_valid (sch s) t
        then fst (sm_create_table M t s) = Ok () \<and>
             sch (snd (sm_create_table M t s)) = (sch s)\<lparr>sc_tables := (sc_tables (sch s))(td_name t \<mapsto> t)\<rparr>
        else is_err (fst (sm_create_table M t s)) \<and> sch (snd (sm_create_table M t s)) = sch s) \<and>
     (\<forall>i s. if index_valid (sch s) i
        then fst (sm_create_index M i s) = Ok () \<and>
             sch (snd (sm_create_index M i s)) = (sch s)\<lparr>sc_indexes := (sc_indexes (sch s))(ix_name i \<mapsto> i)\<rparr>
        else is_err (fst (sm_create_index M i s)) \<and> sch (snd (sm_create_index M i s)) = sch s) \<and>
     (\<forall>i n s. if (\<exists>d. sc_indexes (sch s) i = Some d)
        then fst (sm_drop_index M i n s) = Ok () \<and>
             sch (snd (sm_drop_index M i n s)) = (sch s)\<lparr>sc_indexes := (sc_indexes (sch s))(i := None)\<rparr>
        else is_err (fst (sm_drop_index M i n s)) \<and> sch (snd (sm_drop_index M i n s)) = sch s) \<and>
     (\<forall>n s. if table_droppable (sch s) n
        then fst (sm_drop_table M n s) = Ok () \<and>
             sch (snd (sm_drop_table M n s)) = (sch s)\<lparr>sc_tables := (sc_tables (sch s))(n := None),
                                                         sc_indexes := drop_table_indexes n (sc_indexes (sch s))\<rparr>
        else is_err (fst (sm_drop_table M n s)) \<and> sch (snd (sm_drop_table M n s)) = sch s)"

fun up_all :: "'s migration list \<Rightarrow> 's \<Rightarrow> (unit, db_err) result \<times> 's" where
  "up_all [] s = (Ok (), s)"
| "up_all (m # ms) s = st_then (mg_up m s) (\<lambda>_. up_all ms)"

text \<open>
  The documented behaviour of the migrator: it creates the table \<^verbatim>\<open>seaql_migrations\<close> of the applied migrations unless
  it exists, runs those that are not recorded there in order and records them; on PostgreSQL all of that is one
  transaction, so that nothing stays of a run that fails. \<open>applied\<close> are the recorded names.
\<close>

definition with_history :: "table_def \<Rightarrow> schema \<Rightarrow> schema" where
  "with_history h S =
     (if sc_tables S (td_name h) = None then S\<lparr>sc_tables := (sc_tables S)(td_name h \<mapsto> h)\<rparr> else S)"

definition migrator_ran ::
  "('s \<Rightarrow> schema) \<Rightarrow> ('s \<Rightarrow> rstring list) \<Rightarrow> 's migration list \<Rightarrow> 's \<Rightarrow> 's \<Rightarrow> (unit, db_err) result \<times> 's \<Rightarrow> bool" where
  "migrator_ran sch applied pending s s0 outcome \<longleftrightarrow>
     (case up_all pending s0 of
        (Ok _, s1) \<Rightarrow> fst outcome = Ok () \<and> sch (snd outcome) = sch s1 \<and> applied (snd outcome) = applied s @ map mg_name pending
      | (Err e, s1) \<Rightarrow> is_err (fst outcome) \<and> sch (snd outcome) = sch s \<and> applied (snd outcome) = applied s)"

definition migrator_spec ::
  "('s migration list \<Rightarrow> 's \<Rightarrow> (unit, db_err) result \<times> 's) \<Rightarrow> table_def \<Rightarrow> ('s \<Rightarrow> schema) \<Rightarrow> ('s \<Rightarrow> rstring list) \<Rightarrow> bool" where
  "migrator_spec migrator_up h sch applied \<longleftrightarrow>
     td_name h = ascii ''seaql_migrations'' \<and> td_fks h = [] \<and>
     (\<forall>ms s. \<exists>s0. sch s0 = with_history h (sch s) \<and>
        migrator_ran sch applied (filter (\<lambda>m. mg_name m \<notin> set (applied s)) ms) s s0 (migrator_up ms s))"

section \<open>The schema\<close>

declare ascii_eq_iff [simp]

definition installed :: "schema \<Rightarrow> schema" where
  "installed S =
     S\<lparr>sc_tables := (sc_tables S)(accounts_name AccTable \<mapsto> accounts_table, players_name PlTable \<mapsto> players_table,
                     audit_name AuTable \<mapsto> audit_logs_table),
       sc_indexes := (sc_indexes S)(ix_name players_index \<mapsto> players_index, ix_name audit_logs_index \<mapsto> audit_logs_index)\<rparr>"

definition blank :: "schema \<Rightarrow> bool" where
  "blank S \<longleftrightarrow> (\<forall>n. sc_tables S n = None) \<and> (\<forall>n. sc_indexes S n = None)"

text \<open>What the migrations find: no index, none of their tables, and no table that refers to another.\<close>

definition vacant :: "schema \<Rightarrow> bool" where
  "vacant S \<longleftrightarrow> (\<forall>n t. sc_tables S n = Some t \<longrightarrow> td_fks t = []) \<and> (\<forall>n. sc_indexes S n = None) \<and>
     sc_tables S (accounts_name AccTable) = None \<and> sc_tables S (players_name PlTable) = None \<and> sc_tables S (audit_name AuTable) = None"

lemma history_vacant:
  assumes "blank S" and "td_name h = ascii ''seaql_migrations''" and "td_fks h = []"
  shows "vacant (with_history h S)" and "sc_types (with_history h S) = sc_types S"
    and "sc_tables (with_history h S) = [td_name h \<mapsto> h]" and "sc_indexes (with_history h S) = (\<lambda>_. None)"
  using assms by (auto simp: vacant_def with_history_def blank_def fun_eq_iff split: if_splits)

lemmas table_defs = accounts_table_def players_table_def audit_logs_table_def players_index_def audit_logs_index_def
  new_column_def

lemma manager_specD:
  assumes "manager_spec M sch"
  shows "table_valid (sch s) t \<Longrightarrow> \<exists>s'. sm_create_table M t s = (Ok (), s') \<and>
      sch s' = (sch s)\<lparr>sc_tables := (sc_tables (sch s))(td_name t \<mapsto> t)\<rparr>"
    and "\<not> table_valid (sch s) t \<Longrightarrow> \<exists>e s'. sm_create_table M t s = (Err e, s') \<and> sch s' = sch s"
    and "index_valid (sch s) i \<Longrightarrow> \<exists>s'. sm_create_index M i s = (Ok (), s') \<and>
      sch s' = (sch s)\<lparr>sc_indexes := (sc_indexes (sch s))(ix_name i \<mapsto> i)\<rparr>"
    and "sc_indexes (sch s) n = Some d \<Longrightarrow> \<exists>s'. sm_drop_index M n k s = (Ok (), s') \<and>
      sch s' = (sch s)\<lparr>sc_indexes := (sc_indexes (sch s))(n := None)\<rparr>"
    and "table_droppable (sch s) n \<Longrightarrow> \<exists>s'. sm_drop_table M n s = (Ok (), s') \<and>
      sch s' = (sch s)\<lparr>sc_tables := (sc_tables (sch s))(n := None), sc_indexes := drop_table_indexes n (sc_indexes (sch s))\<rparr>"
proof -
  note law = assms [unfolded manager_spec_def]
  show "table_valid (sch s) t \<Longrightarrow> \<exists>s'. sm_create_table M t s = (Ok (), s') \<and>
      sch s' = (sch s)\<lparr>sc_tables := (sc_tables (sch s))(td_name t \<mapsto> t)\<rparr>"
    using law [THEN conjunct1, rule_format, of s t] by (cases "sm_create_table M t s") auto
  show "\<not> table_valid (sch s) t \<Longrightarrow> \<exists>e s'. sm_create_table M t s = (Err e, s') \<and> sch s' = sch s"
    using law [THEN conjunct1, rule_format, of s t]
    by (cases "sm_create_table M t s"; cases "fst (sm_create_table M t s)") auto
  show "index_valid (sch s) i \<Longrightarrow> \<exists>s'. sm_create_index M i s = (Ok (), s') \<and>
      sch s' = (sch s)\<lparr>sc_indexes := (sc_indexes (sch s))(ix_name i \<mapsto> i)\<rparr>"
    using law [THEN conjunct2, THEN conjunct1, rule_format, of s i] by (cases "sm_create_index M i s") auto
  show "sc_indexes (sch s) n = Some d \<Longrightarrow> \<exists>s'. sm_drop_index M n k s = (Ok (), s') \<and>
      sch s' = (sch s)\<lparr>sc_indexes := (sc_indexes (sch s))(n := None)\<rparr>"
    using law [THEN conjunct2, THEN conjunct2, THEN conjunct1, rule_format, of s n k] by (cases "sm_drop_index M n k s") auto
  show "table_droppable (sch s) n \<Longrightarrow> \<exists>s'. sm_drop_table M n s = (Ok (), s') \<and>
      sch s' = (sch s)\<lparr>sc_tables := (sc_tables (sch s))(n := None), sc_indexes := drop_table_indexes n (sc_indexes (sch s))\<rparr>"
    using law [THEN conjunct2, THEN conjunct2, THEN conjunct2, rule_format, of s n] by (cases "sm_drop_table M n s") auto
qed

lemma up_all_installs:
  assumes spec: "manager_spec M sch" and vacant: "vacant (sch s)" and citext: "ascii ''citext'' \<in> sc_types (sch s)"
  shows "\<exists>s'. up_all (Migrator_migrations M) s = (Ok (), s') \<and> sch s' = installed (sch s)"
proof -
  let ?T = "sc_tables (sch s)"
  have none: "?T (ascii ''accounts'') = None" "?T (ascii ''players'') = None" "?T (ascii ''audit_logs'') = None"
    "sc_indexes (sch s) n = None" for n using vacant by (auto simp: vacant_def)
  have tabs: "sc_indexes (sch s) = (\<lambda>_. None)" by (auto simp: fun_eq_iff none)
  have "table_valid (sch s) accounts_table"
    using citext by (simp add: table_valid_def table_defs type_known_def none)
  then obtain s1 where s1: "sm_create_table M accounts_table s = (Ok (), s1)"
      "sch s1 = (sch s)\<lparr>sc_tables := ?T(accounts_name AccTable \<mapsto> accounts_table)\<rparr>"
    using manager_specD(1) [OF spec, of s accounts_table] by (auto simp: tabs table_defs)
  have "table_valid (sch s1) players_table"
    by (simp add: s1(2) table_valid_def table_defs type_known_def fk_valid_def column_of_def none)
  then obtain s2 where s2: "sm_create_table M players_table s1 = (Ok (), s2)"
      "sch s2 = (sch s)\<lparr>sc_tables := ?T(accounts_name AccTable \<mapsto> accounts_table, players_name PlTable \<mapsto> players_table)\<rparr>"
    using manager_specD(1) [OF spec, of s1 players_table] by (auto simp: s1(2) table_defs)
  have "index_valid (sch s2) players_index"
    by (simp add: s2(2) index_valid_def table_defs column_of_def none)
  then obtain s3 where s3: "sm_create_index M players_index s2 = (Ok (), s3)"
      "sch s3 = (sch s2)\<lparr>sc_indexes := [ix_name players_index \<mapsto> players_index]\<rparr>"
    using manager_specD(3) [OF spec, of s2 players_index] by (auto simp: s2(2) tabs)
  have "table_valid (sch s3) audit_logs_table"
    by (simp add: s3(2) s2(2) table_valid_def table_defs type_known_def fk_valid_def column_of_def none)
  then obtain s4 where s4: "sm_create_table M audit_logs_table s3 = (Ok (), s4)"
      "sch s4 = (sch s3)\<lparr>sc_tables := (sc_tables (sch s3))(audit_name AuTable \<mapsto> audit_logs_table)\<rparr>"
    using manager_specD(1) [OF spec, of s3 audit_logs_table] by (auto simp: table_defs)
  have "index_valid (sch s4) audit_logs_index"
    by (simp add: s4(2) s3(2) s2(2) index_valid_def table_defs column_of_def none)
  then obtain s5 where "sm_create_index M audit_logs_index s4 = (Ok (), s5)"
      "sch s5 = (sch s4)\<lparr>sc_indexes := (sc_indexes (sch s4))(ix_name audit_logs_index \<mapsto> audit_logs_index)\<rparr>"
    using manager_specD(3) [OF spec, of s4 audit_logs_index] by auto
  with s1(1) s2(1) s3 s4 s2(2) show ?thesis
    by (simp add: tabs Migrator_migrations_def create_accounts_up_def create_players_up_def create_audit_logs_up_def installed_def)
qed

lemma up_all_without_citext:
  assumes spec: "manager_spec M sch" and citext: "ascii ''citext'' \<notin> sc_types (sch s)"
  shows "\<exists>e s'. up_all (Migrator_migrations M) s = (Err e, s') \<and> sch s' = sch s"
proof -
  have "\<not> table_valid (sch s) accounts_table"
    using citext by (simp add: table_valid_def table_defs type_known_def)
  from manager_specD(2) [OF spec this] show ?thesis by (auto simp: Migrator_migrations_def create_accounts_up_def)
qed

lemma rows_typed:
  "row_typed accounts_table (account_row m :: (rstring \<times> 'j sql_value) list)"
  "row_typed players_table (player_row p :: (rstring \<times> 'j sql_value) list)"
  "row_typed audit_logs_table (audit_row (a :: 'j audit_model))"
  by (simp_all add: row_typed_def table_defs account_row_def player_row_def audit_row_def column_accepts_def or_null_def
      split: option.split)

fun down_all :: "'s migration list \<Rightarrow> 's \<Rightarrow> (unit, db_err) result \<times> 's" where
  "down_all [] s = (Ok (), s)"
| "down_all (m # ms) s = st_then (mg_down m s) (\<lambda>_. down_all ms)"

lemma down_all_removes:
  assumes spec: "manager_spec M sch" and inst: "sch s = installed S" and vacant: "vacant S"
  shows "\<exists>s'. down_all (rev (Migrator_migrations M)) s = (Ok (), s') \<and> sch s' = S"
proof -
  let ?T = "sc_tables S"
  have none: "?T (ascii ''accounts'') = None" "?T (ascii ''players'') = None" "?T (ascii ''audit_logs'') = None"
    and fks: "?T n = Some t \<Longrightarrow> td_fks t = []" for n t using vacant by (auto simp: vacant_def)
  have tabs: "sc_indexes S = (\<lambda>_. None)" using vacant by (auto simp: vacant_def fun_eq_iff)
  have d1: "sc_indexes (sch s) (ix_name audit_logs_index) = Some audit_logs_index" by (simp add: inst installed_def)
  then obtain s1 where s1: "sm_drop_index M (ix_name audit_logs_index) (audit_name AuTable) s = (Ok (), s1)"
      "sch s1 = S\<lparr>sc_tables := sc_tables (installed S), sc_indexes := [ix_name players_index \<mapsto> players_index]\<rparr>"
    using manager_specD(4) [OF spec d1, of "audit_name AuTable"] by (auto simp: inst installed_def table_defs tabs fun_upd_twist)
  have "table_droppable (sch s1) (audit_name AuTable)"
    by (simp add: s1(2) installed_def table_droppable_def table_defs fks)
  then obtain s2 where s2: "sm_drop_table M (audit_name AuTable) s1 = (Ok (), s2)"
      "sch s2 = S\<lparr>sc_tables := ?T(accounts_name AccTable \<mapsto> accounts_table, players_name PlTable \<mapsto> players_table),
                 sc_indexes := [ix_name players_index \<mapsto> players_index]\<rparr>"
    using manager_specD(5) [OF spec, of s1 "audit_name AuTable"]
    by (auto simp: s1(2) installed_def fun_eq_iff drop_table_indexes_def table_defs none)
  have d3: "sc_indexes (sch s2) (ix_name players_index) = Some players_index" by (simp add: s2(2))
  then obtain s3 where s3: "sm_drop_index M (ix_name players_index) (players_name PlTable) s2 = (Ok (), s3)"
      "sch s3 = S\<lparr>sc_tables := ?T(accounts_name AccTable \<mapsto> accounts_table, players_name PlTable \<mapsto> players_table)\<rparr>"
    using manager_specD(4) [OF spec d3, of "players_name PlTable"] by (auto simp: s2(2) tabs)
  have "table_droppable (sch s3) (players_name PlTable)"
    by (simp add: s3(2) table_droppable_def table_defs fks)
  then obtain s4 where s4: "sm_drop_table M (players_name PlTable) s3 = (Ok (), s4)"
      "sch s4 = S\<lparr>sc_tables := ?T(accounts_name AccTable \<mapsto> accounts_table)\<rparr>"
    using manager_specD(5) [OF spec, of s3 "players_name PlTable"]
    by (auto simp: s3(2) tabs fun_eq_iff drop_table_indexes_def none)
  have "table_droppable (sch s4) (accounts_name AccTable)" by (simp add: s4(2) table_droppable_def fks)
  then obtain s5 where "sm_drop_table M (accounts_name AccTable) s4 = (Ok (), s5)" "sch s5 = S"
    using manager_specD(5) [OF spec, of s4 "accounts_name AccTable"]
    by (auto simp: s4(2) tabs fun_eq_iff drop_table_indexes_def none)
  with s1(1) s2(1) s3(1) s4(1) show ?thesis
    by (simp add: Migrator_migrations_def create_accounts_down_def create_players_down_def create_audit_logs_down_def
        players_index_def audit_logs_index_def)
qed

section \<open>A manager and a migrator that behave as documented\<close>

definition schema_error :: db_err where
  "schema_error = \<lparr>de_sql_err = None, de_text = []\<rparr>"

text \<open>The state: the schema and the recorded migrations.\<close>

definition try_change :: "(schema \<Rightarrow> bool) \<Rightarrow> (schema \<Rightarrow> schema) \<Rightarrow> schema \<times> 'h \<Rightarrow> (unit, db_err) result \<times> schema \<times> 'h" where
  "try_change ok change s = (if ok (fst s) then (Ok (), change (fst s), snd s) else (Err schema_error, s))"

definition direct_manager :: "(schema \<times> rstring list) schema_manager" where
  "direct_manager =
     \<lparr>sm_create_table = (\<lambda>t. try_change (\<lambda>S. table_valid S t) (\<lambda>S. S\<lparr>sc_tables := (sc_tables S)(td_name t \<mapsto> t)\<rparr>)),
      sm_create_index = (\<lambda>i. try_change (\<lambda>S. index_valid S i) (\<lambda>S. S\<lparr>sc_indexes := (sc_indexes S)(ix_name i \<mapsto> i)\<rparr>)),
      sm_drop_index = (\<lambda>i n. try_change (\<lambda>S. sc_indexes S i \<noteq> None) (\<lambda>S. S\<lparr>sc_indexes := (sc_indexes S)(i := None)\<rparr>)),
      sm_drop_table = (\<lambda>n. try_change (\<lambda>S. table_droppable S n)
         (\<lambda>S. S\<lparr>sc_tables := (sc_tables S)(n := None), sc_indexes := drop_table_indexes n (sc_indexes S)\<rparr>))\<rparr>"

lemma direct_manager_spec: "manager_spec direct_manager fst"
  by (auto simp: manager_spec_def direct_manager_def try_change_def)

definition sample_history :: table_def where
  "sample_history =
     \<lparr>td_name = ascii ''seaql_migrations'',
      td_cols = [(new_column (ascii ''version'') TText)\<lparr>cd_not_null := True, cd_primary_key := True\<rparr>,
                 (new_column (ascii ''applied_at'') TBigInt)\<lparr>cd_not_null := True\<rparr>], td_fks = []\<rparr>"

definition direct_up :: "(schema \<times> rstring list) migration list \<Rightarrow> schema \<times> rstring list \<Rightarrow> (unit, db_err) result \<times> schema \<times> rstring list" where
  "direct_up ms s =
     (let pending = filter (\<lambda>m. mg_name m \<notin> set (snd s)) ms
      in case up_all pending (with_history sample_history (fst s), snd s) of
           (Ok _, s1) \<Rightarrow> (Ok (), fst s1, snd s @ map mg_name pending)
         | (Err e, s1) \<Rightarrow> (Err e, s))"

lemma direct_up_spec: "migrator_spec direct_up sample_history fst snd"
proof -
  have "migrator_ran fst snd (filter (\<lambda>m. mg_name m \<notin> set (snd s)) ms) s (with_history sample_history (fst s), snd s) (direct_up ms s)" for ms s
    by (simp add: migrator_ran_def direct_up_def Let_def split: result.split prod.split)
  moreover have "td_name sample_history = ascii ''seaql_migrations''" "td_fks sample_history = []" by (simp_all add: sample_history_def)
  ultimately show ?thesis unfolding migrator_spec_def by (metis fst_conv)
qed

definition empty_schema :: "rstring set \<Rightarrow> schema" where
  "empty_schema ts = \<lparr>sc_tables = (\<lambda>_. None), sc_indexes = (\<lambda>_. None), sc_types = ts\<rparr>"

section \<open>Properties\<close>

text \<open>One run of the migrator: on a database without its table, and on one where everything is applied.\<close>

lemma migrator_specD:
  assumes "migrator_spec migrator_up h sch applied"
  shows "applied s = [] \<Longrightarrow> \<exists>s0. sch s0 = with_history h (sch s) \<and> migrator_ran sch applied ms s s0 (migrator_up ms s)"
    and "applied s = map mg_name ms \<Longrightarrow> fst (migrator_up ms s) = Ok () \<and> sch (snd (migrator_up ms s)) = with_history h (sch s) \<and>
      applied (snd (migrator_up ms s)) = applied s"
    and "td_name h = ascii ''seaql_migrations''" and "td_fks h = []"
proof -
  note law = assms [unfolded migrator_spec_def, THEN conjunct2, THEN conjunct2, THEN spec [where x = ms], THEN spec [where x = s]]
  show "\<exists>s0. sch s0 = with_history h (sch s) \<and> migrator_ran sch applied ms s s0 (migrator_up ms s)" if "applied s = []"
    using law that by simp
  assume a: "applied s = map mg_name ms"
  then have "filter (\<lambda>m. mg_name m \<notin> set (applied s)) ms = []" by (auto simp: filter_empty_conv)
  with law a show "fst (migrator_up ms s) = Ok () \<and> sch (snd (migrator_up ms s)) = with_history h (sch s) \<and>
      applied (snd (migrator_up ms s)) = applied s" by (auto simp: migrator_ran_def)
qed (use assms in \<open>simp_all add: migrator_spec_def\<close>)

lemma migrator_ranD:
  "migrator_ran sch applied ms s s0 outcome \<Longrightarrow> up_all ms s0 = (Ok x, s1) \<Longrightarrow>
     fst outcome = Ok () \<and> sch (snd outcome) = sch s1 \<and> applied (snd outcome) = applied s @ map mg_name ms"
  "migrator_ran sch applied ms s s0 outcome \<Longrightarrow> up_all ms s0 = (Err e, s1) \<Longrightarrow> is_err (fst outcome) \<and> sch (snd outcome) = sch s"
  by (simp_all add: migrator_ran_def)

text \<open>
  (C24) The migrations and the entities agree. On an empty database that knows the type \<^verbatim>\<open>citext\<close> the
  migrations succeed and leave exactly the migrator's own table of applied migrations, which then names all three, and
  the three tables and the two indexes; every row that
  the converters and the audit logger write is well typed for its table: the same columns in
  the same order, each value of the type of its column, and no null where the column forbids it.
  Running the migrations again, as the next start of the server does, succeeds and changes nothing. Taking them
  back in reverse order succeeds and leaves nothing but the table of applied migrations.
\<close>

theorem migrations_match_entities:
  assumes "manager_spec M sch" and "migrator_spec migrator_up h sch applied" and "blank (sch s)" and "applied s = []"
    and "ascii ''citext'' \<in> sc_types (sch s)"
  shows "(case run_migrations migrator_up M s of (res, s') \<Rightarrow>
      res = Ok () \<and>
      sc_tables (sch s') = [ascii ''seaql_migrations'' \<mapsto> h, ascii ''accounts'' \<mapsto> accounts_table, ascii ''players'' \<mapsto> players_table,
        ascii ''audit_logs'' \<mapsto> audit_logs_table] \<and>
      sc_indexes (sch s') = [ix_name players_index \<mapsto> players_index, ix_name audit_logs_index \<mapsto> audit_logs_index] \<and>
      applied s' = map mg_name (Migrator_migrations M) \<and>
      (case run_migrations migrator_up M s' of (res', s'') \<Rightarrow> res' = Ok () \<and> sch s'' = sch s' \<and> applied s'' = applied s') \<and>
      (case down_all (rev (Migrator_migrations M)) s' of (res', s'') \<Rightarrow>
         res' = Ok () \<and> sc_tables (sch s'') = [ascii ''seaql_migrations'' \<mapsto> h] \<and> sc_indexes (sch s'') = (\<lambda>_. None))) \<and>
    row_typed accounts_table (account_row (account_to_active a) :: (rstring \<times> 'j sql_value) list) \<and>
    row_typed players_table (player_row (player_to_active p) :: (rstring \<times> 'j sql_value) list) \<and>
    row_typed audit_logs_table (audit_row (au :: 'j audit_model))"
proof -
  let ?ms = "Migrator_migrations M"
  note h = migrator_specD(3,4) [OF assms(2)]
  note hist = history_vacant [OF assms(3) h]
  obtain s0 where s0: "sch s0 = with_history h (sch s)" "migrator_ran sch applied ?ms s s0 (migrator_up ?ms s)"
    using migrator_specD(1) [OF assms(2,4)] by blast
  obtain s1 where s1: "up_all ?ms s0 = (Ok (), s1)" "sch s1 = installed (with_history h (sch s))"
    using up_all_installs [OF assms(1), of s0, unfolded s0(1), OF hist(1)] hist(2) assms(5) by blast
  note ran = migrator_ranD(1) [OF s0(2) s1(1), folded run_migrations_def, unfolded assms(4) append_Nil]
  obtain s' where run: "run_migrations migrator_up M s = (Ok (), s')"
    and s': "sch s' = installed (with_history h (sch s))" "applied s' = map mg_name ?ms"
    using ran s1(2) by (metis prod.collapse)
  have "with_history h (sch s') = sch s'" unfolding s'(1) by (simp add: installed_def with_history_def [of h "_\<lparr>sc_indexes := _\<rparr>"] hist(3))
  with migrator_specD(2) [OF assms(2) s'(2)] obtain s2 where again: "run_migrations migrator_up M s' = (Ok (), s2)"
      "sch s2 = sch s'" "applied s2 = applied s'"
    unfolding run_migrations_def by (metis prod.collapse)
  obtain s'' where down: "down_all (rev ?ms) s' = (Ok (), s'')" "sch s'' = with_history h (sch s)"
    using down_all_removes [OF assms(1) s'(1) hist(1)] by blast
  have tables: "sc_tables (sch s') = [ascii ''seaql_migrations'' \<mapsto> h, ascii ''accounts'' \<mapsto> accounts_table,
      ascii ''players'' \<mapsto> players_table, ascii ''audit_logs'' \<mapsto> audit_logs_table]"
    "sc_indexes (sch s') = [ix_name players_index \<mapsto> players_index, ix_name audit_logs_index \<mapsto> audit_logs_index]"
    unfolding s'(1) by (simp_all add: installed_def hist(3,4) h(1))
  show ?thesis
    unfolding run prod.case down(1) again(1) using again(2,3) tables s'(2) hist(3,4) h(1) rows_typed down(2) by (intro conjI) simp_all
qed

text \<open>Witness: the migrations on an empty database with the type installed.\<close>

theorem migrations_match_entities_witness:
  "fst (run_migrations direct_up direct_manager (empty_schema {ascii ''citext''}, [])) = Ok () \<and>
   row_typed players_table (player_row (player_to_active (Player_create 1 (AccountId 2) (Nickname [65]) 0)) :: (rstring \<times> unit sql_value) list)"
proof -
  let ?s = "(empty_schema {ascii ''citext''}, [])" and ?p = "Player_create 1 (AccountId 2) (Nickname [65]) 0"
  have b: "blank (fst ?s)" "snd ?s = []" "ascii ''citext'' \<in> sc_types (fst ?s)" by (simp_all add: blank_def empty_schema_def)
  from migrations_match_entities [where s = ?s and p = ?p, OF direct_manager_spec direct_up_spec b]
  show ?thesis by (cases "run_migrations direct_up direct_manager ?s") auto
qed

text \<open>
  The migrations do not install the type they need: on an empty database without \<^verbatim>\<open>citext\<close> the
  first migration fails, the start of the server fails with it, and no table exists
  afterwards. None of the three migrations creates the extension.
\<close>

lemma migrations_need_citext:
  assumes "manager_spec M sch" and "migrator_spec migrator_up h sch applied" and "applied s = []"
    and "ascii ''citext'' \<notin> sc_types (sch s)"
  shows "is_err (fst (run_migrations migrator_up M s)) \<and> sch (snd (run_migrations migrator_up M s)) = sch s"
proof -
  obtain s0 where s0: "sch s0 = with_history h (sch s)"
    "migrator_ran sch applied (Migrator_migrations M) s s0 (migrator_up (Migrator_migrations M) s)"
    using migrator_specD(1) [OF assms(2,3)] by blast
  have "sc_types (with_history h (sch s)) = sc_types (sch s)" by (simp add: with_history_def)
  then obtain e s1 where e: "up_all (Migrator_migrations M) s0 = (Err e, s1)"
    using up_all_without_citext [OF assms(1), of s0, unfolded s0(1)] assms(4) by blast
  from migrator_ranD(2) [OF s0(2) e] show ?thesis unfolding run_migrations_def .
qed

end
