(* ===== verification/LX_Password.thy ===== *)
theory LX_Password
  imports LX_Auth
begin

text \<open>
  \<^verbatim>\<open>crates/infrastructure/src/password.rs\<close>: the Argon2 password hasher and its limit on concurrent
  work. The crate \<^verbatim>\<open>argon2\<close> is not part of the repository; what the code calls of it is the record
  \<open>argon2\<close>, over its parameter type \<open>'p\<close> and its parsed hash \<open>'h\<close>. A call takes a permit, moves it
  into a blocking worker and waits for it; start, end and cancellation of a call are separate
  steps, since the calls of different requests interleave.
\<close>

datatype verify_error = PasswordInvalid | VerifyOther rstring

record ('p, 'h) argon2 =
  a2_params_new :: "u32 \<Rightarrow> u32 \<Rightarrow> u32 \<Rightarrow> ('p, rstring) result"
  a2_hash_password :: "u8 list \<Rightarrow> 'p \<Rightarrow> rstring \<Rightarrow> (rstring, rstring) result"
  a2_phc_new :: "rstring \<Rightarrow> ('h, rstring) result"
  a2_verify_password :: "rstring \<Rightarrow> 'h \<Rightarrow> (unit, verify_error) result"

section \<open>The hasher and its permits\<close>

text \<open>
  \<open>ah_available\<close> are the free permits of the semaphore, \<open>ah_workers\<close> the running workers, each with
  the mark whether its request still waits.
\<close>

record 'p argon2_hasher =
  ah_params :: 'p
  ah_available :: nat
  ah_workers :: "(nat \<times> bool) list"

definition Argon2PasswordHasher_new ::
  "('p, 'h) argon2 \<Rightarrow> nat \<Rightarrow> u32 \<Rightarrow> u32 \<Rightarrow> u32 \<Rightarrow> usize \<Rightarrow> ('p argon2_hasher, app_error) result" where
  "Argon2PasswordHasher_new A max_permits memory_kb iterations parallelism max_concurrency =
     (if max_concurrency = 0 \<or> unat max_concurrency > max_permits
      then Err (Internal (ascii ''invalid password concurrency''))
      else and_then (map_err (\<lambda>err. Internal (pre_argon2_params @ err)) (a2_params_new A memory_kb iterations parallelism))
             (\<lambda>params. Ok \<lparr>ah_params = params, ah_available = unat max_concurrency, ah_workers = []\<rparr>))"

text \<open>The result of a worker: what \<^verbatim>\<open>work()\<close> returned, or a panic.\<close>

datatype 'a work_end = WorkReturned "('a, app_error) result" | WorkPanicked

definition run_start :: "nat \<Rightarrow> 'p argon2_hasher \<Rightarrow> (unit, app_error) result \<times> 'p argon2_hasher" where
  "run_start job h =
     (if ah_available h = 0 then (Err Busy, h)
      else (Ok (), h\<lparr>ah_available := ah_available h - 1, ah_workers := (job, True) # ah_workers h\<rparr>))"

definition run_cancel :: "nat \<Rightarrow> 'p argon2_hasher \<Rightarrow> 'p argon2_hasher" where
  "run_cancel job h = h\<lparr>ah_workers := map (\<lambda>(j, waiting). (j, waiting \<and> j \<noteq> job)) (ah_workers h)\<rparr>"

text \<open>The worker ends and drops its permit; a request that still waits gets the result.\<close>

definition run_end ::
  "nat \<Rightarrow> 'a work_end \<Rightarrow> 'p argon2_hasher \<Rightarrow> ('a, app_error) result option \<times> 'p argon2_hasher" where
  "run_end job w h =
     (case map_of (ah_workers h) job of
        None \<Rightarrow> (None, h)
      | Some waiting \<Rightarrow>
          (if waiting
           then Some (case w of WorkReturned r \<Rightarrow> r | WorkPanicked \<Rightarrow> Err (Internal (ascii ''password worker failed'')))
           else None,
           h\<lparr>ah_available := ah_available h + 1, ah_workers := filter (\<lambda>(j, _). j \<noteq> job) (ah_workers h)\<rparr>))"

section \<open>Hash and verify\<close>

text \<open>The closures that \<^verbatim>\<open>hash\<close> and \<^verbatim>\<open>verify\<close> hand to \<^verbatim>\<open>run\<close>; \<open>salt\<close> is the entropy the crate draws.\<close>

definition hash_work :: "('p, 'h) argon2 \<Rightarrow> u8 list \<Rightarrow> 'p \<Rightarrow> rstring \<Rightarrow> (rstring, app_error) result" where
  "hash_work A salt params password =
     map_err (\<lambda>err. Internal (pre_hash_failed @ err)) (a2_hash_password A salt params password)"

definition verify_work :: "('p, 'h) argon2 \<Rightarrow> rstring \<Rightarrow> rstring \<Rightarrow> (bool, app_error) result" where
  "verify_work A password hash =
     and_then (map_err (\<lambda>err. Internal (pre_phc_parse @ err)) (a2_phc_new A hash))
       (\<lambda>parsed. case a2_verify_password A password parsed of
          Ok _ \<Rightarrow> Ok True
        | Err PasswordInvalid \<Rightarrow> Ok False
        | Err (VerifyOther err) \<Rightarrow> Err (Internal (pre_verify_failed @ err)))"

text \<open>A call that runs from start to end while \<open>h\<close> is the state of the hasher.\<close>

definition run_call :: "'p argon2_hasher \<Rightarrow> ('a, app_error) result \<Rightarrow> ('a, app_error) result" where
  "run_call h work =
     (case run_start (length (ah_workers h)) h of
        (Err e, _) \<Rightarrow> Err e
      | (Ok _, h') \<Rightarrow>
          (case fst (run_end (length (ah_workers h)) (WorkReturned work) h') of Some r \<Rightarrow> r | None \<Rightarrow> Err Busy))"

definition Argon2_hash :: "('p, 'h) argon2 \<Rightarrow> u8 list \<Rightarrow> 'p argon2_hasher \<Rightarrow> rstring \<Rightarrow> (rstring, app_error) result" where
  "Argon2_hash A salt h password = run_call h (hash_work A salt (ah_params h) password)"

definition Argon2_verify :: "('p, 'h) argon2 \<Rightarrow> 'p argon2_hasher \<Rightarrow> rstring \<Rightarrow> rstring \<Rightarrow> (bool, app_error) result" where
  "Argon2_verify A h password hash = run_call h (verify_work A password hash)"

definition Argon2PasswordHasher :: "('p, 'h) argon2 \<Rightarrow> u8 list \<Rightarrow> 'p argon2_hasher \<Rightarrow> password_hasher" where
  "Argon2PasswordHasher A salt h = \<lparr>ph_hash = Argon2_hash A salt h, ph_verify = Argon2_verify A h\<rparr>"

text \<open>The documented law of the crate: a password verifies against every hash made from it.\<close>

definition argon2_spec :: "('p, 'h) argon2 \<Rightarrow> bool" where
  "argon2_spec A \<longleftrightarrow>
     (\<forall>salt params pw s. a2_hash_password A salt params pw = Ok s \<longrightarrow>
        (\<exists>parsed. a2_phc_new A s = Ok parsed \<and> a2_verify_password A pw parsed = Ok ()))"

section \<open>Interleaved calls\<close>

datatype 'a hasher_event = CallStarts nat | CallCancelled nat | WorkEnds nat "'a work_end"

text \<open>A worker gets a number no running worker has; only running workers end.\<close>

inductive hasher_step :: "'p argon2_hasher \<Rightarrow> 'a hasher_event \<Rightarrow> 'p argon2_hasher \<Rightarrow> bool" where
  starts: "job \<notin> fst ` set (ah_workers h) \<Longrightarrow> hasher_step h (CallStarts job) (snd (run_start job h))"
| cancelled: "hasher_step h (CallCancelled job) (run_cancel job h)"
| ends: "job \<in> fst ` set (ah_workers h) \<Longrightarrow> hasher_step h (WorkEnds job w) (snd (run_end job w h))"

inductive hasher_run :: "'p argon2_hasher \<Rightarrow> 'a hasher_event list \<Rightarrow> 'p argon2_hasher \<Rightarrow> bool" where
  none: "hasher_run h [] h"
| more: "hasher_step h e h1 \<Longrightarrow> hasher_run h1 es h2 \<Longrightarrow> hasher_run h (e # es) h2"

inductive_cases hasher_stepE: "hasher_step h e h'"

definition hasher_inv :: "nat \<Rightarrow> 'p argon2_hasher \<Rightarrow> bool" where
  "hasher_inv n h \<longleftrightarrow> ah_available h + length (ah_workers h) = n \<and> distinct (map fst (ah_workers h))"

lemma length_filter_fst:
  assumes "distinct (map fst xs)" and "job \<in> fst ` set xs"
  shows "Suc (length (filter (\<lambda>(j, _). j \<noteq> job) xs)) = length xs"
  using assms
proof (induction xs)
  case (Cons x xs)
  show ?case
  proof (cases "fst x = job")
    case True
    have "job \<notin> fst ` set xs" using Cons.prems(1) True by auto
    then have "filter (\<lambda>a. fst a \<noteq> job) xs = xs" by (force intro!: filter_True)
    with True show ?thesis by (simp add: split_beta)
  next
    case False
    with Cons show ?thesis by (auto simp: split_beta)
  qed
qed simp

lemma fst_run_cancel [simp]: "map fst (ah_workers (run_cancel job h)) = map fst (ah_workers h)"
  by (simp add: run_cancel_def split_beta comp_def)

lemma hasher_step_inv: "hasher_step h e h' \<Longrightarrow> hasher_inv n h \<Longrightarrow> hasher_inv n h'"
proof (erule hasher_stepE)
  fix job assume "h' = snd (run_start job h)" "job \<notin> fst ` set (ah_workers h)" "hasher_inv n h"
  then show "hasher_inv n h'" by (auto simp: hasher_inv_def run_start_def)
next
  fix job assume h': "h' = run_cancel job h" and inv: "hasher_inv n h"
  have "length (ah_workers h') = length (ah_workers h)" "ah_available h' = ah_available h"
    by (simp_all add: h' run_cancel_def)
  then show "hasher_inv n h'" using inv h' by (simp add: hasher_inv_def)
next
  fix job and w :: "'c work_end"
  assume h': "h' = snd (run_end job w h)" and job: "job \<in> fst ` set (ah_workers h)" and inv: "hasher_inv n h"
  obtain b where "map_of (ah_workers h) job = Some b" using job by (metis map_of_eq_None_iff not_None_eq)
  then show "hasher_inv n h'"
    using h' inv length_filter_fst [OF _ job]
    by (auto simp: hasher_inv_def run_end_def split_beta distinct_map_filter)
qed

lemma hasher_run_inv: "hasher_run h es h' \<Longrightarrow> hasher_inv n h \<Longrightarrow> hasher_inv n h'"
  by (induction rule: hasher_run.induct) (auto intro: hasher_step_inv)

lemma hasher_new_inv:
  "Argon2PasswordHasher_new A max_permits m i p n = Ok h \<Longrightarrow>
     hasher_inv (unat n) h \<and> 0 < unat n \<and> unat n \<le> max_permits \<and> ah_workers h = []"
  by (auto simp: Argon2PasswordHasher_new_def and_then_Ok_iff hasher_inv_def unat_gt_0 split: if_splits)

lemma run_call_free: "0 < ah_available h \<Longrightarrow> run_call h w = w"
  by (simp add: run_call_def run_start_def run_end_def)

lemma run_call_busy: "ah_available h = 0 \<Longrightarrow> run_call h w = Err Busy"
  by (simp add: run_call_def run_start_def)

section \<open>Properties\<close>

text \<open>
  (C22) Password work is bounded and capacity is never lost. For every interleaving of calls,
  cancellations and workers that return or panic: free permits and running workers always
  add up to the configured bound, so no more workers than that run at once; a call is refused as busy exactly
  when all permits are in use; cancelling a request frees nothing while its worker still
  runs; and the end of a worker, whatever its outcome and whether or not anybody waits for it,
  frees its permit, so that the next call is admitted.
\<close>

theorem password_capacity:
  assumes "Argon2PasswordHasher_new A max_permits memory_kb iterations parallelism n = Ok h0" and "hasher_run h0 es h"
  shows "ah_available h + length (ah_workers h) = unat n \<and> unat n \<le> max_permits \<and>
    (fst (run_start job h) = Err Busy \<longleftrightarrow> length (ah_workers h) = unat n) \<and>
    ah_available (run_cancel job h) = ah_available h \<and>
    (running \<in> fst ` set (ah_workers h) \<longrightarrow>
       ah_available (snd (run_end running w h)) = ah_available h + 1 \<and>
       fst (run_start job (snd (run_end running w h))) = Ok ())"
proof -
  have inv: "hasher_inv (unat n) h" "unat n \<le> max_permits"
    using hasher_run_inv [OF assms(2)] hasher_new_inv [OF assms(1)] by blast+
  have "\<exists>b. map_of (ah_workers h) running = Some b" if "running \<in> fst ` set (ah_workers h)"
    using that by (metis map_of_eq_None_iff not_None_eq)
  then show ?thesis using inv by (auto simp: hasher_inv_def run_start_def run_cancel_def run_end_def)
qed

text \<open>A small instance: parameters are kept, the hash is the password behind a dollar sign.\<close>

definition sample_argon2 :: "(u32 \<times> u32 \<times> u32, rstring) argon2" where
  "sample_argon2 =
     \<lparr>a2_params_new = (\<lambda>m i p. if i = 0 then Err [] else Ok (m, i, p)), a2_hash_password = (\<lambda>salt params pw. Ok (0x24 # pw)),
      a2_phc_new = (\<lambda>s. case s of [] \<Rightarrow> Err [] | c # cs \<Rightarrow> if c = 0x24 then Ok cs else Err s),
      a2_verify_password = (\<lambda>pw h. if pw = h then Ok () else Err PasswordInvalid)\<rparr>"

lemma sample_argon2_spec: "argon2_spec sample_argon2"
  by (simp add: argon2_spec_def sample_argon2_def)

text \<open>Witness: one permit; the request of the only worker is cancelled, and a second call is still refused.\<close>

theorem password_capacity_witness:
  "\<exists>h0 h. Argon2PasswordHasher_new sample_argon2 1000 8192 2 1 1 = Ok h0 \<and>
     hasher_run h0 [CallStarts 7, CallCancelled 7 :: unit hasher_event] h \<and> fst (run_start 8 h) = Err Busy"
proof -
  let ?start = "\<lparr>ah_params = (8192, 2, 1), ah_available = 1, ah_workers = []\<rparr> :: (u32 \<times> u32 \<times> u32) argon2_hasher"
  let ?fin = "run_cancel 7 (snd (run_start 7 ?start))"
  have new: "Argon2PasswordHasher_new sample_argon2 1000 8192 2 1 1 = Ok ?start"
    by (simp add: Argon2PasswordHasher_new_def sample_argon2_def)
  have s1: "hasher_step ?start (CallStarts 7 :: unit hasher_event) (snd (run_start 7 ?start))" by (rule hasher_step.starts) simp
  have s2: "hasher_step (snd (run_start 7 ?start)) (CallCancelled 7 :: unit hasher_event) ?fin" by (rule hasher_step.cancelled)
  have run: "hasher_run ?start [CallStarts 7, CallCancelled 7 :: unit hasher_event] ?fin"
    by (rule hasher_run.more [OF s1 hasher_run.more [OF s2 hasher_run.none]])
  have "length (ah_workers ?fin) = unat (1 :: usize)" by (simp add: run_cancel_def run_start_def)
  then have "fst (run_start 8 ?fin) = Err Busy" using password_capacity [OF new run, where job = 8] by blast
  with new run show ?thesis by blast
qed

text \<open>
  The hasher over the Argon2 crate: with a free permit a password verifies against every hash made
  from it, whatever parameters and salt were used for the hash; a wrong password is the answer
  \<^verbatim>\<open>false\<close> and not an error; a stored hash that is not well formed and every other failure of
  the crate is an internal error; and without a free permit both calls are refused as busy.
\<close>

theorem argon2_hasher_outcomes:
  assumes "argon2_spec A" and "0 < ah_available h"
  shows "(Argon2_hash A salt h0 pw = Ok s \<longrightarrow> Argon2_verify A h pw s = Ok True) \<and>
    hasher_sound (Argon2PasswordHasher A salt h) \<and>
    (\<forall>parsed. a2_phc_new A s' = Ok parsed \<longrightarrow> a2_verify_password A pw parsed = Err PasswordInvalid \<longrightarrow>
       Argon2_verify A h pw s' = Ok False) \<and>
    (\<forall>e. a2_phc_new A s' = Err e \<longrightarrow> Argon2_verify A h pw s' = Err (Internal (pre_phc_parse @ e))) \<and>
    (ah_available h0 = 0 \<longrightarrow> Argon2_hash A salt h0 pw = Err Busy \<and> Argon2_verify A h0 pw s' = Err Busy)"
proof -
  have sound: "Argon2_verify A h pw s = Ok True" if "Argon2_hash A salt h' pw = Ok s" for h' pw s
  proof -
    have "0 < ah_available h'" using that by (cases "ah_available h'") (simp_all add: Argon2_hash_def run_call_busy)
    with that have "a2_hash_password A salt (ah_params h') pw = Ok s"
      by (simp add: Argon2_hash_def run_call_free hash_work_def)
    with assms show ?thesis by (force simp: argon2_spec_def Argon2_verify_def run_call_free verify_work_def)
  qed
  then have "hasher_sound (Argon2PasswordHasher A salt h)"
    by (simp add: hasher_sound_def Argon2PasswordHasher_def)
  with sound assms(2) show ?thesis
    by (auto simp: Argon2_verify_def Argon2_hash_def run_call_free run_call_busy verify_work_def)
qed

text \<open>Witness: the sample crate.\<close>

theorem argon2_hasher_outcomes_witness:
  "hasher_sound (Argon2PasswordHasher sample_argon2 [] \<lparr>ah_params = (8192, 2, 1), ah_available = 2, ah_workers = []\<rparr>)"
  using argon2_hasher_outcomes [OF sample_argon2_spec, of "\<lparr>ah_params = (8192, 2, 1), ah_available = 2, ah_workers = []\<rparr>"] by simp

end
