(* ===== verification/LX_Events.thy ===== *)
theory LX_Events
  imports LX_Ports
begin

text \<open>
  \<^verbatim>\<open>crates/infrastructure/src/events.rs\<close>: the in-process event bus. The broadcast channel of tokio is
  not part of the repository; what the code calls of it is the record \<open>broadcast\<close>, and
  \<open>broadcast_spec\<close> its documented behaviour: a message reaches every receiver that has
  subscribed, in order, and a receiver that is more than the capacity behind loses its oldest
  messages.
\<close>

record ('c, 'r) broadcast =
  bc_channel :: "nat \<Rightarrow> 'c"
  bc_subscribe :: "'c \<Rightarrow> 'r \<times> 'c"
  bc_receiver_count :: "'c \<Rightarrow> nat"
  bc_send :: "domain_event \<Rightarrow> 'c \<Rightarrow> (nat, domain_event) result \<times> 'c"

definition InMemoryEventPublisher_new :: "('c, 'r) broadcast \<Rightarrow> nat \<Rightarrow> 'c" where
  "InMemoryEventPublisher_new B capacity = bc_channel B (max capacity 1)"

definition InMemoryEventPublisher_subscribe :: "('c, 'r) broadcast \<Rightarrow> 'c \<Rightarrow> 'r \<times> 'c" where
  "InMemoryEventPublisher_subscribe B c = bc_subscribe B c"

definition InMemoryEventPublisher_subscriber_count :: "('c, 'r) broadcast \<Rightarrow> 'c \<Rightarrow> nat" where
  "InMemoryEventPublisher_subscriber_count B c = bc_receiver_count B c"

definition InMemoryEventPublisher_publish ::
  "('c, 'r) broadcast \<Rightarrow> domain_event \<Rightarrow> 'c \<Rightarrow> (unit, app_error) result \<times> 'c" where
  "InMemoryEventPublisher_publish B e c = (let (_, c') = bc_send B e c in (Ok (), c'))"

definition InMemoryEventPublisher :: "('c, 'r) broadcast \<Rightarrow> 'c event_publisher" where
  "InMemoryEventPublisher B = \<lparr>ep_publish = InMemoryEventPublisher_publish B\<rparr>"

section \<open>The documented behaviour of a broadcast channel\<close>

text \<open>\<open>pending c r\<close> are the messages the receiver \<open>r\<close> has not read yet, \<open>members c\<close> the receivers.\<close>

definition newest :: "nat \<Rightarrow> 'a list \<Rightarrow> 'a list" where
  "newest n xs = drop (length xs - n) xs"

definition broadcast_spec ::
  "('c, 'r) broadcast \<Rightarrow> ('c \<Rightarrow> 'r set) \<Rightarrow> ('c \<Rightarrow> 'r \<Rightarrow> domain_event list) \<Rightarrow> ('c \<Rightarrow> nat) \<Rightarrow> bool" where
  "broadcast_spec B members pending cap \<longleftrightarrow>
     (\<forall>n. 0 < n \<longrightarrow> members (bc_channel B n) = {} \<and> cap (bc_channel B n) = n) \<and>
     (\<forall>c. finite (members c) \<and> bc_receiver_count B c = card (members c)) \<and>
     (\<forall>c. case bc_subscribe B c of (r, c') \<Rightarrow>
        r \<notin> members c \<and> members c' = insert r (members c) \<and> pending c' r = [] \<and> cap c' = cap c \<and>
        (\<forall>q \<in> members c. pending c' q = pending c q)) \<and>
     (\<forall>e c. case bc_send B e c of (res, c') \<Rightarrow>
        members c' = members c \<and> cap c' = cap c \<and> (is_err res \<longleftrightarrow> members c = {}) \<and>
        (\<forall>r \<in> members c. pending c' r = newest (cap c) (pending c r @ [e])))"

fun publish_all :: "('c, 'r) broadcast \<Rightarrow> domain_event list \<Rightarrow> 'c \<Rightarrow> 'c" where
  "publish_all B [] c = c"
| "publish_all B (e # es) c = publish_all B es (snd (InMemoryEventPublisher_publish B e c))"

lemma publish_effect:
  assumes "broadcast_spec B members pending cap"
  shows "members (snd (InMemoryEventPublisher_publish B e c)) = members c"
    and "cap (snd (InMemoryEventPublisher_publish B e c)) = cap c"
    and "r \<in> members c \<Longrightarrow> pending (snd (InMemoryEventPublisher_publish B e c)) r = newest (cap c) (pending c r @ [e])"
  using assms
  by (auto simp: broadcast_spec_def InMemoryEventPublisher_publish_def split: prod.splits)

lemma newest_snoc: "newest n (newest n xs @ ys) = newest n (xs @ ys)"
proof (cases "length xs \<le> n")
  case False
  then obtain k where "length xs = k + n" by (metis add.commute le_Suc_ex nat_le_linear)
  then show ?thesis by (simp add: newest_def drop_append add.commute)
qed (simp add: newest_def)

lemma publish_all_effect:
  assumes spec: "broadcast_spec B members pending cap" and r: "r \<in> members c" and len: "length (pending c r) \<le> cap c"
  shows "pending (publish_all B es c) r = newest (cap c) (pending c r @ es) \<and> r \<in> members (publish_all B es c)"
  using r len
proof (induction es arbitrary: c)
  case Nil
  then show ?case by (simp add: newest_def)
next
  case (Cons e es)
  let ?c = "snd (InMemoryEventPublisher_publish B e c)"
  note p = publish_effect [OF spec, where e = e and c = c]
  have "length (pending ?c r) \<le> cap ?c" using p(3) [OF Cons.prems(1)] p(2) by (simp add: newest_def)
  with Cons.IH [of ?c] p Cons.prems newest_snoc [of "cap c" "pending c r @ [e]" es] show ?case by simp
qed

section \<open>A channel that behaves as documented\<close>

record list_bus =
  lb_cap :: nat
  lb_queues :: "domain_event list list"

definition list_broadcast :: "(list_bus, nat) broadcast" where
  "list_broadcast =
     \<lparr>bc_channel = (\<lambda>n. \<lparr>lb_cap = n, lb_queues = []\<rparr>),
      bc_subscribe = (\<lambda>c. (length (lb_queues c), c\<lparr>lb_queues := lb_queues c @ [[]]\<rparr>)),
      bc_receiver_count = (\<lambda>c. length (lb_queues c)),
      bc_send = (\<lambda>e c. if lb_queues c = [] then (Err e, c)
                       else (Ok (length (lb_queues c)), c\<lparr>lb_queues := map (\<lambda>q. newest (lb_cap c) (q @ [e])) (lb_queues c)\<rparr>))\<rparr>"

lemma list_broadcast_spec:
  "broadcast_spec list_broadcast (\<lambda>c. {..<length (lb_queues c)}) (\<lambda>c r. lb_queues c ! r) lb_cap"
  by (auto simp: broadcast_spec_def list_broadcast_def nth_append lessThan_Suc)

section \<open>Property\<close>

text \<open>
  The event bus: publishing never fails, with or without subscribers; a subscriber receives the
  events published after its subscription in order, all of them as long as no more than the
  capacity are unread, and otherwise exactly the newest ones.
\<close>

theorem event_bus_delivers:
  assumes "broadcast_spec B members pending cap"
  shows "fst (InMemoryEventPublisher_publish B e c) = Ok () \<and>
    (case InMemoryEventPublisher_subscribe B (InMemoryEventPublisher_new B capacity) of (r, c1) \<Rightarrow>
       InMemoryEventPublisher_subscriber_count B c1 = 1 \<and>
       pending (publish_all B es c1) r = newest (max capacity 1) es \<and>
       (length es \<le> capacity \<longrightarrow> pending (publish_all B es c1) r = es))"
proof -
  let ?c0 = "InMemoryEventPublisher_new B capacity"
  obtain r c1 where s: "bc_subscribe B ?c0 = (r, c1)" by (cases "bc_subscribe B ?c0")
  have c0: "members ?c0 = {}" "cap ?c0 = max capacity 1"
    using assms by (auto simp: broadcast_spec_def InMemoryEventPublisher_new_def)
  have c1: "members c1 = {r}" "pending c1 r = []" "cap c1 = max capacity 1"
    using assms s c0 unfolding broadcast_spec_def by (auto split: prod.splits)
  have "bc_receiver_count B c1 = 1" using assms c1(1) by (simp add: broadcast_spec_def)
  moreover have "pending (publish_all B es c1) r = newest (max capacity 1) es"
    using publish_all_effect [OF assms, of r c1 es] c1 by simp
  moreover have "newest (max capacity 1) es = es" if "length es \<le> capacity" using that by (simp add: newest_def)
  ultimately show ?thesis
    using s by (simp add: InMemoryEventPublisher_subscribe_def InMemoryEventPublisher_subscriber_count_def
        InMemoryEventPublisher_publish_def split: prod.split)
qed

text \<open>Witness: two events on a channel of capacity four.\<close>

theorem event_bus_delivers_witness:
  "lb_queues (publish_all list_broadcast [PlayerLeveledUp (PlayerId 1) 2 0, PlayerLeveledUp (PlayerId 1) 3 1]
     (snd (InMemoryEventPublisher_subscribe list_broadcast (InMemoryEventPublisher_new list_broadcast 4)))) ! 0 =
   [PlayerLeveledUp (PlayerId 1) 2 0, PlayerLeveledUp (PlayerId 1) 3 1]"
proof -
  let ?s = "InMemoryEventPublisher_subscribe list_broadcast (InMemoryEventPublisher_new list_broadcast 4)"
  have "fst ?s = 0"
    by (simp add: InMemoryEventPublisher_subscribe_def InMemoryEventPublisher_new_def list_broadcast_def)
  then obtain c1 where s: "?s = (0, c1)" by (cases ?s) simp
  note delivers = event_bus_delivers [OF list_broadcast_spec, where capacity = 4 and
      es = "[PlayerLeveledUp (PlayerId 1) 2 0, PlayerLeveledUp (PlayerId 1) 3 1]"]
  show ?thesis using delivers unfolding s by (simp add: s newest_def)
qed

end
