(* ===== verification/LX_Utf8.thy ===== *)
theory LX_Utf8
  imports LX_Prelude
begin

text \<open>
  UTF-8, as the standard library of the language defines it: the bytes of a string
  (\<^verbatim>\<open>str::as_bytes\<close>) and the lossy decoder (\<^verbatim>\<open>String::from_utf8_lossy\<close>), which replaces every
  maximal ill-formed sequence by the replacement character U+FFFD. Decoding the bytes of a
  string gives the string back.
\<close>

definition encode_utf8 :: "uchar \<Rightarrow> u8 list" where
  "encode_utf8 c =
     (if c < 0x80 then [of_nat c]
      else if c < 0x800 then [of_nat (0xC0 + c div 64), of_nat (0x80 + c mod 64)]
      else if c < 0x10000
      then [of_nat (0xE0 + c div 4096), of_nat (0x80 + c div 64 mod 64), of_nat (0x80 + c mod 64)]
      else [of_nat (0xF0 + c div 262144), of_nat (0x80 + c div 4096 mod 64),
            of_nat (0x80 + c div 64 mod 64), of_nat (0x80 + c mod 64)])"

definition as_bytes :: "rstring \<Rightarrow> u8 list" where
  "as_bytes s = concat (map encode_utf8 s)"

lemma length_as_bytes: "length (as_bytes s) = str_len s"
  by (induction s) (simp_all add: as_bytes_def str_len_def encode_utf8_def len_utf8_def)

section \<open>The lossy decoder\<close>

definition utf8_tail :: "nat \<Rightarrow> bool" where
  "utf8_tail b \<longleftrightarrow> 0x80 \<le> b \<and> b \<le> 0xBF"

text \<open>The second byte of a sequence of three or four bytes: no overlong forms, no surrogates, nothing above U+10FFFF.\<close>

definition utf8_second3 :: "nat \<Rightarrow> nat \<Rightarrow> bool" where
  "utf8_second3 b c \<longleftrightarrow> utf8_tail c \<and> (b = 0xE0 \<longrightarrow> 0xA0 \<le> c) \<and> (b = 0xED \<longrightarrow> c \<le> 0x9F)"

definition utf8_second4 :: "nat \<Rightarrow> nat \<Rightarrow> bool" where
  "utf8_second4 b c \<longleftrightarrow> utf8_tail c \<and> (b = 0xF0 \<longrightarrow> 0x90 \<le> c) \<and> (b = 0xF4 \<longrightarrow> c \<le> 0x8F)"

fun decode_lossy :: "nat list \<Rightarrow> rstring" where
  "decode_lossy [] = []"
| "decode_lossy (b # bs) =
     (if b < 0x80 then b # decode_lossy bs
      else if 0xC2 \<le> b \<and> b \<le> 0xDF then
        (case bs of
           [] \<Rightarrow> [0xFFFD]
         | c # cs \<Rightarrow> if utf8_tail c then ((b - 0xC0) * 64 + (c - 0x80)) # decode_lossy cs else 0xFFFD # decode_lossy bs)
      else if 0xE0 \<le> b \<and> b \<le> 0xEF then
        (case bs of
           [] \<Rightarrow> [0xFFFD]
         | c # cs \<Rightarrow>
             if \<not> utf8_second3 b c then 0xFFFD # decode_lossy bs
             else (case cs of
                     [] \<Rightarrow> [0xFFFD]
                   | d # ds \<Rightarrow>
                       if utf8_tail d
                       then ((b - 0xE0) * 4096 + (c - 0x80) * 64 + (d - 0x80)) # decode_lossy ds
                       else 0xFFFD # decode_lossy cs))
      else if 0xF0 \<le> b \<and> b \<le> 0xF4 then
        (case bs of
           [] \<Rightarrow> [0xFFFD]
         | c # cs \<Rightarrow>
             if \<not> utf8_second4 b c then 0xFFFD # decode_lossy bs
             else (case cs of
                     [] \<Rightarrow> [0xFFFD]
                   | d # ds \<Rightarrow>
                       if \<not> utf8_tail d then 0xFFFD # decode_lossy cs
                       else (case ds of
                               [] \<Rightarrow> [0xFFFD]
                             | e # es \<Rightarrow>
                                 if utf8_tail e
                                 then ((b - 0xF0) * 262144 + (c - 0x80) * 4096 + (d - 0x80) * 64 + (e - 0x80))
                                        # decode_lossy es
                                 else 0xFFFD # decode_lossy ds)))
      else 0xFFFD # decode_lossy bs)"

definition from_utf8_lossy :: "u8 list \<Rightarrow> rstring" where
  "from_utf8_lossy bytes = decode_lossy (map unat bytes)"

section \<open>Round trip\<close>

definition is_scalar :: "uchar \<Rightarrow> bool" where
  "is_scalar c \<longleftrightarrow> c < 0xD800 \<or> (0xE000 \<le> c \<and> c < 0x110000)"

lemma unat_byte: "n < 256 \<Longrightarrow> unat (of_nat n :: u8) = n"
  by (simp add: unat_of_nat)

text \<open>The base-64 digits of a code point.\<close>

lemma digits64:
  fixes c :: nat
  shows "c div 64 = c div 4096 * 64 + c div 64 mod 64" "c = c div 64 * 64 + c mod 64"
    "c div 4096 = c div 262144 * 64 + c div 4096 mod 64"
proof -
  have "c div 4096 = c div 64 div 64" "c div 262144 = c div 4096 div 64" by (simp_all add: div_mult2_eq [symmetric])
  then show "c div 64 = c div 4096 * 64 + c div 64 mod 64" "c div 4096 = c div 262144 * 64 + c div 4096 mod 64"
    using div_mult_mod_eq [of "c div 64" 64] div_mult_mod_eq [of "c div 4096" 64] by simp_all
  show "c = c div 64 * 64 + c mod 64" by simp
qed

lemma encode_bytes:
  "c < 0x80 \<Longrightarrow> map unat (encode_utf8 c) = [c]"
  "0x80 \<le> c \<Longrightarrow> c < 0x800 \<Longrightarrow> map unat (encode_utf8 c) = [0xC0 + c div 64, 0x80 + c mod 64]"
  "0x800 \<le> c \<Longrightarrow> c < 0x10000 \<Longrightarrow>
     map unat (encode_utf8 c) = [0xE0 + c div 4096, 0x80 + c div 64 mod 64, 0x80 + c mod 64]"
  "0x10000 \<le> c \<Longrightarrow> c < 0x110000 \<Longrightarrow>
     map unat (encode_utf8 c) =
       [0xF0 + c div 262144, 0x80 + c div 4096 mod 64, 0x80 + c div 64 mod 64, 0x80 + c mod 64]"
proof -
  have m: "c mod 64 < 64" "c div 64 mod 64 < 64" "c div 4096 mod 64 < 64" by simp_all
  show "c < 0x80 \<Longrightarrow> map unat (encode_utf8 c) = [c]" by (simp add: encode_utf8_def unat_byte)
  show "0x80 \<le> c \<Longrightarrow> c < 0x800 \<Longrightarrow> map unat (encode_utf8 c) = [0xC0 + c div 64, 0x80 + c mod 64]"
    using m by (simp add: encode_utf8_def unat_byte del: of_nat_add)
  show "0x800 \<le> c \<Longrightarrow> c < 0x10000 \<Longrightarrow>
      map unat (encode_utf8 c) = [0xE0 + c div 4096, 0x80 + c div 64 mod 64, 0x80 + c mod 64]"
    using m by (simp add: encode_utf8_def unat_byte del: of_nat_add)
  show "0x10000 \<le> c \<Longrightarrow> c < 0x110000 \<Longrightarrow>
      map unat (encode_utf8 c) =
        [0xF0 + c div 262144, 0x80 + c div 4096 mod 64, 0x80 + c div 64 mod 64, 0x80 + c mod 64]"
    using m by (simp add: encode_utf8_def unat_byte del: of_nat_add)
qed

lemma decode_encode: "is_scalar c \<Longrightarrow> decode_lossy (map unat (encode_utf8 c) @ rest) = c # decode_lossy rest"
proof -
  assume sc: "is_scalar c"
  have m: "c mod 64 < 64" "c div 64 mod 64 < 64" "c div 4096 mod 64 < 64" by simp_all
  have t: "utf8_tail (0x80 + c mod 64)" "utf8_tail (0x80 + c div 64 mod 64)"
    using m(1,2) unfolding utf8_tail_def by linarith+
  consider "c < 0x80" | "0x80 \<le> c" "c < 0x800" | "0x800 \<le> c" "c < 0x10000" | "0x10000 \<le> c" by linarith
  then show ?thesis
  proof cases
    case 1
    then show ?thesis by (simp add: encode_bytes)
  next
    case 2
    then have "2 \<le> c div 64" "c div 64 < 32" by auto
    with 2 t show ?thesis by (simp add: encode_bytes)
  next
    case 3
    have d: "c div 4096 < 16" using 3 digits64 [of c] m by linarith
    have ov: "32 \<le> c div 64 mod 64" if "c div 4096 = 0" using 3 that digits64 [of c] m by linarith
    have su: "c div 64 mod 64 \<le> 31" if "c div 4096 = 13"
      using 3 sc that digits64 [of c] m unfolding is_scalar_def by linarith
    have "utf8_second3 (0xE0 + c div 4096) (0x80 + c div 64 mod 64)"
      using ov su m by (auto simp: utf8_second3_def utf8_tail_def)
    moreover have "c div 4096 * 4096 + c div 64 mod 64 * 64 + c mod 64 = c" using digits64 [of c] by linarith
    ultimately show ?thesis using 3 d t by (simp add: encode_bytes)
  next
    case 4
    have b: "c < 0x110000" using sc by (auto simp: is_scalar_def)
    have d: "c div 262144 < 5" using b digits64 [of c] m by linarith
    have ov: "16 \<le> c div 4096 mod 64" if "c div 262144 = 0" using 4 that digits64 [of c] m by linarith
    have mx: "c div 4096 mod 64 \<le> 15" if "c div 262144 = 4" using b that digits64 [of c] m by linarith
    have "utf8_second4 (0xF0 + c div 262144) (0x80 + c div 4096 mod 64)"
      using ov mx m by (auto simp: utf8_second4_def utf8_tail_def)
    moreover have "c div 262144 * 262144 + c div 4096 mod 64 * 4096 + c div 64 mod 64 * 64 + c mod 64 = c"
      using digits64 [of c] by linarith
    ultimately show ?thesis using 4 b d t by (simp add: encode_bytes)
  qed
qed

lemma utf8_roundtrip: "list_all is_scalar s \<Longrightarrow> from_utf8_lossy (as_bytes s) = s"
  by (induction s) (simp_all add: from_utf8_lossy_def as_bytes_def decode_encode)

text \<open>ASCII bytes pass the decoder unchanged.\<close>

lemma utf8_ascii: "\<forall>b \<in> set bs. b < 0x80 \<Longrightarrow> as_bytes (from_utf8_lossy bs) = bs"
proof (induction bs)
  case (Cons b bs)
  then have "unat b < 0x80" by (simp add: word_less_nat_alt)
  moreover have "of_nat (unat b) = b" by simp
  ultimately show ?case using Cons by (simp add: from_utf8_lossy_def as_bytes_def encode_utf8_def)
qed (simp add: from_utf8_lossy_def as_bytes_def)

end
