(* ===== verification/LX_Transport.thy ===== *)
theory LX_Transport
  imports LX_Frame LX_Utf8
begin

text \<open>
  \<^verbatim>\<open>crates/net-kit/src/transport.rs\<close> and \<^verbatim>\<open>tls.rs\<close>: how the listener is bound, how an accepted
  connection is configured, and how the TLS configuration is built from the certificate
  files. The socket calls and the TLS library are parameters (\<open>socket_lib\<close>, \<open>tls_lib\<close>);
  \<open>socket_spec\<close> and \<open>tls_spec\<close> state what is documented of them. An operation that ends with
  \<^verbatim>\<open>?\<close> is chained with \<open>st_then\<close>.
\<close>

section \<open>Sockets\<close>

type_synonym sock_addr = nat

text \<open>\<open>'o\<close>: the state of the operating system, \<open>'k\<close>: a listening socket, \<open>'c\<close>: an accepted stream, \<open>'a\<close>: a TLS acceptor, \<open>'z\<close>: a TLS stream.\<close>

record ('o, 'k, 'c, 'a, 'z) socket_lib =
  so_new :: "sock_addr \<Rightarrow> 'o \<Rightarrow> ('k, io_error) result \<times> 'o"
  so_set_reuse_address :: "'k \<Rightarrow> bool \<Rightarrow> 'o \<Rightarrow> (unit, io_error) result \<times> 'o"
  so_set_nonblocking :: "'k \<Rightarrow> bool \<Rightarrow> 'o \<Rightarrow> (unit, io_error) result \<times> 'o"
  so_bind :: "'k \<Rightarrow> sock_addr \<Rightarrow> 'o \<Rightarrow> (unit, io_error) result \<times> 'o"
  so_listen :: "'k \<Rightarrow> int \<Rightarrow> 'o \<Rightarrow> (unit, io_error) result \<times> 'o"
  so_from_std :: "'k \<Rightarrow> 'o \<Rightarrow> ('k, io_error) result \<times> 'o"
  so_accept :: "'k \<Rightarrow> 'o \<Rightarrow> ('c \<times> sock_addr, io_error) result \<times> 'o"
  so_set_nodelay :: "'c \<Rightarrow> bool \<Rightarrow> 'o \<Rightarrow> (unit, io_error) result \<times> 'o"
  so_set_tcp_keepalive :: "'c \<Rightarrow> duration \<Rightarrow> 'o \<Rightarrow> (unit, io_error) result \<times> 'o"
  so_local_addr :: "'k \<Rightarrow> 'o \<Rightarrow> (sock_addr, io_error) result"
  so_tls_accept :: "'a \<Rightarrow> 'c \<Rightarrow> 'o \<Rightarrow> ('z, rstring) result \<times> 'o"

record ('k, 'a) transport =
  tp_listener :: 'k
  tp_acceptor :: 'a
  tp_nodelay :: bool
  tp_keepalive :: "duration option"

text \<open>The conversion \<^verbatim>\<open>From<std::io::Error>\<close> that \<^verbatim>\<open>?\<close> applies.\<close>

definition io_try :: "('x, io_error) result \<times> 'o \<Rightarrow> ('x, net_error) result \<times> 'o" where
  "io_try r = on_err NetIo r"

definition backlog_i32 :: "u32 \<Rightarrow> int" where
  "backlog_i32 backlog = (if uint backlog < 2 ^ 31 then uint backlog else 2 ^ 31 - 1)"

definition TcpTlsTransport_bind ::
  "('o, 'k, 'c, 'a, 'z) socket_lib \<Rightarrow> sock_addr \<Rightarrow> 'a \<Rightarrow> u32 \<Rightarrow> bool \<Rightarrow> duration option \<Rightarrow> 'o
     \<Rightarrow> (('k, 'a) transport, net_error) result \<times> 'o" where
  "TcpTlsTransport_bind L addr acceptor backlog nodelay keepalive os =
     st_then (io_try (so_new L addr os)) (\<lambda>socket os.
     st_then (io_try (so_set_reuse_address L socket True os)) (\<lambda>_ os.
     st_then (io_try (so_set_nonblocking L socket True os)) (\<lambda>_ os.
     st_then (io_try (so_bind L socket addr os)) (\<lambda>_ os.
     st_then (io_try (so_listen L socket (backlog_i32 backlog) os)) (\<lambda>_ os.
     st_then (io_try (so_from_std L socket os)) (\<lambda>listener os.
       (Ok \<lparr>tp_listener = listener, tp_acceptor = acceptor, tp_nodelay = nodelay, tp_keepalive = keepalive\<rparr>, os)))))))"

definition TcpTlsTransport_configure ::
  "('o, 'k, 'c, 'a, 'z) socket_lib \<Rightarrow> ('k, 'a) transport \<Rightarrow> 'c \<Rightarrow> 'o \<Rightarrow> (unit, net_error) result \<times> 'o" where
  "TcpTlsTransport_configure L tp tcp os =
     st_then (io_try (so_set_nodelay L tcp (tp_nodelay tp) os)) (\<lambda>_ os.
       case tp_keepalive tp of
         None \<Rightarrow> (Ok (), os)
       | Some interval \<Rightarrow> st_then (io_try (so_set_tcp_keepalive L tcp interval os)) (\<lambda>_ os. (Ok (), os)))"

definition accept_tcp ::
  "('o, 'k, 'c, 'a, 'z) socket_lib \<Rightarrow> ('k, 'a) transport \<Rightarrow> 'o \<Rightarrow> ('c \<times> sock_addr, net_error) result \<times> 'o" where
  "accept_tcp L tp os =
     st_then (io_try (so_accept L (tp_listener tp) os)) (\<lambda>(tcp, peer) os.
     st_then (TcpTlsTransport_configure L tp tcp os) (\<lambda>_ os. (Ok (tcp, peer), os)))"

definition TcpTlsTransport_handshake ::
  "('o, 'k, 'c, 'a, 'z) socket_lib \<Rightarrow> ('k, 'a) transport \<Rightarrow> 'c \<Rightarrow> 'o \<Rightarrow> ('z, net_error) result \<times> 'o" where
  "TcpTlsTransport_handshake L tp tcp os =
     on_err NetTls (so_tls_accept L (tp_acceptor tp) tcp os)"

definition accept_tls ::
  "('o, 'k, 'c, 'a, 'z) socket_lib \<Rightarrow> ('k, 'a) transport \<Rightarrow> 'o \<Rightarrow> ('z \<times> sock_addr, net_error) result \<times> 'o" where
  "accept_tls L tp os =
     st_then (accept_tcp L tp os) (\<lambda>(tcp, peer) os.
     st_then (TcpTlsTransport_handshake L tp tcp os) (\<lambda>stream os. (Ok (stream, peer), os)))"

definition TcpTlsTransport_local_addr ::
  "('o, 'k, 'c, 'a, 'z) socket_lib \<Rightarrow> ('k, 'a) transport \<Rightarrow> 'o \<Rightarrow> (sock_addr, io_error) result" where
  "TcpTlsTransport_local_addr L tp os = so_local_addr L (tp_listener tp) os"

text \<open>The two transports of the accept loop: with the handshake, and the raw one of the gateway. \<^verbatim>\<open>Error::other\<close> keeps the text.\<close>

definition io_other :: "net_error \<Rightarrow> io_error" where
  "io_other err = \<lparr>io_err_kind = OtherKind, io_err_text = NetError_display err\<rparr>"

definition Transport_accept ::
  "('o, 'k, 'c, 'a, 'z) socket_lib \<Rightarrow> ('k, 'a) transport \<Rightarrow> 'o \<Rightarrow> ('z \<times> sock_addr, io_error) result \<times> 'o" where
  "Transport_accept L tp os = on_err io_other (accept_tls L tp os)"

definition RawTcp_accept ::
  "('o, 'k, 'c, 'a, 'z) socket_lib \<Rightarrow> ('k, 'a) transport \<Rightarrow> 'o \<Rightarrow> ('c \<times> sock_addr, io_error) result \<times> 'o" where
  "RawTcp_accept L tp os = on_err io_other (accept_tcp L tp os)"

definition RawTcp_local_addr ::
  "('o, 'k, 'c, 'a, 'z) socket_lib \<Rightarrow> ('k, 'a) transport \<Rightarrow> 'o \<Rightarrow> (sock_addr, io_error) result" where
  "RawTcp_local_addr L tp os = TcpTlsTransport_local_addr L tp os"

section \<open>The TLS configuration\<close>

datatype tls_version = TLS12 | TLS13

text \<open>\<open>'b\<close>: a configuration under construction, \<open>'g\<close>: a finished one; files, \<^verbatim>\<open>HOME\<close> and the parsers are inputs.\<close>

record ('b, 'x, 'y, 'g) tls_lib =
  tl_certs :: "u8 list \<Rightarrow> ('x list, rstring) result"
  tl_key :: "u8 list \<Rightarrow> ('y, rstring) result"
  tl_with_versions :: "tls_version list \<Rightarrow> ('b, rstring) result"
  tl_with_single_cert :: "'b \<Rightarrow> 'x list \<Rightarrow> 'y \<Rightarrow> ('g, rstring) result"

text \<open>
  \<^verbatim>\<open>Path::strip_prefix("~")\<close> works on components: the first one has to be \<^verbatim>\<open>~\<close> alone, and the rest
  loses its leading and trailing separators and \<^verbatim>\<open>.\<close> components. \<^verbatim>\<open>Path::join\<close> adds a separator where
  it is missing.
\<close>

fun path_trim :: "rstring \<Rightarrow> rstring" where
  "path_trim [] = []"
| "path_trim (c # s) =
     (if c = 0x2F then path_trim s
      else if c = 0x2E then (case s of [] \<Rightarrow> [] | d # s' \<Rightarrow> if d = 0x2F then path_trim s' else c # s)
      else c # s)"

definition strip_home :: "rstring \<Rightarrow> rstring option" where
  "strip_home path =
     (case path of
        [] \<Rightarrow> None
      | c # s \<Rightarrow>
          if c = 0x7E \<and> (s = [] \<or> hd s = 0x2F) then Some (rev (path_trim (rev (path_trim s)))) else None)"

definition path_join :: "rstring \<Rightarrow> rstring \<Rightarrow> rstring" where
  "path_join base rel = base @ (if base = [] \<or> List.last base = 0x2F then [] else [0x2F]) @ rel"

definition expand_home :: "rstring option \<Rightarrow> rstring \<Rightarrow> (rstring, net_error) result" where
  "expand_home home path =
     (case strip_home path of
        None \<Rightarrow> Ok path
      | Some relative \<Rightarrow>
          (case Option.bind home (\<lambda>v. if v = [] then None else Some v) of
             None \<Rightarrow> Err (NetTlsConfig msg_home_needed)
           | Some h \<Rightarrow> Ok (path_join h relative)))"

definition build_config :: "('b, 'x, 'y, 'g) tls_lib \<Rightarrow> 'x list \<Rightarrow> 'y \<Rightarrow> ('g, net_error) result" where
  "build_config T certs key =
     and_then (map_err (\<lambda>e. NetTlsConfig (pre_tls_versions @ e)) (tl_with_versions T [TLS13])) (\<lambda>b.
       map_err (\<lambda>e. NetTlsConfig (pre_cert_mismatch @ e)) (tl_with_single_cert T b certs key))"

definition server_config_from_pem_bytes :: "('b, 'x, 'y, 'g) tls_lib \<Rightarrow> rstring \<Rightarrow> rstring \<Rightarrow> ('g, net_error) result" where
  "server_config_from_pem_bytes T cert_pem key_pem =
     and_then (map_err (\<lambda>e. NetTlsConfig (pre_parse_cert @ e)) (tl_certs T (as_bytes cert_pem))) (\<lambda>certs.
       if certs = [] then Err (NetTlsConfig msg_no_certs)
       else and_then (map_err (\<lambda>e. NetTlsConfig (pre_parse_key @ e)) (tl_key T (as_bytes key_pem))) (\<lambda>key.
              build_config T certs key))"

text \<open>\<open>read\<close> is the file system, \<open>dbg\<close> the Debug format of a path.\<close>

definition server_config_from_files ::
  "('b, 'x, 'y, 'g) tls_lib \<Rightarrow> (rstring \<Rightarrow> (u8 list, rstring) result) \<Rightarrow> (rstring \<Rightarrow> rstring) \<Rightarrow> rstring option
     \<Rightarrow> rstring \<Rightarrow> rstring \<Rightarrow> ('g, net_error) result" where
  "server_config_from_files T read dbg home cert_path key_path =
     and_then (expand_home home cert_path) (\<lambda>cert_path.
     and_then (expand_home home key_path) (\<lambda>key_path.
     and_then (map_err (\<lambda>e. NetTlsConfig (pre_read_cert @ dbg cert_path @ mid_read_failed @ e)) (read cert_path)) (\<lambda>cert_pem.
     and_then (map_err (\<lambda>e. NetTlsConfig (pre_read_key @ dbg key_path @ mid_read_failed @ e)) (read key_path)) (\<lambda>key_pem.
       server_config_from_pem_bytes T (from_utf8_lossy cert_pem) (from_utf8_lossy key_pem)))))"

text \<open>The acceptor is a wrapper (\<open>mk\<close>) of the configuration.\<close>

definition server_acceptor_from_files ::
  "('g \<Rightarrow> 'a) \<Rightarrow> ('b, 'x, 'y, 'g) tls_lib \<Rightarrow> (rstring \<Rightarrow> (u8 list, rstring) result) \<Rightarrow> (rstring \<Rightarrow> rstring) \<Rightarrow> rstring option
     \<Rightarrow> rstring \<Rightarrow> rstring \<Rightarrow> ('a, net_error) result" where
  "server_acceptor_from_files mk T read dbg home cert_path key_path =
     and_then (server_config_from_files T read dbg home cert_path key_path) (\<lambda>c. Ok (mk c))"

definition server_acceptor_from_pem_bytes ::
  "('g \<Rightarrow> 'a) \<Rightarrow> ('b, 'x, 'y, 'g) tls_lib \<Rightarrow> rstring \<Rightarrow> rstring \<Rightarrow> ('a, net_error) result" where
  "server_acceptor_from_pem_bytes mk T cert_pem key_pem =
     and_then (server_config_from_pem_bytes T cert_pem key_pem) (\<lambda>c. Ok (mk c))"

section \<open>The documented behaviour of the libraries\<close>

text \<open>What can be observed of a listening socket and of a stream.\<close>

record ('o, 'k, 'c) socket_view =
  vw_bound :: "'o \<Rightarrow> 'k \<Rightarrow> sock_addr option"
  vw_backlog :: "'o \<Rightarrow> 'k \<Rightarrow> int option"
  vw_nodelay :: "'o \<Rightarrow> 'c \<Rightarrow> bool"
  vw_keepalive :: "'o \<Rightarrow> 'c \<Rightarrow> duration option"

definition socket_spec :: "('o, 'k, 'c, 'a, 'z) socket_lib \<Rightarrow> ('o, 'k, 'c) socket_view \<Rightarrow> bool" where
  "socket_spec L V \<longleftrightarrow>
     (\<forall>k addr os os'. so_bind L k addr os = (Ok (), os') \<longrightarrow> vw_bound V os' k = Some addr) \<and>
     (\<forall>k n os os'. so_listen L k n os = (Ok (), os') \<longrightarrow>
        vw_backlog V os' k = Some n \<and> vw_bound V os' k = vw_bound V os k) \<and>
     (\<forall>k k' os os'. so_from_std L k os = (Ok k', os') \<longrightarrow>
        vw_backlog V os' k' = vw_backlog V os k \<and> vw_bound V os' k' = vw_bound V os k) \<and>
     (\<forall>c b os os'. so_set_nodelay L c b os = (Ok (), os') \<longrightarrow> vw_nodelay V os' c = b) \<and>
     (\<forall>c d os os'. so_set_tcp_keepalive L c d os = (Ok (), os') \<longrightarrow>
        vw_keepalive V os' c = Some d \<and> vw_nodelay V os' c = vw_nodelay V os c)"

definition tls_spec :: "('b, 'x, 'y, 'g) tls_lib \<Rightarrow> ('b \<Rightarrow> tls_version set) \<Rightarrow> ('g \<Rightarrow> tls_version set) \<Rightarrow> ('g \<Rightarrow> 'x list) \<Rightarrow> bool" where
  "tls_spec T enabled versions chain \<longleftrightarrow>
     (\<forall>vs b. tl_with_versions T vs = Ok b \<longrightarrow> enabled b = set vs) \<and>
     (\<forall>b certs key g. tl_with_single_cert T b certs key = Ok g \<longrightarrow> versions g = enabled b \<and> chain g = certs)"

lemmas chain_iffs = st_then_Ok_iff on_err_Ok_iff io_try_def

section \<open>Properties\<close>

lemma accept_tcp_configured:
  assumes "socket_spec L V" and "accept_tcp L tp os = (Ok (c, peer), os')"
  shows "vw_nodelay V os' c = tp_nodelay tp \<and> (tp_keepalive tp \<noteq> None \<longrightarrow> vw_keepalive V os' c = tp_keepalive tp)"
  using assms
  by (auto simp: accept_tcp_def TcpTlsTransport_configure_def chain_iffs socket_spec_def split: option.splits)

text \<open>
  The transport applies its settings, and hands out nothing that is not configured. A
  successful bind listens on the requested address with the requested backlog, cut off at the
  largest \<^verbatim>\<open>i32\<close>; every raw connection the gateway is given has the configured no-delay and
  keep-alive options; a TLS stream is only handed out after the handshake on such a
  connection succeeded, and any failing step makes the whole call fail.
\<close>

theorem transport_configured:
  assumes "socket_spec L V"
  shows "(TcpTlsTransport_bind L addr acceptor backlog nodelay keepalive os = (Ok tp, os') \<longrightarrow>
       vw_bound V os' (tp_listener tp) = Some addr \<and>
       vw_backlog V os' (tp_listener tp) = Some (min (uint backlog) (2 ^ 31 - 1)) \<and>
       tp_acceptor tp = acceptor \<and> tp_nodelay tp = nodelay \<and> tp_keepalive tp = keepalive) \<and>
    (RawTcp_accept L tp os = (Ok (c, peer), os') \<longrightarrow>
       vw_nodelay V os' c = tp_nodelay tp \<and> (tp_keepalive tp \<noteq> None \<longrightarrow> vw_keepalive V os' c = tp_keepalive tp)) \<and>
    (Transport_accept L tp os = (Ok (z, peer), os') \<longrightarrow>
       (\<exists>c os1. accept_tcp L tp os = (Ok (c, peer), os1) \<and> vw_nodelay V os1 c = tp_nodelay tp \<and>
          so_tls_accept L (tp_acceptor tp) c os1 = (Ok z, os')))"
proof (intro conjI impI)
  assume "TcpTlsTransport_bind L addr acceptor backlog nodelay keepalive os = (Ok tp, os')"
  then obtain k l o1 o2 o3 where s: "so_bind L k addr o1 = (Ok (), o2)" "so_listen L k (backlog_i32 backlog) o2 = (Ok (), o3)"
    "so_from_std L k o3 = (Ok l, os')" and tp: "tp = \<lparr>tp_listener = l, tp_acceptor = acceptor, tp_nodelay = nodelay, tp_keepalive = keepalive\<rparr>"
    by (auto simp: TcpTlsTransport_bind_def chain_iffs)
  have "vw_bound V os' l = Some addr" "vw_backlog V os' l = Some (backlog_i32 backlog)"
    using s assms unfolding socket_spec_def by metis+
  moreover have "backlog_i32 backlog = min (uint backlog) (2 ^ 31 - 1)" by (simp add: backlog_i32_def min_def)
  ultimately show "vw_bound V os' (tp_listener tp) = Some addr"
    "vw_backlog V os' (tp_listener tp) = Some (min (uint backlog) (2 ^ 31 - 1))"
    "tp_acceptor tp = acceptor" "tp_nodelay tp = nodelay" "tp_keepalive tp = keepalive"
    by (simp_all add: tp)
next
  assume "RawTcp_accept L tp os = (Ok (c, peer), os')"
  then have a: "accept_tcp L tp os = (Ok (c, peer), os')" by (simp add: RawTcp_accept_def chain_iffs)
  show "vw_nodelay V os' c = tp_nodelay tp" using accept_tcp_configured [OF assms a] by simp
  show "tp_keepalive tp \<noteq> None \<Longrightarrow> vw_keepalive V os' c = tp_keepalive tp"
    using accept_tcp_configured [OF assms a] by simp
next
  assume "Transport_accept L tp os = (Ok (z, peer), os')"
  then obtain c os1 where a: "accept_tcp L tp os = (Ok (c, peer), os1)" "so_tls_accept L (tp_acceptor tp) c os1 = (Ok z, os')"
    by (auto simp: Transport_accept_def accept_tls_def TcpTlsTransport_handshake_def chain_iffs)
  with accept_tcp_configured [OF assms a(1)]
  show "\<exists>c os1. accept_tcp L tp os = (Ok (c, peer), os1) \<and> vw_nodelay V os1 c = tp_nodelay tp \<and>
      so_tls_accept L (tp_acceptor tp) c os1 = (Ok z, os')" by blast
qed

lemma expand_home_error: "expand_home home path = Err e \<Longrightarrow> e = NetTlsConfig msg_home_needed"
  by (auto simp: expand_home_def split: option.splits)

lemma from_pem_error: "server_config_from_pem_bytes T c k = Err e \<Longrightarrow> \<exists>m. e = NetTlsConfig m"
  by (auto simp: server_config_from_pem_bytes_def build_config_def and_then_Err_iff map_err_Err_iff split: if_splits)

lemma from_files_error: "server_config_from_files T read dbg home cp kp = Err e \<Longrightarrow> \<exists>m. e = NetTlsConfig m"
  by (auto simp: server_config_from_files_def and_then_Err_iff map_err_Err_iff
      dest: expand_home_error from_pem_error)

text \<open>
  The TLS configuration: whatever is built from the files allows TLS 1.3 and nothing else and carries
  the non-empty certificate chain that the parser finds in the certificate file, byte for byte
  when the file is ASCII; every failure, from the file system to a key that does not match, is
  reported as a configuration error. A path that begins with \<^verbatim>\<open>~/\<close> is looked up in the home
  directory, which has to be set and not empty; every path whose first component is not \<^verbatim>\<open>~\<close> is
  used as it is.
\<close>

theorem tls_config_from_files:
  assumes "tls_spec T enabled versions chain"
  shows "(case server_config_from_files T read dbg home cert_path key_path of
       Err e \<Rightarrow> (\<exists>m. e = NetTlsConfig m)
     | Ok g \<Rightarrow> versions g = {TLS13} \<and> chain g \<noteq> [] \<and>
         (\<exists>cp kp cert key. expand_home home cert_path = Ok cp \<and> expand_home home key_path = Ok kp \<and>
            read cp = Ok cert \<and> read kp = Ok key \<and>
            ((\<forall>b \<in> set cert. b < 0x80) \<longrightarrow> tl_certs T cert = Ok (chain g)))) \<and>
    (rel \<noteq> [] \<and> hd rel \<notin> {0x2E, 0x2F} \<and> List.last rel \<notin> {0x2E, 0x2F} \<longrightarrow>
       expand_home home (0x7E # 0x2F # rel) =
         (case home of
            None \<Rightarrow> Err (NetTlsConfig msg_home_needed)
          | Some h \<Rightarrow> if h = [] then Err (NetTlsConfig msg_home_needed) else Ok (path_join h rel))) \<and>
    (hd path \<noteq> 0x7E \<longrightarrow> expand_home home path = Ok path)"
proof (intro conjI impI)
  show "case server_config_from_files T read dbg home cert_path key_path of
       Err e \<Rightarrow> (\<exists>m. e = NetTlsConfig m)
     | Ok g \<Rightarrow> versions g = {TLS13} \<and> chain g \<noteq> [] \<and>
         (\<exists>cp kp cert key. expand_home home cert_path = Ok cp \<and> expand_home home key_path = Ok kp \<and>
            read cp = Ok cert \<and> read kp = Ok key \<and>
            ((\<forall>b \<in> set cert. b < 0x80) \<longrightarrow> tl_certs T cert = Ok (chain g)))"
  proof (cases "server_config_from_files T read dbg home cert_path key_path")
    case (Err e)
    with from_files_error show ?thesis by fastforce
  next
    case (Ok g)
    then obtain cp kp cert key certs k b where p: "expand_home home cert_path = Ok cp" "expand_home home key_path = Ok kp"
        "read cp = Ok cert" "read kp = Ok key" "tl_certs T (as_bytes (from_utf8_lossy cert)) = Ok certs" "certs \<noteq> []"
        "tl_with_versions T [TLS13] = Ok b" "tl_with_single_cert T b certs k = Ok g"
      by (auto simp: server_config_from_files_def server_config_from_pem_bytes_def build_config_def and_then_Ok_iff
          split: if_splits)
    have "versions g = {TLS13}" "chain g = certs" using assms p(7,8) by (auto simp: tls_spec_def)
    with p Ok show ?thesis by (auto simp: utf8_ascii)
  qed
  show "hd path \<noteq> 0x7E \<Longrightarrow> expand_home home path = Ok path"
    by (cases path) (auto simp: expand_home_def strip_home_def)
  assume rel: "rel \<noteq> [] \<and> hd rel \<notin> {0x2E, 0x2F} \<and> List.last rel \<notin> {0x2E, 0x2F}"
  have "path_trim rel = rel" using rel by (cases rel) auto
  moreover have "path_trim (rev rel) = rev rel" using rel by (cases rel rule: rev_cases) auto
  ultimately show "expand_home home (0x7E # 0x2F # rel) =
      (case home of
         None \<Rightarrow> Err (NetTlsConfig msg_home_needed)
       | Some h \<Rightarrow> if h = [] then Err (NetTlsConfig msg_home_needed) else Ok (path_join h rel))"
    by (simp add: expand_home_def strip_home_def split: option.split)
qed

section \<open>Instances\<close>

text \<open>A socket library that records the options of the stream, and a TLS library whose files hold one byte per item.\<close>

record sample_os =
  os_bound :: "sock_addr option"
  os_backlog :: "int option"
  os_nodelay :: bool
  os_keepalive :: "duration option"

definition sample_sockets :: "(sample_os, unit, unit, unit, unit) socket_lib" where
  "sample_sockets =
     \<lparr>so_new = (\<lambda>addr os. (Ok (), os)), so_set_reuse_address = (\<lambda>k b os. (Ok (), os)),
      so_set_nonblocking = (\<lambda>k b os. (Ok (), os)), so_bind = (\<lambda>k addr os. (Ok (), os\<lparr>os_bound := Some addr\<rparr>)),
      so_listen = (\<lambda>k n os. (Ok (), os\<lparr>os_backlog := Some n\<rparr>)), so_from_std = (\<lambda>k os. (Ok k, os)),
      so_accept = (\<lambda>k os. (Ok ((), 7), os)), so_set_nodelay = (\<lambda>c b os. (Ok (), os\<lparr>os_nodelay := b\<rparr>)),
      so_set_tcp_keepalive = (\<lambda>c d os. (Ok (), os\<lparr>os_keepalive := Some d\<rparr>)), so_local_addr = (\<lambda>k os. Ok 9),
      so_tls_accept = (\<lambda>a c os. (Ok (), os))\<rparr>"

definition sample_view :: "(sample_os, unit, unit) socket_view" where
  "sample_view =
     \<lparr>vw_bound = (\<lambda>os k. os_bound os), vw_backlog = (\<lambda>os k. os_backlog os), vw_nodelay = (\<lambda>os c. os_nodelay os),
      vw_keepalive = (\<lambda>os c. os_keepalive os)\<rparr>"

lemma sample_sockets_spec: "socket_spec sample_sockets sample_view"
  by (auto simp: socket_spec_def sample_sockets_def sample_view_def)

definition sample_tls :: "(tls_version set, u8, u8, tls_version set \<times> u8 list) tls_lib" where
  "sample_tls =
     \<lparr>tl_certs = (\<lambda>bs. Ok bs), tl_key = (\<lambda>bs. case bs of [] \<Rightarrow> Err [] | b # _ \<Rightarrow> Ok b), tl_with_versions = (\<lambda>vs. Ok (set vs)),
      tl_with_single_cert = (\<lambda>b certs key. if hd certs = key then Ok (b, certs) else Err [])\<rparr>"

lemma sample_tls_spec: "tls_spec sample_tls id fst snd"
  by (auto simp: tls_spec_def sample_tls_def split: if_splits)

text \<open>Witness: a listener with a huge backlog, and a connection it accepts.\<close>

theorem transport_configured_witness:
  "let os = \<lparr>os_bound = None, os_backlog = None, os_nodelay = False, os_keepalive = None\<rparr>;
       (tp, os1) = TcpTlsTransport_bind sample_sockets 80 () 0xFFFFFFFF True (Some 30) os
   in os_backlog os1 = Some (2 ^ 31 - 1) \<and>
      os_nodelay (snd (RawTcp_accept sample_sockets
        \<lparr>tp_listener = (), tp_acceptor = (), tp_nodelay = True, tp_keepalive = Some 30\<rparr> os1))"
proof -
  let ?tp = "\<lparr>tp_listener = (), tp_acceptor = (), tp_nodelay = True, tp_keepalive = Some 30\<rparr> :: (unit, unit) transport"
  let ?os = "\<lparr>os_bound = None, os_backlog = None, os_nodelay = False, os_keepalive = None\<rparr>"
  obtain os1 where b: "TcpTlsTransport_bind sample_sockets 80 () 0xFFFFFFFF True (Some 30) ?os = (Ok ?tp, os1)"
    by (simp add: TcpTlsTransport_bind_def sample_sockets_def io_try_def on_err_def)
  obtain os2 where a: "RawTcp_accept sample_sockets ?tp os1 = (Ok ((), 7), os2)"
    by (simp add: RawTcp_accept_def accept_tcp_def TcpTlsTransport_configure_def sample_sockets_def io_try_def on_err_def)
  note t = transport_configured [OF sample_sockets_spec, where tp = ?tp]
  have "os_backlog os1 = Some (2 ^ 31 - 1)"
    using t [where addr = 80 and acceptor = "()" and backlog = "0xFFFFFFFF" and nodelay = True and
        keepalive = "Some 30" and os = ?os and os' = os1, THEN conjunct1] b by (simp add: sample_view_def)
  moreover have "os_nodelay os2"
    using t [where os = os1 and os' = os2 and c = "()" and peer = 7, THEN conjunct2, THEN conjunct1] a
    by (simp add: sample_view_def)
  ultimately show ?thesis using b a by simp
qed

text \<open>Witness: a certificate in the home directory.\<close>

theorem tls_config_from_files_witness:
  "fst (case server_config_from_files sample_tls (\<lambda>p. if p = ascii ''/h/c'' then Ok [65] else Err []) id (Some (ascii ''/h''))
          (ascii ''~/c'') (ascii ''/h/c'') of Ok g \<Rightarrow> g | Err e \<Rightarrow> ({}, [])) = {TLS13}"
proof -
  let ?r = "\<lambda>p. if p = ascii ''/h/c'' then Ok [65] else Err [] :: (u8 list, rstring) result"
  obtain g where "server_config_from_files sample_tls ?r id (Some (ascii ''/h'')) (ascii ''~/c'') (ascii ''/h/c'') = Ok g"
    by (simp add: server_config_from_files_def expand_home_def strip_home_def path_join_def ascii_def of_char_def
        server_config_from_pem_bytes_def build_config_def sample_tls_def from_utf8_lossy_def as_bytes_def encode_utf8_def)
  with tls_config_from_files [OF sample_tls_spec, where read = ?r and dbg = id and home = "Some (ascii ''/h'')" and
      cert_path = "ascii ''~/c''" and key_path = "ascii ''/h/c''", THEN conjunct1]
  show ?thesis by simp
qed

end
