(* ===== verification/LX_Startup.thy ===== *)
theory LX_Startup
  imports LX_Bootstrap LX_Server LX_Observability LX_Production LX_Migration LX_Password LX_Events LX_Transport
begin

text \<open>
  The start-up sequence: \<^verbatim>\<open>crates/gateway/src/tcp/server.rs\<close> and \<^verbatim>\<open>http/server.rs\<close> (binding of the two
  gateways and of the redirect listener) and the rest of \<^verbatim>\<open>crates/server-bin/src/bootstrap.rs\<close>
  (connection of the stores, assembly of the use cases, TLS, the order of \<^verbatim>\<open>run\<close>). The libraries
  behind it are the parameters \<open>platform\<close>, \<open>socket_lib\<close>, \<open>tls_lib\<close>, \<open>database\<close>, \<open>redis\<close> and \<open>argon2\<close>. What the
  process has done so far is the log of a \<open>boot\<close> state, next to the states of the operating
  system and of the database.
\<close>

section \<open>The gateways\<close>

datatype gateway_error = GwNet net_error | GwAddr rstring | GwConfig rstring

primrec GatewayError_display :: "gateway_error \<Rightarrow> rstring" where
  "GatewayError_display (GwNet e) = pre_gateway_net @ NetError_display e"
| "GatewayError_display (GwAddr m) = pre_gateway_addr @ m"
| "GatewayError_display (GwConfig m) = pre_gateway_config @ m"

record ('k, 'a, 'st) tcp_gateway =
  tg_transport :: "('k, 'a) transport"
  tg_deps :: 'st
  tg_config :: tcp_gateway_config

definition TcpGateway_bind ::
  "('o, 'k, 'c, 'a, 'z) socket_lib \<Rightarrow> tcp_gateway_config \<Rightarrow> 'a \<Rightarrow> 'st \<Rightarrow> 'o
     \<Rightarrow> (('k, 'a, 'st) tcp_gateway, gateway_error) result \<times> 'o" where
  "TcpGateway_bind L cfg acceptor deps os =
     st_then (on_err GwNet (TcpTlsTransport_bind L (tc_bind_addr cfg) acceptor (tc_backlog cfg) (tc_nodelay cfg)
                (Some (tc_keepalive cfg)) os))
       (\<lambda>transport os. (Ok \<lparr>tg_transport = transport, tg_deps = deps, tg_config = cfg\<rparr>, os))"

definition TcpGateway_local_addr ::
  "('o, 'k, 'c, 'a, 'z) socket_lib \<Rightarrow> ('k, 'a, 'st) tcp_gateway \<Rightarrow> 'o \<Rightarrow> (sock_addr, gateway_error) result" where
  "TcpGateway_local_addr L tg os = map_err (\<lambda>e. GwNet (NetIo e)) (TcpTlsTransport_local_addr L (tg_transport tg) os)"

definition TcpGateway_config :: "('k, 'a, 'st) tcp_gateway \<Rightarrow> tcp_gateway_config" where
  "TcpGateway_config tg = tg_config tg"

definition TcpGateway_bind_addr :: "('k, 'a, 'st) tcp_gateway \<Rightarrow> sock_addr" where
  "TcpGateway_bind_addr tg = tc_bind_addr (tg_config tg)"

definition GRACEFUL_SHUTDOWN_WINDOW :: duration where
  "GRACEFUL_SHUTDOWN_WINDOW = 15 * 1000000000"

section \<open>The platform\<close>

record connect_options =
  co_url :: rstring
  co_max_connections :: u32
  co_min_connections :: u32
  co_connect_timeout :: duration
  co_idle_timeout :: duration
  co_sqlx_logging :: bool

text \<open>
  \<open>pf_bind_rustls\<close> starts the HTTPS server and answers what the listening task reports: \<open>None\<close> when
  the task is gone, \<open>Some None\<close> when the port was not bound.
\<close>

record ('o, 'd, 'cl, 'r, 'a, 'g, 'li) platform =
  pf_install_recorder :: "'o \<Rightarrow> (unit, rstring) result \<times> 'o"
  pf_parse_addr :: "rstring \<Rightarrow> (sock_addr, rstring) result"
  pf_port :: "sock_addr \<Rightarrow> u16"
  pf_read :: "rstring \<Rightarrow> (u8 list, rstring) result"
  pf_home :: "rstring option"
  pf_debug :: "rstring \<Rightarrow> rstring"
  pf_db_connect :: "connect_options \<Rightarrow> 'd \<Rightarrow> (unit, db_err) result \<times> 'd"
  pf_redis_open :: "rstring \<Rightarrow> ('cl, rstring) result"
  pf_redis_connection :: "duration \<Rightarrow> 'cl \<Rightarrow> ('r, rstring) result option"
  pf_acceptor :: "'g \<Rightarrow> 'a"
  pf_bind_rustls :: "sock_addr \<Rightarrow> 'g \<Rightarrow> 'o \<Rightarrow> sock_addr option option \<times> 'o"
  pf_tcp_bind :: "sock_addr \<Rightarrow> 'o \<Rightarrow> ('li, io_error) result \<times> 'o"
  pf_tcp_local_addr :: "'li \<Rightarrow> 'o \<Rightarrow> (sock_addr, io_error) result"

datatype 'g boot_event =
    MetricsSpawned sock_addr
  | DatabaseConnected
  | SchemaMigrated
  | TokensConnected
  | GatewayListening sock_addr 'g
  | HttpsListening sock_addr 'g
  | RedirectListening sock_addr u16
  | ShutdownSignalled
  | TeardownStep teardown_event

text \<open>The watch channel of the shutdown signal, and what its \<^verbatim>\<open>wait_for(|done| *done)\<close> gives.\<close>

record shutdown_watch =
  sw_value :: bool
  sw_sender_gone :: bool

definition watch_channel :: shutdown_watch where
  "watch_channel = \<lparr>sw_value = False, sw_sender_gone = False\<rparr>"

datatype wait_result = WaitOk | WaitClosed | WaitPending

definition watch_wait_for :: "shutdown_watch \<Rightarrow> wait_result" where
  "watch_wait_for s = (if sw_value s then WaitOk else if sw_sender_gone s then WaitClosed else WaitPending)"

record ('o, 'd, 'g) boot =
  bt_os :: 'o
  bt_db :: 'd
  bt_shutdown :: shutdown_watch
  bt_log :: "'g boot_event list"

datatype boot_error =
    BootConfig config_error
  | BootText rstring
  | BootDb db_err
  | BootApp app_error
  | BootNet net_error
  | BootGateway gateway_error

definition with_os :: "('o \<Rightarrow> ('x, 'e) result \<times> 'o) \<Rightarrow> ('o, 'd, 'g) boot \<Rightarrow> ('x, 'e) result \<times> ('o, 'd, 'g) boot" where
  "with_os f b = (case f (bt_os b) of (r, os) \<Rightarrow> (r, b\<lparr>bt_os := os\<rparr>))"

definition with_db :: "('d \<Rightarrow> ('x, 'e) result \<times> 'd) \<Rightarrow> ('o, 'd, 'g) boot \<Rightarrow> ('x, 'e) result \<times> ('o, 'd, 'g) boot" where
  "with_db f b = (case f (bt_db b) of (r, d) \<Rightarrow> (r, b\<lparr>bt_db := d\<rparr>))"

definition log_event :: "'g boot_event \<Rightarrow> ('o, 'd, 'g) boot \<Rightarrow> ('o, 'd, 'g) boot" where
  "log_event e b = b\<lparr>bt_log := bt_log b @ [e]\<rparr>"

section \<open>HTTPS and redirect\<close>

definition serve_https ::
  "('o, 'd, 'cl, 'r, 'a, 'g, 'li) platform \<Rightarrow> sock_addr \<Rightarrow> 'g \<Rightarrow> 'o \<Rightarrow> (sock_addr, gateway_error) result \<times> 'o" where
  "serve_https P addr tls os =
     (case pf_bind_rustls P addr tls os of
        (None, os') \<Rightarrow> (Err (GwConfig msg_https_task_gone), os')
      | (Some None, os') \<Rightarrow> (Err (GwConfig msg_https_bind_failed), os')
      | (Some (Some bound), os') \<Rightarrow> (Ok bound, os'))"

definition serve_redirect ::
  "('o, 'd, 'cl, 'r, 'a, 'g, 'li) platform \<Rightarrow> sock_addr \<Rightarrow> 'o \<Rightarrow> (sock_addr, gateway_error) result \<times> 'o" where
  "serve_redirect P addr os =
     st_then (on_err (\<lambda>e. GwNet (NetIo e)) (pf_tcp_bind P addr os)) (\<lambda>listener os.
       (map_err (\<lambda>e. GwNet (NetIo e)) (pf_tcp_local_addr P listener os), os))"

text \<open>
  What the signal does to the two HTTP listeners. The task that waits for it on behalf of the HTTPS server starts its graceful
  shutdown, with a window for open requests, and does nothing when the channel is closed without a signal; the redirect listener
  stops in either case.
\<close>

definition https_shutdown :: "shutdown_watch \<Rightarrow> duration option" where
  "https_shutdown s = (if watch_wait_for s = WaitOk then Some GRACEFUL_SHUTDOWN_WINDOW else None)"

definition redirect_shutdown :: "shutdown_watch \<Rightarrow> bool" where
  "redirect_shutdown s \<longleftrightarrow> watch_wait_for s \<noteq> WaitPending"

text \<open>The optional listener for redirects, in plain text; \<open>https\<close> is the address the HTTPS server is bound to.\<close>

definition start_redirect ::
  "('o, 'd, 'cl, 'r, 'a, 'g, 'li) platform \<Rightarrow> rstring option \<Rightarrow> sock_addr \<Rightarrow> ('o, 'd, 'g) boot
     \<Rightarrow> (unit, boot_error) result \<times> ('o, 'd, 'g) boot" where
  "start_redirect P redirect_addr https b =
     (case redirect_addr of
        None \<Rightarrow> (Ok (), b)
      | Some redirect_addr \<Rightarrow>
          st_then (map_err (\<lambda>e. BootText (pre_redirect_addr @ e)) (pf_parse_addr P redirect_addr), b) (\<lambda>addr b.
          st_then (on_err BootGateway (with_os (serve_redirect P addr) b)) (\<lambda>bound b.
            (Ok (), log_event (RedirectListening bound (pf_port P https)) b))))"

definition start_http_server ::
  "('o, 'd, 'cl, 'r, 'a, 'g, 'li) platform \<Rightarrow> config \<Rightarrow> 'g \<Rightarrow> ('o, 'd, 'g) boot \<Rightarrow> (unit, boot_error) result \<times> ('o, 'd, 'g) boot" where
  "start_http_server P c tls b =
     st_then (map_err (\<lambda>e. BootText (pre_http_addr @ e)) (pf_parse_addr P (nc_http_bind_addr (cf_network c))), b) (\<lambda>addr b.
     st_then (on_err BootGateway (with_os (serve_https P addr tls) b)) (\<lambda>bound b.
       start_redirect P (nc_http_redirect_addr (cf_network c)) bound (log_event (HttpsListening bound tls) b)))"

section \<open>Stores and services\<close>

definition database_options :: "database_config \<Rightarrow> connect_options" where
  "database_options cfg =
     \<lparr>co_url = db_url cfg, co_max_connections = db_max_connections cfg, co_min_connections = db_min_connections cfg,
      co_connect_timeout = from_secs (db_connect_timeout_secs cfg), co_idle_timeout = from_secs (db_idle_timeout_secs cfg),
      co_sqlx_logging = (db_sqlx_log_level cfg = ascii ''debug'' \<or> db_sqlx_log_level cfg = ascii ''trace'')\<rparr>"

definition connect_database ::
  "('o, 'd, 'cl, 'r, 'a, 'g, 'li) platform \<Rightarrow> database_config \<Rightarrow> ('o, 'd, 'g) boot \<Rightarrow> (unit, boot_error) result \<times> ('o, 'd, 'g) boot" where
  "connect_database P cfg b =
     st_then (on_err BootDb (with_db (pf_db_connect P (database_options cfg)) b)) (\<lambda>_ b. (Ok (), log_event DatabaseConnected b))"

definition connect_token_store ::
  "('o, 'd, 'cl, 'r, 'a, 'g, 'li) platform \<Rightarrow> config \<Rightarrow> ('o, 'd, 'g) boot \<Rightarrow> ('r, boot_error) result \<times> ('o, 'd, 'g) boot" where
  "connect_token_store P c b =
     st_then (map_err BootApp (RedisTokenStore_connect (pf_redis_open P)
                (pf_redis_connection P (from_secs (rd_connect_timeout_secs (cf_redis c)))) (rd_url (cf_redis c))), b)
       (\<lambda>store b. (Ok store, log_event TokensConnected b))"

record ('s, 't, 'l, 'q, 'p, 'bus) services =
  svc_register :: "('s, 'l) register_use_case"
  svc_login :: "('s, 't, 'l) login_use_case"
  svc_profile :: "'s player_repository"
  svc_rooms :: "'q world"
  svc_tokens :: "'t token_store"
  svc_players :: "'s player_repository"
  svc_hasher :: "'p argon2_hasher"
  svc_publisher :: 'bus

text \<open>
  \<open>tokens\<close> is the connected token store, \<open>audit\<close> the writer of the audit table and \<open>salt\<close> the salt that the
  hash library draws.
\<close>

definition build_services ::
  "('p, 'h) argon2 \<Rightarrow> nat \<Rightarrow> 's database \<Rightarrow> (uuid \<Rightarrow> rstring) \<Rightarrow> ('bus, 'sub) broadcast \<Rightarrow> u8 list \<Rightarrow> 'l audit_logger \<Rightarrow> 'q sinks
     \<Rightarrow> config \<Rightarrow> 't token_store \<Rightarrow> (('s, 't, 'l, 'q, 'p, 'bus) services, boot_error) result" where
  "build_services A max_permits D show_uuid B salt audit \<sigma> c tokens =
     (let accounts = SeaAccountRepository D show_uuid;
          players = SeaPlayerRepository D show_uuid;
          registration = SeaRegistrationStore D;
          (memory_kb, iterations, parallelism) = password_params (cf_app c)
      in and_then (map_err BootApp (Argon2PasswordHasher_new A max_permits memory_kb iterations parallelism
                     (apc_password_max_concurrency (cf_app c)))) (\<lambda>h.
         let hasher = Argon2PasswordHasher A salt h;
             publisher = InMemoryEventPublisher_new B 256
         in Ok \<lparr>svc_register = \<lparr>ru_accounts = accounts, ru_registration = registration, ru_hasher = hasher, ru_audit = audit\<rparr>,
                svc_login = \<lparr>lu_deps = \<lparr>ld_accounts = accounts, ld_players = players, ld_tokens = tokens, ld_hasher = hasher,
                                        ld_audit = audit\<rparr>,
                             lu_token_ttl = session_token_ttl (cf_app c)\<rparr>,
                svc_profile = players, svc_rooms = build_room_service c \<sigma>, svc_tokens = tokens, svc_players = players,
                svc_hasher = h, svc_publisher = publisher\<rparr>))"

text \<open>The state that the HTTP handlers share: the same use cases and stores as the rest of the process.\<close>

definition http_state_from :: "('s, 't, 'l, 'q, 'p, 'bus) services \<Rightarrow> ('s, 't, 'l) http_state" where
  "http_state_from svc =
     \<lparr>hs_register = svc_register svc, hs_login = svc_login svc, hs_profile = svc_profile svc, hs_tokens = svc_tokens svc\<rparr>"

definition in_memory_tokens :: "instant \<Rightarrow> token_state token_store \<times> token_state" where
  "in_memory_tokens imax = (InMemoryTokenStore imax, InMemoryTokenStore_new)"

definition build_tls_config ::
  "('o, 'd, 'cl, 'r, 'a, 'g, 'li) platform \<Rightarrow> ('b, 'x, 'y, 'g) tls_lib \<Rightarrow> tls_config \<Rightarrow> ('g, boot_error) result" where
  "build_tls_config P T tls =
     map_err BootNet (server_config_from_files T (pf_read P) (pf_debug P) (pf_home P) (tls_cert_path tls) (tls_key_path tls))"

definition start_tcp_gateway ::
  "('o, 'k, 'c, 'a, 'z) socket_lib \<Rightarrow> ('o, 'd, 'cl, 'r, 'a, 'g, 'li) platform \<Rightarrow> config \<Rightarrow> 't \<Rightarrow> 's \<Rightarrow> 'q world \<Rightarrow> 'f queues \<Rightarrow> 'g
     \<Rightarrow> ('o, 'd, 'g) boot \<Rightarrow> (('k, 'a, ('t, 's, 'q, 'f) gw) tcp_gateway, boot_error) result \<times> ('o, 'd, 'g) boot" where
  "start_tcp_gateway L P c tokens users rooms queues tls b =
     st_then (map_err (\<lambda>e. BootText (pre_tcp_addr @ e)) (pf_parse_addr P (nc_tcp_bind_addr (cf_network c))), b) (\<lambda>bind_addr b.
     st_then (on_err BootGateway (with_os (TcpGateway_bind L (tcp_config_from c bind_addr) (pf_acceptor P tls)
                (build_gateway_deps c tokens users rooms queues)) b)) (\<lambda>gateway b.
     st_then (map_err BootGateway (TcpGateway_local_addr L gateway (bt_os b)), b) (\<lambda>addr b.
       (Ok gateway, log_event (GatewayListening addr tls) b))))"

section \<open>The sequence of \<^verbatim>\<open>run\<close>\<close>

text \<open>
  The task that \<^verbatim>\<open>run\<close> spawns for the metrics endpoint; it runs beside the rest, at any time after it was spawned. It listens on an
  ordinary TCP socket, without TLS, and serves the router of \<open>LX_Observability\<close> there, unless the port cannot be bound, which
  nobody else gets to know.
\<close>

definition metrics_task ::
  "('o, 'd, 'cl, 'r, 'a, 'g, 'li) platform \<Rightarrow> ('w \<Rightarrow> rstring) \<Rightarrow> sock_addr \<Rightarrow> ('o, 'd, 'g) boot
     \<Rightarrow> ('li \<times> 'w router_call list) option \<times> ('o, 'd, 'g) boot" where
  "metrics_task P render addr b = (case serve_metrics (pf_tcp_bind P) addr render (bt_os b) of (served, os) \<Rightarrow> (served, b\<lparr>bt_os := os\<rparr>))"

definition metrics_addr_text :: "config \<Rightarrow> rstring" where
  "metrics_addr_text c = ascii ''0.0.0.0:'' @ show_nat (unat (lg_metrics_port (cf_log c)))"

text \<open>
  Everything \<^verbatim>\<open>run\<close> does before it waits for the signal. \<open>loaded\<close> is the outcome of \<^verbatim>\<open>load_config\<close>, \<open>build\<close> is
  \<^verbatim>\<open>build_services\<close> on the connected stores, and \<open>queues\<close> the channels of future connections.
\<close>

definition run_startup ::
  "('o, 'k, 'c, 'a, 'z) socket_lib \<Rightarrow> ('o, 'd, 'cl, 'r, 'a, 'g, 'li) platform \<Rightarrow> ('b, 'x, 'y, 'g) tls_lib
     \<Rightarrow> ('d migration list \<Rightarrow> 'd \<Rightarrow> (unit, db_err) result \<times> 'd) \<Rightarrow> 'd schema_manager
     \<Rightarrow> (config \<Rightarrow> (('d, 'r, 'l, 'q, 'p, 'bus) services, boot_error) result)
     \<Rightarrow> (config, config_error) result \<Rightarrow> 'f queues \<Rightarrow> ('o, 'd, 'g) boot
     \<Rightarrow> (config \<times> ('d, 'r, 'l, 'q, 'p, 'bus) services \<times> ('k, 'a, ('r, 'd, 'q, 'f) gw) tcp_gateway, boot_error) result
          \<times> ('o, 'd, 'g) boot" where
  "run_startup L P T migrator_up SM build loaded queues b =
     st_then (map_err BootConfig loaded, b) (\<lambda>c b.
     st_then (on_err (\<lambda>e. BootText (pre_recorder @ e)) (with_os (pf_install_recorder P) b)) (\<lambda>_ b.
     st_then (map_err BootText (pf_parse_addr P (metrics_addr_text c)), b) (\<lambda>metrics_addr b.
     let b = log_event (MetricsSpawned metrics_addr) b in
     st_then (connect_database P (cf_database c) b) (\<lambda>_ b.
     st_then (on_err BootDb (with_db (run_migrations migrator_up SM) b)) (\<lambda>_ b.
     let b = log_event SchemaMigrated b in
     st_then (connect_token_store P c b) (\<lambda>tokens b.
     st_then (build c, b) (\<lambda>services b.
     st_then (build_tls_config P T (cf_tls c), b) (\<lambda>tls b.
     st_then (start_tcp_gateway L P c tokens (bt_db b) (svc_rooms services) queues tls b) (\<lambda>tcp b.
     st_then (start_http_server P c tls b) (\<lambda>_ b. (Ok (c, services, tcp), b)))))))))))"

text \<open>The signal: the sender of the channel sends it and is dropped.\<close>

definition wait_for_signal :: "('o, 'd, 'g) boot \<Rightarrow> ('o, 'd, 'g) boot" where
  "wait_for_signal b = log_event ShutdownSignalled (b\<lparr>bt_shutdown := \<lparr>sw_value = True, sw_sender_gone = True\<rparr>\<rparr>)"

text \<open>\<open>opers\<close> is what happened in the rooms until the signal. \<open>Ok (None, _)\<close> means that the teardown, and with it \<^verbatim>\<open>run\<close>, has not returned yet.\<close>

definition bootstrap_run ::
  "'q event_chan \<Rightarrow> ('d \<Rightarrow> (unit, rstring) result \<times> 'd) \<Rightarrow> service_op list \<Rightarrow> instant \<Rightarrow> (nat \<times> instant) list
     \<Rightarrow> (config \<times> ('d, 'r, 'l, 'q, 'p, 'bus) services \<times> ('k, 'a, ('r, 'd, 'q, 'f) gw) tcp_gateway, boot_error) result
          \<times> ('o, 'd, 'g) boot
     \<Rightarrow> (bool option \<times> 'q world, boot_error) result \<times> ('o, 'd, 'g) boot" where
  "bootstrap_run M db_close opers now rounds started =
     st_then started (\<lambda>(c, services, tcp) b.
       let b = wait_for_signal b in
       case graceful_teardown M db_close c now rounds (fold (service_exec M) opers (svc_rooms services)) (bt_db b) of
         (drained, steps, rooms, d) \<Rightarrow>
           (Ok (drained, rooms), b\<lparr>bt_db := d, bt_log := bt_log b @ map TeardownStep steps\<rparr>))"

text \<open>\<^verbatim>\<open>main\<close>: the exit code of the process, once \<^verbatim>\<open>run\<close> has returned.\<close>

definition main_exit :: "(bool option \<times> 'x, boot_error) result \<Rightarrow> nat option" where
  "main_exit r = (case r of Ok (None, _) \<Rightarrow> None | Ok (Some _, _) \<Rightarrow> Some 0 | Err _ \<Rightarrow> Some 1)"

section \<open>The order of the log\<close>

text \<open>The seven steps that are visible from outside, by rank, and what has to hold when one of them is logged.\<close>

primrec event_rank :: "'g boot_event \<Rightarrow> nat" where
  "event_rank (MetricsSpawned a) = 0"
| "event_rank DatabaseConnected = 1"
| "event_rank SchemaMigrated = 2"
| "event_rank TokensConnected = 3"
| "event_rank (GatewayListening a g) = 4"
| "event_rank (HttpsListening a g) = 5"
| "event_rank (RedirectListening a p) = 6"
| "event_rank ShutdownSignalled = 7"
| "event_rank (TeardownStep t) = 8"

definition stages :: "config \<Rightarrow> nat" where
  "stages c = (case nc_http_redirect_addr (cf_network c) of None \<Rightarrow> 6 | Some a \<Rightarrow> 7)"

text \<open>Which plain-text listeners there may be: whether one for redirects, and the addresses for the one of the metrics.\<close>

type_synonym plain_text = "bool \<times> (sock_addr \<Rightarrow> bool)"

definition plain_text_of :: "('o, 'd, 'cl, 'r, 'a, 'g, 'li) platform \<Rightarrow> config \<Rightarrow> plain_text" where
  "plain_text_of P c = (nc_http_redirect_addr (cf_network c) \<noteq> None, \<lambda>a. pf_parse_addr P (metrics_addr_text c) = Ok a)"

definition event_ok :: "('g \<Rightarrow> tls_version set) \<Rightarrow> plain_text \<Rightarrow> 'g boot_event \<Rightarrow> bool" where
  "event_ok versions plain e \<longleftrightarrow>
     (\<forall>a g. e = GatewayListening a g \<or> e = HttpsListening a g \<longrightarrow> versions g = {TLS13}) \<and>
     (\<forall>a p. e = RedirectListening a p \<longrightarrow> fst plain) \<and> (\<forall>a. e = MetricsSpawned a \<longrightarrow> snd plain a)"

definition log_ok :: "('g \<Rightarrow> tls_version set) \<Rightarrow> plain_text \<Rightarrow> nat \<Rightarrow> ('o, 'd, 'g) boot \<Rightarrow> bool" where
  "log_ok versions plain n b \<longleftrightarrow>
     map event_rank (bt_log b) = [0..<n] \<and> (\<forall>e \<in> set (bt_log b). event_ok versions plain e) \<and> bt_shutdown b = watch_channel"

text \<open>A part of the sequence ends with \<open>n\<close> steps done, or fails with fewer than \<open>k\<close>.\<close>

definition stage :: "('g \<Rightarrow> tls_version set) \<Rightarrow> plain_text \<Rightarrow> nat \<Rightarrow> nat \<Rightarrow> ('x, 'e) result \<times> ('o, 'd, 'g) boot \<Rightarrow> bool" where
  "stage versions redirect n k r \<longleftrightarrow>
     (case fst r of Ok _ \<Rightarrow> log_ok versions redirect n (snd r) | Err _ \<Rightarrow> \<exists>j < k. log_ok versions redirect j (snd r))"

lemma log_ok_event:
  "log_ok V R n b \<Longrightarrow> event_rank e = n \<Longrightarrow> event_ok V R e \<Longrightarrow> log_ok V R (Suc n) (log_event e b)"
  by (simp add: log_ok_def log_event_def)

lemma stage_pure: "log_ok V R n b \<Longrightarrow> stage V R n (Suc n) (r, b)"
  by (auto simp: stage_def split: result.split)

lemma stage_os: "log_ok V R n b \<Longrightarrow> stage V R n (Suc n) (on_err f (with_os g b))"
  by (auto simp: stage_def on_err_def with_os_def log_ok_def split: prod.split result.split)

lemma stage_db: "log_ok V R n b \<Longrightarrow> stage V R n (Suc n) (on_err f (with_db g b))"
  by (auto simp: stage_def on_err_def with_db_def log_ok_def split: prod.split result.split)

lemma stage_Ok: "log_ok V R n b \<Longrightarrow> stage V R n k (Ok a, b)"
  by (simp add: stage_def)

lemma stage_then:
  assumes "stage V R n k' x" and "k' \<le> k" and "\<And>a b. x = (Ok a, b) \<Longrightarrow> log_ok V R n b \<Longrightarrow> stage V R m k (f a b)"
  shows "stage V R m k (st_then x f)"
proof (cases x)
  case (Pair r b)
  show ?thesis
  proof (cases r)
    case (Ok a)
    with Pair assms show ?thesis by (simp add: stage_def)
  next
    case (Err e)
    with Pair assms(1) obtain j where "j < k'" "log_ok V R j b" by (auto simp: stage_def)
    with Pair Err assms(2) show ?thesis by (auto simp: stage_def intro: order_less_le_trans)
  qed
qed

lemma connect_database_stage: "log_ok V R 1 b \<Longrightarrow> stage V R 2 2 (connect_database P cfg b)"
  unfolding connect_database_def
  by (rule stage_then [OF stage_db]) (auto intro!: stage_Ok dest: log_ok_event [where e = DatabaseConnected] simp: event_ok_def numeral_2_eq_2)

lemma connect_token_store_stage: "log_ok V R 3 b \<Longrightarrow> stage V R 4 4 (connect_token_store P c b)"
  unfolding connect_token_store_def
  by (rule stage_then [OF stage_pure]) (auto intro!: stage_Ok dest: log_ok_event [where e = TokensConnected] simp: event_ok_def eval_nat_numeral)

lemma start_tcp_gateway_stage:
  assumes "log_ok V R 4 b" and "V tls = {TLS13}"
  shows "stage V R 5 5 (start_tcp_gateway L P c tokens users rooms queues tls b)"
  unfolding start_tcp_gateway_def
proof (rule stage_then [OF stage_pure [OF assms(1)]], simp, rule stage_then [OF stage_os], assumption, simp,
    rule stage_then [OF stage_pure], assumption, simp)
  show "stage V R 5 5 (Ok gateway, log_event (GatewayListening addr tls) b)" if "log_ok V R 4 b" for gateway addr b
    using log_ok_event [OF that, of "GatewayListening addr tls"] assms(2) by (auto intro!: stage_Ok simp: event_ok_def)
qed

lemma start_redirect_stage:
  assumes "log_ok V R 6 b" and "fst R \<longleftrightarrow> nc_http_redirect_addr (cf_network c) \<noteq> None"
  shows "stage V R (stages c) (stages c) (start_redirect P (nc_http_redirect_addr (cf_network c)) https b)"
proof (cases "nc_http_redirect_addr (cf_network c)")
  case None
  with assms show ?thesis by (simp add: start_redirect_def stages_def stage_Ok)
next
  case (Some a)
  have r: "stage V R 7 7 (Ok (), log_event (RedirectListening bound (pf_port P https)) b)" if "log_ok V R 6 b" for bound b
    using log_ok_event [OF that, of "RedirectListening bound (pf_port P https)"] assms(2) Some
    by (auto intro!: stage_Ok simp: event_ok_def)
  have "stage V R 7 7 (start_redirect P (Some a) https b)"
    unfolding start_redirect_def option.case
    by (rule stage_then [OF stage_pure [OF assms(1)]], simp, rule stage_then [OF stage_os], assumption, simp, rule r)
  with Some show ?thesis by (simp add: stages_def)
qed

lemma start_http_server_stage:
  assumes "log_ok V R 5 b" and "V tls = {TLS13}" and "fst R \<longleftrightarrow> nc_http_redirect_addr (cf_network c) \<noteq> None"
  shows "stage V R (stages c) (stages c) (start_http_server P c tls b)"
proof -
  have st: "6 \<le> stages c" by (simp add: stages_def split: option.split)
  have h: "log_ok V R 6 (log_event (HttpsListening bound tls) b)" if "log_ok V R 5 b" for bound b
    using log_ok_event [OF that, of "HttpsListening bound tls"] assms(2) by (auto simp: event_ok_def)
  show ?thesis
    unfolding start_http_server_def
    by (rule stage_then [OF stage_pure [OF assms(1)]], use st in simp, rule stage_then [OF stage_os], assumption,
        use st in simp, rule start_redirect_stage [OF h assms(3)])
qed

lemma build_tls_versions:
  assumes "tls_spec T enabled versions chain" and "build_tls_config P T tls = Ok g"
  shows "versions g = {TLS13}"
  using assms by (auto simp: build_tls_config_def server_config_from_files_def server_config_from_pem_bytes_def
      build_config_def and_then_Ok_iff tls_spec_def split: if_splits)

lemma run_startup_stage:
  assumes tls: "tls_spec T enabled V chain" and b: "log_ok V (plain_text_of P c) 0 b"
  shows "stage V (plain_text_of P c) (stages c) (stages c) (run_startup L P T migrator_up SM build (Ok c) queues b)"
proof -
  let ?R = "plain_text_of P c"
  have R: "fst ?R \<longleftrightarrow> nc_http_redirect_addr (cf_network c) \<noteq> None" by (simp add: plain_text_of_def)
  have st: "6 \<le> stages c" by (simp add: stages_def split: option.split)
  have m: "log_ok V ?R 1 (log_event (MetricsSpawned a) b)"
    if "(map_err BootText (pf_parse_addr P (metrics_addr_text c)), b') = (Ok a, b)" "log_ok V ?R 0 b" for a b b'
    using log_ok_event [OF that(2), of "MetricsSpawned a"] that(1) by (simp add: event_ok_def plain_text_of_def chain_iffs)
  have s: "log_ok V ?R 3 (log_event SchemaMigrated b)" if "log_ok V ?R 2 b" for b
    using log_ok_event [OF that, of SchemaMigrated] by (simp add: event_ok_def)
  show ?thesis
    unfolding run_startup_def Let_def
    by (rule stage_then [OF stage_pure [OF b]], use st in simp, simp,
        rule stage_then [OF stage_os], assumption, use st in simp,
        rule stage_then [OF stage_pure], assumption, use st in simp,
        rule stage_then [OF connect_database_stage [OF m]], assumption, assumption, use st in simp,
        rule stage_then [OF stage_db], assumption, use st in simp,
        rule stage_then [OF connect_token_store_stage [OF s]], assumption, use st in simp,
        rule stage_then [OF stage_pure], assumption, use st in simp,
        rule stage_then [OF stage_pure], assumption, use st in simp,
        rule stage_then [OF start_tcp_gateway_stage], assumption, use build_tls_versions [OF tls] in force, use st in simp,
        rule stage_then [OF start_http_server_stage [OF _ _ R]], assumption, use build_tls_versions [OF tls] in force, use st in simp,
        rule stage_Ok)
qed

section \<open>Properties\<close>

text \<open>
  (C19) The start-up order, and what is served in plain text. Whatever fails, the steps visible from outside
  happen in one order, each after the success of the one before it: the metrics task is spawned, database, migrations, token store,
  TCP gateway, HTTPS, redirect. So no client of the game is served before the schema is migrated and both stores
  are connected. Both gateways only ever listen with a configuration that allows TLS 1.3 alone, and the
  plain-text redirect listener exists only if the configuration names an address for it. The metrics endpoint is the exception,
  which no configuration switches off: before anything else is tried its task is spawned for port \<^verbatim>\<open>METRICS_PORT\<close> of all
  interfaces, and whenever that task gets the port it serves the metrics there over plain TCP, before the rest of the start-up or
  after it, and also when the rest fails. The start-up succeeds exactly when all steps are done, and a refused configuration has no effect.
\<close>

theorem startup_order:
  assumes "tls_spec T enabled versions chain" and "bt_log b = []" and "bt_shutdown b = watch_channel"
    and "run_startup L P T migrator_up SM build (load_config dbg mp lookup) queues b = (res, b')"
  shows "map event_rank (bt_log b') = [0..<length (bt_log b')] \<and>
    (\<forall>addr g. GatewayListening addr g \<in> set (bt_log b') \<or> HttpsListening addr g \<in> set (bt_log b') \<longrightarrow> versions g = {TLS13}) \<and>
    (case load_config dbg mp lookup of
       Err e \<Rightarrow> res = Err (BootConfig e) \<and> b' = b
     | Ok c \<Rightarrow>
         length (bt_log b') \<le> stages c \<and> (is_ok res \<longleftrightarrow> length (bt_log b') = stages c) \<and>
         (\<forall>addr port. RedirectListening addr port \<in> set (bt_log b') \<longrightarrow> nc_http_redirect_addr (cf_network c) \<noteq> None) \<and>
         (bt_log b' \<noteq> [] \<longrightarrow> (\<exists>addr. hd (bt_log b') = MetricsSpawned addr \<and>
            pf_parse_addr P (ascii ''0.0.0.0:'' @ show_nat (unat (lg_metrics_port (cf_log c)))) = Ok addr \<and>
            (\<forall>b1 li os. pf_tcp_bind P addr (bt_os b1) = (Ok li, os) \<longrightarrow>
               metrics_task P render addr b1 = (Some (li, metrics_router render), b1\<lparr>bt_os := os\<rparr>)))))"
proof (cases "load_config dbg mp lookup")
  case (Err e)
  with assms(2,4) show ?thesis by (auto simp: run_startup_def)
next
  case (Ok c)
  let ?R = "plain_text_of P c"
  have "log_ok versions ?R 0 b" using assms(2,3) by (simp add: log_ok_def)
  from run_startup_stage [OF assms(1) this] assms(4) Ok
  have st: "stage versions ?R (stages c) (stages c) (res, b')" by metis
  then obtain n where n: "log_ok versions ?R n b'" "is_ok res \<longleftrightarrow> n = stages c" "n \<le> stages c"
    by (cases res) (auto simp: stage_def)
  then have len: "length (bt_log b') = n" unfolding log_ok_def by (metis length_map length_upt minus_nat.diff_0)
  have metrics: "\<exists>addr. hd (bt_log b') = MetricsSpawned addr \<and> pf_parse_addr P (metrics_addr_text c) = Ok addr" if "bt_log b' \<noteq> []"
  proof -
    have "event_rank (hd (bt_log b')) = hd (map event_rank (bt_log b'))" using that by (simp add: hd_map)
    also have "\<dots> = 0"
    proof -
      from len that have "0 < n" by auto
      with n(1) show ?thesis by (simp add: log_ok_def hd_upt)
    qed
    finally have "\<exists>addr. hd (bt_log b') = MetricsSpawned addr" by (cases "hd (bt_log b')") simp_all
    moreover have "event_ok versions ?R (hd (bt_log b'))" using n(1) that by (simp add: log_ok_def)
    ultimately show ?thesis by (auto simp: event_ok_def plain_text_of_def)
  qed
  have serves: "metrics_task P render addr b1 = (Some (li, metrics_router render), b1\<lparr>bt_os := os\<rparr>)"
    if "pf_tcp_bind P addr (bt_os b1) = (Ok li, os)" for addr b1 li os
    using that by (simp add: metrics_task_def serve_metrics_def)
  from n len Ok metrics serves show ?thesis by (auto simp: log_ok_def event_ok_def plain_text_of_def metrics_addr_text_def)
qed

text \<open>
  (C40) The limits of the configuration are the limits of the running parts. The services of an accepted
  configuration can always be built unless the hash library refuses its parameters; in every
  later state the password workers stay within the configured concurrency, and the accept loop
  of the gateway within the configured number of connections; the room service starts well formed
  with the configured capacity, and tokens live as long as configured.
\<close>

theorem configured_limits:
  assumes "load_config dbg mp lookup = Ok c"
  shows "(case build_services A (unat mp) D show_uuid B salt audit \<sigma> c tokens of
       Err e \<Rightarrow> (\<exists>m. a2_params_new A (apc_password_memory_kb (cf_app c)) (apc_password_iterations (cf_app c))
                   (apc_password_parallelism (cf_app c)) = Err m \<and> e = BootApp (Internal (pre_argon2_params @ m)))
     | Ok svc \<Rightarrow>
         (\<forall>(es :: 'w hasher_event list) h. hasher_run (svc_hasher svc) es h \<longrightarrow>
            length (ah_workers h) \<le> unat (apc_password_max_concurrency (cf_app c))) \<and>
         service_inv (svc_rooms svc) \<and>
         rsc_max_players (sv_config (svc_rooms svc)) = apc_max_players_per_room (cf_app c) \<and>
         lu_token_ttl (svc_login svc) = from_secs (apc_session_token_ttl_secs (cf_app c))) \<and>
    (\<forall>l. accept_step\<^sup>*\<^sup>* (accept_loop_start (gateway_accept_config (tcp_config_from c addr))) l \<longrightarrow>
       live_handlers l \<le> unat (nc_max_connections (cf_network c)))"
proof (intro conjI allI impI)
  have "Config_validate mp c = Ok ()" using assms by (auto simp: load_config_def and_then_Ok_iff)
  then have pw: "apc_password_max_concurrency (cf_app c) \<noteq> 0" "unat (apc_password_max_concurrency (cf_app c)) \<le> unat mp"
    by (auto simp: validate_iff word_le_nat_alt)
  show "case build_services A (unat mp) D show_uuid B salt audit \<sigma> c tokens of
       Err e \<Rightarrow> (\<exists>m. a2_params_new A (apc_password_memory_kb (cf_app c)) (apc_password_iterations (cf_app c))
                   (apc_password_parallelism (cf_app c)) = Err m \<and> e = BootApp (Internal (pre_argon2_params @ m)))
     | Ok svc \<Rightarrow>
         (\<forall>(es :: 'w hasher_event list) h. hasher_run (svc_hasher svc) es h \<longrightarrow>
            length (ah_workers h) \<le> unat (apc_password_max_concurrency (cf_app c))) \<and>
         service_inv (svc_rooms svc) \<and>
         rsc_max_players (sv_config (svc_rooms svc)) = apc_max_players_per_room (cf_app c) \<and>
         lu_token_ttl (svc_login svc) = from_secs (apc_session_token_ttl_secs (cf_app c))"
  proof (cases "a2_params_new A (apc_password_memory_kb (cf_app c)) (apc_password_iterations (cf_app c)) (apc_password_parallelism (cf_app c))")
    case (Err m)
    with pw show ?thesis by (simp add: build_services_def password_params_def Argon2PasswordHasher_new_def)
  next
    case (Ok params)
    then have new: "Argon2PasswordHasher_new A (unat mp) (apc_password_memory_kb (cf_app c)) (apc_password_iterations (cf_app c))
        (apc_password_parallelism (cf_app c)) (apc_password_max_concurrency (cf_app c)) =
        Ok \<lparr>ah_params = params, ah_available = unat (apc_password_max_concurrency (cf_app c)), ah_workers = []\<rparr>" (is "_ = Ok ?h")
      using pw by (simp add: Argon2PasswordHasher_new_def)
    have "length (ah_workers h) \<le> unat (apc_password_max_concurrency (cf_app c))" 
      if "hasher_run ?h es h" for es :: "'w hasher_event list" and h
      using hasher_run_inv [OF that] hasher_new_inv [OF new] by (force simp: hasher_inv_def)
    with new show ?thesis
      using service_inv_new [unfolded RoomService_new_def] by (simp add: build_services_def password_params_def build_room_service_def RoomService_new_def
          session_token_ttl_def from_secs_def Let_def)
  qed
next
  fix l
  assume "accept_step\<^sup>*\<^sup>* (accept_loop_start (gateway_accept_config (tcp_config_from c addr))) l"
  from accept_run_inv [OF this listener_inv_start]
  show "live_handlers l \<le> unat (nc_max_connections (cf_network c))"
    by (auto simp: gateway_accept_config_def tcp_config_from_def listener_inv_def)
qed

text \<open>Login and authentication of the HTTP gateway work on one token store, login and profile on one player repository.\<close>

lemma http_shares_stores:
  assumes "build_services A max_permits D show_uuid B salt audit \<sigma> c tokens = Ok svc"
  shows "hs_tokens (http_state_from svc) = tokens \<and> ld_tokens (lu_deps (hs_login (http_state_from svc))) = tokens \<and>
    hs_profile (http_state_from svc) = SeaPlayerRepository D show_uuid \<and>
    ld_players (lu_deps (hs_login (http_state_from svc))) = SeaPlayerRepository D show_uuid"
  using assms
  by (auto simp: build_services_def http_state_from_def Let_def and_then_Ok_iff split: prod.splits)

lemma with_os_Ok_iff: "with_os f b = (Ok a, b') \<longleftrightarrow> (\<exists>os. f (bt_os b) = (Ok a, os) \<and> b' = b\<lparr>bt_os := os\<rparr>)"
  by (auto simp: with_os_def split: prod.splits)

lemma start_tcp_gateway_Ok:
  "start_tcp_gateway L P c tokens users rooms queues tls b = (Ok tcp, b') \<Longrightarrow>
     \<exists>addr. tg_config tcp = tcp_config_from c addr \<and> tg_deps tcp = build_gateway_deps c tokens users rooms queues"
  by (auto simp: start_tcp_gateway_def with_os_Ok_iff TcpGateway_bind_def chain_iffs)

lemma startup_Ok:
  assumes "tls_spec T enabled versions chain" and "bt_log b = []" and "bt_shutdown b = watch_channel"
    and run: "run_startup L P T migrator_up SM build loaded queues b = (Ok (c, svc, tcp), b1)"
  shows "loaded = Ok c" and "build c = Ok svc" and "map event_rank (bt_log b1) = [0..<stages c]" and "bt_shutdown b1 = watch_channel"
    and "\<exists>addr tokens users. tg_config tcp = tcp_config_from c addr \<and>
      tg_deps tcp = build_gateway_deps c tokens users (svc_rooms svc) queues"
proof -
  show l: "loaded = Ok c" and "build c = Ok svc"
    and "\<exists>addr tokens users. tg_config tcp = tcp_config_from c addr \<and>
      tg_deps tcp = build_gateway_deps c tokens users (svc_rooms svc) queues"
    using run by (auto simp: run_startup_def Let_def chain_iffs dest!: start_tcp_gateway_Ok)
  have "log_ok versions (plain_text_of P c) 0 b" using assms(2,3) by (simp add: log_ok_def)
  from run_startup_stage [OF assms(1) this, where L = L and migrator_up = migrator_up and SM = SM and
      build = build and queues = queues]
  show "map event_rank (bt_log b1) = [0..<stages c]" "bt_shutdown b1 = watch_channel"
    unfolding run [unfolded l] by (simp_all add: stage_def log_ok_def)
qed

lemma bootstrap_run_Ok:
  assumes "bootstrap_run M db_close opers now rounds (Ok (c, svc, tcp), b1) = (out, b2)"
  obtains drained steps rooms where "out = Ok (drained, rooms)"
    "graceful_teardown M db_close c now rounds (fold (service_exec M) opers (svc_rooms svc)) (bt_db b1) = (drained, steps, rooms, bt_db b2)"
    "bt_log b2 = bt_log b1 @ ShutdownSignalled # map TeardownStep steps" "bt_shutdown b2 = \<lparr>sw_value = True, sw_sender_gone = True\<rparr>"
  using assms by (auto simp: bootstrap_run_def wait_for_signal_def log_event_def Let_def split: prod.splits)

text \<open>
  (C18) The life of the process. When the start-up fails, the process does nothing further and exits with
  code 1. Otherwise the gateway starts without connections, with a send queue of positive capacity for
  each and with a well-formed room service, and no listener is told to stop. Whatever happens in the rooms meanwhile, the signal is
  then there for all who wait for it: the accept loop is to stop, the HTTPS server shuts down gracefully with its window,
  the redirect listener stops. The teardown comes next and takes its steps in this order: it stops every registered room; it waits
  until a poll sees no connection or comes after the deadline, and as long as neither is the case the pool stays open and
  the process runs on; it closes the database pool; and the process exits with code 0.
\<close>

theorem process_lifecycle:
  assumes "tls_spec T enabled versions chain" and "bt_log b = []" and "bt_shutdown b = watch_channel"
    and "run_startup L P T migrator_up SM (\<lambda>c. build_services A (unat mp) D show_uuid B salt audit \<sigma> c tokens)
           (load_config dbg mp lookup) queues b = (res, b1)"
    and "bootstrap_run M db_close opers now rounds (res, b1) = (out, b2)"
  shows "(is_err res \<longrightarrow> main_exit out = Some 1 \<and> b2 = b1) \<and>
    (\<forall>c svc tcp. res = Ok (c, svc, tcp) \<longrightarrow>
       service_inv (gw_rooms (tg_deps tcp)) \<and> active_connections (tg_deps tcp) = 0 \<and>
       0 < tc_send_queue_capacity (tg_config tcp) \<and>
       https_shutdown (bt_shutdown b1) = None \<and> \<not> redirect_shutdown (bt_shutdown b1) \<and>
       https_shutdown (bt_shutdown b2) = Some GRACEFUL_SHUTDOWN_WINDOW \<and> redirect_shutdown (bt_shutdown b2) \<and>
       (\<forall>l. ls_shutdown l = sw_value (bt_shutdown b2) \<longrightarrow> stopping l) \<and>
       (\<exists>drained rooms. out = Ok (drained, rooms) \<and> sv_registry rooms = [] \<and>
          (\<forall>rid. hm_get (sv_registry (fold (service_exec M) opers (svc_rooms svc))) rid \<noteq> None \<longrightarrow> \<not> is_running rooms rid) \<and>
          (case drained of
             None \<Rightarrow> main_exit out = None \<and> bt_db b2 = bt_db b1 \<and>
               bt_log b2 = bt_log b1 @ [ShutdownSignalled, TeardownStep RoomsClosed] \<and>
               list_all (\<lambda>r. 0 < fst r \<and> snd r < now + from_secs (apc_shutdown_timeout_secs (cf_app c))) rounds
           | Some ok \<Rightarrow> main_exit out = Some 0 \<and> bt_db b2 = snd (db_close (bt_db b1)) \<and>
               bt_log b2 = bt_log b1 @ [ShutdownSignalled, TeardownStep RoomsClosed, TeardownStep (DrainEnded ok), TeardownStep PoolClosed] \<and>
               (if ok then list_ex (\<lambda>r. fst r = 0) rounds
                else list_ex (\<lambda>r. 0 < fst r \<and> now + from_secs (apc_shutdown_timeout_secs (cf_app c)) \<le> snd r) rounds))))"
proof (cases res)
  case (Err e)
  with assms(5) show ?thesis by (auto simp: bootstrap_run_def main_exit_def)
next
  case (Ok x)
  obtain c svc tcp where x: "x = (c, svc, tcp)" by (cases x)
  note start = startup_Ok [OF assms(1-3) assms(4) [unfolded Ok x]]
  have rooms: "svc_rooms svc = build_room_service c \<sigma>"
    using start(2) by (auto simp: build_services_def password_params_def Let_def and_then_Ok_iff)
  obtain drained steps rms where run: "out = Ok (drained, rms)" "bt_log b2 = bt_log b1 @ ShutdownSignalled # map TeardownStep steps"
      "bt_shutdown b2 = \<lparr>sw_value = True, sw_sender_gone = True\<rparr>"
    and tear: "graceful_teardown M db_close c now rounds (fold (service_exec M) opers (svc_rooms svc)) (bt_db b1) = (drained, steps, rms, bt_db b2)"
    by (rule bootstrap_run_Ok [OF assms(5) [unfolded Ok x]])
  have inv: "service_inv (fold (service_exec M) opers (svc_rooms svc))"
    unfolding rooms by (simp add: build_room_service_def service_run_inv [OF service_inv_new])
  have gw: "service_inv (gw_rooms (tg_deps tcp)) \<and> active_connections (tg_deps tcp) = 0 \<and>
      0 < tc_send_queue_capacity (tg_config tcp)"
    using start(5) gateway_start [OF start(1)] unfolding rooms by metis
  have sig: "https_shutdown (bt_shutdown b1) = None" "\<not> redirect_shutdown (bt_shutdown b1)"
    "https_shutdown (bt_shutdown b2) = Some GRACEFUL_SHUTDOWN_WINDOW" "redirect_shutdown (bt_shutdown b2)"
    "\<forall>l. ls_shutdown l = sw_value (bt_shutdown b2) \<longrightarrow> stopping l"
    by (simp_all add: start(4) run(3) https_shutdown_def redirect_shutdown_def watch_wait_for_def watch_channel_def stopping_def)
  note stopped = teardown_rooms [OF inv tear]
  have "case drained of
       None \<Rightarrow> main_exit out = None \<and> bt_db b2 = bt_db b1 \<and>
         bt_log b2 = bt_log b1 @ [ShutdownSignalled, TeardownStep RoomsClosed] \<and>
         list_all (\<lambda>r. 0 < fst r \<and> snd r < now + from_secs (apc_shutdown_timeout_secs (cf_app c))) rounds
     | Some ok \<Rightarrow> main_exit out = Some 0 \<and> bt_db b2 = snd (db_close (bt_db b1)) \<and>
         bt_log b2 = bt_log b1 @ [ShutdownSignalled, TeardownStep RoomsClosed, TeardownStep (DrainEnded ok), TeardownStep PoolClosed] \<and>
         (if ok then list_ex (\<lambda>r. fst r = 0) rounds
          else list_ex (\<lambda>r. 0 < fst r \<and> now + from_secs (apc_shutdown_timeout_secs (cf_app c)) \<le> snd r) rounds)"
    using tear by (cases rule: teardown_cases) (simp_all add: run(1,2) main_exit_def)
  moreover have "res = Ok (c', svc', tcp') \<Longrightarrow> c' = c \<and> svc' = svc \<and> tcp' = tcp" for c' svc' tcp' using Ok x by simp
  ultimately show ?thesis using gw sig stopped run(1) Ok by (metis (no_types, lifting) is_err_simps(2))
qed

section \<open>Instances\<close>

definition sample_platform ::
  "(sample_os, list_db, unit, lredis, unit, tls_version set \<times> u8 list, unit) platform" where
  "sample_platform =
     \<lparr>pf_install_recorder = (\<lambda>os. (Ok (), os)), pf_parse_addr = (\<lambda>s. Ok (length s)), pf_port = (\<lambda>a. of_nat a),
      pf_read = (\<lambda>p. Ok [65]), pf_home = Some (ascii ''/h''), pf_debug = id, pf_db_connect = (\<lambda>co d. (Ok (), d)),
      pf_redis_open = (\<lambda>u. Ok ()), pf_redis_connection = (\<lambda>t cl. Some (Ok [])), pf_acceptor = (\<lambda>g. ()),
      pf_bind_rustls = (\<lambda>a g os. (Some (Some a), os)), pf_tcp_bind = (\<lambda>a os. (Ok (), os)), pf_tcp_local_addr = (\<lambda>k os. Ok 1)\<rparr>"

lemma sample_platform_simps:
  "pf_install_recorder sample_platform os = (Ok (), os)" "pf_parse_addr sample_platform t = Ok (length t)"
  "pf_db_connect sample_platform co d = (Ok (), d)" "pf_redis_open sample_platform t = Ok ()"
  "pf_redis_connection sample_platform w cl = Some (Ok [])" "pf_bind_rustls sample_platform a g os = (Some (Some a), os)"
  by (simp_all add: sample_platform_def)

definition sample_manager :: "list_db schema_manager" where
  "sample_manager =
     \<lparr>sm_create_table = (\<lambda>t d. (Ok (), d)), sm_create_index = (\<lambda>i d. (Ok (), d)),
      sm_drop_index = (\<lambda>i t d. (Ok (), d)), sm_drop_table = (\<lambda>t d. (Ok (), d))\<rparr>"

definition sample_build ::
  "config \<Rightarrow> ((list_db, lredis, nat, room_event list_chan, u32 \<times> u32 \<times> u32, list_bus) services, boot_error) result" where
  "sample_build c =
     build_services sample_argon2 100 list_database nat_uuid list_broadcast [] sample_audit sample_sinks c
       (RedisTokenStore list_redis nat_uuid uuid_nat 0)"

definition sample_boot :: "(sample_os, list_db, tls_version set \<times> u8 list) boot" where
  "sample_boot =
     \<lparr>bt_os = \<lparr>os_bound = None, os_backlog = None, os_nodelay = False, os_keepalive = None\<rparr>, bt_db = ldb_empty, bt_shutdown = watch_channel, bt_log = []\<rparr>"

abbreviation sample_start where
  "sample_start \<equiv> run_startup sample_sockets sample_platform sample_tls (\<lambda>ms d. (Ok (), d)) sample_manager
     sample_build (load_config id 100 (\<lambda>_. None)) (\<lambda>c. OutboundSender_new ()) sample_boot"

lemma sample_start_ok: "is_ok (fst sample_start)"
proof -
  note c = default_config_values
  have tls: "build_tls_config sample_platform sample_tls (cf_tls default_config) = Ok ({TLS13}, [65])"
    by (auto simp: build_tls_config_def sample_platform_def server_config_from_files_def expand_home_def ascii_def
        server_config_from_pem_bytes_def build_config_def sample_tls_def from_utf8_lossy_def as_bytes_def encode_utf8_def
        split: option.split)
  have bld: "is_ok (sample_build default_config)"
    using c by (simp add: sample_build_def build_services_def password_params_def Argon2PasswordHasher_new_def
        sample_argon2_def Let_def)
  then obtain svc where svc: "sample_build default_config = Ok svc" by (auto simp: is_ok_iff)
  show ?thesis
    using c(1) by (simp add: run_startup_def defaults_load tls svc Let_def connect_database_def connect_token_store_def
        start_tcp_gateway_def start_http_server_def start_redirect_def RedisTokenStore_connect_def TcpGateway_bind_def
        TcpTlsTransport_bind_def TcpGateway_local_addr_def TcpTlsTransport_local_addr_def serve_https_def run_migrations_def
        on_err_def io_try_def with_os_def with_db_def sample_platform_simps sample_sockets_def)
qed

text \<open>Witness: the default configuration comes up, without a redirect listener.\<close>

theorem startup_order_witness: "map event_rank (bt_log (snd sample_start)) = [0, 1, 2, 3, 4, 5]"
proof -
  obtain res b' where run: "sample_start = (res, b')" by (cases sample_start)
  from startup_order [OF sample_tls_spec _ _ run, where render = "\<lambda>_ :: unit. []"] sample_start_ok run default_config_values(1) have
    "map event_rank (bt_log b') = [0..<length (bt_log b')]" "length (bt_log b') = 6"
    by (simp_all add: sample_boot_def defaults_load stages_def)
  then show ?thesis by (simp add: run upt_rec)
qed

text \<open>Witness: the default configuration allows two password workers.\<close>

theorem configured_limits_witness:
  "\<exists>svc. build_services sample_argon2 (unat (100 :: usize)) list_database nat_uuid list_broadcast [] sample_audit sample_sinks
       default_config (RedisTokenStore list_redis nat_uuid uuid_nat 0) = Ok svc \<and>
     service_inv (svc_rooms svc)"
proof -
  note lim = configured_limits [OF defaults_load, where A = sample_argon2 and D = list_database and show_uuid = nat_uuid and
      B = list_broadcast and salt = "[]" and audit = sample_audit and \<sigma> = sample_sinks and
      tokens = "RedisTokenStore list_redis nat_uuid uuid_nat 0" and addr = 0, THEN conjunct1]
  show ?thesis using lim default_config_values by (auto simp: sample_argon2_def split: result.splits)
qed

text \<open>
  Witness: the sample process is started, and stopped when one poll has seen no connection; with one connection left and the deadline far
  off it runs on.
\<close>

theorem process_lifecycle_witness:
  "main_exit (fst (bootstrap_run list_mpsc (\<lambda>d. (Ok (), d)) [] 0 [(0, 5)] sample_start)) = Some 0 \<and>
   main_exit (fst (bootstrap_run list_mpsc (\<lambda>d. (Ok (), d)) [] 0 [(1, - 5)] sample_start)) = None"
proof -
  obtain x b1 where run: "sample_start = (Ok x, b1)" using sample_start_ok by (cases sample_start) (auto simp: is_ok_iff)
  obtain c svc tcp where x: "x = (c, svc, tcp)" by (cases x)
  have start: "run_startup sample_sockets sample_platform sample_tls (\<lambda>ms d. (Ok (), d)) sample_manager
      (\<lambda>c. build_services sample_argon2 (unat (100 :: usize)) list_database nat_uuid list_broadcast [] sample_audit sample_sinks c
         (RedisTokenStore list_redis nat_uuid uuid_nat 0))
      (load_config id 100 (\<lambda>_. None)) (\<lambda>c. OutboundSender_new ()) sample_boot = (Ok (c, svc, tcp), b1)"
    using run x unfolding sample_build_def by simp
  have b: "bt_log sample_boot = []" "bt_shutdown sample_boot = watch_channel" by (simp_all add: sample_boot_def)
  note life = process_lifecycle [OF sample_tls_spec b start prod.collapse [symmetric], THEN conjunct2, rule_format, OF refl]
  have pos: "0 \<le> from_secs s" for s by (simp add: from_secs_def)
  have "main_exit (fst (bootstrap_run list_mpsc (\<lambda>d. (Ok (), d)) [] 0 [(0, 5)] (Ok (c, svc, tcp), b1))) = Some 0"
    using life [of list_mpsc "\<lambda>d. (Ok (), d)" "[]" 0 "[(0, 5)]"]
    by (elim conjE exE) (simp split: option.splits)
  moreover have "main_exit (fst (bootstrap_run list_mpsc (\<lambda>d. (Ok (), d)) [] 0 [(1, - 5)] (Ok (c, svc, tcp), b1))) = None"
    using life [of list_mpsc "\<lambda>d. (Ok (), d)" "[]" 0 "[(1, - 5)]"] pos [of "apc_shutdown_timeout_secs (cf_app c)"]
    by (elim conjE exE) (simp split: option.splits if_splits)
  ultimately show ?thesis unfolding run x by simp
qed

end
