(* ===== verification/LX_Quickstart.thy ===== *)
theory LX_Quickstart
  imports LX_Connection LX_Transport
begin

text \<open>
  \<^verbatim>\<open>crates/server-bin/examples/quickstart_client.rs\<close>: the example client, which connects over TLS, binds with a token,
  asks for its profile, opens a room and says hello. It runs against any network library \<open>client_lib\<close>. The second part
  joins it to the server: \<open>link\<close> is a byte stream in each direction with one connection of \<open>LX_Connection\<close> at its other
  end, so that the whole path from the client's frames over the read loop, the handlers, the room actor, the
  event translator and the write task back to the client is one executable composition.
\<close>

section \<open>The client\<close>

text \<open>\<^verbatim>\<open>Iterator::position\<close>: the index of the first match.\<close>

primrec position :: "('a \<Rightarrow> bool) \<Rightarrow> 'a list \<Rightarrow> nat option" where
  "position p [] = None"
| "position p (x # xs) = (if p x then Some 0 else map_option Suc (position p xs))"

definition flag_value :: "rstring list \<Rightarrow> rstring \<Rightarrow> rstring \<Rightarrow> rstring" where
  "flag_value args flag dflt =
     (case Option.bind (position (\<lambda>item. item = flag) args)
             (\<lambda>index. if index + 1 < length args then Some (args ! (index + 1)) else None) of
        Some v \<Rightarrow> v
      | None \<Rightarrow> dflt)"

text \<open>What the client prints: one constructor per \<^verbatim>\<open>println!\<close>, with the values it formats.\<close>

datatype client_line =
    HandshakeLine rstring
  | BindLine bool "rstring option"
  | ProfileLine bool "rstring option" "u32 option" "u64 option" "i64 option"
  | EventLine room_event_notification
  | DoneLine

text \<open>
  The TLS and socket libraries: \<open>'x\<close> a certificate, \<open>'r\<close> a root store, \<open>'b\<close> a configuration under construction, \<open>'g\<close> a finished
  one, \<open>'d\<close> a server name, \<open>'c\<close> a TCP stream, \<open>'n\<close> the state of the network, which holds the two halves of the
  encrypted stream. A failing call gives the text of its error.
\<close>

record ('x, 'r, 'b, 'g, 'd, 'c, 'n) client_lib =
  cl_pem_file_iter :: "rstring \<Rightarrow> (('x, rstring) result list, rstring) result"
  cl_no_roots :: 'r
  cl_add_root :: "'x \<Rightarrow> 'r \<Rightarrow> ('r, rstring) result"
  cl_with_versions :: "tls_version list \<Rightarrow> ('b, rstring) result"
  cl_with_roots :: "'b \<Rightarrow> 'r \<Rightarrow> 'g"
  cl_tcp_connect :: "rstring \<Rightarrow> 'n \<Rightarrow> ('c, rstring) result \<times> 'n"
  cl_server_name :: "rstring \<Rightarrow> ('d, rstring) result"
  cl_tls_connect :: "'g \<Rightarrow> 'd \<Rightarrow> 'c \<Rightarrow> 'n \<Rightarrow> (unit, rstring) result \<times> 'n"
  cl_write :: "'n write_all"
  cl_read :: "'n read_exact"

fun add_roots :: "('x, 'r, 'b, 'g, 'd, 'c, 'n) client_lib \<Rightarrow> ('x, rstring) result list \<Rightarrow> 'r \<Rightarrow> ('r, rstring) result" where
  "add_roots L [] roots = Ok roots"
| "add_roots L (cert # certs) roots =
     and_then cert (\<lambda>x. and_then (cl_add_root L x roots) (\<lambda>roots'. add_roots L certs roots'))"

definition client_tls_config :: "('x, 'r, 'b, 'g, 'd, 'c, 'n) client_lib \<Rightarrow> rstring \<Rightarrow> ('g, rstring) result" where
  "client_tls_config L root_ca =
     and_then (cl_pem_file_iter L root_ca) (\<lambda>certs.
     and_then (add_roots L certs (cl_no_roots L)) (\<lambda>roots.
     and_then (cl_with_versions L [TLS13]) (\<lambda>builder. Ok (cl_with_roots L builder roots))))"

definition quickstart_dial ::
  "('x, 'r, 'b, 'g, 'd, 'c, 'n) client_lib \<Rightarrow> rstring \<Rightarrow> rstring \<Rightarrow> 'n \<Rightarrow> (unit, rstring) result \<times> 'n" where
  "quickstart_dial L server_addr root_ca n =
     (case client_tls_config L root_ca of
        Err e \<Rightarrow> (Err e, n)
      | Ok tls_config \<Rightarrow>
          st_then (cl_tcp_connect L server_addr n) (\<lambda>tcp n.
            case cl_server_name L (ascii ''localhost'') of
              Err e \<Rightarrow> (Err e, n)
            | Ok domain \<Rightarrow> cl_tls_connect L tls_config domain tcp n))"

type_synonym 'n client_state = "client_line list \<times> 'n"

definition say :: "client_line \<Rightarrow> 'n client_state \<Rightarrow> 'n client_state" where
  "say line st = (fst st @ [line], snd st)"

definition on_net ::
  "('e \<Rightarrow> rstring) \<Rightarrow> ('n \<Rightarrow> ('a, 'e) result \<times> 'n) \<Rightarrow> 'n client_state \<Rightarrow> ('a, rstring) result \<times> 'n client_state" where
  "on_net display f st = (case f (snd st) of (r, n) \<Rightarrow> (map_err display r, (fst st, n)))"

definition max_frame :: nat where "max_frame = 65536"

text \<open>The four calls \<^verbatim>\<open>write_frame(&mut writer, &ClientCodec.encode(..)?, max_frame)\<close> of \<^verbatim>\<open>main\<close>.\<close>

definition send_message ::
  "('x, 'r, 'b, 'g, 'd, 'c, 'n) client_lib \<Rightarrow> prost \<Rightarrow> inbound_message \<Rightarrow> 'n client_state
     \<Rightarrow> (unit, rstring) result \<times> 'n client_state" where
  "send_message L P m st =
     (case ClientCodec_encode P m of
        Err e \<Rightarrow> (Err (ProtocolError_display e), st)
      | Ok f \<Rightarrow> on_net NetError_display (write_frame (cl_write L) f max_frame) st)"

definition txt_server_closed :: rstring where
  "txt_server_closed = [0x670D, 0x52A1, 0x7AEF, 0x5173, 0x95ED, 0x8FDE, 0x63A5]"

definition next_message ::
  "('x, 'r, 'b, 'g, 'd, 'c, 'n) client_lib \<Rightarrow> prost \<Rightarrow> 'n client_state
     \<Rightarrow> (outbound_message, rstring) result \<times> 'n client_state" where
  "next_message L P st =
     st_then (on_net NetError_display (read_frame (cl_read L) 65536) st) (\<lambda>frame st.
       case frame of
         None \<Rightarrow> (Err txt_server_closed, st)
       | Some f \<Rightarrow> (map_err ProtocolError_display (ClientCodec_decode P f), st))"

definition pre_expected_bind :: rstring where
  "pre_expected_bind = ([0x671F, 0x671B] @ ascii '' BindResult,'' @ [0x6536, 0x5230] @ ascii '' '')"

definition pre_expected_profile :: rstring where
  "pre_expected_profile = ([0x671F, 0x671B] @ ascii '' Profile,'' @ [0x6536, 0x5230] @ ascii '' '')"

definition txt_hello_all :: rstring where
  "txt_hello_all = ([0x5927, 0x5BB6, 0x597D] @ ascii '','' @ [0x6211, 0x6765, 0x4E86])"

text \<open>Steps 2 to 4 of \<^verbatim>\<open>main\<close>; \<open>dbg\<close> is the derived Debug format of a message.\<close>

definition quickstart_bind ::
  "('x, 'r, 'b, 'g, 'd, 'c, 'n) client_lib \<Rightarrow> (outbound_message \<Rightarrow> rstring) \<Rightarrow> prost \<Rightarrow> rstring \<Rightarrow> 'n client_state
     \<Rightarrow> (unit, rstring) result \<times> 'n client_state" where
  "quickstart_bind L dbg P token st =
     st_then (send_message L P (InBind (BindRequest token)) st) (\<lambda>_ st.
     st_then (next_message L P st) (\<lambda>m st.
       case m of
         OutBindResult result \<Rightarrow> (Ok (), say (BindLine (bo_ok result) (bo_player_id result)) st)
       | other \<Rightarrow> (Err (pre_expected_bind @ dbg other), st)))"

definition profile_line :: "profile_response \<Rightarrow> client_line" where
  "profile_line p = ProfileLine (pf_ok p) (pf_nickname p) (pf_level p) (pf_exp p) (pf_last_login_at_ms p)"

definition quickstart_profile ::
  "('x, 'r, 'b, 'g, 'd, 'c, 'n) client_lib \<Rightarrow> (outbound_message \<Rightarrow> rstring) \<Rightarrow> prost \<Rightarrow> 'n client_state
     \<Rightarrow> (unit, rstring) result \<times> 'n client_state" where
  "quickstart_profile L dbg P st =
     st_then (send_message L P (InGetProfile GetProfileRequest) st) (\<lambda>_ st.
     st_then (next_message L P st) (\<lambda>m st.
       case m of
         OutProfile p \<Rightarrow> (Ok (), say (profile_line p) st)
       | other \<Rightarrow> (Err (pre_expected_profile @ dbg other), st)))"

definition print_event :: "outbound_message \<Rightarrow> 'n client_state \<Rightarrow> (unit, rstring) result \<times> 'n client_state" where
  "print_event m st = (case m of OutRoomEvent event \<Rightarrow> (Ok (), say (EventLine event) st) | _ \<Rightarrow> (Ok (), st))"

definition quickstart_room ::
  "('x, 'r, 'b, 'g, 'd, 'c, 'n) client_lib \<Rightarrow> prost \<Rightarrow> inbound_message \<Rightarrow> 'n client_state
     \<Rightarrow> (unit, rstring) result \<times> 'n client_state" where
  "quickstart_room L P request st =
     st_then (send_message L P request st) (\<lambda>_ st.
     st_then (next_message L P st) print_event)"

definition txt_token_flag_missing :: rstring where
  "txt_token_flag_missing = ([0x7F3A, 0x5C11] @ ascii '' --token:'' @ [0x8BF7, 0x5148, 0x901A, 0x8FC7] @ ascii '' HTTP /login '' @ [0x83B7, 0x53D6] @ ascii ''('' @ [0x89C1, 0x672C, 0x6587, 0x4EF6, 0x5934, 0x90E8, 0x8BF4, 0x660E] @ ascii '')'')"

definition quickstart_main ::
  "('x, 'r, 'b, 'g, 'd, 'c, 'n) client_lib \<Rightarrow> (outbound_message \<Rightarrow> rstring) \<Rightarrow> prost \<Rightarrow> rstring list \<Rightarrow> 'n
     \<Rightarrow> (unit, rstring) result \<times> 'n client_state" where
  "quickstart_main L dbg P args n =
     (let token = flag_value args (ascii ''--token'') [] in
      if token = [] then (Err txt_token_flag_missing, ([], n))
      else
        (let server_addr = flag_value args (ascii ''--server'') (ascii ''127.0.0.1:8080'');
             root_ca = flag_value args (ascii ''--root-ca'') (ascii ''$(mkcert -CAROOT)/rootCA.pem'')
         in st_then (on_net id (quickstart_dial L server_addr root_ca) ([], n)) (\<lambda>_ st.
            st_then (quickstart_bind L dbg P token (say (HandshakeLine server_addr) st)) (\<lambda>_ st.
            st_then (quickstart_profile L dbg P st) (\<lambda>_ st.
            st_then (quickstart_room L P (InJoinRoom (JoinRoomRequest None)) st) (\<lambda>_ st.
            st_then (quickstart_room L P (InRoomChat (RoomChatRequest txt_hello_all)) st) (\<lambda>_ st.
              (Ok (), say DoneLine st))))))))"

section \<open>A connection to the server\<close>

type_synonym ('t, 's) list_loop = "('t, 's, room_event list_chan, frame list_chan) loop_state"
type_synonym ('t, 's) list_deps = "('t, 's, room_event list_chan, frame list_chan) gateway_deps"
type_synonym ('t, 's) list_input = "('t, 's, room_event list_chan, frame list_chan) loop_input"

text \<open>
  The bytes under way in both directions, whether the server still serves the connection, what the coming read rounds
  of the server meet, and the server's state.
\<close>

record ('t, 's) link =
  lk_in :: "u8 list"
  lk_out :: "u8 list"
  lk_open :: bool
  lk_rounds :: "('t, 's) list_input list"
  lk_conn :: "('t, 's) list_loop"

text \<open>The receiving ends: the translator takes what is in the connection's event channel, the write task what is queued.\<close>

definition drain_events :: "('t, 's) list_loop \<Rightarrow> room_event list \<times> ('t, 's) list_loop" where
  "drain_events ls =
     (case lp_state ls of (c, g) \<Rightarrow>
        let s = sv_sinks (gw_rooms g) (cn_room_tx c)
        in (lc_items (es_tx s),
            ls\<lparr>lp_state := (c, g\<lparr>gw_rooms := (gw_rooms g)\<lparr>sv_sinks := (sv_sinks (gw_rooms g))
              (cn_room_tx c := s\<lparr>es_tx := es_tx s\<lparr>lc_items := []\<rparr>\<rparr>)\<rparr>\<rparr>)\<rparr>))"

definition drain_frames :: "('t, 's) list_loop \<Rightarrow> frame list \<times> ('t, 's) list_loop" where
  "drain_frames ls =
     (case lp_state ls of (c, g) \<Rightarrow>
        let s = gw_queues g (cn_outbound c)
        in (lc_items (ob_tx s),
            ls\<lparr>lp_state := (c, g\<lparr>gw_queues := (gw_queues g)(cn_outbound c := s\<lparr>ob_tx := ob_tx s\<lparr>lc_items := []\<rparr>\<rparr>)\<rparr>)\<rparr>))"

text \<open>
  One turn of the server: it reads a frame, handles it, translates the room events that came of it, and writes what was
  queued. The client waits for an answer after every frame, so a turn follows each of its writes. What other
  tasks do between two turns is part of the input of the round.
\<close>

definition server_round ::
  "(real \<Rightarrow> real) \<Rightarrow> tcp_gateway_config \<Rightarrow> ('t, 's) list_deps \<Rightarrow> ('t, 's) link \<Rightarrow> ('t, 's) link" where
  "server_round rnd cfg deps lk =
     (case lk_rounds lk of
        [] \<Rightarrow> lk
      | inp # rest \<Rightarrow>
          (case read_frame list_read (tc_max_frame_size cfg) (lk_in lk, eof) of (res, r') \<Rightarrow>
          (case connection_loop rnd cfg deps [ReadRound (inp\<lparr>li_read := Some res\<rparr>)] (lk_conn lk) of (go, ls1) \<Rightarrow>
          (case drain_events ls1 of (evs, ls2) \<Rightarrow>
          (case (if go then connection_loop rnd cfg deps (map (TranslateRound (\<lambda>g. g) (li_env inp)) evs) ls2
                 else (False, ls2)) of (go', ls3) \<Rightarrow>
          (case drain_frames ls3 of (fs, ls4) \<Rightarrow>
             \<lparr>lk_in = fst r',
              lk_out = connection_writer list_write
                \<lparr>cc_write_drain_timeout = tc_write_drain_timeout cfg, cc_max_frame_size = tc_max_frame_size cfg,
                 cc_send_queue_capacity = tc_send_queue_capacity cfg\<rparr> RunsOut fs (lk_out lk),
              lk_open = lk_open lk \<and> go', lk_rounds = rest, lk_conn = ls4\<rparr>))))))"

definition broken_pipe :: io_error where
  "broken_pipe = \<lparr>io_err_kind = BrokenPipe, io_err_text = ascii ''broken pipe''\<rparr>"

definition link_write :: "(real \<Rightarrow> real) \<Rightarrow> tcp_gateway_config \<Rightarrow> ('t, 's) list_deps \<Rightarrow> ('t, 's) link write_all" where
  "link_write rnd cfg deps bytes lk =
     (if lk_open lk then (Ok (), server_round rnd cfg deps (lk\<lparr>lk_in := lk_in lk @ bytes\<rparr>)) else (Err broken_pipe, lk))"

definition link_read :: "('t, 's) link read_exact" where
  "link_read n lk = (case list_read n (lk_out lk, eof) of (res, r) \<Rightarrow> (res, lk\<lparr>lk_out := fst r\<rparr>))"

definition link_open ::
  "(real \<Rightarrow> real) \<Rightarrow> tcp_gateway_config \<Rightarrow> (room_event list_chan, frame list_chan) conn_env \<Rightarrow> ip_addr \<Rightarrow> admission
     \<Rightarrow> ('t, 's, room_event list_chan, frame list_chan) gw \<Rightarrow> ('t, 's) list_input list \<Rightarrow> ('t, 's) link" where
  "link_open rnd cfg env ip adm g rounds =
     \<lparr>lk_in = [], lk_out = [], lk_open = True, lk_rounds = rounds, lk_conn = open_connection rnd cfg env ip adm g\<rparr>"


section \<open>Bytes and frames on the link\<close>

lemma list_read_frame:
  assumes "wire_len f \<le> mx" and "wire_len f \<le> max_frame"
  shows "read_frame list_read mx (encoded f, eof) = (Ok (Some f), ([], eof))"
proof -
  have "encode_frame f mx = Ok (encoded f)" "wire_len f < 2 ^ 32"
    using assms by (simp_all add: encode_frame_cases max_frame_def)
  then obtain r' where "read_frame list_read mx (encoded f, eof) = (Ok (Some f), r')" "fst r' = []" "snd r' = eof"
    using read_frame_encoded [OF list_read_spec, of f mx "encoded f" "(encoded f, eof)" "[]"] by auto
  then show ?thesis by (metis prod.collapse)
qed

text \<open>Reading from the link is reading from its outgoing bytes, and changes nothing else.\<close>

lemma link_read_spec: "reader_spec link_read lk_out (\<lambda>_. eof)"
  by (simp add: reader_spec_def link_read_def list_read_def)

lemma link_read_keeps: "link_read n lk = (res, lk') \<Longrightarrow> \<exists>bs. lk' = lk\<lparr>lk_out := bs\<rparr>"
  by (auto simp: link_read_def split: prod.splits)

lemma read_frame_keeps: "read_frame link_read mx lk = (res, lk') \<Longrightarrow> \<exists>bs. lk' = lk\<lparr>lk_out := bs\<rparr>"
  by (auto simp: read_frame_def split: prod.splits result.splits if_splits dest!: link_read_keeps)

lemma link_read_frame:
  assumes "lk_out lk = encoded f" and "wire_len f \<le> max_frame"
  shows "read_frame link_read max_frame lk = (Ok (Some f), lk\<lparr>lk_out := []\<rparr>)"
proof -
  have "encode_frame f max_frame = Ok (encoded f)" "wire_len f < 2 ^ 32"
    using assms by (simp_all add: encode_frame_cases max_frame_def)
  then obtain lk' where r: "read_frame link_read max_frame lk = (Ok (Some f), lk')" "lk_out lk' = []"
    using read_frame_encoded [OF link_read_spec, of f max_frame "encoded f" lk "[]"] assms(1) by auto
  with read_frame_keeps [OF r(1)] show ?thesis by auto
qed

lemma write_frame_link:
  assumes "wire_len f \<le> max_frame" and "lk_open lk" and "lk_in lk = []"
  shows "write_frame (link_write rnd cfg deps) f max_frame lk = (Ok (), server_round rnd cfg deps (lk\<lparr>lk_in := encoded f\<rparr>))"
  using assms by (simp add: write_frame_def encode_frame_cases link_write_def)

text \<open>One message to the server and one back.\<close>

lemma exchange:
  assumes "cl_write L = link_write rnd cfg deps" and "cl_read L = link_read"
    and "ClientCodec_encode P m = Ok f" and "wire_len f \<le> max_frame" and "lk_open lk" and "lk_in lk = []"
    and "server_round rnd cfg deps (lk\<lparr>lk_in := encoded f\<rparr>) = lk'" and "lk_out lk' = encoded fr"
    and "wire_len fr \<le> max_frame" and "ClientCodec_decode P fr = Ok reply"
  shows "st_then (send_message L P m (out, lk)) (\<lambda>_ st. st_then (next_message L P st) k) = k reply (out, lk'\<lparr>lk_out := []\<rparr>)"
proof -
  have "send_message L P m (out, lk) = (Ok (), (out, lk'))"
    using assms write_frame_link [of f lk rnd cfg deps] by (simp add: send_message_def on_net_def)
  moreover have "read_frame link_read 65536 lk' = (Ok (Some fr), lk'\<lparr>lk_out := []\<rparr>)"
    using link_read_frame [of lk' fr] assms by (simp add: max_frame_def)
  ultimately show ?thesis using assms by (simp add: next_message_def on_net_def)
qed

section \<open>A turn of the server\<close>

text \<open>An empty open channel with room for one item, in both directions.\<close>

definition queue_idle :: "frame list_chan outbound \<Rightarrow> bool" where
  "queue_idle s \<longleftrightarrow> \<not> ob_disconnected s \<and> lc_items (ob_tx s) = [] \<and> 1 \<le> lc_cap (ob_tx s) \<and> \<not> lc_closed (ob_tx s)"

definition sink_idle :: "room_event list_chan event_sink \<Rightarrow> bool" where
  "sink_idle s \<longleftrightarrow> \<not> es_failed s \<and> lc_items (es_tx s) = [] \<and> 1 \<le> lc_cap (es_tx s) \<and> \<not> lc_closed (es_tx s)"

definition queue_with :: "frame \<Rightarrow> frame list_chan outbound \<Rightarrow> frame list_chan outbound" where
  "queue_with f s = s\<lparr>ob_tx := ob_tx s\<lparr>lc_items := [f]\<rparr>\<rparr>"

definition sink_with :: "room_event \<Rightarrow> room_event list_chan event_sink \<Rightarrow> room_event list_chan event_sink" where
  "sink_with ev s = s\<lparr>es_tx := es_tx s\<lparr>lc_items := [ev]\<rparr>\<rparr>"

lemma send_idle: "queue_idle s \<Longrightarrow> try_send_frame list_mpsc f s = (Ok (), queue_with f s)"
  by (simp add: queue_idle_def try_send_frame_def OutboundSender_is_closed_def list_try_send_def queue_with_def is_err_def Let_def)

lemma event_idle: "sink_idle s \<Longrightarrow> RoomEventSink_try_send list_mpsc ev s = sink_with ev s"
  by (simp add: sink_idle_def RoomEventSink_try_send_def list_try_send_def sink_with_def is_err_def)

lemma drained_queue [simp]: "queue_idle s \<Longrightarrow> (queue_with f s)\<lparr>ob_tx := ob_tx (queue_with f s)\<lparr>lc_items := []\<rparr>\<rparr> = s"
  by (simp add: queue_idle_def queue_with_def)

lemma drained_sink [simp]: "sink_idle s \<Longrightarrow> (sink_with ev s)\<lparr>es_tx := es_tx (sink_with ev s)\<lparr>lc_items := []\<rparr>\<rparr> = s"
  by (simp add: sink_idle_def sink_with_def)

lemma idle_items [simp]:
  "lc_items (ob_tx (queue_with f q)) = [f]" "lc_items (es_tx (sink_with ev s)) = [ev]"
  by (simp_all add: queue_with_def sink_with_def)

lemma no_events:
  assumes "lp_state ls = (c, g)" and "sink_idle (sv_sinks (gw_rooms g) (cn_room_tx c))"
  shows "drain_events ls = ([], ls)"
proof -
  let ?s = "sv_sinks (gw_rooms g) (cn_room_tx c)"
  have s: "lc_items (es_tx ?s) = []" "?s\<lparr>es_tx := es_tx ?s\<lparr>lc_items := []\<rparr>\<rparr> = ?s"
    using assms(2) by (simp_all add: sink_idle_def)
  have "ls\<lparr>lp_state := (c, g)\<rparr> = ls" using assms(1) by (metis loop_state.surjective loop_state.update_convs(4))
  then show ?thesis unfolding drain_events_def assms(1) prod.case Let_def s by simp
qed

text \<open>The turn when the handler answers at once, and when the answer is a room event.\<close>

lemma round_reply:
  assumes lk: "lk_rounds lk = inp # rest" "lk_out lk = []" "lk_open lk" "lk_in lk = encoded f"
    and f: "wire_len f \<le> max_frame" "wire_len f \<le> tc_max_frame_size cfg" and fr: "wire_len fr \<le> tc_max_frame_size cfg"
    and read: "read_loop_step rnd cfg deps (inp\<lparr>li_read := Some (Ok (Some f))\<rparr>) (lk_conn lk) = (go, ls)"
    and st: "lp_state ls = (c, g\<lparr>gw_queues := (gw_queues g)(cn_outbound c := queue_with fr (gw_queues g (cn_outbound c)))\<rparr>)"
    and idle: "queue_idle (gw_queues g (cn_outbound c))" "sink_idle (sv_sinks (gw_rooms g) (cn_room_tx c))"
  shows "server_round rnd cfg deps lk =
    \<lparr>lk_in = [], lk_out = encoded fr, lk_open = go, lk_rounds = rest, lk_conn = ls\<lparr>lp_state := (c, g)\<rparr>\<rparr>"
proof -
  have ev: "drain_events ls = ([], ls)" by (rule no_events [OF st]) (simp add: idle(2))
  have fs: "drain_frames ls = ([fr], ls\<lparr>lp_state := (c, g)\<rparr>)"
    using st drained_queue [OF idle(1), of fr] by (simp add: drain_frames_def)
  show ?thesis
    using lk list_read_frame [OF f(2,1)] read fr
    by (cases go) (simp_all add: server_round_def ev fs connection_writer_def encode_frame_cases list_write_def)
qed

lemma round_event:
  assumes lk: "lk_rounds lk = inp # rest" "lk_out lk = []" "lk_open lk" "lk_in lk = encoded f"
    and f: "wire_len f \<le> max_frame" "wire_len f \<le> tc_max_frame_size cfg" and fr: "wire_len fr \<le> tc_max_frame_size cfg"
    and read: "read_loop_step rnd cfg deps (inp\<lparr>li_read := Some (Ok (Some f))\<rparr>) (lk_conn lk) = (True, ls)"
    and st: "lp_state ls = (c, g\<lparr>gw_rooms := (gw_rooms g)\<lparr>sv_sinks := (sv_sinks (gw_rooms g))
      (cn_room_tx c := sink_with ev (sv_sinks (gw_rooms g) (cn_room_tx c)))\<rparr>\<rparr>)"
    and idle: "queue_idle (gw_queues g (cn_outbound c))" "sink_idle (sv_sinks (gw_rooms g) (cn_room_tx c))"
    and tr: "validate_session (deps, li_env inp) (c, g)" "gd_frames deps = list_mpsc"
      "GameCodec_encode (gd_prost deps) (room_event_message (gd_uuid deps) ev) = Ok fr"
  shows "server_round rnd cfg deps lk =
    \<lparr>lk_in = [], lk_out = encoded fr, lk_open = True, lk_rounds = rest, lk_conn = ls\<lparr>lp_state := (c, g)\<rparr>\<rparr>"
proof -
  have ev: "drain_events ls = ([ev], ls\<lparr>lp_state := (c, g)\<rparr>)"
    using st drained_sink [OF idle(2), of ev] by (simp add: drain_events_def)
  let ?q = "queue_with fr (gw_queues g (cn_outbound c))"
  have tl: "connection_loop rnd cfg deps [TranslateRound (\<lambda>g. g) (li_env inp) ev] (ls\<lparr>lp_state := (c, g)\<rparr>) =
      (True, ls\<lparr>lp_state := (c, g\<lparr>gw_queues := (gw_queues g)(cn_outbound c := ?q)\<rparr>)\<rparr>)"
    using tr send_idle [OF idle(1), of fr] by (simp add: room_event_translator_step_def room_event_message_def)
  have fs: "drain_frames (ls\<lparr>lp_state := (c, g\<lparr>gw_queues := (gw_queues g)(cn_outbound c := ?q)\<rparr>)\<rparr>) =
      ([fr], ls\<lparr>lp_state := (c, g)\<rparr>)"
    using drained_queue [OF idle(1), of fr] by (simp add: drain_frames_def)
  show ?thesis
    using lk list_read_frame [OF f(2,1)] read fr tl
    by (simp add: server_round_def ev fs connection_writer_def encode_frame_cases list_write_def
        del: conn_step_exec.simps(2))
qed

section \<open>A frame that is served\<close>

text \<open>A bucket that lets at least \<open>m\<close> more frames through, whatever the times at which they come.\<close>

definition bucket_ready :: "nat \<Rightarrow> token_bucket option \<Rightarrow> bool" where
  "bucket_ready m bucket \<longleftrightarrow>
     (case bucket of
        None \<Rightarrow> True
      | Some b \<Rightarrow> real m \<le> tb_tokens b \<and> real m \<le> tb_capacity b \<and> 0 \<le> tb_refill_per_sec b)"

lemma f64_ge_nat: "f64_spec rnd \<Longrightarrow> real m \<le> x \<Longrightarrow> int m \<le> 2 ^ 53 \<Longrightarrow> real m \<le> rnd x"
  using f64_mono [of rnd "real m" x] f64_exact [of rnd "int m"] by simp

lemma as_secs_nonneg: "f64_spec rnd \<Longrightarrow> 0 \<le> d \<Longrightarrow> 0 \<le> as_secs_f64 rnd d"
  using f64_ge_nat [of rnd 0] by (simp add: as_secs_f64_def pos_imp_zdiv_nonneg_iff)

lemma bucket_acquire:
  assumes "f64_spec rnd" and "bucket_ready (Suc m) bucket" and "int (Suc m) \<le> 2 ^ 53"
  shows "\<exists>bucket'. bucket_step rnd now bucket = (True, bucket') \<and> bucket_ready m bucket'"
proof (cases bucket)
  case None
  then show ?thesis by (simp add: bucket_step_def bucket_ready_def)
next
  case (Some b)
  let ?more = "rnd (as_secs_f64 rnd (max (now - tb_last_refill b) 0) * tb_refill_per_sec b)"
  let ?tok = "min (rnd (tb_tokens b + ?more)) (tb_capacity b)"
  have b: "real (Suc m) \<le> tb_tokens b" "real (Suc m) \<le> tb_capacity b" "0 \<le> tb_refill_per_sec b"
    using assms(2) by (simp_all add: Some bucket_ready_def)
  have "0 \<le> ?more" using f64_ge_nat [OF assms(1), of 0] as_secs_nonneg [OF assms(1)] b(3) by simp
  then have tok: "real (Suc m) \<le> ?tok"
    using f64_ge_nat [OF assms(1) _ assms(3), of "tb_tokens b + ?more"] b by simp
  then have "real m \<le> rnd (?tok - 1)" using assms(3) by (intro f64_ge_nat [OF assms(1)]) auto
  moreover have "1 \<le> ?tok" using tok by linarith
  ultimately show ?thesis using b by (simp add: Some bucket_step_def try_acquire_def bucket_ready_def Let_def)
qed

lemma new_bucket_ready:
  assumes "f64_spec rnd" and "rl_enabled rate \<Longrightarrow> rl_per_second rate \<noteq> 0 \<Longrightarrow> rl_burst rate \<noteq> 0 \<Longrightarrow> m \<le> unat (rl_burst rate)"
    and "int m \<le> 2 ^ 53"
  shows "bucket_ready m (TokenBucket_new rnd rate now)"
proof -
  have "real m \<le> rnd (real (unat (rl_burst rate)))" if "m \<le> unat (rl_burst rate)"
    using that assms(3) by (intro f64_ge_nat [OF assms(1)]) (simp_all del: of_nat_unat)
  moreover have "0 \<le> rnd (real (unat (rl_per_second rate)))" using f64_ge_nat [OF assms(1), of 0] by (simp del: of_nat_unat)
  ultimately show ?thesis using assms(2) by (auto simp: TokenBucket_new_def bucket_ready_def simp del: of_nat_unat)
qed

text \<open>A round in which nothing goes wrong around the connection.\<close>

definition calm :: "('t, 's, 'q, 'f) loop_input \<Rightarrow> bool" where
  "calm inp \<longleftrightarrow>
     \<not> li_shutdown inp \<and> \<not> li_late inp \<and> \<not> ge_timed_out (li_env inp) \<and> ge_env (li_env inp) = [] \<and>
     \<not> ge_lost (li_env inp) \<and> \<not> ge_full (li_env inp)"

text \<open>The connection waits for a frame, can answer it, and is within its deadline and its rate.\<close>

definition awaits ::
  "tcp_gateway_config \<Rightarrow> ('t, 's) list_input \<Rightarrow> nat \<Rightarrow> conn \<Rightarrow> ('t, 's, room_event list_chan, frame list_chan) gw
     \<Rightarrow> ('t, 's) list_loop \<Rightarrow> bool" where
  "awaits cfg inp m c g ls \<longleftrightarrow>
     calm inp \<and> fst (lp_state ls) = c \<and> li_others inp (snd (lp_state ls)) = g \<and>
     queue_idle (gw_queues g (cn_outbound c)) \<and> sink_idle (sv_sinks (gw_rooms g) (cn_room_tx c)) \<and>
     ge_now (li_env inp) < read_deadline cfg (li_start inp) (lp_admission ls) c \<and> bucket_ready m (lp_bucket ls)"

definition passes_gate :: "('t, 's, 'q, 'f) ctx \<Rightarrow> inbound_message \<Rightarrow> ('t, 's, 'q, 'f) cstate \<Rightarrow> bool" where
  "passes_gate ctx msg st \<longleftrightarrow>
     (if is_authenticated (fst st) then validate_session ctx st \<and> InboundMessage_opcode msg \<noteq> OP_C2S_BIND
      else InboundMessage_opcode msg = OP_C2S_BIND)"

lemma drop_permit_gate: "\<exists>adm' gate. drop_permit adm g = (adm', g\<lparr>gw_gate := gate\<rparr>)"
proof (cases "ad_permit adm")
  case None
  then have "drop_permit adm g = (adm, g\<lparr>gw_gate := gw_gate g\<rparr>)" by (simp add: drop_permit_def)
  then show ?thesis by blast
qed (auto simp: drop_permit_def)

lemma frame_served:
  assumes w: "awaits cfg inp (Suc m) c g ls" "gd_frames deps = list_mpsc" and bucket: "f64_spec rnd" "int (Suc m) \<le> 2 ^ 53"
    and msg: "GameCodec_decode (gd_prost deps) f = Ok msg" "passes_gate (deps, li_env inp) msg (c, g)"
    and disp: "Router_dispatch build_router (deps, li_env inp) msg (c, g) = (Ok reply, c', g')"
    and sent: "case reply of None \<Rightarrow> g'' = g' | Some r \<Rightarrow> ctx_try_send (deps, li_env inp) r (c', g') = (Ok (), (c', g''))"
  shows "\<exists>ls' gate. read_loop_step rnd cfg deps (inp\<lparr>li_read := Some (Ok (Some f))\<rparr>) ls = (True, ls') \<and>
    bucket_ready m (lp_bucket ls') \<and> lp_state ls' = (c', g''\<lparr>gw_gate := gate\<rparr>) \<and>
    (\<not> is_authenticated c' \<longrightarrow> lp_admission ls' = lp_admission ls)"
proof -
  obtain g0 where ls: "lp_state ls = (c, g0)" "li_others inp g0 = g" using w(1) by (metis awaits_def prod.collapse)
  obtain b' where b: "bucket_step rnd (ge_now (li_env inp)) (lp_bucket ls) = (True, b')" "bucket_ready m b'"
    using bucket_acquire [OF bucket(1) _ bucket(2)] w(1) by (metis awaits_def)
  have a: "admit_frame rnd (deps, li_env inp) (lp_bucket ls) f (c, g) = (True, b', c', g'')"
    using msg disp sent by (auto simp: admit_frame_def b passes_gate_def split: option.splits if_splits)
  obtain adm gate where d: "drop_permit (lp_admission ls) g'' = (adm, g''\<lparr>gw_gate := gate\<rparr>)"
    using drop_permit_gate by blast
  have same: "\<exists>gate. g'' = g''\<lparr>gw_gate := gate\<rparr>" by (rule exI [of _ "gw_gate g''"]) simp
  have "\<not> OutboundSender_is_closed (gd_frames deps) (gw_queues g (cn_outbound c))"
    "\<not> es_failed (sv_sinks (gw_rooms g) (cn_room_tx c))"
    using w by (simp_all add: awaits_def OutboundSender_is_closed_def queue_idle_def sink_idle_def)
  then have "read_loop_step rnd cfg deps (inp\<lparr>li_read := Some (Ok (Some f))\<rparr>) ls =
      (True, if is_authenticated c'
             then ls\<lparr>lp_session := Session_touch_heartbeat (ge_utc (li_env inp)) (lp_session ls), lp_bucket := b',
               lp_admission := adm, lp_state := (c', g''\<lparr>gw_gate := gate\<rparr>)\<rparr>
             else ls\<lparr>lp_session := Session_touch_heartbeat (ge_utc (li_env inp)) (lp_session ls), lp_bucket := b',
               lp_state := (c', g'')\<rparr>)"
    using w(1) ls a d by (simp add: read_loop_step_def read_loop_frame_def calm_def awaits_def Let_def)
  with b(2) same show ?thesis by (cases "is_authenticated c'") auto
qed

section \<open>One exchange\<close>

definition in_fits :: "prost \<Rightarrow> nat \<Rightarrow> inbound_message \<Rightarrow> bool" where
  "in_fits P mx m \<longleftrightarrow> (case ClientCodec_encode P m of Ok f \<Rightarrow> wire_len f \<le> mx | Err _ \<Rightarrow> False)"

definition out_fits :: "prost \<Rightarrow> nat \<Rightarrow> outbound_message \<Rightarrow> bool" where
  "out_fits P mx m \<longleftrightarrow> (case GameCodec_encode P m of Ok f \<Rightarrow> wire_len f \<le> mx | Err _ \<Rightarrow> False)"

text \<open>The smaller of the client's and the server's limit.\<close>

definition frame_limit :: "tcp_gateway_config \<Rightarrow> nat" where
  "frame_limit cfg = min max_frame (tc_max_frame_size cfg)"

text \<open>A client whose network is the link, on list channels, with the laws of the codec and of the rounding.\<close>

definition on_link ::
  "('x, 'r, 'b, 'g, 'd, 'c, ('t, 's) link) client_lib \<Rightarrow> (real \<Rightarrow> real) \<Rightarrow> tcp_gateway_config \<Rightarrow> ('t, 's) list_deps \<Rightarrow> bool" where
  "on_link L rnd cfg deps \<longleftrightarrow>
     cl_write L = link_write rnd cfg deps \<and> cl_read L = link_read \<and> prost_spec (gd_prost deps) \<and> f64_spec rnd \<and>
     gd_frames deps = list_mpsc \<and> gd_events deps = list_mpsc"

definition served_link :: "('t, 's) list_input list \<Rightarrow> ('t, 's) list_loop \<Rightarrow> ('t, 's) link" where
  "served_link rounds ls = \<lparr>lk_in = [], lk_out = [], lk_open = True, lk_rounds = rounds, lk_conn = ls\<rparr>"

lemma in_fitsE:
  assumes "in_fits P (frame_limit cfg) m" and "prost_spec P"
  obtains f where "ClientCodec_encode P m = Ok f" "wire_len f \<le> max_frame" "wire_len f \<le> tc_max_frame_size cfg"
    "GameCodec_decode P f = Ok m"
  using assms client_server_roundtrip [OF assms(2), of m] by (auto simp: in_fits_def frame_limit_def split: result.splits)

lemma out_fitsE:
  assumes "out_fits P (frame_limit cfg) m" and "prost_spec P"
  obtains f where "GameCodec_encode P m = Ok f" "wire_len f \<le> max_frame" "wire_len f \<le> tc_max_frame_size cfg"
    "ClientCodec_decode P f = Ok m"
  using assms server_client_roundtrip [OF assms(2), of m] by (auto simp: out_fits_def frame_limit_def split: result.splits)

lemma reply_step:
  assumes L: "on_link L rnd cfg deps" and w: "awaits cfg inp (Suc m) c g ls" "int (Suc m) \<le> 2 ^ 53"
    and fits: "in_fits (gd_prost deps) (frame_limit cfg) msg" "out_fits (gd_prost deps) (frame_limit cfg) reply"
    and gate: "passes_gate (deps, li_env inp) msg (c, g)"
    and disp: "Router_dispatch build_router (deps, li_env inp) msg (c, g) = (Ok (Some reply), c', g)"
    and same: "cn_outbound c' = cn_outbound c" "cn_room_tx c' = cn_room_tx c"
  shows "\<exists>ls' gate. st_then (send_message L (gd_prost deps) msg (out, served_link (inp # rest) ls))
      (\<lambda>_ st. st_then (next_message L (gd_prost deps) st) k) = k reply (out, served_link rest ls') \<and>
    bucket_ready m (lp_bucket ls') \<and> lp_state ls' = (c', g\<lparr>gw_gate := gate\<rparr>) \<and>
    (\<not> is_authenticated c' \<longrightarrow> lp_admission ls' = lp_admission ls)"
proof -
  have P: "prost_spec (gd_prost deps)" and fc: "gd_frames deps = list_mpsc" "f64_spec rnd"
    and lib: "cl_write L = link_write rnd cfg deps" "cl_read L = link_read" using L by (auto simp: on_link_def)
  obtain f where f: "ClientCodec_encode (gd_prost deps) msg = Ok f" "wire_len f \<le> max_frame"
    "wire_len f \<le> tc_max_frame_size cfg" "GameCodec_decode (gd_prost deps) f = Ok msg" by (rule in_fitsE [OF fits(1) P])
  obtain fr where fr: "GameCodec_encode (gd_prost deps) reply = Ok fr" "wire_len fr \<le> max_frame"
    "wire_len fr \<le> tc_max_frame_size cfg" "ClientCodec_decode (gd_prost deps) fr = Ok reply" by (rule out_fitsE [OF fits(2) P])
  have idle: "queue_idle (gw_queues g (cn_outbound c'))" "sink_idle (sv_sinks (gw_rooms g) (cn_room_tx c'))"
    using w(1) same by (simp_all add: awaits_def)
  let ?g = "g\<lparr>gw_queues := (gw_queues g)(cn_outbound c' := queue_with fr (gw_queues g (cn_outbound c')))\<rparr>"
  have "ctx_try_send (deps, li_env inp) reply (c', g) = (Ok (), (c', ?g))"
    using fr(1) fc(1) send_idle [OF idle(1), of fr] by (simp add: ctx_try_send_def)
  then obtain ls' gate where r: "read_loop_step rnd cfg deps (inp\<lparr>li_read := Some (Ok (Some f))\<rparr>) ls = (True, ls')"
    "bucket_ready m (lp_bucket ls')" "lp_state ls' = (c', ?g\<lparr>gw_gate := gate\<rparr>)"
    "\<not> is_authenticated c' \<longrightarrow> lp_admission ls' = lp_admission ls"
    using frame_served [OF w(1) fc(1,2) w(2) f(4) gate disp, where g'' = ?g] by auto
  let ?lk = "(served_link (inp # rest) ls)\<lparr>lk_in := encoded f\<rparr>"
  have "server_round rnd cfg deps ?lk =
      \<lparr>lk_in = [], lk_out = encoded fr, lk_open = True, lk_rounds = rest, lk_conn = ls'\<lparr>lp_state := (c', g\<lparr>gw_gate := gate\<rparr>)\<rparr>\<rparr>"
    by (rule round_reply [where inp = inp and f = f]) (use f fr r idle in \<open>simp_all add: served_link_def\<close>)
  from exchange [OF lib f(1,2) _ _ this _ fr(2,4), where out = out and k = k] r show ?thesis
    by (intro exI [of _ "ls'\<lparr>lp_state := (c', g\<lparr>gw_gate := gate\<rparr>)\<rparr>"] exI [of _ gate]) (simp add: served_link_def)
qed

lemma validate_gate [simp]: "validate_session ctx (c, g\<lparr>gw_gate := gate\<rparr>) = validate_session ctx (c, g)"
proof -
  have "gw_tokens (g\<lparr>gw_gate := gate\<rparr>) = gw_tokens g" by simp
  then show ?thesis unfolding validate_session_def fst_conv snd_conv by (rule ssubst) (rule refl)
qed

lemma event_step:
  assumes L: "on_link L rnd cfg deps" and w: "awaits cfg inp (Suc m) c g ls" "int (Suc m) \<le> 2 ^ 53"
    and fits: "in_fits (gd_prost deps) (frame_limit cfg) msg"
      "out_fits (gd_prost deps) (frame_limit cfg) (room_event_message (gd_uuid deps) ev)"
    and gate: "passes_gate (deps, li_env inp) msg (c, g)"
    and disp: "Router_dispatch build_router (deps, li_env inp) msg (c, g) =
      (Ok None, c', g'\<lparr>gw_rooms := (gw_rooms g')\<lparr>sv_sinks := (sv_sinks (gw_rooms g'))
         (cn_room_tx c' := sink_with ev (sv_sinks (gw_rooms g') (cn_room_tx c')))\<rparr>\<rparr>)"
    and idle: "queue_idle (gw_queues g' (cn_outbound c'))" "sink_idle (sv_sinks (gw_rooms g') (cn_room_tx c'))"
    and valid: "validate_session (deps, li_env inp) (c', g')"
  shows "\<exists>ls' gate. st_then (send_message L (gd_prost deps) msg (out, served_link (inp # rest) ls))
      (\<lambda>_ st. st_then (next_message L (gd_prost deps) st) k) =
        k (room_event_message (gd_uuid deps) ev) (out, served_link rest ls') \<and>
    bucket_ready m (lp_bucket ls') \<and> lp_state ls' = (c', g'\<lparr>gw_gate := gate\<rparr>)"
proof -
  have P: "prost_spec (gd_prost deps)" and fc: "gd_frames deps = list_mpsc" "f64_spec rnd"
    and lib: "cl_write L = link_write rnd cfg deps" "cl_read L = link_read" using L by (auto simp: on_link_def)
  obtain f where f: "ClientCodec_encode (gd_prost deps) msg = Ok f" "wire_len f \<le> max_frame"
    "wire_len f \<le> tc_max_frame_size cfg" "GameCodec_decode (gd_prost deps) f = Ok msg" by (rule in_fitsE [OF fits(1) P])
  obtain fr where fr: "GameCodec_encode (gd_prost deps) (room_event_message (gd_uuid deps) ev) = Ok fr" "wire_len fr \<le> max_frame"
    "wire_len fr \<le> tc_max_frame_size cfg" "ClientCodec_decode (gd_prost deps) fr = Ok (room_event_message (gd_uuid deps) ev)"
    by (rule out_fitsE [OF fits(2) P])
  obtain ls' gate where r: "read_loop_step rnd cfg deps (inp\<lparr>li_read := Some (Ok (Some f))\<rparr>) ls = (True, ls')"
    "bucket_ready m (lp_bucket ls')"
    "lp_state ls' = (c', g'\<lparr>gw_rooms := (gw_rooms g')\<lparr>sv_sinks := (sv_sinks (gw_rooms g'))
         (cn_room_tx c' := sink_with ev (sv_sinks (gw_rooms g') (cn_room_tx c')))\<rparr>, gw_gate := gate\<rparr>)"
    using frame_served [OF w(1) fc(1,2) w(2) f(4) gate disp] by auto
  let ?lk = "(served_link (inp # rest) ls)\<lparr>lk_in := encoded f\<rparr>" and ?ls = "ls'\<lparr>lp_state := (c', g'\<lparr>gw_gate := gate\<rparr>)\<rparr>"
  have "validate_session (deps, li_env inp) (c', g'\<lparr>gw_gate := gate\<rparr>)" using valid by simp
  then have "server_round rnd cfg deps ?lk =
      \<lparr>lk_in = [], lk_out = encoded fr, lk_open = True, lk_rounds = rest, lk_conn = ?ls\<rparr>"
    by (intro round_event [where inp = inp and f = f and ev = ev])
      (use f fr r idle fc in \<open>simp_all add: served_link_def\<close>)
  from exchange [OF lib f(1,2) _ _ this _ fr(2,4), where out = out and k = k] r(2) show ?thesis
    by (intro exI [of _ ?ls] exI [of _ gate]) (simp add: served_link_def)
qed

section \<open>The room of the visit\<close>

definition lone_actor :: "u32 \<Rightarrow> uuid \<Rightarrow> datetime \<Rightarrow> player_id \<Rightarrow> rstring \<Rightarrow> sink_ref \<Rightarrow> actor" where
  "lone_actor mp fresh now p nick sink = joined p nick sink (RoomActor_spawn (Room_open fresh mp now))"

definition room_opened :: "uuid \<Rightarrow> datetime \<Rightarrow> player_id \<Rightarrow> rstring \<Rightarrow> sink_ref \<Rightarrow> 'q world \<Rightarrow> 'q world" where
  "room_opened fresh now p nick sink w =
     RoomService_publish (PlayerJoinedRoom (RoomId fresh) p now)
       (w\<lparr>sv_tasks := (sv_tasks w)(RoomId fresh \<mapsto>
            \<lparr>tk_actor = lone_actor (rsc_max_players (sv_config w)) fresh now p nick sink, tk_running = True\<rparr>),
          sv_registry := hm_insert (RoomId fresh) \<lparr>rh_room_id = RoomId fresh\<rparr> (sv_registry w)\<rparr>)"

lemma room_opened_simps [simp]:
  "sv_sinks (room_opened fresh now p nick sink w) = sv_sinks w"
  "sv_tasks (room_opened fresh now p nick sink w) (RoomId fresh) =
     Some \<lparr>tk_actor = lone_actor (rsc_max_players (sv_config w)) fresh now p nick sink, tk_running = True\<rparr>"
  "hm_get (sv_registry (room_opened fresh now p nick sink w)) (RoomId fresh) = Some \<lparr>rh_room_id = RoomId fresh\<rparr>"
  by (simp_all add: room_opened_def RoomService_publish_def)

lemma lone_actor_facts:
  "actor_running (lone_actor mp fresh now p nick sink)"
  "ac_members (lone_actor mp fresh now p nick sink) = [(p, \<lparr>mb_nickname = nick, mb_sink = sink\<rparr>)]"
  "rm_id (ac_room (lone_actor mp fresh now p nick sink)) = RoomId fresh"
  "RoomActor_broadcast M ev (lone_actor mp fresh now p nick sink) \<sigma> = \<sigma>(sink := RoomEventSink_try_send M ev (\<sigma> sink))"
proof -
  let ?a = "RoomActor_spawn (Room_open fresh mp now)"
  have new: "p \<notin> set (rm_members (ac_room ?a))" "\<not> Room_is_full (ac_room ?a)"
    by (auto simp: RoomActor_spawn_def Room_open_def Room_is_full_def Room_member_count_def max_def word_le_nat_alt)
  show "actor_running (lone_actor mp fresh now p nick sink)"
    unfolding lone_actor_def by (rule joined_running [OF actor_running_open new])
  show m: "ac_members (lone_actor mp fresh now p nick sink) = [(p, \<lparr>mb_nickname = nick, mb_sink = sink\<rparr>)]"
    "rm_id (ac_room (lone_actor mp fresh now p nick sink)) = RoomId fresh"
    by (simp_all add: lone_actor_def joined_def RoomActor_spawn_def Room_open_def hm_insert_def)
  show "RoomActor_broadcast M ev (lone_actor mp fresh now p nick sink) \<sigma> = \<sigma>(sink := RoomEventSink_try_send M ev (\<sigma> sink))"
    by (simp add: RoomActor_broadcast_def m hm_values_def send_to_def)
qed

lemma lone_actor_abs: "actor_abs (lone_actor mp fresh now p nick sink) = {p}"
  by (simp add: actor_abs_def lone_actor_def joined_def RoomActor_spawn_def Room_open_def)

lemma spawn_joins:
  "RoomActor_handle M (Join p nick sink) (RoomActor_spawn (Room_open fresh mp now)) \<sigma> =
     (False, lone_actor mp fresh now p nick sink,
      \<sigma>(sink := RoomEventSink_try_send M (MemberJoined (RoomId fresh) p nick) (\<sigma> sink)), Some (JoinReply (Ok ())))"
proof -
  let ?a = "RoomActor_spawn (Room_open fresh mp now)"
  have new: "p \<notin> set (rm_members (ac_room ?a))" "\<not> Room_is_full (ac_room ?a)" "rm_id (ac_room ?a) = RoomId fresh"
    by (auto simp: RoomActor_spawn_def Room_open_def Room_is_full_def Room_member_count_def max_def word_le_nat_alt)
  show ?thesis
    using running_not_stop [OF lone_actor_facts(1)] lone_actor_facts(4)
    by (simp add: handle_join_new [OF actor_running_open new(1,2)] new(3) lone_actor_def)
qed

lemma join_creates:
  assumes "sink_idle (sv_sinks w sink)"
  shows "join_or_create list_mpsc [] False fresh now None p nick sink w =
    (Ok (RoomId fresh), (room_opened fresh now p nick sink w)\<lparr>sv_sinks := (sv_sinks w)
       (sink := sink_with (MemberJoined (RoomId fresh) p nick) (sv_sinks w sink))\<rparr>)"
proof -
  have h: "handle_for (RoomId fresh) (spawned fresh now w) = (Some \<lparr>rh_room_id = RoomId fresh\<rparr>, spawned fresh now w)"
    by (simp add: handle_for_def spawned_def RoomHandle_is_closed_def RoomActor_spawn_def)
  have s: "task_step list_mpsc (Join p nick sink)
      \<lparr>tk_actor = RoomActor_spawn (Room_open fresh (rsc_max_players (sv_config w)) now), tk_running = True\<rparr> (sv_sinks w) =
    (\<lparr>tk_actor = lone_actor (rsc_max_players (sv_config w)) fresh now p nick sink, tk_running = True\<rparr>,
     (sv_sinks w)(sink := sink_with (MemberJoined (RoomId fresh) p nick) (sv_sinks w sink)), Some (JoinReply (Ok ())))"
    unfolding task_step_def task.simps spawn_joins event_idle [OF assms] by simp
  show ?thesis
    unfolding join_or_create_def option.case create_and_join_alt RoomService_join_def h prod.case
    by (simp add: interfere_def RoomHandle_send_def deliver_def spawned_def s join_outcome_def room_opened_def RoomService_publish_def)
qed

lemma chat_heard:
  assumes "sink_idle (sv_sinks w sink)" and "hm_get (sv_registry w) (RoomId fresh) = Some \<lparr>rh_room_id = RoomId fresh\<rparr>"
    and "sv_tasks w (RoomId fresh) = Some \<lparr>tk_actor = lone_actor mp fresh now p nick sink, tk_running = True\<rparr>"
    and "trim content \<noteq> []" and "length (trim content) \<le> MAX_CHAT_CHARS"
  shows "RoomService_chat list_mpsc [] False False (RoomId fresh) p content w =
    (Ok (), w\<lparr>sv_sinks := (sv_sinks w)
       (sink := sink_with (ChatEvent (RoomId fresh) p nick (trim (trim content))) (sv_sinks w sink))\<rparr>)"
proof -
  let ?a = "lone_actor mp fresh now p nick sink"
  have h: "handle_for (RoomId fresh) w = (Some \<lparr>rh_room_id = RoomId fresh\<rparr>, w)"
    using lone_actor_facts(1) [of mp fresh now p nick sink] assms(2,3)
    by (simp add: handle_for_def RoomHandle_is_closed_def actor_running_def)
  have "length (trim (trim content)) \<le> MAX_CHAT_CHARS" "trim (trim content) \<noteq> []" using assms(4,5) by simp_all
  then have s: "task_step list_mpsc (Chat p (trim content)) \<lparr>tk_actor = ?a, tk_running = True\<rparr> (sv_sinks w) =
      (\<lparr>tk_actor = ?a, tk_running = True\<rparr>,
       (sv_sinks w)(sink := sink_with (ChatEvent (RoomId fresh) p nick (trim (trim content))) (sv_sinks w sink)), None)"
    using running_not_stop [OF lone_actor_facts(1)] event_idle [OF assms(1)]
    by (simp add: task_step_def RoomActor_handle_chat_def lone_actor_facts(2-4) hm_get_def)
  have same: "(sv_tasks w)(RoomId fresh \<mapsto> \<lparr>tk_actor = ?a, tk_running = True\<rparr>) = sv_tasks w" using assms(3) by auto
  show ?thesis
    using assms(3-5) by (simp add: RoomService_chat_def h interfere_def RoomHandle_try_send_def deliver_def s same)
qed

section \<open>The visit\<close>

text \<open>
  The parties of a run: the token and the player it stands for, the player's row, the queue and the event channel of the
  connection, the identifier the new room will get.
\<close>

record visit =
  vi_token :: rstring
  vi_who :: player_id
  vi_row :: player
  vi_out :: conn_ref
  vi_sink :: sink_ref
  vi_room :: uuid

definition vi_player :: "visit \<Rightarrow> authed_player" where
  "vi_player v = \<lparr>ap_player_id = vi_who v, ap_nickname = Nickname_as_str (pl_nickname (vi_row v))\<rparr>"

definition visit_in :: "visit \<Rightarrow> inbound_message list" where
  "visit_in v =
     [InBind (BindRequest (vi_token v)), InGetProfile GetProfileRequest, InJoinRoom (JoinRoomRequest None),
      InRoomChat (RoomChatRequest txt_hello_all)]"

definition visit_profile :: "uuid_lib \<Rightarrow> visit \<Rightarrow> profile_response" where
  "visit_profile U v =
     (let profile = PlayerProfile_from (vi_row v)
      in ProfileResponse True (Some (ul_show U (player_uuid (pp_player_id profile)))) (Some (pp_nickname profile))
           (Some (pp_level profile)) (Some (pp_exp profile)) (map_option timestamp_millis (pp_last_login_at profile)) None)"

definition visit_joined :: "visit \<Rightarrow> room_event" where
  "visit_joined v = MemberJoined (RoomId (vi_room v)) (vi_who v) (ap_nickname (vi_player v))"

definition visit_chat :: "visit \<Rightarrow> room_event" where
  "visit_chat v = ChatEvent (RoomId (vi_room v)) (vi_who v) (ap_nickname (vi_player v)) txt_hello_all"

definition visit_out :: "uuid_lib \<Rightarrow> visit \<Rightarrow> outbound_message list" where
  "visit_out U v =
     [bind_ok (ul_show U (player_uuid (vi_who v))) (ap_nickname (vi_player v)), OutProfile (visit_profile U v),
      room_event_message U (visit_joined v), room_event_message U (visit_chat v)]"

text \<open>What the server knows at the times of the rounds, and what the other tasks of the server leave alone.\<close>

definition knows :: "('t, 's) list_deps \<Rightarrow> instant list \<Rightarrow> visit \<Rightarrow> ('t, 's, room_event list_chan, frame list_chan) gw \<Rightarrow> bool" where
  "knows deps ts v g \<longleftrightarrow>
     list_all (\<lambda>now. tk_resolve (gd_tokens deps) now (trim (vi_token v)) (gw_tokens g) = Ok (Some (vi_who v))) ts \<and>
     pr_find_by_id (gd_players deps) (vi_who v) (gw_users g) = Ok (Some (vi_row v))"

definition visit_ready :: "('t, 's) list_deps \<Rightarrow> instant list \<Rightarrow> visit \<Rightarrow> ('t, 's, room_event list_chan, frame list_chan) gw \<Rightarrow> bool" where
  "visit_ready deps ts v g \<longleftrightarrow>
     knows deps ts v g \<and> queue_idle (gw_queues g (vi_out v)) \<and> sink_idle (sv_sinks (gw_rooms g) (vi_sink v))"

definition spares ::
  "('t, 's) list_deps \<Rightarrow> instant list \<Rightarrow> visit
     \<Rightarrow> (('t, 's, room_event list_chan, frame list_chan) gw \<Rightarrow> ('t, 's, room_event list_chan, frame list_chan) gw) \<Rightarrow> bool" where
  "spares deps ts v f \<longleftrightarrow>
     (\<forall>g. (knows deps ts v g \<longrightarrow> knows deps ts v (f g)) \<and>
          gw_queues (f g) (vi_out v) = gw_queues g (vi_out v) \<and>
          sv_sinks (gw_rooms (f g)) (vi_sink v) = sv_sinks (gw_rooms g) (vi_sink v) \<and>
          sv_tasks (gw_rooms (f g)) (RoomId (vi_room v)) = sv_tasks (gw_rooms g) (RoomId (vi_room v)) \<and>
          hm_get (sv_registry (gw_rooms (f g))) (RoomId (vi_room v)) = hm_get (sv_registry (gw_rooms g)) (RoomId (vi_room v)))"

definition bound_as :: "visit \<Rightarrow> conn \<Rightarrow> bool" where
  "bound_as v c \<longleftrightarrow>
     as_player (cn_auth c) = Some (vi_player v) \<and> as_session_token (cn_auth c) = Some (trim (vi_token v)) \<and>
     cn_outbound c = vi_out v \<and> cn_room_tx c = vi_sink v"

text \<open>A round of the bound connection that comes in time.\<close>

definition bound_round :: "tcp_gateway_config \<Rightarrow> ('t, 's) list_deps \<Rightarrow> instant list \<Rightarrow> visit \<Rightarrow> ('t, 's) list_input \<Rightarrow> bool" where
  "bound_round cfg deps ts v inp \<longleftrightarrow>
     calm inp \<and> spares deps ts v (li_others inp) \<and> ge_now (li_env inp) \<in> set ts \<and>
     ge_now (li_env inp) < li_start inp + tc_heartbeat_timeout cfg"

lemma ready_gate [simp]: "visit_ready deps ts v (g\<lparr>gw_gate := gate\<rparr>) = visit_ready deps ts v g"
  by (simp add: visit_ready_def knows_def)

lemma ready_opened [simp]:
  "visit_ready deps ts v (g\<lparr>gw_rooms := room_opened fresh now p nick sink (gw_rooms g)\<rparr>) = visit_ready deps ts v g"
  by (simp add: visit_ready_def knows_def)

lemma spares_ready: "spares deps ts v f \<Longrightarrow> visit_ready deps ts v g \<Longrightarrow> visit_ready deps ts v (f g)"
  by (simp add: spares_def visit_ready_def)

lemma bound_validates:
  assumes "bound_as v c" and "visit_ready deps ts v g" and "bound_round cfg deps ts v inp"
  shows "validate_session (deps, li_env inp) (c, g)"
  using assms by (simp add: bound_as_def visit_ready_def knows_def bound_round_def calm_def validate_session_def
      list_all_iff vi_player_def)

lemma bound_awaits:
  assumes "bound_as v c" and "visit_ready deps ts v g" and "bound_round cfg deps ts v inp"
    and "lp_state ls = (c, g)" and "bucket_ready m (lp_bucket ls)"
  shows "awaits cfg inp m c (li_others inp g) ls" and "visit_ready deps ts v (li_others inp g)"
    and "\<And>msg. InboundMessage_opcode msg \<noteq> OP_C2S_BIND \<Longrightarrow> passes_gate (deps, li_env inp) msg (c, li_others inp g)"
proof -
  show r: "visit_ready deps ts v (li_others inp g)"
    using assms(2,3) by (auto simp: bound_round_def intro: spares_ready)
  have au: "is_authenticated c" using assms(1) by (simp add: bound_as_def is_authenticated_def)
  show "awaits cfg inp m c (li_others inp g) ls"
    using assms(1,3-5) r au by (simp add: awaits_def bound_round_def visit_ready_def bound_as_def read_deadline_def)
  show "passes_gate (deps, li_env inp) msg (c, li_others inp g)" if "InboundMessage_opcode msg \<noteq> OP_C2S_BIND" for msg
    using that au bound_validates [OF assms(1) r assms(3)] by (simp add: passes_gate_def)
qed

subsection \<open>The four steps\<close>

lemma step_bind:
  assumes L: "on_link L rnd cfg deps" and w: "awaits cfg inp 4 c g ls" and c: "\<not> is_authenticated c"
    "cn_outbound c = vi_out v" "cn_room_tx c = vi_sink v" and r: "visit_ready deps ts v g"
    and now: "ge_now (li_env inp) \<in> set ts" and tok: "trim (vi_token v) \<noteq> []"
    and fits: "list_all (in_fits (gd_prost deps) (frame_limit cfg)) (visit_in v)"
      "list_all (out_fits (gd_prost deps) (frame_limit cfg)) (visit_out (gd_uuid deps) v)"
  shows "\<exists>ls' gate. quickstart_bind L dbg (gd_prost deps) (vi_token v) (out, served_link (inp # rest) ls) =
      (Ok (), (out @ [BindLine True (Some (ul_show (gd_uuid deps) (player_uuid (vi_who v))))], served_link rest ls')) \<and>
    bucket_ready 3 (lp_bucket ls') \<and> lp_state ls' = (set_authed (vi_player v) (trim (vi_token v)) c, g\<lparr>gw_gate := gate\<rparr>)"
proof -
  let ?c = "set_authed (vi_player v) (trim (vi_token v)) c"
  let ?reply = "bind_ok (ul_show (gd_uuid deps) (player_uuid (vi_who v))) (ap_nickname (vi_player v))"
  have "bind_accepts (deps, li_env inp) g (BindRequest (vi_token v)) (vi_player v)"
    using r now tok by (simp add: bind_accepts_def visit_ready_def knows_def list_all_iff vi_player_def)
  from handle_bind_accepted [OF c(1) this]
  have d: "Router_dispatch build_router (deps, li_env inp) (InBind (BindRequest (vi_token v))) (c, g) = (Ok (Some ?reply), ?c, g)"
    by (simp add: vi_player_def)
  have p: "passes_gate (deps, li_env inp) (InBind (BindRequest (vi_token v))) (c, g)" using c(1) by (simp add: passes_gate_def)
  have w': "awaits cfg inp (Suc 3) c g ls" "int (Suc 3) \<le> 2 ^ 53" using w by (simp_all add: numeral_eq_Suc)
  have f: "in_fits (gd_prost deps) (frame_limit cfg) (InBind (BindRequest (vi_token v)))"
    "out_fits (gd_prost deps) (frame_limit cfg) ?reply" using fits by (simp_all add: visit_in_def visit_out_def)
  from reply_step [OF L w' f p d, where rest = rest and out = out and
      k = "\<lambda>m st. case m of OutBindResult result \<Rightarrow> (Ok (), say (BindLine (bo_ok result) (bo_player_id result)) st)
           | other \<Rightarrow> (Err (pre_expected_bind @ dbg other), st)"]
  show ?thesis unfolding quickstart_bind_def by (auto simp: bind_ok_def say_def)
qed

lemma step_profile:
  assumes L: "on_link L rnd cfg deps" and b: "bound_as v c" "visit_ready deps ts v g" "bound_round cfg deps ts v inp"
    "lp_state ls = (c, g)" "bucket_ready (Suc m) (lp_bucket ls)" and m: "int (Suc m) \<le> 2 ^ 53"
    and fits: "list_all (in_fits (gd_prost deps) (frame_limit cfg)) (visit_in v)"
      "list_all (out_fits (gd_prost deps) (frame_limit cfg)) (visit_out (gd_uuid deps) v)"
  shows "\<exists>ls' gate. quickstart_profile L dbg (gd_prost deps) (out, served_link (inp # rest) ls) =
      (Ok (), (out @ [profile_line (visit_profile (gd_uuid deps) v)], served_link rest ls')) \<and>
    bucket_ready m (lp_bucket ls') \<and> lp_state ls' = (c, (li_others inp g)\<lparr>gw_gate := gate\<rparr>)"
proof -
  note w = bound_awaits [OF b]
  let ?m = "InGetProfile GetProfileRequest" and ?reply = "OutProfile (visit_profile (gd_uuid deps) v)"
  have "pr_find_by_id (gd_players deps) (vi_who v) (gw_users (li_others inp g)) = Ok (Some (vi_row v))"
    using w(2) by (simp add: visit_ready_def knows_def)
  then have d: "Router_dispatch build_router (deps, li_env inp) ?m (c, li_others inp g) = (Ok (Some ?reply), c, li_others inp g)"
    using b(1) by (simp add: handle_get_profile_def authed_player_of_def bound_as_def vi_player_def GetPlayerProfile_execute_def
        ok_or_def visit_profile_def Let_def)
  have p: "passes_gate (deps, li_env inp) ?m (c, li_others inp g)" by (rule w(3)) (simp add: c2s_opcode_defs)
  have f: "in_fits (gd_prost deps) (frame_limit cfg) ?m" "out_fits (gd_prost deps) (frame_limit cfg) ?reply"
    using fits by (simp_all add: visit_in_def visit_out_def)
  from reply_step [OF L w(1) m f p d refl refl, where rest = rest and out = out and
      k = "\<lambda>m st. case m of OutProfile p \<Rightarrow> (Ok (), say (profile_line p) st)
           | other \<Rightarrow> (Err (pre_expected_profile @ dbg other), st)"]
  show ?thesis unfolding quickstart_profile_def by (auto simp: say_def)
qed

text \<open>The last two steps print the room event they get.\<close>

lemma print_room_event:
  "print_event (room_event_message U ev) (out, lk) = (Ok (), (out @ [EventLine (room_event_to_notification U ev)], lk))"
  by (simp add: print_event_def room_event_message_def say_def)

lemma step_join:
  assumes L: "on_link L rnd cfg deps" and b: "bound_as v c" "visit_ready deps ts v g" "bound_round cfg deps ts v inp"
    "lp_state ls = (c, g)" "bucket_ready (Suc m) (lp_bucket ls)" and m: "int (Suc m) \<le> 2 ^ 53"
    and room: "current_room c = None" "ge_fresh (li_env inp) = vi_room v"
    and fits: "list_all (in_fits (gd_prost deps) (frame_limit cfg)) (visit_in v)"
      "list_all (out_fits (gd_prost deps) (frame_limit cfg)) (visit_out (gd_uuid deps) v)"
  shows "\<exists>ls' gate. quickstart_room L (gd_prost deps) (InJoinRoom (JoinRoomRequest None)) (out, served_link (inp # rest) ls) =
      (Ok (), (out @ [EventLine (room_event_to_notification (gd_uuid deps) (visit_joined v))], served_link rest ls')) \<and>
    bucket_ready m (lp_bucket ls') \<and>
    lp_state ls' = (set_current_room (Some (RoomId (vi_room v))) c, (li_others inp g)\<lparr>gw_rooms :=
      room_opened (vi_room v) (ge_utc (li_env inp)) (vi_who v) (ap_nickname (vi_player v)) (vi_sink v)
        (gw_rooms (li_others inp g)), gw_gate := gate\<rparr>)"
proof -
  note w = bound_awaits [OF b]
  let ?m = "InJoinRoom (JoinRoomRequest None)" and ?c = "set_current_room (Some (RoomId (vi_room v))) c"
  let ?g = "li_others inp g"
  let ?w = "room_opened (vi_room v) (ge_utc (li_env inp)) (vi_who v) (ap_nickname (vi_player v)) (vi_sink v) (gw_rooms ?g)"
  have idle: "queue_idle (gw_queues ?g (vi_out v))" "sink_idle (sv_sinks (gw_rooms ?g) (vi_sink v))"
    using w(2) by (simp_all add: visit_ready_def)
  have "gd_events deps = list_mpsc" "calm inp" using L b(3) by (simp_all add: on_link_def bound_round_def)
  with join_creates [OF idle(2), of "vi_room v" "ge_utc (li_env inp)" "vi_who v" "ap_nickname (vi_player v)"]
  have d: "Router_dispatch build_router (deps, li_env inp) ?m (c, ?g) =
      (Ok None, ?c, (?g\<lparr>gw_rooms := ?w\<rparr>)\<lparr>gw_rooms := (gw_rooms (?g\<lparr>gw_rooms := ?w\<rparr>))\<lparr>sv_sinks :=
        (sv_sinks (gw_rooms (?g\<lparr>gw_rooms := ?w\<rparr>)))(cn_room_tx ?c :=
           sink_with (visit_joined v) (sv_sinks (gw_rooms (?g\<lparr>gw_rooms := ?w\<rparr>)) (cn_room_tx ?c)))\<rparr>\<rparr>)"
    using b(1) room
    by (simp add: handle_join_room_def authed_player_of_def bound_as_def parse_optional_room_id_def calm_def vi_player_def
        visit_joined_def)
  have p: "passes_gate (deps, li_env inp) ?m (c, ?g)" by (rule w(3)) (simp add: c2s_opcode_defs)
  have f: "in_fits (gd_prost deps) (frame_limit cfg) ?m"
    "out_fits (gd_prost deps) (frame_limit cfg) (room_event_message (gd_uuid deps) (visit_joined v))"
    using fits by (simp_all add: visit_in_def visit_out_def)
  have ready: "visit_ready deps ts v (?g\<lparr>gw_rooms := ?w\<rparr>)" using w(2) by (simp add: visit_ready_def knows_def)
  have "bound_as v ?c" using b(1) by (simp add: bound_as_def)
  note valid = bound_validates [OF this ready b(3)]
  have idle': "queue_idle (gw_queues (?g\<lparr>gw_rooms := ?w\<rparr>) (cn_outbound ?c))"
    "sink_idle (sv_sinks (gw_rooms (?g\<lparr>gw_rooms := ?w\<rparr>)) (cn_room_tx ?c))"
    using idle b(1) by (simp_all add: bound_as_def)
  from event_step [OF L w(1) m f p d idle' valid, where rest = rest and out = out and k = print_event]
  show ?thesis unfolding quickstart_room_def print_room_event by fastforce
qed

lemma hello_trim: "trim txt_hello_all = txt_hello_all" "length txt_hello_all \<le> MAX_CHAT_CHARS" "txt_hello_all \<noteq> []"
  by (simp_all add: txt_hello_all_def string_eval MAX_CHAT_CHARS_def)

lemma step_chat:
  assumes L: "on_link L rnd cfg deps" and b: "bound_as v c" "visit_ready deps ts v g" "bound_round cfg deps ts v inp"
    "lp_state ls = (c, g)" "bucket_ready (Suc m) (lp_bucket ls)" and m: "int (Suc m) \<le> 2 ^ 53"
    and room: "current_room c = Some (RoomId (vi_room v))"
      "hm_get (sv_registry (gw_rooms g)) (RoomId (vi_room v)) = Some \<lparr>rh_room_id = RoomId (vi_room v)\<rparr>"
      "sv_tasks (gw_rooms g) (RoomId (vi_room v)) = Some \<lparr>tk_actor =
         lone_actor mp (vi_room v) now (vi_who v) (ap_nickname (vi_player v)) (vi_sink v), tk_running = True\<rparr>"
    and fits: "list_all (in_fits (gd_prost deps) (frame_limit cfg)) (visit_in v)"
      "list_all (out_fits (gd_prost deps) (frame_limit cfg)) (visit_out (gd_uuid deps) v)"
  shows "\<exists>ls' gate. quickstart_room L (gd_prost deps) (InRoomChat (RoomChatRequest txt_hello_all)) (out, served_link (inp # rest) ls) =
      (Ok (), (out @ [EventLine (room_event_to_notification (gd_uuid deps) (visit_chat v))], served_link rest ls')) \<and>
    lp_state ls' = (c, (li_others inp g)\<lparr>gw_gate := gate\<rparr>)"
proof -
  note w = bound_awaits [OF b]
  let ?m = "InRoomChat (RoomChatRequest txt_hello_all)" and ?g = "li_others inp g"
  have idle: "queue_idle (gw_queues ?g (cn_outbound c))" "sink_idle (sv_sinks (gw_rooms ?g) (cn_room_tx c))"
    using w(2) b(1) by (simp_all add: visit_ready_def bound_as_def)
  have s: "spares deps ts v (li_others inp)" using b(3) by (simp add: bound_round_def)
  have "sink_idle (sv_sinks (gw_rooms ?g) (vi_sink v))" using w(2) by (simp add: visit_ready_def)
  moreover have "hm_get (sv_registry (gw_rooms ?g)) (RoomId (vi_room v)) = Some \<lparr>rh_room_id = RoomId (vi_room v)\<rparr>"
    "sv_tasks (gw_rooms ?g) (RoomId (vi_room v)) = Some \<lparr>tk_actor =
       lone_actor mp (vi_room v) now (vi_who v) (ap_nickname (vi_player v)) (vi_sink v), tk_running = True\<rparr>"
    using s room(2,3) by (simp_all add: spares_def)
  ultimately have chat: "RoomService_chat list_mpsc [] False False (RoomId (vi_room v)) (vi_who v) txt_hello_all (gw_rooms ?g) =
      (Ok (), (gw_rooms ?g)\<lparr>sv_sinks := (sv_sinks (gw_rooms ?g))
         (vi_sink v := sink_with (visit_chat v) (sv_sinks (gw_rooms ?g) (vi_sink v)))\<rparr>)"
    using chat_heard [where w = "gw_rooms ?g" and content = txt_hello_all] hello_trim by (simp add: visit_chat_def)
  have "gd_events deps = list_mpsc" "calm inp" using L b(3) by (simp_all add: on_link_def bound_round_def)
  with chat have d: "Router_dispatch build_router (deps, li_env inp) ?m (c, ?g) =
      (Ok None, c, ?g\<lparr>gw_rooms := (gw_rooms ?g)\<lparr>sv_sinks := (sv_sinks (gw_rooms ?g))
         (cn_room_tx c := sink_with (visit_chat v) (sv_sinks (gw_rooms ?g) (cn_room_tx c)))\<rparr>\<rparr>)"
    using b(1) room(1) by (simp add: handle_room_chat_def authed_player_of_def bound_as_def calm_def vi_player_def)
  have p: "passes_gate (deps, li_env inp) ?m (c, ?g)" by (rule w(3)) (simp add: c2s_opcode_defs)
  have f: "in_fits (gd_prost deps) (frame_limit cfg) ?m"
    "out_fits (gd_prost deps) (frame_limit cfg) (room_event_message (gd_uuid deps) (visit_chat v))"
    using fits by (simp_all add: visit_in_def visit_out_def)
  from event_step [OF L w(1) m f p d idle bound_validates [OF b(1) w(2) b(3)], where rest = rest and out = out and k = print_event]
  show ?thesis unfolding quickstart_room_def print_room_event by fastforce
qed

section \<open>The whole run\<close>

text \<open>What the client has printed when it ends.\<close>

definition visit_lines :: "uuid_lib \<Rightarrow> rstring \<Rightarrow> visit \<Rightarrow> client_line list" where
  "visit_lines U server_addr v =
     [HandshakeLine server_addr, BindLine True (Some (ul_show U (player_uuid (vi_who v)))), profile_line (visit_profile U v),
      EventLine (room_event_to_notification U (visit_joined v)), EventLine (room_event_to_notification U (visit_chat v)), DoneLine]"

text \<open>The rounds of the server: the first before the admission deadline, the others within the heartbeat timeout.\<close>

definition visit_rounds ::
  "tcp_gateway_config \<Rightarrow> ('t, 's) list_deps \<Rightarrow> visit \<Rightarrow> admission \<Rightarrow> ('t, 's) list_input \<Rightarrow> ('t, 's) list_input
     \<Rightarrow> ('t, 's) list_input \<Rightarrow> ('t, 's) list_input \<Rightarrow> bool" where
  "visit_rounds cfg deps v adm i1 i2 i3 i4 \<longleftrightarrow>
     (let ts = map (\<lambda>inp. ge_now (li_env inp)) [i1, i2, i3, i4]
      in calm i1 \<and> spares deps ts v (li_others i1) \<and> ge_now (li_env i1) < ad_deadline adm \<and>
         list_all (bound_round cfg deps ts v) [i2, i3, i4] \<and> ge_fresh (li_env i3) = vi_room v)"

text \<open>Room for one frame and one event, four frames in the burst, new channels empty.\<close>

definition visit_config :: "tcp_gateway_config \<Rightarrow> (room_event list_chan, frame list_chan) conn_env \<Rightarrow> bool" where
  "visit_config cfg env \<longleftrightarrow>
     1 \<le> tc_send_queue_capacity cfg \<and> 1 \<le> tc_room_event_capacity cfg \<and>
     (rl_enabled (tc_rate cfg) \<and> rl_per_second (tc_rate cfg) \<noteq> 0 \<and> rl_burst (tc_rate cfg) \<noteq> 0 \<longrightarrow>
        4 \<le> unat (rl_burst (tc_rate cfg))) \<and>
     (\<forall>n. ce_frames env n = \<lparr>lc_items = [], lc_cap = n, lc_closed = False\<rparr>) \<and>
     (\<forall>n. ce_events env n = \<lparr>lc_items = [], lc_cap = n, lc_closed = False\<rparr>)"

text \<open>From the bound connection to the end of the session.\<close>

lemma bound_session:
  assumes L: "on_link L rnd cfg deps" and c: "bound_as v c" "current_room c = None" and r: "visit_ready deps ts v g"
    and b: "bound_round cfg deps ts v i2" "bound_round cfg deps ts v i3" "bound_round cfg deps ts v i4"
    and fresh: "ge_fresh (li_env i3) = vi_room v" and ls: "lp_state ls = (c, g)" "bucket_ready 3 (lp_bucket ls)"
    and fits: "list_all (in_fits (gd_prost deps) (frame_limit cfg)) (visit_in v)"
      "list_all (out_fits (gd_prost deps) (frame_limit cfg)) (visit_out (gd_uuid deps) v)"
  shows "\<exists>ls'. st_then (quickstart_profile L dbg (gd_prost deps) (out, served_link [i2, i3, i4] ls)) (\<lambda>_ st.
    st_then (quickstart_room L (gd_prost deps) (InJoinRoom (JoinRoomRequest None)) st) (\<lambda>_ st.
    st_then (quickstart_room L (gd_prost deps) (InRoomChat (RoomChatRequest txt_hello_all)) st) k)) =
      k () (out @ [profile_line (visit_profile (gd_uuid deps) v), EventLine (room_event_to_notification (gd_uuid deps) (visit_joined v)),
        EventLine (room_event_to_notification (gd_uuid deps) (visit_chat v))], served_link [] ls') \<and>
    in_room (gw_rooms (snd (lp_state ls'))) (RoomId (vi_room v)) (vi_who v)"
proof -
  let ?o2 = "out @ [profile_line (visit_profile (gd_uuid deps) v)]"
  let ?o3 = "?o2 @ [EventLine (room_event_to_notification (gd_uuid deps) (visit_joined v))]"
  let ?rid = "RoomId (vi_room v)" and ?c = "set_current_room (Some (RoomId (vi_room v))) c"
  have n: "bucket_ready (Suc 2) (lp_bucket ls)" "int (Suc 2) \<le> 2 ^ 53" "int (Suc (Suc 0)) \<le> 2 ^ 53" "int (Suc 0) \<le> 2 ^ 53"
    using ls(2) by (simp_all add: numeral_eq_Suc)
  obtain ls2 t2 where p: "quickstart_profile L dbg (gd_prost deps) (out, served_link [i2, i3, i4] ls) =
      (Ok (), (?o2, served_link [i3, i4] ls2))"
    "bucket_ready (Suc (Suc 0)) (lp_bucket ls2)" "lp_state ls2 = (c, (li_others i2 g)\<lparr>gw_gate := t2\<rparr>)"
    using step_profile [OF L c(1) r b(1) ls(1) n(1,2) fits, where out = out and rest = "[i3, i4]" and dbg = dbg]
    by (auto simp: numeral_eq_Suc)
  have r2: "visit_ready deps ts v ((li_others i2 g)\<lparr>gw_gate := t2\<rparr>)"
    using bound_awaits(2) [OF c(1) r b(1) ls] by simp
  let ?g = "li_others i3 ((li_others i2 g)\<lparr>gw_gate := t2\<rparr>)"
  let ?w = "room_opened (vi_room v) (ge_utc (li_env i3)) (vi_who v) (ap_nickname (vi_player v)) (vi_sink v) (gw_rooms ?g)"
  obtain ls3 t3 where j: "quickstart_room L (gd_prost deps) (InJoinRoom (JoinRoomRequest None))
      (?o2, served_link [i3, i4] ls2) = (Ok (), (?o3, served_link [i4] ls3))"
    "bucket_ready (Suc 0) (lp_bucket ls3)" "lp_state ls3 = (?c, ?g\<lparr>gw_rooms := ?w, gw_gate := t3\<rparr>)"
    using step_join [OF L c(1) r2 b(2) p(3,2) n(3) c(2) fresh fits, where out = ?o2 and rest = "[i4]"] by blast
  have r3: "visit_ready deps ts v (?g\<lparr>gw_rooms := ?w, gw_gate := t3\<rparr>)"
    using bound_awaits(2) [OF c(1) r2 b(2) p(3,2)] by simp
  have c': "bound_as v ?c" "current_room ?c = Some ?rid" using c(1) by (simp_all add: bound_as_def)
  have room: "hm_get (sv_registry (gw_rooms (?g\<lparr>gw_rooms := ?w, gw_gate := t3\<rparr>))) ?rid = Some \<lparr>rh_room_id = ?rid\<rparr>"
    "sv_tasks (gw_rooms (?g\<lparr>gw_rooms := ?w, gw_gate := t3\<rparr>)) ?rid = Some \<lparr>tk_actor =
      lone_actor (rsc_max_players (sv_config (gw_rooms ?g))) (vi_room v) (ge_utc (li_env i3)) (vi_who v)
        (ap_nickname (vi_player v)) (vi_sink v), tk_running = True\<rparr>" by simp_all
  obtain ls4 t4 where h: "quickstart_room L (gd_prost deps) (InRoomChat (RoomChatRequest txt_hello_all))
      (?o3, served_link [i4] ls3) =
      (Ok (), (?o3 @ [EventLine (room_event_to_notification (gd_uuid deps) (visit_chat v))], served_link [] ls4))"
    "lp_state ls4 = (?c, (li_others i4 (?g\<lparr>gw_rooms := ?w, gw_gate := t3\<rparr>))\<lparr>gw_gate := t4\<rparr>)"
    using step_chat [OF L c'(1) r3 b(3) j(3,2) n(4) c'(2) room fits, where out = ?o3 and rest = "[]"] by blast
  have "sv_tasks (gw_rooms (snd (lp_state ls4))) ?rid = sv_tasks ?w ?rid"
    using b(3) by (simp add: h(2) bound_round_def spares_def)
  then have "in_room (gw_rooms (snd (lp_state ls4))) ?rid (vi_who v)" by (simp add: in_room_def lone_actor_abs)
  with p(1) j(1) h(1) show ?thesis by auto
qed

lemma opened_idle:
  assumes "visit_config cfg env" and "f64_spec rnd" and o: "open_connection rnd cfg env ip adm g = ls"
  obtains c g0 where "lp_state ls = (c, g0)" "\<not> is_authenticated c" "cn_outbound c = ce_out env" "cn_room_tx c = ce_sink env"
    "current_room c = None" "gw_tokens g0 = gw_tokens g" "gw_users g0 = gw_users g" "queue_idle (gw_queues g0 (ce_out env))"
    "sink_idle (sv_sinks (gw_rooms g0) (ce_sink env))" "lp_admission ls = adm" "bucket_ready 4 (lp_bucket ls)"
proof -
  obtain c g0 where st: "lp_state ls = (c, g0)" by (metis prod.exhaust)
  have c: "\<not> is_authenticated c" "cn_outbound c = ce_out env" "cn_room_tx c = ce_sink env" "current_room c = None"
    using st o by (auto simp: open_connection_def Let_def is_authenticated_def current_room_def AuthState_default_def)
  have g0: "gw_tokens g0 = gw_tokens g" "gw_users g0 = gw_users g" "queue_idle (gw_queues g0 (ce_out env))"
    "sink_idle (sv_sinks (gw_rooms g0) (ce_sink env))"
    using st o assms(1) by (auto simp: open_connection_def Let_def visit_config_def queue_idle_def sink_idle_def
        OutboundSender_new_def RoomEventSink_from_def)
  have ls: "lp_bucket ls = TokenBucket_new rnd (tc_rate cfg) (ce_now env)" "lp_admission ls = adm"
    using o by (auto simp: open_connection_def Let_def)
  have "bucket_ready 4 (lp_bucket ls)"
    using assms(1) unfolding ls by (intro new_bucket_ready [OF assms(2)]) (auto simp: visit_config_def)
  with st c g0 ls(2) show thesis by (rule that)
qed

lemma opened_awaits:
  assumes "visit_config cfg env" and "f64_spec rnd" and "vi_out v = ce_out env" and "vi_sink v = ce_sink env"
    and "knows deps ts v g" and "calm inp" and "spares deps ts v (li_others inp)" and "ge_now (li_env inp) < ad_deadline adm"
    and o: "open_connection rnd cfg env ip adm g = ls"
  shows "\<exists>c g1. awaits cfg inp 4 c g1 ls \<and> \<not> is_authenticated c \<and> cn_outbound c = vi_out v \<and> cn_room_tx c = vi_sink v \<and>
    current_room c = None \<and> visit_ready deps ts v g1"
  using assms(1,2) o
proof (rule opened_idle)
  fix c g0
  assume st: "lp_state ls = (c, g0)" "lp_admission ls = adm" "bucket_ready 4 (lp_bucket ls)"
    and c: "\<not> is_authenticated c" "cn_outbound c = ce_out env" "cn_room_tx c = ce_sink env" "current_room c = None"
    and g0: "gw_tokens g0 = gw_tokens g" "gw_users g0 = gw_users g" "queue_idle (gw_queues g0 (ce_out env))"
      "sink_idle (sv_sinks (gw_rooms g0) (ce_sink env))"
  have "visit_ready deps ts v g0" using g0 assms(3-5) by (simp add: visit_ready_def knows_def)
  with assms(7) have r: "visit_ready deps ts v (li_others inp g0)" by (rule spares_ready)
  then have "awaits cfg inp 4 c (li_others inp g0) ls"
    using st assms(3,4,6,8) c by (simp add: awaits_def visit_ready_def read_deadline_def)
  with c r assms(3,4) show ?thesis by auto
qed

lemma dialled:
  assumes "flag_value args (ascii ''--token'') [] = vi_token v" and "vi_token v \<noteq> []"
    and "quickstart_dial L (flag_value args (ascii ''--server'') (ascii ''127.0.0.1:8080''))
      (flag_value args (ascii ''--root-ca'') (ascii ''$(mkcert -CAROOT)/rootCA.pem'')) n = (Ok (), lk)"
  shows "quickstart_main L dbg P args n =
    st_then (quickstart_bind L dbg P (vi_token v) ([HandshakeLine (flag_value args (ascii ''--server'') (ascii ''127.0.0.1:8080''))], lk)) (\<lambda>_ st.
    st_then (quickstart_profile L dbg P st) (\<lambda>_ st.
    st_then (quickstart_room L P (InJoinRoom (JoinRoomRequest None)) st) (\<lambda>_ st.
    st_then (quickstart_room L P (InRoomChat (RoomChatRequest txt_hello_all)) st) (\<lambda>_ st. (Ok (), say DoneLine st)))))"
  using assms by (simp add: quickstart_main_def Let_def on_net_def say_def)

text \<open>
  (C8) The example of the README works: against a server that resolves its token to a stored player, the quickstart
  client started with that token ends without an error and has printed, in this order, that it is bound as this player,
  the player's profile, the event of its own arrival in the new room and its own chat line; and the player is in that
  room. This holds whatever the other tasks of the server do meanwhile, as long as they leave this session,
  its queues and the new room alone, for any codec that decodes what it encoded, any clocks within the deadlines, and any
  rate limit with a burst of at least four frames.
\<close>

theorem quickstart_completes:
  assumes "on_link L rnd cfg deps" and "visit_config cfg env" and "vi_out v = ce_out env" and "vi_sink v = ce_sink env"
    and "Admission_acquire ip (tc_unauth_timeout cfg) (ce_now env) (gw_gate g) = (Some adm, gate)"
    and "knows deps (map (\<lambda>inp. ge_now (li_env inp)) [i1, i2, i3, i4]) v g" and "trim (vi_token v) \<noteq> []"
    and "visit_rounds cfg deps v adm i1 i2 i3 i4"
    and "list_all (in_fits (gd_prost deps) (frame_limit cfg)) (visit_in v)"
    and "list_all (out_fits (gd_prost deps) (frame_limit cfg)) (visit_out (gd_uuid deps) v)"
    and "flag_value args (ascii ''--token'') [] = vi_token v"
    and "flag_value args (ascii ''--server'') (ascii ''127.0.0.1:8080'') = server_addr"
    and "quickstart_dial L server_addr (flag_value args (ascii ''--root-ca'') (ascii ''$(mkcert -CAROOT)/rootCA.pem'')) n =
      (Ok (), link_open rnd cfg env ip adm (g\<lparr>gw_gate := gate\<rparr>) [i1, i2, i3, i4])"
  shows "\<exists>lk. quickstart_main L dbg (gd_prost deps) args n = (Ok (), (visit_lines (gd_uuid deps) server_addr v, lk)) \<and>
    in_room (gw_rooms (snd (lp_state (lk_conn lk)))) (RoomId (vi_room v)) (vi_who v)"
proof -
  let ?ts = "map (\<lambda>inp. ge_now (li_env inp)) [i1, i2, i3, i4]" and ?P = "gd_prost deps"
  let ?ls = "open_connection rnd cfg env ip adm (g\<lparr>gw_gate := gate\<rparr>)"
  let ?say = "BindLine True (Some (ul_show (gd_uuid deps) (player_uuid (vi_who v))))"
  note fits = assms(9,10)
  have rnds: "calm i1" "spares deps ?ts v (li_others i1)" "ge_now (li_env i1) < ad_deadline adm"
    and b: "bound_round cfg deps ?ts v i2" "bound_round cfg deps ?ts v i3" "bound_round cfg deps ?ts v i4"
    and fresh: "ge_fresh (li_env i3) = vi_room v"
    using assms(8) by (simp_all add: visit_rounds_def Let_def)
  have f64: "f64_spec rnd" and k: "knows deps ?ts v (g\<lparr>gw_gate := gate\<rparr>)" using assms(1,6) by (simp_all add: on_link_def knows_def)
  obtain c g1 where o: "awaits cfg i1 4 c g1 ?ls" "\<not> is_authenticated c" "cn_outbound c = vi_out v" "cn_room_tx c = vi_sink v"
    "current_room c = None" "visit_ready deps ?ts v g1"
    using opened_awaits [OF assms(2) f64 assms(3,4) k rnds refl] by blast
  let ?c = "set_authed (vi_player v) (trim (vi_token v)) c"
  have now: "ge_now (li_env i1) \<in> set ?ts" by simp
  obtain ls1 t1 where s1: "quickstart_bind L dbg ?P (vi_token v) ([HandshakeLine server_addr], served_link [i1, i2, i3, i4] ?ls) =
      (Ok (), ([HandshakeLine server_addr] @ [?say], served_link [i2, i3, i4] ls1))"
    "bucket_ready 3 (lp_bucket ls1)" "lp_state ls1 = (?c, g1\<lparr>gw_gate := t1\<rparr>)"
    using step_bind [OF assms(1) o(1-4) o(6) now assms(7) fits, where dbg = dbg and out = "[HandshakeLine server_addr]" and
        rest = "[i2, i3, i4]"] by blast
  have c: "bound_as v ?c" "current_room ?c = None" using o(3-5) by (simp_all add: bound_as_def current_room_def)
  have "visit_ready deps ?ts v (g1\<lparr>gw_gate := t1\<rparr>)" using o(6) by simp
  from bound_session [OF assms(1) c this b fresh s1(3,2) fits, where out = "[HandshakeLine server_addr] @ [?say]" and dbg = dbg and
      k = "\<lambda>_ st. (Ok (), say DoneLine st)"]
  obtain ls' where r: "st_then (quickstart_profile L dbg ?P ([HandshakeLine server_addr] @ [?say], served_link [i2, i3, i4] ls1)) (\<lambda>_ st.
      st_then (quickstart_room L ?P (InJoinRoom (JoinRoomRequest None)) st) (\<lambda>_ st.
      st_then (quickstart_room L ?P (InRoomChat (RoomChatRequest txt_hello_all)) st) (\<lambda>_ st. (Ok (), say DoneLine st)))) =
      (Ok (), (visit_lines (gd_uuid deps) server_addr v, served_link [] ls'))"
    "in_room (gw_rooms (snd (lp_state ls'))) (RoomId (vi_room v)) (vi_who v)"
    by (auto simp: say_def visit_lines_def)
  have "vi_token v \<noteq> []" using assms(7) by (auto simp: string_eval)
  from dialled [OF assms(11) this, of L n, unfolded assms(12), OF assms(13)] s1(1) r(1)
  have "quickstart_main L dbg ?P args n = (Ok (), (visit_lines (gd_uuid deps) server_addr v, served_link [] ls'))"
    by (simp add: link_open_def served_link_def)
  with r(2) show ?thesis by (auto simp: served_link_def)
qed

text \<open>Witness: the sample gateway with one stored player and a token for it, a codec that gives the messages of the visit short forms.\<close>

lemma position_Some: "position p xs = Some i \<Longrightarrow> i < length xs \<and> p (xs ! i)"
  by (induction xs arbitrary: i) (auto split: if_splits)

lemma position_None: "position p xs = None \<longleftrightarrow> (\<forall>x \<in> set xs. \<not> p x)"
  by (induction xs) auto

definition short_codec :: "'m::countable list \<Rightarrow> 'm pb_codec" where
  "short_codec ms =
     (\<lambda>m. case position (\<lambda>x. x = m) ms of Some i \<Rightarrow> replicate i 0 | None \<Rightarrow> replicate (length ms + to_nat m) 0,
      \<lambda>bs. Ok (if length bs < length ms then ms ! length bs else from_nat (length bs - length ms)))"

lemma short_codec_sound: "pb_sound (short_codec ms)"
  by (auto simp: pb_sound_def short_codec_def split: option.split dest: position_Some)

lemma short_codec_length: "m \<in> set ms \<Longrightarrow> length (fst (short_codec ms) m) < length ms"
  by (auto simp: short_codec_def position_None split: option.split dest: position_Some)

definition visit_prost :: "uuid_lib \<Rightarrow> visit \<Rightarrow> prost" where
  "visit_prost U v =
     count_prost\<lparr>pc_bind_request := short_codec [BindRequest (vi_token v)], pc_join_room := short_codec [JoinRoomRequest None],
       pc_room_chat := short_codec [RoomChatRequest txt_hello_all],
       pc_bind_result := short_codec [BindResultMsg True (Some (ul_show U (player_uuid (vi_who v)))) (Some (ap_nickname (vi_player v))) None],
       pc_profile := short_codec [visit_profile U v],
       pc_room_event := short_codec [room_event_to_notification U (visit_joined v), room_event_to_notification U (visit_chat v)]\<rparr>"

lemma visit_prost_spec: "prost_spec (visit_prost U v)"
  using count_prost_spec by (simp add: prost_spec_def visit_prost_def short_codec_sound)

lemma visit_prost_fits:
  assumes "4 \<le> mx"
  shows "list_all (in_fits (visit_prost U v) mx) (visit_in v)" "list_all (out_fits (visit_prost U v) mx) (visit_out U v)"
proof -
  have one: "fst (short_codec [m]) m = []" for m :: "'m::countable" by (simp add: short_codec_def)
  have two: "length (fst (short_codec [a, b]) a) \<le> 2" "length (fst (short_codec [a, b]) b) \<le> 2" for a b :: "'m::countable"
    using short_codec_length [of a "[a, b]"] short_codec_length [of b "[a, b]"] by auto
  show "list_all (in_fits (visit_prost U v) mx) (visit_in v)"
    using assms by (simp add: visit_in_def in_fits_def visit_prost_def count_prost_def pb_encode_def one wire_len_def OPCODE_BYTES_def
        Frame_new_def)
  show "list_all (out_fits (visit_prost U v) mx) (visit_out U v)"
    using assms two [of "room_event_to_notification U (visit_joined v)" "room_event_to_notification U (visit_chat v)"]
    by (simp add: visit_out_def out_fits_def visit_prost_def pb_encode_def one wire_len_def OPCODE_BYTES_def bind_ok_def
        GameCodec_encode_def map_ok_def Frame_new_def room_event_message_def)
qed

definition sample_visit :: visit where
  "sample_visit =
     \<lparr>vi_token = ascii ''0a'', vi_who = PlayerId 2, vi_row = Player_create 2 (AccountId 1) (Nickname (ascii ''Al'')) 1,
      vi_out = 0, vi_sink = 0, vi_room = 1\<rparr>"

definition visit_deps :: "(token_state, mem_store) list_deps" where
  "visit_deps = sample_deps\<lparr>gd_prost := visit_prost (gd_uuid sample_deps) sample_visit\<rparr>"

definition visit_gw :: "(token_state, mem_store, room_event list_chan, frame list_chan) gw" where
  "visit_gw = sample_gw\<lparr>gw_tokens := snd (InMemoryTokenStore_create 1000 [0x0A] 2 (PlayerId 2) 50 InMemoryTokenStore_new),
     gw_users := mem_store_new\<lparr>ms_players := [(2, vi_row sample_visit)]\<rparr>\<rparr>"

definition visit_link :: "(token_state, mem_store) link" where
  "visit_link =
     (case Admission_acquire 1 (tc_unauth_timeout sample_config) (ce_now sample_conn_env) (gw_gate visit_gw) of
        (adm, gate) \<Rightarrow> link_open (\<lambda>x. x) sample_config sample_conn_env 1 (the adm) (visit_gw\<lparr>gw_gate := gate\<rparr>)
          [sample_input, sample_input, sample_input, sample_input])"

definition visit_client :: "(unit, unit, unit, unit, unit, unit, (token_state, mem_store) link) client_lib" where
  "visit_client =
     \<lparr>cl_pem_file_iter = (\<lambda>_. Ok [Ok ()]), cl_no_roots = (), cl_add_root = (\<lambda>_ _. Ok ()), cl_with_versions = (\<lambda>_. Ok ()),
      cl_with_roots = (\<lambda>_ _. ()), cl_tcp_connect = (\<lambda>_ n. (Ok (), n)), cl_server_name = (\<lambda>_. Ok ()),
      cl_tls_connect = (\<lambda>_ _ _ n. (Ok (), n)), cl_write = link_write (\<lambda>x. x) sample_config visit_deps, cl_read = link_read\<rparr>"

lemma visit_token: "random_token [0x0A] = ascii ''0a''"
  by (simp add: random_token_def hex2_def hex_digit_def string_eval)

lemma visit_known: "knows visit_deps [3, 3, 3, 3] sample_visit visit_gw"
proof -
  have "InMemoryTokenStore_create 1000 [0x0A] 2 (PlayerId 2) 50 InMemoryTokenStore_new =
      (Ok (random_token [0x0A]), gw_tokens visit_gw)"
    by (simp add: visit_gw_def create_Ok)
  from memory_tokens.create_resolve [OF token_inv_new _ this, of 3 "ascii ''0a''"]
  have "InMemoryTokenStore_resolve 3 (ascii ''0a'') (gw_tokens visit_gw) = Ok (Some (PlayerId 2))"
    by (simp add: visit_token)
  then show ?thesis
    by (simp add: knows_def visit_deps_def sample_deps_def sample_visit_def InMemoryTokenStore_def InMemoryPlayerRepository_def
        InMemoryPlayer_find_by_id_def visit_gw_def hm_get_def string_eval)
qed

theorem quickstart_completes_witness:
  "fst (quickstart_main visit_client (\<lambda>_. []) (gd_prost visit_deps) [ascii ''quickstart'', ascii ''--token'', ascii ''0a''] visit_link) = Ok ()"
proof -
  let ?args = "[ascii ''quickstart'', ascii ''--token'', ascii ''0a'']"
  let ?adm = "\<lparr>ad_deadline = 13, ad_permit = Some 1\<rparr>"
  obtain gate where adm: "Admission_acquire 1 (tc_unauth_timeout sample_config) (ce_now sample_conn_env) (gw_gate visit_gw) = (Some ?adm, gate)"
    by (simp add: Admission_acquire_def permit_eq unauth_count_def visit_gw_def sample_gw_def AuthGate_new_def sample_config_def
        sample_conn_env_def)
  have link: "visit_link = link_open (\<lambda>x. x) sample_config sample_conn_env 1 ?adm (visit_gw\<lparr>gw_gate := gate\<rparr>)
      [sample_input, sample_input, sample_input, sample_input]"
    unfolding visit_link_def adm by simp
  have f: "f64_spec (\<lambda>x. x)" by (simp add: f64_spec_def mono_def)
  have L: "on_link visit_client (\<lambda>x. x) sample_config visit_deps"
    by (simp add: on_link_def visit_client_def visit_deps_def visit_prost_spec f) (simp add: sample_deps_def)
  have cfg: "visit_config sample_config sample_conn_env"
    by (simp add: visit_config_def sample_config_def sample_conn_env_def sample_rate_def)
  have refs: "vi_out sample_visit = ce_out sample_conn_env" "vi_sink sample_visit = ce_sink sample_conn_env"
    "trim (vi_token sample_visit) \<noteq> []" by (simp_all add: sample_visit_def sample_conn_env_def string_eval)
  have k: "knows visit_deps (map (\<lambda>inp. ge_now (li_env inp)) [sample_input, sample_input, sample_input, sample_input]) sample_visit visit_gw"
    using visit_known by (simp add: sample_input_def sample_env_def)
  have rounds: "visit_rounds sample_config visit_deps sample_visit ?adm sample_input sample_input sample_input sample_input"
    by (simp add: visit_rounds_def bound_round_def calm_def spares_def sample_input_def sample_env_def sample_config_def sample_visit_def)
  have "4 \<le> frame_limit sample_config" by (simp add: frame_limit_def max_frame_def sample_config_def)
  note fits = visit_prost_fits [OF this, of "gd_uuid sample_deps" sample_visit]
  have fits': "list_all (in_fits (gd_prost visit_deps) (frame_limit sample_config)) (visit_in sample_visit)"
    "list_all (out_fits (gd_prost visit_deps) (frame_limit sample_config)) (visit_out (gd_uuid visit_deps) sample_visit)"
    using fits by (simp_all add: visit_deps_def)
  have tok: "flag_value ?args (ascii ''--token'') [] = vi_token sample_visit"
    by (simp add: flag_value_def sample_visit_def string_eval)
  have dial: "quickstart_dial visit_client addr ca visit_link = (Ok (), visit_link)" for addr ca
    by (simp add: quickstart_dial_def client_tls_config_def visit_client_def)
  from quickstart_completes [OF L cfg refs(1,2) adm k refs(3) rounds fits' tok refl dial [unfolded link], where dbg = "\<lambda>_. []"]
  show ?thesis unfolding link by auto
qed

section \<open>A token the server does not know\<close>

text \<open>A request before the BIND has succeeded: the client gets the notice, and the connection is closed behind it.\<close>

abbreviation bind_first_notice :: outbound_message where
  "bind_first_notice \<equiv> error_notification ERR_AUTH_REQUIRED_FIRST txt_bind_first"

lemma refuse_step:
  assumes L: "on_link L rnd cfg deps" and w: "awaits cfg inp (Suc m) c g ls" "int (Suc m) \<le> 2 ^ 53"
    and fits: "in_fits (gd_prost deps) (frame_limit cfg) msg" "out_fits (gd_prost deps) (frame_limit cfg) bind_first_notice"
    and un: "\<not> is_authenticated c" "InboundMessage_opcode msg \<noteq> OP_C2S_BIND"
  shows "\<exists>lk. st_then (send_message L (gd_prost deps) msg (out, served_link (inp # rest) ls))
      (\<lambda>_ st. st_then (next_message L (gd_prost deps) st) k) = k bind_first_notice (out, lk) \<and> \<not> lk_open lk"
proof -
  have P: "prost_spec (gd_prost deps)" and fc: "gd_frames deps = list_mpsc" "f64_spec rnd"
    and lib: "cl_write L = link_write rnd cfg deps" "cl_read L = link_read" using L by (auto simp: on_link_def)
  obtain f where f: "ClientCodec_encode (gd_prost deps) msg = Ok f" "wire_len f \<le> max_frame"
    "wire_len f \<le> tc_max_frame_size cfg" "GameCodec_decode (gd_prost deps) f = Ok msg" by (rule in_fitsE [OF fits(1) P])
  obtain fr where fr: "GameCodec_encode (gd_prost deps) bind_first_notice = Ok fr" "wire_len fr \<le> max_frame"
    "wire_len fr \<le> tc_max_frame_size cfg" "ClientCodec_decode (gd_prost deps) fr = Ok bind_first_notice"
    by (rule out_fitsE [OF fits(2) P])
  obtain g0 where ls: "lp_state ls = (c, g0)" "li_others inp g0 = g" using w(1) by (metis awaits_def prod.collapse)
  have idle: "queue_idle (gw_queues g (cn_outbound c))" "sink_idle (sv_sinks (gw_rooms g) (cn_room_tx c))"
    using w(1) by (simp_all add: awaits_def)
  let ?g = "g\<lparr>gw_queues := (gw_queues g)(cn_outbound c := queue_with fr (gw_queues g (cn_outbound c)))\<rparr>"
  have n: "notify (deps, li_env inp) bind_first_notice (c, g) = (c, ?g)"
    using fr(1) fc(1) send_idle [OF idle(1), of fr] by (simp add: notify_def ctx_try_send_def)
  obtain b' where b: "bucket_step rnd (ge_now (li_env inp)) (lp_bucket ls) = (True, b')"
    using bucket_acquire [OF fc(2) _ w(2)] w(1) by (metis awaits_def)
  have a: "admit_frame rnd (deps, li_env inp) (lp_bucket ls) f (c, g) = (False, b', c, ?g)"
    using f(4) un n by (simp add: admit_frame_def b)
  have "\<not> OutboundSender_is_closed (gd_frames deps) (gw_queues g (cn_outbound c))"
    "\<not> es_failed (sv_sinks (gw_rooms g) (cn_room_tx c))"
    using idle fc(1) by (simp_all add: OutboundSender_is_closed_def queue_idle_def sink_idle_def)
  then obtain ls' where r: "read_loop_step rnd cfg deps (inp\<lparr>li_read := Some (Ok (Some f))\<rparr>) ls = (False, ls')"
    "lp_state ls' = (c, ?g)"
    using w(1) ls a by (simp add: read_loop_step_def read_loop_frame_def calm_def awaits_def Let_def)
  have "server_round rnd cfg deps ((served_link (inp # rest) ls)\<lparr>lk_in := encoded f\<rparr>) =
      \<lparr>lk_in = [], lk_out = encoded fr, lk_open = False, lk_rounds = rest, lk_conn = ls'\<lparr>lp_state := (c, g)\<rparr>\<rparr>"
    by (rule round_reply [where inp = inp and f = f]) (use f fr r idle in \<open>simp_all add: served_link_def\<close>)
  from exchange [OF lib f(1,2) _ _ this _ fr(2,4), where out = out and k = k] show ?thesis by (fastforce simp: served_link_def)
qed

text \<open>Other tasks that leave the channels of the connection and the token store alone.\<close>

definition keeps_session :: "conn_ref \<Rightarrow> sink_ref \<Rightarrow> (('t, 's, 'q, 'f) gw \<Rightarrow> ('t, 's, 'q, 'f) gw) \<Rightarrow> bool" where
  "keeps_session out sink f \<longleftrightarrow>
     (\<forall>g. gw_tokens (f g) = gw_tokens g \<and> gw_queues (f g) out = gw_queues g out \<and>
          sv_sinks (gw_rooms (f g)) sink = sv_sinks (gw_rooms g) sink)"


lemma keeps_awaits:
  assumes "keeps_session (cn_outbound c) (cn_room_tx c) (li_others inp)" and "calm inp" and "lp_state ls = (c, g)"
    and "queue_idle (gw_queues g (cn_outbound c))" and "sink_idle (sv_sinks (gw_rooms g) (cn_room_tx c))"
    and "\<not> is_authenticated c" and "ge_now (li_env inp) < ad_deadline (lp_admission ls)" and "bucket_ready m (lp_bucket ls)"
  shows "awaits cfg inp m c (li_others inp g) ls"
  using assms by (simp add: awaits_def keeps_session_def read_deadline_def)

lemma step_bind_rejected:
  assumes L: "on_link L rnd cfg deps" and w: "awaits cfg inp (Suc m) c g ls" "int (Suc m) \<le> 2 ^ 53"
    and un: "\<not> is_authenticated c"
    and tok: "tk_resolve (gd_tokens deps) (ge_now (li_env inp)) (trim token) (gw_tokens g) = Ok None" "trim token \<noteq> []"
    and fits: "in_fits (gd_prost deps) (frame_limit cfg) (InBind (BindRequest token))"
      "out_fits (gd_prost deps) (frame_limit cfg) (bind_rejected txt_token_invalid)"
  shows "\<exists>ls' gate. quickstart_bind L dbg (gd_prost deps) token (out, served_link (inp # rest) ls) =
      (Ok (), (out @ [BindLine False None], served_link rest ls')) \<and>
    bucket_ready m (lp_bucket ls') \<and> lp_state ls' = (c, g\<lparr>gw_gate := gate\<rparr>) \<and> lp_admission ls' = lp_admission ls"
proof -
  let ?m = "InBind (BindRequest token)"
  have d: "Router_dispatch build_router (deps, li_env inp) ?m (c, g) = (Ok (Some (bind_rejected txt_token_invalid)), c, g)"
    using un tok by (simp add: handle_bind_def)
  have p: "passes_gate (deps, li_env inp) ?m (c, g)" using un by (simp add: passes_gate_def)
  from reply_step [OF L w fits p d refl refl, where out = out and rest = rest and
      k = "\<lambda>m st. case m of OutBindResult result \<Rightarrow> (Ok (), say (BindLine (bo_ok result) (bo_player_id result)) st)
           | other \<Rightarrow> (Err (pre_expected_bind @ dbg other), st)"] un
  show ?thesis unfolding quickstart_bind_def by (auto simp: bind_rejected_def say_def)
qed

text \<open>
  With a token the store does not know (mistyped, expired, or replaced by a later login) the client prints that it is not
  bound, goes on regardless, and ends with the error that it expected a profile and got the notice to bind first; by
  then the server has closed the connection.
\<close>

theorem quickstart_rejected:
  assumes L: "on_link L rnd cfg deps" and cfg: "visit_config cfg env"
    and i: "calm i1" "calm i2" "keeps_session (ce_out env) (ce_sink env) (li_others i1)"
      "keeps_session (ce_out env) (ce_sink env) (li_others i2)"
      "ge_now (li_env i1) < ad_deadline adm" "ge_now (li_env i2) < ad_deadline adm"
    and tok: "tk_resolve (gd_tokens deps) (ge_now (li_env i1)) (trim token) (gw_tokens g) = Ok None" "trim token \<noteq> []"
    and fits: "list_all (in_fits (gd_prost deps) (frame_limit cfg)) [InBind (BindRequest token), InGetProfile GetProfileRequest]"
      "list_all (out_fits (gd_prost deps) (frame_limit cfg)) [bind_rejected txt_token_invalid, bind_first_notice]"
    and args: "flag_value args (ascii ''--token'') [] = token"
      "flag_value args (ascii ''--server'') (ascii ''127.0.0.1:8080'') = server_addr"
    and dial: "quickstart_dial L server_addr (flag_value args (ascii ''--root-ca'') (ascii ''$(mkcert -CAROOT)/rootCA.pem'')) n =
      (Ok (), link_open rnd cfg env ip adm g (i1 # i2 # rest))"
  shows "\<exists>lk. quickstart_main L dbg (gd_prost deps) args n =
      (Err (pre_expected_profile @ dbg bind_first_notice), ([HandshakeLine server_addr, BindLine False None], lk)) \<and> \<not> lk_open lk"
proof -
  let ?P = "gd_prost deps" and ?ls = "open_connection rnd cfg env ip adm g"
  have f64: "f64_spec rnd" using L by (simp add: on_link_def)
  obtain c g0 where o: "lp_state ?ls = (c, g0)" "\<not> is_authenticated c" "cn_outbound c = ce_out env" "cn_room_tx c = ce_sink env"
    "gw_tokens g0 = gw_tokens g" "queue_idle (gw_queues g0 (cn_outbound c))" "sink_idle (sv_sinks (gw_rooms g0) (cn_room_tx c))"
    "lp_admission ?ls = adm" "bucket_ready (Suc 3) (lp_bucket ?ls)"
    by (rule opened_idle [OF cfg f64 refl]) (simp add: numeral_eq_Suc)
  have keep: "keeps_session (cn_outbound c) (cn_room_tx c) (li_others i1)" "keeps_session (cn_outbound c) (cn_room_tx c) (li_others i2)"
    using i(3,4) o(3,4) by simp_all
  have now: "ge_now (li_env i1) < ad_deadline (lp_admission ?ls)" using i(5) o(8) by simp
  note w = keeps_awaits [OF keep(1) i(1) o(1,6,7,2) now o(9)]
  let ?g = "li_others i1 g0" and ?o = "[HandshakeLine server_addr]"
  have un: "tk_resolve (gd_tokens deps) (ge_now (li_env i1)) (trim token) (gw_tokens ?g) = Ok None"
    using o(5) tok(1) keep(1) by (simp add: keeps_session_def)
  have n: "int (Suc 3) \<le> 2 ^ 53" "int (Suc 2) \<le> 2 ^ 53" by simp_all
  have f: "in_fits ?P (frame_limit cfg) (InBind (BindRequest token))" "out_fits ?P (frame_limit cfg) (bind_rejected txt_token_invalid)"
    "in_fits ?P (frame_limit cfg) (InGetProfile GetProfileRequest)" "out_fits ?P (frame_limit cfg) bind_first_notice"
    using fits by simp_all
  obtain ls t where b: "quickstart_bind L dbg ?P token (?o, served_link (i1 # i2 # rest) ?ls) =
      (Ok (), (?o @ [BindLine False None], served_link (i2 # rest) ls))"
    "bucket_ready (Suc 2) (lp_bucket ls)" "lp_state ls = (c, ?g\<lparr>gw_gate := t\<rparr>)" "lp_admission ls = adm"
    using step_bind_rejected [OF L w n(1) o(2) un tok(2) f(1,2), where out = ?o and rest = "i2 # rest" and dbg = dbg] o(8)
    by (auto simp: numeral_eq_Suc)
  have "queue_idle (gw_queues (?g\<lparr>gw_gate := t\<rparr>) (cn_outbound c))" "sink_idle (sv_sinks (gw_rooms (?g\<lparr>gw_gate := t\<rparr>)) (cn_room_tx c))"
    "ge_now (li_env i2) < ad_deadline (lp_admission ls)"
    using keep(1) o(6,7) i(6) b(4) by (simp_all add: keeps_session_def)
  note w2 = keeps_awaits [OF keep(2) i(2) b(3) this(1,2) o(2) this(3) b(2)]
  obtain lk where r: "quickstart_profile L dbg ?P (?o @ [BindLine False None], served_link (i2 # rest) ls) =
      (Err (pre_expected_profile @ dbg bind_first_notice), (?o @ [BindLine False None], lk))" "\<not> lk_open lk"
    using refuse_step [OF L w2 n(2) f(3,4) o(2), where out = "?o @ [BindLine False None]" and rest = rest and
        k = "\<lambda>m st. case m of OutProfile p \<Rightarrow> (Ok (), say (profile_line p) st)
           | other \<Rightarrow> (Err (pre_expected_profile @ dbg other), st)"]
    unfolding quickstart_profile_def by (auto simp: c2s_opcode_defs error_notification_def)
  have "token \<noteq> []" using tok(2) by (auto simp: string_eval)
  with args dial b(1) r show ?thesis
    by (simp add: quickstart_main_def Let_def on_net_def say_def link_open_def served_link_def)
qed

text \<open>Without a token the client does not even connect.\<close>

lemma quickstart_without_token:
  "flag_value args (ascii ''--token'') [] = [] \<Longrightarrow> quickstart_main L dbg P args n = (Err txt_token_flag_missing, ([], n))"
  by (simp add: quickstart_main_def)

end
