(* ===== verification/LX_TestKit.thy ===== *)
theory LX_TestKit
  imports LX_Values
begin

text \<open>
  The vocabulary of the unit tests, shared by the \<open>LX_Tests\<close> theories. A test is a proposition: it
  holds when none of its assertions fails and no \<^verbatim>\<open>unwrap\<close> panics. \<open>unwrap_as r P\<close> is \<^verbatim>\<open>let x = r.unwrap()\<close>
  followed by the rest \<open>P x\<close> of the test, \<open>some_as\<close> and \<open>err_as\<close> the same for an option and for \<^verbatim>\<open>unwrap_err\<close>.
\<close>

primrec unwrap_as :: "('a, 'e) result \<Rightarrow> ('a \<Rightarrow> bool) \<Rightarrow> bool" where
  "unwrap_as (Ok a) P = P a"
| "unwrap_as (Err e) P = False"

primrec err_as :: "('a, 'e) result \<Rightarrow> ('e \<Rightarrow> bool) \<Rightarrow> bool" where
  "err_as (Ok a) P = False"
| "err_as (Err e) P = P e"

primrec some_as :: "'a option \<Rightarrow> ('a \<Rightarrow> bool) \<Rightarrow> bool" where
  "some_as (Some a) P = P a"
| "some_as None P = False"

text \<open>\<^verbatim>\<open>str::repeat\<close>, \<^verbatim>\<open>str::starts_with\<close>, \<^verbatim>\<open>str::contains\<close>.\<close>

definition repeat_str :: "rstring \<Rightarrow> nat \<Rightarrow> rstring" where
  "repeat_str s n = concat (replicate n s)"

definition starts_with :: "rstring \<Rightarrow> rstring \<Rightarrow> bool" where
  "starts_with p s \<longleftrightarrow> take (length p) s = p"

definition contains_str :: "rstring \<Rightarrow> rstring \<Rightarrow> bool" where
  "contains_str p s \<longleftrightarrow> list_ex (\<lambda>n. starts_with p (drop n s)) [0..<Suc (length s)]"

text \<open>\<^verbatim>\<open>Uuid::get_version_num\<close>: the four bits from bit 76 on.\<close>

definition get_version_num :: "uuid \<Rightarrow> nat" where
  "get_version_num u = unat (take_bit 4 (drop_bit 76 u))"

text \<open>Lengths of time in nanoseconds.\<close>

definition seconds :: "int \<Rightarrow> duration" where
  "seconds n = n * 1000000000"

definition millis :: "int \<Rightarrow> duration" where
  "millis n = n * 1000000"

lemmas time_defs = seconds_def millis_def

lemma repeat_single [simp]: "repeat_str [c] n = replicate n c"
  by (induction n) (simp_all add: repeat_str_def)

lemma trim_replicate [simp]: "\<not> is_whitespace c \<Longrightarrow> trim (replicate n c) = replicate n c"
  by (induction n) (auto simp: trim_def trim_start_def trim_end_def dropWhile_append replicate_append_same [symmetric])

lemma str_len_replicate [simp]: "str_len (replicate n c) = n * len_utf8 c"
  by (induction n) simp_all

lemma list_ex_replicate [simp]: "list_ex P (replicate n c) \<longleftrightarrow> n \<noteq> 0 \<and> P c"
  by (induction n) auto

lemma contains_strI: "contains_str p (a @ p @ b)"
proof -
  have "starts_with p (drop (length a) (a @ p @ b))" by (simp add: starts_with_def)
  moreover have "length a \<in> set [0..<Suc (length (a @ p @ b))]" by simp
  ultimately show ?thesis unfolding contains_str_def list_ex_iff by blast
qed

lemma contains_str_set:
  assumes "contains_str p s"
  shows "set p \<subseteq> set s"
proof -
  obtain n where "take (length p) (drop n s) = p"
    using assms by (auto simp: contains_str_def list_ex_iff starts_with_def)
  then show ?thesis by (metis order_trans set_drop_subset set_take_subset)
qed

lemmas test_eval = string_eval is_err_def sum_list_replicate starts_with_def contains_str_def

text \<open>A version-7 identifier exists, so the hypotheses on drawn identifiers can be met.\<close>

lemma version_seven: "get_version_num (0x7 * 2 ^ 76) = 7"
  by code_simp

end
