(* ===== verification/LX_TestsDomain.thy ===== *)
theory LX_TestsDomain
  imports LX_TestKit LX_Account LX_Player LX_Session LX_Room LX_AppError
begin

text \<open>
  The unit tests of \<^verbatim>\<open>crates/domain\<close> as statements about the model: one definition per test, with the
  sequence of calls and the assertions of the source. What a test draws from its surroundings (the
  clock and fresh identifiers) is an argument, and each test is proved for every such draw. The
  lemmas tie the model to the expectations of the code's authors; a test that asks for the version of
  an identifier takes the version of the drawn one as its hypothesis.
\<close>

section \<open>shared/value.rs\<close>

definition username_accepts_valid_and_normalizes_case :: bool where
  "username_accepts_valid_and_normalizes_case \<longleftrightarrow>
     unwrap_as (Username_try_new (ascii ''  Tom_01 '')) (\<lambda>name. Username_as_str name = (ascii ''tom_01''))"

definition username_rejects_bad_length_and_charset :: bool where
  "username_rejects_bad_length_and_charset \<longleftrightarrow>
     is_err (Username_try_new (ascii ''ab'')) \<and>
     is_err (Username_try_new (repeat_str (ascii ''a'') 33)) \<and>
     is_err (Username_try_new (ascii ''bad name!'')) \<and>
     err_as (Username_try_new (ascii ''bad name!'')) (\<lambda>e. case e of InvalidValue field reason \<Rightarrow> field = (ascii ''username'') | _ \<Rightarrow> False)"

definition nickname_counts_unicode_chars_and_rejects_control :: bool where
  "nickname_counts_unicode_chars_and_rejects_control \<longleftrightarrow>
     is_ok (Nickname_try_new [0x73A9, 0x5BB6, 0x4E00, 0x53F7]) \<and>
     is_err (Nickname_try_new (ascii ''  '')) \<and>
     is_err (Nickname_try_new (repeat_str [0x957F] 33)) \<and>
     is_err (Nickname_try_new ((ascii ''bad'') @ [0x0A] @ (ascii ''name'')))"

definition password_length_boundary_and_masking :: bool where
  "password_length_boundary_and_masking \<longleftrightarrow>
     is_ok (PlainPassword_try_new (repeat_str (ascii ''p'') 8)) \<and>
     is_err (PlainPassword_try_new (repeat_str (ascii ''p'') 7)) \<and>
     is_err (PlainPassword_try_new (repeat_str (ascii ''p'') 129)) \<and>
     is_err (PlainPassword_try_new ((ascii ''pass'') @ [0x0D] @ (ascii ''word''))) \<and>
     unwrap_as (PlainPassword_try_new (ascii ''secret-pw'')) (\<lambda>pwd.
       PlainPassword_debug pwd = (ascii ''PlainPassword(***)'') \<and> PlainPassword_display pwd = (ascii ''***'') \<and>
       PlainPassword_expose pwd = (ascii ''secret-pw''))"

definition password_hash_is_masked_in_logs :: bool where
  "password_hash_is_masked_in_logs \<longleftrightarrow>
     (let hash = PasswordHash_new (ascii ''$argon2id$v=19$secret'') in
      PasswordHash_debug hash = (ascii ''PasswordHash(***)'') \<and>
      starts_with (ascii ''$argon2id'') (PasswordHash_expose hash))"

lemmas value_test_defs = username_accepts_valid_and_normalizes_case_def username_rejects_bad_length_and_charset_def
  nickname_counts_unicode_chars_and_rejects_control_def password_length_boundary_and_masking_def
  password_hash_is_masked_in_logs_def
  Username_try_new_def Nickname_try_new_def PlainPassword_try_new_def PlainPassword_debug_def PlainPassword_display_def
  PasswordHash_new_def PasswordHash_debug_def

lemma value_tests:
  "username_accepts_valid_and_normalizes_case" "username_rejects_bad_length_and_charset"
  "nickname_counts_unicode_chars_and_rejects_control" "password_length_boundary_and_masking"
  "password_hash_is_masked_in_logs"
  by (simp_all add: value_test_defs is_username_char_def test_eval Let_def)

section \<open>shared/error.rs\<close>

definition domain_error_messages_are_human_readable :: "(uuid \<Rightarrow> rstring) \<Rightarrow> uuid \<Rightarrow> bool" where
  "domain_error_messages_are_human_readable show_uuid id' \<longleftrightarrow>
     DomainError_display show_uuid (RoomFull (RoomId id')) = ([0x623F, 0x95F4] @ ascii '' '') @ show_uuid id' @ (ascii '' '' @ [0x5DF2, 0x6EE1]) \<and>
     RepoError_display (RepoStorage (ascii ''db down'')) = ([0x5B58, 0x50A8, 0x6545, 0x969C] @ ascii '': db down'')"

lemma domain_error_test: "domain_error_messages_are_human_readable show_uuid id'"
  by (simp add: domain_error_messages_are_human_readable_def pre_room_def suf_room_full_def pre_storage_def ascii_def)

section \<open>account/aggregate.rs\<close>

definition account_fixture :: "uuid \<Rightarrow> datetime \<Rightarrow> (account, domain_error) result" where
  "account_fixture fresh now =
     and_then (Username_try_new (ascii ''alice'')) (\<lambda>name. Ok (Account_register fresh name (PasswordHash_new (ascii ''hash'')) now))"

definition register_creates_active_account_with_v7_id :: "uuid \<Rightarrow> datetime \<Rightarrow> bool" where
  "register_creates_active_account_with_v7_id fresh now \<longleftrightarrow>
     unwrap_as (account_fixture fresh now) (\<lambda>account.
       acc_status account = Active \<and> get_version_num (account_uuid (acc_id account)) = 7)"

definition banned_until_expiry_restores_login :: "datetime \<Rightarrow> bool" where
  "banned_until_expiry_restores_login now \<longleftrightarrow>
     (let expired = now - seconds 3600; future = now + seconds 3600 in
      allows_login Active now \<and>
      \<not> allows_login Suspended now \<and>
      \<not> allows_login (Banned [0x4F5C, 0x5F0A] (Some future)) now \<and>
      allows_login (Banned [0x4F5C, 0x5F0A] (Some expired)) now \<and>
      \<not> allows_login (Banned [0x6C38, 0x4E45] None) now)"

definition status_codes_and_lifecycle :: "uuid \<Rightarrow> datetime \<Rightarrow> bool" where
  "status_codes_and_lifecycle fresh now \<longleftrightarrow>
     unwrap_as (account_fixture fresh now) (\<lambda>account.
       let banned = Account_ban [0x5916, 0x6302] None account;
           active = Account_activate banned;
           suspended = Account_suspend active
       in status_code (acc_status account) = 0 \<and> status_code (acc_status banned) = 2 \<and>
          status_code (acc_status active) = 0 \<and> status_code (acc_status suspended) = 1)"

lemma account_fixture_eq: "account_fixture fresh now = Ok (Account_register fresh (Username (ascii ''alice'')) (PasswordHash (ascii ''hash'')) now)"
  by (simp add: account_fixture_def PasswordHash_new_def Username_try_new_def is_username_char_def string_eval)

lemma account_tests:
  "get_version_num fresh = 7 \<Longrightarrow> register_creates_active_account_with_v7_id fresh now"
  "banned_until_expiry_restores_login now"
  "status_codes_and_lifecycle fresh now"
  by (simp_all add: register_creates_active_account_with_v7_id_def banned_until_expiry_restores_login_def time_defs
      status_codes_and_lifecycle_def account_fixture_eq account_op_defs Let_def)

section \<open>player/aggregate.rs\<close>

definition player_fixture :: "uuid \<Rightarrow> uuid \<Rightarrow> datetime \<Rightarrow> (player, domain_error) result" where
  "player_fixture fa fp now =
     and_then (Nickname_try_new [0x52C7, 0x8005]) (\<lambda>nick. Ok (Player_create fp (AccountId fa) nick now))"

definition create_starts_at_level_one :: "uuid \<Rightarrow> uuid \<Rightarrow> datetime \<Rightarrow> bool" where
  "create_starts_at_level_one fa fp now \<longleftrightarrow>
     unwrap_as (player_fixture fa fp now) (\<lambda>player.
       pl_level player = 1 \<and> pl_exp player = 0 \<and> pl_last_login_at player = None \<and>
       get_version_num (player_uuid (pl_id player)) = 7 \<and> pl_account_id player = pl_account_id player)"

definition gain_exp_levels_up_exactly_at_threshold :: "uuid \<Rightarrow> uuid \<Rightarrow> datetime \<Rightarrow> bool" where
  "gain_exp_levels_up_exactly_at_threshold fa fp now \<longleftrightarrow>
     unwrap_as (player_fixture fa fp now) (\<lambda>player.
       let (player1, up1) = Player_gain_exp 99 player; (player2, up2) = Player_gain_exp 1 player1
       in up1 = None \<and> pl_level player1 = 1 \<and> pl_exp player1 = 99 \<and>
          up2 = Some 2 \<and> pl_level player2 = 2 \<and> pl_exp player2 = 0)"

definition gain_exp_can_skip_multiple_levels :: "uuid \<Rightarrow> uuid \<Rightarrow> datetime \<Rightarrow> bool" where
  "gain_exp_can_skip_multiple_levels fa fp now \<longleftrightarrow>
     unwrap_as (player_fixture fa fp now) (\<lambda>player.
       let (player, up) = Player_gain_exp 600 player
       in up = Some 4 \<and> pl_level player = 4 \<and> pl_exp player = 0)"

definition gain_exp_saturates_at_max_level :: "uuid \<Rightarrow> uuid \<Rightarrow> datetime \<Rightarrow> bool" where
  "gain_exp_saturates_at_max_level fa fp now \<longleftrightarrow>
     unwrap_as (player_fixture fa fp now) (\<lambda>player.
       let (player1, up1) = Player_gain_exp (- 1) player; (player2, up2) = Player_gain_exp (- 1) player1
       in up1 = Some MAX_LEVEL \<and> pl_level player1 = MAX_LEVEL \<and> up2 = None \<and> pl_level player2 = MAX_LEVEL)"

definition record_login_updates_last_login :: "uuid \<Rightarrow> uuid \<Rightarrow> datetime \<Rightarrow> datetime \<Rightarrow> bool" where
  "record_login_updates_last_login fa fp now login_at \<longleftrightarrow>
     unwrap_as (player_fixture fa fp now) (\<lambda>player.
       pl_last_login_at (Player_record_login login_at player) = Some login_at)"

lemma player_fixture_eq: "player_fixture fa fp now = Ok (Player_create fp (AccountId fa) (Nickname [0x52C7, 0x8005]) now)"
  by (simp add: player_fixture_def Nickname_try_new_def string_eval)

text \<open>The loop is determined by the experience curve, which gives its value on the amounts of the tests.\<close>

lemma gain_exp_loop_run:
  assumes "unat e = unat e' + level_cost (unat l) (unat l')" and "settled (unat l') (unat e')"
    and "unat l \<le> unat l'" and "unat l' \<le> 999"
  shows "gain_exp_loop l e up = (l', e', if l' = l then up else Some l')"
proof -
  obtain m d up' where run: "gain_exp_loop l e up = (m, d, up')" by (rule prod_cases3)
  have cap: "l \<le> MAX_LEVEL" using assms(3,4) by (simp add: MAX_LEVEL_def word_le_nat_alt)
  note spec = gain_exp_loop_spec [OF run]
  have "unat m \<le> 999" using spec cap by (simp add: MAX_LEVEL_def word_le_nat_alt)
  then have "unat m = unat l' \<and> unat d = unat e'"
    using spec assms by (intro settled_unique [of _ "unat l"]) auto
  then show ?thesis using run spec by (simp add: word_unat_eq_iff)
qed

lemma gain_exp_runs:
  "gain_exp_loop 1 (saturating_add 0 99) None = (1, 99, None)" "gain_exp_loop 1 (saturating_add 99 1) None = (2, 0, Some 2)"
  "gain_exp_loop 1 (saturating_add 0 600) None = (4, 0, Some 4)"
  using gain_exp_loop_run [of 99 99 1 1 None] gain_exp_loop_run [of 100 0 1 2 None] gain_exp_loop_run [of 600 0 1 4 None]
  by (simp_all add: settled_def saturating_add_def level_cost_def sum_distrib_left [symmetric] Sum_Ico_nat)

lemma gain_exp_all: "\<exists>e. gain_exp_loop 1 (saturating_add 0 (- 1)) None = (MAX_LEVEL, e, Some MAX_LEVEL)"
proof -
  have c: "level_cost 1 999 = 49850100"
    by (simp add: level_cost_def sum_distrib_left [symmetric] Sum_Ico_nat)
  have "gain_exp_loop 1 (saturating_add 0 (- 1)) None = (999, - 1 - 49850100, if (999 :: u32) = 1 then None else Some 999)"
    by (rule gain_exp_loop_run) (simp_all add: c [simplified] settled_def saturating_add_def unat_minus_one_max)
  then show ?thesis by (simp add: MAX_LEVEL_def)
qed

lemma gain_exp_top: "gain_exp_loop MAX_LEVEL e up = (MAX_LEVEL, e, up)"
  by (simp add: gain_exp_loop.simps)

lemma gain_exp_saturates_test: "gain_exp_saturates_at_max_level fa fp now"
proof -
  obtain e where "gain_exp_loop 1 (saturating_add 0 (- 1)) None = (MAX_LEVEL, e, Some MAX_LEVEL)"
    using gain_exp_all by blast
  then show ?thesis
    by (simp add: gain_exp_saturates_at_max_level_def player_fixture_eq Player_create_def Player_gain_exp_def gain_exp_top)
qed

lemma player_tests:
  "get_version_num fp = 7 \<Longrightarrow> create_starts_at_level_one fa fp now"
  "gain_exp_levels_up_exactly_at_threshold fa fp now"
  "gain_exp_can_skip_multiple_levels fa fp now"
  "record_login_updates_last_login fa fp now login_at"
  by (simp_all add: create_starts_at_level_one_def gain_exp_levels_up_exactly_at_threshold_def
      gain_exp_can_skip_multiple_levels_def record_login_updates_last_login_def
      player_fixture_eq player_op_defs Player_gain_exp_def gain_exp_runs)

section \<open>room/aggregate.rs\<close>

definition open_clamps_capacity_and_starts_waiting :: "uuid \<Rightarrow> uuid \<Rightarrow> datetime \<Rightarrow> bool" where
  "open_clamps_capacity_and_starts_waiting fresh fresh' now \<longleftrightarrow>
     (let small = Room_open fresh 0 now in
      rm_max_players small = 1 \<and> rm_state small = Waiting \<and>
      rm_max_players (Room_open fresh' 8192 now) = 8192 \<and>
      get_version_num (room_uuid (rm_id small)) = 7)"

definition join_is_idempotent_and_enforces_capacity :: "uuid \<Rightarrow> uuid \<Rightarrow> uuid \<Rightarrow> uuid \<Rightarrow> datetime \<Rightarrow> bool" where
  "join_is_idempotent_and_enforces_capacity fresh u1 u2 u3 now \<longleftrightarrow>
     (let r = Room_open fresh 2 now; p1 = PlayerId u1; p2 = PlayerId u2; p3 = PlayerId u3;
          (j1, r) = Room_try_join p1 r;
          (j2, r) = Room_try_join p1 r;
          (j3, r) = Room_try_join p2 r;
          (j4, r) = Room_try_join p3 r
      in j1 = Ok True \<and> j2 = Ok False \<and> j3 = Ok True \<and>
         err_as j4 (\<lambda>e. case e of RoomFull _ \<Rightarrow> True | _ \<Rightarrow> False) \<and>
         Room_member_count r = 2 \<and> Room_is_full r)"

definition leave_only_removes_members :: "uuid \<Rightarrow> uuid \<Rightarrow> uuid \<Rightarrow> datetime \<Rightarrow> bool" where
  "leave_only_removes_members fresh u1 u2 now \<longleftrightarrow>
     (let r = Room_open fresh 2 now; p1 = PlayerId u1; outsider = PlayerId u2;
          (j1, r) = Room_try_join p1 r;
          (l1, r) = Room_try_leave p1 r;
          (l2, r) = Room_try_leave p1 r;
          (l3, r) = Room_try_leave outsider r
      in is_ok j1 \<and> l1 = Ok True \<and> l2 = Ok False \<and> l3 = Ok False \<and> Room_member_count r = 0)"

definition closed_room_rejects_join_and_leave :: "uuid \<Rightarrow> uuid \<Rightarrow> datetime \<Rightarrow> bool" where
  "closed_room_rejects_join_and_leave fresh u now \<longleftrightarrow>
     (let r = Room_open fresh 2 now; p = PlayerId u;
          (_, r) = Room_close r;
          (j, r) = Room_try_join p r;
          (l, r) = Room_try_leave p r;
          (c, r) = Room_close r
      in err_as j (\<lambda>e. case e of RoomClosed _ \<Rightarrow> True | _ \<Rightarrow> False) \<and>
         err_as l (\<lambda>e. case e of RoomClosed _ \<Rightarrow> True | _ \<Rightarrow> False) \<and> \<not> c)"

definition state_machine_allows_only_forward_transitions :: "uuid \<Rightarrow> datetime \<Rightarrow> bool" where
  "state_machine_allows_only_forward_transitions fresh now \<longleftrightarrow>
     (let r = Room_open fresh 2 now;
          (t1, r) = Room_transition_to Settling r;
          (t2, r) = Room_transition_to InProgress r;
          (t3, r) = Room_transition_to Settling r;
          (t4, r) = Room_transition_to Closed r;
          (t5, r') = Room_transition_to Waiting r
      in err_as t1 (\<lambda>e. case e of IllegalTransition src dst \<Rightarrow> src = (ascii ''Waiting'') \<and> dst = (ascii ''Settling'') | _ \<Rightarrow> False) \<and>
         is_ok t2 \<and> is_ok t3 \<and> is_ok t4 \<and> rm_state r = Closed \<and>
         err_as t5 (\<lambda>e. case e of IllegalTransition _ _ \<Rightarrow> True | _ \<Rightarrow> False))"

lemma room_tests:
  "get_version_num fresh = 7 \<Longrightarrow> open_clamps_capacity_and_starts_waiting fresh fresh' now"
  "distinct [u1, u2, u3] \<Longrightarrow> join_is_idempotent_and_enforces_capacity fresh u1 u2 u3 now"
  "leave_only_removes_members fresh u1 u2 now"
  "closed_room_rejects_join_and_leave fresh u1 now"
  "state_machine_allows_only_forward_transitions fresh now"
  by (simp_all add: open_clamps_capacity_and_starts_waiting_def join_is_idempotent_and_enforces_capacity_def
      leave_only_removes_members_def closed_room_rejects_join_and_leave_def state_machine_allows_only_forward_transitions_def
      room_query_defs room_op_defs transition_allowed_def max_def word_le_nat_alt Let_def) auto

section \<open>session/aggregate.rs\<close>

definition new_session_is_unauthenticated :: "uuid \<Rightarrow> datetime \<Rightarrow> bool" where
  "new_session_is_unauthenticated fresh now \<longleftrightarrow>
     (let session = Session_new fresh now in
      \<not> Session_is_authenticated session \<and> se_player_id session = None \<and> se_connected_at session = now \<and>
      (case se_id session of SessionId u \<Rightarrow> get_version_num u = 7))"

definition bind_player_authenticates_and_touches :: "uuid \<Rightarrow> uuid \<Rightarrow> datetime \<Rightarrow> bool" where
  "bind_player_authenticates_and_touches fresh u now \<longleftrightarrow>
     (let player = PlayerId u; session = Session_bind_player player now (Session_new fresh now) in
      Session_is_authenticated session \<and> se_player_id session = Some player \<and> se_last_heartbeat_at session = now)"

definition heartbeat_expiry_respects_threshold :: "uuid \<Rightarrow> datetime \<Rightarrow> bool" where
  "heartbeat_expiry_respects_threshold fresh now \<longleftrightarrow>
     (let session = Session_new fresh now; timeout = seconds 60;
          touched = Session_touch_heartbeat (now + seconds 30) session
      in \<not> Session_is_heartbeat_expired session now timeout \<and>
         \<not> Session_is_heartbeat_expired touched (now + seconds 60) timeout \<and>
         Session_is_heartbeat_expired touched (now + seconds 91) timeout)"

lemma session_tests:
  "get_version_num fresh = 7 \<Longrightarrow> new_session_is_unauthenticated fresh now"
  "bind_player_authenticates_and_touches fresh u now"
  "heartbeat_expiry_respects_threshold fresh now"
  by (simp_all add: new_session_is_unauthenticated_def bind_player_authenticates_and_touches_def
      heartbeat_expiry_respects_threshold_def session_op_defs time_defs)

section \<open>events.rs\<close>

definition events_expose_occurrence_time :: "uuid \<Rightarrow> uuid \<Rightarrow> datetime \<Rightarrow> bool" where
  "events_expose_occurrence_time up ur now \<longleftrightarrow>
     (let player = PlayerId up; room = RoomId ur;
          event = PlayerLeveledUp player 2 now; closed = RoomClosedEvent room [0x505C, 0x673A] now
      in occurred_at event = now \<and> occurred_at closed = now)"

lemma event_test: "events_expose_occurrence_time up ur now"
  by (simp add: events_expose_occurrence_time_def)

end
