(* ===== verification/LX_Fakes.thy ===== *)
theory LX_Fakes
  imports LX_Auth LX_Utf8
begin

unbundle bit_operations_syntax

text \<open>
  \<^verbatim>\<open>crates/application/src/fakes.rs\<close>: the test doubles of the application layer. The unit tests of
  the use cases run against them, so what the tests show depends on the doubles keeping the
  contracts of the ports: this theory interprets \<open>user_store\<close>, \<open>session_token_store\<close> and
  \<open>auth_backend\<close> on them. A \<^verbatim>\<open>unwrap\<close> that panics is \<open>None\<close>; \<open>show_uuid\<close> is the printer of
  the uuid crate, and the uuid that \<^verbatim>\<open>Uuid::now_v7\<close> draws is given by its bytes.
\<close>

definition VALID_PASSWORD :: rstring where
  "VALID_PASSWORD = ascii ''super-secret''"

section \<open>Identifiers\<close>

text \<open>The loop of the FNV hash, over \<^verbatim>\<open>u64\<close> with wrapping multiplication.\<close>

primrec fnv_loop :: "u8 list \<Rightarrow> u64 \<Rightarrow> u64" where
  "fnv_loop [] hash = hash"
| "fnv_loop (b # bs) hash = fnv_loop bs ((hash XOR ucast b) * 0x100000001b3)"

definition fnv :: "u8 list \<Rightarrow> u64 \<Rightarrow> u64" where
  "fnv bytes seed = fnv_loop bytes (0xcbf29ce484222325 XOR seed)"

text \<open>The 16 bytes hold the two hashes in big-endian order.\<close>

definition deterministic_account_id :: "rstring \<Rightarrow> account_id" where
  "deterministic_account_id name =
     AccountId (push_bit 64 (ucast (fnv (as_bytes name) 0x015f)) OR ucast (fnv (as_bytes name) 0x9e37))"

section \<open>Hashers\<close>

definition FakeHasher_hash :: "rstring \<Rightarrow> (rstring, app_error) result" where
  "FakeHasher_hash password = Ok (ascii ''fake$$$'' @ password)"

definition FakeHasher_verify :: "rstring \<Rightarrow> rstring \<Rightarrow> (bool, app_error) result" where
  "FakeHasher_verify password hash = Ok (hash = ascii ''fake$$$'' @ password)"

definition FakeHasher :: password_hasher where
  "FakeHasher = \<lparr>ph_hash = FakeHasher_hash, ph_verify = FakeHasher_verify\<rparr>"

definition FailingHasher_hash :: "rstring \<Rightarrow> (rstring, app_error) result" where
  "FailingHasher_hash password = Err (Internal (ascii ''hasher unavailable''))"

definition FailingHasher_verify :: "rstring \<Rightarrow> rstring \<Rightarrow> (bool, app_error) result" where
  "FailingHasher_verify password hash = Err (Internal (ascii ''hasher unavailable''))"

definition FailingHasher :: password_hasher where
  "FailingHasher = \<lparr>ph_hash = FailingHasher_hash, ph_verify = FailingHasher_verify\<rparr>"

section \<open>Accounts and players\<close>

text \<open>The two repositories hang together through \<^verbatim>\<open>FakeRegistration\<close>, which locks both.\<close>

record fake_store =
  fs_accounts :: "(rstring, account) hmap"
  fs_players :: "(uuid, player) hmap"

definition fake_store_new :: fake_store where
  "fake_store_new = \<lparr>fs_accounts = [], fs_players = []\<rparr>"

definition FakeAccounts_with_status :: "datetime \<Rightarrow> rstring \<Rightarrow> account_status \<Rightarrow> (rstring, account) hmap option" where
  "FakeAccounts_with_status now username status =
     (case Username_try_new username of
        Err e \<Rightarrow> None
      | Ok name \<Rightarrow>
          (let account = Account_reconstitute (deterministic_account_id username) name
                 (PasswordHash_new (ascii ''fake$$$'' @ VALID_PASSWORD)) Active now;
               account' = (case status of
                   Active \<Rightarrow> account
                 | Suspended \<Rightarrow> Account_suspend account
                 | Banned reason until \<Rightarrow> Account_ban reason until account)
           in Some [(username, account')]))"

definition FakeAccounts_len :: "fake_store \<Rightarrow> nat" where
  "FakeAccounts_len s = length (fs_accounts s)"

definition FakeAccounts_find_by_id :: "account_id \<Rightarrow> fake_store \<Rightarrow> (account option, repo_error) result" where
  "FakeAccounts_find_by_id i s = Ok (hm_find (\<lambda>a. acc_id a = i) (fs_accounts s))"

definition FakeAccounts_find_by_username :: "rstring \<Rightarrow> fake_store \<Rightarrow> (account option, repo_error) result" where
  "FakeAccounts_find_by_username name s = Ok (hm_get (fs_accounts s) name)"

definition FakeAccounts_save :: "account \<Rightarrow> fake_store \<Rightarrow> (unit, repo_error) result \<times> fake_store" where
  "FakeAccounts_save a s =
     (Ok (), s\<lparr>fs_accounts := hm_insert (Username_as_str (acc_username a)) a (fs_accounts s)\<rparr>)"

definition FakePlayers_for_account :: "uuid \<Rightarrow> datetime \<Rightarrow> rstring \<Rightarrow> (uuid, player) hmap option" where
  "FakePlayers_for_account fresh now username =
     (case Nickname_try_new (pre_fake_nickname @ username) of
        Err e \<Rightarrow> None
      | Ok nick \<Rightarrow>
          (let player = Player_create fresh (deterministic_account_id username) nick now
           in Some [(player_uuid (pl_id player), player)]))"

definition FakePlayers_gain_exp ::
  "player_id \<Rightarrow> u64 \<Rightarrow> fake_store \<Rightarrow> ((player \<times> u32 option) option, repo_error) result \<times> fake_store" where
  "FakePlayers_gain_exp i amount s =
     (case hm_get (fs_players s) (player_uuid i) of
        None \<Rightarrow> (Ok None, s)
      | Some p \<Rightarrow>
          (let (p', level) = Player_gain_exp amount p
           in (Ok (Some (p', level)), s\<lparr>fs_players := hm_insert (player_uuid i) p' (fs_players s)\<rparr>)))"

definition FakePlayers_record_login ::
  "player_id \<Rightarrow> datetime \<Rightarrow> fake_store \<Rightarrow> (player option, repo_error) result \<times> fake_store" where
  "FakePlayers_record_login i at s =
     (case hm_get (fs_players s) (player_uuid i) of
        None \<Rightarrow> (Ok None, s)
      | Some p \<Rightarrow>
          (let p' = Player_record_login at p
           in (Ok (Some p'), s\<lparr>fs_players := hm_insert (player_uuid i) p' (fs_players s)\<rparr>)))"

definition FakePlayers_find_by_id :: "player_id \<Rightarrow> fake_store \<Rightarrow> (player option, repo_error) result" where
  "FakePlayers_find_by_id i s = Ok (hm_get (fs_players s) (player_uuid i))"

definition FakePlayers_find_by_account :: "account_id \<Rightarrow> fake_store \<Rightarrow> (player option, repo_error) result" where
  "FakePlayers_find_by_account i s = Ok (hm_find (\<lambda>p. pl_account_id p = i) (fs_players s))"

definition FakePlayers_save :: "player \<Rightarrow> fake_store \<Rightarrow> (unit, repo_error) result \<times> fake_store" where
  "FakePlayers_save p s = (Ok (), s\<lparr>fs_players := hm_insert (player_uuid (pl_id p)) p (fs_players s)\<rparr>)"

definition FakeRegistration_register ::
  "account \<Rightarrow> player \<Rightarrow> fake_store \<Rightarrow> (unit, app_error) result \<times> fake_store" where
  "FakeRegistration_register a p s =
     (if hm_contains (fs_accounts s) (Username_as_str (acc_username a))
      then (Err (Conflict msg_username_taken), s)
      else (Ok (), s\<lparr>fs_accounts := hm_insert (Username_as_str (acc_username a)) a (fs_accounts s),
                      fs_players := hm_insert (player_uuid (pl_id p)) p (fs_players s)\<rparr>))"

definition FakeAccounts :: "fake_store account_repository" where
  "FakeAccounts =
     \<lparr>ar_find_by_id = FakeAccounts_find_by_id, ar_find_by_username = FakeAccounts_find_by_username,
      ar_save = FakeAccounts_save\<rparr>"

definition FakePlayers :: "fake_store player_repository" where
  "FakePlayers =
     \<lparr>pr_find_by_id = FakePlayers_find_by_id, pr_find_by_account = FakePlayers_find_by_account,
      pr_save = FakePlayers_save, pr_gain_exp = FakePlayers_gain_exp, pr_record_login = FakePlayers_record_login\<rparr>"

definition FakeRegistration :: "fake_store registration_store" where
  "FakeRegistration = \<lparr>rs_register = FakeRegistration_register\<rparr>"

section \<open>Tokens\<close>

text \<open>An entry is the player, the time of issue and the time to live.\<close>

record fake_token_state =
  ft_by_token :: "(player_id \<times> instant \<times> duration) token_index"
  ft_by_player :: player_index
  ft_revoked :: "player_id list"

definition FakeTokens_new :: fake_token_state where
  "FakeTokens_new = \<lparr>ft_by_token = [], ft_by_player = [], ft_revoked = []\<rparr>"

definition or_default :: "player_id \<Rightarrow> player_index \<Rightarrow> rstring list" where
  "or_default p ix = (case hm_get ix p of None \<Rightarrow> [] | Some ts \<Rightarrow> ts)"

definition FakeTokens_seed :: "(uuid \<Rightarrow> rstring) \<Rightarrow> instant \<Rightarrow> player_id \<Rightarrow> fake_token_state \<Rightarrow> fake_token_state" where
  "FakeTokens_seed show_uuid now p s =
     (let token = ascii ''seeded-'' @ show_uuid (player_uuid p)
      in s\<lparr>ft_by_token := hm_insert token (p, now, 60 * 1000000000) (ft_by_token s),
           ft_by_player := hm_insert p (or_default p (ft_by_player s) @ [token]) (ft_by_player s)\<rparr>)"

definition FakeTokens_issued :: "fake_token_state \<Rightarrow> rstring list" where
  "FakeTokens_issued s = hm_keys (ft_by_token s)"

definition FakeTokens_revoked_players :: "fake_token_state \<Rightarrow> player_id list" where
  "FakeTokens_revoked_players s = ft_revoked s"

definition fake_token :: "(uuid \<Rightarrow> rstring) \<Rightarrow> u8 list \<Rightarrow> rstring" where
  "fake_token show_uuid bytes = ascii ''token-'' @ show_uuid (word_rcat bytes)"

definition FakeTokens_create ::
  "(uuid \<Rightarrow> rstring) \<Rightarrow> u8 list \<Rightarrow> instant \<Rightarrow> player_id \<Rightarrow> duration \<Rightarrow> fake_token_state
     \<Rightarrow> (rstring, app_error) result \<times> fake_token_state" where
  "FakeTokens_create show_uuid bytes now p ttl s =
     (let token = fake_token show_uuid bytes;
          s1 = (case hm_get (ft_by_player s) p of
                  None \<Rightarrow> s
                | Some tokens \<Rightarrow> s\<lparr>ft_by_player := hm_remove p (ft_by_player s),
                                   ft_by_token := fold hm_remove tokens (ft_by_token s)\<rparr>);
          s2 = s1\<lparr>ft_revoked := ft_revoked s1 @ [p]\<rparr>;
          s3 = s2\<lparr>ft_by_token := hm_insert token (p, now, ttl) (ft_by_token s2)\<rparr>
      in (Ok token, s3\<lparr>ft_by_player := hm_insert p (or_default p (ft_by_player s3) @ [token]) (ft_by_player s3)\<rparr>))"

text \<open>\<^verbatim>\<open>Instant::elapsed\<close> is never negative.\<close>

definition elapsed :: "instant \<Rightarrow> instant \<Rightarrow> duration" where
  "elapsed issued now = max 0 (now - issued)"

definition FakeTokens_resolve ::
  "instant \<Rightarrow> rstring \<Rightarrow> fake_token_state \<Rightarrow> (player_id option, app_error) result" where
  "FakeTokens_resolve now token s =
     Ok (case hm_get (ft_by_token s) token of
           None \<Rightarrow> None
         | Some (player, issued, ttl) \<Rightarrow> if elapsed issued now \<le> ttl then Some player else None)"

definition FakeTokens_revoke_player ::
  "player_id \<Rightarrow> fake_token_state \<Rightarrow> (unit, app_error) result \<times> fake_token_state" where
  "FakeTokens_revoke_player p s =
     (let s1 = (case hm_get (ft_by_player s) p of
                  None \<Rightarrow> s
                | Some tokens \<Rightarrow> s\<lparr>ft_by_player := hm_remove p (ft_by_player s),
                                   ft_by_token := fold hm_remove tokens (ft_by_token s)\<rparr>)
      in (Ok (), s1\<lparr>ft_revoked := ft_revoked s1 @ [p]\<rparr>))"

definition FakeTokens :: "(uuid \<Rightarrow> rstring) \<Rightarrow> fake_token_state token_store" where
  "FakeTokens show_uuid =
     \<lparr>tk_create = FakeTokens_create show_uuid, tk_resolve = FakeTokens_resolve,
      tk_revoke_player = FakeTokens_revoke_player\<rparr>"

section \<open>Audit\<close>

record fake_audit =
  fa_count :: usize
  fa_records :: "(player_id option \<times> rstring) list"

definition FakeAudit_record ::
  "player_id option \<Rightarrow> rstring \<Rightarrow> rstring \<Rightarrow> fake_audit \<Rightarrow> (unit, app_error) result \<times> fake_audit" where
  "FakeAudit_record p action detail l =
     (Ok (), l\<lparr>fa_count := fa_count l + 1, fa_records := fa_records l @ [(p, action @ ascii '':'' @ detail)]\<rparr>)"

definition FakeAudit :: "fake_audit audit_logger" where
  "FakeAudit = \<lparr>al_record = FakeAudit_record\<rparr>"

lemma FakeHasher_sound: "hasher_sound FakeHasher"
  by (simp add: hasher_sound_def FakeHasher_def FakeHasher_hash_def FakeHasher_verify_def)

section \<open>The token double keeps the contract of the token store\<close>

definition fake_token_inv :: "fake_token_state \<Rightarrow> bool" where
  "fake_token_inv s \<longleftrightarrow> index_inv fst (ft_by_token s) (ft_by_player s)"

definition fake_token_known :: "rstring \<Rightarrow> fake_token_state \<Rightarrow> bool" where
  "fake_token_known t s \<longleftrightarrow> index_known t (ft_by_token s) (ft_by_player s)"

lemma fake_tokens_new: "fake_token_inv FakeTokens_new" "\<not> fake_token_known t FakeTokens_new"
  by (simp_all add: fake_token_inv_def fake_token_known_def FakeTokens_new_def lx_inv index_known_def)

lemma fake_revoke:
  "FakeTokens_revoke_player p s =
     (Ok (), s\<lparr>ft_by_player := hm_remove p (ft_by_player s), ft_by_token := index_forget p (ft_by_token s) (ft_by_player s),
               ft_revoked := ft_revoked s @ [p]\<rparr>)"
  by (simp add: FakeTokens_revoke_player_def index_forget_def hm_remove_absent split: option.split)

lemma fake_create:
  "FakeTokens_create show_uuid bytes now p ttl s =
     (Ok (fake_token show_uuid bytes),
      s\<lparr>ft_by_player := hm_insert p [fake_token show_uuid bytes] (hm_remove p (ft_by_player s)),
        ft_by_token := hm_insert (fake_token show_uuid bytes) (p, now, ttl) (index_forget p (ft_by_token s) (ft_by_player s)),
        ft_revoked := ft_revoked s @ [p]\<rparr>)"
  by (simp add: FakeTokens_create_def index_forget_def hm_remove_absent or_default_def Let_def split: option.split)

interpretation fake_tokens: session_token_store
  "FakeTokens_create show_uuid" FakeTokens_resolve FakeTokens_revoke_player "fake_token show_uuid"
  fake_token_known fake_token_inv "\<lambda>now ttl at. elapsed now at \<le> ttl"
proof
  show "fake_token_inv s \<Longrightarrow> \<not> fake_token_known (fake_token show_uuid bytes) s \<Longrightarrow>
      fake_token_inv (snd (FakeTokens_create show_uuid bytes now p ttl s))" for s bytes now p ttl
    using index_issue_inv [of fst "ft_by_token s" "ft_by_player s" "fake_token show_uuid bytes" "(p, now, ttl)"]
    by (simp add: fake_token_inv_def fake_token_known_def fake_create)
  show "fake_token_inv s \<Longrightarrow> fake_token_inv (snd (FakeTokens_revoke_player p s))" for s p
    by (simp add: fake_token_inv_def fake_revoke index_forget_inv)
  show "fake_token_inv s \<Longrightarrow> FakeTokens_resolve at t (snd (FakeTokens_revoke_player p s)) =
      (if FakeTokens_resolve at t s = Ok (Some p) then Ok None else FakeTokens_resolve at t s)" for s at t p
    by (auto simp: fake_token_inv_def fake_revoke FakeTokens_resolve_def index_forget_get split: option.splits)
  show "fake_token_inv s \<Longrightarrow> \<not> fake_token_known (fake_token show_uuid bytes) s \<Longrightarrow>
      FakeTokens_create show_uuid bytes now p ttl s = (Ok t, s') \<Longrightarrow>
      FakeTokens_resolve at t' s' =
        (if t' = t then Ok (if elapsed now at \<le> ttl then Some p else None)
         else if FakeTokens_resolve at t' s = Ok (Some p) then Ok None
         else FakeTokens_resolve at t' s)" for s bytes now p ttl t s' at t'
    by (auto simp: fake_token_inv_def fake_create FakeTokens_resolve_def index_forget_get
        split: option.splits if_splits)
qed (auto simp: fake_create fake_revoke)

section \<open>The user doubles keep the contract of the user store\<close>

text \<open>
  The player double runs the same code as the in-memory player repository, on its own map:
  \<open>as_mem\<close> is the in-memory store with these players and no accounts.
\<close>

definition as_mem :: "fake_store \<Rightarrow> mem_store" where
  "as_mem s = \<lparr>ms_accounts = [], ms_players = fs_players s\<rparr>"

lemma fake_players_as_mem:
  "FakePlayers_find_by_id i s = InMemoryPlayer_find_by_id i (as_mem s)"
  "FakePlayers_find_by_account acc s = InMemoryPlayer_find_by_account acc (as_mem s)"
  "fst (FakePlayers_gain_exp i amount s) = fst (InMemoryPlayer_gain_exp i amount (as_mem s))"
  "as_mem (snd (FakePlayers_gain_exp i amount s)) = snd (InMemoryPlayer_gain_exp i amount (as_mem s))"
  "fst (FakePlayers_record_login i at s) = fst (InMemoryPlayer_record_login i at (as_mem s))"
  "as_mem (snd (FakePlayers_record_login i at s)) = snd (InMemoryPlayer_record_login i at (as_mem s))"
  "as_mem (snd (FakePlayers_save p s)) = snd (InMemoryPlayer_save p (as_mem s))"
  by (simp_all add: FakePlayers_find_by_id_def InMemoryPlayer_find_by_id_def FakePlayers_find_by_account_def
      InMemoryPlayer_find_by_account_def FakePlayers_gain_exp_def InMemoryPlayer_gain_exp_def
      FakePlayers_record_login_def InMemoryPlayer_record_login_def FakePlayers_save_def InMemoryPlayer_save_def
      as_mem_def Let_def split: option.split prod.split)

definition fake_inv :: "fake_store \<Rightarrow> bool" where
  "fake_inv s \<longleftrightarrow>
     mem_inv (as_mem s) \<and> (\<forall>k a. hm_get (fs_accounts s) k = Some a \<longrightarrow> Username_as_str (acc_username a) = k)"

text \<open>\<^verbatim>\<open>FakeRegistration\<close> checks the user name only: the identifiers have to be unused.\<close>

definition fake_fresh :: "account \<Rightarrow> player \<Rightarrow> fake_store \<Rightarrow> bool" where
  "fake_fresh a p s \<longleftrightarrow> is_ok (fst (InMemoryRegistration_register a p (as_mem s)))"

lemma fake_store_new_inv: "fake_inv fake_store_new"
  by (simp add: fake_inv_def fake_store_new_def as_mem_def mem_inv_def)

lemma fake_register_players:
  assumes "mem_inv (as_mem s)" and "fake_fresh a p s" and "FakeRegistration_register a p s = (Ok (), s')"
  obtains m where "InMemoryRegistration_register a p (as_mem s) = (Ok (), m)" "ms_players m = fs_players s'"
proof -
  obtain m where m: "InMemoryRegistration_register a p (as_mem s) = (Ok (), m)"
    using assms(2) by (cases "InMemoryRegistration_register a p (as_mem s)") (auto simp: fake_fresh_def is_ok_iff)
  moreover have "ms_players m = fs_players s'"
    using m [unfolded register_Ok_iff [OF assms(1)]] assms(3)
    by (auto simp: FakeRegistration_register_def as_mem_def split: if_splits)
  ultimately show ?thesis using that by blast
qed

lemma mem_inv_players: "mem_inv m \<Longrightarrow> mem_inv \<lparr>ms_accounts = [], ms_players = ms_players m\<rparr>"
  unfolding mem_inv_def mem_store.select_convs hm_get_empty by (simp only: hm_wf_empty) blast

lemma fake_register_inv:
  assumes inv: "fake_inv s" and fresh: "fake_fresh a p s"
  shows "fake_inv (snd (FakeRegistration_register a p s))"
proof (cases "fst (FakeRegistration_register a p s)")
  case (Err e)
  with inv show ?thesis by (auto simp: FakeRegistration_register_def split: if_splits)
next
  case (Ok x)
  obtain s' where s': "FakeRegistration_register a p s = (Ok (), s')"
    using Ok by (cases "FakeRegistration_register a p s") simp
  have "mem_inv (as_mem s)" using inv by (simp add: fake_inv_def)
  from fake_register_players [OF this fresh s'] obtain m
    where m: "InMemoryRegistration_register a p (as_mem s) = (Ok (), m)" "ms_players m = fs_players s'" .
  have "mem_inv (as_mem s')"
    using mem_register_inv [of "as_mem s" a p] inv m mem_inv_players [of m] by (simp add: fake_inv_def as_mem_def)
  with inv s' show ?thesis
    by (auto simp: fake_inv_def FakeRegistration_register_def split: if_splits)
qed

lemma fake_register_player:
  assumes "fake_inv s" and "fake_fresh a p s" and "FakeRegistration_register a p s = (Ok (), s')"
  shows "FakePlayers_find_by_account i s' =
    (if i = pl_account_id p then Ok (Some p) else FakePlayers_find_by_account i s)"
proof -
  have inv: "mem_inv (as_mem s)" using assms(1) by (simp add: fake_inv_def)
  from fake_register_players [OF this assms(2,3)] obtain m
    where m: "InMemoryRegistration_register a p (as_mem s) = (Ok (), m)" "ms_players m = fs_players s'" .
  with mem_register_player [OF inv m(1), of i] show ?thesis
    by (simp add: FakePlayers_find_by_account_def InMemoryPlayer_find_by_account_def as_mem_def)
qed

interpretation fake_users: user_store
  FakeAccounts FakePlayers FakeRegistration fake_inv fake_fresh "\<lambda>a. a" "\<lambda>p. p" "\<lambda>_. True"
proof
  fix s s' :: fake_store and a b :: account and p :: player and e name u i at acc pid
  note [simp] = FakeAccounts_def FakePlayers_def FakeRegistration_def FakeAccounts_find_by_username_def
  show "fake_inv s \<Longrightarrow> fake_fresh a p s \<Longrightarrow> fake_inv (snd (rs_register FakeRegistration a p s))"
    by (simp add: fake_register_inv)
  show "rs_register FakeRegistration a p s = (Err e, s') \<Longrightarrow> s' = s"
    by (auto simp: FakeRegistration_register_def split: if_splits)
  show "rs_register FakeRegistration a p s = (Ok (), s') \<Longrightarrow>
      ar_find_by_username FakeAccounts (Username_as_str u) s' =
        (if u = acc_username a then Ok (Some a) else ar_find_by_username FakeAccounts (Username_as_str u) s)"
    by (auto simp: FakeRegistration_register_def Username_as_str_inject split: if_splits)
  show "fake_inv s \<Longrightarrow> fake_fresh a p s \<Longrightarrow> rs_register FakeRegistration a p s = (Ok (), s') \<Longrightarrow>
      pr_find_by_account FakePlayers i s' =
        (if i = pl_account_id p then Ok (Some p) else pr_find_by_account FakePlayers i s)"
    by (simp add: fake_register_player)
  show "ar_find_by_username FakeAccounts (Username_as_str (acc_username a)) s = Ok (Some b) \<Longrightarrow>
      is_err (fst (rs_register FakeRegistration a p s))"
    by (simp add: FakeRegistration_register_def hm_contains_def)
  show "\<exists>r. ar_find_by_username FakeAccounts name s = Ok r" by simp
  show "fake_inv s \<Longrightarrow> ar_find_by_username FakeAccounts (Username_as_str u) s = Ok (Some a) \<Longrightarrow> acc_username a = u"
    by (simp add: fake_inv_def Username_as_str_inject [symmetric])
  show "\<exists>r. pr_find_by_account FakePlayers i s = Ok r" by (simp add: FakePlayers_find_by_account_def)
  show "fake_inv s \<Longrightarrow> pr_find_by_account FakePlayers i s = Ok (Some p) \<Longrightarrow> pl_account_id p = i"
    using mem_find_account [of "as_mem s" i p]
    by (auto simp: fake_inv_def FakePlayers_find_by_account_def as_mem_def)
  have frame: "fs_accounts (snd (FakePlayers_record_login pid at s)) = fs_accounts s" for pid
    by (simp add: FakePlayers_record_login_def Let_def split: option.split)
  show "fake_inv s \<Longrightarrow> fake_inv (snd (pr_record_login FakePlayers pid at s))"
    by (simp add: fake_inv_def frame fake_players_as_mem mem_login_inv)
  show "fake_inv s \<Longrightarrow> pr_find_by_account FakePlayers acc s = Ok (Some p) \<Longrightarrow>
      fst (pr_record_login FakePlayers (pl_id p) at s) = Ok (Some (Player_record_login at p)) \<and>
      pr_find_by_account FakePlayers acc (snd (pr_record_login FakePlayers (pl_id p) at s)) =
        Ok (Some (Player_record_login at p))"
    using mem_login_player [of "as_mem s" acc p at] by (simp add: fake_inv_def fake_players_as_mem)
  show "ar_find_by_username FakeAccounts name (snd (pr_record_login FakePlayers pid at s)) =
      ar_find_by_username FakeAccounts name s"
    by (simp add: frame)
qed simp_all

interpretation fake_auth: auth_backend
  FakeAccounts FakePlayers FakeRegistration fake_inv fake_fresh "\<lambda>a. a" "\<lambda>p. p" "\<lambda>_. True"
  "FakeTokens show_uuid" "\<lambda>_. FakeTokens_revoke_player" "fake_token show_uuid" "\<lambda>_. fake_token_known" "\<lambda>_. fake_token_inv"
  "\<lambda>now ttl at. elapsed now at \<le> ttl"
proof -
  have ts: "tk_create (FakeTokens show_uuid) = FakeTokens_create show_uuid"
    "tk_resolve (FakeTokens show_uuid) = FakeTokens_resolve"
    by (simp_all add: FakeTokens_def)
  show "auth_backend FakeAccounts FakePlayers FakeRegistration fake_inv fake_fresh (\<lambda>a. a) (\<lambda>p. p) (\<lambda>_. True)
      (FakeTokens show_uuid) (\<lambda>_. FakeTokens_revoke_player) (fake_token show_uuid) (\<lambda>_. fake_token_known)
      (\<lambda>_. fake_token_inv) (\<lambda>now ttl at. elapsed now at \<le> ttl)"
    unfolding auth_backend_def ts
    by (intro conjI fake_users.user_store_axioms fake_tokens.expiring_token_store_axioms)
qed

section \<open>Property\<close>

text \<open>
  The test doubles behave like a real backend: over them, whoever registers with unused
  identifiers can log in at once with the same credentials and is the same player; the token
  resolves to the player up to the end of its life and not after it; every token the player
  had before stops resolving; the audit double holds one more record after each of the two
  steps, and its counter moves along.
\<close>

theorem fakes_register_login:
  assumes "fake_inv s" and "fake_token_inv t"
    and reg: "RegisterUseCase_execute FakeAccounts FakeRegistration FakeHasher FakeAudit fa fp now1 now2 cmd s l = (Ok r, s', l')"
    and ids: "\<And>a p. acc_id a = AccountId fa \<Longrightarrow> pl_id p = PlayerId fp \<Longrightarrow> fake_fresh a p s"
    and fresh: "\<not> fake_token_known (fake_token show_uuid bytes) t"
    and "lc_username lcmd = rc_username cmd" and "lc_password lcmd = rc_password cmd"
  shows "\<exists>lr s2 t2 l2.
    LoginUseCase_execute \<lparr>ld_accounts = FakeAccounts, ld_players = FakePlayers, ld_tokens = FakeTokens show_uuid,
        ld_hasher = FakeHasher, ld_audit = FakeAudit\<rparr>
      ttl now_check now_login now bytes lcmd s' t l' = (Ok lr, s2, t2, l2) \<and>
    lr_player_id lr = rr_player_id r \<and> lr_nickname lr = rr_nickname r \<and> fake_inv s2 \<and> fake_token_inv t2 \<and>
    (\<forall>at \<ge> now. FakeTokens_resolve at (lr_token lr) t2 = Ok (if at - now \<le> ttl then Some (rr_player_id r) else None)) \<and>
    (\<forall>at \<ge> now. \<forall>old. FakeTokens_resolve at old t2 = Ok (Some (rr_player_id r)) \<longrightarrow> old = lr_token lr) \<and>
    length (fa_records l2) = length (fa_records l) + 2 \<and> fa_count l2 = fa_count l + 2"
proof -
  have tk: "tk_create (FakeTokens show_uuid) = FakeTokens_create show_uuid" "tk_resolve (FakeTokens show_uuid) = FakeTokens_resolve"
    by (simp_all add: FakeTokens_def)
  have issue: "is_ok (fst (tk_create (FakeTokens show_uuid) bytes now (PlayerId fp) ttl t))"
    by (simp add: tk fake_create)
  from fake_auth.register_then_login [OF assms(1,2) FakeHasher_sound reg ids fresh issue assms(6,7) TrueI]
  obtain lr s2 t2 l2 where login: "LoginUseCase_execute
      \<lparr>ld_accounts = FakeAccounts, ld_players = FakePlayers, ld_tokens = FakeTokens show_uuid,
        ld_hasher = FakeHasher, ld_audit = FakeAudit\<rparr>
      ttl now_check now_login now bytes lcmd s' t l' = (Ok lr, s2, t2, l2)"
    and lr: "lr_player_id lr = rr_player_id r" "lr_nickname lr = rr_nickname r" "fake_inv s2" "fake_token_inv t2"
    and res: "\<forall>at \<ge> now. FakeTokens_resolve at (lr_token lr) t2 = Ok (if elapsed now at \<le> ttl then Some (rr_player_id r) else None)"
    unfolding tk by blast
  have created: "FakeTokens_create show_uuid bytes now (rr_player_id r) ttl t = (Ok (lr_token lr), t2)"
    using login_issues [OF login] lr(1) by (simp add: tk)
  have "length (fa_records l') = Suc (length (fa_records l)) \<and> fa_count l' = fa_count l + 1"
    using reg by (auto simp: RegisterUseCase_execute_def audit_success_def FakeAudit_def FakeAudit_record_def Let_def
        split: result.splits option.splits prod.splits)
  moreover have "length (fa_records l2) = Suc (length (fa_records l')) \<and> fa_count l2 = fa_count l' + 1"
    using login by (auto simp: LoginUseCase_execute_def audit_login_def FakeAudit_def FakeAudit_record_def
        split: result.splits option.splits prod.splits bool.splits)
  ultimately have "length (fa_records l2) = length (fa_records l) + 2 \<and> fa_count l2 = fa_count l + 2" by simp
  moreover have "\<forall>at \<ge> now. FakeTokens_resolve at (lr_token lr) t2 = Ok (if at - now \<le> ttl then Some (rr_player_id r) else None)"
    using res by (simp add: elapsed_def)
  ultimately show ?thesis
    using login lr fake_tokens.sole_session [OF assms(2) fresh created] by blast
qed

text \<open>Witness: the first registration and login over empty doubles.\<close>

definition fake_registered :: "(register_result, app_error) result \<times> fake_store \<times> fake_audit" where
  "fake_registered =
     RegisterUseCase_execute FakeAccounts FakeRegistration FakeHasher FakeAudit 1 2 10 11 sample_command fake_store_new
       \<lparr>fa_count = 0, fa_records = []\<rparr>"

lemma fake_registered_ok:
  "fst fake_registered = Ok \<lparr>rr_account_id = AccountId 1, rr_player_id = PlayerId 2, rr_nickname = ascii ''Al''\<rparr>"
  by (simp add: fake_registered_def RegisterUseCase_execute_def sample_command_def sample_username sample_nickname
      sample_password FakeAccounts_def FakeAccounts_find_by_username_def fake_store_new_def FakeHasher_def
      FakeHasher_hash_def Let_def FakeRegistration_def FakeRegistration_register_def hm_contains_def
      Account_register_def Player_create_def)

theorem fakes_register_login_witness:
  "\<exists>lr s2 t2 l2.
    LoginUseCase_execute \<lparr>ld_accounts = FakeAccounts, ld_players = FakePlayers, ld_tokens = FakeTokens (\<lambda>u. [unat u]),
        ld_hasher = FakeHasher, ld_audit = FakeAudit\<rparr>
      20 30 31 5 [1] \<lparr>lc_username = ascii ''Alice'', lc_password = ascii ''super-secret''\<rparr>
      (fst (snd fake_registered)) FakeTokens_new (snd (snd fake_registered)) = (Ok lr, s2, t2, l2) \<and>
    lr_player_id lr = PlayerId 2 \<and> FakeTokens_resolve 25 (lr_token lr) t2 = Ok (Some (PlayerId 2)) \<and>
    length (fa_records l2) = 2"
proof -
  have reg: "RegisterUseCase_execute FakeAccounts FakeRegistration FakeHasher FakeAudit 1 2 10 11 sample_command
      fake_store_new \<lparr>fa_count = 0, fa_records = []\<rparr> =
     (Ok \<lparr>rr_account_id = AccountId 1, rr_player_id = PlayerId 2, rr_nickname = ascii ''Al''\<rparr>,
      fst (snd fake_registered), snd (snd fake_registered))"
    using fake_registered_ok unfolding fake_registered_def by (metis prod.collapse)
  have ids: "fake_fresh a p fake_store_new" for a p
    by (simp add: fake_fresh_def as_mem_def fake_store_new_def InMemoryRegistration_register_def hm_contains_def hm_values_def)
  let ?lcmd = "\<lparr>lc_username = ascii ''Alice'', lc_password = ascii ''super-secret''\<rparr> :: login_command"
  from fakes_register_login [OF fake_store_new_inv fake_tokens_new(1) reg ids fake_tokens_new(2) [of "fake_token (\<lambda>u. [unat u]) [1]"],
      where now = 5 and ttl = 20 and lcmd = ?lcmd and now_check = 30 and now_login = 31]
  show ?thesis by (force simp: sample_command_def)
qed

end
