(* ===== verification/LX_TestsApp.thy ===== *)
theory LX_TestsApp
  imports LX_TestKit LX_Fakes
begin

text \<open>
  The unit tests of the use cases in \<^verbatim>\<open>crates/application\<close>, against the model of the test doubles. Clock
  readings, fresh identifiers, random bytes and the printer of identifiers are arguments, and each test
  is proved for all of them. The only implementation of the trait \<^verbatim>\<open>UnitOfWork\<close> is in its test and is modelled here.
\<close>

section \<open>auth/register.rs\<close>

definition no_audit :: fake_audit where
  "no_audit = \<lparr>fa_count = 0, fa_records = []\<rparr>"

definition register_cmd :: register_command where
  "register_cmd = \<lparr>rc_username = (ascii ''alice_01''), rc_password = (ascii ''super-secret''), rc_nickname = [0x7231, 0x4E3D, 0x4E1D]\<rparr>"

text \<open>The use case over the doubles; the stores that the test keeps a handle on are part of the state.\<close>

definition register_with_fakes ::
  "uuid \<times> uuid \<times> datetime \<times> datetime \<Rightarrow> register_command \<Rightarrow> fake_store \<Rightarrow> fake_audit
     \<Rightarrow> (register_result, app_error) result \<times> fake_store \<times> fake_audit" where
  "register_with_fakes d cmd =
     (case d of (fa, fp, now1, now2) \<Rightarrow>
        RegisterUseCase_execute FakeAccounts FakeRegistration FakeHasher FakeAudit fa fp now1 now2 cmd)"

definition registers_account_and_player :: "uuid \<times> uuid \<times> datetime \<times> datetime \<Rightarrow> bool" where
  "registers_account_and_player d \<longleftrightarrow>
     (let (result, accounts, audit) = register_with_fakes d register_cmd fake_store_new no_audit in
      unwrap_as result (\<lambda>r. rr_nickname r = [0x7231, 0x4E3D, 0x4E1D]) \<and> FakeAccounts_len accounts = 1 \<and> fa_count audit = 1)"

definition audit_records_normalized_username_and_player :: "uuid \<times> uuid \<times> datetime \<times> datetime \<Rightarrow> bool" where
  "audit_records_normalized_username_and_player d \<longleftrightarrow>
     (let (result, _, audit) = register_with_fakes d (register_cmd\<lparr>rc_username := (ascii ''  ALICE_01  '')\<rparr>) fake_store_new no_audit in
      unwrap_as result (\<lambda>r.
        fa_records audit \<noteq> [] \<and> fst (fa_records audit ! 0) = Some (rr_player_id r) \<and>
        snd (fa_records audit ! 0) =
          (ascii ''register:'') @ [0x7B, 0x22] @ (ascii ''username'') @ [0x22, 0x3A, 0x22] @ (ascii ''alice_01'') @ [0x22, 0x7D]))"

definition FailingAudit :: "unit audit_logger" where
  "FailingAudit = \<lparr>al_record = (\<lambda>p action detail l. (Err (Storage (ascii ''audit unavailable'')), l))\<rparr>"

definition audit_failure_does_not_fail_registration :: "uuid \<times> uuid \<times> datetime \<times> datetime \<Rightarrow> bool" where
  "audit_failure_does_not_fail_registration d \<longleftrightarrow>
     (case d of (fa, fp, now1, now2) \<Rightarrow>
        is_ok (fst (RegisterUseCase_execute FakeAccounts FakeRegistration FakeHasher FailingAudit fa fp now1 now2
          register_cmd fake_store_new ())))"

definition rejects_duplicate_username ::
  "uuid \<times> uuid \<times> datetime \<times> datetime \<Rightarrow> uuid \<times> uuid \<times> datetime \<times> datetime \<Rightarrow> bool" where
  "rejects_duplicate_username d d' \<longleftrightarrow>
     (let (result, s, l) = register_with_fakes d register_cmd fake_store_new no_audit;
          (result', _, _) = register_with_fakes d' register_cmd s l
      in is_ok result \<and> result' = Err (Conflict [0x7528, 0x6237, 0x540D, 0x5DF2, 0x88AB, 0x5360, 0x7528]))"

definition is_validation :: "app_error \<Rightarrow> bool" where
  "is_validation e \<longleftrightarrow> (case e of Validation _ \<Rightarrow> True | _ \<Rightarrow> False)"

definition is_storage :: "app_error \<Rightarrow> bool" where
  "is_storage e \<longleftrightarrow> (case e of Storage _ \<Rightarrow> True | _ \<Rightarrow> False)"

definition is_internal :: "app_error \<Rightarrow> bool" where
  "is_internal e \<longleftrightarrow> (case e of Internal _ \<Rightarrow> True | _ \<Rightarrow> False)"

definition validates_input_before_any_persistence ::
  "uuid \<times> uuid \<times> datetime \<times> datetime \<Rightarrow> uuid \<times> uuid \<times> datetime \<times> datetime \<Rightarrow> bool" where
  "validates_input_before_any_persistence d d' \<longleftrightarrow>
     (let bad = \<lparr>rc_username = (ascii ''a''), rc_password = (ascii ''super-secret''), rc_nickname = (ascii ''x'')\<rparr>;
          weak = \<lparr>rc_username = (ascii ''alice_01''), rc_password = (ascii ''short''), rc_nickname = (ascii ''x'')\<rparr>;
          (result, s, l) = register_with_fakes d bad fake_store_new no_audit;
          (result', s', _) = register_with_fakes d' weak s l
      in err_as result is_validation \<and> err_as result' is_validation \<and> FakeAccounts_len s' = 0)"

definition hasher_failure_aborts_registration :: "uuid \<times> uuid \<times> datetime \<times> datetime \<Rightarrow> bool" where
  "hasher_failure_aborts_registration d \<longleftrightarrow>
     (case d of (fa, fp, now1, now2) \<Rightarrow>
        err_as (fst (RegisterUseCase_execute FakeAccounts FakeRegistration FailingHasher FakeAudit fa fp now1 now2
          register_cmd fake_store_new no_audit)) is_internal)"

definition Unavailable :: "fake_store registration_store" where
  "Unavailable = \<lparr>rs_register = (\<lambda>a p s. (Err (Storage (ascii ''unavailable'')), s))\<rparr>"

definition storage_failure_does_not_write_or_audit_a_partial_registration :: "uuid \<times> uuid \<times> datetime \<times> datetime \<Rightarrow> bool" where
  "storage_failure_does_not_write_or_audit_a_partial_registration d \<longleftrightarrow>
     (case d of (fa, fp, now1, now2) \<Rightarrow>
        let (result, accounts, audit) = RegisterUseCase_execute FakeAccounts Unavailable FakeHasher FakeAudit fa fp now1 now2
              register_cmd fake_store_new no_audit
        in err_as result is_storage \<and> FakeAccounts_len accounts = 0 \<and> fa_count audit = 0)"

text \<open>The validated forms of the literals of the tests.\<close>

lemma literal_names:
  "Username_try_new (ascii ''alice_01'') = Ok (Username (ascii ''alice_01''))" "Username_try_new (ascii ''  ALICE_01  '') = Ok (Username (ascii ''alice_01''))"
  "Username_try_new (ascii ''Alice'') = Ok (Username (ascii ''alice''))" "Username_try_new (ascii ''alice'') = Ok (Username (ascii ''alice''))"
  "Username_try_new (ascii ''nobody'') = Ok (Username (ascii ''nobody''))"
  "Username_try_new (ascii ''a'') = Err (InvalidValue (ascii ''username'') reason_username_len)"
  "Username_try_new (ascii ''!!'') = Err (InvalidValue (ascii ''username'') reason_username_len)"
  by (simp_all add: Username_try_new_def is_username_char_def string_eval)

lemma literal_nicknames:
  "Nickname_try_new [0x7231, 0x4E3D, 0x4E1D] = Ok (Nickname [0x7231, 0x4E3D, 0x4E1D])" "Nickname_try_new (ascii ''x'') = Ok (Nickname (ascii ''x''))"
  "Nickname_try_new [0x963F, 0x5BBD] = Ok (Nickname [0x963F, 0x5BBD])" "Nickname_try_new [0x963F, 0x5FEB] = Ok (Nickname [0x963F, 0x5FEB])"
  "Nickname_try_new (pre_fake_nickname @ (ascii ''alice'')) = Ok (Nickname ([0x73A9, 0x5BB6] @ ascii ''_alice''))"
  by (simp_all add: Nickname_try_new_def pre_fake_nickname_def string_eval)

lemma literal_passwords:
  "PlainPassword_try_new (ascii ''super-secret'') = Ok (PlainPassword (ascii ''super-secret''))"
  "PlainPassword_try_new (ascii ''short'') = Err (InvalidValue (ascii ''password'') reason_password_len)"
  by (simp_all add: PlainPassword_try_new_def string_eval)

lemmas fake_user_defs = FakeAccounts_def FakePlayers_def FakeRegistration_def FakeAccounts_find_by_username_def
  FakeAccounts_find_by_id_def FakeAccounts_save_def FakeAccounts_len_def FakePlayers_find_by_id_def
  FakePlayers_find_by_account_def FakePlayers_save_def FakePlayers_gain_exp_def FakePlayers_record_login_def
  FakeRegistration_register_def fake_store_new_def FakeHasher_def FakeHasher_hash_def FakeHasher_verify_def
  FakeAudit_def FakeAudit_record_def no_audit_def

lemma registered:
  "register_with_fakes (fa, fp, now1, now2) (register_cmd\<lparr>rc_username := name\<rparr>) fake_store_new no_audit =
     (Ok \<lparr>rr_account_id = AccountId fa, rr_player_id = PlayerId fp, rr_nickname = [0x7231, 0x4E3D, 0x4E1D]\<rparr>,
      \<lparr>fs_accounts = [((ascii ''alice_01''), Account_register fa (Username (ascii ''alice_01'')) (PasswordHash (ascii ''fake$$$super-secret'')) now1)],
       fs_players = [(fp, Player_create fp (AccountId fa) (Nickname [0x7231, 0x4E3D, 0x4E1D]) now2)]\<rparr>,
      \<lparr>fa_count = 1, fa_records = [(Some (PlayerId fp),
         (ascii ''register:'') @ [0x7B, 0x22] @ (ascii ''username'') @ [0x22, 0x3A, 0x22] @ (ascii ''alice_01'') @ [0x22, 0x7D])]\<rparr>)"
  if "Username_try_new name = Ok (Username (ascii ''alice_01''))"
  using that
  by (simp add: register_with_fakes_def RegisterUseCase_execute_def register_cmd_def literal_nicknames literal_passwords
      audit_success_def fake_user_defs hm_defs account_op_defs player_op_defs PasswordHash_new_def Let_def)
     (simp add: ascii_def)

lemma register_tests:
  "registers_account_and_player d" "audit_records_normalized_username_and_player d"
  "rejects_duplicate_username d d'"
proof -
  obtain fa fp now1 now2 where d: "d = (fa, fp, now1, now2)" by (rule prod_cases4)
  have cmd: "register_cmd = register_cmd\<lparr>rc_username := (ascii ''alice_01'')\<rparr>" by (simp add: register_cmd_def)
  note one = registered [OF literal_names(1), of fa fp now1 now2, folded cmd] and
    two = registered [OF literal_names(2), of fa fp now1 now2]
  show "registers_account_and_player d"
    by (simp add: registers_account_and_player_def d one FakeAccounts_len_def)
  show "audit_records_normalized_username_and_player d"
    by (simp add: audit_records_normalized_username_and_player_def d two)
  show "rejects_duplicate_username d d'"
    by (cases d' rule: prod_cases4) (simp add: rejects_duplicate_username_def d one, simp add: register_with_fakes_def RegisterUseCase_execute_def
      register_cmd_def literal_names literal_nicknames literal_passwords fake_user_defs hm_defs msg_username_taken_def)
qed

lemmas register_eval = RegisterUseCase_execute_def register_cmd_def literal_names literal_nicknames literal_passwords
  fake_user_defs is_validation_def is_internal_def is_storage_def Let_def hm_contains_def

lemma register_failure_tests:
  "audit_failure_does_not_fail_registration (fa, fp, now1, now2)" "hasher_failure_aborts_registration (fa, fp, now1, now2)"
  "storage_failure_does_not_write_or_audit_a_partial_registration (fa, fp, now1, now2)"
  by (simp_all add: audit_failure_does_not_fail_registration_def hasher_failure_aborts_registration_def
      storage_failure_does_not_write_or_audit_a_partial_registration_def register_eval
      FailingHasher_def FailingHasher_hash_def Unavailable_def FailingAudit_def)

lemma validation_test: "validates_input_before_any_persistence (fa, fp, now1, now2) (fa', fp', now1', now2')"
  by (simp add: validates_input_before_any_persistence_def register_with_fakes_def register_eval)

section \<open>auth/login.rs\<close>

text \<open>What a login test draws: an identifier and the time of the fixture, the clock readings and bytes of the login.\<close>

type_synonym login_draw = "uuid \<times> datetime \<times> datetime \<times> datetime \<times> instant \<times> u8 list"

definition login_cmd :: login_command where
  "login_cmd = \<lparr>lc_username = (ascii ''Alice''), lc_password = (ascii ''super-secret'')\<rparr>"

text \<open>\<^verbatim>\<open>deps_with\<close>: the doubles with one account of the given status; then the login of the test.\<close>

definition login_store :: "login_draw \<Rightarrow> account_status \<Rightarrow> fake_store option" where
  "login_store d status =
     (case d of (fresh, now, _) \<Rightarrow>
        (case (FakeAccounts_with_status now (ascii ''alice'') status, FakePlayers_for_account fresh now (ascii ''alice'')) of
           (Some accounts, Some players) \<Rightarrow> Some \<lparr>fs_accounts = accounts, fs_players = players\<rparr>
         | _ \<Rightarrow> None))"

definition login_with ::
  "'t token_store \<Rightarrow> login_draw \<Rightarrow> login_command \<Rightarrow> fake_store \<Rightarrow> 't \<Rightarrow> (login_result, app_error) result \<times> fake_store \<times> 't \<times> fake_audit" where
  "login_with tokens d cmd s t =
     (case d of (_, _, now_check, now_login, now, bytes) \<Rightarrow>
        LoginUseCase_execute \<lparr>ld_accounts = FakeAccounts, ld_players = FakePlayers, ld_tokens = tokens,
             ld_hasher = FakeHasher, ld_audit = FakeAudit\<rparr>
          (seconds 60) now_check now_login now bytes cmd s t no_audit)"

definition login_issues_token_and_records_login :: "(uuid \<Rightarrow> rstring) \<Rightarrow> login_draw \<Rightarrow> bool" where
  "login_issues_token_and_records_login show_uuid d \<longleftrightarrow>
     some_as (login_store d Active) (\<lambda>s.
       let (result, _, tokens, _) = login_with (FakeTokens show_uuid) d login_cmd s FakeTokens_new in
       unwrap_as result (\<lambda>r. lr_expires_in_secs r = 60 \<and> length (FakeTokens_issued tokens) = 1 \<and> lr_nickname r = ([0x73A9, 0x5BB6] @ ascii ''_alice'')))"

definition wrong_password_is_generic_unauthorized :: "(uuid \<Rightarrow> rstring) \<Rightarrow> login_draw \<Rightarrow> bool" where
  "wrong_password_is_generic_unauthorized show_uuid d \<longleftrightarrow>
     some_as (login_store d Active) (\<lambda>s.
       let (result, _, tokens, _) = login_with (FakeTokens show_uuid) d
             \<lparr>lc_username = (ascii ''alice''), lc_password = (ascii ''wrong-password'')\<rparr> s FakeTokens_new
       in result = Err (Unauthorized [0x7528, 0x6237, 0x540D, 0x6216, 0x5BC6, 0x7801, 0x9519, 0x8BEF]) \<and> FakeTokens_issued tokens = [])"

definition unknown_user_is_generic_unauthorized :: "(uuid \<Rightarrow> rstring) \<Rightarrow> login_draw \<Rightarrow> bool" where
  "unknown_user_is_generic_unauthorized show_uuid d \<longleftrightarrow>
     some_as (login_store d Active) (\<lambda>s.
       err_as (fst (login_with (FakeTokens show_uuid) d \<lparr>lc_username = (ascii ''nobody''), lc_password = (ascii ''super-secret'')\<rparr> s FakeTokens_new))
         (\<lambda>e. case e of Unauthorized _ \<Rightarrow> True | _ \<Rightarrow> False))"

definition banned_account_is_forbidden :: "(uuid \<Rightarrow> rstring) \<Rightarrow> login_draw \<Rightarrow> bool" where
  "banned_account_is_forbidden show_uuid d \<longleftrightarrow>
     some_as (login_store d (Banned [0x4F5C, 0x5F0A] None)) (\<lambda>s.
       err_as (fst (login_with (FakeTokens show_uuid) d login_cmd s FakeTokens_new))
         (\<lambda>e. case e of Forbidden _ \<Rightarrow> True | _ \<Rightarrow> False))"

definition login_revokes_previous_tokens :: "(uuid \<Rightarrow> rstring) \<Rightarrow> uuid \<Rightarrow> instant \<Rightarrow> login_draw \<Rightarrow> bool" where
  "login_revokes_previous_tokens show_uuid other seeded d \<longleftrightarrow>
     some_as (login_store d Active) (\<lambda>s.
       let (result, _, tokens, _) = login_with (FakeTokens show_uuid) d login_cmd s
             (FakeTokens_seed show_uuid seeded (PlayerId other) FakeTokens_new)
       in is_ok result \<and> FakeTokens_revoked_players tokens \<noteq> [])"

text \<open>
  \<^verbatim>\<open>FailedReplacement\<close> panics when it is asked to revoke or resolve. The flag of its state stands for that
  panic of \<^verbatim>\<open>revoke_player\<close>; \<^verbatim>\<open>resolve\<close> answers an error of its own, which the test would show.
\<close>

definition FailedReplacement :: "bool token_store" where
  "FailedReplacement =
     \<lparr>tk_create = (\<lambda>bytes now p ttl t. (Err (Storage (ascii ''replacement failed'')), t)),
      tk_resolve = (\<lambda>now token t. Err (Internal (ascii ''unreachable''))),
      tk_revoke_player = (\<lambda>p t. (Ok (), True))\<rparr>"

definition replacement_failure_aborts_login :: "login_draw \<Rightarrow> bool" where
  "replacement_failure_aborts_login d \<longleftrightarrow>
     some_as (login_store d Active) (\<lambda>s.
       let (result, _, panicked, _) = login_with FailedReplacement d login_cmd s False
       in result = Err (Storage (ascii ''replacement failed'')) \<and> \<not> panicked)"

definition invalid_username_shape_is_validation_error :: "(uuid \<Rightarrow> rstring) \<Rightarrow> login_draw \<Rightarrow> bool" where
  "invalid_username_shape_is_validation_error show_uuid d \<longleftrightarrow>
     some_as (login_store d Active) (\<lambda>s.
       err_as (fst (login_with (FakeTokens show_uuid) d \<lparr>lc_username = (ascii ''!!''), lc_password = (ascii ''super-secret'')\<rparr> s FakeTokens_new))
         is_validation)"

definition stored_alice :: "account_status \<Rightarrow> datetime \<Rightarrow> account" where
  "stored_alice status now =
     \<lparr>acc_id = deterministic_account_id (ascii ''alice''), acc_username = Username (ascii ''alice''),
      acc_password_hash = PasswordHash (ascii ''fake$$$super-secret''), acc_status = status, acc_created_at = now\<rparr>"

lemma login_store_eq:
  "login_store (fresh, now, rest) status = Some
     \<lparr>fs_accounts = [((ascii ''alice''), stored_alice status now)],
      fs_players = [(fresh, Player_create fresh (deterministic_account_id (ascii ''alice'')) (Nickname ([0x73A9, 0x5BB6] @ ascii ''_alice'')) now)]\<rparr>"
  by (cases status)
    (simp_all add: login_store_def FakeAccounts_with_status_def FakePlayers_for_account_def literal_names literal_nicknames
      stored_alice_def account_op_defs PasswordHash_new_def VALID_PASSWORD_def Player_create_def Let_def,
     simp_all add: ascii_def)

lemmas login_eval = login_with_def LoginUseCase_execute_def login_cmd_def load_account_def ensure_login_allowed_def
  load_player_def ok_or_def literal_names fake_user_defs hm_defs stored_alice_def Player_create_def msg_bad_credentials_def
  Player_record_login_def Let_def

text \<open>The two doubled passwords.\<close>

lemma fake_hashes [simp]:
  "((ascii ''fake$$$super-secret'') = (ascii ''fake$$$'') @ (ascii ''super-secret'')) = True" "((ascii ''fake$$$super-secret'') = (ascii ''fake$$$'') @ (ascii ''wrong-password'')) = False"
  by (simp_all add: ascii_def of_char_def)

lemma nobody_unknown [simp]: "((ascii ''nobody'') = (ascii ''alice'')) = False"
  by (simp add: ascii_def of_char_def)

lemma as_secs_seconds: "as_secs (seconds 60) = 60"
  by (simp add: as_secs_def seconds_def)

lemma login_tests:
  "login_issues_token_and_records_login show_uuid (fresh, now0, now1, now2, now, bytes)" "wrong_password_is_generic_unauthorized show_uuid (fresh, now0, now1, now2, now, bytes)"
  "unknown_user_is_generic_unauthorized show_uuid (fresh, now0, now1, now2, now, bytes)" "banned_account_is_forbidden show_uuid (fresh, now0, now1, now2, now, bytes)"
  by (simp_all add: login_issues_token_and_records_login_def wrong_password_is_generic_unauthorized_def
      unknown_user_is_generic_unauthorized_def banned_account_is_forbidden_def login_store_eq login_eval
      FakeTokens_def FakeTokens_new_def FakeTokens_create_def FakeTokens_issued_def as_secs_seconds)

lemma login_replacement_tests:
  "login_revokes_previous_tokens show_uuid other seeded (fresh, now0, now1, now2, now, bytes)" "replacement_failure_aborts_login (fresh, now0, now1, now2, now, bytes)"
  "invalid_username_shape_is_validation_error show_uuid (fresh, now0, now1, now2, now, bytes)"
  by (simp_all add: login_revokes_previous_tokens_def replacement_failure_aborts_login_def
      invalid_username_shape_is_validation_error_def login_store_eq login_eval is_validation_def
      FakeTokens_def fake_create FakeTokens_revoked_players_def FailedReplacement_def)

section \<open>error.rs\<close>

definition maps_domain_and_repo_errors :: "uuid \<Rightarrow> bool" where
  "maps_domain_and_repo_errors u \<longleftrightarrow>
     (case AppError_from_domain (RoomFull (RoomId u)) of Conflict _ \<Rightarrow> True | _ \<Rightarrow> False) \<and>
     is_storage (AppError_from_repo (RepoStorage (ascii ''down''))) \<and>
     AppError_display Busy = ([0x670D, 0x52A1, 0x7E41, 0x5FD9] @ ascii '','' @ [0x8BF7, 0x7A0D, 0x540E, 0x91CD, 0x8BD5])"

lemma error_test: "maps_domain_and_repo_errors u"
  by (simp add: maps_domain_and_repo_errors_def is_storage_def txt_busy_def)

section \<open>player/profile.rs\<close>

definition is_not_found :: "app_error \<Rightarrow> bool" where
  "is_not_found e \<longleftrightarrow> (case e of NotFound _ \<Rightarrow> True | _ \<Rightarrow> False)"

text \<open>The fixtures of the profile and progression tests: one saved player.\<close>

definition saved_player :: "rstring \<Rightarrow> uuid \<Rightarrow> uuid \<Rightarrow> datetime \<Rightarrow> (player_id \<times> fake_store, domain_error) result" where
  "saved_player nick fa fp now =
     and_then (Nickname_try_new nick) (\<lambda>n.
       let player = Player_create fp (AccountId fa) n now
       in Ok (pl_id player, snd (FakePlayers_save player fake_store_new)))"

definition returns_profile_for_existing_player :: "uuid \<Rightarrow> uuid \<Rightarrow> datetime \<Rightarrow> bool" where
  "returns_profile_for_existing_player fa fp now \<longleftrightarrow>
     unwrap_as (saved_player [0x963F, 0x5BBD] fa fp now) (\<lambda>(i, players).
       unwrap_as (GetPlayerProfile_execute FakePlayers i players) (\<lambda>profile.
         pp_nickname profile = [0x963F, 0x5BBD] \<and> pp_level profile = 1))"

definition missing_player_is_not_found :: "uuid \<Rightarrow> bool" where
  "missing_player_is_not_found u \<longleftrightarrow>
     err_as (GetPlayerProfile_execute FakePlayers (PlayerId u) fake_store_new) is_not_found"

lemma profile_tests: "returns_profile_for_existing_player fa fp now" "missing_player_is_not_found u"
  by (simp_all add: returns_profile_for_existing_player_def missing_player_is_not_found_def saved_player_def
      GetPlayerProfile_execute_def PlayerProfile_from_def literal_nicknames fake_user_defs hm_defs player_op_defs ok_or_def
      is_not_found_def Let_def)

section \<open>player/progression.rs\<close>

definition CollectingEvents :: "domain_event list event_publisher" where
  "CollectingEvents = \<lparr>ep_publish = (\<lambda>event events. (Ok (), events @ [event]))\<rparr>"

definition adds_exp_without_level_up :: "uuid \<Rightarrow> uuid \<Rightarrow> datetime \<Rightarrow> datetime \<Rightarrow> bool" where
  "adds_exp_without_level_up fa fp now now' \<longleftrightarrow>
     unwrap_as (saved_player [0x963F, 0x5FEB] fa fp now) (\<lambda>(i, players).
       let (result, _, events) = GainExpUseCase_execute FakePlayers CollectingEvents now' i 50 players []
       in unwrap_as result (\<lambda>profile. pp_level profile = 1 \<and> pp_exp profile = 50) \<and> length events = 0)"

definition level_up_publishes_domain_event :: "uuid \<Rightarrow> uuid \<Rightarrow> datetime \<Rightarrow> datetime \<Rightarrow> bool" where
  "level_up_publishes_domain_event fa fp now now' \<longleftrightarrow>
     unwrap_as (saved_player [0x963F, 0x5FEB] fa fp now) (\<lambda>(i, players).
       let (result, _, events) = GainExpUseCase_execute FakePlayers CollectingEvents now' i 100 players []
       in unwrap_as result (\<lambda>profile. pp_level profile = 2) \<and> events \<noteq> [] \<and>
          (case last events of PlayerLeveledUp _ new_level _ \<Rightarrow> new_level = 2 | _ \<Rightarrow> False))"

definition zero_exp_is_validation_error :: "uuid \<Rightarrow> uuid \<Rightarrow> datetime \<Rightarrow> datetime \<Rightarrow> bool" where
  "zero_exp_is_validation_error fa fp now now' \<longleftrightarrow>
     unwrap_as (saved_player [0x963F, 0x5FEB] fa fp now) (\<lambda>(i, players).
       err_as (fst (GainExpUseCase_execute FakePlayers CollectingEvents now' i 0 players [])) is_validation)"

definition unknown_player_is_not_found :: "uuid \<Rightarrow> uuid \<Rightarrow> uuid \<Rightarrow> datetime \<Rightarrow> datetime \<Rightarrow> bool" where
  "unknown_player_is_not_found fa fp u now now' \<longleftrightarrow>
     unwrap_as (saved_player [0x963F, 0x5FEB] fa fp now) (\<lambda>(_, players).
       err_as (fst (GainExpUseCase_execute FakePlayers CollectingEvents now' (PlayerId u) 10 players [])) is_not_found)"

text \<open>
  \<^verbatim>\<open>FailedEvents\<close> looks at the repository when the event is published and panics unless the stored level is
  already the announced one. A publisher of the model sees its own state only, so the double takes the
  repository after the update as an argument; its own state is whether its assertions held so far.
\<close>

definition FailedEvents :: "fake_store \<Rightarrow> bool event_publisher" where
  "FailedEvents players =
     \<lparr>ep_publish = (\<lambda>event held.
        (Err (Internal (ascii ''publish failed'')),
         held \<and> (case event of
                   PlayerLeveledUp player_id new_level _ \<Rightarrow>
                     unwrap_as (FakePlayers_find_by_id player_id players) (\<lambda>found. some_as found (\<lambda>p. pl_level p = new_level))
                 | _ \<Rightarrow> False)))\<rparr>"

definition publication_observes_committed_state_and_failure_is_post_commit :: "uuid \<Rightarrow> uuid \<Rightarrow> datetime \<Rightarrow> datetime \<Rightarrow> bool" where
  "publication_observes_committed_state_and_failure_is_post_commit fa fp now now' \<longleftrightarrow>
     unwrap_as (saved_player [0x963F, 0x5FEB] fa fp now) (\<lambda>(i, players).
       let committed = snd (FakePlayers_gain_exp i 100 players);
           (result, players', held) = GainExpUseCase_execute FakePlayers (FailedEvents committed) now' i 100 players True
       in err_as result (\<lambda>e. case e of PostCommit _ \<Rightarrow> True | _ \<Rightarrow> False) \<and> held \<and>
          unwrap_as (FakePlayers_find_by_id i players') (\<lambda>found. some_as found (\<lambda>saved. pl_level saved = 2 \<and> pl_exp saved = 0)))"

lemma gain_exp_small:
  "gain_exp_loop 1 (saturating_add 0 50) None = (1, 50, None)" "gain_exp_loop 1 (saturating_add 0 100) None = (2, 0, Some 2)"
  by (simp_all add: gain_exp_loop.simps [of 1] gain_exp_loop.simps [of 2] exp_to_next_def EXP_PER_LEVEL_def MAX_LEVEL_def
      saturating_add_def saturating_mul_def)

lemmas progression_eval = saved_player_def GainExpUseCase_execute_def PlayerProfile_from_def literal_nicknames
  fake_user_defs hm_defs player_op_defs Player_gain_exp_def gain_exp_small CollectingEvents_def Let_def

lemma progression_tests:
  "adds_exp_without_level_up fa fp now now'" "level_up_publishes_domain_event fa fp now now'"
  "zero_exp_is_validation_error fa fp now now'"
  "u \<noteq> fp \<Longrightarrow> unknown_player_is_not_found fa fp u now now'"
  by (simp_all add: adds_exp_without_level_up_def level_up_publishes_domain_event_def zero_exp_is_validation_error_def
      unknown_player_is_not_found_def is_validation_def is_not_found_def progression_eval)

lemma publication_test: "publication_observes_committed_state_and_failure_is_post_commit fa fp now now'"
  by (simp add: publication_observes_committed_state_and_failure_is_post_commit_def FailedEvents_def progression_eval)

section \<open>unit\_of\_work.rs\<close>

text \<open>An operation of a unit of work runs on the state and answers a result.\<close>

definition PassthroughUnitOfWork_commit :: "('s \<Rightarrow> ('a, app_error) result \<times> 's) \<Rightarrow> 's \<Rightarrow> ('a, app_error) result \<times> 's" where
  "PassthroughUnitOfWork_commit operation s = operation s"

definition commit_runs_operation_and_propagates_error :: "'s \<Rightarrow> bool" where
  "commit_runs_operation_and_propagates_error s \<longleftrightarrow>
     fst (PassthroughUnitOfWork_commit (\<lambda>s. (Ok (41 + 1 :: int), s)) s) = Ok 42 \<and>
     fst (PassthroughUnitOfWork_commit (\<lambda>s. (Err Busy :: (unit, app_error) result, s)) s) = Err Busy"

lemma unit_of_work_test: "commit_runs_operation_and_propagates_error s"
  by (simp add: commit_runs_operation_and_propagates_error_def PassthroughUnitOfWork_commit_def)

text \<open>The trait asks that a failed operation is abandoned as a whole; the double of the test does not do that.\<close>

lemma passthrough_keeps_partial_work:
  "PassthroughUnitOfWork_commit (\<lambda>s. (Err Busy :: (unit, app_error) result, s + 1)) (0 :: nat) = (Err Busy, 1)"
  by (simp add: PassthroughUnitOfWork_commit_def)

end
