(* ===== verification/LX_TestsRoom.thy ===== *)
theory LX_TestsRoom
  imports LX_TestKit LX_RoomService
begin

text \<open>
  The unit tests of \<^verbatim>\<open>crates/application/src/room\<close>: sinks, actor and service. Each channel of a test is a \<open>list_chan\<close>;
  a receiver that the test has dropped is a closed channel. \<open>received n P \<sigma> i\<close> says that the \<open>n\<close>-th event received on
  the channel \<open>i\<close> satisfies \<open>P\<close>, \<open>quiet_after n \<sigma> i\<close> that nothing more comes after \<open>n\<close> events. Identifiers of rooms and
  players and all clock readings are arguments; players that a test draws separately are different.
\<close>

type_synonym test_sinks = "room_event list_chan sinks"

definition open_chan :: "nat \<Rightarrow> room_event list_chan" where
  "open_chan cap = \<lparr>lc_items = [], lc_cap = cap, lc_closed = False\<rparr>"

definition fresh_sinks :: "nat \<Rightarrow> test_sinks" where
  "fresh_sinks cap = (\<lambda>_. RoomEventSink_from (open_chan cap))"

definition drop_rx :: "sink_ref \<Rightarrow> test_sinks \<Rightarrow> test_sinks" where
  "drop_rx i \<sigma> = \<sigma>(i := (\<sigma> i)\<lparr>es_tx := (es_tx (\<sigma> i))\<lparr>lc_closed := True\<rparr>\<rparr>)"

definition received :: "nat \<Rightarrow> (room_event \<Rightarrow> bool) \<Rightarrow> test_sinks \<Rightarrow> sink_ref \<Rightarrow> bool" where
  "received n P \<sigma> i \<longleftrightarrow> n < length (lc_items (es_tx (\<sigma> i))) \<and> P (lc_items (es_tx (\<sigma> i)) ! n)"

definition quiet_after :: "nat \<Rightarrow> test_sinks \<Rightarrow> sink_ref \<Rightarrow> bool" where
  "quiet_after n \<sigma> i \<longleftrightarrow> length (lc_items (es_tx (\<sigma> i))) = n"

definition is_joined :: "player_id \<Rightarrow> room_event \<Rightarrow> bool" where
  "is_joined p ev \<longleftrightarrow> (case ev of MemberJoined _ q _ \<Rightarrow> q = p | _ \<Rightarrow> False)"

definition is_left :: "player_id \<Rightarrow> room_event \<Rightarrow> bool" where
  "is_left p ev \<longleftrightarrow> (case ev of MemberLeft _ q \<Rightarrow> q = p | _ \<Rightarrow> False)"

definition is_chat :: "rstring \<Rightarrow> room_event \<Rightarrow> bool" where
  "is_chat s ev \<longleftrightarrow> (case ev of ChatEvent _ _ _ c \<Rightarrow> c = s | _ \<Rightarrow> False)"

definition is_closed_with :: "rstring \<Rightarrow> room_event \<Rightarrow> bool" where
  "is_closed_with s ev \<longleftrightarrow> (case ev of ClosedEvent _ r \<Rightarrow> r = s | _ \<Rightarrow> False)"

definition is_closed_event :: "room_event \<Rightarrow> bool" where
  "is_closed_event ev \<longleftrightarrow> (case ev of ClosedEvent _ _ \<Rightarrow> True | _ \<Rightarrow> False)"

definition is_conflict :: "app_error \<Rightarrow> bool" where
  "is_conflict e \<longleftrightarrow> (case e of Conflict _ \<Rightarrow> True | _ \<Rightarrow> False)"

lemmas room_test_defs = open_chan_def fresh_sinks_def drop_rx_def received_def quiet_after_def is_joined_def is_left_def
  is_chat_def is_closed_with_def is_closed_event_def RoomEventSink_from_def

section \<open>sink.rs\<close>

text \<open>\<^verbatim>\<open>rx.recv()\<close> takes the first item.\<close>

definition failure_is_sticky_after_queue_recovers :: "uuid \<Rightarrow> bool" where
  "failure_is_sticky_after_queue_recovers u \<longleftrightarrow>
     (let sink = RoomEventSink_from (open_chan 1);
          event = ClosedEvent (RoomId u) (ascii ''test'');
          sink = RoomEventSink_try_send list_mpsc event sink;
          sink = RoomEventSink_try_send list_mpsc event sink
      in lc_items (es_tx sink) \<noteq> [] \<and>
         es_failed (sink\<lparr>es_tx := (es_tx sink)\<lparr>lc_items := tl (lc_items (es_tx sink))\<rparr>\<rparr>))"

lemma sink_test: "failure_is_sticky_after_queue_recovers u"
  by (simp add: failure_is_sticky_after_queue_recovers_def room_test_defs RoomEventSink_try_send_def list_try_send_def is_err_def)

section \<open>actor.rs\<close>

definition spawn_room :: "uuid \<Rightarrow> u32 \<Rightarrow> datetime \<Rightarrow> task" where
  "spawn_room u mp now = \<lparr>tk_actor = RoomActor_spawn (Room_open u mp now), tk_running = True\<rparr>"

text \<open>\<^verbatim>\<open>handle.send(...)\<close> with the reply read back: the task takes one step.\<close>

definition send_cmd :: "room_command \<Rightarrow> task \<times> test_sinks \<Rightarrow> actor_reply option \<times> task \<times> test_sinks" where
  "send_cmd c s = (case task_step list_mpsc c (fst s) (snd s) of (t, \<sigma>, reply) \<Rightarrow> (reply, t, \<sigma>))"

text \<open>\<^verbatim>\<open>join_actor\<close> with the channel \<open>i\<close>.\<close>

definition join_actor :: "player_id \<Rightarrow> sink_ref \<Rightarrow> task \<times> test_sinks \<Rightarrow> actor_reply option \<times> task \<times> test_sinks" where
  "join_actor p i = send_cmd (Join p (ascii ''n'') i)"

definition join_broadcasts_member_joined_to_all :: "uuid \<Rightarrow> uuid \<Rightarrow> uuid \<Rightarrow> datetime \<Rightarrow> bool" where
  "join_broadcasts_member_joined_to_all u u1 u2 now \<longleftrightarrow>
     (let p1 = PlayerId u1; p2 = PlayerId u2;
          (reply1, s1) = send_cmd (Join p1 (ascii ''a'') 1) (spawn_room u 4 now, fresh_sinks ROOM_EVENT_CAPACITY);
          (reply2, s2) = send_cmd (Join p2 (ascii ''b'') 2) s1
      in reply1 = Some (JoinReply (Ok ())) \<and> received 0 (is_joined p1) (snd s1) 1 \<and>
         reply2 = Some (JoinReply (Ok ())) \<and>
         received 1 (is_joined p2) (snd s2) 1 \<and> received 0 (is_joined p2) (snd s2) 2)"

definition chat_reaches_members_but_not_outsiders :: "uuid \<Rightarrow> uuid \<Rightarrow> uuid \<Rightarrow> datetime \<Rightarrow> bool" where
  "chat_reaches_members_but_not_outsiders u u1 u2 now \<longleftrightarrow>
     (let insider = PlayerId u1;
          (reply, s) = join_actor insider 1 (spawn_room u 4 now, fresh_sinks ROOM_EVENT_CAPACITY);
          (_, s) = send_cmd (Chat insider [0x5927, 0x5BB6, 0x597D]) s;
          (_, s') = send_cmd (Chat (PlayerId u2) [0x5077, 0x542C]) s;
          (_, s') = send_cmd (Chat insider (ascii ''   '')) s'
      in reply = Some (JoinReply (Ok ())) \<and> received 0 (\<lambda>_. True) (snd s) 1 \<and>
         received 1 (is_chat [0x5927, 0x5BB6, 0x597D]) (snd s) 1 \<and> quiet_after 2 (snd s') 1)"

definition leave_notifies_and_last_member_closes_room :: "uuid \<Rightarrow> uuid \<Rightarrow> uuid \<Rightarrow> datetime \<Rightarrow> bool" where
  "leave_notifies_and_last_member_closes_room u u1 u2 now \<longleftrightarrow>
     (let p1 = PlayerId u1; p2 = PlayerId u2;
          (reply1, s) = join_actor p1 1 (spawn_room u 4 now, fresh_sinks ROOM_EVENT_CAPACITY);
          (reply2, s) = join_actor p2 2 s;
          (_, s1) = send_cmd (Leave p1 [0x4E3B, 0x52A8, 0x9000, 0x51FA]) s;
          (_, s2) = send_cmd (Leave p2 [0x4E3B, 0x52A8, 0x9000, 0x51FA]) s1
      in reply1 = Some (JoinReply (Ok ())) \<and> reply2 = Some (JoinReply (Ok ())) \<and>
         received 1 (\<lambda>_. True) (snd s) 1 \<and> received 0 (\<lambda>_. True) (snd s) 2 \<and>
         received 1 (is_left p1) (snd s1) 2 \<and> received 2 (is_left p1) (snd s1) 1 \<and> quiet_after 3 (snd s2) 1 \<and>
         received 2 (is_left p2) (snd s2) 2 \<and> received 3 is_closed_event (snd s2) 2 \<and> ac_closed (tk_actor (fst s2)))"

definition close_command_broadcasts_closed_event :: "uuid \<Rightarrow> uuid \<Rightarrow> datetime \<Rightarrow> bool" where
  "close_command_broadcasts_closed_event u u1 now \<longleftrightarrow>
     (let (reply, s) = join_actor (PlayerId u1) 1 (spawn_room u 4 now, fresh_sinks ROOM_EVENT_CAPACITY);
          (_, s') = send_cmd (Close [0x670D, 0x52A1, 0x5668, 0x7EF4, 0x62A4]) s
      in reply = Some (JoinReply (Ok ())) \<and> received 0 (\<lambda>_. True) (snd s) 1 \<and>
         received 1 (is_closed_with [0x670D, 0x52A1, 0x5668, 0x7EF4, 0x62A4]) (snd s') 1 \<and> ac_closed (tk_actor (fst s')))"

definition full_room_rejects_join_with_conflict :: "uuid \<Rightarrow> uuid \<Rightarrow> uuid \<Rightarrow> datetime \<Rightarrow> bool" where
  "full_room_rejects_join_with_conflict u u1 u2 now \<longleftrightarrow>
     (let (reply, s) = join_actor (PlayerId u1) 1 (spawn_room u 1 now, fresh_sinks ROOM_EVENT_CAPACITY);
          (outcome, _) = send_cmd (Join (PlayerId u2) (ascii ''late'') 2) s
      in reply = Some (JoinReply (Ok ())) \<and> outcome = Some (JoinReply (Err (Conflict [0x623F, 0x95F4, 0x5DF2, 0x6EE1]))))"

definition repeat_join_is_idempotent_without_duplicate_event :: "uuid \<Rightarrow> uuid \<Rightarrow> datetime \<Rightarrow> bool" where
  "repeat_join_is_idempotent_without_duplicate_event u u1 now \<longleftrightarrow>
     (let p = PlayerId u1;
          (reply, s) = join_actor p 1 (spawn_room u 4 now, fresh_sinks ROOM_EVENT_CAPACITY);
          (reply', s') = send_cmd (Join p (ascii ''n'') 2) s
      in reply = Some (JoinReply (Ok ())) \<and> received 0 (\<lambda>_. True) (snd s) 1 \<and>
         reply' = Some (JoinReply (Ok ())) \<and> quiet_after 1 (snd s') 1)"

lemmas actor_eval = room_test_defs spawn_room_def send_cmd_def join_actor_def task_step_def RoomActor_spawn_def
  RoomActor_handle_join_def RoomActor_handle_chat_def RoomActor_handle_leave_def RoomActor_finish_def RoomActor_broadcast_def
  actor_should_stop_def send_to_def RoomEventSink_try_send_def list_try_send_def is_err_def ROOM_EVENT_CAPACITY_def
  MAX_CHAT_CHARS_def room_query_defs room_op_defs hm_defs word_le_nat_alt max_def Let_def

lemma actor_tests:
  "u1 \<noteq> u2 \<Longrightarrow> join_broadcasts_member_joined_to_all u u1 u2 now"
  "u1 \<noteq> u2 \<Longrightarrow> chat_reaches_members_but_not_outsiders u u1 u2 now"
  "u1 \<noteq> u2 \<Longrightarrow> leave_notifies_and_last_member_closes_room u u1 u2 now"
  "close_command_broadcasts_closed_event u u1 now"
  "u1 \<noteq> u2 \<Longrightarrow> full_room_rejects_join_with_conflict u u1 u2 now"
  "repeat_join_is_idempotent_without_duplicate_event u u1 now"
  subgoal by (simp add: join_broadcasts_member_joined_to_all_def actor_eval)
  subgoal by (simp add: chat_reaches_members_but_not_outsiders_def actor_eval string_eval)
  subgoal by (simp add: leave_notifies_and_last_member_closes_room_def actor_eval)
  subgoal by (simp add: close_command_broadcasts_closed_event_def actor_eval)
  subgoal by (simp add: full_room_rejects_join_with_conflict_def actor_eval msg_room_full_def)
  subgoal by (simp add: repeat_join_is_idempotent_without_duplicate_event_def actor_eval)
  done

section \<open>service.rs\<close>

text \<open>
  The publisher of the tests counts events and answers Ok; the world keeps the published events. Nothing
  else runs beside a test, and its commands reach the running tasks.
\<close>

definition test_service :: "u32 \<Rightarrow> room_event list_chan world" where
  "test_service mp = RoomService_new \<lparr>rsc_command_capacity = 16, rsc_max_players = mp\<rparr> (fresh_sinks 64)"

definition test_join ::
  "uuid \<Rightarrow> datetime \<Rightarrow> room_id option \<Rightarrow> player_id \<Rightarrow> rstring \<Rightarrow> sink_ref \<Rightarrow> room_event list_chan world
     \<Rightarrow> (room_id, app_error) result \<times> room_event list_chan world" where
  "test_join fresh now = join_or_create list_mpsc [] False fresh now"

definition drop_sink :: "sink_ref \<Rightarrow> room_event list_chan world \<Rightarrow> room_event list_chan world" where
  "drop_sink i w = w\<lparr>sv_sinks := drop_rx i (sv_sinks w)\<rparr>"

definition configured_capacity_allows_city_scale_rooms :: "uuid \<Rightarrow> uuid \<Rightarrow> uuid \<Rightarrow> datetime \<Rightarrow> datetime \<Rightarrow> bool" where
  "configured_capacity_allows_city_scale_rooms u u1 u2 now now' \<longleftrightarrow>
     (let (r, w) = test_join u now None (PlayerId u1) [0x57CE, 0x4E3B] 1 (drop_sink 1 (test_service 8192)) in
      unwrap_as r (\<lambda>room_id.
        let (r', w') = test_join u now' (Some room_id) (PlayerId u2) [0x5C45, 0x6C11] 2 w
        in is_ok r' \<and> received 0 (\<lambda>ev. case ev of MemberJoined _ _ _ \<Rightarrow> True | _ \<Rightarrow> False) (sv_sinks w') 2))"

definition create_and_join_returns_new_room :: "uuid \<Rightarrow> uuid \<Rightarrow> datetime \<Rightarrow> bool" where
  "create_and_join_returns_new_room u u1 now \<longleftrightarrow>
     (let (r, w) = test_join u now None (PlayerId u1) (ascii ''p'') 1 (test_service 4) in
      unwrap_as r (\<lambda>room_id. active_rooms w = 1 \<and> room_uuid room_id \<noteq> 0))"

definition join_existing_room_and_chat :: "uuid \<Rightarrow> uuid \<Rightarrow> uuid \<Rightarrow> datetime \<Rightarrow> datetime \<Rightarrow> bool" where
  "join_existing_room_and_chat u u1 u2 now now' \<longleftrightarrow>
     (let creator = PlayerId u1; joiner = PlayerId u2;
          (r, w) = test_join u now None creator (ascii ''c'') 1 (test_service 4)
      in unwrap_as r (\<lambda>room_id.
        let (r', w) = test_join u now' (Some room_id) joiner (ascii ''j'') 2 (drop_sink 1 w);
            (sent, w') = RoomService_chat list_mpsc [] False False room_id joiner (ascii '' '' @ [0x4E00, 0x8D77, 0x6253, 0x6392, 0x4F4D] @ ascii '' '') w
        in is_ok r' \<and> received 0 (is_joined joiner) (sv_sinks w) 2 \<and>
           is_ok sent \<and> received 1 (is_chat [0x4E00, 0x8D77, 0x6253, 0x6392, 0x4F4D]) (sv_sinks w') 2))"

definition chat_error :: "room_id \<Rightarrow> player_id \<Rightarrow> rstring \<Rightarrow> room_event list_chan world \<Rightarrow> app_error option" where
  "chat_error rid p content w =
     (case RoomService_chat list_mpsc [] False False rid p content w of (Ok _, _) \<Rightarrow> None | (Err e, _) \<Rightarrow> Some e)"

definition chat_validates_input :: "uuid \<Rightarrow> uuid \<Rightarrow> uuid \<Rightarrow> datetime \<Rightarrow> bool" where
  "chat_validates_input u u1 u2 now \<longleftrightarrow>
     (let player = PlayerId u1;
          (r, w) = test_join u now None player (ascii ''c'') 1 (test_service 4)
      in unwrap_as r (\<lambda>room_id.
        let w = drop_sink 1 w in
        some_as (chat_error room_id player (ascii ''   '') w) (\<lambda>e. case e of Validation _ \<Rightarrow> True | _ \<Rightarrow> False) \<and>
        some_as (chat_error room_id player (repeat_str [0x5B57] (MAX_CHAT_CHARS + 1)) w)
          (\<lambda>e. case e of Validation _ \<Rightarrow> True | _ \<Rightarrow> False) \<and>
        chat_error room_id (PlayerId u2) (ascii ''hi'') w = None))"

definition chat_to_missing_room_is_not_found :: "uuid \<Rightarrow> uuid \<Rightarrow> bool" where
  "chat_to_missing_room_is_not_found u u1 \<longleftrightarrow>
     some_as (chat_error (RoomId u) (PlayerId u1) (ascii ''hi'') (test_service 4)) (\<lambda>e. case e of NotFound _ \<Rightarrow> True | _ \<Rightarrow> False)"

definition leave_all_and_close_all_shut_down :: "uuid \<Rightarrow> uuid \<Rightarrow> uuid \<Rightarrow> datetime \<Rightarrow> datetime \<Rightarrow> bool" where
  "leave_all_and_close_all_shut_down u u1 u2 now now' \<longleftrightarrow>
     (let (r, w) = test_join u now None (PlayerId u1) (ascii ''c'') 1 (test_service 4);
          (left, w) = leave_all list_mpsc (\<lambda>_. ([], False)) now' (PlayerId u2) (ascii ''disconnect'') w;
          (closed, w) = close_all list_mpsc [0x7EF4, 0x62A4, 0x505C, 0x673A] w
      in is_ok r \<and> is_ok left \<and> is_ok closed \<and>
         list_ex (is_closed_with [0x7EF4, 0x62A4, 0x505C, 0x673A]) (lc_items (es_tx (sv_sinks w 1))) \<and> active_rooms w = 0)"

definition join_full_room_reports_conflict :: "uuid \<Rightarrow> uuid \<Rightarrow> uuid \<Rightarrow> datetime \<Rightarrow> datetime \<Rightarrow> bool" where
  "join_full_room_reports_conflict u u1 u2 now now' \<longleftrightarrow>
     (let (r, w) = test_join u now None (PlayerId u1) (ascii ''c'') 1 (test_service 1)
      in unwrap_as r (\<lambda>room_id.
        err_as (fst (test_join u now' (Some room_id) (PlayerId u2) (ascii ''late'') 2 (drop_sink 1 w))) is_conflict))"

lemmas service_eval = actor_eval test_service_def test_join_def drop_sink_def chat_error_def join_or_create_def
  create_and_join_def RoomService_join_def RoomService_new_def RoomService_chat_def RoomService_publish_def handle_for_def
  RoomHandle_is_closed_def RoomHandle_send_def RoomHandle_try_send_def deliver_def interfere_def join_outcome_def
  active_rooms_def

lemma service_join_tests:
  "u1 \<noteq> u2 \<Longrightarrow> configured_capacity_allows_city_scale_rooms u u1 u2 now now'"
  "get_version_num u = 7 \<Longrightarrow> create_and_join_returns_new_room u u1 now"
  "u1 \<noteq> u2 \<Longrightarrow> join_full_room_reports_conflict u u1 u2 now now'"
  subgoal by (simp add: configured_capacity_allows_city_scale_rooms_def service_eval)
  subgoal by (auto simp: create_and_join_returns_new_room_def service_eval get_version_num_def)
  subgoal by (simp add: join_full_room_reports_conflict_def is_conflict_def service_eval)
  done

lemma service_chat_tests:
  "u1 \<noteq> u2 \<Longrightarrow> join_existing_room_and_chat u u1 u2 now now'"
  "u1 \<noteq> u2 \<Longrightarrow> chat_validates_input u u1 u2 now"
  "chat_to_missing_room_is_not_found u u1"
  subgoal by (simp add: join_existing_room_and_chat_def service_eval string_eval)
  subgoal by (simp add: chat_validates_input_def service_eval string_eval)
  subgoal by (simp add: chat_to_missing_room_is_not_found_def service_eval string_eval)
  done

lemma service_shutdown_test:
  "u1 \<noteq> u2 \<Longrightarrow> leave_all_and_close_all_shut_down u u1 u2 now now'"
  by (simp add: leave_all_and_close_all_shut_down_def service_eval leave_all_def live_handles_def hm_retain_def RoomService_leave_def
      remove_if_closed_def close_all_def)

end
