(* ===== verification/LX_TestsConfig.thy ===== *)
theory LX_TestsConfig
  imports LX_TestKit LX_Bootstrap LX_Events
begin

text \<open>
  The unit tests of \<^verbatim>\<open>crates/infrastructure/src/config.rs\<close>. The Debug format of a string and the limit \<open>mp\<close> of a
  semaphore are arguments; the limit is only assumed to be at least 3, the largest number that a test needs.
\<close>

definition config_with :: "(rstring \<Rightarrow> rstring) \<Rightarrow> (string \<times> string) list \<Rightarrow> (config, config_error) result" where
  "config_with dbg entries = Config_from_lookup dbg (map_of (map (\<lambda>(name, value). (ascii name, ascii value)) entries))"

definition parse_error_of :: "string \<Rightarrow> config_error \<Rightarrow> bool" where
  "parse_error_of name e \<longleftrightarrow> (case e of ConfigParse n _ \<Rightarrow> n = ascii name | _ \<Rightarrow> False)"

definition invalid_error_of :: "string \<Rightarrow> config_error \<Rightarrow> bool" where
  "invalid_error_of name e \<longleftrightarrow> (case e of ConfigInvalid n _ \<Rightarrow> n = ascii name | _ \<Rightarrow> False)"

definition defaults_match_prd_table :: "(rstring \<Rightarrow> rstring) \<Rightarrow> usize \<Rightarrow> bool" where
  "defaults_match_prd_table dbg mp \<longleftrightarrow>
     unwrap_as (Config_from_lookup dbg (\<lambda>_. None)) (\<lambda>config.
       nc_write_drain_timeout_ms (cf_network config) = 1000 \<and>
       nc_tcp_bind_addr (cf_network config) = (ascii ''0.0.0.0:8080'') \<and>
       nc_http_bind_addr (cf_network config) = (ascii ''0.0.0.0:8081'') \<and>
       nc_http_redirect_addr (cf_network config) = None \<and>
       nc_wss_bind_addr (cf_network config) = (ascii ''0.0.0.0:8082'') \<and>
       nc_max_connections (cf_network config) = 10000 \<and>
       nc_backlog (cf_network config) = 1024 \<and>
       nc_accept_concurrency (cf_network config) = 256 \<and>
       nc_read_buffer_size (cf_network config) = 16384 \<and>
       nc_write_buffer_size (cf_network config) = 16384 \<and>
       nc_channel_per_conn (cf_network config) = 256 \<and>
       nc_channel_per_room (cf_network config) = 512 \<and>
       nc_max_frame_size (cf_network config) = 65536 \<and>
       nc_heartbeat_interval_secs (cf_network config) = 20 \<and>
       nc_heartbeat_timeout_secs (cf_network config) = 60 \<and>
       nc_unauth_timeout_secs (cf_network config) = 10 \<and>
       nc_unauth_max_per_ip (cf_network config) = 5 \<and>
       nc_tcp_nodelay (cf_network config) \<and>
       nc_tcp_keepalive_secs (cf_network config) = 30 \<and>
       rlc_enabled (cf_rate_limit config) \<and>
       rlc_per_conn (cf_rate_limit config) = 100 \<and>
       rlc_burst (cf_rate_limit config) = 10 \<and>
       tls_cert_path (cf_tls config) = (ascii ''./certs/server.crt'') \<and>
       tls_key_path (cf_tls config) = (ascii ''./certs/server.key'') \<and>
       tls_ca_path (cf_tls config) = None \<and>
       tls_min_version (cf_tls config) = (ascii ''TLSv1.3'') \<and>
       db_max_connections (cf_database config) = 30 \<and>
       db_min_connections (cf_database config) = 5 \<and>
       db_connect_timeout_secs (cf_database config) = 5 \<and>
       db_idle_timeout_secs (cf_database config) = 300 \<and>
       db_sqlx_log_level (cf_database config) = (ascii ''warn'') \<and>
       rd_url (cf_redis config) = (ascii ''redis://127.0.0.1:6379'') \<and>
       rd_pool_max_size (cf_redis config) = 10 \<and>
       rd_default_ttl_secs (cf_redis config) = 604800 \<and>
       rd_connect_timeout_secs (cf_redis config) = 2 \<and>
       lg_level (cf_log config) = (ascii ''info'') \<and>
       lg_format (cf_log config) = (ascii ''json'') \<and>
       \<not> lg_otel_enabled (cf_log config) \<and>
       lg_metrics_port (cf_log config) = 9090 \<and>
       apc_session_token_ttl_secs (cf_app config) = 604800 \<and>
       apc_password_max_concurrency (cf_app config) = 2 \<and>
       password_params (cf_app config) = (19456, 3, 4) \<and>
       session_token_ttl (cf_app config) = seconds 604800 \<and>
       apc_max_players_per_room (cf_app config) = 64 \<and>
       apc_shutdown_timeout_secs (cf_app config) = 30 \<and>
       is_database_url_placeholder config \<and>
       is_ok (Config_validate mp config))"

definition password_concurrency_is_configurable_and_positive :: "(rstring \<Rightarrow> rstring) \<Rightarrow> usize \<Rightarrow> bool" where
  "password_concurrency_is_configurable_and_positive dbg mp \<longleftrightarrow>
     unwrap_as (config_with dbg [(''APP_PASSWORD_MAX_CONCURRENCY'', ''3'')]) (\<lambda>config.
       apc_password_max_concurrency (cf_app config) = 3 \<and> is_ok (Config_validate mp config)) \<and>
     unwrap_as (config_with dbg [(''APP_PASSWORD_MAX_CONCURRENCY'', ''0'')]) (\<lambda>config.
       err_as (Config_validate mp config) (invalid_error_of ''APP_PASSWORD_MAX_CONCURRENCY''))"

definition overrides_apply_and_blank_optional_becomes_none :: "(rstring \<Rightarrow> rstring) \<Rightarrow> bool" where
  "overrides_apply_and_blank_optional_becomes_none dbg \<longleftrightarrow>
     unwrap_as (config_with dbg
        [(''SERVER_TCP_BIND_ADDR'', ''127.0.0.1:9000''),
         (''SERVER_HTTP_REDIRECT_ADDR'', ''0.0.0.0:80''),
         (''SERVER_MAX_FRAME_SIZE'', ''4096''),
         (''SERVER_WRITE_DRAIN_TIMEOUT_MS'', ''25''),
         (''SERVER_MAX_CONNECTIONS'', ''500''),
         (''SERVER_ACCEPT_CONCURRENCY'', ''32''),
         (''SERVER_TCP_NODELAY'', ''false''),
         (''SERVER_RATE_LIMIT_ENABLED'', ''off''),
         (''APP_MAX_PLAYERS_PER_ROOM'', ''4''),
         (''APP_MAX_ROOM_CEILING'', ''8192''),
         (''TLS_CA_PATH'', ''   ''),
         (''DATABASE_URL'', ''postgres://real:pw@db:5432/game'')]) (\<lambda>config.
       nc_tcp_bind_addr (cf_network config) = (ascii ''127.0.0.1:9000'') \<and>
       nc_http_redirect_addr (cf_network config) = Some (ascii ''0.0.0.0:80'') \<and>
       nc_max_frame_size (cf_network config) = 4096 \<and>
       nc_write_drain_timeout_ms (cf_network config) = 25 \<and>
       nc_max_connections (cf_network config) = 500 \<and>
       nc_accept_concurrency (cf_network config) = 32 \<and>
       \<not> nc_tcp_nodelay (cf_network config) \<and>
       \<not> rlc_enabled (cf_rate_limit config) \<and>
       apc_max_players_per_room (cf_app config) = 4 \<and>
       tls_ca_path (cf_tls config) = None \<and>
       \<not> is_database_url_placeholder config)"

definition parse_failures_are_reported_without_panic :: "(rstring \<Rightarrow> rstring) \<Rightarrow> bool" where
  "parse_failures_are_reported_without_panic dbg \<longleftrightarrow>
     err_as (config_with dbg [(''SERVER_MAX_CONNECTIONS'', ''many'')]) (\<lambda>err.
       contains_str (ascii ''SERVER_MAX_CONNECTIONS'') (ConfigError_display err) \<and> parse_error_of ''SERVER_MAX_CONNECTIONS'' err) \<and>
     err_as (config_with dbg [(''METRICS_PORT'', ''70000'')]) (parse_error_of ''METRICS_PORT'') \<and>
     err_as (config_with dbg [(''SERVER_TCP_NODELAY'', ''maybe'')]) (parse_error_of ''SERVER_TCP_NODELAY'') \<and>
     err_as (config_with dbg [(''APP_PASSWORD_MEMORY_KB'', ''-1'')]) (parse_error_of ''APP_PASSWORD_MEMORY_KB'')"

definition tls_downgrade_is_rejected :: "(rstring \<Rightarrow> rstring) \<Rightarrow> bool" where
  "tls_downgrade_is_rejected dbg \<longleftrightarrow>
     err_as (config_with dbg [(''TLS_MIN_VERSION'', ''TLSv1.2'')]) (invalid_error_of ''TLS_MIN_VERSION'')"

definition validate_rejects_bad_heartbeat_and_unbounded_queue :: "(rstring \<Rightarrow> rstring) \<Rightarrow> usize \<Rightarrow> bool" where
  "validate_rejects_bad_heartbeat_and_unbounded_queue dbg mp \<longleftrightarrow>
     unwrap_as (config_with dbg [(''SERVER_HEARTBEAT_TIMEOUT_SECS'', ''25''), (''SERVER_HEARTBEAT_INTERVAL_SECS'', ''20'')])
       (\<lambda>config. err_as (Config_validate mp config) (invalid_error_of ''SERVER_HEARTBEAT_TIMEOUT_SECS'')) \<and>
     unwrap_as (config_with dbg [(''SERVER_HEARTBEAT_TIMEOUT_SECS'', ''60''), (''SERVER_CHANNEL_PER_CONN_SIZE'', ''0'')])
       (\<lambda>config. err_as (Config_validate mp config) (invalid_error_of ''SERVER_CHANNEL_PER_CONN_SIZE''))"

definition room_queue_capacity_is_validated_before_serving :: "(rstring \<Rightarrow> rstring) \<Rightarrow> usize \<Rightarrow> bool" where
  "room_queue_capacity_is_validated_before_serving dbg mp \<longleftrightarrow>
     unwrap_as (config_with dbg [(''SERVER_CHANNEL_PER_ROOM_SIZE'', ''0'')])
       (\<lambda>config. err_as (Config_validate mp config) (invalid_error_of ''SERVER_CHANNEL_PER_ROOM_SIZE'')) \<and>
     list_all (\<lambda>capacity.
       unwrap_as (config_with dbg [(''SERVER_CHANNEL_PER_ROOM_SIZE'', capacity)]) (\<lambda>config. is_ok (Config_validate mp config)))
       [''1'', ''512'']"

definition display_hides_sensitive_values :: "(rstring \<Rightarrow> rstring) \<Rightarrow> bool" where
  "display_hides_sensitive_values dbg \<longleftrightarrow>
     unwrap_as (Config_from_lookup dbg (\<lambda>_. None)) (\<lambda>config.
       \<not> contains_str (ascii ''postgres://'') (Config_display config) \<and> contains_str (ascii ''tcp: 0.0.0.0:8080'') (Config_display config))"

definition boolean_values_are_flexible :: "(rstring \<Rightarrow> rstring) \<Rightarrow> bool" where
  "boolean_values_are_flexible dbg \<longleftrightarrow>
     list_all (\<lambda>value. unwrap_as (config_with dbg [(''SERVER_TCP_NODELAY'', value)]) (\<lambda>config. nc_tcp_nodelay (cf_network config)))
       [''1'', ''true'', ''YES'', ''on''] \<and>
     list_all (\<lambda>value. unwrap_as (config_with dbg [(''SERVER_TCP_NODELAY'', value)]) (\<lambda>config. \<not> nc_tcp_nodelay (cf_network config)))
       [''0'', ''false'', ''No'', ''off'']"

lemma defaults_test: "3 \<le> mp \<Longrightarrow> defaults_match_prd_table dbg mp"
  by (simp add: defaults_match_prd_table_def config_eval Config_validate_def password_params_def session_token_ttl_def
      is_database_url_placeholder_def seconds_def word_le_nat_alt word_less_nat_alt)

text \<open>Reading the values of the tests.\<close>

lemma literal_uints:
  "parse_uint 64 (trim (ascii ''3'')) = Some 3" "parse_uint 64 (trim (ascii ''0'')) = Some 0" "parse_uint 64 (trim (ascii ''1'')) = Some 1"
  "parse_uint 64 (trim (ascii ''512'')) = Some 512" "parse_uint 64 (trim (ascii ''4096'')) = Some 4096" "parse_uint 64 (trim (ascii ''25'')) = Some 25"
  "parse_uint 64 (trim (ascii ''500'')) = Some 500" "parse_uint 32 (trim (ascii ''32'')) = Some 32" "parse_uint 32 (trim (ascii ''4'')) = Some 4"
  "parse_uint 64 (trim (ascii ''20'')) = Some 20" "parse_uint 64 (trim (ascii ''60'')) = Some 60"
  "parse_uint 64 (trim (ascii ''many'')) = None" "parse_uint 16 (trim (ascii ''70000'')) = None" "parse_uint 32 (trim (ascii ''-1'')) = None"
  by (simp_all add: parse_uint_def digits_value_def string_eval)

lemma literal_bools:
  "to_ascii_lowercase (trim (ascii ''1'')) = (ascii ''1'')" "to_ascii_lowercase (trim (ascii ''true'')) = (ascii ''true'')" "to_ascii_lowercase (trim (ascii ''YES'')) = (ascii ''yes'')"
  "to_ascii_lowercase (trim (ascii ''on'')) = (ascii ''on'')" "to_ascii_lowercase (trim (ascii ''0'')) = (ascii ''0'')" "to_ascii_lowercase (trim (ascii ''false'')) = (ascii ''false'')"
  "to_ascii_lowercase (trim (ascii ''No'')) = (ascii ''no'')" "to_ascii_lowercase (trim (ascii ''off'')) = (ascii ''off'')" "to_ascii_lowercase (trim (ascii ''maybe'')) = (ascii ''maybe'')"
  "trim (ascii ''   '') = []"
  by (simp_all add: string_eval)

lemma trim_zero_colon: "trim (ascii ''0.0.0.0:80'') = (ascii ''0.0.0.0:80'')"
  by (simp add: string_eval)

lemmas config_test_eval = config_with_def config_eval literal_uints literal_bools ascii_eq_iff

lemma concurrency_test: "3 \<le> mp \<Longrightarrow> password_concurrency_is_configurable_and_positive dbg mp"
  by (simp add: password_concurrency_is_configurable_and_positive_def config_test_eval Config_validate_def invalid_error_of_def
      word_le_nat_alt word_less_nat_alt)

lemma overrides_test: "overrides_apply_and_blank_optional_becomes_none dbg"
  by (simp add: overrides_apply_and_blank_optional_becomes_none_def config_test_eval trim_zero_colon is_database_url_placeholder_def
      DATABASE_URL_PLACEHOLDER_def) (simp add: ascii_def)

lemma parse_failures_test: "parse_failures_are_reported_without_panic dbg"
  by (simp add: parse_failures_are_reported_without_panic_def config_test_eval parse_error_of_def contains_strI)

lemma tls_downgrade_test: "tls_downgrade_is_rejected dbg"
  by (simp add: tls_downgrade_is_rejected_def config_test_eval invalid_error_of_def)

lemma validate_tests:
  "validate_rejects_bad_heartbeat_and_unbounded_queue dbg mp"
  "3 \<le> mp \<Longrightarrow> room_queue_capacity_is_validated_before_serving dbg mp"
  by (simp_all add: validate_rejects_bad_heartbeat_and_unbounded_queue_def room_queue_capacity_is_validated_before_serving_def
      config_test_eval Config_validate_def invalid_error_of_def word_le_nat_alt word_less_nat_alt)

lemma boolean_test: "boolean_values_are_flexible dbg"
  by (simp add: boolean_values_are_flexible_def config_test_eval)

lemma show_nat_no_slash: "0x2F \<notin> set (show_nat n)"
  using show_nat_digits [of n] by (auto simp: list_all_iff is_ascii_digit_def)

lemma display_test: "display_hides_sensitive_values dbg"
proof -
  let ?show = "\<lambda>c :: config. Config_display c"
  have "0x2F \<in> set (ascii ''postgres://'')" by (simp add: ascii_def)
  moreover have "0x2F \<notin> set (?show c)"
    if "nc_tcp_bind_addr (cf_network c) = (ascii ''0.0.0.0:8080'')" "nc_http_bind_addr (cf_network c) = (ascii ''0.0.0.0:8081'')" for c
    using that show_nat_no_slash by (simp add: Config_display_def) (simp add: ascii_def)
  moreover have "contains_str (ascii ''tcp: 0.0.0.0:8080'') (?show c)" if "nc_tcp_bind_addr (cf_network c) = (ascii ''0.0.0.0:8080'')" for c
  proof -
    have "\<exists>rest. ?show c = (ascii ''Config { '') @ (ascii ''tcp: 0.0.0.0:8080'') @ rest"
      using that by (simp add: Config_display_def) (simp add: ascii_def)
    then show ?thesis using contains_strI by metis
  qed
  ultimately show ?thesis
    using contains_str_set by (fastforce simp: display_hides_sensitive_values_def config_eval)
qed

section \<open>A room service from the configuration\<close>

definition positive_room_queue_capacity_can_create_rooms ::
  "(rstring \<Rightarrow> rstring) \<Rightarrow> usize \<Rightarrow> uuid \<Rightarrow> uuid \<Rightarrow> datetime \<Rightarrow> bool" where
  "positive_room_queue_capacity_can_create_rooms dbg mp u u1 now \<longleftrightarrow>
     list_all (\<lambda>capacity.
       unwrap_as (config_with dbg [(''SERVER_CHANNEL_PER_ROOM_SIZE'', capacity)]) (\<lambda>config.
         is_ok (Config_validate mp config) \<and>
         (let rooms = RoomService_new \<lparr>rsc_command_capacity = nc_channel_per_room (cf_network config),
                        rsc_max_players = apc_max_players_per_room (cf_app config)\<rparr>
                        (\<lambda>_. RoomEventSink_from \<lparr>lc_items = [], lc_cap = 8, lc_closed = False\<rparr>);
              (joined, rooms) = join_or_create list_mpsc [] False u now None (PlayerId u1) (ascii ''Alice'') 1 rooms;
              (closed, rooms) = close_all list_mpsc (ascii ''test complete'') rooms
          in is_ok joined \<and> is_ok closed)))
       [''1'', ''512'']"

lemma fresh_room_join:
  "is_ok (fst (join_or_create list_mpsc [] False u now None p nick i (RoomService_new cfg \<sigma>)))"
proof -
  have "unat (max mp 1) \<noteq> 0" for mp :: u32 by (auto simp: max_def unat_eq_0)
  then show ?thesis
    by (simp add: join_or_create_def create_and_join_def RoomService_join_def RoomService_new_def RoomService_publish_def handle_for_def
      RoomHandle_is_closed_def RoomHandle_send_def deliver_def interfere_def join_outcome_def task_step_def RoomActor_spawn_def
      RoomActor_handle_join_def actor_should_stop_def room_query_defs room_op_defs hm_defs Let_def)
qed

lemma room_capacity_test: "3 \<le> mp \<Longrightarrow> positive_room_queue_capacity_can_create_rooms dbg mp u u1 now"
  using fresh_room_join
  by (simp add: positive_room_queue_capacity_can_create_rooms_def config_test_eval Config_validate_def close_all_def
      word_le_nat_alt word_less_nat_alt split: prod.split) (metis fst_conv)

end
