(* ===== verification/LX_TestsInfra.thy ===== *)
theory LX_TestsInfra
  imports LX_TestKit LX_TokenStore LX_MemoryRepos LX_Converters LX_Redis LX_Events LX_Password
begin

text \<open>
  The unit tests of \<^verbatim>\<open>crates/infrastructure\<close> beside the configuration: token stores, repositories, row conversions,
  event bus and password hasher. What a test needs of a library (the Argon2 crate, the Redis client, the
  broadcast channel) is a premise of its lemma. The form of an Argon2 hash string is the library's alone, so
  \<^verbatim>\<open>hash_produces_argon2id_phc_string\<close> has no counterpart here.
\<close>

section \<open>cache/memory\_token\_store.rs\<close>

definition create_resolve_revoke_roundtrip :: "instant \<Rightarrow> u8 list \<Rightarrow> uuid \<Rightarrow> instant \<Rightarrow> bool" where
  "create_resolve_revoke_roundtrip imax bytes u now \<longleftrightarrow>
     (let player = PlayerId u;
          (created, s) = InMemoryTokenStore_create imax bytes now player (seconds 60) InMemoryTokenStore_new
      in unwrap_as created (\<lambda>token.
        let (live, s1) = live_tokens now s;
            (revoked, s2) = InMemoryTokenStore_revoke_player player s1
        in InMemoryTokenStore_resolve now token s = Ok (Some player) \<and> live = 1 \<and> is_ok revoked \<and>
           InMemoryTokenStore_resolve now token s2 = Ok None \<and> fst (live_tokens now s2) = 0))"

definition expired_token_resolves_to_none :: "instant \<Rightarrow> u8 list \<Rightarrow> uuid \<Rightarrow> instant \<Rightarrow> bool" where
  "expired_token_resolves_to_none imax bytes u now \<longleftrightarrow>
     (let (created, s) = InMemoryTokenStore_create imax bytes now (PlayerId u) (seconds 0) InMemoryTokenStore_new;
          later = now + millis 5
      in unwrap_as created (\<lambda>token.
        InMemoryTokenStore_resolve later token s = Ok None \<and> fst (live_tokens later s) = 0))"

definition unknown_token_is_none :: "instant \<Rightarrow> bool" where
  "unknown_token_is_none now \<longleftrightarrow> InMemoryTokenStore_resolve now (ascii ''missing'') InMemoryTokenStore_new = Ok None"

definition tokens_are_unique_per_create :: "instant \<Rightarrow> u8 list \<Rightarrow> u8 list \<Rightarrow> uuid \<Rightarrow> instant \<Rightarrow> bool" where
  "tokens_are_unique_per_create imax bytes bytes' u now \<longleftrightarrow>
     (let player = PlayerId u;
          (r1, s) = InMemoryTokenStore_create imax bytes now player (seconds 60) InMemoryTokenStore_new;
          (r2, _) = InMemoryTokenStore_create imax bytes' now player (seconds 60) s
      in unwrap_as r1 (\<lambda>first. unwrap_as r2 (\<lambda>second. first \<noteq> second \<and> str_len first = 64)))"

lemma str_len_random_token: "str_len (random_token bytes) = 2 * length bytes"
  by (subst str_len_ascii) (auto dest!: random_token_chars simp: is_ascii_digit_def length_random_token)

lemma memory_token_tests:
  "now + seconds 60 \<le> imax \<Longrightarrow> create_resolve_revoke_roundtrip imax bytes u now"
  "now \<le> imax \<Longrightarrow> expired_token_resolves_to_none imax bytes u now"
  "unknown_token_is_none now"
  "now + seconds 60 \<le> imax \<Longrightarrow> length bytes = 32 \<Longrightarrow> random_token bytes \<noteq> random_token bytes' \<Longrightarrow>
     tokens_are_unique_per_create imax bytes bytes' u now"
  by (simp_all add: create_resolve_revoke_roundtrip_def expired_token_resolves_to_none_def unknown_token_is_none_def
      tokens_are_unique_per_create_def InMemoryTokenStore_create_def InMemoryTokenStore_resolve_def
      InMemoryTokenStore_revoke_player_def InMemoryTokenStore_new_def live_tokens_def checked_add_def hm_retain_def hm_defs
      time_defs str_len_random_token Let_def)

section \<open>cache/redis\_token\_store.rs\<close>

definition keys_are_prefixed_and_scoped :: "(uuid \<Rightarrow> rstring) \<Rightarrow> uuid \<Rightarrow> bool" where
  "keys_are_prefixed_and_scoped show_uuid u \<longleftrightarrow>
     token_key (ascii ''abc'') = (ascii ''token:abc'') \<and> starts_with (ascii ''ptokens:'') (player_index_key show_uuid (PlayerId u))"

definition connect_rejects_malformed_url_without_blocking ::
  "(rstring \<Rightarrow> ('c, rstring) result) \<Rightarrow> ('c \<Rightarrow> ('r, rstring) result option) \<Rightarrow> bool" where
  "connect_rejects_malformed_url_without_blocking client_open get_connection \<longleftrightarrow>
     err_as (RedisTokenStore_connect client_open get_connection (ascii ''not-a-redis-url''))
       (\<lambda>e. case e of Internal _ \<Rightarrow> True | _ \<Rightarrow> False)"

definition connect_times_out_when_unreachable ::
  "(rstring \<Rightarrow> ('c, rstring) result) \<Rightarrow> ('c \<Rightarrow> ('r, rstring) result option) \<Rightarrow> bool" where
  "connect_times_out_when_unreachable client_open get_connection \<longleftrightarrow>
     is_err (RedisTokenStore_connect client_open get_connection (ascii ''redis://192.0.2.1:6379''))"

lemma redis_store_tests:
  "keys_are_prefixed_and_scoped show_uuid u"
  "is_err (client_open (ascii ''not-a-redis-url'')) \<Longrightarrow> connect_rejects_malformed_url_without_blocking client_open get_connection"
  "\<forall>client. get_connection client = None \<Longrightarrow> connect_times_out_when_unreachable client_open get_connection"
  subgoal by (simp add: keys_are_prefixed_and_scoped_def token_key_def player_index_key_def starts_with_def) (simp add: ascii_def)
  subgoal by (auto simp: connect_rejects_malformed_url_without_blocking_def RedisTokenStore_connect_def is_err_def split: result.splits)
  subgoal by (simp add: connect_times_out_when_unreachable_def RedisTokenStore_connect_def is_err_def split: result.split)
  done

section \<open>persistence/repositories\<close>

definition account_and_player_roundtrip :: "uuid \<Rightarrow> uuid \<Rightarrow> uuid \<Rightarrow> datetime \<Rightarrow> datetime \<Rightarrow> bool" where
  "account_and_player_roundtrip u fa fp now now' \<longleftrightarrow>
     unwrap_as (Username_try_new (ascii ''dave'')) (\<lambda>name.
       let account = Account_register u name (PasswordHash_new (ascii ''hash'')) now;
           (saved, s) = InMemoryAccount_save account mem_store_new
       in is_ok saved \<and>
          unwrap_as (InMemoryAccount_find_by_username (ascii ''dave'') s) (\<lambda>a. a \<noteq> None) \<and>
          unwrap_as (InMemoryAccount_find_by_username (ascii ''nobody'') s) (\<lambda>a. a = None) \<and>
          unwrap_as (InMemoryAccount_find_by_id (acc_id account) s) (\<lambda>a. a \<noteq> None) \<and>
          some_as (InMemoryPlayer_seed fa fp [0x52C7, 0x8005, 0x6234, 0x592B] now' mem_store_new) (\<lambda>(player, s).
            unwrap_as (InMemoryPlayer_find_by_id (pl_id player) s) (\<lambda>p. p \<noteq> None) \<and>
            unwrap_as (InMemoryPlayer_find_by_account (pl_account_id player) s) (\<lambda>p. p \<noteq> None)))"

definition save_find_delete_roundtrip :: "uuid \<Rightarrow> datetime \<Rightarrow> bool" where
  "save_find_delete_roundtrip u now \<longleftrightarrow>
     (let room = Room_open u 4 now; i = rm_id room;
          (saved, repo) = InMemoryRoom_save room [];
          (deleted, repo') = InMemoryRoom_delete i repo
      in is_ok saved \<and> InMemoryRoom_len repo = 1 \<and>
         unwrap_as (InMemoryRoom_find_by_id i repo) (\<lambda>found. some_as found (\<lambda>r. rm_id r = i)) \<and>
         is_ok deleted \<and> unwrap_as (InMemoryRoom_find_by_id i repo') (\<lambda>found. found = None))"

definition missing_room_is_none :: "uuid \<Rightarrow> bool" where
  "missing_room_is_none u \<longleftrightarrow> unwrap_as (InMemoryRoom_find_by_id (RoomId u) []) (\<lambda>found. found = None)"

lemma dave: "Username_try_new (ascii ''dave'') = Ok (Username (ascii ''dave''))" "Nickname_try_new [0x52C7, 0x8005, 0x6234, 0x592B] = Ok (Nickname [0x52C7, 0x8005, 0x6234, 0x592B])"
  by (simp_all add: Username_try_new_def Nickname_try_new_def is_username_char_def string_eval)

lemma repository_tests:
  "account_and_player_roundtrip u fa fp now now'" "save_find_delete_roundtrip u now" "missing_room_is_none u"
  by (simp_all add: account_and_player_roundtrip_def save_find_delete_roundtrip_def missing_room_is_none_def dave
      InMemoryAccount_save_def InMemoryAccount_find_by_username_def InMemoryAccount_find_by_id_def InMemoryPlayer_seed_def
      InMemoryPlayer_find_by_id_def InMemoryPlayer_find_by_account_def mem_store_new_def InMemoryRoom_save_def
      InMemoryRoom_delete_def InMemoryRoom_find_by_id_def InMemoryRoom_len_def hm_defs account_op_defs player_op_defs
      Room_open_def ascii_eq_iff Let_def)

section \<open>persistence/converters.rs\<close>

definition carol :: "uuid \<Rightarrow> datetime \<Rightarrow> (account, domain_error) result" where
  "carol u now =
     and_then (Username_try_new (ascii ''carol'')) (\<lambda>name. Ok (Account_register u name (PasswordHash_new (ascii ''$argon2id$hash'')) now))"

definition test_account_model :: "uuid \<Rightarrow> fixed_datetime \<Rightarrow> account_model" where
  "test_account_model u created =
     \<lparr>am_id = u, am_username = (ascii ''carol''), am_password_hash = (ascii ''hash''), am_status = 0, am_banned_reason = None,
      am_banned_until = None, am_created_at = created\<rparr>"

definition test_player_model :: "uuid \<Rightarrow> uuid \<Rightarrow> fixed_datetime \<Rightarrow> player_model" where
  "test_player_model u ua created =
     \<lparr>pm_id = u, pm_account_id = ua, pm_nickname = [0x94C1, 0x5934, 0x5A03], pm_level = 1, pm_exp = 0, pm_last_login_at = None,
      pm_created_at = created\<rparr>"

definition account_roundtrip_preserves_fields :: "(uuid \<Rightarrow> rstring) \<Rightarrow> uuid \<Rightarrow> datetime \<Rightarrow> bool" where
  "account_roundtrip_preserves_fields show_uuid u now \<longleftrightarrow>
     unwrap_as (carol u now) (\<lambda>original.
       let active = account_to_active original;
           model = active\<lparr>am_banned_reason := None, am_banned_until := None\<rparr>
       in unwrap_as (account_to_domain show_uuid model) (\<lambda>restored.
            acc_id restored = acc_id original \<and> Username_as_str (acc_username restored) = (ascii ''carol'') \<and>
            PasswordHash_expose (acc_password_hash restored) = (ascii ''$argon2id$hash'') \<and>
            acc_status restored = Active \<and> acc_created_at restored = acc_created_at original))"

definition banned_status_roundtrip_with_reason_and_until ::
  "(uuid \<Rightarrow> rstring) \<Rightarrow> uuid \<Rightarrow> uuid \<Rightarrow> datetime \<Rightarrow> datetime \<Rightarrow> fixed_datetime \<Rightarrow> bool" where
  "banned_status_roundtrip_with_reason_and_until show_uuid u u' now now' created \<longleftrightarrow>
     unwrap_as (carol u now) (\<lambda>original.
       let until = now' + seconds (3 * 24 * 3600);
           active = account_to_active (Account_ban [0x6076, 0x610F, 0x5237, 0x5C4F] (Some until) original);
           model = (test_account_model u' created)\<lparr>am_banned_reason := am_banned_reason active,
                     am_banned_until := am_banned_until active, am_status := 2\<rparr>
       in am_status active = 2 \<and> am_banned_reason active = Some [0x6076, 0x610F, 0x5237, 0x5C4F] \<and>
          unwrap_as (account_to_domain show_uuid model) (\<lambda>restored. acc_status restored = Banned [0x6076, 0x610F, 0x5237, 0x5C4F] (Some until)))"

definition unknown_status_code_is_storage_error :: bool where
  "unknown_status_code_is_storage_error \<longleftrightarrow>
     err_as (status_from_code 9) (\<lambda>e. case e of RepoStorage _ \<Rightarrow> True | _ \<Rightarrow> False)"

definition player_roundtrip_preserves_fields :: "(uuid \<Rightarrow> rstring) \<Rightarrow> uuid \<Rightarrow> uuid \<Rightarrow> datetime \<Rightarrow> datetime \<Rightarrow> bool" where
  "player_roundtrip_preserves_fields show_uuid ua u now now' \<longleftrightarrow>
     unwrap_as (Nickname_try_new [0x94C1, 0x5934, 0x5A03]) (\<lambda>nickname.
       let player = Player_create u (AccountId ua) nickname now;
           player = fst (Player_gain_exp 250 player);
           player = Player_record_login now' player
       in unwrap_as (player_to_domain show_uuid (player_to_active player)) (\<lambda>restored.
            pl_id restored = pl_id player \<and> pl_level restored = pl_level player \<and> pl_exp restored = pl_exp player \<and>
            Nickname_as_str (pl_nickname restored) = [0x94C1, 0x5934, 0x5A03] \<and> pl_last_login_at restored = pl_last_login_at player))"

definition player_clamps_negative_columns :: "(uuid \<Rightarrow> rstring) \<Rightarrow> uuid \<Rightarrow> uuid \<Rightarrow> fixed_datetime \<Rightarrow> bool" where
  "player_clamps_negative_columns show_uuid u ua created \<longleftrightarrow>
     unwrap_as (player_to_domain show_uuid ((test_player_model u ua created)\<lparr>pm_level := - 5, pm_exp := - 100\<rparr>)) (\<lambda>restored.
       pl_level restored = 0 \<and> pl_exp restored = 0)"

lemma carol_names: "Username_try_new (ascii ''carol'') = Ok (Username (ascii ''carol''))" "Nickname_try_new [0x94C1, 0x5934, 0x5A03] = Ok (Nickname [0x94C1, 0x5934, 0x5A03])"
  by (simp_all add: Username_try_new_def Nickname_try_new_def is_username_char_def string_eval)

lemma converter_account_tests:
  "account_roundtrip_preserves_fields show_uuid u now"
  "banned_status_roundtrip_with_reason_and_until show_uuid u u' now now' created"
  "unknown_status_code_is_storage_error"
  by (simp_all add: account_roundtrip_preserves_fields_def banned_status_roundtrip_with_reason_and_until_def
      unknown_status_code_is_storage_error_def carol_def test_account_model_def carol_names account_to_active_def
      account_to_domain_def status_from_code_def account_op_defs PasswordHash_new_def to_utc_def to_fixed_def Let_def)

lemma converter_player_tests:
  "player_roundtrip_preserves_fields show_uuid ua u now now'"
  "player_clamps_negative_columns show_uuid u ua created"
proof -
  let ?p = "fst (Player_gain_exp 250 (Player_create u (AccountId ua) (Nickname [0x94C1, 0x5934, 0x5A03]) now))"
  have "pl_level ?p = 2 \<and> pl_exp ?p = 150"
    by (simp add: Player_create_def Player_gain_exp_def gain_exp_loop.simps [of 1] gain_exp_loop.simps [of 2] exp_to_next_def
        EXP_PER_LEVEL_def MAX_LEVEL_def saturating_add_def saturating_mul_def)
  moreover have "pl_id ?p = PlayerId u" "pl_account_id ?p = AccountId ua" "pl_nickname ?p = Nickname [0x94C1, 0x5934, 0x5A03]"
    by (simp_all add: Player_create_def Player_gain_exp_def split: prod.split)
  ultimately show "player_roundtrip_preserves_fields show_uuid ua u now now'"
    by (simp add: player_roundtrip_preserves_fields_def carol_names player_to_active_def player_to_domain_def level_to_row_def
        exp_to_row_def level_from_row_def exp_from_row_def player_op_defs to_utc_def to_fixed_def Let_def)
  show "player_clamps_negative_columns show_uuid u ua created"
    by (simp add: player_clamps_negative_columns_def test_player_model_def player_to_domain_def carol_names level_from_row_def
        exp_from_row_def player_op_defs)
qed

section \<open>events.rs\<close>

text \<open>
  The tests hold for every broadcast channel with the documented behaviour. What the receiver reads, in order,
  is \<open>pending\<close>; a receiver that lags behind reads an error first and then the remaining events.
\<close>

definition is_level_up :: "u32 \<Rightarrow> domain_event \<Rightarrow> bool" where
  "is_level_up level e \<longleftrightarrow> (case e of PlayerLeveledUp _ new_level _ \<Rightarrow> new_level = level | _ \<Rightarrow> False)"

definition subscribers_receive_events_in_order ::
  "('c, 'r) broadcast \<Rightarrow> ('c \<Rightarrow> 'r \<Rightarrow> domain_event list) \<Rightarrow> (u32 \<Rightarrow> uuid \<times> datetime) \<Rightarrow> bool" where
  "subscribers_receive_events_in_order B pending draw \<longleftrightarrow>
     (let leveled_up = (\<lambda>level. PlayerLeveledUp (PlayerId (fst (draw level))) level (snd (draw level)));
          publisher = InMemoryEventPublisher_new B 16;
          (rx, publisher) = InMemoryEventPublisher_subscribe B publisher;
          (r1, publisher) = InMemoryEventPublisher_publish B (leveled_up 2) publisher;
          (r2, publisher) = InMemoryEventPublisher_publish B (leveled_up 3) publisher
      in is_ok r1 \<and> is_ok r2 \<and> 2 \<le> length (pending publisher rx) \<and>
         is_level_up 2 (pending publisher rx ! 0) \<and> is_level_up 3 (pending publisher rx ! 1) \<and>
         InMemoryEventPublisher_subscriber_count B publisher = 1)"

definition publish_without_subscribers_is_ok :: "('c, 'r) broadcast \<Rightarrow> uuid \<Rightarrow> datetime \<Rightarrow> bool" where
  "publish_without_subscribers_is_ok B u now \<longleftrightarrow>
     is_ok (fst (InMemoryEventPublisher_publish B (RoomClosedEvent (RoomId u) [0x505C, 0x673A] now) (InMemoryEventPublisher_new B 4)))"

definition capacity_bounds_backlog ::
  "('c, 'r) broadcast \<Rightarrow> ('c \<Rightarrow> 'r \<Rightarrow> domain_event list) \<Rightarrow> (u32 \<Rightarrow> uuid \<times> datetime) \<Rightarrow> bool" where
  "capacity_bounds_backlog B pending draw \<longleftrightarrow>
     (let leveled_up = (\<lambda>level. PlayerLeveledUp (PlayerId (fst (draw level))) level (snd (draw level)));
          (rx, publisher) = InMemoryEventPublisher_subscribe B (InMemoryEventPublisher_new B 2);
          publisher = publish_all B (map leveled_up [1, 2, 3, 4]) publisher
      in pending publisher rx \<noteq> [] \<and> is_level_up 4 (last (pending publisher rx)))"

lemma subscribed:
  assumes "broadcast_spec B members pending cap" and "0 < n" and "bc_subscribe B (bc_channel B n) = (rx, c)"
  shows "rx \<in> members c" and "pending c rx = []" and "cap c = n" and "members c = {rx}"
  using assms unfolding broadcast_spec_def by (metis (mono_tags, lifting) assms(3) case_prod_conv insertI1)+

lemma event_bus_tests:
  assumes "broadcast_spec B members pending cap"
  shows "subscribers_receive_events_in_order B pending draw" and "publish_without_subscribers_is_ok B u now"
    and "capacity_bounds_backlog B pending draw"
proof -
  let ?ev = "\<lambda>level. PlayerLeveledUp (PlayerId (fst (draw level))) level (snd (draw level))"
  have pub: "\<exists>c'. InMemoryEventPublisher_publish B e c = (Ok (), c')" for e c
    by (simp add: InMemoryEventPublisher_publish_def split: prod.split)
  then show "publish_without_subscribers_is_ok B u now"
    unfolding publish_without_subscribers_is_ok_def by (metis fst_conv is_ok.simps(1))
  obtain rx c where sub: "bc_subscribe B (bc_channel B 2) = (rx, c)" by (rule prod.exhaust)
  have new2: "InMemoryEventPublisher_new B 2 = bc_channel B 2" by (simp add: InMemoryEventPublisher_new_def max_def)
  have "pending (publish_all B (map ?ev [1, 2, 3, 4]) c) rx = [?ev 3, ?ev 4]"
    using publish_all_effect [OF assms subscribed(1) [OF assms _ sub], of "map ?ev [1, 2, 3, 4]"] subscribed [OF assms _ sub]
    by (simp add: newest_def)
  then show "capacity_bounds_backlog B pending draw"
    using sub new2 by (simp add: capacity_bounds_backlog_def InMemoryEventPublisher_subscribe_def is_level_up_def)
  obtain rx c where sub: "bc_subscribe B (bc_channel B 16) = (rx, c)" by (rule prod.exhaust)
  note s = subscribed [OF assms _ sub, simplified]
  obtain c1 where c1: "InMemoryEventPublisher_publish B (?ev 2) c = (Ok (), c1)" using pub by blast
  obtain c2 where c2: "InMemoryEventPublisher_publish B (?ev 3) c1 = (Ok (), c2)" using pub by blast
  have p: "pending c2 rx = [?ev 2, ?ev 3]"
    using publish_all_effect [OF assms s(1), of "[?ev 2, ?ev 3]"] s c1 c2 by (simp add: newest_def)
  have "members c2 = {rx}" using s(4) publish_effect(1) [OF assms] c1 c2 by (metis snd_conv)
  then have "bc_receiver_count B c2 = 1" using assms unfolding broadcast_spec_def by (metis card_1_singleton_iff One_nat_def)
  then show "subscribers_receive_events_in_order B pending draw"
    using sub p c1 c2
    by (simp add: subscribers_receive_events_in_order_def InMemoryEventPublisher_subscribe_def InMemoryEventPublisher_new_def
        InMemoryEventPublisher_subscriber_count_def is_level_up_def)
qed

section \<open>password.rs\<close>

text \<open>\<open>A\<close> is the Argon2 crate, \<open>mp\<close> the largest number of permits of a semaphore.\<close>

definition rejects_invalid_params :: "('p, 'h) argon2 \<Rightarrow> nat \<Rightarrow> bool" where
  "rejects_invalid_params A mp \<longleftrightarrow>
     is_err (Argon2PasswordHasher_new A mp 1 0 0 2) \<and> is_err (Argon2PasswordHasher_new A mp 8192 2 1 0)"

definition verify_accepts_correct_and_rejects_wrong_password :: "('p, 'h) argon2 \<Rightarrow> nat \<Rightarrow> u8 list \<Rightarrow> bool" where
  "verify_accepts_correct_and_rejects_wrong_password A mp salt \<longleftrightarrow>
     unwrap_as (Argon2PasswordHasher_new A mp 8192 2 1 2) (\<lambda>hasher.
       unwrap_as (Argon2_hash A salt hasher (ascii ''super-secret'')) (\<lambda>hash.
         Argon2_verify A hasher (ascii ''super-secret'') hash = Ok True \<and> Argon2_verify A hasher (ascii ''wrong-password'') hash = Ok False))"

definition verify_across_instances_uses_embedded_params :: "('p, 'h) argon2 \<Rightarrow> nat \<Rightarrow> u8 list \<Rightarrow> bool" where
  "verify_across_instances_uses_embedded_params A mp salt \<longleftrightarrow>
     unwrap_as (Argon2PasswordHasher_new A mp 8192 2 1 2) (\<lambda>legacy.
       unwrap_as (Argon2_hash A salt legacy (ascii ''super-secret'')) (\<lambda>hash.
         unwrap_as (Argon2PasswordHasher_new A mp 16384 3 2 2) (\<lambda>stricter.
           Argon2_verify A stricter (ascii ''super-secret'') hash = Ok True)))"

definition malformed_hash_is_internal_error :: "('p, 'h) argon2 \<Rightarrow> nat \<Rightarrow> bool" where
  "malformed_hash_is_internal_error A mp \<longleftrightarrow>
     unwrap_as (Argon2PasswordHasher_new A mp 8192 2 1 2) (\<lambda>hasher.
       err_as (Argon2_verify A hasher (ascii ''pw'') (ascii ''not-a-phc-string'')) (\<lambda>e. case e of Internal _ \<Rightarrow> True | _ \<Rightarrow> False))"

definition cancelled_request_keeps_worker_permit_until_completion :: "('p, 'h) argon2 \<Rightarrow> nat \<Rightarrow> u8 list \<Rightarrow> bool" where
  "cancelled_request_keeps_worker_permit_until_completion A mp salt \<longleftrightarrow>
     unwrap_as (Argon2PasswordHasher_new A mp 8192 2 1 1) (\<lambda>hasher.
       let (started, h1) = run_start 0 hasher;
           h2 = run_cancel 0 h1;
           (answer, h3) = run_end 0 (WorkReturned (Ok ())) h2
       in is_ok started \<and> Argon2_hash A salt h1 (ascii ''pw'') = Err Busy \<and>
          Argon2_verify A h2 (ascii ''pw'') (ascii ''hash'') = Err Busy \<and>
          answer = None \<and> 0 < ah_available h3 \<and> is_ok (Argon2_hash A salt h3 (ascii ''pw'')))"

definition worker_error_and_panic_release_capacity :: "('p, 'h) argon2 \<Rightarrow> nat \<Rightarrow> u8 list \<Rightarrow> bool" where
  "worker_error_and_panic_release_capacity A mp salt \<longleftrightarrow>
     unwrap_as (Argon2PasswordHasher_new A mp 8192 2 1 1) (\<lambda>hasher.
       let (s1, h) = run_start 0 hasher;
           (failure, h) = run_end 0 (WorkReturned (Err (Internal (ascii ''test failure'')) :: (unit, app_error) result)) h;
           (s2, h) = run_start 1 h;
           (panic, h) = run_end 1 (WorkPanicked :: unit work_end) h
       in is_ok s1 \<and> failure = Some (Err (Internal (ascii ''test failure''))) \<and>
          is_ok s2 \<and> some_as panic (\<lambda>r. err_as r (\<lambda>e. case e of Internal _ \<Rightarrow> True | _ \<Rightarrow> False)) \<and>
          is_ok (Argon2_hash A salt h (ascii ''pw'')))"

text \<open>
  What the tests need of the crate beyond \<open>argon2_spec\<close>: it accepts the two sound parameter sets and refuses the
  unsound one, hashes, refuses a wrong password and a string that is no hash.
\<close>

definition argon2_in_tests :: "('p, 'h) argon2 \<Rightarrow> bool" where
  "argon2_in_tests A \<longleftrightarrow> argon2_spec A \<and>
     is_err (a2_params_new A 1 0 0) \<and> is_ok (a2_params_new A 8192 2 1) \<and> is_ok (a2_params_new A 16384 3 2) \<and>
     (\<forall>salt params pw. is_ok (a2_hash_password A salt params pw)) \<and>
     (\<forall>salt params pw pw' s parsed. a2_hash_password A salt params pw = Ok s \<longrightarrow> a2_phc_new A s = Ok parsed \<longrightarrow> pw' \<noteq> pw \<longrightarrow>
        a2_verify_password A pw' parsed = Err PasswordInvalid) \<and>
     is_err (a2_phc_new A (ascii ''not-a-phc-string''))"

lemma hasher_made:
  assumes "argon2_in_tests A" and "2 \<le> mp" and "n = 1 \<or> n = 2" and "(m, i, p) = (8192, 2, 1) \<or> (m, i, p) = (16384, 3, 2)"
  obtains params where "Argon2PasswordHasher_new A mp m i p n = Ok \<lparr>ah_params = params, ah_available = unat n, ah_workers = []\<rparr>"
  using assms by (auto simp: argon2_in_tests_def Argon2PasswordHasher_new_def is_ok_iff)

lemma hash_made: "argon2_in_tests A \<Longrightarrow> \<exists>s. a2_hash_password A salt params pw = Ok s"
  unfolding argon2_in_tests_def is_ok_iff by blast

lemma password_verify_tests:
  assumes A: "argon2_in_tests A" and mp: "2 \<le> mp"
  shows "verify_accepts_correct_and_rejects_wrong_password A mp salt" and "verify_across_instances_uses_embedded_params A mp salt"
proof -
  obtain ps where h: "Argon2PasswordHasher_new A mp 8192 2 1 2 = Ok \<lparr>ah_params = ps, ah_available = 2, ah_workers = []\<rparr>"
    using hasher_made [OF A mp, of 2 8192 2 1] by auto
  obtain ps' where h': "Argon2PasswordHasher_new A mp 16384 3 2 2 = Ok \<lparr>ah_params = ps', ah_available = 2, ah_workers = []\<rparr>"
    using hasher_made [OF A mp, of 2 16384 3 2] by auto
  obtain s where s: "a2_hash_password A salt ps (ascii ''super-secret'') = Ok s" using hash_made [OF A] by blast
  then obtain parsed where p: "a2_phc_new A s = Ok parsed" "a2_verify_password A (ascii ''super-secret'') parsed = Ok ()"
    using A unfolding argon2_in_tests_def argon2_spec_def by blast
  have "(ascii ''wrong-password'') \<noteq> (ascii ''super-secret'')" by (simp add: ascii_eq_iff)
  then have w: "a2_verify_password A (ascii ''wrong-password'') parsed = Err PasswordInvalid"
    using A s p(1) unfolding argon2_in_tests_def by blast
  show "verify_accepts_correct_and_rejects_wrong_password A mp salt" "verify_across_instances_uses_embedded_params A mp salt"
    using h h' s p w
    by (simp_all add: verify_accepts_correct_and_rejects_wrong_password_def verify_across_instances_uses_embedded_params_def
        Argon2_hash_def Argon2_verify_def run_call_free hash_work_def verify_work_def)
qed

lemma password_error_tests:
  assumes A: "argon2_in_tests A" and mp: "2 \<le> mp"
  shows "rejects_invalid_params A mp" and "malformed_hash_is_internal_error A mp"
proof -
  obtain ps where h: "Argon2PasswordHasher_new A mp 8192 2 1 2 = Ok \<lparr>ah_params = ps, ah_available = 2, ah_workers = []\<rparr>"
    using hasher_made [OF A mp, of 2 8192 2 1] by auto
  show "rejects_invalid_params A mp"
    using A mp by (auto simp: rejects_invalid_params_def argon2_in_tests_def Argon2PasswordHasher_new_def is_err_def is_ok_iff
        and_then_Ok_iff)
  obtain e where "a2_phc_new A (ascii ''not-a-phc-string'') = Err e"
    using A by (cases "a2_phc_new A (ascii ''not-a-phc-string'')") (auto simp: argon2_in_tests_def is_err_def)
  with h show "malformed_hash_is_internal_error A mp"
    by (simp add: malformed_hash_is_internal_error_def Argon2_verify_def run_call_free verify_work_def)
qed

lemma password_permit_tests:
  assumes A: "argon2_in_tests A" and mp: "2 \<le> mp"
  shows "cancelled_request_keeps_worker_permit_until_completion A mp salt" and "worker_error_and_panic_release_capacity A mp salt"
proof -
  obtain ps where h: "Argon2PasswordHasher_new A mp 8192 2 1 1 = Ok \<lparr>ah_params = ps, ah_available = 1, ah_workers = []\<rparr>"
    using hasher_made [OF A mp, of 1 8192 2 1] by auto
  obtain s where s: "a2_hash_password A salt ps (ascii ''pw'') = Ok s" using hash_made [OF A] by blast
  show "cancelled_request_keeps_worker_permit_until_completion A mp salt" "worker_error_and_panic_release_capacity A mp salt"
    using h s
    by (simp_all add: cancelled_request_keeps_worker_permit_until_completion_def worker_error_and_panic_release_capacity_def
        run_start_def run_cancel_def run_end_def Argon2_hash_def Argon2_verify_def run_call_free run_call_busy hash_work_def)
qed

end
