(* ===== verification/LX_TestsNet.thy ===== *)
theory LX_TestsNet
  imports LX_TestKit LX_Outbound LX_Transport LX_Protocol
begin

text \<open>
  The unit tests of \<^verbatim>\<open>crates/net-kit\<close> (codec, errors, outbound queue, connection, TLS) and of \<^verbatim>\<open>crates/protocol\<close>.
  A \<^verbatim>\<open>duplex\<close> pipe is the list of its bytes with the error that reading past them gives: the end of the
  stream when the writer was dropped, any error \<open>after\<close> otherwise. A channel is a \<open>list_chan\<close>.
\<close>

section \<open>codec.rs\<close>

definition codec_MAX :: nat where
  "codec_MAX = 64"

text \<open>\<^verbatim>\<open>assert!(matches!(...))\<close> on the errors.\<close>

definition is_too_large :: "net_error \<Rightarrow> bool" where
  "is_too_large e \<longleftrightarrow> (case e of FrameTooLarge _ _ \<Rightarrow> True | _ \<Rightarrow> False)"

definition is_malformed :: "net_error \<Rightarrow> bool" where
  "is_malformed e \<longleftrightarrow> (case e of Malformed _ \<Rightarrow> True | _ \<Rightarrow> False)"

definition encode_prefix_is_big_endian_total_len :: bool where
  "encode_prefix_is_big_endian_total_len \<longleftrightarrow>
     unwrap_as (encode_frame (Frame_new 0x0102 [0x68, 0x69]) codec_MAX) (\<lambda>bytes.
       take 4 bytes = u32_to_be_bytes 4 \<and> take 2 (drop 4 bytes) = [0x01, 0x02] \<and> drop 6 bytes = [0x68, 0x69])"

definition encode_rejects_oversize_and_allows_empty_body :: bool where
  "encode_rejects_oversize_and_allows_empty_body \<longleftrightarrow>
     encode_frame (Frame_new 1 (replicate codec_MAX 0)) codec_MAX = Err (FrameTooLarge (codec_MAX + 2) codec_MAX) \<and>
     is_ok (encode_frame (Frame_new 1 []) codec_MAX)"

definition decode_wire_len_validates_bounds :: bool where
  "decode_wire_len_validates_bounds \<longleftrightarrow>
     unwrap_as (decode_wire_len (u32_to_be_bytes (of_nat MIN_FRAME_LEN)) codec_MAX) (\<lambda>n. n = MIN_FRAME_LEN) \<and>
     err_as (decode_wire_len (u32_to_be_bytes 1) codec_MAX) is_malformed \<and>
     err_as (decode_wire_len (u32_to_be_bytes (of_nat codec_MAX + 1)) codec_MAX) is_too_large"

definition read_write_roundtrip :: "io_error \<Rightarrow> bool" where
  "read_write_roundtrip after \<longleftrightarrow>
     (let sent = Frame_new 0x00ff [0x70, 0x61, 0x79, 0x6C, 0x6F, 0x61, 0x64];
          (written, pipe) = write_frame list_write sent codec_MAX []
      in unwrap_as written (\<lambda>_.
           unwrap_as (fst (read_frame list_read codec_MAX (pipe, after))) (\<lambda>received. received = Some sent)))"

definition read_frame_returns_none_on_clean_eof :: bool where
  "read_frame_returns_none_on_clean_eof \<longleftrightarrow>
     unwrap_as (fst (read_frame list_read codec_MAX ([], eof))) (\<lambda>received. received = None)"

definition read_frame_rejects_oversized_declaration :: bool where
  "read_frame_rejects_oversized_declaration \<longleftrightarrow>
     err_as (fst (read_frame list_read codec_MAX (u32_to_be_bytes (of_nat codec_MAX + 1), eof))) is_too_large"

definition read_frame_rejects_malformed_short_frame :: bool where
  "read_frame_rejects_malformed_short_frame \<longleftrightarrow>
     err_as (fst (read_frame list_read codec_MAX (u32_to_be_bytes 1, eof))) is_malformed"

lemmas frame_eval = Frame_new_def wire_len_def OPCODE_BYTES_def MIN_FRAME_LEN_def LENGTH_PREFIX_BYTES_def codec_MAX_def
  is_too_large_def is_malformed_def

text \<open>A frame that was written is the next one read, whatever follows it.\<close>

lemma read_written:
  assumes "wire_len f \<le> mx" and "mx < 2 ^ 32"
  shows "fst (read_frame list_read mx (encoded f @ rest, after)) = Ok (Some f)"
proof -
  from assms have "encode_frame f mx = Ok (encoded f)" and "wire_len f < 2 ^ 32" by (simp_all add: encode_frame_cases)
  from read_frame_encoded [OF list_read_spec this, of "(encoded f @ rest, after)" rest] show ?thesis by auto
qed

lemma read_declared:
  "fst (read_frame list_read mx (u32_to_be_bytes n, after)) =
     (case decode_wire_len (u32_to_be_bytes n) mx of Err e \<Rightarrow> Err e | Ok len \<Rightarrow> Err (NetIo after))"
  by (simp add: read_frame_def list_read_def LENGTH_PREFIX_BYTES_def OPCODE_BYTES_def split: result.split)

lemma declared_lens:
  "decode_wire_len (u32_to_be_bytes 1) codec_MAX = Err (Malformed (pre_frame_len @ show_nat 1 @ mid_frame_len))"
  "decode_wire_len (u32_to_be_bytes (of_nat codec_MAX + 1)) codec_MAX = Err (FrameTooLarge 65 64)"
  by (simp_all add: decode_wire_len_def u32_be_roundtrip frame_eval)

lemma codec_tests:
  "encode_prefix_is_big_endian_total_len" "encode_rejects_oversize_and_allows_empty_body"
  "decode_wire_len_validates_bounds" "read_write_roundtrip after" "read_frame_returns_none_on_clean_eof"
  "read_frame_rejects_oversized_declaration" "read_frame_rejects_malformed_short_frame"
proof -
  show "encode_prefix_is_big_endian_total_len"
    by (simp add: encode_prefix_is_big_endian_total_len_def encode_frame_def u32_to_be_bytes_def u16_to_be_bytes_def frame_eval)
  show "encode_rejects_oversize_and_allows_empty_body"
    by (simp add: encode_rejects_oversize_and_allows_empty_body_def encode_frame_def frame_eval)
  show "decode_wire_len_validates_bounds"
    unfolding decode_wire_len_validates_bounds_def declared_lens
    by (simp add: decode_wire_len_def u32_be_roundtrip frame_eval)
  show "read_write_roundtrip after"
    unfolding read_write_roundtrip_def
    using read_written [of "Frame_new 0x00ff [0x70, 0x61, 0x79, 0x6C, 0x6F, 0x61, 0x64]" codec_MAX "[]" after]
    by (simp add: write_frame_def encode_frame_cases list_write_def frame_eval)
  show "read_frame_returns_none_on_clean_eof"
    by (simp add: read_frame_returns_none_on_clean_eof_def read_frame_def list_read_def eof_def LENGTH_PREFIX_BYTES_def)
  show "read_frame_rejects_oversized_declaration"
    unfolding read_frame_rejects_oversized_declaration_def read_declared declared_lens by (simp add: frame_eval)
  show "read_frame_rejects_malformed_short_frame"
    unfolding read_frame_rejects_malformed_short_frame_def read_declared declared_lens by (simp add: frame_eval)
qed

section \<open>error.rs\<close>

definition disconnect_detection :: bool where
  "disconnect_detection \<longleftrightarrow>
     is_disconnect (NetIo \<lparr>io_err_kind = UnexpectedEof, io_err_text = (ascii ''eof'')\<rparr>) \<and>
     is_disconnect NetClosed \<and> \<not> is_disconnect QueueFull \<and>
     NetError_display (FrameTooLarge 10 4) = ([0x5E27, 0x8D85, 0x9650] @ ascii '': '' @ [0x58F0, 0x660E] @ ascii '' 10 '' @ [0x5B57, 0x8282] @ ascii '','' @ [0x4E0A, 0x9650] @ ascii '' 4 '' @ [0x5B57, 0x8282])"

lemma error_tests: "disconnect_detection"
  by (simp add: disconnect_detection_def pre_frame_too_large_def mid_frame_too_large_def suf_bytes_def string_eval show_nat.simps)

section \<open>backpressure.rs\<close>

definition byte_frame :: "u8 \<Rightarrow> frame" where
  "byte_frame n = Frame_new (ucast n) [n]"

definition frame_channel :: "nat \<Rightarrow> frame list_chan" where
  "frame_channel cap = \<lparr>lc_items = [], lc_cap = cap, lc_closed = False\<rparr>"

text \<open>\<^verbatim>\<open>rx.recv()\<close> on a channel that holds a frame, and \<^verbatim>\<open>drop(rx)\<close>.\<close>

definition recv_frame :: "frame list_chan outbound \<Rightarrow> frame option \<times> frame list_chan outbound" where
  "recv_frame s =
     (case lc_items (ob_tx s) of
        [] \<Rightarrow> (None, s)
      | f # fs \<Rightarrow> (Some f, s\<lparr>ob_tx := (ob_tx s)\<lparr>lc_items := fs\<rparr>\<rparr>))"

definition drop_receiver :: "frame list_chan outbound \<Rightarrow> frame list_chan outbound" where
  "drop_receiver s = s\<lparr>ob_tx := (ob_tx s)\<lparr>lc_items := [], lc_closed := True\<rparr>\<rparr>"

definition bounded_queue_reports_full_then_closed :: bool where
  "bounded_queue_reports_full_then_closed \<longleftrightarrow>
     (let sender = OutboundSender_new (frame_channel 2);
          (sent1, sender) = try_send_frame list_mpsc (byte_frame 1) sender;
          (sent2, sender) = try_send_frame list_mpsc (byte_frame 2) sender;
          (sent3, sender) = try_send_frame list_mpsc (byte_frame 3) sender;
          (received, sender) = recv_frame sender;
          (sent4, sender') = try_send_frame list_mpsc (byte_frame 4) sender;
          (sent5, sender'') = try_send_frame list_mpsc (byte_frame 4) (drop_receiver sender')
      in sent1 = Ok () \<and> sent2 = Ok () \<and> sent3 = Err QueueFull \<and> received \<noteq> None \<and>
         OutboundSender_is_closed list_mpsc sender \<and> sent4 = Err NetClosed \<and> sent5 = Err NetClosed \<and>
         OutboundSender_is_closed list_mpsc sender'')"

text \<open>
  The second send waits until the receiver has taken the first frame and is not cut off, so it completes
  on the channel that \<^verbatim>\<open>recv\<close> leaves.
\<close>

definition send_frame_waits_for_capacity_and_fails_when_closed :: "bool \<Rightarrow> bool" where
  "send_frame_waits_for_capacity_and_fails_when_closed closed_first \<longleftrightarrow>
     (let sender = OutboundSender_new (frame_channel 1);
          (sent1, sender) = send_frame list_mpsc False (byte_frame 1) sender;
          (received, sender) = recv_frame sender;
          (sent2, sender) = send_frame list_mpsc False (byte_frame 2) sender;
          (sent3, sender) = send_frame list_mpsc closed_first (byte_frame 3) (drop_receiver sender)
      in sent1 = Ok () \<and> received = Some (byte_frame 1) \<and> sent2 = Ok () \<and> sent3 = Err NetClosed)"

definition capacity_reflects_bound :: bool where
  "capacity_reflects_bound \<longleftrightarrow> OutboundSender_capacity lc_cap (OutboundSender_new (frame_channel 7)) = 7"

lemmas queue_eval = byte_frame_def frame_channel_def recv_frame_def drop_receiver_def OutboundSender_new_def
  OutboundSender_is_closed_def OutboundSender_disconnect_def try_send_frame_def send_frame_def list_try_send_def Let_def is_err_def

lemma backpressure_tests:
  "bounded_queue_reports_full_then_closed" "send_frame_waits_for_capacity_and_fails_when_closed closed_first"
  "capacity_reflects_bound"
  by (simp_all add: capacity_reflects_bound_def OutboundSender_capacity_def bounded_queue_reports_full_then_closed_def send_frame_waits_for_capacity_and_fails_when_closed_def queue_eval)

section \<open>connection.rs\<close>

definition connection_CONFIG :: connection_config where
  "connection_CONFIG =
     \<lparr>cc_write_drain_timeout = millis 50, cc_max_frame_size = 1024, cc_send_queue_capacity = 4\<rparr>"

definition queue_of :: "frame list_chan outbound \<Rightarrow> frame list" where
  "queue_of s = lc_items (ob_tx s)"

text \<open>The peer reads while the writer runs: after \<open>Suc n\<close> frames at least the only queued one is on the wire.\<close>

definition frames_flow_from_sender_to_reader :: "nat \<Rightarrow> nat \<Rightarrow> io_error \<Rightarrow> io_error \<Rightarrow> bool" where
  "frames_flow_from_sender_to_reader n k after after' \<longleftrightarrow>
     (let mx = cc_max_frame_size connection_CONFIG;
          hello = Frame_new 0x0001 [0x68, 0x65, 0x6C, 0x6C, 0x6F];
          ack = Frame_new 0x8002 [0x61, 0x63, 0x6B];
          (queued, sender) = try_send_frame list_mpsc hello
             (OutboundSender_new (frame_channel (cc_send_queue_capacity connection_CONFIG)));
          wire = connection_writer list_write connection_CONFIG (CutOff (Suc n) k) (queue_of sender) [];
          (written, back) = write_frame list_write ack mx []
      in queued = Ok () \<and> fst (read_frame list_read mx (wire, after)) = Ok (Some hello) \<and>
         written = Ok () \<and> fst (read_frame list_read mx (back, after')) = Ok (Some ack))"

definition dropping_sender_flushes_queued_frame_for_reading_peer :: "nat \<Rightarrow> nat \<Rightarrow> io_error \<Rightarrow> bool" where
  "dropping_sender_flushes_queued_frame_for_reading_peer n k after \<longleftrightarrow>
     (let (queued, sender) = try_send_frame list_mpsc (Frame_new 1 (replicate 128 7))
             (OutboundSender_new (frame_channel (cc_send_queue_capacity connection_CONFIG)));
          wire = connection_writer list_write connection_CONFIG (DrainDeadline (Suc n) k) (queue_of sender) []
      in queued = Ok () \<and>
         unwrap_as (fst (read_frame list_read 1024 (wire, after))) (\<lambda>received.
           some_as received (\<lambda>f. fr_payload f = replicate 128 7)))"

definition oversized_frame_is_skipped_not_fatal :: bool where
  "oversized_frame_is_skipped_not_fatal \<longleftrightarrow>
     (let (queued, sender) = try_send_frame list_mpsc (Frame_new 1 (replicate (cc_max_frame_size connection_CONFIG) 0))
             (OutboundSender_new (frame_channel (cc_send_queue_capacity connection_CONFIG)))
      in is_ok queued \<and> connection_writer list_write connection_CONFIG RunsOut (queue_of sender) [] = [])"

lemma first_send:
  "0 < cap \<Longrightarrow> try_send_frame list_mpsc f (OutboundSender_new (frame_channel cap)) =
     (Ok (), \<lparr>ob_tx = \<lparr>lc_items = [f], lc_cap = cap, lc_closed = False\<rparr>, ob_disconnected = False\<rparr>)"
  by (simp add: queue_eval)

lemma write_one: "write_task list_write mx [f] [] = (if wire_len f \<le> mx then encoded f else [])"
  by (simp add: encode_frame_cases list_write_def)

lemma write_one_cut: "write_task_cut list_write mx (Suc n) k [f] [] = (if wire_len f \<le> mx then encoded f else [])"
  by (simp add: encode_frame_cases list_write_def)

lemma connection_tests:
  "frames_flow_from_sender_to_reader n k after after'" "dropping_sender_flushes_queued_frame_for_reading_peer n k after"
  "oversized_frame_is_skipped_not_fatal"
proof -
  note prep = first_send queue_of_def connection_CONFIG_def connection_writer_def Let_def
  show "frames_flow_from_sender_to_reader n k after after'"
    using read_written [where rest = "[]"]
    by (simp add: frames_flow_from_sender_to_reader_def prep write_one_cut write_frame_def encode_frame_cases list_write_def
        frame_eval del: write_task_cut.simps)
  show "dropping_sender_flushes_queued_frame_for_reading_peer n k after"
    using read_written [of "Frame_new 1 (replicate 128 7)" 1024 "[]" after]
    by (simp add: dropping_sender_flushes_queued_frame_for_reading_peer_def prep write_one_cut frame_eval del: write_task_cut.simps)
  show "oversized_frame_is_skipped_not_fatal"
    by (simp add: oversized_frame_is_skipped_not_fatal_def prep write_one frame_eval del: write_task.simps)
qed

section \<open>tls.rs\<close>

text \<open>
  What the tests use of the TLS library: \<open>cert\<close> and \<open>key\<close> are a matching pair in PEM form, \<open>other_key\<close> is the key of
  another certificate, and text without a PEM section holds neither certificate nor key.
\<close>

definition tls_in_tests :: "('b, 'x, 'y, 'g) tls_lib \<Rightarrow> rstring \<Rightarrow> rstring \<Rightarrow> rstring \<Rightarrow> bool" where
  "tls_in_tests T cert key other_key \<longleftrightarrow>
     (\<exists>b chain k other g e. tl_with_versions T [TLS13] = Ok b \<and>
        tl_certs T (as_bytes cert) = Ok chain \<and> chain \<noteq> [] \<and>
        tl_key T (as_bytes key) = Ok k \<and> tl_with_single_cert T b chain k = Ok g \<and>
        tl_key T (as_bytes other_key) = Ok other \<and> tl_with_single_cert T b chain other = Err e) \<and>
     tl_certs T (as_bytes (ascii ''not a pem'')) = Ok [] \<and> is_err (tl_key T (as_bytes (ascii ''broken'')))"

definition is_tls_config :: "net_error \<Rightarrow> bool" where
  "is_tls_config e \<longleftrightarrow> (case e of NetTlsConfig _ \<Rightarrow> True | _ \<Rightarrow> False)"

definition builds_acceptor_from_test_pem :: "('g \<Rightarrow> 'a) \<Rightarrow> ('b, 'x, 'y, 'g) tls_lib \<Rightarrow> rstring \<Rightarrow> rstring \<Rightarrow> bool" where
  "builds_acceptor_from_test_pem mk T cert key \<longleftrightarrow> is_ok (server_acceptor_from_pem_bytes mk T cert key)"

definition rejects_bad_pem :: "('g \<Rightarrow> 'a) \<Rightarrow> ('b, 'x, 'y, 'g) tls_lib \<Rightarrow> rstring \<Rightarrow> bool" where
  "rejects_bad_pem mk T cert \<longleftrightarrow>
     is_err (server_acceptor_from_pem_bytes mk T (ascii ''not a pem'') (ascii ''not a pem'')) \<and>
     err_as (server_acceptor_from_pem_bytes mk T cert (ascii ''broken'')) is_tls_config"

definition rejects_mismatched_key :: "('g \<Rightarrow> 'a) \<Rightarrow> ('b, 'x, 'y, 'g) tls_lib \<Rightarrow> rstring \<Rightarrow> rstring \<Rightarrow> bool" where
  "rejects_mismatched_key mk T cert other_key \<longleftrightarrow> is_err (server_acceptor_from_pem_bytes mk T cert other_key)"

definition missing_file_is_config_error ::
  "('g \<Rightarrow> 'a) \<Rightarrow> ('b, 'x, 'y, 'g) tls_lib \<Rightarrow> (rstring \<Rightarrow> (u8 list, rstring) result) \<Rightarrow> (rstring \<Rightarrow> rstring) \<Rightarrow> rstring option \<Rightarrow> bool" where
  "missing_file_is_config_error mk T read dbg home \<longleftrightarrow>
     err_as (server_acceptor_from_files mk T read dbg home (ascii ''/nonexistent.crt'') (ascii ''/nonexistent.key'')) is_tls_config"

lemma tls_tests:
  assumes "tls_in_tests T cert key other_key"
  shows "builds_acceptor_from_test_pem mk T cert key" "rejects_bad_pem mk T cert" "rejects_mismatched_key mk T cert other_key"
proof -
  obtain e' where bad: "tl_key T (as_bytes (ascii ''broken'')) = Err e'"
    using assms by (cases "tl_key T (as_bytes (ascii ''broken''))") (auto simp: tls_in_tests_def is_err_def)
  obtain b chain k other g e where T: "tl_with_versions T [TLS13] = Ok b" "tl_certs T (as_bytes cert) = Ok chain" "chain \<noteq> []"
      "tl_key T (as_bytes key) = Ok k" "tl_with_single_cert T b chain k = Ok g"
      "tl_key T (as_bytes other_key) = Ok other" "tl_with_single_cert T b chain other = Err e"
      "tl_certs T (as_bytes (ascii ''not a pem'')) = Ok []"
    using assms unfolding tls_in_tests_def by blast
  note build = server_acceptor_from_pem_bytes_def server_config_from_pem_bytes_def build_config_def
  show "builds_acceptor_from_test_pem mk T cert key" by (simp add: builds_acceptor_from_test_pem_def build T)
  show "rejects_bad_pem mk T cert" by (simp add: rejects_bad_pem_def build T bad is_tls_config_def is_err_def)
  show "rejects_mismatched_key mk T cert other_key" by (simp add: rejects_mismatched_key_def build T is_err_def)
qed

lemma tls_missing_file:
  assumes "is_err (read (ascii ''/nonexistent.crt''))"
  shows "missing_file_is_config_error mk T read dbg home"
proof -
  have "strip_home (ascii ''/nonexistent.crt'') = None" "strip_home (ascii ''/nonexistent.key'') = None"
    by (simp_all add: strip_home_def string_eval)
  with assms show ?thesis
    by (cases "read (ascii ''/nonexistent.crt'')")
      (simp_all add: missing_file_is_config_error_def server_acceptor_from_files_def server_config_from_files_def
        expand_home_def is_tls_config_def is_err_def)
qed

text \<open>A library with these answers: a certificate is one byte and fits the key with the same byte.\<close>

definition byte_tls :: "(unit, u8, u8, u8) tls_lib" where
  "byte_tls =
     \<lparr>tl_certs = (\<lambda>bs. Ok (if length bs = 1 then bs else [])),
      tl_key = (\<lambda>bs. if length bs = 1 then Ok (hd bs) else Err []),
      tl_with_versions = (\<lambda>_. Ok ()), tl_with_single_cert = (\<lambda>_ chain k. if hd chain = k then Ok k else Err [])\<rparr>"

lemma tls_in_tests_satisfiable: "tls_in_tests byte_tls (ascii ''a'') (ascii ''a'') (ascii ''b'')"
  by (simp add: tls_in_tests_def byte_tls_def as_bytes_def encode_utf8_def string_eval is_err_def)

section \<open>messages.rs\<close>

text \<open>\<^verbatim>\<open>encode_inbound\<close>: the client's side of the test.\<close>

primrec encode_inbound :: "prost \<Rightarrow> inbound_message \<Rightarrow> u16 \<Rightarrow> frame" where
  "encode_inbound P (InBind m) opcode = Frame_new opcode (pb_encode (pc_bind_request P) m)"
| "encode_inbound P (InHeartbeat m) opcode = Frame_new opcode (pb_encode (pc_heartbeat_ping P) m)"
| "encode_inbound P (InJoinRoom m) opcode = Frame_new opcode (pb_encode (pc_join_room P) m)"
| "encode_inbound P (InLeaveRoom m) opcode = Frame_new opcode (pb_encode (pc_leave_room P) m)"
| "encode_inbound P (InRoomChat m) opcode = Frame_new opcode (pb_encode (pc_room_chat P) m)"
| "encode_inbound P (InGetProfile m) opcode = Frame_new opcode []"
| "encode_inbound P (InUnknown opc) opcode = Frame_new opcode []"

definition inbound_roundtrip_covers_all_messages :: "prost \<Rightarrow> bool" where
  "inbound_roundtrip_covers_all_messages P \<longleftrightarrow>
     list_all (\<lambda>(message, opcode).
         unwrap_as (GameCodec_decode P (encode_inbound P message opcode)) (\<lambda>decoded.
           decoded = message \<and> InboundMessage_opcode decoded = opcode))
       [(InBind (BindRequest (ascii ''tok'')), OP_C2S_BIND), (InHeartbeat (HeartbeatPing 42), OP_C2S_HEARTBEAT),
        (InJoinRoom (JoinRoomRequest (Some (ascii ''r''))), OP_C2S_JOIN_ROOM), (InLeaveRoom (LeaveRoomRequest None), OP_C2S_LEAVE_ROOM),
        (InRoomChat (RoomChatRequest [0x4F60, 0x597D]), OP_C2S_ROOM_CHAT)]"

definition unknown_opcode_yields_unknown_message :: "prost \<Rightarrow> bool" where
  "unknown_opcode_yields_unknown_message P \<longleftrightarrow>
     unwrap_as (GameCodec_decode P (Frame_new 0x7FFF [])) (\<lambda>decoded.
       decoded = InUnknown 0x7FFF \<and> InboundMessage_opcode decoded = 0x7FFF)"

definition corrupt_payload_is_decode_error :: "prost \<Rightarrow> bool" where
  "corrupt_payload_is_decode_error P \<longleftrightarrow>
     (let bad = Frame_new OP_C2S_BIND [0xFF, 0xFF, 0x01]
      in is_err (GameCodec_decode P bad) \<and> is_ok (GameCodec_decode P (bad\<lparr>fr_payload := []\<rparr>)))"

definition outbound_roundtrip_covers_all_messages :: "prost \<Rightarrow> bool" where
  "outbound_roundtrip_covers_all_messages P \<longleftrightarrow>
     list_all (\<lambda>message.
         unwrap_as (encode_outbound P message) (\<lambda>(opcode, payload).
           opcode \<ge> 0x8001 \<and> is_ok (ClientCodec_decode P (Frame_new opcode payload))))
       [OutBindResult (BindResultMsg True None None None), OutHeartbeatAck (HeartbeatAckMsg 1),
        OutProfile (ProfileResponse True None None (Some 2) None None None),
        OutRoomEvent (RoomEventNotification (Some (PbMemberLeft (ascii ''r'') (ascii ''p'')))),
        OutError (ErrorNotification 1 (ascii ''m'')), OutShutdown (ServerShutdownNotice (ascii ''bye''))]"

definition bind_helpers_carry_fields :: bool where
  "bind_helpers_carry_fields \<longleftrightarrow>
     (case bind_ok (ascii ''player-1'') [0x6635, 0x79F0] of
        OutBindResult result \<Rightarrow> bo_ok result \<and> bo_player_id result = Some (ascii ''player-1'') \<and> bo_nickname result = Some [0x6635, 0x79F0]
      | _ \<Rightarrow> False) \<and>
     (case bind_rejected (ascii ''token '' @ [0x65E0, 0x6548]) of
        OutBindResult result \<Rightarrow> \<not> bo_ok result \<and> bo_error result = Some (ascii ''token '' @ [0x65E0, 0x6548])
      | _ \<Rightarrow> False)"

text \<open>
  What the tests use of the generated decoders, beside the round trip: three bytes that do not form a bind request
  are refused, and an empty payload is a message with all fields at their defaults.
\<close>

definition proto3_in_tests :: "prost \<Rightarrow> bool" where
  "proto3_in_tests P \<longleftrightarrow>
     prost_spec P \<and> is_err (snd (pc_bind_request P) [0xFF, 0xFF, 0x01]) \<and> snd (pc_bind_request P) [] = Ok (BindRequest []) \<and>
     snd (pc_heartbeat_ping P) [] = Ok (HeartbeatPing 0)"

lemma prost_specD:
  assumes "prost_spec P"
  shows "pb_sound (pc_bind_request P)" "pb_sound (pc_heartbeat_ping P)" "pb_sound (pc_join_room P)"
    "pb_sound (pc_leave_room P)" "pb_sound (pc_room_chat P)"
  using assms by (simp_all add: prost_spec_def)

lemma decode_sent: "prost_spec P \<Longrightarrow> \<exists>f. encode_outbound P m = Ok f \<and> ClientCodec_decode P (Frame_new (fst f) (snd f)) = Ok m"
  using server_client_roundtrip [of P m]
  by (cases "encode_outbound P m") (auto simp: GameCodec_encode_def map_ok_def)

lemma outbound_opcode: "encode_outbound P m = Ok f \<Longrightarrow> fst f \<ge> 0x8001"
  by (cases m) (auto simp: s2c_opcode_defs)

lemma message_tests:
  assumes "proto3_in_tests P"
  shows "inbound_roundtrip_covers_all_messages P" "unknown_opcode_yields_unknown_message P"
    "corrupt_payload_is_decode_error P" "outbound_roundtrip_covers_all_messages P" "bind_helpers_carry_fields"
proof -
  have P: "prost_spec P" using assms by (simp add: proto3_in_tests_def)
  show "inbound_roundtrip_covers_all_messages P"
    by (simp add: inbound_roundtrip_covers_all_messages_def GameCodec_decode_def Frame_new_def decode_inbound_def
        c2s_opcode_defs pb_roundtrip prost_specD [OF P] map_ok_def)
  show "unknown_opcode_yields_unknown_message P"
    by (simp add: unknown_opcode_yields_unknown_message_def GameCodec_decode_def Frame_new_def decode_inbound_def c2s_opcode_defs)
  show "corrupt_payload_is_decode_error P"
    using assms by (auto simp: corrupt_payload_is_decode_error_def proto3_in_tests_def GameCodec_decode_def Frame_new_def
        decode_inbound_def c2s_opcode_defs pb_decode_def map_ok_def is_err_def split: result.splits)
  have "unwrap_as (encode_outbound P m) (\<lambda>(opcode, payload).
      opcode \<ge> 0x8001 \<and> is_ok (ClientCodec_decode P (Frame_new opcode payload)))" for m
    using decode_sent [OF P, of m] outbound_opcode [of P m] by (auto split: prod.split)
  then show "outbound_roundtrip_covers_all_messages P"
    unfolding outbound_roundtrip_covers_all_messages_def list_all_iff by blast
  show "bind_helpers_carry_fields" by (simp add: bind_helpers_carry_fields_def bind_ok_def bind_rejected_def)
qed

section \<open>router.rs\<close>

text \<open>The handler counts its calls and panics on any other message; the panic is an error here.\<close>

definition counting_handler :: "(unit, nat) handler" where
  "counting_handler ctx message calls =
     (case message of InHeartbeat _ \<Rightarrow> Ok None | _ \<Rightarrow> Err (HandlerError (ascii ''panicked'')), calls + 1)"

definition heartbeat_router :: "(unit, nat) router" where
  "heartbeat_router = Router_route OP_C2S_HEARTBEAT counting_handler Router_new"

definition dispatches_registered_opcode :: "prost \<Rightarrow> bool" where
  "dispatches_registered_opcode P \<longleftrightarrow>
     unwrap_as (decode_inbound P OP_C2S_HEARTBEAT []) (\<lambda>message.
       case Router_dispatch heartbeat_router () message 0 of (res, calls) \<Rightarrow> unwrap_as res (\<lambda>_. calls = 1))"

definition unregistered_opcode_is_rejected :: bool where
  "unregistered_opcode_is_rejected \<longleftrightarrow>
     err_as (fst (Router_dispatch heartbeat_router () (InUnknown 0x0777) 0)) (\<lambda>err. err = UnsupportedOpcode 0x0777)"

definition route_metadata_is_exposed :: bool where
  "route_metadata_is_exposed \<longleftrightarrow>
     Router_has_route OP_C2S_HEARTBEAT heartbeat_router \<and> \<not> Router_has_route 0x0009 heartbeat_router \<and>
     Router_route_count heartbeat_router = 1"

lemma router_tests:
  "proto3_in_tests P \<Longrightarrow> dispatches_registered_opcode P" "unregistered_opcode_is_rejected" "route_metadata_is_exposed"
proof -
  note routes = heartbeat_router_def Router_route_def Router_new_def Router_dispatch_def Router_has_route_def
    Router_route_count_def counting_handler_def hm_insert_def hm_get_def hm_contains_def c2s_opcode_defs
  show "proto3_in_tests P \<Longrightarrow> dispatches_registered_opcode P"
    by (simp add: dispatches_registered_opcode_def proto3_in_tests_def decode_inbound_def pb_decode_def map_ok_def routes)
  show "unregistered_opcode_is_rejected" by (simp add: unregistered_opcode_is_rejected_def routes)
  show "route_metadata_is_exposed" by (simp add: route_metadata_is_exposed_def routes)
qed

text \<open>Decoders with these answers.\<close>

definition picky_codec :: "'m::countable \<Rightarrow> 'm pb_codec" where
  "picky_codec m0 =
     (\<lambda>m. if m = m0 then [] else replicate (Suc (to_nat m)) 0,
      \<lambda>bs. if bs = [] then Ok m0 else if 0xFF \<in> set bs then Err [] else Ok (from_nat (length bs - 1)))"

lemma picky_sound: "pb_sound (picky_codec m0)"
  by (simp add: pb_sound_def picky_codec_def)

lemma proto3_in_tests_satisfiable:
  "proto3_in_tests (count_prost\<lparr>pc_bind_request := picky_codec (BindRequest []), pc_heartbeat_ping := picky_codec (HeartbeatPing 0)\<rparr>)"
  using count_prost_spec by (simp add: proto3_in_tests_def prost_spec_def picky_sound) (simp add: picky_codec_def is_err_def)

end
