(* ===== verification/LX_TestsGateway.thy ===== *)
theory LX_TestsGateway
  imports LX_TestsNet LX_Gateway LX_HttpRouter
begin

text \<open>
  The unit tests of \<^verbatim>\<open>crates/gateway\<close>: the quota of unauthenticated connections, the registry, the translation of
  room events, the rate limit, the two routers, the status codes and the redirect.
\<close>

section \<open>auth\_gate.rs\<close>

fun ip_octets :: "nat list \<Rightarrow> ip_addr" where
  "ip_octets [a, b, c, d] = ((a * 256 + b) * 256 + c) * 256 + d"
| "ip_octets _ = 0"

definition enforces_per_ip_limit_and_releases_slots :: bool where
  "enforces_per_ip_limit_and_releases_slots \<longleftrightarrow>
     (let a = ip_octets [10, 0, 0, 1];
          (ok1, gate) = AuthGate_acquire a (AuthGate_new 2);
          (ok2, gate) = AuthGate_acquire a gate;
          (ok3, gate) = AuthGate_acquire a gate;
          full = unauth_count a gate;
          (ok4, gate) = AuthGate_acquire a (AuthGate_release a gate);
          gate = AuthGate_release a (AuthGate_release a gate)
      in ok1 \<and> ok2 \<and> \<not> ok3 \<and> full = 2 \<and> ok4 \<and> unauth_count a gate = 0 \<and>
         fst (AuthGate_acquire (ip_octets [10, 0, 0, 2]) gate))"

definition release_without_acquire_is_noop :: bool where
  "release_without_acquire_is_noop \<longleftrightarrow>
     (let a = ip_octets [10, 0, 0, 3]; gate = AuthGate_release a (AuthGate_new 1)
      in unauth_count a gate = 0 \<and> fst (AuthGate_acquire a gate))"

definition permit_drop_releases_only_its_ip :: bool where
  "permit_drop_releases_only_its_ip \<longleftrightarrow>
     (let a = ip_octets [10, 0, 0, 1]; b = ip_octets [10, 0, 0, 2];
          (first, gate) = AuthGate_permit a (AuthGate_new 1);
          (second, gate) = AuthGate_permit a gate;
          (other, gate) = AuthGate_permit b gate
      in some_as first (\<lambda>first. second = None \<and> other \<noteq> None \<and>
           (let gate = AuthPermit_drop first gate in unauth_count a gate = 0 \<and> unauth_count b gate = 1)))"

lemmas gate_eval = AuthGate_new_def AuthGate_acquire_def AuthGate_release_def AuthGate_permit_def AuthPermit_drop_def
  unauth_count_def Let_def hm_get_def hm_insert_def hm_remove_def

lemma auth_gate_tests:
  "enforces_per_ip_limit_and_releases_slots" "release_without_acquire_is_noop" "permit_drop_releases_only_its_ip"
  by (simp_all add: enforces_per_ip_limit_and_releases_slots_def release_without_acquire_is_noop_def
      permit_drop_releases_only_its_ip_def gate_eval)

section \<open>connections.rs\<close>

definition ack :: outbound_message where
  "ack = OutHeartbeatAck (HeartbeatAckMsg 1)"

definition register_count_remove_lifecycle :: "uuid \<Rightarrow> conn_ref \<Rightarrow> bool" where
  "register_count_remove_lifecycle conn tx \<longleftrightarrow>
     (let registry = ConnectionRegistry_register conn tx [];
          (removed, registry') = ConnectionRegistry_remove conn registry
      in active_count registry = 1 \<and> removed \<noteq> None \<and> active_count registry' = 0)"

definition broadcast_delivers_to_live_queues :: "prost \<Rightarrow> uuid \<Rightarrow> uuid \<Rightarrow> bool" where
  "broadcast_delivers_to_live_queues P u1 u2 \<longleftrightarrow>
     (let registry = ConnectionRegistry_register u2 2 (ConnectionRegistry_register u1 1 []);
          (sent, q) = ConnectionRegistry_broadcast list_mpsc P ack registry (\<lambda>_. OutboundSender_new (frame_channel 4));
          (r1, s1) = recv_frame (q 1);
          (r2, s2) = recv_frame (q 2);
          (sent', q') = ConnectionRegistry_broadcast list_mpsc P ack registry (q(1 := drop_receiver s1, 2 := drop_receiver s2))
      in sent = 2 \<and> r1 \<noteq> None \<and> r2 \<noteq> None \<and> sent' = 0)"

lemma connection_registry_tests:
  "register_count_remove_lifecycle conn tx" "u1 \<noteq> u2 \<Longrightarrow> broadcast_delivers_to_live_queues P u1 u2"
  by (simp_all add: register_count_remove_lifecycle_def broadcast_delivers_to_live_queues_def ConnectionRegistry_register_def
      ConnectionRegistry_remove_def ConnectionRegistry_broadcast_def active_count_def GameCodec_encode_def ack_def map_ok_def
      hm_get_def hm_insert_def hm_remove_def hm_values_def queue_eval)

section \<open>convert.rs\<close>

definition every_room_event_maps_to_proto_oneof :: "uuid_lib \<Rightarrow> uuid \<Rightarrow> uuid \<Rightarrow> bool" where
  "every_room_event_maps_to_proto_oneof U r p \<longleftrightarrow>
     (let room = RoomId r; player = PlayerId p;
          joined = room_event_to_notification U (MemberJoined room player [0x73A9, 0x5BB6]);
          left = room_event_to_notification U (MemberLeft room player);
          chat = room_event_to_notification U (ChatEvent room player [0x73A9, 0x5BB6] [0x4F60, 0x597D]);
          closed = room_event_to_notification U (ClosedEvent room [0x505C, 0x673A])
      in (case re_event joined of Some (PbMemberJoined room_id _ _) \<Rightarrow> room_id = ul_show U r | _ \<Rightarrow> False) \<and>
         (case re_event left of Some (PbMemberLeft _ _) \<Rightarrow> True | _ \<Rightarrow> False) \<and>
         (case re_event chat of Some (PbRoomChat _ _ _ t) \<Rightarrow> t = [0x4F60, 0x597D] | _ \<Rightarrow> False) \<and>
         (case re_event closed of Some (PbRoomClosed _ reason) \<Rightarrow> reason = [0x505C, 0x673A] | _ \<Rightarrow> False))"

lemma convert_tests: "every_room_event_maps_to_proto_oneof U r p"
  by (simp add: every_room_event_maps_to_proto_oneof_def Let_def)

section \<open>router\_setup.rs\<close>

definition all_c2s_opcodes_have_routes :: "(('t, 's, 'q, 'f) ctx, ('t, 's, 'q, 'f) cstate) router \<Rightarrow> bool" where
  "all_c2s_opcodes_have_routes table \<longleftrightarrow>
     Router_route_count table = 6 \<and>
     list_all (\<lambda>opcode. Router_has_route opcode table)
       [OP_C2S_BIND, OP_C2S_HEARTBEAT, OP_C2S_JOIN_ROOM, OP_C2S_LEAVE_ROOM, OP_C2S_ROOM_CHAT, OP_C2S_GET_PROFILE]"

lemma router_setup_tests: "all_c2s_opcodes_have_routes build_router"
  by (simp add: all_c2s_opcodes_have_routes_def build_router_def Router_new_def Router_route_def Router_route_count_def
      Router_has_route_def hm_insert_def hm_contains_def hm_get_def c2s_opcode_defs)

section \<open>error.rs of the HTTP gateway\<close>

definition maps_app_errors_to_http_statuses :: "(status_code \<Rightarrow> rstring option) \<Rightarrow> bool" where
  "maps_app_errors_to_http_statuses reason \<longleftrightarrow>
     list_all (\<lambda>(app_err, expected). hr_status (ApiError_into_response reason (ApiError_from app_err)) = expected)
       [(Validation (ascii ''bad''), 400), (Unauthorized (ascii ''no''), 401), (Forbidden (ascii ''no''), 403), (NotFound (ascii ''x''), 404), (Conflict (ascii ''dup''), 409),
        (Busy, 503), (RateLimited, 429), (Internal (ascii ''boom''), 500), (Storage (ascii ''boom''), 500)]"

lemma http_error_tests: "maps_app_errors_to_http_statuses reason"
  by (simp add: maps_app_errors_to_http_statuses_def ApiError_into_response_def ApiError_new_def)

section \<open>rate\_limit.rs\<close>

definition rate_settings :: rate_limit_settings where
  "rate_settings = \<lparr>rl_enabled = True, rl_per_second = 10, rl_burst = 5\<rparr>"

text \<open>\<open>bucket_tries\<close>: the answers of successive attempts at the given times. \<open>created\<close> is the time of \<^verbatim>\<open>TokenBucket::new\<close>, \<open>start\<close> a later one.\<close>

fun bucket_tries :: "(real \<Rightarrow> real) \<Rightarrow> instant list \<Rightarrow> token_bucket \<Rightarrow> bool list" where
  "bucket_tries rnd [] b = []"
| "bucket_tries rnd (t # ts) b = (case try_acquire rnd t b of (ok, b') \<Rightarrow> ok # bucket_tries rnd ts b')"

definition allows_burst_then_rejects_until_refill :: "(real \<Rightarrow> real) \<Rightarrow> instant \<Rightarrow> instant \<Rightarrow> bool" where
  "allows_burst_then_rejects_until_refill rnd created start \<longleftrightarrow>
     some_as (TokenBucket_new rnd rate_settings created) (\<lambda>bucket.
       let later = start + millis 500
       in bucket_tries rnd (replicate 5 start @ [start, later, later]) bucket = replicate 5 True @ [False, True, True])"

definition refill_never_exceeds_capacity :: "(real \<Rightarrow> real) \<Rightarrow> instant \<Rightarrow> instant \<Rightarrow> bool" where
  "refill_never_exceeds_capacity rnd created start \<longleftrightarrow>
     some_as (TokenBucket_new rnd rate_settings created) (\<lambda>bucket.
       let much_later = start + seconds 3600
       in bucket_tries rnd (replicate 5 much_later @ [much_later]) bucket = replicate 5 True @ [False])"

definition disabled_limit_is_none :: "(real \<Rightarrow> real) \<Rightarrow> instant \<Rightarrow> bool" where
  "disabled_limit_is_none rnd created \<longleftrightarrow>
     TokenBucket_new rnd \<lparr>rl_enabled = False, rl_per_second = 10, rl_burst = 5\<rparr> created = None \<and>
     TokenBucket_new rnd \<lparr>rl_enabled = True, rl_per_second = 0, rl_burst = 5\<rparr> created = None"

definition bucket_at :: "instant \<Rightarrow> real \<Rightarrow> token_bucket" where
  "bucket_at t tokens = \<lparr>tb_capacity = 5, tb_refill_per_sec = 10, tb_tokens = tokens, tb_last_refill = t\<rparr>"

text \<open>Small integers are exact.\<close>

lemma rnd_small: "f64_spec rnd \<Longrightarrow> \<bar>k\<bar> \<le> 1000 \<Longrightarrow> rnd (of_int k) = of_int k"
  by (rule f64_exact) auto

lemma rnd_numerals: "f64_spec rnd \<Longrightarrow> numeral n \<le> (1000 :: int) \<Longrightarrow> rnd (numeral n) = numeral n"
  using rnd_small [of rnd "numeral n"] by simp

lemma rnd_0_1: "f64_spec rnd \<Longrightarrow> rnd 0 = 0" "f64_spec rnd \<Longrightarrow> rnd 1 = 1"
  using rnd_small [of rnd 0] rnd_small [of rnd 1] by simp_all

lemma rnd_nonneg: "f64_spec rnd \<Longrightarrow> 0 \<le> x \<Longrightarrow> 0 \<le> rnd x"
  using f64_mono [of rnd 0 x] by (simp add: rnd_0_1)

lemma new_bucket: "f64_spec rnd \<Longrightarrow> TokenBucket_new rnd rate_settings t = Some (bucket_at t 5)"
  by (simp add: TokenBucket_new_def rate_settings_def bucket_at_def rnd_numerals)

text \<open>An attempt on a full bucket, and an attempt without waiting.\<close>

lemma try_full:
  assumes "f64_spec rnd" and "t \<le> t'"
  shows "try_acquire rnd t' (bucket_at t 5) = (True, bucket_at t' 4)"
proof -
  have "0 \<le> as_secs_f64 rnd (max (t' - t) 0)"
    unfolding as_secs_f64_def by (intro rnd_nonneg [OF assms(1)] add_nonneg_nonneg divide_nonneg_pos) (simp_all add: pos_imp_zdiv_nonneg_iff)
  then have "0 \<le> rnd (as_secs_f64 rnd (max (t' - t) 0) * 10)" by (intro rnd_nonneg [OF assms(1)]) simp
  then have "5 \<le> rnd (5 + rnd (as_secs_f64 rnd (max (t' - t) 0) * 10))"
    using f64_mono [OF assms(1), of 5 "5 + rnd (as_secs_f64 rnd (max (t' - t) 0) * 10)"] by (simp add: rnd_numerals [OF assms(1)])
  then show ?thesis
    using rnd_small [OF assms(1), of 4] by (simp add: try_acquire_def bucket_at_def Let_def min_absorb2)
qed

lemma try_now:
  assumes "f64_spec rnd" and "0 \<le> k" and "k \<le> 5"
  shows "try_acquire rnd t (bucket_at t (of_int k)) = (1 \<le> k, bucket_at t (of_int (if 1 \<le> k then k - 1 else k)))"
  using assms(2,3) rnd_small [OF assms(1), of k] rnd_small [OF assms(1), of "k - 1"]
  by (auto simp: try_acquire_def bucket_at_def as_secs_zero [OF assms(1)] rnd_0_1 [OF assms(1)])

lemma tries_now:
  assumes "f64_spec rnd" and "k \<le> 5"
  shows "bucket_tries rnd (replicate k t @ ts) (bucket_at t (of_nat k)) = replicate k True @ bucket_tries rnd ts (bucket_at t 0)"
  using assms(2)
proof (induction k)
  case (Suc k)
  with try_now [OF assms(1), of "int (Suc k)" t] show ?case by simp
qed simp

lemma burst_tries:
  assumes "f64_spec rnd" and "t \<le> t'"
  shows "bucket_tries rnd (replicate 5 t' @ t' # ts) (bucket_at t 5) = replicate 5 True @ False # bucket_tries rnd ts (bucket_at t' 0)"
proof -
  have "bucket_tries rnd (replicate 5 t' @ t' # ts) (bucket_at t 5) =
      True # bucket_tries rnd (replicate 4 t' @ t' # ts) (bucket_at t' 4)"
    by (simp add: eval_nat_numeral try_full [OF assms, unfolded eval_nat_numeral] try_full [OF assms])
  also have "\<dots> = True # replicate 4 True @ bucket_tries rnd (t' # ts) (bucket_at t' 0)"
    using tries_now [OF assms(1), of 4 t' "t' # ts"] by simp
  also have "bucket_tries rnd (t' # ts) (bucket_at t' 0) = False # bucket_tries rnd ts (bucket_at t' 0)"
    using try_now [OF assms(1), of 0 t'] by simp
  finally show ?thesis by (simp add: eval_nat_numeral)
qed

text \<open>One half is a floating-point number as well.\<close>

lemma half_second_refills:
  assumes "f64_spec rnd" and "rnd (1 / 2) = 1 / 2"
  shows "try_acquire rnd (t + millis 500) (bucket_at t 0) = (True, bucket_at (t + millis 500) 4)"
proof -
  have "rnd 500000000 = 500000000" using f64_exact [OF assms(1), of 500000000] by simp
  then have "as_secs_f64 rnd (millis 500) = rnd (rnd (1 / 2))" by (simp add: as_secs_f64_def time_defs rnd_0_1 [OF assms(1)])
  also have "\<dots> = 1 / 2" unfolding assms(2) by (rule refl)
  finally have el: "as_secs_f64 rnd 500000000 = 1 / 2" by (simp add: time_defs)
  show ?thesis using rnd_small [OF assms(1), of 5] rnd_small [OF assms(1), of 4]
    by (simp add: try_acquire_def bucket_at_def time_defs el)
qed

lemma rate_limit_tests:
  assumes "f64_spec rnd" and "created \<le> start"
  shows "rnd (1 / 2) = 1 / 2 \<Longrightarrow> allows_burst_then_rejects_until_refill rnd created start"
    "refill_never_exceeds_capacity rnd created start" "disabled_limit_is_none rnd created"
proof -
  show "allows_burst_then_rejects_until_refill rnd created start" if "rnd (1 / 2) = 1 / 2"
    using try_now [OF assms(1), of 4 "start + millis 500"]
    by (simp add: allows_burst_then_rejects_until_refill_def new_bucket [OF assms(1)] burst_tries [OF assms] Let_def
        half_second_refills [OF assms(1) that])
  have "created \<le> start + seconds 3600" using assms(2) by (simp add: time_defs)
  from burst_tries [OF assms(1) this, of "[]"] show "refill_never_exceeds_capacity rnd created start"
    by (simp add: refill_never_exceeds_capacity_def new_bucket [OF assms(1)] Let_def)
  show "disabled_limit_is_none rnd created" by (simp add: disabled_limit_is_none_def TokenBucket_new_def)
qed

section \<open>server.rs of the HTTP gateway\<close>

text \<open>
  What the tests use of the authority parser: text, host and port of the accepted values, and that an empty text and one
  with a path are no authority. A port that is no 16-bit number is not given.
\<close>

definition authority_is :: "(rstring \<Rightarrow> authority option) \<Rightarrow> rstring \<Rightarrow> rstring \<Rightarrow> u16 option \<Rightarrow> bool" where
  "authority_is parse s host port \<longleftrightarrow> parse s = Some \<lparr>au_text = s, au_host = host, au_port = port\<rparr>"

definition authorities_in_tests :: "(rstring \<Rightarrow> authority option) \<Rightarrow> bool" where
  "authorities_in_tests parse \<longleftrightarrow>
     authority_is parse (ascii ''game.example.com'') (ascii ''game.example.com'') None \<and> authority_is parse (ascii ''h.local'') (ascii ''h.local'') None \<and>
     authority_is parse (ascii ''example.com:80'') (ascii ''example.com'') (Some 80) \<and>
     authority_is parse (ascii ''example.com:8080'') (ascii ''example.com'') (Some 8080) \<and>
     authority_is parse (ascii ''[::1]:8080'') (ascii ''[::1]'') (Some 8080) \<and> authority_is parse (ascii ''[::1]'') (ascii ''[::1]'') None \<and>
     parse [] = None \<and> parse (ascii ''bad/path'') = None \<and>
     authority_is parse (ascii ''user@example.com'') (ascii ''example.com'') None \<and> authority_is parse (ascii ''example.com:99999'') (ascii ''example.com'') None"

definition test_request :: "http_method \<Rightarrow> rstring \<Rightarrow> rstring option \<Rightarrow> rstring option \<Rightarrow> http_request" where
  "test_request method path path_and_query host =
     \<lparr>qt_method = method, qt_path = path, qt_path_and_query = path_and_query, qt_host = host, qt_authorization = None,
      qt_content_type = None, qt_body = []\<rparr>"

definition header_value :: "http_response \<Rightarrow> rstring \<Rightarrow> rstring option" where
  "header_value r name = map_of (hr_headers r) name"

definition redirect_keeps_host_path_and_method_semantics ::
  "(unit router_call list \<Rightarrow> unit http_handler) \<Rightarrow> (rstring \<Rightarrow> authority option) \<Rightarrow> bool" where
  "redirect_keeps_host_path_and_method_semantics oneshot parse \<longleftrightarrow>
     (let response = fst (oneshot (redirect_router parse show_nat 443)
            (test_request POST (ascii ''/login'') (Some (ascii ''/login?next=/me'')) (Some (ascii ''game.example.com''))) ())
      in hr_status response = 308 \<and> header_value response (ascii ''location'') = Some (ascii ''https://game.example.com/login?next=/me''))"

text \<open>A request target without a path has \<open>None\<close> or \<^verbatim>\<open>/\<close> for its path and query.\<close>

definition redirect_defaults_to_slash_when_path_missing ::
  "(unit router_call list \<Rightarrow> unit http_handler) \<Rightarrow> (rstring \<Rightarrow> authority option) \<Rightarrow> bool \<Rightarrow> bool" where
  "redirect_defaults_to_slash_when_path_missing oneshot parse given \<longleftrightarrow>
     (let response = fst (oneshot (redirect_router parse show_nat 443)
            (test_request GET (ascii ''/'') (if given then Some (ascii ''/'') else None) (Some (ascii ''h.local''))) ())
      in header_value response (ascii ''location'') = Some (ascii ''https://h.local/''))"

definition hsts_header_is_always_present ::
  "(unit router_call list \<Rightarrow> unit http_handler) \<Rightarrow> bool" where
  "hsts_header_is_always_present oneshot \<longleftrightarrow>
     (let app = [Route (ascii ''/x'') GET (\<lambda>q w. (\<lparr>hr_status = 200, hr_headers = [], hr_body = TextBody (ascii ''ok'')\<rparr>, w)), Layer hsts_middleware];
          response = fst (oneshot app (test_request GET (ascii ''/x'') (Some (ascii ''/x'')) None) ())
      in header_value response (ascii ''strict-transport-security'') = Some (ascii ''max-age=63072000; includeSubDomains''))"

definition redirect_replaces_ports_and_validates_authority ::
  "(unit router_call list \<Rightarrow> unit http_handler) \<Rightarrow> (rstring \<Rightarrow> authority option) \<Rightarrow> bool" where
  "redirect_replaces_ports_and_validates_authority oneshot parse \<longleftrightarrow>
     list_all (\<lambda>(host, port, target).
         let response = fst (oneshot (redirect_router parse show_nat port) (test_request GET (ascii ''/a'') (Some (ascii ''/a?q=1'')) (Some host)) ())
         in hr_status response = 308 \<and> header_value response (ascii ''location'') = Some target)
       [((ascii ''example.com:80''), 443, (ascii ''https://example.com/a?q=1'')), ((ascii ''example.com:8080''), 8443, (ascii ''https://example.com:8443/a?q=1'')),
        ((ascii ''[::1]:8080''), 8443, (ascii ''https://[::1]:8443/a?q=1'')), ((ascii ''[::1]''), 443, (ascii ''https://[::1]/a?q=1''))] \<and>
     list_all (\<lambda>host.
         hr_status (fst (oneshot (redirect_router parse show_nat 443) (test_request GET (ascii ''/'') (Some (ascii ''/'')) host) ())) = 400)
       [None, Some [], Some (ascii ''bad/path''), Some (ascii ''user@example.com''), Some (ascii ''example.com:99999'')]"

text \<open>The redirect router answers every request with its only handler.\<close>

lemma redirect_oneshot:
  assumes "axum_spec oneshot"
  shows "oneshot (redirect_router parse sp port) q w =
    (to_https sp port (Option.bind (qt_host q) parse) (qt_path_and_query q), w)"
proof -
  have "dispatched (redirect_router parse sp port) q w (oneshot (redirect_router parse sp port) q w)"
    using assms by (simp add: axum_spec_def redirect_router_def is_layer_def)
  then show ?thesis by (cases "qt_method q = HEAD") (simp_all add: dispatched_def redirect_router_def)
qed

lemma redirect_tests:
  assumes "axum_spec oneshot" and "authorities_in_tests parse"
  shows "redirect_keeps_host_path_and_method_semantics oneshot parse"
    "redirect_defaults_to_slash_when_path_missing oneshot parse given"
    "redirect_replaces_ports_and_validates_authority oneshot parse"
proof -
  note P = assms(2) [unfolded authorities_in_tests_def authority_is_def]
  note served = redirect_oneshot [OF assms(1)] test_request_def header_value_def to_https_def host_acceptable_def string_eval Let_def
  show "redirect_keeps_host_path_and_method_semantics oneshot parse"
    using P by (simp add: redirect_keeps_host_path_and_method_semantics_def served)
  show "redirect_defaults_to_slash_when_path_missing oneshot parse given"
    using P by (simp add: redirect_defaults_to_slash_when_path_missing_def served)
  show "redirect_replaces_ports_and_validates_authority oneshot parse"
    using P by (simp add: redirect_replaces_ports_and_validates_authority_def served show_nat.simps)
qed

lemma hsts_test:
  assumes "axum_spec oneshot"
  shows "hsts_header_is_always_present oneshot"
  using assms [unfolded axum_spec_def, THEN conjunct1, rule_format, of "[Route p m h]" hsts_middleware for p m h]
  by (simp add: hsts_header_is_always_present_def header_value_def hsts_middleware_def)

text \<open>A parser with these answers.\<close>

definition table_authority :: "rstring \<Rightarrow> authority option" where
  "table_authority s =
     map_option (\<lambda>(host, port). \<lparr>au_text = s, au_host = host, au_port = port\<rparr>)
       (map_of [((ascii ''game.example.com''), (ascii ''game.example.com''), None), ((ascii ''h.local''), (ascii ''h.local''), None),
                ((ascii ''example.com:80''), (ascii ''example.com''), Some 80), ((ascii ''example.com:8080''), (ascii ''example.com''), Some 8080),
                ((ascii ''[::1]:8080''), (ascii ''[::1]''), Some 8080), ((ascii ''[::1]''), (ascii ''[::1]''), None),
                ((ascii ''user@example.com''), (ascii ''example.com''), None), ((ascii ''example.com:99999''), (ascii ''example.com''), None)] s)"

lemma authorities_satisfiable: "authorities_in_tests table_authority"
  by (simp add: authorities_in_tests_def authority_is_def table_authority_def string_eval)

end
