(* ===== verification/Spec2Isabelle.thy ===== *)
theory Spec2Isabelle
  imports LX_Startup LX_Quickstart LX_TestsDomain LX_TestsApp LX_TestsRoom LX_TestsConfig LX_TestsInfra LX_TestsNet LX_TestsGateway
begin

text \<open>
  A verification library for LongshipX, a game server in Rust. The server lets clients register and
  log in (HTTP), hands them a session token, and serves a binary protocol over TCP with TLS on which
  a bound client heartbeats, joins rooms, chats and reads its profile.

  \<^bold>\<open>How the program is put together.\<close> The crate \<^verbatim>\<open>domain\<close> holds validated values and aggregates
  (account, player, room, session). \<^verbatim>\<open>application\<close> holds the use cases, the ports (traits) they need, and the
  room system: one actor task per room that owns its state and serves a bounded command queue, and a
  service with a registry of the actors. \<^verbatim>\<open>infrastructure\<close> implements the ports. \<^verbatim>\<open>net-kit\<close> has the frame
  format, the outbound queue with its slow-client policy, the write task and the accept loop.
  \<^verbatim>\<open>protocol\<close> has opcodes, messages, codecs and the router. \<^verbatim>\<open>gateway\<close> ties a TCP connection to the rest:
  admission, authentication gate, handlers, read loop, translation of room events, clean-up.
  A message from a client passes \<^verbatim>\<open>read_frame\<close>, rate limit, decoding, authentication gate and
  session check, the router and a handler; the handler calls a use case or the room service; room
  events come back through the sink of the connection, the translator, the outbound queue and the
  write task.

  \<^bold>\<open>Theories.\<close>
    \<^item> \<open>LX_Prelude\<close>, \<open>LX_Text\<close>, \<open>LX_Utf8\<close>, \<open>LX_HashMap\<close>: results, machine integers, strings (lists of code
      points) and their bytes, the texts of messages, association lists with the laws of a hash map.
    \<^item> \<open>LX_Values\<close>, \<open>LX_Account\<close>, \<open>LX_Player\<close>, \<open>LX_Session\<close>, \<open>LX_Room\<close>: \<^verbatim>\<open>crates/domain\<close>. Shown: experience
      gain terminates, settles and is additive; rooms keep distinct members within capacity and
      a life cycle that only moves forward.
    \<^item> \<open>LX_AppError\<close>, \<open>LX_Ports\<close>, \<open>LX_Auth\<close>: errors, DTOs, ports and use cases of \<^verbatim>\<open>crates/application\<close>. Shown: register,
      log in, resolve; user names are unique; failures change nothing.
    \<^item> \<open>LX_Mpsc\<close>, \<open>LX_RoomActor\<close>, \<open>LX_RoomService\<close>: bounded channels, the room actor, and the service. The
      actor refines \<open>room_spec\<close>, a bounded set of players; the service keeps \<open>service_inv\<close> under every
      interleaving, given as explicit lists of actions of other connections; leaving never fails;
      disconnect clean-up leaves the player in no registered room.
    \<^item> \<open>LX_TokenIndex\<close>, \<open>LX_TokenStore\<close>, \<open>LX_MemoryRepos\<close>, \<open>LX_Converters\<close>: the in-memory backends and the row
      conversions of \<^verbatim>\<open>crates/infrastructure\<close>; \<open>LX_Redis\<close>: the production token store with its Lua scripts;
      \<open>LX_Database\<close>, \<open>LX_DbContract\<close>, \<open>LX_ListDb\<close>: the SeaORM repositories and the registration transaction;
      \<open>LX_Production\<close>: the use cases over both; \<open>LX_Migration\<close>: \<^verbatim>\<open>migration/src\<close>. Shown: both backends keep the
      contracts of the ports, a registration is all or nothing, a player has one session, also when
      requests or answers get lost, and the tables that the migrations create, next to the migrator's table of
      applied migrations, have the columns of the entities.
    \<^item> \<open>LX_Password\<close>, \<open>LX_Events\<close>: the password hasher with its limit on concurrent work, and the event bus.
    \<^item> \<open>LX_Frame\<close>, \<open>LX_Outbound\<close>, \<open>LX_Listener\<close>, \<open>LX_Transport\<close>: \<^verbatim>\<open>crates/net-kit\<close>. Shown: frame streams round trip,
      readers are bounded, nothing is lost silently, a writer that is cut off, be it inside a frame, never
      makes the peer see a frame that was not sent whole; the accept loop, a state machine with a clock in which handlers may
      hang, respects its limit and drains within its shutdown timeout; accepted connections are configured,
      and only TLS 1.3 is offered.
    \<^item> \<open>LX_Protocol\<close>: \<^verbatim>\<open>crates/protocol\<close>. Shown: messages survive encoding, framing and decoding in both directions.
    \<^item> \<open>LX_Gate\<close>, \<open>LX_Gateway\<close>, \<open>LX_Cancel\<close>, \<open>LX_Connection\<close>, \<open>LX_Server\<close>: \<^verbatim>\<open>crates/gateway/src/tcp\<close>. Shown: the quota of unauthenticated
      connections is exact; a burst is bounded; before a successful BIND nothing has an effect; a frame of a bound connection
      has one only if the store knows its token as the token of that player; the admission and the heartbeat deadline hold;
      nothing of a connection outlives it. \<open>LX_Cancel\<close> says what a room call or a handler leaves behind that is
      cancelled at one of its suspension points; \<open>LX_Connection\<close> uses it for the last round of a connection
      whose translator ends first or whose task is aborted, and has the clean-up that the guard of an aborted connection
      spawns as a task of its own. \<open>LX_Server\<close> runs all
      connections at once over the accept loop: the limits on connections, handshakes and unbound connections
      hold together, and the server takes exactly the steps of its accept loop, so it drains as that does.
    \<^item> \<open>LX_Quickstart\<close>: the example client of \<^verbatim>\<open>crates/server-bin/examples\<close>, joined by a byte stream to one connection of
      the server. Shown: the walk-through of the README completes, and how it fails with an unknown token.
    \<^item> \<open>LX_Http\<close>, \<open>LX_HttpRouter\<close>: \<^verbatim>\<open>crates/gateway/src/http\<close>, the error mapping, the Bearer extractor, the
      handlers, the route table and the redirect. Shown: only a resolving token opens the profile
      route, no internal detail reaches a response, and every response carries the transport security header.
    \<^item> \<open>LX_Config\<close>, \<open>LX_Bootstrap\<close>, \<open>LX_Observability\<close>, \<open>LX_Startup\<close>: configuration of \<^verbatim>\<open>crates/infrastructure\<close> and the composition root
      of \<^verbatim>\<open>crates/server-bin\<close>. Shown: integers are read exactly, what an accepted configuration
      guarantees, the order of the start-up, what is served in plain text (the redirect, if configured, and always the
      metrics), the steps of the shutdown in their order and the exit code.
    \<^item> \<open>LX_Fakes\<close>: the test doubles of \<^verbatim>\<open>crates/application/src/fakes.rs\<close>, shown to keep the contracts of the ports.
    \<^item> \<open>LX_TestKit\<close> and \<open>LX_TestsDomain\<close>, \<open>LX_TestsApp\<close>, \<open>LX_TestsRoom\<close>, \<open>LX_TestsConfig\<close>, \<open>LX_TestsInfra\<close>, \<open>LX_TestsNet\<close>,
      \<open>LX_TestsGateway\<close>: the unit tests of the crates as propositions under their own names. Each is proved
      of the model for every identifier, time and random draw; this ties the definitions to behaviour that
      the authors of the program have written down themselves.
    \<^item> this theory: properties that span HTTP login and TCP connection.

  \<^bold>\<open>Contracts.\<close> What one part promises to another is a locale: \<open>user_store\<close> (account and player
  repositories with the registration store), \<open>expiring_token_store\<close> and its stronger form
  \<open>session_token_store\<close>, \<open>auth_backend\<close> (what the use cases need of both), \<open>sticky_sink\<close> (the event sink of a member,
  the outbound queue of a connection) and \<open>room_repository\<close>. They are interpreted on the in-memory
  stores and on the test doubles, the sinks on both queues; the Redis and SeaORM stores satisfy them
  as long as their servers answer, which is a lemma with that hypothesis.

  \<^bold>\<open>Libraries.\<close> Code outside the repository is a parameter with its documented behaviour as a named predicate:
  \<open>mpsc_spec\<close>, \<open>broadcast_spec\<close> (channels), \<open>reader_spec\<close>, \<open>writer_spec\<close>, \<open>socket_spec\<close>, \<open>tls_spec\<close> (network),
  \<open>prost_spec\<close> (protobuf), \<open>axum_spec\<close>, \<open>json_spec\<close> (HTTP framework), \<open>db_spec\<close>, \<open>manager_spec\<close>, \<open>migrator_spec\<close> (ORM and
  database), \<open>redis_spec\<close>, \<open>argon2_spec\<close>, \<open>f64_spec\<close> (rounding). Every one of them is shown to be
  satisfiable by a concrete instance, and the witnesses of the properties use these instances.

  \<^bold>\<open>State and effects.\<close> Structs are records, enums datatypes, integers words of their width; a method on
  shared state takes the state and returns it updated; errors are values of \<open>result\<close>. Queues and
  sinks that several tasks share live in a store and are referred to by address. Clocks, fresh
  identifiers, random bytes, whether a deadline passed first, and what other tasks do at a suspension
  point are arguments, so a theorem holds for every choice of them. A task that is cancelled stops at a suspension point, which is an
  argument too (\<open>call_cut\<close>, \<open>handler_cut\<close>, \<open>writer_end\<close>, \<open>leave_progress\<close>, \<open>conn_end\<close>); a command that is in the queue of a room by then counts as
  handled, as rooms serve their queues in order and whether or not the sender is still there.

  \<^bold>\<open>Bounds.\<close> Loops are structural recursion, except the level-up loop of a player, which has a measure
  (levels below the cap). A frame reader run is indexed by the number of frames, and the
  round trip shows that one more than the frames sent is enough. The accept loop and the server around
  it are inductive step relations, the former with a clock and a measure for its drain phase; \<open>loop_step\<close> has its own
  steps, \<open>accept_step\<close> adds connection tasks that end by themselves. The wait for the connections at shutdown is given by the polls made so
  far; that it is not over yet is the value \<open>None\<close>. The \<^verbatim>\<open>f64\<close> arithmetic of the token bucket is exact up to \<open>2 ^ 53\<close>,
  which bounds the burst in its theorem.

  \<^bold>\<open>Not modelled.\<close> The libraries named above, beyond their predicates. Of the repository's own code: the logging and
  metrics calls (no result depends on them), the certificate helpers of \<^verbatim>\<open>test_support.rs\<close>, and the tests that observe a library or the
  passage of time rather than the program: the TLS handshakes of \<^verbatim>\<open>transport.rs\<close> and \<^verbatim>\<open>listener.rs\<close>, blocked socket
  writes in \<^verbatim>\<open>connection.rs\<close>, and the text layout of an Argon2 hash.
\<close>

section \<open>Properties across components\<close>

text \<open>
  (C6) One session per player, end to end: on the in-memory token store, a successful login ends every
  other connection of that player. Whatever frame a connection that was bound to the player
  with an older token sends after the login, it has no effect beyond an error notice and the
  connection stops.
\<close>

theorem login_ends_old_connections:
  assumes "ld_tokens ldeps = InMemoryTokenStore imax" and "gd_tokens (fst ctx) = InMemoryTokenStore imax"
    and "token_inv t" and "\<not> token_known (random_token bytes) t"
    and "LoginUseCase_execute ldeps ttl now_check now_login now bytes cmd s t l = (Ok lr, s', gw_tokens g, l')"
    and "as_player (cn_auth c) = Some ap" and "ap_player_id ap = lr_player_id lr"
    and "as_session_token (cn_auth c) = Some old" and "old \<noteq> lr_token lr"
    and "admit_frame rnd ctx bucket f (c, g) = (go, bucket', c', g')"
  shows "\<not> go \<and> c' = c \<and> quiet (c, g) g'"
proof -
  have cr: "InMemoryTokenStore_create imax bytes now (lr_player_id lr) ttl t = (Ok (lr_token lr), gw_tokens g)"
    using login_issues [OF assms(5)] assms(1) by (simp add: InMemoryTokenStore_def)
  have "InMemoryTokenStore_resolve (ge_now (snd ctx)) old (gw_tokens g) \<noteq> Ok (Some (lr_player_id lr))"
    using memory_tokens.create_resolve [OF assms(3,4) cr, of "ge_now (snd ctx)" old] assms(9) by auto
  then have "\<not> validate_session ctx (c, g)"
    using assms(2,6-8) by (auto simp: validate_session_def InMemoryTokenStore_def split: result.splits option.splits)
  moreover have "is_authenticated c" using assms(6) by (simp add: is_authenticated_def)
  ultimately show ?thesis using admit_authed_invalid assms(10) by blast
qed

text \<open>Witness: the sample account logs in while a connection bound with another token is alive.\<close>

theorem login_ends_old_connections_witness:
  "\<exists>lr s2 t2 l2. LoginUseCase_execute sample_login_deps 50 0 0 2 [0x0A] sample_login_command
     (fst (snd sample_registered)) InMemoryTokenStore_new (snd (snd sample_registered)) = (Ok lr, s2, t2, l2) \<and>
   \<not> fst (admit_frame (\<lambda>x. x) (sample_deps, sample_env) None (Frame_new OP_C2S_GET_PROFILE [])
       (set_authed \<lparr>ap_player_id = lr_player_id lr, ap_nickname = []\<rparr> [] sample_conn, sample_gw\<lparr>gw_tokens := t2\<rparr>))"
proof -
  obtain lr s2 t2 l2 where log: "LoginUseCase_execute sample_login_deps 50 0 0 2 [0x0A] sample_login_command
      (fst (snd sample_registered)) InMemoryTokenStore_new (snd (snd sample_registered)) = (Ok lr, s2, t2, l2)"
    and k: "\<not> token_known (random_token [0x0A]) InMemoryTokenStore_new"
    using sample_login by blast
  let ?c = "set_authed \<lparr>ap_player_id = lr_player_id lr, ap_nickname = []\<rparr> [] sample_conn"
  let ?g = "sample_gw\<lparr>gw_tokens := t2\<rparr>"
  obtain go b c g where a:
    "admit_frame (\<lambda>x. x) (sample_deps, sample_env) None (Frame_new OP_C2S_GET_PROFILE []) (?c, ?g) = (go, b, c, g)"
    by (metis prod_cases4)
  have log': "LoginUseCase_execute sample_login_deps 50 0 0 2 [0x0A] sample_login_command
      (fst (snd sample_registered)) InMemoryTokenStore_new (snd (snd sample_registered)) = (Ok lr, s2, gw_tokens ?g, l2)"
    using log by simp
  have tok: "[] \<noteq> lr_token lr"
    using memory_tokens.create_token [of 1000 "[0x0A]"] login_issues [OF log] random_token_nonempty [of "[0x0A]"]
    by (fastforce simp: InMemoryTokenStore_def)
  have "\<not> go"
    using login_ends_old_connections [OF _ _ token_inv_new k log' _ _ _ tok a, of 1000] by (simp add: sample_deps_def)
  with log a show ?thesis by auto
qed

text \<open>The token of a login binds a connection, first for the use case alone.\<close>

lemma login_token_binds:
  assumes "ld_tokens ldeps = InMemoryTokenStore imax" and "gd_tokens (fst ctx) = InMemoryTokenStore imax"
    and "ld_players ldeps = InMemoryPlayerRepository" and "gd_players (fst ctx) = InMemoryPlayerRepository"
    and "mem_inv s" and "token_inv t" and "\<not> token_known (random_token bytes) t" and "bytes \<noteq> []"
    and "LoginUseCase_execute ldeps ttl now_check now_login now bytes cmd s t l = (Ok lr, gw_users g, gw_tokens g, l')"
    and "prost_spec (gd_prost (fst ctx))"
    and "ClientCodec_encode (gd_prost (fst ctx)) (InBind (BindRequest (lr_token lr))) = Ok f"
    and "\<not> is_authenticated c" and "ge_now (snd ctx) < now + ttl"
    and "fst (bucket_step rnd (ge_now (snd ctx)) bucket)"
  shows "fst (snd (snd (admit_frame rnd ctx bucket f (c, g)))) =
    set_authed \<lparr>ap_player_id = lr_player_id lr, ap_nickname = lr_nickname lr\<rparr> (lr_token lr) c"
proof -
  let ?r = "BindRequest (lr_token lr)"
  let ?ap = "\<lparr>ap_player_id = lr_player_id lr, ap_nickname = lr_nickname lr\<rparr>"
  have cr: "InMemoryTokenStore_create imax bytes now (lr_player_id lr) ttl t = (Ok (lr_token lr), gw_tokens g)"
    using login_issues [OF assms(9)] assms(1) by (simp add: InMemoryTokenStore_def)
  have tok: "lr_token lr = random_token bytes" by (rule memory_tokens.create_token [OF cr])
  have res: "InMemoryTokenStore_resolve (ge_now (snd ctx)) (lr_token lr) (gw_tokens g) = Ok (Some (lr_player_id lr))"
    using memory_tokens.create_resolve [OF assms(6,7) cr, of "ge_now (snd ctx)" "lr_token lr"] assms(13) by simp
  have trimmed: "trim (lr_token lr) = lr_token lr" "lr_token lr \<noteq> []"
    using trim_random_token random_token_nonempty [OF assms(8)] tok by simp_all
  have acc: "bind_accepts ctx g ?r ?ap"
    using memory_login_player [OF assms(5,3,9)] res trimmed assms(2,4)
    by (auto simp: bind_accepts_def InMemoryTokenStore_def InMemoryPlayerRepository_def)
  obtain b' where b: "bucket_step rnd (ge_now (snd ctx)) bucket = (True, b')"
    using assms(14) by (metis prod.collapse)
  have dec: "GameCodec_decode (gd_prost (fst ctx)) f = Ok (InBind ?r)"
    using client_server_roundtrip [OF assms(10,11)] by simp
  show ?thesis
    using handle_bind_accepted [OF assms(12) acc] trimmed assms(12)
    by (simp add: admit_frame_def b dec split_beta)
qed

text \<open>
  (C7) A client that logs in over HTTP can play over TCP: on the in-memory stores, when the router answers
  \<^verbatim>\<open>POST /login\<close> with 200, the BIND frame a client builds from the token in the body, sent on a connection that is
  not yet bound and within the rate limit before the token expires, binds the connection to the player and
  nickname of the same body.
\<close>

theorem login_then_bind:
  assumes "axum_spec oneshot" and "json_spec J"
    and "ld_tokens (lu_deps (hs_login state)) = InMemoryTokenStore imax" and "gd_tokens (fst ctx) = InMemoryTokenStore imax"
    and "ld_players (lu_deps (hs_login state)) = InMemoryPlayerRepository" and "gd_players (fst ctx) = InMemoryPlayerRepository"
    and "mem_inv s" and "token_inv t" and "\<not> token_known (random_token (he_bytes env)) t" and "he_bytes env \<noteq> []"
    and "qt_method q = POST" and "qt_path q = ascii ''/login''"
    and "oneshot (router J reason env state) q (s, t, l) = (r, gw_users g, gw_tokens g, l')" and "hr_status r = 200"
    and "prost_spec (gd_prost (fst ctx))" and "\<not> is_authenticated c"
    and "ge_now (snd ctx) < he_now env + lu_token_ttl (hs_login state)" and "fst (bucket_step rnd (ge_now (snd ctx)) bucket)"
  shows "\<exists>token player nick secs f. hr_body r = LoginResponse token player nick secs \<and>
    ClientCodec_encode (gd_prost (fst ctx)) (InBind (BindRequest token)) = Ok f \<and>
    fst (snd (snd (admit_frame rnd ctx bucket f (c, g)))) =
      set_authed \<lparr>ap_player_id = PlayerId player, ap_nickname = nick\<rparr> token c"
proof -
  obtain cmd lr where log: "LoginUseCase_execute (lu_deps (hs_login state)) (lu_token_ttl (hs_login state)) (he_check env)
      (he_login env) (he_now env) (he_bytes env) cmd s t l = (Ok lr, gw_users g, gw_tokens g, l')"
    and body: "hr_body r = LoginResponse (lr_token lr) (player_uuid (lr_player_id lr)) (lr_nickname lr) (lr_expires_in_secs lr)"
    by (rule login_route [OF assms(1,2,11-14)])
  obtain f where f: "ClientCodec_encode (gd_prost (fst ctx)) (InBind (BindRequest (lr_token lr))) = Ok f" by simp
  from login_token_binds [OF assms(3-10) log assms(15) f assms(16-18)] body f
  show ?thesis by (cases "lr_player_id lr") auto
qed

text \<open>Witness: the sample account logs in over HTTP and binds.\<close>

theorem login_then_bind_witness:
  "\<exists>r s2 t2 l2 token player nick secs f.
     sample_oneshot (router sample_json (\<lambda>c. None) (sample_http_env 2) sample_http_state)
       (sample_request POST (ascii ''/login'') None)
       (fst (snd sample_registered), InMemoryTokenStore_new, snd (snd sample_registered)) = (r, s2, t2, l2) \<and>
     hr_body r = LoginResponse token player nick secs \<and>
     ClientCodec_encode count_prost (InBind (BindRequest token)) = Ok f \<and>
     is_authenticated (fst (snd (snd (admit_frame (\<lambda>x. x) (sample_deps, sample_env) None f
       (sample_conn, sample_gw\<lparr>gw_tokens := t2, gw_users := s2\<rparr>)))))"
proof -
  obtain lr s2 t2 l2 where log: "LoginUseCase_execute sample_login_deps 50 0 0 2 [0x0A] sample_login_command
      (fst (snd sample_registered)) InMemoryTokenStore_new (snd (snd sample_registered)) = (Ok lr, s2, t2, l2)"
    and k: "\<not> token_known (random_token [0x0A]) InMemoryTokenStore_new" and inv: "mem_inv (fst (snd sample_registered))"
    using sample_login by blast
  let ?g = "sample_gw\<lparr>gw_tokens := t2, gw_users := s2\<rparr>"
  obtain r where r: "sample_oneshot (router sample_json (\<lambda>c. None) (sample_http_env 2) sample_http_state)
      (sample_request POST (ascii ''/login'') None)
      (fst (snd sample_registered), InMemoryTokenStore_new, snd (snd sample_registered)) = (r, gw_users ?g, gw_tokens ?g, l2)"
    "hr_status r = 200" by (rule sample_http_login [OF log]) simp
  have un: "\<not> is_authenticated sample_conn"
    by (simp add: is_authenticated_def sample_conn_def AuthState_default_def)
  have "\<exists>token player nick secs f. hr_body r = LoginResponse token player nick secs \<and>
      ClientCodec_encode (gd_prost (fst (sample_deps, sample_env))) (InBind (BindRequest token)) = Ok f \<and>
      fst (snd (snd (admit_frame (\<lambda>x. x) (sample_deps, sample_env) None f (sample_conn, ?g)))) =
        set_authed \<lparr>ap_player_id = PlayerId player, ap_nickname = nick\<rparr> token sample_conn"
    by (rule login_then_bind [OF axum_spec_sample json_spec_sample _ _ _ _ inv token_inv_new _ _ _ _ r(1) r(2)])
      (use un k count_prost_spec in \<open>simp_all add: sample_deps_def sample_env_def bucket_step_def sample_http_state_def
         sample_http_env_def sample_request_def\<close>)
  with r(1) show ?thesis by (fastforce simp: sample_deps_def)
qed

end
